(* ===== verification/Prelude.thy ===== *)
theory Prelude
  imports Main "HOL-Library.Word"
begin

text \<open>
  Shared vocabulary of the development: the integer types of include/defines.h, the conversions C
  performs between them, big- and little-endian assembly of bytes, buffers written by a driver
  call, decimal printing (\<open>%d\<close>, \<open>%u\<close>), and bounded iteration. Everything here is about the C
  language; the components import it.
\<close>

unbundle bit_operations_syntax

named_theorems cast_simps \<open>conversions between the C integer types\<close>
named_theorems byte_simps \<open>assembling and splitting bytes\<close>

subsection \<open>Integer types (include/defines.h)\<close>

type_synonym u8 = "8 word"
type_synonym u16 = "16 word"
type_synonym u32 = "32 word"
type_synonym u64 = "64 word"

text \<open>
  Signed values are \<open>int\<close>. Storing an \<open>int\<close> into a narrower signed type keeps the low bits
  (the implementation-defined conversion of the compiler the project uses); signed overflow of
  \<open>i32\<close>/\<open>i64\<close> arithmetic is undefined, so \<open>ck32\<close>/\<open>ck64\<close> return \<open>None\<close> there.
\<close>

definition as_signed :: "nat \<Rightarrow> int \<Rightarrow> int" where
  "as_signed w n = (n + 2 ^ (w - 1)) mod 2 ^ w - 2 ^ (w - 1)"

definition as_i8 :: "int \<Rightarrow> int" where "as_i8 = as_signed 8"
definition as_i16 :: "int \<Rightarrow> int" where "as_i16 = as_signed 16"
definition as_i32 :: "int \<Rightarrow> int" where "as_i32 = as_signed 32"

definition ck32 :: "int \<Rightarrow> int option" where
  "ck32 n = (if - (2 ^ 31) \<le> n \<and> n < 2 ^ 31 then Some n else None)"

definition ck64 :: "int \<Rightarrow> int option" where
  "ck64 n = (if - (2 ^ 63) \<le> n \<and> n < 2 ^ 63 then Some n else None)"

lemma as_signed_id: "0 < w \<Longrightarrow> - (2 ^ (w - 1)) \<le> n \<Longrightarrow> n < 2 ^ (w - 1) \<Longrightarrow> as_signed w n = n"
proof -
  assume w: "0 < w" and n: "- (2 ^ (w - 1)) \<le> n" "n < 2 ^ (w - 1)"
  from w have "(2::int) ^ w = 2 * 2 ^ (w - 1)" by (cases w) auto
  with n show ?thesis by (simp add: as_signed_def)
qed

lemma as_i8_id [cast_simps]: "- 128 \<le> n \<Longrightarrow> n < 128 \<Longrightarrow> as_i8 n = n"
  by (simp add: as_i8_def as_signed_def)

lemma as_i16_id [cast_simps]: "- 32768 \<le> n \<Longrightarrow> n < 32768 \<Longrightarrow> as_i16 n = n"
  by (simp add: as_i16_def as_signed_def)

lemma as_i32_id [cast_simps]: "- (2 ^ 31) \<le> n \<Longrightarrow> n < 2 ^ 31 \<Longrightarrow> as_i32 n = n"
  by (simp add: as_i32_def as_signed_def)

lemma as_i8_range: "- 128 \<le> as_i8 n \<and> as_i8 n < 128"
  using pos_mod_sign [of "256::int" "n + 128"] pos_mod_bound [of "256::int" "n + 128"]
  by (simp add: as_i8_def as_signed_def)

lemma as_i16_range: "- 32768 \<le> as_i16 n \<and> as_i16 n < 32768"
  using pos_mod_sign [of "65536::int" "n + 32768"] pos_mod_bound [of "65536::int" "n + 32768"]
  by (simp add: as_i16_def as_signed_def)

lemma ck32_Some [simp]: "ck32 n = Some m \<longleftrightarrow> m = n \<and> - (2 ^ 31) \<le> n \<and> n < 2 ^ 31"
  by (auto simp: ck32_def)

lemma ck64_Some [simp]: "ck64 n = Some m \<longleftrightarrow> m = n \<and> - (2 ^ 63) \<le> n \<and> n < 2 ^ 63"
  by (auto simp: ck64_def)

lemma ck32_in: "\<bar>n\<bar> < 2 ^ 31 \<Longrightarrow> ck32 n = Some n"
  by (auto simp: ck32_def)

lemma ck32_le: "\<bar>n\<bar> \<le> k \<Longrightarrow> k < 2 ^ 31 \<Longrightarrow> ck32 n = Some n"
  by (auto simp: ck32_def)

lemma mult_bound: "\<bar>a\<bar> \<le> A \<Longrightarrow> \<bar>b\<bar> \<le> B \<Longrightarrow> \<bar>a * b :: int\<bar> \<le> A * B"
  by (simp add: abs_mult mult_mono)

lemma div_bound:
  assumes "\<bar>a :: int\<bar> \<le> k * 2 ^ n"
  shows "\<bar>a div 2 ^ n\<bar> \<le> k"
proof -
  from assms have "(- k) * 2 ^ n \<le> a" "a \<le> k * 2 ^ n" by auto
  from zdiv_mono1 [OF this(1), of "2 ^ n"] zdiv_mono1 [OF this(2), of "2 ^ n"]
  have "(- k) * 2 ^ n div 2 ^ n \<le> a div 2 ^ n" "a div 2 ^ n \<le> k * 2 ^ n div 2 ^ n"
    by simp_all
  moreover have "(- k) * 2 ^ n div 2 ^ n = - k" "k * 2 ^ n div 2 ^ n = k"
    by (rule nonzero_mult_div_cancel_right, simp)+
  ultimately show ?thesis by linarith
qed

subsection \<open>Return codes of the Pico SDK that the sources compare with\<close>

definition PICO_OK :: int where "PICO_OK = 0"
definition PICO_ERROR_GENERIC :: int where "PICO_ERROR_GENERIC = - 1"

text \<open>C's \<open>true\<close> as the value of an \<open>i32\<close>/\<open>b8\<close> function.\<close>

abbreviation (input) c_true :: int where "c_true \<equiv> 1"
abbreviation (input) c_false :: int where "c_false \<equiv> 0"

lemma pico_codes [simp]: "PICO_ERROR_GENERIC = - 1" "PICO_OK = 0"
  by (simp_all add: PICO_ERROR_GENERIC_def PICO_OK_def)

subsection \<open>Bytes\<close>

text \<open>\<open>(hi << 8) | lo\<close> computed in \<open>int\<close> and stored into a \<open>u16\<close>.\<close>

definition word16 :: "u8 \<Rightarrow> u8 \<Rightarrow> u16" where
  "word16 hi lo = push_bit 8 (ucast hi) OR ucast lo"

lemma unat_shift_or:
  fixes hi lo :: "'a::len word"
  assumes "unat lo < 2 ^ n" and "unat hi * 2 ^ n < 2 ^ LENGTH('a)"
  shows "unat (push_bit n hi OR lo) = unat hi * 2 ^ n + unat lo"
proof -
  have "unat (push_bit n hi) = push_bit n (unat hi)"
    using assms(2) by (subst unsigned_push_bit_eq) (simp add: take_bit_nat_eq_self push_bit_eq_mult)
  then have "unat (push_bit n hi OR lo) = or (push_bit n (unat hi)) (unat lo)"
    by (simp only: unsigned_or_eq)
  also have "\<dots> = push_bit n (unat hi) + unat lo"
  proof (rule disjunctive_add_eq_or [symmetric])
    have "unat lo = take_bit n (unat lo)"
      using assms(1) by (simp add: take_bit_nat_eq_self)
    then have "push_bit n (unat hi) AND unat lo = push_bit n (unat hi) AND take_bit n (unat lo)"
      by simp
    then show "push_bit n (unat hi) AND unat lo = 0" by (auto simp: bit_eq_iff bit_simps)
  qed
  also have "\<dots> = unat hi * 2 ^ n + unat lo" by (simp add: push_bit_eq_mult)
  finally show ?thesis .
qed

lemma unat_ucast_up: "LENGTH('a) \<le> LENGTH('b) \<Longrightarrow> unat (ucast (x :: 'a::len word) :: 'b::len word) = unat x"
  by (simp add: unsigned_ucast_eq take_bit_nat_eq_self less_le_trans [OF unsigned_less] )

lemma unat_word_of_nat: "n < 2 ^ LENGTH('a) \<Longrightarrow> unat (word_of_nat n :: 'a::len word) = n"
  by (simp add: unat_of_nat take_bit_nat_eq_self)

lemma unat_u8: "unat (b :: u8) < 256"
  using unsigned_less [where ?'a = nat, of b] by simp

lemma unat_u16: "unat (w :: u16) < 65536"
  using unsigned_less [where ?'a = nat, of w] by simp

lemma unat_u32: "unat (w :: u32) < 4294967296"
  using unsigned_less [where ?'a = nat, of w] by simp

lemma unat_word16 [byte_simps]: "unat (word16 hi lo) = unat hi * 256 + unat lo"
  unfolding word16_def
  using unat_shift_or [of "ucast lo :: u16" 8 "ucast hi"] unat_u8 [of hi] unat_u8 [of lo]
  by (simp add: unat_ucast_up)

lemma word16_inject [byte_simps]: "word16 a b = word16 c d \<longleftrightarrow> a = c \<and> b = d"
proof -
  have "word16 a b = word16 c d \<longleftrightarrow> unat a * 256 + unat b = unat c * 256 + unat d"
    by (metis unat_word16 word_unat_eq_iff)
  also have "\<dots> \<longleftrightarrow> unat a = unat c \<and> unat b = unat d"
  proof
    assume eq: "unat a * 256 + unat b = unat c * 256 + unat d"
    have "unat b = (unat a * 256 + unat b) mod 256" "unat a = (unat a * 256 + unat b) div 256"
      using unat_u8 [of b] by simp_all
    then show "unat a = unat c \<and> unat b = unat d"
      unfolding eq using unat_u8 [of d] by simp
  qed simp
  finally show ?thesis by (simp add: word_unat_eq_iff)
qed

lemma unat_add_of_nat_u8: "unat (b :: u8) + k < 256 \<Longrightarrow> unat (b + word_of_nat k) = unat b + k"
  by (simp add: unat_word_ariths unat_of_nat)

lemma unat_u8_Suc: "unat (b :: u8) < 255 \<Longrightarrow> unat (b + 1) = Suc (unat b)"
  by (simp add: unat_word_ariths)

text \<open>Two's complement reading of a \<open>u16\<close> stored into an \<open>i16\<close>.\<close>

lemma as_i16_u16 [cast_simps]: "as_i16 (uint (w :: u16)) = sint w"
proof -
  have "sint w = signed_take_bit 15 (uint w)"
    by (simp add: sint_uint)
  also have "\<dots> = as_i16 (uint w)"
    by (simp add: signed_take_bit_eq_take_bit_shift as_i16_def as_signed_def take_bit_eq_mod)
  finally show ?thesis by simp
qed

subsection \<open>Buffers\<close>

text \<open>
  A call that stores the bytes \<open>bs\<close> at the start of the buffer \<open>buf\<close>, at most \<open>n\<close> of them and
  never past its end.
\<close>

definition fill :: "nat \<Rightarrow> 'a list \<Rightarrow> 'a list \<Rightarrow> 'a list" where
  "fill n bs buf = (let k = take (min n (length buf)) bs in k @ drop (length k) buf)"

lemma length_fill [simp]: "length (fill n bs buf) = length buf"
  by (auto simp: fill_def Let_def)

lemma fill_all: "length bs = n \<Longrightarrow> length buf = n \<Longrightarrow> fill n bs buf = bs"
  by (simp add: fill_def)

lemma nth_fill: "i < length buf \<Longrightarrow> fill n bs buf ! i = (if i < n \<and> i < length bs then bs ! i else buf ! i)"
  by (auto simp: fill_def Let_def nth_append min_def)

text \<open>A read of a buffer; \<open>None\<close> is a read past its end.\<close>

definition rd :: "u8 list \<Rightarrow> nat \<Rightarrow> u8 option" where
  "rd buf i = (if i < length buf then Some (buf ! i) else None)"

subsection \<open>Decimal printing\<close>

fun dec_digits :: "nat \<Rightarrow> string" where
  "dec_digits n =
     (if n < 10 then [char_of (48 + n)] else dec_digits (n div 10) @ [char_of (48 + n mod 10)])"

declare dec_digits.simps [simp del]

definition dec_int :: "int \<Rightarrow> string" where
  "dec_int n = (if n < 0 then ''-'' @ dec_digits (nat (- n)) else dec_digits (nat n))"

lemma length_dec_digits: "0 < k \<Longrightarrow> n < 10 ^ k \<Longrightarrow> length (dec_digits n) \<le> k"
proof (induction n arbitrary: k rule: dec_digits.induct)
  case (1 n)
  show ?case
  proof (cases "n < 10")
    case True
    with 1 show ?thesis by (simp add: dec_digits.simps [of n])
  next
    case False
    with 1(3) have "k \<noteq> 1" by (intro notI) simp
    with 1(2) obtain j where k: "k = Suc j" "0 < j" by (cases k) auto
    with 1(3) have "n div 10 < 10 ^ j" by (simp add: less_mult_imp_div_less mult.commute)
    with 1(1) False k have "length (dec_digits (n div 10)) \<le> j" by blast
    with False k show ?thesis by (simp add: dec_digits.simps [of n])
  qed
qed

lemma dec_digits_nonempty: "0 < length (dec_digits n)"
  by (subst dec_digits.simps) simp

lemma length_dec_u16: "length (dec_digits (unat (x :: u16))) \<le> 5"
  using unat_u16 [of x] by (intro length_dec_digits) auto

lemma length_dec_u8: "length (dec_digits (unat (x :: u8))) \<le> 3"
  using unat_u8 [of x] by (intro length_dec_digits) auto

lemma length_dec_u32: "length (dec_digits (unat (x :: u32))) \<le> 10"
  using unat_u32 [of x] by (intro length_dec_digits) auto

text \<open>
  \<open>snprintf(buffer, cap, ...)\<close> of a text that needs no further conversion: the number of
  characters the whole text has, and what the buffer holds as a C string.
\<close>

definition snprintf :: "nat \<Rightarrow> string \<Rightarrow> nat \<times> string" where
  "snprintf cap text = (length text, take (cap - 1) text)"

subsection \<open>Iteration\<close>

text \<open>The state after \<open>n\<close> rounds of a loop body.\<close>

fun iterate :: "nat \<Rightarrow> ('s \<Rightarrow> 's) \<Rightarrow> 's \<Rightarrow> 's" where
  "iterate 0 f s = s"
| "iterate (Suc n) f s = iterate n f (f s)"

lemma iterate_inv: "P s \<Longrightarrow> (\<And>s. P s \<Longrightarrow> P (f s)) \<Longrightarrow> P (iterate n f s)"
  by (induction n arbitrary: s) auto

lemma iterate_Suc: "iterate (Suc n) f s = f (iterate n f s)"
  by (induction n arbitrary: s) auto

lemma iterate_add: "iterate (m + n) f s = iterate n f (iterate m f s)"
  by (induction m arbitrary: s) auto

end
