(* ===== verification/Bus.thy ===== *)
theory Bus
  imports Prelude
begin

text \<open>
  The I2C side of the firmware as the drivers see it (include/comm/i2c.h, src/comm/i2c.c). The
  calls \<open>i2c_write_blocking\<close> and \<open>i2c_read_blocking\<close> of the Pico SDK are parameters of the
  model: a record of functions that answer from the state of the devices on the bus. Every driver
  runs on a \<open>world\<close> made of that state and a log of what the driver did, in order: taking and
  giving back the bus mutex, transfers, waits. The log is what the locking discipline is stated
  over. Waits (\<open>sleep_ms\<close>, \<open>vTaskDelay\<close> on a 1000 Hz tick) are logged in milliseconds.
\<close>

named_theorems bus_simps \<open>effect of the primitive bus operations on log and lock state\<close>

datatype hw_event =
    Mutex_Enter
  | Mutex_Exit
  | I2C_Write u8 "u8 list" bool
  | I2C_Read u8 nat bool
  | Delay nat
  | Gpio_Function u8
  | Gpio_Pull_Up u8
  | Gpio_Deinit u8
  | Gpio_Output u8
  | Gpio_Put u8 bool
  | Periph_Init u32
  | Periph_Deinit

record 'e world =
  dev :: 'e
  blog :: "hw_event list"

record 'e i2c_env =
  bus_write :: "u8 \<Rightarrow> u8 list \<Rightarrow> bool \<Rightarrow> 'e \<Rightarrow> int \<times> 'e"
  bus_read :: "u8 \<Rightarrow> nat \<Rightarrow> bool \<Rightarrow> 'e \<Rightarrow> (int \<times> u8 list) \<times> 'e"

text \<open>\<open>I2C_Config_t\<close>, its bus instance and mutex being the world the driver is given.\<close>

record i2c_config =
  sda :: u8
  scl :: u8
  speed :: u32

subsection \<open>Primitive operations\<close>

definition emit :: "hw_event \<Rightarrow> 'e world \<Rightarrow> 'e world" where
  "emit e w = w\<lparr>blog := blog w @ [e]\<rparr>"

definition mutex_enter_blocking :: "'e world \<Rightarrow> 'e world" where
  "mutex_enter_blocking = emit Mutex_Enter"

definition mutex_exit :: "'e world \<Rightarrow> 'e world" where
  "mutex_exit = emit Mutex_Exit"

definition delay_ms :: "nat \<Rightarrow> 'e world \<Rightarrow> 'e world" where
  "delay_ms n = emit (Delay n)"

definition i2c_write :: "'e i2c_env \<Rightarrow> u8 \<Rightarrow> u8 list \<Rightarrow> bool \<Rightarrow> 'e world \<Rightarrow> int \<times> 'e world" where
  "i2c_write env a bs nostop w =
     (let (status, d) = bus_write env a bs nostop (dev w)
      in (status, (emit (I2C_Write a bs nostop) w)\<lparr>dev := d\<rparr>))"

text \<open>A read returns the status and the bytes it stored; the caller's buffer keeps the rest.\<close>

definition i2c_read :: "'e i2c_env \<Rightarrow> u8 \<Rightarrow> nat \<Rightarrow> bool \<Rightarrow> 'e world \<Rightarrow> (int \<times> u8 list) \<times> 'e world" where
  "i2c_read env a n nostop w =
     (let (r, d) = bus_read env a n nostop (dev w)
      in (r, (emit (I2C_Read a n nostop) w)\<lparr>dev := d\<rparr>))"

text \<open>src/comm/i2c.c\<close>

definition I2C_Init :: "i2c_config \<Rightarrow> 'e world \<Rightarrow> 'e world" where
  "I2C_Init cfg w =
     (let w = emit (Periph_Init (speed cfg)) w;
          w = emit (Gpio_Function (sda cfg)) w;
          w = emit (Gpio_Function (scl cfg)) w;
          w = emit (Gpio_Pull_Up (sda cfg)) w
      in emit (Gpio_Pull_Up (scl cfg)) w)"

definition I2C_Stop :: "i2c_config \<Rightarrow> 'e world \<Rightarrow> 'e world" where
  "I2C_Stop cfg w =
     (let w = emit (Gpio_Deinit (sda cfg)) w;
          w = emit (Gpio_Deinit (scl cfg)) w
      in emit Periph_Deinit w)"

subsection \<open>The locking discipline\<close>

text \<open>
  The state of the bus mutex after a log, \<open>None\<close> once the discipline was broken: entering a held
  mutex (a deadlock: the SDK's \<open>mutex_t\<close> is not recursive), leaving one that is not held, a
  transfer without holding it, or sleeping while holding it.
\<close>

fun lock_step :: "bool option \<Rightarrow> hw_event \<Rightarrow> bool option" where
  "lock_step None e = None"
| "lock_step (Some held) Mutex_Enter = (if held then None else Some True)"
| "lock_step (Some held) Mutex_Exit = (if held then Some False else None)"
| "lock_step (Some held) (I2C_Write a bs ns) = (if held then Some True else None)"
| "lock_step (Some held) (I2C_Read a n ns) = (if held then Some True else None)"
| "lock_step (Some held) (Delay n) = (if held then None else Some False)"
| "lock_step (Some held) e = Some held"

definition lock_state :: "'e world \<Rightarrow> bool option" where
  "lock_state w = foldl lock_step (Some False) (blog w)"

definition bus_free :: "'e world \<Rightarrow> bool" where
  "bus_free w \<longleftrightarrow> lock_state w = Some False"

text \<open>An operation that returns a value and, started with the bus free, leaves it free.\<close>

definition disciplined :: "('e world \<Rightarrow> 'a \<times> 'e world) \<Rightarrow> bool" where
  "disciplined f \<longleftrightarrow> (\<forall>w. bus_free w \<longrightarrow> bus_free (snd (f w)))"

lemma lock_state_emit [bus_simps]: "lock_state (emit e w) = lock_step (lock_state w) e"
  by (simp add: lock_state_def emit_def)

lemma lock_state_dev [bus_simps]: "lock_state (w\<lparr>dev := d\<rparr>) = lock_state w"
  by (simp add: lock_state_def)

lemma log_emit [bus_simps]: "blog (emit e w) = blog w @ [e]"
  by (simp add: emit_def)

lemma dev_emit [bus_simps]: "dev (emit e w) = dev w"
  by (simp add: emit_def)

lemma lock_mutex [bus_simps]:
  "lock_state (mutex_enter_blocking w) = lock_step (lock_state w) Mutex_Enter"
  "lock_state (mutex_exit w) = lock_step (lock_state w) Mutex_Exit"
  "lock_state (delay_ms n w) = lock_step (lock_state w) (Delay n)"
  by (simp_all add: mutex_enter_blocking_def mutex_exit_def delay_ms_def bus_simps)

lemma log_mutex [bus_simps]:
  "blog (mutex_enter_blocking w) = blog w @ [Mutex_Enter]"
  "blog (mutex_exit w) = blog w @ [Mutex_Exit]"
  "blog (delay_ms n w) = blog w @ [Delay n]"
  by (simp_all add: mutex_enter_blocking_def mutex_exit_def delay_ms_def bus_simps)

lemma dev_mutex [bus_simps]:
  "dev (mutex_enter_blocking w) = dev w"
  "dev (mutex_exit w) = dev w"
  "dev (delay_ms n w) = dev w"
  by (simp_all add: mutex_enter_blocking_def mutex_exit_def delay_ms_def bus_simps)

text \<open>A transfer in one equation: its result, and its effect on log, lock and devices.\<close>

lemma i2c_write_eq:
  "i2c_write env a bs ns w = (fst (bus_write env a bs ns (dev w)), snd (i2c_write env a bs ns w))"
  by (simp add: i2c_write_def split: prod.splits)

lemma i2c_read_eq:
  "i2c_read env a n ns w = (fst (bus_read env a n ns (dev w)), snd (i2c_read env a n ns w))"
  by (simp add: i2c_read_def split: prod.splits)

lemma i2c_write_effect [bus_simps]:
  "fst (i2c_write env a bs ns w) = fst (bus_write env a bs ns (dev w))"
  "lock_state (snd (i2c_write env a bs ns w)) = lock_step (lock_state w) (I2C_Write a bs ns)"
  "blog (snd (i2c_write env a bs ns w)) = blog w @ [I2C_Write a bs ns]"
  "dev (snd (i2c_write env a bs ns w)) = snd (bus_write env a bs ns (dev w))"
  by (simp_all add: i2c_write_def bus_simps split: prod.splits)

lemma i2c_read_effect [bus_simps]:
  "fst (i2c_read env a n ns w) = fst (bus_read env a n ns (dev w))"
  "lock_state (snd (i2c_read env a n ns w)) = lock_step (lock_state w) (I2C_Read a n ns)"
  "blog (snd (i2c_read env a n ns w)) = blog w @ [I2C_Read a n ns]"
  "dev (snd (i2c_read env a n ns w)) = snd (bus_read env a n ns (dev w))"
  by (simp_all add: i2c_read_def bus_simps split: prod.splits)

lemma disciplinedI: "(\<And>w. lock_state w = Some False \<Longrightarrow> lock_state (snd (f w)) = Some False) \<Longrightarrow> disciplined f"
  by (simp add: disciplined_def bus_free_def)

lemma disciplinedD: "disciplined f \<Longrightarrow> lock_state w = Some False \<Longrightarrow> lock_state (snd (f w)) = Some False"
  by (simp add: disciplined_def bus_free_def)

lemma I2C_Init_log: "blog (I2C_Init cfg w) = blog w @
    [Periph_Init (speed cfg), Gpio_Function (sda cfg), Gpio_Function (scl cfg),
     Gpio_Pull_Up (sda cfg), Gpio_Pull_Up (scl cfg)]"
  by (simp add: I2C_Init_def Let_def bus_simps)

lemma I2C_Stop_log: "blog (I2C_Stop cfg w) = blog w @ [Gpio_Deinit (sda cfg), Gpio_Deinit (scl cfg), Periph_Deinit]"
  by (simp add: I2C_Stop_def Let_def bus_simps)

subsection \<open>Start-up retry\<close>

text \<open>
  The loop every sensor task starts with: \<open>while(X_Init(..) != true) vTaskDelay(10 s)\<close>. It may
  run for ever, which is \<open>None\<close>.
\<close>

partial_function (option) retry_init :: "('w \<Rightarrow> int \<times> 'w) \<Rightarrow> ('w \<Rightarrow> 'w) \<Rightarrow> 'w \<Rightarrow> 'w option" where
  "retry_init init wait w =
     (let r = init w in if fst r = 1 then Some (snd r) else retry_init init wait (wait (snd r)))"

text \<open>The state before the attempt numbered \<open>n\<close>.\<close>

fun attempt :: "('w \<Rightarrow> int \<times> 'w) \<Rightarrow> ('w \<Rightarrow> 'w) \<Rightarrow> nat \<Rightarrow> 'w \<Rightarrow> 'w" where
  "attempt init wait 0 w = w"
| "attempt init wait (Suc n) w = attempt init wait n (wait (snd (init w)))"

lemma retry_init_returns:
  "fst (init (attempt init wait n w)) = 1 \<Longrightarrow> \<exists>w'. retry_init init wait w = Some w'"
proof (induction n arbitrary: w)
  case 0
  then show ?case by (subst retry_init.simps) (simp add: Let_def)
next
  case (Suc n)
  then show ?case by (subst retry_init.simps) (simp add: Let_def)
qed

lemma retry_init_inv:
  assumes "retry_init init wait w = Some w'" and "P w"
    and init: "\<And>w. P w \<Longrightarrow> P (snd (init w))" and wait: "\<And>w. P w \<Longrightarrow> P (wait w)"
  shows "P w'"
proof -
  have "init = init \<longrightarrow> wait = wait \<longrightarrow> P w \<longrightarrow> P w'"
  proof (rule retry_init.raw_induct [where P = "\<lambda>i wt w r. i = init \<longrightarrow> wt = wait \<longrightarrow> P w \<longrightarrow> P r", OF _ assms(1)])
    fix f i wt v r
    assume IH: "\<And>i wt w r. f i wt w = Some r \<Longrightarrow> i = init \<longrightarrow> wt = wait \<longrightarrow> P w \<longrightarrow> P r"
      and eq: "(let r = i v in if fst r = 1 then Some (snd r) else f i wt (wt (snd r))) = Some r"
    show "i = init \<longrightarrow> wt = wait \<longrightarrow> P v \<longrightarrow> P r"
      using eq init [of v] wait [of "snd (init v)"] IH [of init wait "wait (snd (init v))" r]
      by (auto simp: Let_def split: if_splits)
  qed
  with assms(2) show ?thesis by simp
qed

text \<open>A task that keeps failing to initialise is still in its start-up loop after any number of tries.\<close>

lemma retry_init_exact:
  "(\<forall>i < n. fst (init (attempt init wait i w)) \<noteq> 1) \<Longrightarrow> fst (init (attempt init wait n w)) = 1 \<Longrightarrow>
   retry_init init wait w = Some (snd (init (attempt init wait n w)))"
proof (induction n arbitrary: w)
  case 0
  then show ?case by (subst retry_init.simps) (simp add: Let_def)
next
  case (Suc n)
  have "fst (init w) \<noteq> 1" using Suc.prems(1) by (metis attempt.simps(1) zero_less_Suc)
  moreover have "\<forall>i < n. fst (init (attempt init wait i (wait (snd (init w))))) \<noteq> 1"
    using Suc.prems(1) by (metis Suc_less_eq attempt.simps(2))
  ultimately show ?case
    using Suc by (subst retry_init.simps) (simp add: Let_def)
qed

subsection \<open>Two concrete buses\<close>

text \<open>One on which every transfer succeeds and reads return the same bytes, one without any device.\<close>

definition answer_env :: "u8 list \<Rightarrow> unit i2c_env" where
  "answer_env bytes = \<lparr>bus_write = \<lambda>a bs ns d. (int (length bs), d),
                       bus_read = \<lambda>a n ns d. ((int n, take n bytes), d)\<rparr>"

definition silent_env :: "unit i2c_env" where
  "silent_env = \<lparr>bus_write = \<lambda>a bs ns d. (- 1, d), bus_read = \<lambda>a n ns d. ((- 1, []), d)\<rparr>"

definition quiet_world :: "unit world" where
  "quiet_world = \<lparr>dev = (), blog = []\<rparr>"

lemma answer_env_simps [bus_simps]:
  "bus_write (answer_env bytes) a bs ns d = (int (length bs), d)"
  "bus_read (answer_env bytes) a n ns d = ((int n, take n bytes), d)"
  "bus_write silent_env a bs ns d = (- 1, d)"
  "bus_read silent_env a n ns d = ((- 1, []), d)"
  by (simp_all add: answer_env_def silent_env_def)

lemma quiet_world_free [simp]: "lock_state quiet_world = Some False"
  by (simp add: quiet_world_def lock_state_def)

end
