(* ===== verification/Task.thy ===== *)
theory Task
  imports Bus
begin

text \<open>
  The shape every sensor task of the firmware has: once the mode bit is set, a start-up loop that
  repeats the driver's \<open>X_Init\<close> every few seconds until it returns \<open>true\<close>, a settling delay, and
  an endless loop of polling rounds, each of which may send one packet to the sensor's queue. The
  locale \<open>sensor_task\<close> states what a driver promises to that loop and proves what the task then
  keeps: the bus mutex is never left held, never taken twice, and no transfer happens without it.
\<close>

text \<open>\<open>sent\<close> lists the packets handed to \<open>xQueueSend\<close>, oldest first.\<close>

record ('c, 'p, 'e) task_state =
  conf :: 'c
  packet :: 'p
  sent :: "'p list"
  wld :: "'e world"

definition send :: "'p \<Rightarrow> ('c, 'p, 'e) task_state \<Rightarrow> ('c, 'p, 'e) task_state" where
  "send p t = t\<lparr>sent := sent t @ [p]\<rparr>"

definition task_delay :: "nat \<Rightarrow> ('c, 'p, 'e) task_state \<Rightarrow> ('c, 'p, 'e) task_state" where
  "task_delay n t = t\<lparr>wld := delay_ms n (wld t)\<rparr>"

text \<open>A driver call that updates the configuration, run inside a task.\<close>

definition on_conf ::
  "('c \<Rightarrow> 'e world \<Rightarrow> (int \<times> 'c) \<times> 'e world) \<Rightarrow> ('c, 'p, 'e) task_state \<Rightarrow> int \<times> ('c, 'p, 'e) task_state" where
  "on_conf f t = (let ((st, c), w) = f (conf t) (wld t) in (st, t\<lparr>conf := c, wld := w\<rparr>))"

text \<open>\<open>n\<close> rounds of a loop whose body may have undefined behaviour.\<close>

fun rounds :: "nat \<Rightarrow> ('s \<Rightarrow> 's option) \<Rightarrow> 's \<Rightarrow> 's option" where
  "rounds 0 f s = Some s"
| "rounds (Suc n) f s = Option.bind (f s) (rounds n f)"

lemma rounds_inv:
  "rounds n f s = Some s' \<Longrightarrow> P s \<Longrightarrow> (\<And>s r. P s \<Longrightarrow> f s = Some r \<Longrightarrow> P r) \<Longrightarrow> P s'"
  by (induction n arbitrary: s) (auto simp: bind_eq_Some_conv)

lemma rounds_defined:
  "P s \<Longrightarrow> (\<And>s. P s \<Longrightarrow> \<exists>r. f s = Some r \<and> P r) \<Longrightarrow> \<exists>s'. rounds n f s = Some s'"
proof (induction n arbitrary: s)
  case (Suc n)
  then obtain r where "f s = Some r" "P r" by blast
  with Suc.IH Suc.prems(2) show ?case by simp
qed simp

text \<open>
  The start-up loop and \<open>n\<close> rounds after it: \<open>None\<close> when the sensor never initialises or a round
  has undefined behaviour.
\<close>

definition run_task ::
  "(('c, 'p, 'e) task_state \<Rightarrow> int \<times> ('c, 'p, 'e) task_state) \<Rightarrow> nat \<Rightarrow> nat \<Rightarrow>
   (('c, 'p, 'e) task_state \<Rightarrow> ('c, 'p, 'e) task_state option) \<Rightarrow> nat \<Rightarrow>
   ('c, 'p, 'e) task_state \<Rightarrow> ('c, 'p, 'e) task_state option" where
  "run_task init retry_ms settle_ms round n t =
     Option.bind (retry_init init (task_delay retry_ms) t) (\<lambda>t.
     rounds n round (task_delay settle_ms t))"

named_theorems task_simps \<open>effect of the task primitives on the fields of the task state\<close>

lemma send_simps [task_simps]:
  "conf (send p t) = conf t" "packet (send p t) = packet t" "sent (send p t) = sent t @ [p]"
  "wld (send p t) = wld t"
  by (simp_all add: send_def)

lemma task_delay_simps [task_simps]:
  "conf (task_delay n t) = conf t" "packet (task_delay n t) = packet t" "sent (task_delay n t) = sent t"
  "wld (task_delay n t) = delay_ms n (wld t)"
  by (simp_all add: task_delay_def)

lemma on_conf_simps [task_simps]:
  "fst (on_conf f t) = fst (fst (f (conf t) (wld t)))"
  "conf (snd (on_conf f t)) = snd (fst (f (conf t) (wld t)))"
  "packet (snd (on_conf f t)) = packet t" "sent (snd (on_conf f t)) = sent t"
  "wld (snd (on_conf f t)) = snd (f (conf t) (wld t))"
  by (simp_all add: on_conf_def split: prod.splits)

definition task_free :: "('c, 'p, 'e) task_state \<Rightarrow> bool" where
  "task_free t \<longleftrightarrow> lock_state (wld t) = Some False"

lemma task_free_delay: "task_free t \<Longrightarrow> task_free (task_delay n t)"
  by (simp add: task_free_def task_simps bus_simps)

locale sensor_task =
  fixes init :: "('c, 'p, 'e) task_state \<Rightarrow> int \<times> ('c, 'p, 'e) task_state"
    and round :: "('c, 'p, 'e) task_state \<Rightarrow> ('c, 'p, 'e) task_state option"
  assumes init_free: "task_free t \<Longrightarrow> task_free (snd (init t))"
    and init_sent: "sent (snd (init t)) = sent t"
    and round_free: "task_free t \<Longrightarrow> round t = Some t' \<Longrightarrow> task_free t'"
    and round_sent: "round t = Some t' \<Longrightarrow> \<exists>ps. sent t' = sent t @ ps \<and> length ps \<le> 1"
begin

lemma run_free:
  assumes "task_free t" and "run_task init a b round n t = Some t'"
  shows "task_free t'"
proof -
  from assms(2) obtain s where s: "retry_init init (task_delay a) t = Some s"
    and r: "rounds n round (task_delay b s) = Some t'"
    by (auto simp: run_task_def bind_eq_Some_conv)
  have "task_free s"
    by (rule retry_init_inv [OF s, where P = task_free]) (auto intro: assms init_free task_free_delay)
  then show ?thesis
    by (intro rounds_inv [OF r, where P = task_free]) (auto intro: task_free_delay round_free)
qed

lemma rounds_sent:
  "rounds n round t = Some t' \<Longrightarrow> \<exists>ps. sent t' = sent t @ ps \<and> length ps \<le> n"
proof (induction n arbitrary: t)
  case (Suc n)
  then obtain r where r: "round t = Some r" "rounds n round r = Some t'"
    by (auto simp: bind_eq_Some_conv)
  obtain ps where "sent r = sent t @ ps" "length ps \<le> 1" using round_sent [OF r(1)] by blast
  moreover obtain qs where "sent t' = sent r @ qs" "length qs \<le> n" using Suc.IH [OF r(2)] by blast
  ultimately show ?case by (intro exI [of _ "ps @ qs"]) simp
qed simp

text \<open>At most one packet a round, and nothing during start-up.\<close>

lemma run_sent:
  assumes "run_task init a b round n t = Some t'"
  shows "\<exists>ps. sent t' = sent t @ ps \<and> length ps \<le> n"
proof -
  from assms obtain s where s: "retry_init init (task_delay a) t = Some s"
    and r: "rounds n round (task_delay b s) = Some t'"
    by (auto simp: run_task_def bind_eq_Some_conv)
  have "sent s = sent t"
    by (rule retry_init_inv [OF s, where P = "\<lambda>s. sent s = sent t"]) (auto simp: init_sent task_simps)
  with rounds_sent [OF r] show ?thesis by (simp add: task_simps)
qed

end

end
