(* ===== verification/F32.thy ===== *)
theory F32
  imports Prelude Complex_Main "HOL-Library.Log_Nat"
begin

text \<open>
  The C type \<open>float\<close> (\<open>f32\<close> of include/defines.h) as IEEE-754 binary32 with round to nearest,
  ties to even, executable over exact rationals: a finite value is \<open>Num r\<close> with \<open>r\<close> on the
  binary32 grid, and every operation is the exact rational result rounded once. Conversions from
  integers, comparisons (false on NaN), truncation to an integer and \<open>%.nf\<close> printing follow.
  The expressions of the sources are evaluated operation by operation, without contraction to
  fused multiply-add. The functions of the C mathematics library are not modelled: a component
  that calls \<open>logf\<close> or \<open>expf\<close> takes them as a parameter.
\<close>

subsection \<open>Powers of two and binary logarithm\<close>

definition pow2 :: "int \<Rightarrow> rat" where
  "pow2 e = (if 0 \<le> e then 2 ^ nat e else 1 / 2 ^ nat (- e))"

lemma pow2_powi: "pow2 e = 2 powi e"
  by (simp add: pow2_def power_int_def field_simps)

lemma pow2_pos [simp]: "0 < pow2 e"
  by (simp add: pow2_def)

lemma pow2_nonzero [simp]: "pow2 e \<noteq> 0"
  using pow2_pos [of e] by linarith

lemma abs_pow2 [simp]: "\<bar>pow2 e\<bar> = pow2 e"
  by (simp add: less_imp_le)

lemma pow2_add: "pow2 (a + b) = pow2 a * pow2 b"
  by (simp add: pow2_powi power_int_add)

lemma pow2_diff: "pow2 (a - b) = pow2 a / pow2 b"
  by (simp add: pow2_powi power_int_diff)

lemma pow2_mono: "a \<le> b \<Longrightarrow> pow2 a \<le> pow2 b"
  by (simp add: pow2_powi power_int_increasing)

lemma pow2_less_iff [simp]: "pow2 a < pow2 b \<longleftrightarrow> a < b"
  by (metis linorder_not_less nless_le pow2_mono pow2_powi power_int_strict_increasing one_less_numeral_iff semiring_norm(76))

lemma pow2_nat: "0 \<le> e \<Longrightarrow> pow2 e = of_int (2 ^ nat e)"
  by (simp add: pow2_def)

definition ilog2 :: "rat \<Rightarrow> int" where
  "ilog2 r = (let (p, q) = quotient_of r; k = bitlen p - bitlen q
              in if r < pow2 k then k - 1 else k)"

lemma bitlen_pow2: "0 < (p::int) \<Longrightarrow> pow2 (bitlen p - 1) \<le> of_int p \<and> of_int p < pow2 (bitlen p)"
proof -
  assume p: "0 < p"
  then have b: "0 < bitlen p" using bitlen_bounds [OF p] by (cases "bitlen p = 0") (auto simp: bitlen_def)
  from bitlen_bounds [OF p] have "2 ^ nat (bitlen p - 1) \<le> p" "p < 2 ^ nat (bitlen p)" by auto
  then have "of_int (2 ^ nat (bitlen p - 1)) \<le> (of_int p :: rat)" "(of_int p :: rat) < of_int (2 ^ nat (bitlen p))"
    by (simp_all only: of_int_le_iff of_int_less_iff)
  with b show ?thesis by (simp add: pow2_nat)
qed

lemma ilog2_bounds:
  assumes "0 < r"
  shows "pow2 (ilog2 r) \<le> r" and "r < pow2 (ilog2 r + 1)"
proof -
  obtain p q where pq: "quotient_of r = (p, q)" by fastforce
  then have r: "r = of_int p / of_int q" and q: "0 < q"
    by (simp_all add: quotient_of_div quotient_of_denom_pos)
  with assms have p: "0 < p" by (simp add: zero_less_divide_iff)
  note bp = bitlen_pow2 [OF p] note bq = bitlen_pow2 [OF q]
  let ?k = "bitlen p - bitlen q"
  have lo: "pow2 (?k - 1) \<le> r"
  proof -
    have "pow2 (?k - 1) = pow2 (bitlen p - 1) / pow2 (bitlen q)"
      using pow2_diff [of "bitlen p - 1" "bitlen q"] by (simp add: algebra_simps)
    also have "\<dots> \<le> of_int p / of_int q"
      using bp bq q p by (intro frac_le) auto
    finally show ?thesis by (simp add: r)
  qed
  have hi: "r < pow2 (?k + 1)"
  proof -
    have "of_int p / of_int q \<le> of_int p / pow2 (bitlen q - 1)"
    proof (rule divide_left_mono)
      show "(0::rat) \<le> of_int p" using p by simp
      show "0 < of_int q * pow2 (bitlen q - 1)" using q by simp
    qed (use bq in simp)
    also have "\<dots> < pow2 (bitlen p) / pow2 (bitlen q - 1)"
      using bp by (intro divide_strict_right_mono) auto
    also have "\<dots> = pow2 (?k + 1)"
      using pow2_diff [of "bitlen p" "bitlen q - 1"] by (simp add: algebra_simps)
    finally show ?thesis by (simp add: r)
  qed
  show "pow2 (ilog2 r) \<le> r" using lo by (auto simp: ilog2_def pq Let_def)
  show "r < pow2 (ilog2 r + 1)" using hi by (auto simp: ilog2_def pq Let_def)
qed

lemma ilog2_le_iff: "0 < r \<Longrightarrow> ilog2 r \<le> e \<longleftrightarrow> r < pow2 (e + 1)"
proof -
  assume r: "0 < r"
  show ?thesis
  proof
    assume "ilog2 r \<le> e"
    then have "pow2 (ilog2 r + 1) \<le> pow2 (e + 1)" by (simp add: pow2_mono)
    with ilog2_bounds(2) [OF r] show "r < pow2 (e + 1)" by linarith
  next
    assume "r < pow2 (e + 1)"
    with ilog2_bounds(1) [OF r] have "pow2 (ilog2 r) < pow2 (e + 1)" by linarith
    then show "ilog2 r \<le> e" by simp
  qed
qed

lemma ilog2_mono: "0 < r \<Longrightarrow> r \<le> s \<Longrightarrow> ilog2 r \<le> ilog2 s"
  using ilog2_bounds [of s] by (subst ilog2_le_iff) auto

subsection \<open>Rounding to an integer, ties to even\<close>

definition rne :: "rat \<Rightarrow> int" where
  "rne x = (let f = \<lfloor>x\<rfloor>; d = x - of_int f
            in if d < 1/2 then f else if 1/2 < d then f + 1 else if even f then f else f + 1)"

lemma rne_of_int [simp]: "rne (of_int n) = n"
  by (simp add: rne_def)

lemma rne_error: "\<bar>of_int (rne x) - x\<bar> \<le> 1/2"
proof -
  have "of_int \<lfloor>x\<rfloor> \<le> x" "x < of_int \<lfloor>x\<rfloor> + 1" by linarith+
  then show ?thesis by (auto simp: rne_def Let_def abs_le_iff)
qed

lemma rne_le: "x \<le> of_int k \<Longrightarrow> rne x \<le> k"
proof -
  assume x: "x \<le> of_int k"
  show ?thesis
  proof (cases "x = of_int k")
    case False
    with x have "\<lfloor>x\<rfloor> < k" by linarith
    then show ?thesis by (auto simp: rne_def Let_def)
  qed simp
qed

lemma rne_ge: "of_int k \<le> x \<Longrightarrow> k \<le> rne x"
proof -
  assume "of_int k \<le> x"
  then have "k \<le> \<lfloor>x\<rfloor>" by linarith
  then show ?thesis by (auto simp: rne_def Let_def)
qed

lemma rne_mono: "x \<le> y \<Longrightarrow> rne x \<le> rne y"
proof -
  assume xy: "x \<le> y"
  show ?thesis
  proof (cases "\<lfloor>x\<rfloor> = \<lfloor>y\<rfloor>")
    case True
    with xy show ?thesis by (auto simp: rne_def Let_def)
  next
    case False
    with xy have "\<lfloor>x\<rfloor> + 1 \<le> \<lfloor>y\<rfloor>" using floor_mono [OF xy] by linarith
    moreover have "rne x \<le> \<lfloor>x\<rfloor> + 1" by (rule rne_le) linarith
    moreover have "\<lfloor>y\<rfloor> \<le> rne y" by (rule rne_ge) linarith
    ultimately show ?thesis by linarith
  qed
qed

subsection \<open>The type and rounding to it\<close>

datatype f32 = NaN | Inf bool | NegZero | Num rat

text \<open>Exponent of the last place of a value of this size: 24 significant bits, least \<open>2^-149\<close>.\<close>

definition bexp :: "rat \<Rightarrow> int" where
  "bexp r = max (- 149) (ilog2 \<bar>r\<bar> - 23)"

definition rnd :: "rat \<Rightarrow> rat" where
  "rnd r = (if r = 0 then 0 else of_int (rne (r / pow2 (bexp r))) * pow2 (bexp r))"

definition f32_of :: "rat \<Rightarrow> f32" where
  "f32_of r = (let v = rnd r
     in if pow2 128 \<le> \<bar>v\<bar> then Inf (r < 0) else if v = 0 \<and> r < 0 then NegZero else Num v)"

fun val :: "f32 \<Rightarrow> rat" where
  "val (Num r) = r"
| "val _ = 0"

fun negative :: "f32 \<Rightarrow> bool" where
  "negative (Num r) = (r < 0)"
| "negative NegZero = True"
| "negative (Inf s) = s"
| "negative NaN = False"

fun is_finite :: "f32 \<Rightarrow> bool" where
  "is_finite (Num r) = True"
| "is_finite NegZero = True"
| "is_finite _ = False"

definition signed_zero :: "bool \<Rightarrow> f32" where
  "signed_zero s = (if s then NegZero else Num 0)"

instantiation f32 :: "{zero, one, uminus, plus, minus, times, inverse, ord}"
begin

definition zero_f32 :: f32 where "0 = Num 0"

definition one_f32 :: f32 where "1 = Num 1"

fun uminus_f32 :: "f32 \<Rightarrow> f32" where
  "- NaN = NaN"
| "- (Inf s) = Inf (\<not> s)"
| "- NegZero = Num 0"
| "- (Num r) = (if r = 0 then NegZero else Num (- r))"

fun plus_f32 :: "f32 \<Rightarrow> f32 \<Rightarrow> f32" where
  "NaN + y = NaN"
| "x + NaN = NaN"
| "Inf s + Inf t = (if s = t then Inf s else NaN)"
| "Inf s + y = Inf s"
| "x + Inf t = Inf t"
| "NegZero + NegZero = NegZero"
| "x + y = f32_of (val x + val y)"

definition minus_f32 :: "f32 \<Rightarrow> f32 \<Rightarrow> f32" where
  "x - y = x + (- y :: f32)"

fun times_f32 :: "f32 \<Rightarrow> f32 \<Rightarrow> f32" where
  "NaN * y = NaN"
| "x * NaN = NaN"
| "Inf s * y = (if y = NegZero \<or> y = Num 0 then NaN else Inf (s \<noteq> negative y))"
| "x * Inf t = (if x = NegZero \<or> x = Num 0 then NaN else Inf (t \<noteq> negative x))"
| "x * y = (if val x * val y = 0 then signed_zero (negative x \<noteq> negative y) else f32_of (val x * val y))"

fun divide_f32 :: "f32 \<Rightarrow> f32 \<Rightarrow> f32" where
  "divide_f32 NaN y = NaN"
| "divide_f32 x NaN = NaN"
| "divide_f32 (Inf s) y = (if is_finite y then Inf (s \<noteq> negative y) else NaN)"
| "divide_f32 x (Inf t) = signed_zero (negative x \<noteq> t)"
| "divide_f32 x y =
     (if val y = 0 then (if val x = 0 then NaN else Inf (negative x \<noteq> negative y))
      else if val x = 0 then signed_zero (negative x \<noteq> negative y)
      else f32_of (val x / val y))"

definition inverse_f32 :: "f32 \<Rightarrow> f32" where
  "inverse_f32 x = divide 1 x"

fun less_f32 :: "f32 \<Rightarrow> f32 \<Rightarrow> bool" where
  "NaN < y = False"
| "x < NaN = False"
| "Inf s < Inf t = (s \<and> \<not> t)"
| "Inf s < y = s"
| "x < Inf t = (\<not> t)"
| "x < y = (val x < val y)"

definition less_eq_f32 :: "f32 \<Rightarrow> f32 \<Rightarrow> bool" where
  "x \<le> y = (x < y \<or> (x \<noteq> NaN \<and> y \<noteq> NaN \<and> \<not> y < (x :: f32)))"

instance ..

end

text \<open>Literals \<open>0.1f\<close>, conversions from and to integers, and \<open>%.nf\<close>.\<close>

abbreviation f32_lit :: "rat \<Rightarrow> f32" where "f32_lit \<equiv> f32_of"

definition f32_of_int :: "int \<Rightarrow> f32" where
  "f32_of_int n = f32_of (of_int n)"

text \<open>Conversion to an integer type drops the fraction; it is undefined for NaN and infinities.\<close>

fun f32_trunc :: "f32 \<Rightarrow> int option" where
  "f32_trunc (Num r) = Some (if 0 \<le> r then \<lfloor>r\<rfloor> else \<lceil>r\<rceil>)"
| "f32_trunc NegZero = Some 0"
| "f32_trunc _ = None"

text \<open>\<open>(u16) x\<close>: also undefined when the truncated value is not a \<open>u16\<close>.\<close>

definition f32_to_u16 :: "f32 \<Rightarrow> u16 option" where
  "f32_to_u16 x = (case f32_trunc x of None \<Rightarrow> None
     | Some n \<Rightarrow> if 0 \<le> n \<and> n < 65536 then Some (word_of_int n) else None)"

definition pad_left :: "nat \<Rightarrow> char \<Rightarrow> string \<Rightarrow> string" where
  "pad_left k c s = replicate (k - length s) c @ s"

definition fmt_fixed :: "nat \<Rightarrow> rat \<Rightarrow> string" where
  "fmt_fixed p r = (let n = nat (rne (r * 10 ^ p))
     in dec_digits (n div 10 ^ p) @
        (if p = 0 then [] else ''.'' @ pad_left p (CHR ''0'') (dec_digits (n mod 10 ^ p))))"

fun fmt_f :: "nat \<Rightarrow> f32 \<Rightarrow> string" where
  "fmt_f p NaN = ''nan''"
| "fmt_f p (Inf s) = (if s then ''-inf'' else ''inf'')"
| "fmt_f p x = (if negative x then ''-'' else []) @ fmt_fixed p \<bar>val x\<bar>"

subsection \<open>Facts about rounding\<close>

lemma rnd_zero [simp]: "rnd 0 = 0"
  by (simp add: rnd_def)

lemma rnd_error: "\<bar>rnd r - r\<bar> \<le> pow2 (bexp r) / 2"
proof (cases "r = 0")
  case False
  let ?u = "pow2 (bexp r)"
  have "rnd r - r = (of_int (rne (r / ?u)) - r / ?u) * ?u"
    using False by (simp add: rnd_def algebra_simps)
  then have "\<bar>rnd r - r\<bar> = \<bar>of_int (rne (r / ?u)) - r / ?u\<bar> * ?u"
    by (simp add: abs_mult less_imp_le)
  also have "\<dots> \<le> 1 / 2 * ?u"
    by (intro mult_right_mono rne_error) (simp add: less_imp_le)
  finally show ?thesis by simp
qed (simp add: less_imp_le)

text \<open>A multiple of the last place is never crossed by rounding.\<close>

lemma rnd_le_grid: "r \<le> of_int k * pow2 (bexp r) \<Longrightarrow> rnd r \<le> of_int k * pow2 (bexp r)"
proof (cases "r = 0")
  case False
  assume "r \<le> of_int k * pow2 (bexp r)"
  then have "r / pow2 (bexp r) \<le> of_int k" by (simp add: divide_le_eq)
  then have "rne (r / pow2 (bexp r)) \<le> k" by (rule rne_le)
  with False show ?thesis by (simp add: rnd_def)
qed simp

lemma rnd_ge_grid: "of_int k * pow2 (bexp r) \<le> r \<Longrightarrow> of_int k * pow2 (bexp r) \<le> rnd r"
proof (cases "r = 0")
  case False
  assume "of_int k * pow2 (bexp r) \<le> r"
  then have "of_int k \<le> r / pow2 (bexp r)" by (simp add: le_divide_eq)
  then have "k \<le> rne (r / pow2 (bexp r))" by (rule rne_ge)
  with False show ?thesis by (simp add: rnd_def)
qed simp

lemma bexp_small: "\<bar>r\<bar> \<le> pow2 (e + 24) \<Longrightarrow> r \<noteq> 0 \<Longrightarrow> - 149 \<le> e \<Longrightarrow> \<bar>r\<bar> < pow2 (e + 24) \<Longrightarrow> bexp r \<le> e"
  using ilog2_le_iff [of "\<bar>r\<bar>" "e + 23"] by (simp add: bexp_def algebra_simps)

text \<open>Every integer multiple of \<open>2^e\<close> below \<open>2^(e+24)\<close> is a float and is not changed.\<close>

lemma rnd_exact:
  assumes "- 149 \<le> e" and "\<bar>m\<bar> < 2 ^ 24"
  shows "rnd (of_int m * pow2 e) = of_int m * pow2 e"
proof (cases "m = 0")
  case False
  let ?r = "of_int m * pow2 e"
  have "\<bar>?r\<bar> < pow2 (e + 24)"
  proof -
    have "\<bar>of_int m\<bar> < (2 ^ 24 :: rat)"
      using assms(2) by (metis of_int_abs of_int_less_iff of_int_numeral of_int_power)
    then show ?thesis by (simp add: abs_mult pow2_add pow2_def [of 24] mult.commute)
  qed
  then have le: "bexp ?r \<le> e" using False assms(1) by (intro bexp_small) auto
  define d where "d = nat (e - bexp ?r)"
  have "pow2 e = of_int (2 ^ d) * pow2 (bexp ?r)"
    using pow2_add [of "e - bexp ?r" "bexp ?r"] le by (simp add: d_def pow2_nat)
  then have "?r = of_int (m * 2 ^ d) * pow2 (bexp ?r)" by (metis mult.assoc of_int_mult)
  then have "?r / pow2 (bexp ?r) = of_int (m * 2 ^ d)" by (metis nonzero_mult_div_cancel_right pow2_nonzero)
  then have "rne (?r / pow2 (bexp ?r)) = m * 2 ^ d" by (metis rne_of_int)
  moreover have "rnd ?r = of_int (rne (?r / pow2 (bexp ?r))) * pow2 (bexp ?r)"
    using False by (simp add: rnd_def)
  ultimately have "rnd ?r = of_int (m * 2 ^ d) * pow2 (bexp ?r)" by simp
  also have "\<dots> = ?r" using \<open>?r = of_int (m * 2 ^ d) * pow2 (bexp ?r)\<close> by (rule sym)
  finally show ?thesis .
qed simp

text \<open>The grid of binary32: finite values, and the canonical members of the type.\<close>

definition on_grid :: "rat \<Rightarrow> bool" where
  "on_grid r \<longleftrightarrow> rnd r = r \<and> \<bar>r\<bar> < pow2 128"

fun f32_ok :: "f32 \<Rightarrow> bool" where
  "f32_ok (Num r) = on_grid r"
| "f32_ok _ = True"

lemma abs_small_grid: "\<bar>m\<bar> < 2 ^ 24 \<Longrightarrow> e \<le> 104 \<Longrightarrow> \<bar>of_int m * pow2 e\<bar> < pow2 128"
proof -
  assume m: "\<bar>m\<bar> < 2 ^ 24" and e: "e \<le> 104"
  have "\<bar>of_int m\<bar> < (2 ^ 24 :: rat)"
    using m by (metis of_int_abs of_int_less_iff of_int_numeral of_int_power)
  then have "\<bar>of_int m * pow2 e\<bar> < pow2 24 * pow2 e"
    by (simp add: abs_mult pow2_def [of 24])
  also have "\<dots> = pow2 (24 + e)" by (simp add: pow2_add)
  also have "\<dots> \<le> pow2 128" using e by (intro pow2_mono) simp
  finally show ?thesis .
qed

lemma f32_of_exact:
  assumes "- 149 \<le> e" and "\<bar>m\<bar> < 2 ^ 24" and "e \<le> 104"
  shows "f32_of (of_int m * pow2 e) = Num (of_int m * pow2 e)"
proof -
  have "\<not> pow2 128 \<le> \<bar>of_int m * pow2 e\<bar>"
    using abs_small_grid [OF assms(2,3)] by simp
  then show ?thesis
    by (simp add: f32_of_def Let_def rnd_exact [OF assms(1,2)])
qed

lemma f32_of_int_exact: "\<bar>n\<bar> < 2 ^ 24 \<Longrightarrow> f32_of_int n = Num (of_int n)"
  using f32_of_exact [of 0 n] by (simp add: f32_of_int_def pow2_def)

lemma f32_of_0 [simp]: "f32_of 0 = Num 0"
  using f32_of_exact [of 0 0] by simp

text \<open>Below \<open>2^24\<close> the integers are on the grid, so rounding respects integer bounds.\<close>

lemma bexp_le_0: "r \<noteq> 0 \<Longrightarrow> \<bar>r\<bar> < 2 ^ 24 \<Longrightarrow> bexp r \<le> 0"
  using bexp_small [of r 0] by (simp add: pow2_def)

lemma int_on_grid: "e \<le> 0 \<Longrightarrow> (of_int n :: rat) = of_int (n * 2 ^ nat (- e)) * pow2 e"
  by (simp add: pow2_def)

lemma rnd_le_int: "\<bar>r\<bar> < 2 ^ 24 \<Longrightarrow> r \<le> of_int n \<Longrightarrow> rnd r \<le> of_int n"
proof (cases "r = 0")
  case False
  assume "\<bar>r\<bar> < 2 ^ 24" "r \<le> of_int n"
  with False int_on_grid [OF bexp_le_0] rnd_le_grid show ?thesis by metis
qed simp

lemma rnd_ge_int: "\<bar>r\<bar> < 2 ^ 24 \<Longrightarrow> of_int n \<le> r \<Longrightarrow> of_int n \<le> rnd r"
proof (cases "r = 0")
  case False
  assume "\<bar>r\<bar> < 2 ^ 24" "of_int n \<le> r"
  with False int_on_grid [OF bexp_le_0] rnd_ge_grid show ?thesis by metis
qed simp

lemma f32_of_small:
  assumes "\<bar>r\<bar> < 2 ^ 23"
  shows "is_finite (f32_of r)" and "val (f32_of r) = rnd r"
proof -
  have lt: "\<bar>r\<bar> < 2 ^ 24" using assms by simp
  have "rnd r \<le> of_int (2 ^ 23)" "of_int (- (2 ^ 23)) \<le> rnd r"
    using assms by (intro rnd_le_int rnd_ge_int lt; simp)+
  moreover have "(2 ^ 23 :: rat) < pow2 128" by (simp add: pow2_def)
  ultimately have "\<bar>rnd r\<bar> < pow2 128" by (simp add: abs_less_iff)
  then show "is_finite (f32_of r)" "val (f32_of r) = rnd r"
    by (auto simp: f32_of_def Let_def)
qed

lemma f32_of_between:
  assumes "\<bar>r\<bar> < 2 ^ 23" and "of_int lo \<le> r" and "r \<le> of_int hi"
  shows "is_finite (f32_of r) \<and> of_int lo \<le> val (f32_of r) \<and> val (f32_of r) \<le> of_int hi"
  using assms f32_of_small [OF assms(1)] by (auto intro: rnd_le_int rnd_ge_int)

lemmas f32_ops = plus_f32.simps minus_f32_def times_f32.simps divide_f32.simps

subsection \<open>Integer bounds through a computation\<close>

definition in_range :: "int \<Rightarrow> int \<Rightarrow> f32 \<Rightarrow> bool" where
  "in_range lo hi x \<longleftrightarrow> is_finite x \<and> of_int lo \<le> val x \<and> val x \<le> of_int hi"

lemma in_range_f32_of:
  assumes "of_int lo \<le> r" "r \<le> of_int hi" "\<bar>lo\<bar> < 2 ^ 23" "\<bar>hi\<bar> < 2 ^ 23"
  shows "in_range lo hi (f32_of r)"
proof -
  have "of_int (- (2 ^ 23)) < (of_int lo :: rat)" "(of_int hi :: rat) < of_int (2 ^ 23)"
    using assms(3,4) unfolding of_int_less_iff by linarith+
  then have "- (2 ^ 23) < (of_int lo :: rat)" "(of_int hi :: rat) < 2 ^ 23" by simp_all
  then have "\<bar>r\<bar> < 2 ^ 23" using assms(1,2) by linarith
  from f32_of_between [OF this assms(1,2)] show ?thesis by (simp add: in_range_def)
qed

lemma in_range_zero [simp]: "in_range lo hi (signed_zero s) \<longleftrightarrow> lo \<le> 0 \<and> 0 \<le> hi"
  by (simp add: in_range_def signed_zero_def)

lemma in_range_plus:
  assumes "in_range a b x" "in_range c d y" "\<bar>a + c\<bar> < 2 ^ 23" "\<bar>b + d\<bar> < 2 ^ 23"
  shows "in_range (a + c) (b + d) (x + y)"
proof (cases "x = NegZero \<and> y = NegZero")
  case True
  with assms(1,2) show ?thesis by (simp add: in_range_def)
next
  case False
  have "x + y = f32_of (val x + val y)"
    using False assms(1,2) by (cases x; cases y) (auto simp: in_range_def)
  moreover have "in_range (a + c) (b + d) (f32_of (val x + val y))"
    by (rule in_range_f32_of) (use assms in \<open>auto simp: in_range_def intro: add_mono\<close>)
  ultimately show ?thesis by simp
qed

lemma in_range_times:
  assumes "in_range a b x" "0 < w" "w < 2 ^ 16" "\<bar>a * w\<bar> < 2 ^ 23" "\<bar>b * w\<bar> < 2 ^ 23"
  shows "in_range (a * w) (b * w) (x * f32_of_int w)"
proof -
  have w: "f32_of_int w = Num (of_int w)" using assms(2,3) by (intro f32_of_int_exact) simp
  have m: "(of_int (a * w) :: rat) \<le> val x * of_int w" "val x * of_int w \<le> (of_int (b * w) :: rat)"
    using assms(1,2) by (simp_all add: in_range_def)
  show ?thesis
  proof (cases "val x = 0")
    case True
    with assms(1,2) have "a * w \<le> 0" "0 \<le> b * w" by (auto simp: in_range_def mult_le_0_iff)
    moreover have "x * f32_of_int w = signed_zero (negative x \<noteq> negative (Num (of_int w)))"
      using True w assms(1) by (cases x) (auto simp: in_range_def)
    ultimately show ?thesis by simp
  next
    case False
    with w assms(1,2) have "x * f32_of_int w = f32_of (val x * of_int w)"
      by (cases x) (auto simp: in_range_def)
    with in_range_f32_of [OF m assms(4,5)] show ?thesis by simp
  qed
qed

lemma in_range_divide:
  assumes "in_range (a * w) (b * w) x" "0 < w" "w < 2 ^ 16" "\<bar>a\<bar> < 2 ^ 23" "\<bar>b\<bar> < 2 ^ 23"
  shows "in_range a b (x / f32_of_int w)"
proof -
  have w: "f32_of_int w = Num (of_int w)" using assms(2,3) by (intro f32_of_int_exact) simp
  show ?thesis
  proof (cases "val x = 0")
    case True
    with assms(1,2) have "a \<le> 0" "0 \<le> b" by (auto simp: in_range_def mult_le_0_iff zero_le_mult_iff)
    moreover have "x / f32_of_int w = signed_zero (negative x \<noteq> negative (Num (of_int w)))"
      using True w assms(1,2) by (cases x) (auto simp: in_range_def)
    ultimately show ?thesis by simp
  next
    case False
    have m: "of_int a \<le> val x / of_int w" "val x / of_int w \<le> of_int b"
      using assms(1,2) by (simp_all add: in_range_def le_divide_eq divide_le_eq)
    have "x / f32_of_int w = f32_of (val x / of_int w)"
      using w assms(1,2) False by (cases x) (auto simp: in_range_def)
    with in_range_f32_of [OF m assms(4,5)] show ?thesis by simp
  qed
qed

end
