(* ===== verification/Packet.thy ===== *)
theory Packet
  imports F32
begin

text \<open>
  What the sensor components share (include/defines.h, include/sensors/*.h): the packet field
  \<open>jsonify\<close>, a pointer to one of the \<open>X_Jsonify\<close> functions; the functions of the C mathematics
  library the drivers call, as a parameter; the result of a \<open>jsonify\<close> call.
\<close>

text \<open>The values a field of type \<open>json\<close> takes in the sources.\<close>

datatype json_fn =
    JSON_NULL
  | JSON_BME280
  | JSON_DHT
  | JSON_DS18B20
  | JSON_PMS5003
  | JSON_SGP30
  | JSON_DS1307

record libm =
  logf :: "f32 \<Rightarrow> f32"
  expf :: "f32 \<Rightarrow> f32"
  powf :: "f32 \<Rightarrow> f32 \<Rightarrow> f32"

text \<open>A mathematics library for the concrete runs: each function returns its first argument.\<close>

definition id_libm :: libm where
  "id_libm = \<lparr>logf = (\<lambda>x. x), expf = (\<lambda>x. x), powf = (\<lambda>x y. x)\<rparr>"

text \<open>
  The tail all \<open>X_Jsonify\<close> functions share: \<open>snprintf\<close> into a static buffer of \<open>cap\<close> bytes, then
  the test \<open>requiredLength > sizeof(buffer)\<close>. \<open>None\<close> is NULL, otherwise the text the buffer holds.
\<close>

definition jsonify_into :: "nat \<Rightarrow> string \<Rightarrow> string option" where
  "jsonify_into cap text =
     (let (requiredLength, buffer) = snprintf cap text
      in if cap < requiredLength then None else Some buffer)"

lemma jsonify_into_complete: "length text < cap \<Longrightarrow> jsonify_into cap text = Some text"
  by (simp add: jsonify_into_def snprintf_def)

lemma jsonify_into_exact: "length text = cap \<Longrightarrow> 0 < cap \<Longrightarrow> jsonify_into cap text = Some (butlast text)"
  by (simp add: jsonify_into_def snprintf_def butlast_conv_take)

lemma jsonify_into_too_long: "cap < length text \<Longrightarrow> jsonify_into cap text = None"
  by (simp add: jsonify_into_def snprintf_def)

text \<open>\<open>(u16)((hi << 8) | lo)\<close> and the same stored into an \<open>i16\<close>.\<close>

definition i16_of_bytes :: "u8 \<Rightarrow> u8 \<Rightarrow> int" where
  "i16_of_bytes hi lo = as_i16 (uint hi * 256 + uint lo)"

lemma uint_word16: "uint (word16 hi lo) = uint hi * 256 + uint lo"
  using unat_word16 [of hi lo] by (metis of_nat_add of_nat_mult of_nat_numeral uint_nat)

lemma i16_of_bytes_sint: "i16_of_bytes hi lo = sint (word16 hi lo)"
  by (simp add: i16_of_bytes_def as_i16_u16 flip: uint_word16)

lemma i16_of_bytes_range: "- 32768 \<le> i16_of_bytes hi lo \<and> i16_of_bytes hi lo < 32768"
  by (simp add: i16_of_bytes_def as_i16_range)

lemma i16_of_bytes_bound: "\<bar>i16_of_bytes hi lo\<bar> < 2 ^ 24"
  using i16_of_bytes_range [of hi lo] by auto

end
