(* ===== verification/Core.thy ===== *)
theory Core
  imports F32 "HOL-Library.Signed_Division"
begin

text \<open>
  The helpers of src/core and include/core: binary-coded decimal (bcd.h), the integer range map
  (map.h), the harmonic mean (hmean.c), waiting for a pin level (gpio.c) and the logger
  (logger.c).
\<close>

subsection \<open>include/core/bcd.h\<close>

definition intToBCD :: "u8 \<Rightarrow> u8" where
  "intToBCD num = word_of_nat (push_bit 4 (unat num div 10) OR unat num mod 10)"

definition BCDToInt :: "u8 \<Rightarrow> u8" where
  "BCDToInt num = word_of_nat (unat (drop_bit 4 num) * 10 + unat (num AND 0x0F))"

text \<open>A byte holding two decimal digits.\<close>

definition is_bcd :: "u8 \<Rightarrow> bool" where
  "is_bcd b \<longleftrightarrow> unat (drop_bit 4 b) < 10 \<and> unat (b AND 0x0F) < 10"

lemma unat_nibbles: "unat (drop_bit 4 (b::u8)) = unat b div 16" "unat (b AND 0x0F) = unat b mod 16"
proof -
  show "unat (drop_bit 4 b) = unat b div 16"
    by (simp add: drop_bit_eq_div unat_div)
  have "b AND 0x0F = take_bit 4 b" by (simp add: take_bit_eq_mask mask_eq_exp_minus_1)
  then show "unat (b AND 0x0F) = unat b mod 16"
    by (simp add: take_bit_eq_mod unat_mod)
qed

lemma unat_intToBCD: "unat num < 100 \<Longrightarrow> unat (intToBCD num) = unat num div 10 * 16 + unat num mod 10"
proof -
  assume n: "unat num < 100"
  have m: "unat num mod 10 = take_bit 4 (unat num mod 10)"
    by (rule sym, rule take_bit_nat_eq_self) simp
  have "push_bit 4 (unat num div 10) AND take_bit 4 (unat num mod 10) = 0"
    by (auto simp: bit_eq_iff bit_simps)
  then have "push_bit 4 (unat num div 10) OR unat num mod 10 = push_bit 4 (unat num div 10) + unat num mod 10"
    using m by (metis disjunctive_add_eq_or)
  then have "intToBCD num = word_of_nat (unat num div 10 * 16 + unat num mod 10)"
    by (simp add: intToBCD_def push_bit_eq_mult)
  moreover have "unat num div 10 * 16 + unat num mod 10 < 2 ^ LENGTH(8)" using n by simp
  ultimately show ?thesis by (simp only: unat_word_of_nat)
qed

lemma unat_BCDToInt: "unat (BCDToInt b) = unat b div 16 * 10 + unat b mod 16"
proof -
  have "unat b div 16 * 10 + unat b mod 16 < 2 ^ LENGTH(8)" using unat_u8 [of b] by simp
  then show ?thesis by (simp only: BCDToInt_def unat_nibbles unat_word_of_nat)
qed

lemma BCDToInt_intToBCD: "unat num < 100 \<Longrightarrow> BCDToInt (intToBCD num) = num"
  by (rule word_unat_eq_iff [THEN iffD2]) (simp add: unat_BCDToInt unat_intToBCD)

lemma intToBCD_BCDToInt: "is_bcd b \<Longrightarrow> intToBCD (BCDToInt b) = b"
proof -
  assume "is_bcd b"
  then have d: "unat b div 16 < 10" "unat b mod 16 < 10" by (simp_all add: is_bcd_def unat_nibbles)
  then have "unat b div 16 * 10 + unat b mod 16 < 100" by linarith
  then have "unat (intToBCD (BCDToInt b)) = unat b div 16 * 16 + unat b mod 16"
    using d by (simp add: unat_intToBCD unat_BCDToInt)
  then show ?thesis by (simp add: word_unat_eq_iff)
qed

lemma is_bcd_intToBCD: "unat num < 100 \<Longrightarrow> is_bcd (intToBCD num)"
  by (simp add: is_bcd_def unat_nibbles unat_intToBCD)

subsection \<open>include/core/map.h\<close>

text \<open>
  \<open>i32\<close> arithmetic: overflow and division by zero are undefined, \<open>None\<close>. Division truncates.
\<close>

definition map_i32 :: "int \<Rightarrow> int \<Rightarrow> int \<Rightarrow> int \<Rightarrow> int \<Rightarrow> int option" where
  "map_i32 x inMin inMax outMin outMax =
     Option.bind (ck32 (x - inMin)) (\<lambda>a.
     Option.bind (ck32 (outMax - outMin)) (\<lambda>b.
     Option.bind (ck32 (a * b)) (\<lambda>p.
     Option.bind (ck32 (inMax - inMin)) (\<lambda>d.
     if d = 0 then None
     else Option.bind (ck32 (p sdiv d)) (\<lambda>q. ck32 (q + outMin))))))"

lemma sdiv_nonneg_pos: "0 \<le> a \<Longrightarrow> 0 < b \<Longrightarrow> (a::int) sdiv b = a div b"
  by (cases "a = 0") (simp_all add: signed_divide_int_def sgn_if)

lemma sdiv_nonpos_pos: "a \<le> 0 \<Longrightarrow> 0 < b \<Longrightarrow> (a::int) sdiv b = - (- a div b)"
  by (cases "a = 0") (simp_all add: signed_divide_int_def sgn_if)

lemma scaled_div_bounds:
  assumes "0 \<le> a" "a \<le> (d::int)" "0 < d" "0 \<le> s"
  shows "0 \<le> a * s div d \<and> a * s div d \<le> s"
proof -
  have "a * s \<le> d * s" using assms by (intro mult_right_mono) auto
  then have "a * s div d \<le> d * s div d" using assms(3) by (intro zdiv_mono1) auto
  then show ?thesis using assms by (simp add: pos_imp_zdiv_nonneg_iff)
qed

text \<open>Inside the input range the result is between the two output bounds, whichever is larger.\<close>

lemma map_i32_range:
  assumes "inMin \<le> x" "x \<le> inMax" and m: "map_i32 x inMin inMax outMin outMax = Some y"
  shows "min outMin outMax \<le> y \<and> y \<le> max outMin outMax"
proof -
  from m have ne: "inMax - inMin \<noteq> 0" and y: "y = (x - inMin) * (outMax - outMin) sdiv (inMax - inMin) + outMin"
    by (auto simp: map_i32_def bind_eq_Some_conv split: if_splits)
  from ne assms have d: "0 < inMax - inMin" by linarith
  note b = scaled_div_bounds [of "x - inMin" "inMax - inMin"]
  show ?thesis
  proof (cases "outMin \<le> outMax")
    case True
    have "(x - inMin) * (outMax - outMin) sdiv (inMax - inMin) = (x - inMin) * (outMax - outMin) div (inMax - inMin)"
      using assms d True by (intro sdiv_nonneg_pos) auto
    then show ?thesis using b [of "outMax - outMin"] assms d True y by auto
  next
    case False
    have "(x - inMin) * (outMax - outMin) sdiv (inMax - inMin) = - (- ((x - inMin) * (outMax - outMin)) div (inMax - inMin))"
      using assms d False by (intro sdiv_nonpos_pos mult_nonneg_nonpos) auto
    also have "- ((x - inMin) * (outMax - outMin)) = (x - inMin) * (outMin - outMax)"
      by (simp add: algebra_simps)
    finally show ?thesis using b [of "outMin - outMax"] assms d False y by auto
  qed
qed

subsection \<open>src/core/hmean.c\<close>

fun hmean_loop :: "u8 list \<Rightarrow> f32 \<Rightarrow> nat \<Rightarrow> f32 \<times> nat" where
  "hmean_loop [] sumInv count = (sumInv, count)"
| "hmean_loop (b # bs) sumInv count =
     (if b \<noteq> 0 then hmean_loop bs (sumInv + 1 / f32_of_int (uint b)) (Suc count)
      else hmean_loop bs sumInv count)"

definition hmean :: "u8 list \<Rightarrow> f32" where
  "hmean buffer = (let (sumInv, count) = hmean_loop buffer 0 0
     in if count = 0 \<or> sumInv \<le> 0 then 0 else f32_of_int (int count) / sumInv)"

lemma hmean_loop_filter: "hmean_loop (filter (\<lambda>b. b \<noteq> 0) bs) s c = hmean_loop bs s c"
  by (induction bs arbitrary: s c) auto

lemma hmean_ignores_zero: "hmean (filter (\<lambda>b. b \<noteq> 0) bs) = hmean bs"
  by (simp add: hmean_def hmean_loop_filter)

lemma hmean_all_zero: "\<forall>b \<in> set bs. b = 0 \<Longrightarrow> hmean bs = 0"
  using hmean_ignores_zero [of bs] by (simp add: filter_False hmean_def)

subsection \<open>src/core/gpio.c\<close>

text \<open>
  The loops poll a pin and the microsecond timer. What they read is given as a list of samples,
  the level of the pin and the timer value read after it; \<open>None\<close> means the samples ended while the
  loop was still polling. \<open>gpio_wait_for_level\<close> has no return statement after its loop, so the
  value its caller sees in that case is not determined.
\<close>

datatype wait_result = Returned bool | No_Return_Value

fun gpio_wait_for_level :: "u8 \<Rightarrow> u32 \<Rightarrow> u32 \<Rightarrow> (u8 \<times> u32) list \<Rightarrow> wait_result option" where
  "gpio_wait_for_level level usTimeout startTime [] = None"
| "gpio_wait_for_level level usTimeout startTime ((pin, time) # rest) =
     (if pin = level
      then if usTimeout < time - startTime then Some (Returned False)
           else gpio_wait_for_level level usTimeout startTime rest
      else Some No_Return_Value)"

text \<open>The second result is what is stored in \<open>*count\<close>.\<close>

fun gpio_wait_for_level_count :: "u8 \<Rightarrow> u32 \<Rightarrow> u32 \<Rightarrow> (u8 \<times> u32) list \<Rightarrow> (bool \<times> u32 option) option" where
  "gpio_wait_for_level_count level usTimeout startTime [] = None"
| "gpio_wait_for_level_count level usTimeout startTime ((pin, time) # rest) =
     (if pin = level
      then if usTimeout < time - startTime then Some (False, None)
           else gpio_wait_for_level_count level usTimeout startTime rest
      else Some (True, Some (time - startTime)))"

text \<open>Only elapsed time matters: shifting the timer, also across its wrap-around, changes nothing.\<close>

lemma gpio_wait_shift:
  "gpio_wait_for_level_count level t (s + d) (map (\<lambda>(p, x). (p, x + d)) samples) =
   gpio_wait_for_level_count level t s samples"
  by (induction level t s samples rule: gpio_wait_for_level_count.induct) auto

text \<open>A pin that stays at the level until the timeout has passed makes the loop give up.\<close>

lemma gpio_wait_timeout:
  "(\<forall>(p, x) \<in> set pre. p = level \<and> x - s \<le> t) \<Longrightarrow> t < x - s \<Longrightarrow>
   gpio_wait_for_level_count level t s (pre @ (level, x) # rest) = Some (False, None)"
  by (induction pre) auto

lemma gpio_wait_leaves:
  "(\<forall>(p, x) \<in> set pre. p = level \<and> x - s \<le> t) \<Longrightarrow> p \<noteq> level \<Longrightarrow>
   gpio_wait_for_level_count level t s (pre @ (p, x) # rest) = Some (True, Some (x - s))"
  by (induction pre) auto

subsection \<open>src/core/logger.c\<close>

definition HK_LOG_MSG_MAX_LEN :: nat where "HK_LOG_MSG_MAX_LEN = 128"

definition LOG_LEVEL_INFO :: int where "LOG_LEVEL_INFO = 3"

definition MAX_LOG_LEVEL :: int where "MAX_LOG_LEVEL = 6"

definition logLevelStrings :: "string list" where
  "logLevelStrings =
    [''[FATAL]: '', ''[ERROR]: '', ''[WARN]:  '', ''[INFO]:  '', ''[DEBUG]: '', ''[TRACE]: '']"

text \<open>
  \<open>message\<close> is \<open>None\<close> for NULL; otherwise what \<open>vsnprintf\<close> would print of it, \<open>None\<close> when
  \<open>vsnprintf\<close> fails. The result is what reaches the host.
\<close>

definition hkLogOutput :: "int \<Rightarrow> string option option \<Rightarrow> string option" where
  "hkLogOutput level message =
     (case message of None \<Rightarrow> None
      | Some formatted \<Rightarrow>
          let level = (if as_i16 level < 0 \<or> MAX_LOG_LEVEL \<le> as_i16 level then LOG_LEVEL_INFO else level);
              currentLogLevel = logLevelStrings ! nat level
          in case formatted of None \<Rightarrow> None
             | Some text \<Rightarrow>
                 let logBuffer = snd (snprintf HK_LOG_MSG_MAX_LEN text);
                     logMessage = snd (snprintf HK_LOG_MSG_MAX_LEN (currentLogLevel @ logBuffer @ [CHR 0x0A]))
                 in Some logMessage)"

lemma logLevel_prefix: "i < 6 \<Longrightarrow> length (logLevelStrings ! i) = 9"
  by (auto simp: logLevelStrings_def less_Suc_eq numeral_eq_Suc)

lemma hkLogOutput_text:
  assumes "0 \<le> level" "level < 6"
  shows "hkLogOutput level (Some (Some text)) =
    Some (take 127 (logLevelStrings ! nat level @ take 127 text @ [CHR 0x0A]))"
  using assms by (simp add: hkLogOutput_def MAX_LOG_LEVEL_def as_i16_id HK_LOG_MSG_MAX_LEN_def snprintf_def Let_def)


text \<open>
  Which calls of the logging macros the compiler keeps, for the configured level and a build with or
  without \<open>HRELEASE\<close>: fatal and error messages always, the others up to the level.
\<close>

definition LOG_FATAL :: int where "LOG_FATAL = 0"
definition LOG_ERROR :: int where "LOG_ERROR = 1"
definition LOG_WARN :: int where "LOG_WARN = 2"
definition LOG_INFO :: int where "LOG_INFO = 3"
definition LOG_DEBUG :: int where "LOG_DEBUG = 4"
definition LOG_TRACE :: int where "LOG_TRACE = 5"
definition HK_LOG_LEVEL :: int where "HK_LOG_LEVEL = LOG_DEBUG"

definition log_enabled :: "int \<Rightarrow> bool \<Rightarrow> int \<Rightarrow> bool" where
  "log_enabled threshold release level =
     (if level = LOG_FATAL \<or> level = LOG_ERROR then True
      else threshold \<ge> level \<and> \<not> (release \<and> (level = LOG_DEBUG \<or> level = LOG_TRACE)))"

text \<open>A macro call: what reaches the host, \<open>None\<close> for a call that was compiled away.\<close>

definition log_macro :: "bool \<Rightarrow> int \<Rightarrow> string \<Rightarrow> string option" where
  "log_macro release level text =
     (if log_enabled HK_LOG_LEVEL release level then hkLogOutput level (Some (Some text)) else None)"

lemma log_macro_debug: "length text \<le> 117 \<Longrightarrow> log_macro False LOG_DEBUG text = Some (logLevelStrings ! 4 @ text @ [CHR 0x0A])"
  by (simp add: log_macro_def log_enabled_def HK_LOG_LEVEL_def LOG_DEBUG_def LOG_FATAL_def LOG_ERROR_def hkLogOutput_text logLevel_prefix)

end
