(* ===== verification/BME280.thy ===== *)
theory BME280
  imports Task Packet Core "HOL-Library.Monad_Syntax"
begin

text \<open>
  The BME280 temperature, pressure and humidity sensor: include/sensors/bme280/bme280.h and
  src/sensors/bme280/bme280.c. Calibration read-out, the compensation arithmetic with its 32- and
  64-bit intermediates checked for overflow, the forced-mode measurement cycle and the task's
  polling round.
\<close>

subsection \<open>Registers, state and data\<close>

definition BME280_INIT :: u16 where "BME280_INIT = 0"
definition BME280_READ_READY :: u16 where "BME280_READ_READY = 1"
definition BME280_READ_SUCCESS :: u16 where "BME280_READ_SUCCESS = 2"
definition BME280_READ_IN_PROGRESS :: u16 where "BME280_READ_IN_PROGRESS = 3"

definition BME280_REG_CALIB_00 :: u8 where "BME280_REG_CALIB_00 = 0x88"
definition BME280_REG_CALIB_26 :: u8 where "BME280_REG_CALIB_26 = 0xE1"
definition BME280_REG_CTRL_HUM :: u8 where "BME280_REG_CTRL_HUM = 0xF2"
definition BME280_REG_CTRL_MEAS :: u8 where "BME280_REG_CTRL_MEAS = 0xF4"
definition BME280_REG_CONFIG :: u8 where "BME280_REG_CONFIG = 0xF5"

record BME280_CalibrationParams =
  dig_T1 :: u16
  dig_T2 :: int
  dig_T3 :: int
  dig_P1 :: u16
  dig_P2 :: int
  dig_P3 :: int
  dig_P4 :: int
  dig_P5 :: int
  dig_P6 :: int
  dig_P7 :: int
  dig_P8 :: int
  dig_P9 :: int
  dig_H1 :: u8
  dig_H2 :: int
  dig_H3 :: u8
  dig_H4 :: int
  dig_H5 :: int
  dig_H6 :: int

text \<open>\<open>rawData\<close> points to a buffer of \<open>length\<close> bytes: the list is that buffer.\<close>

record BME280_Config =
  rawData :: "u8 list"
  address :: u8
  status :: u16
  humiditySampling :: u8
  iirCoefficient :: u8
  tempAndPressureMode :: u8
  params :: BME280_CalibrationParams

record BME280_DataPacket =
  pressure :: f32
  temperature :: f32
  dewPoint :: f32
  humidity :: f32
  absoluteHumidity :: f32
  timestamp :: u32
  jsonify :: json_fn

subsection \<open>Compensation\<close>

text \<open>Arithmetic right shift of an \<open>int\<close> is division by a power of two, rounding down.\<close>

definition BME280_CompensateTemp :: "int \<Rightarrow> BME280_CalibrationParams \<Rightarrow> (int \<times> int) option" where
  "BME280_CompensateTemp adcT c = do {
     d1 \<leftarrow> ck32 (adcT div 2 ^ 3 - uint (dig_T1 c) * 2);
     p1 \<leftarrow> ck32 (d1 * dig_T2 c);
     let var1 = p1 div 2 ^ 11;
     d2 \<leftarrow> ck32 (adcT div 2 ^ 4 - uint (dig_T1 c));
     sq \<leftarrow> ck32 (d2 * d2);
     p2 \<leftarrow> ck32 ((sq div 2 ^ 12) * dig_T3 c);
     let var2 = p2 div 2 ^ 14;
     tFine \<leftarrow> ck32 (var1 + var2);
     t5 \<leftarrow> ck32 (tFine * 5);
     t \<leftarrow> ck32 (t5 + 128);
     Some (t div 2 ^ 8, tFine)
   }"

definition BME280_CompensatePressure :: "int \<Rightarrow> BME280_CalibrationParams \<Rightarrow> int \<Rightarrow> u32 option" where
  "BME280_CompensatePressure adcP c tFine = do {
     var1 \<leftarrow> ck64 (tFine - 128000);
     s \<leftarrow> ck64 (var1 * var1);
     a \<leftarrow> ck64 (s * dig_P6 c);
     b \<leftarrow> ck64 (var1 * dig_P5 c);
     b \<leftarrow> ck64 (b * 2 ^ 17);
     a \<leftarrow> ck64 (a + b);
     var2 \<leftarrow> ck64 (a + dig_P4 c * 2 ^ 35);
     g \<leftarrow> ck64 (s * dig_P3 c);
     h \<leftarrow> ck64 (var1 * dig_P2 c);
     h \<leftarrow> ck64 (h * 2 ^ 12);
     k \<leftarrow> ck64 (g div 2 ^ 8 + h);
     k \<leftarrow> ck64 (2 ^ 47 + k);
     k \<leftarrow> ck64 (k * uint (dig_P1 c));
     let var1 = k div 2 ^ 33;
     if var1 = 0 then Some 0 else do {
       p \<leftarrow> ck32 (1048576 - adcP);
       q \<leftarrow> ck64 (p * 2 ^ 31);
       q \<leftarrow> ck64 (q - var2);
       q \<leftarrow> ck64 (q * 3125);
       p \<leftarrow> ck64 (q sdiv var1);
       m \<leftarrow> ck64 (dig_P9 c * (p div 2 ^ 13));
       m \<leftarrow> ck64 (m * (p div 2 ^ 13));
       let var1 = m div 2 ^ 25;
       n \<leftarrow> ck64 (dig_P8 c * p);
       let var2 = n div 2 ^ 19;
       r \<leftarrow> ck64 (p + var1);
       r \<leftarrow> ck64 (r + var2);
       r \<leftarrow> ck64 (r div 2 ^ 8 + dig_P7 c * 2 ^ 4);
       Some (word_of_int r)
     }
   }"

definition BME280_CompensateHumidity :: "int \<Rightarrow> BME280_CalibrationParams \<Rightarrow> int \<Rightarrow> u32 option" where
  "BME280_CompensateHumidity adcH c tFine = do {
     v \<leftarrow> ck32 (tFine - 76800);
     a \<leftarrow> ck32 (adcH * 2 ^ 14);
     b \<leftarrow> ck32 (dig_H4 c * 2 ^ 20);
     a \<leftarrow> ck32 (a - b);
     b \<leftarrow> ck32 (dig_H5 c * v);
     a \<leftarrow> ck32 (a - b);
     a \<leftarrow> ck32 (a + 16384);
     let a = a div 2 ^ 15;
     e \<leftarrow> ck32 (v * dig_H6 c);
     f \<leftarrow> ck32 (v * uint (dig_H3 c));
     f \<leftarrow> ck32 (f div 2 ^ 11 + 32768);
     e \<leftarrow> ck32 ((e div 2 ^ 10) * f);
     e \<leftarrow> ck32 (e div 2 ^ 10 + 2097152);
     e \<leftarrow> ck32 (e * dig_H2 c);
     e \<leftarrow> ck32 (e + 8192);
     v \<leftarrow> ck32 (a * (e div 2 ^ 14));
     s \<leftarrow> ck32 ((v div 2 ^ 15) * (v div 2 ^ 15));
     s \<leftarrow> ck32 ((s div 2 ^ 7) * uint (dig_H1 c));
     v \<leftarrow> ck32 (v - s div 2 ^ 4);
     let v = (if v < 0 then 0 else v);
     let v = (if 419430400 < v then 419430400 else v);
     Some (word_of_int (v div 2 ^ 12))
   }"

subsection \<open>Transfers\<close>

definition BME280_WriteCommands ::
  "'e i2c_env \<Rightarrow> BME280_Config \<Rightarrow> u8 list \<Rightarrow> 'e world \<Rightarrow> int \<times> 'e world" where
  "BME280_WriteCommands env config commands w =
     (let w = mutex_enter_blocking w;
          (st, w) = i2c_write env (address config) commands False w
      in if st = PICO_ERROR_GENERIC then (c_false, mutex_exit w)
         else (st, mutex_exit w))"

definition calib_block_1 :: "u8 list \<Rightarrow> BME280_CalibrationParams \<Rightarrow> BME280_CalibrationParams" where
  "calib_block_1 buffer c = c\<lparr>
     dig_T1 := word16 (buffer ! 1) (buffer ! 0),
     dig_T2 := i16_of_bytes (buffer ! 3) (buffer ! 2),
     dig_T3 := i16_of_bytes (buffer ! 5) (buffer ! 4),
     dig_P1 := word16 (buffer ! 7) (buffer ! 6),
     dig_P2 := i16_of_bytes (buffer ! 9) (buffer ! 8),
     dig_P3 := i16_of_bytes (buffer ! 11) (buffer ! 10),
     dig_P4 := i16_of_bytes (buffer ! 13) (buffer ! 12),
     dig_P5 := i16_of_bytes (buffer ! 15) (buffer ! 14),
     dig_P6 := i16_of_bytes (buffer ! 17) (buffer ! 16),
     dig_P7 := i16_of_bytes (buffer ! 19) (buffer ! 18),
     dig_P8 := i16_of_bytes (buffer ! 21) (buffer ! 20),
     dig_P9 := i16_of_bytes (buffer ! 23) (buffer ! 22),
     dig_H1 := buffer ! 25\<rparr>"

text \<open>\<open>(buffer[3] << 4) | (buffer[4] & 0x0F)\<close> is computed on unsigned bytes promoted to \<open>int\<close>.\<close>

definition calib_block_2 :: "u8 list \<Rightarrow> BME280_CalibrationParams \<Rightarrow> BME280_CalibrationParams" where
  "calib_block_2 buffer c = c\<lparr>
     dig_H2 := i16_of_bytes (buffer ! 1) (buffer ! 0),
     dig_H3 := buffer ! 2,
     dig_H4 := as_i16 (uint (buffer ! 3) * 2 ^ 4 + uint (buffer ! 4 AND 0x0F)),
     dig_H5 := as_i16 (uint (buffer ! 5) * 2 ^ 4 + uint (drop_bit 4 (buffer ! 4))),
     dig_H6 := as_i8 (uint (buffer ! 6))\<rparr>"

text \<open>\<open>uninit\<close>: the indeterminate content of the local array \<open>u8 buffer[26]\<close> on entry.\<close>

definition BME280_ReadCalibrationData ::
  "'e i2c_env \<Rightarrow> u8 list \<Rightarrow> BME280_Config \<Rightarrow> 'e world \<Rightarrow> (int \<times> BME280_Config) \<times> 'e world" where
  "BME280_ReadCalibrationData env uninit config w =
     (let w = mutex_enter_blocking w;
          (st, w) = i2c_write env (address config) [BME280_REG_CALIB_00] True w
      in if st = PICO_ERROR_GENERIC then ((st, config), mutex_exit w)
      else let ((st, bs), w) = i2c_read env (address config) 26 False w;
               buffer = fill 26 bs uninit
      in if st = PICO_ERROR_GENERIC then ((st, config), mutex_exit w)
      else let w = mutex_exit w;
               config = config\<lparr>params := calib_block_1 buffer (params config)\<rparr>;
               w = mutex_enter_blocking w;
               (st, w) = i2c_write env (address config) [BME280_REG_CALIB_26] True w
      in if st = PICO_ERROR_GENERIC then ((st, config), mutex_exit w)
      else let ((st, bs), w) = i2c_read env (address config) 7 False w;
               buffer = fill 7 bs buffer
      in if st = PICO_ERROR_GENERIC then ((st, config), mutex_exit w)
      else let w = mutex_exit w;
               config = config\<lparr>params := calib_block_2 buffer (params config)\<rparr>
      in ((c_true, config), w))"

definition BME280_Init ::
  "'e i2c_env \<Rightarrow> u8 list \<Rightarrow> BME280_Config \<Rightarrow> 'e world \<Rightarrow> (int \<times> BME280_Config) \<times> 'e world" where
  "BME280_Init env uninit config w =
     (let config = config\<lparr>rawData := replicate (length (rawData config)) 0\<rparr>;
          ((st, config), w) = BME280_ReadCalibrationData env uninit config w
      in if st = PICO_ERROR_GENERIC then ((st, config), w)
      else let w = mutex_enter_blocking w;
               (st, w) = i2c_write env (address config) [BME280_REG_CTRL_HUM, humiditySampling config] False w
      in if st = PICO_ERROR_GENERIC then ((st, config), mutex_exit w)
      else let w = mutex_exit w;
               w = mutex_enter_blocking w;
               (st, w) = i2c_write env (address config) [BME280_REG_CONFIG, iirCoefficient config] False w
      in if st = PICO_ERROR_GENERIC then ((st, config), mutex_exit w)
      else let w = mutex_exit w;
               w = mutex_enter_blocking w;
               (st, w) = i2c_write env (address config) [BME280_REG_CTRL_MEAS, tempAndPressureMode config] False w
      in if st = PICO_ERROR_GENERIC then ((st, config), mutex_exit w)
      else ((c_true, config), mutex_exit w))"

definition BME280_InitRead ::
  "'e i2c_env \<Rightarrow> BME280_Config \<Rightarrow> 'e world \<Rightarrow> (int \<times> BME280_Config) \<times> 'e world" where
  "BME280_InitRead env config w =
     (if status config = BME280_READ_IN_PROGRESS then ((c_false, config), w)
      else let config = config\<lparr>status := BME280_READ_IN_PROGRESS\<rparr>;
               w = mutex_enter_blocking w;
               (st, w) = i2c_write env (address config) [BME280_REG_CTRL_HUM, humiditySampling config] False w
      in if st = PICO_ERROR_GENERIC then ((st, config), mutex_exit w)
      else let w = mutex_exit w;
               w = mutex_enter_blocking w;
               (st, w) = i2c_write env (address config) [BME280_REG_CTRL_MEAS, tempAndPressureMode config] False w
      in if st = PICO_ERROR_GENERIC then ((st, config), mutex_exit w)
      else ((c_true, config), mutex_exit w))"

definition BME280_Read ::
  "'e i2c_env \<Rightarrow> BME280_Config \<Rightarrow> 'e world \<Rightarrow> (int \<times> BME280_Config) \<times> 'e world" where
  "BME280_Read env config w =
     (let w = mutex_enter_blocking w;
          (st, w) = i2c_write env (address config) [0xF7] True w
      in if st = PICO_ERROR_GENERIC then ((st, config), mutex_exit w)
      else let ((st, bs), w) = i2c_read env (address config) 8 False w;
               config = config\<lparr>rawData := fill 8 bs (rawData config)\<rparr>
      in if st = PICO_ERROR_GENERIC then ((st, config), mutex_exit w)
      else let w = mutex_exit w
      in ((c_true, config\<lparr>status := BME280_READ_SUCCESS\<rparr>), w))"

subsection \<open>Physical values\<close>

definition BME280_DewPoint :: "libm \<Rightarrow> BME280_DataPacket \<Rightarrow> BME280_DataPacket" where
  "BME280_DewPoint lm data =
     (let gamma = logf lm (humidity data / f32_lit 100) +
                  (f32_lit (17625/1000) * temperature data) / (f32_lit (24304/100) + temperature data)
      in data\<lparr>dewPoint := (f32_lit (24304/100) * gamma) / (f32_lit (17625/1000) - gamma)\<rparr>)"

definition BME280_AbsoluteHumidity :: "libm \<Rightarrow> BME280_DataPacket \<Rightarrow> BME280_DataPacket" where
  "BME280_AbsoluteHumidity lm data =
     (let pSat = f32_lit (61121/100) *
                 expf lm ((f32_lit (1767/100) * temperature data) / (temperature data + f32_lit (2435/10)));
          pVapor = pSat * (humidity data / f32_lit 100);
          tempKelvin = temperature data + f32_lit (27315/100)
      in data\<lparr>absoluteHumidity := (f32_lit (2167/1000) * pVapor) / tempKelvin\<rparr>)"

definition rawPressure :: "u8 list \<Rightarrow> int" where
  "rawPressure raw = uint (raw ! 0) * 2 ^ 12 + uint (raw ! 1) * 2 ^ 4 + uint (raw ! 2) div 2 ^ 4"

definition rawTemp :: "u8 list \<Rightarrow> int" where
  "rawTemp raw = uint (raw ! 3) * 2 ^ 12 + uint (raw ! 4) * 2 ^ 4 + uint (raw ! 5) div 2 ^ 4"

definition rawHumidity :: "u8 list \<Rightarrow> int" where
  "rawHumidity raw = uint (raw ! 6) * 2 ^ 8 + uint (raw ! 7)"

definition BME280_ProcessData ::
  "libm \<Rightarrow> BME280_Config \<Rightarrow> BME280_DataPacket \<Rightarrow> BME280_DataPacket option" where
  "BME280_ProcessData lm config data = do {
     (t, tFine) \<leftarrow> BME280_CompensateTemp (rawTemp (rawData config)) (params config);
     p \<leftarrow> BME280_CompensatePressure (rawPressure (rawData config)) (params config) tFine;
     h \<leftarrow> BME280_CompensateHumidity (rawHumidity (rawData config)) (params config) tFine;
     let data = data\<lparr>temperature := f32_of_int t / f32_lit 100,
                     pressure := (f32_of_int (uint p) / f32_lit 256) / f32_lit 100,
                     humidity := f32_of_int (uint h) / f32_lit 1024\<rparr>;
     Some (BME280_DewPoint lm (BME280_AbsoluteHumidity lm data))
   }"

definition BME280_zero :: BME280_DataPacket where
  "BME280_zero = \<lparr>pressure = 0, temperature = 0, dewPoint = 0, humidity = 0, absoluteHumidity = 0,
                  timestamp = 0, jsonify = JSON_NULL\<rparr>"

text \<open>\<open>data\<close> is the array the pointer argument points to and \<open>len\<close> the count the caller passes.\<close>

definition BME280_AverageData :: "libm \<Rightarrow> BME280_DataPacket list \<Rightarrow> nat \<Rightarrow> BME280_DataPacket" where
  "BME280_AverageData lm data len =
     (if len < 2 then
        BME280_zero\<lparr>humidity := humidity (data ! 0), absoluteHumidity := absoluteHumidity (data ! 0),
                    temperature := temperature (data ! 0), dewPoint := dewPoint (data ! 0),
                    pressure := pressure (data ! 0)\<rparr>
      else
        let (sumRH, temp, press) =
              foldl (\<lambda>(a, b, c) d. (a + humidity d, b + temperature d, c + pressure d)) (0, 0, 0) (take len data);
            avg = BME280_zero\<lparr>humidity := sumRH / f32_of_int (int len),
                              temperature := temp / f32_of_int (int len),
                              pressure := press / f32_of_int (int len)\<rparr>
        in BME280_DewPoint lm (BME280_AbsoluteHumidity lm avg))"

subsection \<open>Sending\<close>

definition hkBM280_JSON_BUFFER :: nat where "hkBM280_JSON_BUFFER = 128"

text \<open>
  The call passes three arguments for four conversions: what the last \<open>%.2f\<close> prints is not
  determined by the program, the parameter \<open>missing\<close>.
\<close>

definition BME280_Jsonify :: "string \<Rightarrow> BME280_DataPacket \<Rightarrow> string option" where
  "BME280_Jsonify missing data = jsonify_into hkBM280_JSON_BUFFER
     (''{\"sensor\": \"bme280\",\"pressure\": '' @ fmt_f 2 (pressure data) @
      '',\"temperature\": '' @ fmt_f 2 (temperature data) @
      '',\"humidity\": '' @ fmt_f 2 (humidity data) @
      '',\"absoluteHumidity\": '' @ missing @ ''}'')"

type_synonym 'e BME280_Task = "(BME280_Config, BME280_DataPacket, 'e) task_state"

text \<open>One round of the endless loop of \<open>vBME280_Task\<close>.\<close>

definition BME280_round :: "'e i2c_env \<Rightarrow> libm \<Rightarrow> 'e BME280_Task \<Rightarrow> 'e BME280_Task option" where
  "BME280_round env lm t =
     (let t = snd (on_conf (BME280_InitRead env) t);
          t = task_delay 15 t;
          t = snd (on_conf (BME280_Read env) t)
      in if status (conf t) = BME280_READ_SUCCESS
         then do {
           d \<leftarrow> BME280_ProcessData lm (conf t) (packet t);
           Some (task_delay 1000 (send d (t\<lparr>packet := d\<rparr>)))
         }
         else Some (task_delay 1000 t))"

definition vBME280_Task :: "'e i2c_env \<Rightarrow> u8 list \<Rightarrow> libm \<Rightarrow> nat \<Rightarrow> 'e BME280_Task \<Rightarrow> 'e BME280_Task option" where
  "vBME280_Task env uninit lm n = run_task (on_conf (BME280_Init env uninit)) 10000 100 (BME280_round env lm) n"

subsection \<open>The polling round\<close>

lemma BME280_Init_free:
  "lock_state w = Some False \<Longrightarrow> lock_state (snd (BME280_Init env uninit config w)) = Some False"
  by (simp add: BME280_Init_def BME280_ReadCalibrationData_def Let_def case_prod_unfold bus_simps)

lemma BME280_InitRead_free:
  "lock_state w = Some False \<Longrightarrow> lock_state (snd (BME280_InitRead env config w)) = Some False"
  by (simp add: BME280_InitRead_def Let_def case_prod_unfold bus_simps)

lemma BME280_Read_free:
  "lock_state w = Some False \<Longrightarrow> lock_state (snd (BME280_Read env config w)) = Some False"
  by (simp add: BME280_Read_def Let_def case_prod_unfold bus_simps)

lemma BME280_InitRead_status: "status (snd (fst (BME280_InitRead env config w))) = BME280_READ_IN_PROGRESS"
  by (simp add: BME280_InitRead_def Let_def case_prod_unfold)

lemma BME280_Read_status:
  "status (snd (fst (BME280_Read env config w))) =
   (if fst (fst (BME280_Read env config w)) = 1 then BME280_READ_SUCCESS else status config)"
  by (simp add: BME280_Read_def Let_def case_prod_unfold)

lemma BME280_Read_result: "fst (fst (BME280_Read env config w)) \<in> {1, - 1}"
  by (simp add: BME280_Read_def Let_def case_prod_unfold)

lemma BME280_status_codes: "BME280_READ_SUCCESS \<noteq> BME280_READ_IN_PROGRESS"
  by (simp add: BME280_READ_SUCCESS_def BME280_READ_IN_PROGRESS_def)

text \<open>The state in which a round calls \<open>BME280_Read\<close>.\<close>

definition BME280_before_read :: "'e i2c_env \<Rightarrow> 'e BME280_Task \<Rightarrow> 'e BME280_Task" where
  "BME280_before_read env t = task_delay 15 (snd (on_conf (BME280_InitRead env) t))"

lemma BME280_round_cases:
  assumes "BME280_round env lm t = Some t'"
  defines "r \<equiv> BME280_Read env (conf (BME280_before_read env t)) (wld (BME280_before_read env t))"
  shows "if fst (fst r) = 1
     then status (conf t') = BME280_READ_SUCCESS \<and> (\<exists>d. BME280_ProcessData lm (snd (fst r)) (packet t) = Some d \<and> packet t' = d \<and> sent t' = sent t @ [d])
     else status (conf t') = BME280_READ_IN_PROGRESS \<and> packet t' = packet t \<and> sent t' = sent t"
  using assms(1) BME280_status_codes unfolding r_def
  by (auto simp: BME280_round_def BME280_before_read_def Let_def task_simps BME280_Read_status BME280_InitRead_status
      bind_eq_Some_conv split: if_splits)

lemma BME280_round_wld:
  assumes "BME280_round env lm t = Some t'"
  shows "wld t' = delay_ms 1000 (snd (BME280_Read env (conf (BME280_before_read env t)) (wld (BME280_before_read env t))))"
  using assms
  by (auto simp: BME280_round_def BME280_before_read_def Let_def task_simps bind_eq_Some_conv split: if_splits)

interpretation bme280: sensor_task "on_conf (BME280_Init env uninit)" "BME280_round env lm"
proof unfold_locales
  fix t :: "'a BME280_Task"
  show "task_free t \<Longrightarrow> task_free (snd (on_conf (BME280_Init env uninit) t))"
    by (simp add: task_free_def task_simps BME280_Init_free)
  show "sent (snd (on_conf (BME280_Init env uninit) t)) = sent t"
    by (simp add: task_simps)
  fix t'
  assume r: "BME280_round env lm t = Some t'"
  show "task_free t \<Longrightarrow> task_free t'"
    by (simp add: task_free_def BME280_round_wld [OF r] BME280_before_read_def task_simps bus_simps
        BME280_Read_free BME280_InitRead_free)
  show "\<exists>ps. sent t' = sent t @ ps \<and> length ps \<le> 1"
    using BME280_round_cases [OF r] by (auto split: if_splits)
qed

subsection \<open>The compensation arithmetic\<close>

lemma CompensateHumidity_clamped:
  assumes "BME280_CompensateHumidity adcH c tFine = Some h"
  shows "\<exists>v. h = word_of_int ((if 419430400 < (if v < 0 then 0 else v) then 419430400 else (if v < 0 then 0 else v)) div 2 ^ 12)"
  using assms unfolding BME280_CompensateHumidity_def Let_def bind_eq_Some_conv option.inject
  by (elim exE conjE) (rule exI, erule sym)

lemma humidity_bound:
  assumes "BME280_CompensateHumidity adcH c tFine = Some h"
  shows "uint h \<le> 102400"
proof -
  have "\<exists>v :: int. h = word_of_int (v div 2 ^ 12) \<and> 0 \<le> v \<and> v \<le> 419430400"
    using CompensateHumidity_clamped [OF assms] by (elim exE) (rule exI, intro conjI, assumption, auto)
  then obtain v :: int where h: "h = word_of_int (v div 2 ^ 12)" and v: "0 \<le> v" "v \<le> 419430400"
    by blast
  then have "0 \<le> v div 2 ^ 12" "v div 2 ^ 12 \<le> 102400" by simp_all
  then show ?thesis by (simp add: h uint_word_of_int)
qed

lemma temp_defined:
  assumes t1: "\<bar>adcT div 16 - uint (dig_T1 c)\<bar> \<le> 32766"
    and t2: "\<bar>dig_T2 c\<bar> \<le> 32768" and t3: "\<bar>dig_T3 c\<bar> \<le> 8191"
  shows "\<exists>tf. BME280_CompensateTemp adcT c = Some ((tf * 5 + 128) div 256, tf) \<and> \<bar>tf\<bar> \<le> 1179647"
proof -
  define d1 where "d1 = adcT div 8 - uint (dig_T1 c) * 2"
  define d2 where "d2 = adcT div 16 - uint (dig_T1 c)"
  have "adcT div 8 = 2 * (adcT div 16) \<or> adcT div 8 = 2 * (adcT div 16) + 1" by presburger
  then have d1: "\<bar>d1\<bar> \<le> 65533" using t1 unfolding d1_def by linarith
  have d2: "\<bar>d2\<bar> \<le> 32766" using t1 by (simp add: d2_def)
  have p1: "\<bar>d1 * dig_T2 c\<bar> \<le> 65533 * 32768" by (rule mult_bound [OF d1 t2])
  have sq: "\<bar>d2 * d2\<bar> \<le> 32766 * 32766" by (rule mult_bound [OF d2 d2])
  have "\<bar>d2 * d2 div 2 ^ 12\<bar> \<le> 262113" by (rule div_bound) (use sq in simp)
  then have p2: "\<bar>d2 * d2 div 2 ^ 12 * dig_T3 c\<bar> \<le> 262113 * 8191" by (rule mult_bound [OF _ t3])
  have v1: "\<bar>d1 * dig_T2 c div 2 ^ 11\<bar> \<le> 1048528" by (rule div_bound) (use p1 in simp)
  have v2: "\<bar>d2 * d2 div 2 ^ 12 * dig_T3 c div 2 ^ 14\<bar> \<le> 131041" by (rule div_bound) (use p2 in simp)
  define tf where "tf = d1 * dig_T2 c div 2 ^ 11 + d2 * d2 div 2 ^ 12 * dig_T3 c div 2 ^ 14"
  have tf: "\<bar>tf\<bar> \<le> 1179569" using v1 v2 unfolding tf_def by linarith
  have e: "adcT div 2 ^ 3 - uint (dig_T1 c) * 2 = d1" "adcT div 2 ^ 4 - uint (dig_T1 c) = d2"
    by (simp_all add: d1_def d2_def)
  have t5: "\<bar>tf * 5\<bar> \<le> 5897845" "\<bar>tf * 5 + 128\<bar> \<le> 5897973" using tf by auto
  have c: "ck32 d1 = Some d1" "ck32 (d1 * dig_T2 c) = Some (d1 * dig_T2 c)" "ck32 d2 = Some d2"
    "ck32 (d2 * d2) = Some (d2 * d2)" "ck32 (d2 * d2 div 2 ^ 12 * dig_T3 c) = Some (d2 * d2 div 2 ^ 12 * dig_T3 c)"
    "ck32 tf = Some tf" "ck32 (tf * 5) = Some (tf * 5)" "ck32 (tf * 5 + 128) = Some (tf * 5 + 128)"
    by (rule ck32_le [OF d1] ck32_le [OF p1] ck32_le [OF d2] ck32_le [OF sq] ck32_le [OF p2] ck32_le [OF tf]
        ck32_le [OF t5(1)] ck32_le [OF t5(2)], simp)+
  have "BME280_CompensateTemp adcT c = Some ((tf * 5 + 128) div 2 ^ 8, tf)"
    by (simp add: BME280_CompensateTemp_def e Let_def c del: power_numeral ck32_Some flip: tf_def)
  with tf show ?thesis by auto
qed


lemma CompensateHumidity_overflow:
  assumes "2048 \<le> dig_H4 c"
  shows "BME280_CompensateHumidity adcH c tFine = None"
proof -
  have "ck32 (dig_H4 c * 2 ^ 20) = None" using assms by (simp add: ck32_def)
  then show ?thesis
    by (cases "ck32 (tFine - 76800)"; cases "ck32 (adcH * 2 ^ 14)") (simp_all add: BME280_CompensateHumidity_def)
qed

lemma nibble_bound: "uint (b AND 0x0F :: u8) < 16" "uint (drop_bit 4 (b :: u8)) < 16"
proof -
  show "uint (b AND 0x0F) < 16" using unat_nibbles(2) [of b] by (simp add: uint_nat)
  show "uint (drop_bit 4 b) < 16" using unat_nibbles(1) [of b] unat_u8 [of b] by (simp add: uint_nat)
qed

lemma calib_block_2_H4_H5:
  "dig_H4 (calib_block_2 buffer c) = uint (buffer ! 3) * 16 + uint (buffer ! 4 AND 0x0F)"
  "dig_H5 (calib_block_2 buffer c) = uint (buffer ! 5) * 16 + uint (drop_bit 4 (buffer ! 4))"
proof -
  have u: "0 \<le> uint b \<and> uint b < 256" for b :: u8 using uint_bounded [of b] by simp
  have r: "as_i16 (uint x * 16 + uint y) = uint x * 16 + uint y" if "uint y < 16" for x y :: u8
    by (rule as_i16_id) (use that u [of x] uint_ge_0 [of y] in linarith)+
  show "dig_H4 (calib_block_2 buffer c) = uint (buffer ! 3) * 16 + uint (buffer ! 4 AND 0x0F)"
    using r [OF nibble_bound(1)] by (simp add: calib_block_2_def)
  show "dig_H5 (calib_block_2 buffer c) = uint (buffer ! 5) * 16 + uint (drop_bit 4 (buffer ! 4))"
    using r [OF nibble_bound(2)] by (simp add: calib_block_2_def)
qed

lemma ReadCalibration_params:
  assumes "BME280_ReadCalibrationData env uninit config w = ((1, config'), w')"
  shows "\<exists>b1 b2. params config' = calib_block_2 (fill 7 b2 (fill 26 b1 uninit)) (calib_block_1 (fill 26 b1 uninit) (params config))"
  using assms
  by (simp add: BME280_ReadCalibrationData_def Let_def case_prod_unfold split: if_splits)
     (elim conjE, erule subst, simp, rule exI, rule exI, rule refl)

subsection \<open>Properties\<close>

definition BME280_demo :: "unit BME280_Task" where
  "BME280_demo = \<lparr>conf = \<lparr>rawData = replicate 8 0, address = 0x76, status = BME280_INIT, humiditySampling = 1,
      iirCoefficient = 0, tempAndPressureMode = 0x25,
      params = \<lparr>dig_T1 = 0, dig_T2 = 0, dig_T3 = 0, dig_P1 = 0, dig_P2 = 0, dig_P3 = 0, dig_P4 = 0, dig_P5 = 0,
        dig_P6 = 0, dig_P7 = 0, dig_P8 = 0, dig_P9 = 0, dig_H1 = 0, dig_H2 = 0, dig_H3 = 0, dig_H4 = 0, dig_H5 = 0, dig_H6 = 0\<rparr>\<rparr>,
    packet = BME280_zero, sent = [], wld = quiet_world\<rparr>"

lemma demo_init: "fst (on_conf (BME280_Init (answer_env bytes) u) t) = 1"
  by (simp add: task_simps BME280_Init_def BME280_ReadCalibrationData_def Let_def case_prod_unfold bus_simps)

lemma demo_start: "\<exists>t'. vBME280_Task (answer_env bytes) u lm 0 t = Some t'"
  using retry_init_exact [of 0 "on_conf (BME280_Init (answer_env bytes) u)" "task_delay 10000" t]
  by (simp add: vBME280_Task_def run_task_def demo_init)

text \<open>C18. However the sensor answers, the task never leaves the bus mutex held, never takes it twice and
  never transfers or sleeps against the locking discipline, at any number of polling rounds.\<close>

theorem BME280_task_bus_free:
  "task_free t \<Longrightarrow> vBME280_Task env uninit lm n t = Some t' \<Longrightarrow> task_free t'"
  unfolding vBME280_Task_def by (rule bme280.run_free)

theorem BME280_task_bus_free_witness:
  "\<exists>t'. vBME280_Task (answer_env []) [] id_libm 0 BME280_demo = Some t' \<and> task_free t'"
  using demo_start [of "[]" "[]" id_libm BME280_demo]
    BME280_task_bus_free [of BME280_demo "answer_env []" "[]" id_libm 0]
  by (auto simp: task_free_def BME280_demo_def)

text \<open>A polling round sends a packet exactly when its read succeeded, and then the packet processed from
  that read; when the read failed it sends nothing and the next \<open>BME280_InitRead\<close> returns \<open>false\<close>
  without starting a measurement, because the status is still \<open>BME280_READ_IN_PROGRESS\<close>.\<close>

theorem BME280_round_sends_iff_read:
  assumes "BME280_round env lm t = Some t'"
    and "r = BME280_Read env (conf (BME280_before_read env t)) (wld (BME280_before_read env t))"
  shows "(if fst (fst r) = 1
      then \<exists>d. BME280_ProcessData lm (snd (fst r)) (packet t) = Some d \<and> sent t' = sent t @ [d]
      else sent t' = sent t \<and> BME280_InitRead env (conf t') w = ((c_false, conf t'), w))"
  using BME280_round_cases [OF assms(1)] unfolding assms(2)
  by (auto simp: BME280_InitRead_def split: if_splits)

theorem BME280_round_sends_iff_read_witness:
  "\<exists>t'. BME280_round silent_env id_libm BME280_demo = Some t' \<and> sent t' = []
     \<and> BME280_InitRead silent_env (conf t') quiet_world = ((c_false, conf t'), quiet_world)"
proof -
  let ?r = "BME280_Read silent_env (conf (BME280_before_read silent_env BME280_demo)) (wld (BME280_before_read silent_env BME280_demo))"
  have f: "fst (fst ?r) = - 1" by (simp add: BME280_Read_def Let_def case_prod_unfold bus_simps)
  then have "\<exists>t'. BME280_round silent_env id_libm BME280_demo = Some t'"
    using BME280_status_codes
    by (simp add: BME280_round_def Let_def task_simps BME280_Read_status BME280_InitRead_status BME280_before_read_def)
  then obtain t' where t': "BME280_round silent_env id_libm BME280_demo = Some t'" by blast
  show ?thesis
    using BME280_round_sends_iff_read [OF t' refl, of quiet_world] f t' by (simp add: BME280_demo_def)
qed

text \<open>C35. With a raw value within 32766 units of 16 of the calibrated reference and \<open>dig_T3\<close> of at most 13
  bits, no intermediate of the temperature compensation overflows an \<open>i32\<close>, and the result is the
  fine temperature scaled by 5/256.\<close>

theorem BME280_temperature_defined:
  assumes "\<bar>adcT div 16 - uint (dig_T1 c)\<bar> \<le> 32766" and "\<bar>dig_T2 c\<bar> \<le> 32768" and "\<bar>dig_T3 c\<bar> \<le> 8191"
  shows "\<exists>tf. BME280_CompensateTemp adcT c = Some ((tf * 5 + 128) div 256, tf) \<and> \<bar>tf\<bar> \<le> 1179647"
  by (rule temp_defined [OF assms])

theorem BME280_temperature_defined_witness:
  "\<exists>tf. BME280_CompensateTemp 519888 ((params (conf BME280_demo))\<lparr>dig_T1 := 27504, dig_T2 := 26435, dig_T3 := - 1000\<rparr>) =
     Some ((tf * 5 + 128) div 256, tf)"
  using BME280_temperature_defined [of 519888 "(params (conf BME280_demo))\<lparr>dig_T1 := 27504, dig_T2 := 26435, dig_T3 := - 1000\<rparr>"]
  by (auto simp: BME280_demo_def)

text \<open>Whatever the calibration and the raw value, a humidity that is computed at all is at most 102400
  units of 1/1024 percent, that is 100 percent.\<close>

theorem BME280_humidity_saturates:
  "BME280_CompensateHumidity adcH c tFine = Some h \<Longrightarrow> uint h \<le> 102400"
  by (rule humidity_bound)

theorem BME280_humidity_saturates_witness:
  "\<exists>h. BME280_CompensateHumidity 30000 ((params (conf BME280_demo))\<lparr>dig_H2 := 362\<rparr>) 128422 = Some h \<and> uint h \<le> 102400"
proof -
  have "BME280_CompensateHumidity 30000 ((params (conf BME280_demo))\<lparr>dig_H2 := 362\<rparr>) 128422 \<noteq> None" by code_simp
  then obtain h where "BME280_CompensateHumidity 30000 ((params (conf BME280_demo))\<lparr>dig_H2 := 362\<rparr>) 128422 = Some h" by blast
  then show ?thesis using BME280_humidity_saturates by blast
qed

text \<open>The 12-bit calibration values \<open>dig_H4\<close> and \<open>dig_H5\<close> are assembled without sign extension: after a
  successful read-out both are between 0 and 4095, and a \<open>dig_H4\<close> whose sign bit is set makes the
  humidity compensation shift past the end of an \<open>i32\<close>, which is undefined.\<close>

theorem BME280_calibration_H4_unsigned:
  assumes "BME280_ReadCalibrationData env uninit config w = ((1, config'), w')"
  shows "0 \<le> dig_H4 (params config') \<and> dig_H4 (params config') \<le> 4095
    \<and> 0 \<le> dig_H5 (params config') \<and> dig_H5 (params config') \<le> 4095
    \<and> (2048 \<le> dig_H4 (params config') \<longrightarrow> BME280_CompensateHumidity adcH (params config') tFine = None)"
proof -
  have u: "0 \<le> uint b \<and> uint b \<le> 255" for b :: u8 using uint_bounded [of b] by simp
  obtain b c where "params config' = calib_block_2 b c"
    using ReadCalibration_params [OF assms] by blast
  then show ?thesis
    using u [of "b ! 3"] u [of "b ! 5"] nibble_bound [of "b ! 4"] CompensateHumidity_overflow [of "params config'"]
      uint_ge_0 [of "b ! 4 AND 0x0F"] uint_ge_0 [of "drop_bit 4 (b ! 4)"]
    unfolding calib_block_2_H4_H5 by (simp only: calib_block_2_H4_H5) auto
qed

theorem BME280_calibration_H4_unsigned_witness:
  "\<exists>config' w'. BME280_ReadCalibrationData (answer_env (replicate 26 0x90)) (replicate 26 0) (conf BME280_demo) quiet_world = ((1, config'), w')
     \<and> 2048 \<le> dig_H4 (params config') \<and> BME280_CompensateHumidity 30000 (params config') 128422 = None"
proof -
  let ?r = "BME280_ReadCalibrationData (answer_env (replicate 26 0x90)) (replicate 26 0) (conf BME280_demo) quiet_world"
  have "fst (fst ?r) = 1 \<and> dig_H4 (params (snd (fst ?r))) = 2304" by code_simp
  moreover obtain st config' w' where r: "?r = ((st, config'), w')" by (metis prod.exhaust)
  ultimately have r: "?r = ((1, config'), w')" and h: "dig_H4 (params config') = 2304" by auto
  show ?thesis
    using BME280_calibration_H4_unsigned [OF r, of 30000 128422] r h by auto
qed

end
