(* ===== verification/Crc.thy ===== *)
theory Crc
  imports Prelude
begin

text \<open>
  The three 8-bit cyclic redundancy checks of the sensor drivers: \<open>DHT20_CRC\<close>
  (src/sensors/dht20/dht20.c), \<open>SGP30_CRC\<close> (src/sensors/sgp30/sgp30.c), both most significant bit
  first with polynomial 0x31 and start value 0xFF, and \<open>DS18B20_CRC\<close>
  (src/sensors/ds18b20/ds18b20.c), least significant bit first with the reflected polynomial
  0x8C. The bit step of each is a shift register that is linear over XOR and has a trivial
  kernel; the locale \<open>shift_register\<close> proves from these two laws what a receiver relies on.
\<close>

subsection \<open>The code\<close>

text \<open>One round of the inner loop of \<open>DHT20_CRC\<close> and of \<open>SGP30_CRC\<close>.\<close>

definition msb_step :: "u8 \<Rightarrow> u8" where
  "msb_step crc = (if crc AND 0x80 \<noteq> 0 then push_bit 1 crc XOR 0x31 else push_bit 1 crc)"

definition DHT20_CRC :: "u8 list \<Rightarrow> nat \<Rightarrow> u8" where
  "DHT20_CRC data len = foldl (\<lambda>crc b. iterate 8 msb_step (crc XOR b)) 0xFF (take len data)"

definition SGP30_CRC :: "u8 list \<Rightarrow> nat \<Rightarrow> u8" where
  "SGP30_CRC data len = foldl (\<lambda>crc b. iterate 8 msb_step (crc XOR b)) 0xFF (take len data)"

text \<open>One round of the inner loop of \<open>DS18B20_CRC\<close>, on the pair of \<open>crc\<close> and \<open>bit\<close>.\<close>

definition lsb_round :: "u8 \<times> u8 \<Rightarrow> u8 \<times> u8" where
  "lsb_round s = (let (crc, bit) = s;
                      sum = (crc XOR bit) AND 1;
                      crc = drop_bit 1 crc;
                      crc = (if sum \<noteq> 0 then crc XOR 0x8C else crc)
                  in (crc, drop_bit 1 bit))"

definition DS18B20_crc_value :: "u8 list \<Rightarrow> nat \<Rightarrow> u8" where
  "DS18B20_crc_value data len = foldl (\<lambda>crc b. fst (iterate 8 lsb_round (crc, b))) 0 (take len data)"

definition DS18B20_CRC :: "u8 list \<Rightarrow> nat \<Rightarrow> bool" where
  "DS18B20_CRC data len = (DS18B20_crc_value data len = 0)"

subsection \<open>Shift registers\<close>

definition crc_fold :: "(u8 \<Rightarrow> u8) \<Rightarrow> u8 \<Rightarrow> u8 list \<Rightarrow> u8" where
  "crc_fold f i xs = foldl (\<lambda>c b. iterate 8 f (c XOR b)) i xs"

locale shift_register =
  fixes step :: "u8 \<Rightarrow> u8"
  assumes step_xor: "step (a XOR b) = step a XOR step b"
    and step_kernel: "step a = 0 \<Longrightarrow> a = 0"
begin

lemma step_zero [simp]: "step 0 = 0"
  using step_xor [of 0 0] by simp

lemma iterate_xor: "iterate n step (a XOR b) = iterate n step a XOR iterate n step b"
  by (induction n arbitrary: a b) (simp_all add: step_xor)

lemma iterate_zero [simp]: "iterate n step 0 = 0"
  by (induction n) simp_all

lemma iterate_kernel: "iterate n step a = 0 \<Longrightarrow> a = 0"
  by (induction n arbitrary: a) (auto dest: step_kernel)

lemma iterate_inj: "iterate n step a = iterate n step b \<longleftrightarrow> a = b"
proof
  assume "iterate n step a = iterate n step b"
  then have "iterate n step (a XOR b) = 0" by (simp add: iterate_xor)
  then have "a XOR b = 0" by (rule iterate_kernel)
  then have "(a XOR b) XOR b = 0 XOR b" by (rule arg_cong)
  then show "a = b" by (simp add: ac_simps)
qed simp

lemma crc_append: "crc_fold step i (xs @ ys) = crc_fold step (crc_fold step i xs) ys"
  by (simp add: crc_fold_def)

lemma crc_Cons: "crc_fold step i (x # xs) = crc_fold step (iterate 8 step (i XOR x)) xs"
  by (simp add: crc_fold_def)

text \<open>Appending a byte makes the remainder zero exactly when it is the checksum.\<close>

lemma crc_residue: "crc_fold step i (xs @ [c]) = 0 \<longleftrightarrow> c = crc_fold step i xs"
proof -
  have "crc_fold step i (xs @ [c]) = 0 \<longleftrightarrow> iterate 8 step (crc_fold step i xs XOR c) = iterate 8 step 0"
    by (simp add: crc_fold_def)
  also have "\<dots> \<longleftrightarrow> crc_fold step i xs XOR c = 0"
    by (simp only: iterate_inj)
  also have "\<dots> \<longleftrightarrow> c = crc_fold step i xs"
    by (metis xor_self_eq bit.xor_left_self xor.right_neutral)
  finally show ?thesis .
qed

lemma crc_start_inj: "crc_fold step i xs = crc_fold step j xs \<longleftrightarrow> i = j"
proof (induction xs arbitrary: i j)
  case Nil
  then show ?case by (simp add: crc_fold_def)
next
  case (Cons x xs)
  have "i XOR x = j XOR x \<longleftrightarrow> i = j"
    by (metis bit.xor_left_self xor.commute)
  with Cons show ?case by (simp add: crc_Cons iterate_inj)
qed

text \<open>Two messages of the same length that differ in one byte have different checksums.\<close>

lemma crc_one_byte:
  assumes "k < length xs" and "b \<noteq> xs ! k"
  shows "crc_fold step i (xs[k := b]) \<noteq> crc_fold step i xs"
proof -
  let ?c = "crc_fold step i (take k xs)"
  have xs: "xs = take k xs @ xs ! k # drop (Suc k) xs"
    using assms(1) by (rule id_take_nth_drop)
  have upd: "xs[k := b] = take k xs @ b # drop (Suc k) xs"
    using assms(1) by (rule upd_conv_take_nth_drop)
  have "crc_fold step i (xs[k := b]) = crc_fold step (iterate 8 step (?c XOR b)) (drop (Suc k) xs)"
    unfolding upd by (simp add: crc_append crc_Cons)
  moreover have "crc_fold step i xs = crc_fold step (iterate 8 step (?c XOR xs ! k)) (drop (Suc k) xs)"
    by (subst xs) (simp add: crc_append crc_Cons)
  moreover have "?c XOR b \<noteq> ?c XOR xs ! k"
    using assms(2) by (metis bit.xor_left_self)
  ultimately show ?thesis by (simp add: crc_start_inj iterate_inj)
qed

end

subsection \<open>The registers of the code\<close>

lemma msb_step_bit: "msb_step c = (if bit c 7 then push_bit 1 c XOR 0x31 else push_bit 1 c)"
  using and_exp_eq_0_iff_not_bit [of c 7] by (simp add: msb_step_def)

lemma msb_step_xor: "msb_step (a XOR b) = msb_step a XOR msb_step b"
proof -
  have "push_bit 1 (a XOR b) = push_bit 1 a XOR push_bit 1 b"
    by (rule push_bit_xor)
  then show ?thesis
    by (auto simp only: msb_step_bit bit_xor_iff ac_simps bit.xor_left_self xor_self_eq xor.right_neutral xor.left_neutral split: if_splits)
qed

lemma msb_step_kernel:
  assumes z: "msb_step a = 0"
  shows "a = 0"
proof (cases "bit a 7")
  case True
  with z have "push_bit 1 a XOR 0x31 = 0" by (simp only: msb_step_bit if_True)
  moreover have "bit (push_bit 1 a XOR 0x31) 0"
    by (simp only: bit_xor_iff bit_push_bit_iff) simp
  ultimately show ?thesis by (metis bit_0_eq bot_apply bot_bool_def)
next
  case False
  with z have s: "push_bit 1 a = 0" by (simp only: msb_step_bit if_False)
  show ?thesis
  proof (rule bit_word_eqI)
    fix n assume n: "n < LENGTH(8)"
    have "bit a n = bit (push_bit 1 a) (Suc n)" if "Suc n < 8"
      using that by (simp add: bit_push_bit_iff possible_bit_def del: push_bit_Suc)
    with s False n show "bit a n = bit 0 n"
      by (cases "n = 7") (auto simp: bit_0_eq)
  qed
qed

interpretation msb: shift_register msb_step
  by unfold_locales (fact msb_step_xor, fact msb_step_kernel)

definition lsb_step :: "u8 \<Rightarrow> u8" where
  "lsb_step z = (if z AND 1 \<noteq> 0 then drop_bit 1 z XOR 0x8C else drop_bit 1 z)"

lemma and_1_bit: "(z :: u8) AND 1 \<noteq> 0 \<longleftrightarrow> bit z 0"
  using and_exp_eq_0_iff_not_bit [of z 0] by simp

lemma lsb_step_bit: "lsb_step z = (if bit z 0 then drop_bit 1 z XOR 0x8C else drop_bit 1 z)"
  by (simp only: lsb_step_def and_1_bit)

lemma lsb_step_xor: "lsb_step (a XOR b) = lsb_step a XOR lsb_step b"
  by (auto simp only: lsb_step_bit bit_xor_iff drop_bit_xor ac_simps bit.xor_left_self xor_self_eq
      xor.right_neutral xor.left_neutral split: if_splits)

lemma lsb_step_kernel:
  assumes z: "lsb_step a = 0"
  shows "a = 0"
proof (cases "bit a 0")
  case True
  with z have "drop_bit 1 a XOR 0x8C = 0" by (simp only: lsb_step_bit if_True)
  moreover have "\<not> bit a 8" using bit_imp_le_length [of a 8] by auto
  then have "bit (drop_bit 1 a XOR 0x8C) 7"
    by (simp add: bit_xor_iff bit_drop_bit_eq)
  ultimately show ?thesis by (metis bit_0_eq bot_apply bot_bool_def)
next
  case False
  with z have s: "drop_bit 1 a = 0" by (simp only: lsb_step_bit if_False)
  show ?thesis
  proof (rule bit_word_eqI)
    fix n assume "n < LENGTH(8)"
    have "bit a n = bit (drop_bit 1 a) (n - 1)" if "n \<noteq> 0"
      using that by (simp add: bit_drop_bit_eq)
    with s False show "bit a n = bit 0 n"
      by (cases "n = 0") (auto simp: bit_0_eq)
  qed
qed

interpretation lsb: shift_register lsb_step
  by unfold_locales (fact lsb_step_xor, fact lsb_step_kernel)

text \<open>The pair of registers of \<open>DS18B20_CRC\<close> is one register holding their XOR.\<close>

lemma lsb_round_xor: "fst (lsb_round s) XOR snd (lsb_round s) = lsb_step (fst s XOR snd s)"
  by (cases s) (auto simp only: lsb_round_def lsb_step_def Let_def drop_bit_xor ac_simps fst_conv snd_conv prod.case split: if_splits)

lemma lsb_rounds_xor:
  "fst (iterate n lsb_round s) XOR snd (iterate n lsb_round s) = iterate n lsb_step (fst s XOR snd s)"
  by (induction n arbitrary: s) (simp_all add: lsb_round_xor)

lemma lsb_rounds_bit: "snd (iterate n lsb_round s) = drop_bit n (snd s)"
  by (induction n arbitrary: s) (auto simp: lsb_round_def Let_def split: prod.splits)

lemma drop_8: "drop_bit 8 (b :: u8) = 0"
  by (rule bit_word_eqI) (auto simp: bit_drop_bit_eq dest: bit_imp_le_length)

lemma lsb_byte: "fst (iterate 8 lsb_round (crc, b)) = iterate 8 lsb_step (crc XOR b)"
  using lsb_rounds_xor [of 8 "(crc, b)"] lsb_rounds_bit [of 8 "(crc, b)"] by (simp add: drop_8)

lemma DHT20_CRC_fold: "DHT20_CRC data len = crc_fold msb_step 0xFF (take len data)"
  by (simp add: DHT20_CRC_def crc_fold_def)

lemma SGP30_CRC_fold: "SGP30_CRC data len = crc_fold msb_step 0xFF (take len data)"
  by (simp add: SGP30_CRC_def crc_fold_def)

lemma DS18B20_CRC_fold: "DS18B20_crc_value data len = crc_fold lsb_step 0 (take len data)"
  by (simp add: DS18B20_crc_value_def crc_fold_def lsb_byte)

subsection \<open>The data sheets' bit-serial registers\<close>

text \<open>
  The data sheets define the checksums by a shift register that takes one bit of the message at a time and
  feeds back the polynomial when the bit that leaves differs from it.
\<close>

definition serial_msb :: "u8 \<Rightarrow> bool \<Rightarrow> u8" where
  "serial_msb c x = (if bit c 7 \<noteq> x then push_bit 1 c XOR 0x31 else push_bit 1 c)"

definition serial_lsb :: "u8 \<Rightarrow> bool \<Rightarrow> u8" where
  "serial_lsb c x = (if bit c 0 \<noteq> x then drop_bit 1 c XOR 0x8C else drop_bit 1 c)"

definition bits_msb :: "u8 \<Rightarrow> bool list" where "bits_msb b = map (\<lambda>i. bit b (7 - i)) [0..<8]"
definition bits_lsb :: "u8 \<Rightarrow> bool list" where "bits_lsb b = map (bit b) [0..<8]"

lemma msb_step_serial:
  assumes "k < 8"
  shows "msb_step (c XOR push_bit k b) = serial_msb c (bit b (7 - k)) XOR push_bit (Suc k) b"
proof -
  have p: "push_bit 1 (c XOR push_bit k b) = push_bit 1 c XOR push_bit (Suc k) b"
    by (simp only: push_bit_xor push_bit_push_bit plus_1_eq_Suc)
  have "bit (c XOR push_bit k b) 7 \<longleftrightarrow> bit c 7 \<noteq> bit b (7 - k)" using assms by (simp add: bit_xor_iff bit_push_bit_iff)
  then show ?thesis by (auto simp only: msb_step_bit serial_msb_def p ac_simps split: if_splits)
qed

lemma serial_msb_run:
  "k \<le> 8 \<Longrightarrow> iterate k msb_step (c XOR b) = foldl serial_msb c (map (\<lambda>i. bit b (7 - i)) [0..<k]) XOR push_bit k b"
proof (induction k)
  case (Suc k)
  then show ?case using msb_step_serial [of k] by (simp add: iterate_Suc del: iterate.simps push_bit_Suc)
qed simp

lemma push_8: "push_bit 8 (b :: u8) = 0"
  by (rule bit_word_eqI) (auto simp: bit_push_bit_iff)

lemma msb_byte_serial: "iterate 8 msb_step (c XOR b) = foldl serial_msb c (bits_msb b)"
  using serial_msb_run [of 8 c b] by (simp only: bits_msb_def push_8 xor.right_neutral order_refl)

lemma crc_fold_serial_msb: "crc_fold msb_step i xs = foldl serial_msb i (concat (map bits_msb xs))"
  by (induction xs arbitrary: i) (simp_all add: crc_fold_def msb_byte_serial)

lemma lsb_step_serial: "lsb_step (c XOR drop_bit k b) = serial_lsb c (bit b k) XOR drop_bit (Suc k) b"
proof -
  have p: "drop_bit 1 (c XOR drop_bit k b) = drop_bit 1 c XOR drop_bit (Suc k) b"
    by (simp only: drop_bit_xor drop_bit_drop_bit plus_1_eq_Suc)
  have "bit (c XOR drop_bit k b) 0 \<longleftrightarrow> bit c 0 \<noteq> bit b k" by (simp add: bit_xor_iff bit_drop_bit_eq)
  then show ?thesis by (auto simp only: lsb_step_bit serial_lsb_def p ac_simps split: if_splits)
qed

lemma serial_lsb_run: "iterate k lsb_step (c XOR b) = foldl serial_lsb c (map (bit b) [0..<k]) XOR drop_bit k b"
proof (induction k)
  case (Suc k)
  then show ?case using lsb_step_serial [of _ k] by (simp add: iterate_Suc del: iterate.simps drop_bit_Suc)
qed simp

lemma lsb_byte_serial: "iterate 8 lsb_step (c XOR b) = foldl serial_lsb c (bits_lsb b)"
  using serial_lsb_run [of 8 c b] by (simp only: bits_lsb_def drop_8 xor.right_neutral)

lemma crc_fold_serial_lsb: "crc_fold lsb_step i xs = foldl serial_lsb i (concat (map bits_lsb xs))"
  by (induction xs arbitrary: i) (simp_all add: crc_fold_def lsb_byte_serial)

text \<open>C24. The byte-wise checksum loops compute the registers of the data sheets: DHT20 and SGP30 both the one with
  polynomial 0x31, most significant bit first, and DS18B20 the reflected one.\<close>

theorem CRC_matches_shift_register:
  "DHT20_CRC xs n = foldl serial_msb 0xFF (concat (map bits_msb (take n xs)))
   \<and> SGP30_CRC xs n = DHT20_CRC xs n
   \<and> DS18B20_crc_value xs n = foldl serial_lsb 0 (concat (map bits_lsb (take n xs)))"
  by (simp only: DHT20_CRC_fold SGP30_CRC_fold DS18B20_CRC_fold crc_fold_serial_msb crc_fold_serial_lsb simp_thms)

end
