(* ===== verification/DHT.thy ===== *)
theory DHT
  imports Task Packet Core Crc
begin

text \<open>
  The DHT11/DHT22 sensors in the three variants of the sources (CPU polling, PIO, PIO with DMA:
  include/sensors/dht11_22/dht11_22.h, src/sensors/dht11_22/*.c) and the DHT20
  (src/sensors/dht20/dht20.c), which share the data packet and its derived values.
\<close>

subsection \<open>Data\<close>

definition DHT_INIT :: u8 where "DHT_INIT = 0"
definition DHT_READ_INIT :: u8 where "DHT_READ_INIT = 1"
definition DHT_READ_SUCCESS :: u8 where "DHT_READ_SUCCESS = 2"
definition DHT_READ_IN_PROGRESS :: u8 where "DHT_READ_IN_PROGRESS = 3"
definition DHT_READ_BAD_CHECKSUM :: u8 where "DHT_READ_BAD_CHECKSUM = 4"
definition DHT_11 :: u8 where "DHT_11 = 5"
definition DHT_22 :: u8 where "DHT_22 = 6"

lemmas DHT_codes = DHT_INIT_def DHT_READ_INIT_def DHT_READ_SUCCESS_def DHT_READ_IN_PROGRESS_def
  DHT_READ_BAD_CHECKSUM_def DHT_11_def DHT_22_def

record DHT_Config =
  gpio :: u8
  rawData :: "u8 list"
  status :: u8
  type :: u8
  sm :: u8
  smOffset :: u32
  dmaChannel :: u32

record DHT_DataPacket =
  temperature :: f32
  dewPoint :: f32
  humidity :: f32
  absoluteHumidity :: f32
  timestamp :: u32
  jsonify :: json_fn

subsection \<open>Derived values\<close>

definition DHT_DewPoint :: "libm \<Rightarrow> DHT_DataPacket \<Rightarrow> DHT_DataPacket" where
  "DHT_DewPoint lm data =
     (let gamma = logf lm (humidity data / f32_lit 100) +
                  (f32_lit (17625/1000) * temperature data) / (f32_lit (24304/100) + temperature data)
      in data\<lparr>dewPoint := (f32_lit (24304/100) * gamma) / (f32_lit (17625/1000) - gamma)\<rparr>)"

definition DHT_AbsoluteHumidity :: "libm \<Rightarrow> DHT_DataPacket \<Rightarrow> DHT_DataPacket" where
  "DHT_AbsoluteHumidity lm data =
     (let pSat = f32_lit (61121/100) *
                 expf lm ((f32_lit (1767/100) * temperature data) / (temperature data + f32_lit (2435/10)));
          pVapor = pSat * (humidity data / f32_lit 100);
          tempKelvin = temperature data + f32_lit (27315/100)
      in data\<lparr>absoluteHumidity := (f32_lit (2167/1000) * pVapor) / tempKelvin\<rparr>)"

definition dht_checksum :: "u8 list \<Rightarrow> u8" where
  "dht_checksum raw = raw ! 0 + raw ! 1 + raw ! 2 + raw ! 3"

text \<open>The arguments are \<open>None\<close> for NULL pointers. Any other \<open>type\<close> leaves humidity and temperature.\<close>

definition DHT_ProcessData ::
  "libm \<Rightarrow> DHT_Config option \<Rightarrow> DHT_DataPacket option \<Rightarrow> DHT_Config option \<times> DHT_DataPacket option" where
  "DHT_ProcessData lm config data =
     (case (config, data) of
        (Some c, Some d) \<Rightarrow>
          let raw = rawData c;
              finish = (\<lambda>d. (Some c, Some (DHT_DewPoint lm (DHT_AbsoluteHumidity lm d))))
          in if type c = DHT_11 then
               (if dht_checksum raw \<noteq> raw ! 4 then (Some (c\<lparr>status := DHT_READ_BAD_CHECKSUM\<rparr>), Some d)
                else let t = f32_of_int (uint (raw ! 2)) + f32_of_int (uint (raw ! 3)) * f32_lit (1/10)
                     in finish (d\<lparr>humidity := f32_of_int (uint (raw ! 0)) + f32_of_int (uint (raw ! 1)) * f32_lit (1/10),
                                  temperature := (if raw ! 2 AND 0x80 \<noteq> 0 then - t else t)\<rparr>))
             else if type c = DHT_22 then
               (let hum = word16 (raw ! 0) (raw ! 1);
                    temp = word16 (raw ! 2) (raw ! 3);
                    humidityRH = f32_of_int (uint hum) / f32_lit 10;
                    tempC = f32_of_int (uint (temp AND 0x7FFF)) / f32_lit 10;
                    tempC = (if temp AND 0x8000 \<noteq> 0 then - tempC else tempC)
                in finish (d\<lparr>humidity := humidityRH, temperature := tempC\<rparr>))
             else finish d
      | _ \<Rightarrow> (config, data))"

definition DHT_zero :: DHT_DataPacket where
  "DHT_zero = \<lparr>temperature = 0, dewPoint = 0, humidity = 0, absoluteHumidity = 0, timestamp = 0,
               jsonify = JSON_NULL\<rparr>"

definition DHT_AverageData :: "libm \<Rightarrow> DHT_DataPacket list \<Rightarrow> nat \<Rightarrow> DHT_DataPacket" where
  "DHT_AverageData lm data len =
     (if len < 2 then
        DHT_zero\<lparr>humidity := humidity (data ! 0), absoluteHumidity := absoluteHumidity (data ! 0),
                 temperature := temperature (data ! 0), dewPoint := dewPoint (data ! 0)\<rparr>
      else
        let (sumRH, temp) = foldl (\<lambda>(a, b) d. (a + humidity d, b + temperature d)) (0, 0) (take len data);
            avg = DHT_zero\<lparr>humidity := sumRH / f32_of_int (int len), temperature := temp / f32_of_int (int len)\<rparr>
        in DHT_DewPoint lm (DHT_AbsoluteHumidity lm avg))"

definition hkDHT_JSON_BUFFER :: nat where "hkDHT_JSON_BUFFER = 96"

text \<open>Two arguments for three conversions, as in \<open>BME280_Jsonify\<close>.\<close>

definition DHT_Jsonify :: "string \<Rightarrow> DHT_DataPacket \<Rightarrow> string option" where
  "DHT_Jsonify missing data = jsonify_into hkDHT_JSON_BUFFER
     (''{\"sensor\": \"dht11_22\",\"temperature\": '' @ fmt_f 2 (temperature data) @
      '',\"humidity\": '' @ fmt_f 2 (humidity data) @ '',\"absoluteHumidity\": '' @ missing @ ''}'')"

subsection \<open>src/sensors/dht11_22/dht11_22.c: polling the pin\<close>

text \<open>What one polling loop sees: the timer when it starts, then pin and timer in every round.\<close>

type_synonym polls = "u32 \<times> (u8 \<times> u32) list"

definition GPIO_LOW :: u8 where "GPIO_LOW = 0"
definition GPIO_HIGH :: u8 where "GPIO_HIGH = 1"

text \<open>
  The bit loop of \<open>DHT_Read\<close>. Each bit takes two calls of \<open>gpio_wait_for_level_count\<close>, for the low and for the high phase of
  its pulse. \<open>None\<close>: the loop is still polling. \<open>bitNo\<close> runs from 0 to 39.
\<close>

fun dht_bits :: "(polls \<times> polls) list \<Rightarrow> nat \<Rightarrow> u8 list \<Rightarrow> (bool \<times> u8 list) option" where
  "dht_bits waits bitNo data =
     (if 40 \<le> bitNo then Some (dht_checksum data = data ! 4, data)
      else case waits of [] \<Rightarrow> None
      | ((t0, low), (t1, high)) # rest \<Rightarrow>
          let byteIndex = bitNo div 8;
              data = data[byteIndex := push_bit 1 (data ! byteIndex)]
          in case gpio_wait_for_level_count GPIO_LOW 70 t0 low of None \<Rightarrow> None
          | Some (ok, _) \<Rightarrow>
            if \<not> ok then Some (False, data)
            else case gpio_wait_for_level_count GPIO_HIGH 90 t1 high of None \<Rightarrow> None
            | Some (ok, count) \<Rightarrow>
              if \<not> ok then Some (False, data)
              else case count of None \<Rightarrow> None
              | Some timeout \<Rightarrow>
                 if 20 \<le> timeout \<and> timeout \<le> 35 then dht_bits rest (Suc bitNo) data
                 else if 65 \<le> timeout \<and> timeout \<le> 90
                 then dht_bits rest (Suc bitNo) (data[byteIndex := data ! byteIndex OR 1])
                 else Some (False, data))"

declare dht_bits.simps [simp del]

text \<open>
  The whole function after its start signal (20 ms low, 30 us high). \<open>gpio_wait_for_level\<close> ends without a
  return statement when the pin leaves the level; a caller that tests its result then has none, \<open>No_Value\<close>.
\<close>

datatype 'a polled = Polling | No_Value | Done 'a

definition DHT_Read_cpu :: "polls \<Rightarrow> polls \<Rightarrow> (polls \<times> polls) list \<Rightarrow> DHT_Config \<Rightarrow> (bool \<times> DHT_Config) polled" where
  "DHT_Read_cpu hand1 hand2 waits config =
     (let config = config\<lparr>rawData := replicate (length (rawData config)) 0\<rparr>
      in case gpio_wait_for_level GPIO_LOW 100 (fst hand1) (snd hand1) of None \<Rightarrow> Polling
      | Some No_Return_Value \<Rightarrow> No_Value
      | Some (Returned ok) \<Rightarrow>
        if \<not> ok then Done (False, config)
        else (case gpio_wait_for_level GPIO_HIGH 100 (fst hand2) (snd hand2) of None \<Rightarrow> Polling
        | Some No_Return_Value \<Rightarrow> No_Value
        | Some (Returned ok) \<Rightarrow>
          if \<not> ok then Done (False, config)
          else (case dht_bits waits 0 (rawData config) of None \<Rightarrow> Polling
          | Some (ok, data) \<Rightarrow> Done (ok, config\<lparr>rawData := data\<rparr>))))"

subsection \<open>src/sensors/dht11_22/dht11_22_pio.c and dht11_22_dma.c\<close>

datatype pio_cmd = PIO_Add_Program | PIO_Program_Init | DMA_Configure nat | DMA_Register u32 | DMA_Irq_Enabled |
  DMA_Write_Addr | PIO_Clear_Fifos | PIO_Enabled bool | PIO_Put u32

text \<open>\<open>offset\<close>: where \<open>pio_add_program\<close> placed the program; \<open>channel\<close>: the DMA channel claimed.\<close>

definition DHT_DMA_Init :: "u32 \<Rightarrow> DHT_Config \<Rightarrow> DHT_Config \<times> pio_cmd list" where
  "DHT_DMA_Init channel config =
     (config\<lparr>dmaChannel := channel\<rparr>, [DMA_Configure 5, DMA_Register channel, DMA_Irq_Enabled])"

definition DHT_Init :: "u32 \<Rightarrow> u32 \<Rightarrow> DHT_Config \<Rightarrow> DHT_Config \<times> pio_cmd list" where
  "DHT_Init offset channel config =
     (let config = config\<lparr>smOffset := offset\<rparr>;
          (config, cmds) = DHT_DMA_Init channel config
      in (config\<lparr>status := DHT_READ_SUCCESS\<rparr>, [PIO_Add_Program, PIO_Program_Init] @ cmds))"

definition DHT_Read :: "DHT_Config \<Rightarrow> (bool \<times> DHT_Config) \<times> pio_cmd list" where
  "DHT_Read config =
     (if length (rawData config) < 5 then ((False, config), [])
      else ((True, config\<lparr>rawData := replicate (length (rawData config)) 0, status := DHT_READ_IN_PROGRESS\<rparr>),
            [DMA_Write_Addr, PIO_Clear_Fifos, PIO_Enabled True, PIO_Put 20000, PIO_Put 30]))"

text \<open>\<open>fifo\<close>: the words \<open>pio_sm_get_blocking\<close> delivers, one a byte.\<close>

definition DHT_Init_pio :: "u32 \<Rightarrow> DHT_Config \<Rightarrow> DHT_Config \<times> pio_cmd list" where
  "DHT_Init_pio offset config = (config\<lparr>status := DHT_READ_SUCCESS\<rparr>, [PIO_Add_Program, PIO_Program_Init])"

definition DHT_Read_pio :: "u32 list \<Rightarrow> DHT_Config \<Rightarrow> (bool \<times> DHT_Config) \<times> pio_cmd list" where
  "DHT_Read_pio fifo config =
     (if length (rawData config) < 5 then ((False, config), [])
      else if status config = DHT_READ_IN_PROGRESS then ((False, config), [])
      else let data = fill 5 (map (\<lambda>v. ucast (v AND 0xFF)) (take 5 fifo)) (replicate (length (rawData config)) 0);
               config = config\<lparr>rawData := data\<rparr>
           in ((dht_checksum data = data ! 4, config),
               [PIO_Clear_Fifos, PIO_Enabled True, PIO_Put 20000, PIO_Put 30, PIO_Enabled False]))"

subsection \<open>src/sensors/dht11_22/dht11_22_rtos.c\<close>

type_synonym DHT_Task = "(DHT_Config, DHT_DataPacket, unit) task_state"

text \<open>
  One round of \<open>vDHT_Task\<close>. \<open>dma\<close>: the bytes the DMA stored before the completion interrupt gave the
  semaphore, \<open>None\<close> when \<open>xSemaphoreTake\<close> timed out after a second.
\<close>

definition DHT_round :: "libm \<Rightarrow> u8 list option \<Rightarrow> DHT_Task \<Rightarrow> DHT_Task" where
  "DHT_round lm dma t =
     (let config = snd (fst (DHT_Read (conf t)))
      in case dma of
           None \<Rightarrow> task_delay 2000 (t\<lparr>conf := config\<rparr>)
         | Some bytes \<Rightarrow>
             let config = config\<lparr>rawData := fill 5 bytes (rawData config)\<rparr>;
                 (c, d) = DHT_ProcessData lm (Some config) (Some (packet t))
             in task_delay 2000 (send (the d) (t\<lparr>conf := the c, packet := the d\<rparr>)))"

subsection \<open>src/sensors/dht20/dht20.c\<close>

record DHT20_Config =
  rawData20 :: "u8 list"
  address :: u8

definition DHT20_Init :: "'e i2c_env \<Rightarrow> DHT20_Config \<Rightarrow> 'e world \<Rightarrow> (int \<times> DHT20_Config) \<times> 'e world" where
  "DHT20_Init env config w =
     (let w = mutex_enter_blocking w;
          ((st, bs), w) = i2c_read env (address config) 1 False w;
          statusByte = hd (fill 1 bs [0])
      in if st = PICO_ERROR_GENERIC then ((st, config), mutex_exit w)
      else let w = mutex_exit w
      in if statusByte AND 0x08 \<noteq> 0 then ((c_true, config), w)
      else let w = mutex_enter_blocking w;
               (st, w) = i2c_write env (address config) [0xBE, 0x08, 0x00] False w
      in if st = PICO_ERROR_GENERIC then ((st, config), mutex_exit w)
      else ((c_true, config), mutex_exit w))"

definition DHT20_InitRead :: "'e i2c_env \<Rightarrow> DHT20_Config \<Rightarrow> 'e world \<Rightarrow> (int \<times> DHT20_Config) \<times> 'e world" where
  "DHT20_InitRead env config w =
     (let w = mutex_enter_blocking w;
          (st, w) = i2c_write env (address config) [0xAC, 0x33, 0x00] False w
      in if st = PICO_ERROR_GENERIC then ((st, config), mutex_exit w)
      else ((c_true, config), mutex_exit w))"

definition DHT20_Read :: "'e i2c_env \<Rightarrow> DHT20_Config \<Rightarrow> 'e world \<Rightarrow> (int \<times> DHT20_Config) \<times> 'e world" where
  "DHT20_Read env config w =
     (let w = mutex_enter_blocking w;
          n = length (rawData20 config);
          ((st, bs), w) = i2c_read env (address config) n False w;
          config = config\<lparr>rawData20 := fill n bs (rawData20 config)\<rparr>
      in if st = PICO_ERROR_GENERIC then ((st, config), mutex_exit w)
      else let w = mutex_exit w
      in if rawData20 config ! 0 AND 0x80 \<noteq> 0 then ((c_false, config), w)
      else if DHT20_CRC (rawData20 config) 6 \<noteq> rawData20 config ! 6 then ((c_false, config), w)
      else ((c_true, config), w))"

definition DHT20_rawHumidity :: "u8 list \<Rightarrow> int" where
  "DHT20_rawHumidity raw = uint (raw ! 1) * 2 ^ 12 + uint (raw ! 2) * 2 ^ 4 + uint (drop_bit 4 (raw ! 3))"

definition DHT20_rawTemp :: "u8 list \<Rightarrow> int" where
  "DHT20_rawTemp raw = uint (raw ! 3 AND 0x0F) * 2 ^ 16 + uint (raw ! 4) * 2 ^ 8 + uint (raw ! 5)"

definition DHT20_ProcessData :: "libm \<Rightarrow> DHT20_Config \<Rightarrow> DHT_DataPacket \<Rightarrow> DHT_DataPacket" where
  "DHT20_ProcessData lm config data =
     (let data = data\<lparr>
            humidity := (f32_of_int (DHT20_rawHumidity (rawData20 config)) / f32_lit 1048576) * f32_lit 100,
            temperature := (f32_of_int (DHT20_rawTemp (rawData20 config)) / f32_lit 1048576) * f32_lit 200 - f32_lit 50\<rparr>
      in DHT_DewPoint lm (DHT_AbsoluteHumidity lm data))"

type_synonym 'e DHT20_Task = "(DHT20_Config, DHT_DataPacket, 'e) task_state"

text \<open>One round of \<open>vDHT20_Task\<close>: the result of \<open>DHT20_Read\<close> is tested as a truth value.\<close>

definition DHT20_round :: "'e i2c_env \<Rightarrow> libm \<Rightarrow> 'e DHT20_Task \<Rightarrow> 'e DHT20_Task" where
  "DHT20_round env lm t =
     (let t = snd (on_conf (DHT20_InitRead env) t);
          t = task_delay 80 t;
          (st, t) = on_conf (DHT20_Read env) t
      in if st \<noteq> 0
         then let d = DHT20_ProcessData lm (conf t) (packet t)
              in task_delay 1000 (send d (t\<lparr>packet := d\<rparr>))
         else task_delay 1000 t)"

definition vDHT20_Task :: "'e i2c_env \<Rightarrow> libm \<Rightarrow> nat \<Rightarrow> 'e DHT20_Task \<Rightarrow> 'e DHT20_Task option" where
  "vDHT20_Task env lm n t =
     run_task (on_conf (DHT20_Init env)) 10000 10 (\<lambda>t. Some (DHT20_round env lm t)) n (task_delay 40 t)"

subsection \<open>The polled bit stream\<close>

lemma shift_in_bit: "push_bit (Suc 0) (drop_bit (Suc m) b) OR (if bit b m then 1 else 0) = drop_bit m (b :: u8)"
proof (rule bit_word_eqI)
  fix n assume n: "n < LENGTH(8)"
  show "bit (push_bit (Suc 0) (drop_bit (Suc m) b) OR (if bit b m then 1 else 0)) n = bit (drop_bit m b) n"
    using n by (cases n) (auto simp: bit_simps possible_bit_def bit_1_iff simp del: push_bit_Suc drop_bit_Suc)
qed

lemma drop_bit_u8_0: "8 \<le> n \<Longrightarrow> drop_bit n (b :: u8) = 0"
  by (rule bit_word_eqI) (auto simp: bit_drop_bit_eq dest: bit_imp_le_length)

text \<open>The buffer after \<open>i\<close> of the 40 bits of \<open>bytes\<close> have arrived.\<close>

definition partial :: "u8 list \<Rightarrow> nat \<Rightarrow> u8 list" where
  "partial bytes i = map (\<lambda>k. drop_bit (8 * Suc k - i) (bytes ! k)) [0..<5]"

lemma length_partial [simp]: "length (partial bytes i) = 5"
  by (simp add: partial_def)

lemma partial_0: "partial bytes 0 = replicate 5 0"
  by (rule nth_equalityI) (simp_all add: partial_def drop_bit_u8_0 nth_append del: upt_Suc)

lemma partial_40: "length bytes = 5 \<Longrightarrow> partial bytes 40 = bytes"
  by (rule nth_equalityI) (simp_all add: partial_def del: upt_Suc)

lemma partial_step:
  assumes "i < 40"
  shows "partial bytes (Suc i) = (partial bytes i)[i div 8 := push_bit (Suc 0) (partial bytes i ! (i div 8))
     OR (if bit (bytes ! (i div 8)) (7 - i mod 8) then 1 else 0)]"
proof (rule nth_equalityI)
  fix k assume "k < length (partial bytes (Suc i))"
  then have k: "k < 5" by simp
  have d: "i div 8 < 5" using assms by simp
  have m: "8 * Suc (i div 8) - i = Suc (7 - i mod 8)" "8 * Suc (i div 8) - Suc i = 7 - i mod 8"
    by (simp_all add: minus_mod_eq_mult_div [symmetric])
  show "partial bytes (Suc i) ! k = (partial bytes i)[i div 8 := push_bit (Suc 0) (partial bytes i ! (i div 8))
     OR (if bit (bytes ! (i div 8)) (7 - i mod 8) then 1 else 0)] ! k"
  proof (cases "k = i div 8")
    case True
    with d m shift_in_bit [of "7 - i mod 8" "bytes ! (i div 8)"] show ?thesis
      by (simp add: partial_def del: upt_Suc)
  next
    case False
    then consider "8 * Suc k \<le> i" | "i < 8 * k" by (metis mult_Suc_right div_less_iff_less_mult less_mult_imp_div_less mult.commute not_less_eq linorder_not_less nat_neq_iff dividend_less_times_div zero_less_numeral less_eq_div_iff_mult_less_eq)
    then show ?thesis using False k
      by cases (simp_all add: partial_def drop_bit_u8_0 del: upt_Suc)
  qed
qed simp

text \<open>A polling loop that finds the pin at the level until, \<open>d\<close> microseconds after the start, it finds that it has left it.\<close>

definition phase :: "u8 \<Rightarrow> u32 \<Rightarrow> polls \<Rightarrow> u32 \<Rightarrow> bool" where
  "phase level limit w d \<longleftrightarrow> (\<exists>pre p x rest. snd w = pre @ (p, x) # rest \<and> p \<noteq> level \<and> x - fst w = d
     \<and> (\<forall>(q, y) \<in> set pre. q = level \<and> y - fst w \<le> limit))"

lemma phase_count: "phase level limit (t, w) d \<Longrightarrow> gpio_wait_for_level_count level limit t w = Some (True, Some d)"
  by (auto simp: phase_def gpio_wait_leaves)

lemma wait_leaves:
  "(\<forall>(q, y) \<in> set pre. q = level \<and> y - s \<le> t) \<Longrightarrow> p \<noteq> level \<Longrightarrow>
   gpio_wait_for_level level t s (pre @ (p, x) # rest) = Some No_Return_Value"
  by (induction pre) auto

lemma phase_wait: "phase level limit w d \<Longrightarrow> gpio_wait_for_level level limit (fst w) (snd w) = Some No_Return_Value"
  by (auto simp: phase_def wait_leaves)

lemma wait_never_true: "gpio_wait_for_level level t s w \<noteq> Some (Returned True)"
  by (induction level t s w rule: gpio_wait_for_level.induct) auto

text \<open>The pulse of a bit: up to 70 us low, then high for about 27 us (0) or 70 us (1).\<close>

definition good_pulse :: "polls \<times> polls \<Rightarrow> bool \<Rightarrow> bool" where
  "good_pulse w b \<longleftrightarrow> (\<exists>d. phase GPIO_LOW 70 (fst w) d)
     \<and> (\<exists>d. phase GPIO_HIGH 90 (snd w) d \<and> (if b then 65 \<le> d \<and> d \<le> 90 else 20 \<le> d \<and> d \<le> 35))"

lemma dht_bits_step:
  assumes "i < 40" "i < length waits" "good_pulse (waits ! i) (bit (bytes ! (i div 8)) (7 - i mod 8))"
  shows "dht_bits (drop i waits) i (partial bytes i) = dht_bits (drop (Suc i) waits) (Suc i) (partial bytes (Suc i))"
proof -
  have d: "drop i waits = waits ! i # drop (Suc i) waits" by (rule Cons_nth_drop_Suc [symmetric, OF assms(2)])
  have k: "i div 8 < 5" using assms(1) by simp
  obtain t0 low t1 high where w: "waits ! i = ((t0, low), (t1, high))" by (metis surj_pair)
  obtain d0 d1 where p: "phase GPIO_LOW 70 (t0, low) d0" "phase GPIO_HIGH 90 (t1, high) d1"
    "if bit (bytes ! (i div 8)) (7 - i mod 8) then 65 \<le> d1 \<and> d1 \<le> 90 else 20 \<le> d1 \<and> d1 \<le> 35"
    using assms(3) w by (auto simp: good_pulse_def)
  have "65 \<le> d1 \<Longrightarrow> \<not> d1 \<le> 35" by (simp add: word_le_nat_alt)
  then show ?thesis
    using assms(1) k p(3) partial_step [OF assms(1), of bytes]
    by (subst dht_bits.simps) (auto simp: d w phase_count [OF p(1)] phase_count [OF p(2)] Let_def split: if_splits)
qed

lemma dht_bits_run:
  assumes "length waits = 40" and "\<forall>i < 40. good_pulse (waits ! i) (bit (bytes ! (i div 8)) (7 - i mod 8))"
  shows "i \<le> 40 \<Longrightarrow> dht_bits waits 0 (replicate 5 0) = dht_bits (drop i waits) i (partial bytes i)"
  by (induction i) (use assms in \<open>auto simp: partial_0 dht_bits_step\<close>)

subsection \<open>DHT20\<close>

lemma DHT20_Init_free: "lock_state w = Some False \<Longrightarrow> lock_state (snd (DHT20_Init env config w)) = Some False"
  by (simp add: DHT20_Init_def Let_def case_prod_unfold bus_simps)

lemma DHT20_InitRead_free: "lock_state w = Some False \<Longrightarrow> lock_state (snd (DHT20_InitRead env config w)) = Some False"
  by (simp add: DHT20_InitRead_def Let_def case_prod_unfold bus_simps)

lemma DHT20_Read_free: "lock_state w = Some False \<Longrightarrow> lock_state (snd (DHT20_Read env config w)) = Some False"
  by (simp add: DHT20_Read_def Let_def case_prod_unfold bus_simps)

lemma DHT20_InitRead_conf: "snd (fst (DHT20_InitRead env config w)) = config"
  by (simp add: DHT20_InitRead_def Let_def case_prod_unfold)

lemma DHT20_Read_result:
  "fst (fst (DHT20_Read env config w)) =
     (let r = bus_read env (address config) (length (rawData20 config)) False (dev w);
          buf = fill (length (rawData20 config)) (snd (fst r)) (rawData20 config)
      in if fst (fst r) = - 1 then - 1
         else if buf ! 0 AND 0x80 = 0 \<and> DHT20_CRC buf 6 = buf ! 6 then 1 else 0)"
  by (simp add: DHT20_Read_def Let_def case_prod_unfold bus_simps)

definition DHT20_before_read :: "'e i2c_env \<Rightarrow> 'e DHT20_Task \<Rightarrow> 'e DHT20_Task" where
  "DHT20_before_read env t = task_delay 80 (snd (on_conf (DHT20_InitRead env) t))"

lemma DHT20_round_sent:
  fixes env lm t
  defines "r \<equiv> DHT20_Read env (conf t) (wld (DHT20_before_read env t))"
  shows "sent (DHT20_round env lm t) =
     (if fst (fst r) \<noteq> 0 then sent t @ [DHT20_ProcessData lm (snd (fst r)) (packet t)] else sent t)"
  by (simp add: r_def DHT20_round_def DHT20_before_read_def Let_def case_prod_unfold task_simps DHT20_InitRead_conf)

lemma DHT20_round_wld:
  "wld (DHT20_round env lm t) = delay_ms 1000 (snd (DHT20_Read env (conf t) (wld (DHT20_before_read env t))))"
  by (simp add: DHT20_round_def DHT20_before_read_def Let_def case_prod_unfold task_simps DHT20_InitRead_conf)

interpretation dht20: sensor_task "on_conf (DHT20_Init env)" "\<lambda>t. Some (DHT20_round env lm t)"
proof unfold_locales
  fix t t' :: "'a DHT20_Task"
  show "task_free t \<Longrightarrow> task_free (snd (on_conf (DHT20_Init env) t))"
    by (simp add: task_free_def task_simps DHT20_Init_free)
  show "sent (snd (on_conf (DHT20_Init env) t)) = sent t"
    by (simp add: task_simps)
  assume "Some (DHT20_round env lm t) = Some t'"
  then have r: "t' = DHT20_round env lm t" by simp
  show "task_free t \<Longrightarrow> task_free t'"
    by (simp add: r task_free_def DHT20_round_wld DHT20_before_read_def task_simps bus_simps
        DHT20_Read_free DHT20_InitRead_free)
  show "\<exists>ps. sent t' = sent t @ ps \<and> length ps \<le> 1"
    by (simp add: r DHT20_round_sent)
qed

lemma DHT20_corrupt:
  assumes "length fr = 7" "DHT20_CRC fr 6 = fr ! 6" "k < 7" "b \<noteq> fr ! k"
  shows "DHT20_CRC (fr[k := b]) 6 \<noteq> fr[k := b] ! 6"
proof (cases "k = 6")
  case True
  with assms show ?thesis by (simp add: DHT20_CRC_def)
next
  case False
  then have k: "k < length (take 6 fr)" "take 6 (fr[k := b]) = (take 6 fr)[k := b]" "take 6 fr ! k = fr ! k"
    using assms by (simp_all add: take_update_swap)
  from msb.crc_one_byte [OF k(1), where b = b and i = "0xFF"] assms False k(2,3)
  show ?thesis by (simp add: DHT20_CRC_fold)
qed

lemma DHT20_raw_range:
  "0 \<le> DHT20_rawHumidity raw \<and> DHT20_rawHumidity raw < 2 ^ 20"
  "0 \<le> DHT20_rawTemp raw \<and> DHT20_rawTemp raw < 2 ^ 20"
proof -
  have u: "0 \<le> uint b \<and> uint b \<le> 255" for b :: u8 using uint_bounded [of b] by simp
  have n: "uint (b AND 0x0F) \<le> 15" "uint (drop_bit 4 b) \<le> 15" for b :: u8
    using unat_nibbles [of b] unat_u8 [of b] by (simp_all add: uint_nat)
  show "0 \<le> DHT20_rawHumidity raw \<and> DHT20_rawHumidity raw < 2 ^ 20"
    using u [of "raw ! 1"] u [of "raw ! 2"] n(2) [of "raw ! 3"] unfolding DHT20_rawHumidity_def by simp
  show "0 \<le> DHT20_rawTemp raw \<and> DHT20_rawTemp raw < 2 ^ 20"
    using u [of "raw ! 4"] u [of "raw ! 5"] n(1) [of "raw ! 3"] unfolding DHT20_rawTemp_def by simp
qed

lemma lit_exact: "f32_of (numeral k) = Num (numeral k)" if "numeral k < (2 ^ 24 :: int)"
  using f32_of_int_exact [of "numeral k"] that by (simp add: f32_of_int_def)

text \<open>A 20-bit raw value over \<open>2^20\<close> is exact in binary32.\<close>

lemma frac_exact:
  assumes "0 \<le> n" "n < 2 ^ 20"
  shows "f32_of_int n / f32_lit 1048576 = Num (of_int n / 1048576)"
proof (cases "n = 0")
  case True
  then show ?thesis by (simp add: f32_of_int_def lit_exact signed_zero_def)
next
  case False
  have "f32_of (of_int n * pow2 (- 20)) = Num (of_int n * pow2 (- 20))"
    by (rule f32_of_exact) (use assms in simp_all)
  then have "f32_of (of_int n / 1048576) = Num (of_int n / 1048576)" by (simp add: pow2_def field_simps)
  with False assms show ?thesis by (simp add: f32_of_int_exact lit_exact)
qed

lemma f32_of_nonneg:
  assumes "0 \<le> r" "r < 2 ^ 23" "r \<le> of_int hi"
  shows "\<exists>v. f32_of r = Num v \<and> 0 \<le> v \<and> v \<le> of_int hi"
proof -
  have b: "is_finite (f32_of r) \<and> of_int 0 \<le> val (f32_of r) \<and> val (f32_of r) \<le> of_int hi"
    by (rule f32_of_between) (use assms in simp_all)
  have "f32_of r \<noteq> NegZero" using assms(1) by (simp add: f32_of_def Let_def)
  with b show ?thesis by (cases "f32_of r") auto
qed

lemma scaled_frac:
  assumes n: "0 \<le> n" "n < 2 ^ 20" and k: "0 < k" "k < (1000 :: int)"
  shows "\<exists>r. (f32_of_int n / f32_lit 1048576) * f32_lit (of_int k) = Num r \<and> 0 \<le> r \<and> r \<le> of_int k"
proof -
  let ?q = "of_int n / 1048576 :: rat"
  have lk: "f32_lit (of_int k) = Num (of_int k)"
    using f32_of_int_exact [of k] k by (simp add: f32_of_int_def)
  have q: "0 \<le> ?q" "?q \<le> 1"
    using n of_int_less_iff [where ?'a = rat, of n "1048576"] by simp_all
  then have "?q * of_int k \<le> of_int k" "0 \<le> ?q * of_int k"
    using k by (simp_all add: mult_left_le_one_le)
  moreover have "of_int k < (2 ^ 23 :: rat)"
    using k of_int_less_iff [where ?'a = rat, of k "1000"] by simp
  ultimately obtain v where v: "f32_of (?q * of_int k) = Num v" "0 \<le> v" "v \<le> of_int k"
    using f32_of_nonneg [of "?q * of_int k" k] by auto
  show ?thesis
  proof (cases "n = 0")
    case True
    then show ?thesis using k by (simp add: frac_exact lk signed_zero_def)
  next
    case False
    then show ?thesis using v k n by (simp add: frac_exact lk)
  qed
qed

lemma DHT20_values:
  "\<exists>h. humidity (DHT20_ProcessData lm config data) = Num h \<and> 0 \<le> h \<and> h \<le> 100"
  "is_finite (temperature (DHT20_ProcessData lm config data))
   \<and> - 50 \<le> val (temperature (DHT20_ProcessData lm config data))
   \<and> val (temperature (DHT20_ProcessData lm config data)) \<le> 150"
proof -
  show "\<exists>h. humidity (DHT20_ProcessData lm config data) = Num h \<and> 0 \<le> h \<and> h \<le> 100"
    using scaled_frac [of "DHT20_rawHumidity (rawData20 config)" 100] DHT20_raw_range(1) [of "rawData20 config"]
    by (simp add: DHT20_ProcessData_def DHT_DewPoint_def DHT_AbsoluteHumidity_def Let_def)
  obtain r where r: "(f32_of_int (DHT20_rawTemp (rawData20 config)) / f32_lit 1048576) * f32_lit 200 = Num r" "0 \<le> r" "r \<le> 200"
    using scaled_frac [of "DHT20_rawTemp (rawData20 config)" 200] DHT20_raw_range(2) [of "rawData20 config"] by auto
  have t: "temperature (DHT20_ProcessData lm config data) = f32_of (r - 50)"
  proof -
    have "temperature (DHT20_ProcessData lm config data) =
      (f32_of_int (DHT20_rawTemp (rawData20 config)) / f32_lit 1048576) * f32_lit 200 - f32_lit 50"
      by (simp add: DHT20_ProcessData_def DHT_DewPoint_def DHT_AbsoluteHumidity_def Let_def)
    also have "\<dots> = f32_of (r - 50)" unfolding r(1) by (simp add: lit_exact minus_f32_def)
    finally show ?thesis .
  qed
  show "is_finite (temperature (DHT20_ProcessData lm config data))
   \<and> - 50 \<le> val (temperature (DHT20_ProcessData lm config data))
   \<and> val (temperature (DHT20_ProcessData lm config data)) \<le> 150"
    using f32_of_between [of "r - 50" "- 50" 150] r unfolding t by simp
qed

subsection \<open>DHT11 and DHT22\<close>

lemma DHT22_ignores_checksum:
  assumes "type c = DHT_22" "length (rawData c) = 5"
  shows "DHT_ProcessData lm (Some (c\<lparr>rawData := (rawData c)[4 := b]\<rparr>)) (Some d) =
         (Some (c\<lparr>rawData := (rawData c)[4 := b]\<rparr>), snd (DHT_ProcessData lm (Some c) (Some d)))"
  using assms by (simp add: DHT_ProcessData_def Let_def DHT_codes)

lemma DHT11_bad_checksum:
  assumes "type c = DHT_11" "dht_checksum (rawData c) \<noteq> rawData c ! 4"
  shows "DHT_ProcessData lm (Some c) (Some d) = (Some (c\<lparr>status := DHT_READ_BAD_CHECKSUM\<rparr>), Some d)"
  using assms by (simp add: DHT_ProcessData_def Let_def)

lemma DHT22_rounded:
  assumes "type c = DHT_22" "DHT_ProcessData lm (Some c) (Some d) = (c', Some d')"
  shows "humidity d' = f32_of (of_int (uint (word16 (rawData c ! 0) (rawData c ! 1))) / 10)"
proof -
  let ?h = "uint (word16 (rawData c ! 0) (rawData c ! 1))"
  have "?h < 65536" using uint_bounded [of "word16 (rawData c ! 0) (rawData c ! 1)"] by simp
  then have e: "f32_of_int ?h = Num (of_int ?h)" by (intro f32_of_int_exact) simp
  have "humidity d' = f32_of_int ?h / f32_lit 10"
    using assms by (auto simp: DHT_ProcessData_def DHT_DewPoint_def DHT_AbsoluteHumidity_def Let_def DHT_codes)
  also have "\<dots> = f32_of (of_int ?h / 10)"
    unfolding e by (cases "?h = 0") (simp_all add: lit_exact signed_zero_def del: of_int_uint)
  finally show ?thesis .
qed

subsection \<open>Properties\<close>

definition dht_demo :: DHT_Config where
  "dht_demo = \<lparr>gpio = 17, rawData = [0, 0, 0, 0, 0], status = 0, type = DHT_11, sm = 0, smOffset = 0, dmaChannel = 0\<rparr>"

definition dht_task_demo :: DHT_Task where
  "dht_task_demo = \<lparr>conf = dht_demo, packet = DHT_zero, sent = [], wld = quiet_world\<rparr>"

definition dht20_demo :: "unit DHT20_Task" where
  "dht20_demo = \<lparr>conf = \<lparr>rawData20 = replicate 7 0, address = 0x38\<rparr>, packet = DHT_zero, sent = [], wld = quiet_world\<rparr>"

text \<open>A signal: 50 us low, then 25 us high for a 0 and 70 us high for a 1, most significant bit first.\<close>

definition dht_signal :: "u8 list \<Rightarrow> (polls \<times> polls) list" where
  "dht_signal bytes = map (\<lambda>i. let high = (if bit (bytes ! (i div 8)) (7 - i mod 8) then 70 else 25)
     in ((0, [(0, 20), (1, 50)]), (50, [(1, 60), (0, 50 + high)]))) [0..<40]"

lemma dht_signal_good: "i < 40 \<Longrightarrow> good_pulse (dht_signal bytes ! i) (bit (bytes ! (i div 8)) (7 - i mod 8))"
proof -
  have low: "phase GPIO_LOW 70 (0, [(0, 20), (1, 50)]) 50"
    unfolding phase_def by (intro exI [of _ "[(0, 20)]"] exI [of _ 1] exI [of _ 50] exI [of _ "[]"]) (simp add: GPIO_LOW_def word_le_nat_alt)
  have high: "phase GPIO_HIGH 90 (50, [(1, 60), (0, 50 + h)]) h" for h
    unfolding phase_def by (intro exI [of _ "[(1, 60)]"] exI [of _ 0] exI [of _ "50 + h"] exI [of _ "[]"]) (simp add: GPIO_HIGH_def word_le_nat_alt)
  assume "i < 40"
  define h :: u32 where "h = (if bit (bytes ! (i div 8)) (7 - i mod 8) then 70 else 25)"
  have "dht_signal bytes ! i = ((0, [(0, 20), (1, 50)]), (50, [(1, 60), (0, 50 + h)]))"
    using \<open>i < 40\<close> by (simp add: dht_signal_def h_def Let_def)
  moreover have "if bit (bytes ! (i div 8)) (7 - i mod 8) then 65 \<le> h \<and> h \<le> 90 else 20 \<le> h \<and> h \<le> 35"
    by (simp add: h_def word_le_nat_alt)
  ultimately show ?thesis unfolding good_pulse_def using low high [of h] by (metis fst_conv snd_conv)
qed

text \<open>C17. The polled protocol of \<open>DHT_Read\<close> on the line of the sensor. The bit loop is right: from 40 pulses whose phases lie in
  the windows of the bits of five bytes, most significant bit first, it rebuilds exactly those bytes and tells
  whether the fifth is the sum of the others. The function around it is not: it never has the result \<open>true\<close>, and
  whenever the sensor answers the start signal, the helper that waited for the answer ends without a value,
  which \<open>DHT_Read\<close> tests.\<close>

theorem DHT_polled_bits:
  assumes "length bytes = 5" and "length waits = 40"
    and "\<forall>i < 40. good_pulse (waits ! i) (bit (bytes ! (i div 8)) (7 - i mod 8))"
  shows "dht_bits waits 0 (replicate 5 0) = Some (dht_checksum bytes = bytes ! 4, bytes)
    \<and> DHT_Read_cpu hand1 hand2 waits config \<noteq> Done (True, config')
    \<and> (phase GPIO_LOW 100 hand1 d \<longrightarrow> DHT_Read_cpu hand1 hand2 waits config = No_Value)"
proof (intro conjI impI)
  show "dht_bits waits 0 (replicate 5 0) = Some (dht_checksum bytes = bytes ! 4, bytes)"
    using dht_bits_run [OF assms(2,3), of 40] assms(1,2) by (simp add: partial_40 dht_bits.simps [of "[]"])
  show "DHT_Read_cpu hand1 hand2 waits config \<noteq> Done (True, config')"
    using wait_never_true [of GPIO_LOW 100 "fst hand1" "snd hand1"]
    by (auto simp: DHT_Read_cpu_def Let_def split: option.splits wait_result.splits if_splits)
  show "DHT_Read_cpu hand1 hand2 waits config = No_Value" if "phase GPIO_LOW 100 hand1 d"
    using phase_wait [OF that] by (simp add: DHT_Read_cpu_def Let_def)
qed

theorem DHT_polled_bits_witness:
  "dht_bits (dht_signal [40, 0, 23, 5, 68]) 0 (replicate 5 0) = Some (True, [40, 0, 23, 5, 68])
   \<and> DHT_Read_cpu (0, [(0, 40), (1, 80)]) (80, []) (dht_signal [40, 0, 23, 5, 68]) dht_demo = No_Value"
proof -
  have p: "phase GPIO_LOW 100 (0, [(0, 40), (1, 80)]) 80"
    unfolding phase_def by (intro exI [of _ "[(0, 40)]"] exI [of _ 1] exI [of _ 80] exI [of _ "[]"]) (simp add: GPIO_LOW_def word_le_nat_alt)
  have l: "length (dht_signal bytes) = 40" for bytes by (simp add: dht_signal_def)
  show ?thesis
    using DHT_polled_bits [of "[40, 0, 23, 5, 68]" "dht_signal [40, 0, 23, 5, 68]" "(0, [(0, 40), (1, 80)])" "(80, [])" dht_demo _ 80] p l
      dht_signal_good [of _ "[40, 0, 23, 5, 68]"]
    by (simp add: dht_checksum_def)
qed

text \<open>A DHT11 reading whose checksum is wrong does not stop the packet: the task marks the configuration
  \<open>DHT_READ_BAD_CHECKSUM\<close> and sends the values of the previous reading again.\<close>

theorem DHT11_bad_checksum_resends:
  assumes "type (conf t) = DHT_11" and "length (rawData (conf t)) = 5" and "length bytes = 5"
    and "dht_checksum bytes \<noteq> bytes ! 4"
  shows "sent (DHT_round lm (Some bytes) t) = sent t @ [packet t]
     \<and> packet (DHT_round lm (Some bytes) t) = packet t
     \<and> status (conf (DHT_round lm (Some bytes) t)) = DHT_READ_BAD_CHECKSUM"
  using assms
  by (simp add: DHT_round_def DHT_Read_def Let_def fill_all DHT11_bad_checksum task_simps)

theorem DHT11_bad_checksum_resends_witness:
  "sent (DHT_round id_libm (Some [40, 0, 23, 5, 67]) dht_task_demo) = [DHT_zero]"
  using DHT11_bad_checksum_resends [of dht_task_demo "[40, 0, 23, 5, 67]" id_libm]
  by (simp add: dht_task_demo_def dht_demo_def dht_checksum_def)

text \<open>For the DHT22 the fifth byte is never looked at: replacing it by any value changes nothing in the
  packet, whose humidity is the 16-bit reading divided by ten, correctly rounded.\<close>

theorem DHT22_checksum_unused:
  assumes "type c = DHT_22" and "length (rawData c) = 5"
  shows "\<exists>d'. snd (DHT_ProcessData lm (Some c) (Some d)) = Some d'
     \<and> snd (DHT_ProcessData lm (Some (c\<lparr>rawData := (rawData c)[4 := b]\<rparr>)) (Some d)) = Some d'
     \<and> humidity d' = f32_of (of_int (uint (word16 (rawData c ! 0) (rawData c ! 1))) / 10)"
proof -
  obtain c' d' where p: "DHT_ProcessData lm (Some c) (Some d) = (c', Some d')"
    using assms(1) by (simp add: DHT_ProcessData_def Let_def DHT_codes)
  with DHT22_ignores_checksum [OF assms, of lm b d] DHT22_rounded [OF assms(1) p] show ?thesis by simp
qed

theorem DHT22_checksum_unused_witness:
  "\<exists>d'. snd (DHT_ProcessData id_libm (Some (dht_demo\<lparr>type := DHT_22, rawData := [2, 140, 1, 95, 0]\<rparr>)) (Some DHT_zero)) = Some d'
     \<and> humidity d' = f32_of (652 / 10)"
proof -
  have "uint (word16 2 140) = 652" by (simp add: uint_word16)
  then show ?thesis
    using DHT22_checksum_unused [of "dht_demo\<lparr>type := DHT_22, rawData := [2, 140, 1, 95, 0]\<rparr>" id_libm DHT_zero 0]
    by (auto simp: dht_demo_def)
qed

text \<open>C13. A frame the DHT20 driver accepts is rejected when any one of its seven bytes is changed to any other value:
  the read returns \<open>false\<close> and no packet is built from it.\<close>

theorem DHT20_detects_one_byte:
  assumes "length fr = 7" and "length (rawData20 config) = 7"
    and "fst (fst (DHT20_Read (answer_env fr) config w)) = c_true" and "k < 7" and "b \<noteq> fr ! k"
  shows "fst (fst (DHT20_Read (answer_env (fr[k := b])) config w)) = c_false"
proof -
  have "DHT20_CRC fr 6 = fr ! 6"
    using assms(1-3) by (simp add: DHT20_Read_result bus_simps fill_all Let_def split: if_splits)
  from DHT20_corrupt [OF assms(1) this assms(4,5)] show ?thesis
    using assms(1,2) by (simp add: DHT20_Read_result bus_simps fill_all Let_def)
qed

theorem DHT20_detects_one_byte_witness:
  "fst (fst (DHT20_Read (answer_env ([0x1C, 0x7B, 0x1F, 0x85, 0xA2, 0x41, 0x41][2 := 0x1E])) (conf dht20_demo) quiet_world)) = 0"
proof -
  have "DHT20_CRC [0x1C, 0x7B, 0x1F, 0x85, 0xA2, 0x41, 0x41] 6 = 0x41" by code_simp
  then have "fst (fst (DHT20_Read (answer_env [0x1C, 0x7B, 0x1F, 0x85, 0xA2, 0x41, 0x41]) (conf dht20_demo) quiet_world)) = 1"
    by (simp add: DHT20_Read_result bus_simps fill_all Let_def dht20_demo_def)
  then show ?thesis
    using DHT20_detects_one_byte [of "[0x1C, 0x7B, 0x1F, 0x85, 0xA2, 0x41, 0x41]" "conf dht20_demo" quiet_world 2 "0x1E"]
    by (simp add: dht20_demo_def)
qed

text \<open>The task tests the result of \<open>DHT20_Read\<close> as a truth value, and a failed transfer returns \<open>-1\<close>: when the
  sensor does not answer, the packet built from the bytes of the last transfer is sent as if it were new.\<close>

theorem DHT20_sends_stale_data:
  assumes "bus_read env (address (conf t)) (length (rawData20 (conf t))) False (dev (wld (DHT20_before_read env t))) = ((- 1, []), d)"
  shows "sent (DHT20_round env lm t) = sent t @ [DHT20_ProcessData lm (conf t) (packet t)]"
proof -
  have "fst (fst (DHT20_Read env (conf t) (wld (DHT20_before_read env t)))) = - 1"
    using assms by (simp add: DHT20_Read_result Let_def)
  moreover have "snd (fst (DHT20_Read env (conf t) (wld (DHT20_before_read env t)))) = conf t"
    using assms by (simp add: DHT20_Read_def Let_def case_prod_unfold bus_simps fill_def)
  ultimately show ?thesis by (simp add: DHT20_round_sent)
qed

theorem DHT20_sends_stale_data_witness:
  "sent (DHT20_round silent_env id_libm dht20_demo) = [DHT20_ProcessData id_libm (conf dht20_demo) DHT_zero]"
  using DHT20_sends_stale_data [of silent_env dht20_demo "()" id_libm] by (simp add: bus_simps dht20_demo_def)

text \<open>Whatever bytes the DHT20 delivers, the processed humidity is between 0 and 100 percent and the
  temperature between -50 and 150 degrees, with every rounding of the single-precision arithmetic counted.\<close>

theorem DHT20_physical_range:
  "\<exists>h. humidity (DHT20_ProcessData lm config data) = Num h \<and> 0 \<le> h \<and> h \<le> 100
     \<and> is_finite (temperature (DHT20_ProcessData lm config data))
     \<and> - 50 \<le> val (temperature (DHT20_ProcessData lm config data))
     \<and> val (temperature (DHT20_ProcessData lm config data)) \<le> 150"
  using DHT20_values [of lm config data] by auto

end
