(* ===== verification/OneWire.thy ===== *)
theory OneWire
  imports Prelude
begin

text \<open>
  The 1-Wire interface on a PIO state machine: include/comm/onewire/onewire.h and
  src/comm/onewire/onewire.c (the DMA variant is the theory \<open>OneWireDma\<close>). What the line
  answers to a reset and to a word shifted out is a parameter; a word is \<open>bitMode\<close> bits long and the
  bits read back while it is sent are its answer.
\<close>

definition ONEW_READ_ROM :: u8 where "ONEW_READ_ROM = 0x33"
definition ONEW_MATCH_ROM :: u8 where "ONEW_MATCH_ROM = 0x55"
definition ONEW_SKIP_ROM :: u8 where "ONEW_SKIP_ROM = 0xCC"
definition ONEW_ALARM_SEARCH :: u8 where "ONEW_ALARM_SEARCH = 0xEC"
definition ONEW_SEARCH_ROM :: u8 where "ONEW_SEARCH_ROM = 0xF0"

definition ONEW_INIT :: u8 where "ONEW_INIT = 0"
definition ONEW_INIT_SUCCESS :: u8 where "ONEW_INIT_SUCCESS = 1"
definition ONEW_READ_SUCCESS :: u8 where "ONEW_READ_SUCCESS = 2"
definition ONEW_READ_IN_PROGRESS :: u8 where "ONEW_READ_IN_PROGRESS = 3"
definition ONEW_WRITE_SUCCESS :: u8 where "ONEW_WRITE_SUCCESS = 4"
definition ONEW_WRITE_IN_PROGRESS :: u8 where "ONEW_WRITE_IN_PROGRESS = 5"
definition ONEW_DMA_IN_PROGRESS :: u8 where "ONEW_DMA_IN_PROGRESS = 6"
definition ONEW_DMA_SUCCESS :: u8 where "ONEW_DMA_SUCCESS = 7"

lemmas ONEW_codes = ONEW_INIT_def ONEW_INIT_SUCCESS_def ONEW_READ_SUCCESS_def ONEW_READ_IN_PROGRESS_def
  ONEW_WRITE_SUCCESS_def ONEW_WRITE_IN_PROGRESS_def ONEW_DMA_IN_PROGRESS_def ONEW_DMA_SUCCESS_def

record OneWire_Config =
  gpio :: u8
  status :: u8
  sm :: u8
  bitMode :: u8

record 'e ow_env =
  line_reset :: "'e \<Rightarrow> u32 \<times> 'e"
  line_word :: "u8 \<Rightarrow> u32 \<Rightarrow> 'e \<Rightarrow> u32 \<times> 'e"

datatype ow_event = Program u8 | Reset | Word u8 u32

text \<open>The configuration, the devices on the line, and what was done on the line so far.\<close>

record 'e ow =
  cfg :: OneWire_Config
  line :: 'e
  trace :: "ow_event list"

definition busy :: "'e ow \<Rightarrow> bool" where
  "busy s \<longleftrightarrow> status (cfg s) = ONEW_READ_IN_PROGRESS \<or> status (cfg s) = ONEW_WRITE_IN_PROGRESS"

definition set_status :: "u8 \<Rightarrow> 'e ow \<Rightarrow> 'e ow" where
  "set_status st s = s\<lparr>cfg := (cfg s)\<lparr>status := st\<rparr>\<rparr>"

text \<open>\<open>pio_sm_put_blocking\<close> of a word and \<open>pio_sm_get_blocking\<close> of its answer.\<close>

definition word_io :: "'e ow_env \<Rightarrow> u32 \<Rightarrow> 'e ow \<Rightarrow> u32 \<times> 'e ow" where
  "word_io env x s =
     (let (r, l) = line_word env (bitMode (cfg s)) x (line s)
      in (r, s\<lparr>line := l, trace := trace s @ [Word (bitMode (cfg s)) x]\<rparr>))"

subsection \<open>onewire.c\<close>

text \<open>
  \<open>sgOW_SM == -1\<close> compares a \<open>u8\<close> with \<open>-1\<close> and never holds, so the early return is unreachable for
  every state machine number \<open>claimed\<close> the SDK can return.
\<close>

definition OneWire_Init :: "u8 \<Rightarrow> 'e ow \<Rightarrow> 'e ow" where
  "OneWire_Init claimed s =
     (if int (unat claimed) = - 1 then s
      else set_status ONEW_INIT_SUCCESS (s\<lparr>trace := trace s @ [Program (bitMode (cfg s))]\<rparr>))"

definition OneWire_Reset :: "'e ow_env \<Rightarrow> 'e ow \<Rightarrow> bool \<times> 'e ow" where
  "OneWire_Reset env s =
     (let (r, l) = line_reset env (line s)
      in (r AND 1 = 0, s\<lparr>line := l, trace := trace s @ [Reset]\<rparr>))"

definition OneWire_WriteByte :: "'e ow_env \<Rightarrow> u32 \<Rightarrow> 'e ow \<Rightarrow> bool \<times> 'e ow" where
  "OneWire_WriteByte env data s =
     (if busy s then (False, s)
      else let s = set_status ONEW_WRITE_IN_PROGRESS s;
               (r, s) = word_io env data s
           in (True, set_status ONEW_WRITE_SUCCESS s))"

fun write_bytes :: "'e ow_env \<Rightarrow> u8 list \<Rightarrow> 'e ow \<Rightarrow> bool \<times> 'e ow" where
  "write_bytes env [] s = (True, set_status ONEW_WRITE_SUCCESS s)"
| "write_bytes env (b # bs) s =
     (let (ok, s) = OneWire_WriteByte env (ucast b) s
      in if \<not> ok then (False, s) else write_bytes env bs s)"

definition OneWire_Write :: "'e ow_env \<Rightarrow> u8 list \<Rightarrow> 'e ow \<Rightarrow> bool \<times> 'e ow" where
  "OneWire_Write env buffer s =
     (if busy s then (False, s)
      else write_bytes env buffer (set_status ONEW_WRITE_IN_PROGRESS s))"

text \<open>\<open>return false\<close> from a function that returns \<open>u8\<close> is the value 0.\<close>

definition OneWire_Read :: "'e ow_env \<Rightarrow> 'e ow \<Rightarrow> u8 \<times> 'e ow" where
  "OneWire_Read env s =
     (if busy s then (0, s)
      else let s = set_status ONEW_READ_IN_PROGRESS s;
               (r, s) = word_io env 0xFF s
           in (ucast (drop_bit 24 r), set_status ONEW_READ_SUCCESS s))"

subsection \<open>Searching for devices\<close>

definition set_bit64 :: "nat \<Rightarrow> u64 \<Rightarrow> u64" where
  "set_bit64 i a = a OR push_bit i 1"

definition clear_bit64 :: "nat \<Rightarrow> u64 \<Rightarrow> u64" where
  "clear_bit64 i a = a AND NOT (push_bit i 1)"

text \<open>What the loop over the 64 address bits carries.\<close>

record search =
  address :: u64
  finished :: bool
  nextBranchPoint :: u32
  foundDevices :: u8

text \<open>The body of the inner loop; the flag is \<open>False\<close> when it breaks.\<close>

definition search_bit ::
  "'e ow_env \<Rightarrow> u32 \<Rightarrow> nat \<Rightarrow> search \<Rightarrow> 'e ow \<Rightarrow> bool \<times> search \<times> 'e ow" where
  "search_bit env branchPoint index r s =
     (let (a, s) = OneWire_Read env s;
          (b, s) = OneWire_Read env s;
          i = word_of_nat index :: u32
      in if a = 0 \<and> b = 0 then
           (if i = branchPoint then
              (True, r\<lparr>address := set_bit64 index (address r)\<rparr>, snd (OneWire_WriteByte env 1 s))
            else if branchPoint < i \<or> address r AND push_bit index 1 = 0 then
              (True, r\<lparr>finished := False, address := clear_bit64 index (address r), nextBranchPoint := i\<rparr>,
               snd (OneWire_WriteByte env 0 s))
            else (True, r, snd (OneWire_WriteByte env 1 s)))
         else if a \<noteq> 0 \<and> b \<noteq> 0 then (False, r\<lparr>foundDevices := - 2, finished := True\<rparr>, s)
         else if a = 0 then
           (True, r\<lparr>address := clear_bit64 index (address r)\<rparr>, snd (OneWire_WriteByte env 0 s))
         else (True, r\<lparr>address := set_bit64 index (address r)\<rparr>, snd (OneWire_WriteByte env 1 s)))"

text \<open>From \<open>index\<close> on, \<open>n\<close> bits.\<close>

fun search_bits :: "'e ow_env \<Rightarrow> u32 \<Rightarrow> nat \<Rightarrow> nat \<Rightarrow> search \<Rightarrow> 'e ow \<Rightarrow> search \<times> 'e ow" where
  "search_bits env bp 0 index r s = (r, s)"
| "search_bits env bp (Suc n) index r s =
     (let (go, r, s) = search_bit env bp index r s
      in if go then search_bits env bp n (Suc index) r s else (r, s))"

text \<open>
  One round of the outer loop. \<open>Inl\<close>: the reset found no device and the loop breaks. \<open>Inr\<close>: the
  round ends with the store \<open>devices[foundDevices] = address\<close> (index and value), then increments.
\<close>

definition search_round ::
  "'e ow_env \<Rightarrow> u8 \<Rightarrow> search \<Rightarrow> 'e ow \<Rightarrow> (search + (u8 \<times> u64) \<times> search) \<times> 'e ow" where
  "search_round env command r s =
     (let branchPoint = nextBranchPoint r;
          r = r\<lparr>finished := True\<rparr>;
          (present, s) = OneWire_Reset env s
      in if \<not> present then (Inl (r\<lparr>foundDevices := 0\<rparr>), s)
         else let s = fold (\<lambda>i s. snd (OneWire_WriteByte env (ucast (drop_bit i command)) s)) [0..<8] s;
                  (r, s) = search_bits env branchPoint 64 0 r s
              in (Inr ((foundDevices r, address r), r\<lparr>foundDevices := foundDevices r + 1\<rparr>), s))"

text \<open>
  The outer loop, at most \<open>fuel\<close> rounds; \<open>None\<close> when it has not ended by then. The result is the list
  of stores into \<open>devices\<close>, in order.
\<close>

fun search_loop ::
  "'e ow_env \<Rightarrow> u8 \<Rightarrow> u8 \<Rightarrow> nat \<Rightarrow> search \<Rightarrow> 'e ow \<Rightarrow> ((u8 \<times> u64) list \<times> search \<times> 'e ow) option" where
  "search_loop env maxDevices command fuel r s =
     (if \<not> finished r \<and> (0 < maxDevices \<or> foundDevices r < maxDevices)
      then (case fuel of 0 \<Rightarrow> None
            | Suc k \<Rightarrow> (case search_round env command r s of
                (Inl r, s) \<Rightarrow> Some ([], r, s)
              | (Inr (store, r), s) \<Rightarrow>
                  map_option (\<lambda>(stores, rest). (store # stores, rest)) (search_loop env maxDevices command k r s)))
      else Some ([], r, s))"

declare search_loop.simps [simp del]

definition OneWire_SearchROM ::
  "'e ow_env \<Rightarrow> u8 \<Rightarrow> u8 \<Rightarrow> u8 \<Rightarrow> nat \<Rightarrow> 'e ow \<Rightarrow> ((u8 \<times> u64) list \<times> 'e ow) option" where
  "OneWire_SearchROM env claimed maxDevices command fuel s =
     (let mode = bitMode (cfg s);
          s = OneWire_Init claimed (s\<lparr>cfg := (cfg s)\<lparr>bitMode := 1\<rparr>\<rparr>);
          r = \<lparr>address = 0, finished = False, nextBranchPoint = - 1, foundDevices = 0\<rparr>
      in map_option (\<lambda>(stores, r, s). (stores, OneWire_Init claimed (s\<lparr>cfg := (cfg s)\<lparr>bitMode := mode\<rparr>\<rparr>)))
           (search_loop env maxDevices command fuel r s))"

subsection \<open>Facts\<close>

lemma busy_set_status [simp]: "busy (set_status st s) \<longleftrightarrow> st = ONEW_READ_IN_PROGRESS \<or> st = ONEW_WRITE_IN_PROGRESS"
  by (simp add: busy_def set_status_def)

lemma trace_set_status [simp]: "trace (set_status st s) = trace s"
  by (simp add: set_status_def)

lemma busy_word_io [simp]: "busy (snd (word_io env x s)) \<longleftrightarrow> busy s"
  by (simp add: word_io_def busy_def split: prod.splits)

lemma WriteByte_idle: "\<not> busy s \<Longrightarrow> fst (OneWire_WriteByte env x s) \<and> \<not> busy (snd (OneWire_WriteByte env x s))"
  by (simp add: OneWire_WriteByte_def Let_def case_prod_unfold ONEW_codes)

lemma Read_idle: "\<not> busy s \<Longrightarrow> \<not> busy (snd (OneWire_Read env s))"
  by (simp add: OneWire_Read_def Let_def case_prod_unfold ONEW_codes)

lemma Reset_idle: "busy (snd (OneWire_Reset env s)) \<longleftrightarrow> busy s"
  by (simp add: OneWire_Reset_def busy_def split: prod.splits)

lemma Write_refused:
  assumes "\<not> busy s" "buffer \<noteq> []"
  shows "OneWire_Write env buffer s = (False, set_status ONEW_WRITE_IN_PROGRESS s)"
  using assms by (cases buffer) (simp_all add: OneWire_Write_def OneWire_WriteByte_def)

lemma busy_refuses:
  assumes "busy s"
  shows "OneWire_Write env buffer s = (False, s)" "OneWire_WriteByte env x s = (False, s)" "OneWire_Read env s = (0, s)"
  using assms by (simp_all add: OneWire_Write_def OneWire_WriteByte_def OneWire_Read_def)

lemma search_capacity:
  "0 < m \<Longrightarrow> 0 < m' \<Longrightarrow> search_loop env m command fuel r s = search_loop env m' command fuel r s"
proof (induction fuel arbitrary: r s)
  case 0
  then show ?case by (simp add: search_loop.simps [of env _ command 0])
next
  case (Suc k)
  then show ?case
    by (simp add: search_loop.simps [of env _ command "Suc k"] split: sum.splits prod.splits)
qed

subsection \<open>Properties\<close>

text \<open>A line held low: it answers every reset and every word with zeros.\<close>

definition grounded_env :: "unit ow_env" where
  "grounded_env = \<lparr>line_reset = \<lambda>l. (0, l), line_word = \<lambda>m x l. (0, l)\<rparr>"

definition ow_demo :: "unit ow" where
  "ow_demo = \<lparr>cfg = \<lparr>gpio = 13, status = ONEW_INIT_SUCCESS, sm = 0, bitMode = 8\<rparr>, line = (), trace = []\<rparr>"

text \<open>\<open>OneWire_Write\<close> of a non-empty buffer never puts a byte on the line: it marks the interface as writing
  before its first \<open>OneWire_WriteByte\<close>, which therefore refuses; the call returns \<open>false\<close> and leaves the
  interface refusing every later read and write.\<close>

theorem OneWire_Write_never_sends:
  assumes "\<not> busy s" and "buffer \<noteq> []"
  shows "fst (OneWire_Write env buffer s) = False
     \<and> trace (snd (OneWire_Write env buffer s)) = trace s
     \<and> OneWire_WriteByte env x (snd (OneWire_Write env buffer s)) = (False, snd (OneWire_Write env buffer s))
     \<and> OneWire_Read env (snd (OneWire_Write env buffer s)) = (0, snd (OneWire_Write env buffer s))"
  using Write_refused [OF assms, of env] busy_refuses [of "set_status ONEW_WRITE_IN_PROGRESS s" env]
  by simp

theorem OneWire_Write_never_sends_witness:
  "fst (OneWire_Write grounded_env [0x55, 0x28] ow_demo) = False
   \<and> trace (snd (OneWire_Write grounded_env [0x55, 0x28] ow_demo)) = []"
  using OneWire_Write_never_sends [of ow_demo "[0x55, 0x28]" grounded_env 0]
  by (simp add: busy_def ow_demo_def ONEW_codes)

text \<open>The capacity argument of \<open>OneWire_SearchROM\<close> limits nothing: for any two positive capacities, the
  search on the same line makes the same stores into the caller's array, however small that is.\<close>

theorem OneWire_SearchROM_ignores_capacity:
  assumes "0 < m" and "0 < m'"
  shows "OneWire_SearchROM env claimed m command fuel s = OneWire_SearchROM env claimed m' command fuel s"
  unfolding OneWire_SearchROM_def Let_def search_capacity [OF assms] ..

theorem OneWire_SearchROM_ignores_capacity_witness:
  "OneWire_SearchROM grounded_env 0 1 ONEW_SEARCH_ROM 3 ow_demo = OneWire_SearchROM grounded_env 0 255 ONEW_SEARCH_ROM 3 ow_demo"
  using OneWire_SearchROM_ignores_capacity [of 1 255 grounded_env 0 ONEW_SEARCH_ROM 3 ow_demo] by simp

end
