(* ===== verification/DS18B20.thy ===== *)
theory DS18B20
  imports OneWire Crc Packet
begin

text \<open>
  The DS18B20 thermometer on the 1-Wire line: include/sensors/ds18b20/ds18b20.h and
  src/sensors/ds18b20/ds18b20.c, with its blocking reads, the \<open>DS18B20_Tick\<close> state machine, the
  resolution setting and the task's polling round.
\<close>

definition DS18B20_CONVERT_T :: u8 where "DS18B20_CONVERT_T = 0x44"
definition DS18B20_WRITE_SCRATCHPAD :: u8 where "DS18B20_WRITE_SCRATCHPAD = 0x4E"
definition DS18B20_COPY_SCRATCHPAD :: u8 where "DS18B20_COPY_SCRATCHPAD = 0x48"
definition DS18B20_READ_SCRATCHPAD :: u8 where "DS18B20_READ_SCRATCHPAD = 0xBE"

definition DS18B20_IDLE :: u16 where "DS18B20_IDLE = 2"
definition DS18B20_START_CONVERSION :: u16 where "DS18B20_START_CONVERSION = 3"
definition DS18B20_WAITING_FOR_CONVERSION :: u16 where "DS18B20_WAITING_FOR_CONVERSION = 4"
definition DS18B20_START_READ :: u16 where "DS18B20_START_READ = 5"
definition DS18B20_READING_SCRATCHPAD :: u16 where "DS18B20_READING_SCRATCHPAD = 6"
definition DS18B20_PROCESS_DATA :: u16 where "DS18B20_PROCESS_DATA = 7"
definition DS18B20_DATA_READY :: u32 where "DS18B20_DATA_READY = 8"
definition DS18B20_DATA_ERROR :: u32 where "DS18B20_DATA_ERROR = 9"

lemmas DS18B20_states = DS18B20_IDLE_def DS18B20_START_CONVERSION_def DS18B20_WAITING_FOR_CONVERSION_def
  DS18B20_START_READ_def DS18B20_READING_SCRATCHPAD_def DS18B20_PROCESS_DATA_def

text \<open>\<open>data\<close> is the buffer of \<open>length\<close> bytes.\<close>

record DS18B20_Config =
  address :: u64
  data :: "u8 list"
  dataCount :: u8
  state :: u16
  resolution :: u8
  convertStartTime :: u64

record DS18B20_DataPacket =
  temperature :: f32
  paddress :: u64
  status :: u32
  timestamp :: u32
  jsonify :: json_fn

subsection \<open>Blocking reads\<close>

definition DS18B20_Convert :: "'e ow_env \<Rightarrow> u64 \<Rightarrow> 'e ow \<Rightarrow> bool \<times> 'e ow" where
  "DS18B20_Convert env addr s =
     (let (present, s) = OneWire_Reset env s
      in if \<not> present then (False, s)
      else if addr = ucast ONEW_SKIP_ROM then
        (let (ok, s) = OneWire_WriteByte env (ucast ONEW_SKIP_ROM) s
         in if \<not> ok then (False, s)
         else let (ok, s) = OneWire_WriteByte env (ucast DS18B20_CONVERT_T) s
         in if \<not> ok then (False, s) else (True, s))
      else (False, s))"

definition DS18B20_MatchRead :: "DS18B20_Config \<Rightarrow> bool" where
  "DS18B20_MatchRead config = (9 \<le> length (data config))"

text \<open>\<open>for (u8 i = 0; i < config->length; i++)\<close>: with a buffer of more than 255 bytes it never ends, \<open>None\<close>.\<close>

fun read_bytes :: "'e ow_env \<Rightarrow> nat \<Rightarrow> 'e ow \<Rightarrow> u8 list \<times> 'e ow" where
  "read_bytes env 0 s = ([], s)"
| "read_bytes env (Suc n) s =
     (let (b, s) = OneWire_Read env s; (bs, s) = read_bytes env n s in (b # bs, s))"

definition DS18B20_SkipRead ::
  "'e ow_env \<Rightarrow> DS18B20_Config \<Rightarrow> 'e ow \<Rightarrow> ((bool \<times> DS18B20_Config) \<times> 'e ow) option" where
  "DS18B20_SkipRead env config s =
     (if length (data config) < 9 then Some ((False, config), s)
      else let (present, s) = OneWire_Reset env s
      in if \<not> present then Some ((False, config), s)
      else let (ok, s) = OneWire_WriteByte env (ucast ONEW_SKIP_ROM) s
      in if \<not> ok then Some ((False, config), s)
      else let (ok, s) = OneWire_WriteByte env (ucast DS18B20_READ_SCRATCHPAD) s
      in if \<not> ok then Some ((False, config), s)
      else if 255 < length (data config) then None
      else let (bs, s) = read_bytes env (length (data config)) s
      in Some ((True, config\<lparr>data := bs\<rparr>), s))"

text \<open>\<open>(f32)rawTemp/16.0f\<close> with \<open>rawTemp\<close> an \<open>i16\<close> of the first two bytes.\<close>

definition DS18B20_temp :: "u8 list \<Rightarrow> f32" where
  "DS18B20_temp d = f32_of_int (i16_of_bytes (d ! 1) (d ! 0)) / f32_lit 16"

text \<open>\<open>ONEW_SKIP_ROM ? 0x00 : config->address\<close> has a constant condition: the address is always 0.\<close>

definition DS18B20_ProcessData ::
  "'e ow_env \<Rightarrow> DS18B20_Config \<Rightarrow> DS18B20_DataPacket \<Rightarrow> 'e ow \<Rightarrow>
   ((bool \<times> DS18B20_Config \<times> DS18B20_DataPacket) \<times> 'e ow) option" where
  "DS18B20_ProcessData env config pkt s =
     (let r = (if address config = ucast ONEW_SKIP_ROM then DS18B20_SkipRead env config s
               else Some ((DS18B20_MatchRead config, config), s))
      in case r of None \<Rightarrow> None
      | Some ((result, config), s) \<Rightarrow> Some (
          if \<not> DS18B20_CRC (data config) (length (data config)) then ((False, config, pkt), s)
          else if \<not> result then ((False, config, pkt), s)
          else ((True, config, pkt\<lparr>temperature := DS18B20_temp (data config), paddress := 0\<rparr>), s)))"

definition DS18B20_ReadAndProcess ::
  "'e ow_env \<Rightarrow> DS18B20_Config \<Rightarrow> DS18B20_DataPacket \<Rightarrow> 'e ow \<Rightarrow>
   ((bool \<times> DS18B20_Config \<times> DS18B20_DataPacket) \<times> 'e ow) option" where
  "DS18B20_ReadAndProcess env config pkt s =
     (let (ok, s) = DS18B20_Convert env (address config) s
      in if \<not> ok then Some ((False, config, pkt), s) else DS18B20_ProcessData env config pkt s)"

subsection \<open>The state machine\<close>

definition DS18B20_TickRead :: "DS18B20_Config \<Rightarrow> DS18B20_Config" where
  "DS18B20_TickRead config =
     (if state config = DS18B20_IDLE then config\<lparr>state := DS18B20_START_CONVERSION\<rparr> else config)"

text \<open>\<open>now\<close>: the microsecond clock when \<open>get_absolute_time\<close> is called in this tick.\<close>

definition DS18B20_Tick ::
  "'e ow_env \<Rightarrow> u64 \<Rightarrow> DS18B20_Config \<times> DS18B20_DataPacket \<times> 'e ow \<Rightarrow>
   DS18B20_Config \<times> DS18B20_DataPacket \<times> 'e ow" where
  "DS18B20_Tick env now t =
     (let (config, pkt, s) = t in
      if state config = DS18B20_START_CONVERSION then
        (let (present, s) = OneWire_Reset env s
         in if present then
              let s = snd (OneWire_WriteByte env (ucast ONEW_SKIP_ROM) s);
                  s = snd (OneWire_WriteByte env (ucast DS18B20_CONVERT_T) s)
              in (config\<lparr>convertStartTime := now, state := DS18B20_WAITING_FOR_CONVERSION\<rparr>, pkt, s)
            else (config\<lparr>state := DS18B20_IDLE\<rparr>, pkt, s))
      else if state config = DS18B20_WAITING_FOR_CONVERSION then
        (if 750000 < sint (now - convertStartTime config)
         then (config\<lparr>state := DS18B20_START_READ\<rparr>, pkt, s) else (config, pkt, s))
      else if state config = DS18B20_START_READ then
        (let (present, s) = OneWire_Reset env s
         in if present then
              let s = snd (OneWire_WriteByte env (ucast ONEW_SKIP_ROM) s);
                  s = snd (OneWire_WriteByte env (ucast DS18B20_READ_SCRATCHPAD) s)
              in (config\<lparr>dataCount := 0, state := DS18B20_READING_SCRATCHPAD\<rparr>, pkt, s)
            else (config\<lparr>state := DS18B20_IDLE\<rparr>, pkt, s))
      else if state config = DS18B20_READING_SCRATCHPAD then
        (let (config, s) =
               (if unat (dataCount config) < length (data config)
                then let (b, s) = OneWire_Read env s
                     in (config\<lparr>data := (data config)[unat (dataCount config) := b],
                                dataCount := dataCount config + 1\<rparr>, s)
                else (config, s))
         in (if length (data config) \<le> unat (dataCount config)
             then config\<lparr>state := DS18B20_PROCESS_DATA\<rparr> else config, pkt, s))
      else if state config = DS18B20_PROCESS_DATA then
        (let pkt = (if DS18B20_CRC (data config) (length (data config))
                    then pkt\<lparr>temperature := DS18B20_temp (data config),
                             paddress := (if address config = ucast ONEW_SKIP_ROM then 0 else address config),
                             status := DS18B20_DATA_READY\<rparr>
                    else pkt\<lparr>status := DS18B20_DATA_ERROR\<rparr>)
         in (config\<lparr>state := DS18B20_IDLE\<rparr>, pkt, s))
      else (config, pkt, s))"

subsection \<open>Resolution and task\<close>

definition config_byte :: "u8 \<Rightarrow> u8" where
  "config_byte res =
     (if res = 9 then 0x1F else if res = 10 then 0x3F else if res = 11 then 0x5F else 0x7F)"

definition DS18B20_SetResolution :: "'e ow_env \<Rightarrow> u8 \<Rightarrow> 'e ow \<Rightarrow> bool \<times> 'e ow" where
  "DS18B20_SetResolution env res s =
     (let put = (\<lambda>b s. snd (OneWire_WriteByte env (ucast (b :: u8)) s));
          (present, s) = OneWire_Reset env s
      in if \<not> present then (False, s)
      else let s = fold put [ONEW_SKIP_ROM, DS18B20_WRITE_SCRATCHPAD, 0x00, 0x00, config_byte res] s;
               (present, s) = OneWire_Reset env s
      in if \<not> present then (False, s)
      else (True, fold put [ONEW_SKIP_ROM, DS18B20_COPY_SCRATCHPAD] s))"

definition conversion_delay :: "u8 \<Rightarrow> nat" where
  "conversion_delay res =
     (if res = 9 then 95 else if res = 10 then 190 else if res = 11 then 380 else if res = 12 then 755 else 800)"

text \<open>A round of \<open>vDS18B20_Task\<close>: the packet it sends, the delay it makes before reading, the next state.\<close>

definition DS18B20_round ::
  "'e ow_env \<Rightarrow> DS18B20_Config \<times> DS18B20_DataPacket \<times> 'e ow \<Rightarrow>
   (nat \<times> DS18B20_DataPacket \<times> (DS18B20_Config \<times> DS18B20_DataPacket \<times> 'e ow)) option" where
  "DS18B20_round env t =
     (let (config, pkt, s) = t;
          s = snd (DS18B20_Convert env (address config) s);
          ms = conversion_delay (resolution config)
      in map_option (\<lambda>((result, config, pkt), s). (ms, pkt, (config, pkt, s)))
           (DS18B20_ProcessData env config pkt s))"

definition hkDS18B20_JSON_BUFFER :: nat where "hkDS18B20_JSON_BUFFER = 64"

definition DS18B20_Jsonify :: "DS18B20_DataPacket \<Rightarrow> string option" where
  "DS18B20_Jsonify pkt = jsonify_into hkDS18B20_JSON_BUFFER
     (''{\"sensor\": \"ds18b20\",\"temperature\": '' @ fmt_f 3 (temperature pkt) @ ''}'')"

subsection \<open>Facts\<close>

lemma temp_exact: "DS18B20_temp d = Num (of_int (i16_of_bytes (d ! 1) (d ! 0)) / 16)"
proof -
  let ?n = "i16_of_bytes (d ! 1) (d ! 0)"
  have b: "\<bar>?n\<bar> < 2 ^ 24" by (rule i16_of_bytes_bound)
  have i: "f32_of_int ?n = Num (of_int ?n)" by (rule f32_of_int_exact [OF b])
  have s: "f32_lit 16 = Num 16" using f32_of_int_exact [of 16] by (simp add: f32_of_int_def)
  have "f32_of (of_int ?n * pow2 (- 4)) = Num (of_int ?n * pow2 (- 4))"
    by (rule f32_of_exact) (use b in simp_all)
  then have "f32_of (of_int ?n / 16) = Num (of_int ?n / 16)" by (simp add: pow2_def field_simps)
  then show ?thesis
    unfolding DS18B20_temp_def i s by (cases "?n = 0") (simp_all add: signed_zero_def)
qed

lemma ProcessData_true:
  assumes "DS18B20_ProcessData env config pkt s = Some ((True, config', pkt'), s')"
  shows "DS18B20_CRC (data config') (length (data config'))
    \<and> temperature pkt' = Num (of_int (i16_of_bytes (data config' ! 1) (data config' ! 0)) / 16)"
  using assms by (auto simp: DS18B20_ProcessData_def Let_def temp_exact split: option.splits if_splits prod.splits)

lemma ProcessData_false:
  assumes "DS18B20_ProcessData env config pkt s = Some ((False, config', pkt'), s')"
  shows "pkt' = pkt"
  using assms by (auto simp: DS18B20_ProcessData_def Let_def split: option.splits if_splits prod.splits)

lemma crc_zero_scratchpad: "DS18B20_CRC (replicate n 0) n"
proof -
  have "crc_fold lsb_step 0 (replicate n 0) = 0" for n
    by (induction n) (simp_all add: crc_fold_def)
  then show ?thesis by (simp add: DS18B20_CRC_def DS18B20_CRC_fold)
qed

lemma read_phase:
  assumes "\<not> busy s" "state c = DS18B20_READING_SCRATCHPAD" "unat (dataCount c) + k = length (data c)" "0 < k" "length (data c) \<le> 255"
  shows "\<exists>c' s'. iterate k (DS18B20_Tick env now) (c, p, s) = (c', p, s') \<and> state c' = DS18B20_PROCESS_DATA
    \<and> length (data c') = length (data c) \<and> \<not> busy s'"
  using assms
proof (induction k arbitrary: c s)
  case (Suc k)
  obtain b s1 where r: "OneWire_Read env s = (b, s1)" by fastforce
  have nb: "\<not> busy s1" using Read_idle [OF Suc.prems(1), of env] by (simp add: r)
  let ?c = "c\<lparr>data := (data c)[unat (dataCount c) := b], dataCount := dataCount c + 1\<rparr>"
  have inc: "unat (dataCount c + 1) = unat (dataCount c) + 1"
    using Suc.prems unat_u8_Suc [of "dataCount c"] by simp
  show ?case
  proof (cases "k = 0")
    case True
    then have "DS18B20_Tick env now (c, p, s) = (?c\<lparr>state := DS18B20_PROCESS_DATA\<rparr>, p, s1)"
      using Suc.prems inc by (simp add: DS18B20_Tick_def Let_def r DS18B20_states)
    with True nb show ?thesis by simp
  next
    case False
    then have t: "DS18B20_Tick env now (c, p, s) = (?c, p, s1)"
      using Suc.prems inc by (simp add: DS18B20_Tick_def Let_def r DS18B20_states)
    have "\<exists>c' s'. iterate k (DS18B20_Tick env now) (?c, p, s1) = (c', p, s') \<and> state c' = DS18B20_PROCESS_DATA
      \<and> length (data c') = length (data ?c) \<and> \<not> busy s'"
      by (rule Suc.IH) (use Suc.prems False inc nb in auto)
    then show ?thesis by (simp add: t)
  qed
qed simp

lemma tick_completes:
  assumes "\<not> busy s" "state c = DS18B20_WAITING_FOR_CONVERSION" "750000 < sint (now - convertStartTime c)"
    and "fst (OneWire_Reset env s)" "0 < length (data c)" "length (data c) \<le> 255"
  shows "\<exists>c' p' s'. iterate (length (data c) + 3) (DS18B20_Tick env now) (c, p, s) = (c', p', s')
    \<and> state c' = DS18B20_IDLE
    \<and> (if DS18B20_CRC (data c') (length (data c'))
       then status p' = DS18B20_DATA_READY \<and> temperature p' = DS18B20_temp (data c')
       else p' = p\<lparr>status := DS18B20_DATA_ERROR\<rparr>)"
proof -
  let ?T = "DS18B20_Tick env now"
  let ?s = "snd (OneWire_WriteByte env (ucast DS18B20_READ_SCRATCHPAD) (snd (OneWire_WriteByte env (ucast ONEW_SKIP_ROM) (snd (OneWire_Reset env s)))))"
  let ?c = "c\<lparr>dataCount := 0, state := DS18B20_READING_SCRATCHPAD\<rparr>"
  have t1: "?T (c, p, s) = (c\<lparr>state := DS18B20_START_READ\<rparr>, p, s)"
    using assms by (simp add: DS18B20_Tick_def DS18B20_states)
  have t2: "?T (c\<lparr>state := DS18B20_START_READ\<rparr>, p, s) = (?c, p, ?s)"
    using assms(4) by (simp add: DS18B20_Tick_def Let_def case_prod_unfold DS18B20_states)
  have nb: "\<not> busy ?s" using assms(1) WriteByte_idle Reset_idle by blast
  obtain c' s' where r: "iterate (length (data c)) ?T (?c, p, ?s) = (c', p, s')" "state c' = DS18B20_PROCESS_DATA"
    using read_phase [OF nb, of ?c "length (data c)" env now p] assms by auto
  have "iterate (length (data c) + 3) ?T (c, p, s) = ?T (c', p, s')"
  proof -
    have "iterate (length (data c) + 3) ?T (c, p, s) = iterate (Suc (length (data c))) ?T (?T (?T (c, p, s)))"
      by (simp add: numeral_3_eq_3)
    then show ?thesis unfolding t1 t2 iterate_Suc r(1) .
  qed
  then show ?thesis using r(2)
    by (cases "?T (c', p, s')") (auto simp: DS18B20_Tick_def Let_def DS18B20_states split: if_splits)
qed

lemma grounded_bytes: "\<not> busy s \<Longrightarrow> fst (read_bytes grounded_env n s) = replicate n 0"
proof (induction n arbitrary: s)
  case (Suc n)
  have "\<not> busy (snd (OneWire_Read grounded_env s))" by (rule Read_idle [OF Suc.prems])
  with Suc.IH [OF this] Suc.prems show ?case
    by (simp add: Let_def case_prod_unfold OneWire_Read_def word_io_def grounded_env_def)
qed simp

subsection \<open>Properties\<close>

definition ds_demo :: DS18B20_Config where
  "ds_demo = \<lparr>address = 0xCC, data = replicate 9 0, dataCount = 0, state = DS18B20_WAITING_FOR_CONVERSION, resolution = 12,
              convertStartTime = 1000\<rparr>"

definition ds_packet :: DS18B20_DataPacket where
  "ds_packet = \<lparr>temperature = 0, paddress = 0, status = 0, timestamp = 0, jsonify = JSON_NULL\<rparr>"

text \<open>When processing reports success the nine bytes have a zero CRC remainder and the temperature in the packet is
  exactly the signed 16-bit reading divided by 16, with no rounding; when it reports failure the packet is untouched.\<close>

theorem DS18B20_reading_exact:
  assumes "DS18B20_ProcessData env config pkt s = Some ((ok, config', pkt'), s')"
  shows "(if ok then DS18B20_CRC (data config') (length (data config'))
             \<and> temperature pkt' = Num (of_int (sint (word16 (data config' ! 1) (data config' ! 0))) / 16)
           else pkt' = pkt)"
  using ProcessData_true [of env config pkt s config' pkt' s'] ProcessData_false [of env config pkt s config' pkt' s'] assms
  by (cases ok) (auto simp: i16_of_bytes_sint)

theorem DS18B20_reading_exact_witness:
  "\<exists>ok config' pkt' s'. DS18B20_ProcessData grounded_env (ds_demo\<lparr>address := 1\<rparr>) ds_packet ow_demo = Some ((ok, config', pkt'), s')
     \<and> (if ok then temperature pkt' = Num (of_int (sint (word16 (data config' ! 1) (data config' ! 0))) / 16) else pkt' = ds_packet)"
proof -
  have "DS18B20_ProcessData grounded_env (ds_demo\<lparr>address := 1\<rparr>) ds_packet ow_demo \<noteq> None"
    by (simp add: DS18B20_ProcessData_def Let_def ds_demo_def ONEW_SKIP_ROM_def)
  then obtain ok config' pkt' s' where r: "DS18B20_ProcessData grounded_env (ds_demo\<lparr>address := 1\<rparr>) ds_packet ow_demo = Some ((ok, config', pkt'), s')"
    by auto
  show ?thesis using DS18B20_reading_exact [OF r] r by (auto split: if_splits)
qed

text \<open>A line shorted to ground passes for a healthy sensor: the reset looks answered, nine zero bytes have a zero
  CRC remainder, and the driver reports success with a temperature of 0 degrees.\<close>

theorem DS18B20_accepts_grounded_line:
  assumes "\<not> busy s" and "address config = ucast ONEW_SKIP_ROM" and "length (data config) = 9"
  shows "\<exists>config' pkt' s'. DS18B20_ReadAndProcess grounded_env config pkt s = Some ((True, config', pkt'), s')
     \<and> temperature pkt' = Num 0"
proof -
  let ?w = "\<lambda>x s. snd (OneWire_WriteByte grounded_env (ucast (x :: u8)) s)"
  have reset: "fst (OneWire_Reset grounded_env s) = True" "\<not> busy (snd (OneWire_Reset grounded_env s)) \<longleftrightarrow> \<not> busy s" for s :: "unit ow"
    by (simp_all add: Reset_idle) (simp add: OneWire_Reset_def grounded_env_def)
  have w: "fst (OneWire_WriteByte grounded_env (ucast x) s) = True" "\<not> busy (?w x s)" if "\<not> busy s" for x :: u8 and s
    using WriteByte_idle [OF that] by blast+
  let ?s1 = "?w DS18B20_CONVERT_T (?w ONEW_SKIP_ROM (snd (OneWire_Reset grounded_env s)))"
  have s1: "\<not> busy ?s1" using assms(1) reset(2) w(2) by blast
  have "DS18B20_Convert grounded_env (address config) s = (True, ?s1)"
    using assms(1,2) reset w by (simp add: DS18B20_Convert_def Let_def case_prod_unfold)
  moreover
  let ?s2 = "?w DS18B20_READ_SCRATCHPAD (?w ONEW_SKIP_ROM (snd (OneWire_Reset grounded_env ?s1)))"
  have s2: "\<not> busy ?s2" using s1 reset(2) w(2) by blast
  have "DS18B20_SkipRead grounded_env config ?s1 =
      Some ((True, config\<lparr>data := replicate 9 0\<rparr>), snd (read_bytes grounded_env 9 ?s2))"
    using s1 assms(3) reset w grounded_bytes [OF s2, of 9]
    by (simp add: DS18B20_SkipRead_def Let_def case_prod_unfold)
  moreover have "DS18B20_temp (replicate 9 0) = Num 0"
    by (simp add: temp_exact i16_of_bytes_def as_i16_id)
  ultimately show ?thesis
    using assms(2) crc_zero_scratchpad [of 9] by (simp add: DS18B20_ReadAndProcess_def DS18B20_ProcessData_def Let_def)
qed

theorem DS18B20_accepts_grounded_line_witness:
  "\<exists>config' pkt' s'. DS18B20_ReadAndProcess grounded_env ds_demo ds_packet ow_demo = Some ((True, config', pkt'), s')
     \<and> temperature pkt' = Num 0"
  using DS18B20_accepts_grounded_line [of ow_demo ds_demo ds_packet]
  by (simp add: ow_demo_def busy_def ONEW_codes ds_demo_def ONEW_SKIP_ROM_def)

text \<open>C27. The state machine finishes: once more than 750 ms have passed since the conversion was started and the sensor
  answers the reset, exactly \<open>length + 3\<close> further ticks read every byte of the buffer and return to idle,
  with the packet marked ready and holding the temperature read when the CRC is right, and only marked
  as an error otherwise.\<close>

theorem DS18B20_Tick_completes:
  assumes "\<not> busy s" and "state c = DS18B20_WAITING_FOR_CONVERSION"
    and "750000 < sint (now - convertStartTime c)" and "fst (OneWire_Reset env s)"
    and "0 < length (data c)" and "length (data c) \<le> 255"
  shows "\<exists>c' p' s'. iterate (length (data c) + 3) (DS18B20_Tick env now) (c, p, s) = (c', p', s')
    \<and> state c' = DS18B20_IDLE
    \<and> (if DS18B20_CRC (data c') (length (data c'))
       then status p' = DS18B20_DATA_READY \<and> temperature p' = DS18B20_temp (data c')
       else p' = p\<lparr>status := DS18B20_DATA_ERROR\<rparr>)"
  by (rule tick_completes [OF assms])

theorem DS18B20_Tick_completes_witness:
  "\<exists>c' p' s'. iterate 12 (DS18B20_Tick grounded_env 800000) (ds_demo, ds_packet, ow_demo) = (c', p', s') \<and> state c' = DS18B20_IDLE"
proof -
  have "length (data ds_demo) + 3 = 12" by (simp add: ds_demo_def)
  then show ?thesis
    using DS18B20_Tick_completes [of ow_demo ds_demo 800000 grounded_env ds_packet]
    by (auto simp: ow_demo_def busy_def ONEW_codes ds_demo_def OneWire_Reset_def grounded_env_def)
qed

text \<open>Worst-case conversion time of the resolution a configuration byte selects, in microseconds (bits 5 and 6).\<close>

definition conversion_us :: "u8 \<Rightarrow> nat" where
  "conversion_us cb = 750000 div 2 ^ (3 - unat (drop_bit 5 cb AND 3))"

text \<open>For every resolution value the task can be configured with, also invalid ones, the delay between starting a
  conversion and reading it exceeds the worst-case conversion time of the resolution written to the sensor.\<close>

theorem DS18B20_delay_suffices:
  "conversion_us (config_byte res) < conversion_delay res * 1000"
proof -
  have "conversion_us 0x1F = 93750" "conversion_us 0x3F = 187500" "conversion_us 0x5F = 375000" "conversion_us 0x7F = 750000"
    by (simp_all add: conversion_us_def)
  then show ?thesis by (simp add: config_byte_def conversion_delay_def)
qed

end
