(* ===== verification/Dma.thy ===== *)
theory Dma
  imports OneWire
begin

text \<open>
  The UART with DMA reception (src/comm/uart_dma.c, include/comm/uart.h) and the two DMA interrupt
  handlers that wake the tasks waiting for a transfer (src/comm/dma_irq_handler.c). A semaphore is
  modelled by the event of giving it; a DHT configuration is known to the handler by the number of
  its semaphore.
\<close>

definition UART_INIT :: u8 where "UART_INIT = 0"
definition UART_DATA_RX_IN_PROGRESS :: u8 where "UART_DATA_RX_IN_PROGRESS = 1"
definition UART_DATA_RX_SUCCESS :: u8 where "UART_DATA_RX_SUCCESS = 2"

record UART_Config =
  tx :: u8
  rx :: u8
  baudrate :: u32
  uart_data :: "u8 list"
  uart_status :: u8
  packetSize :: u8
  dmaSemaphore :: "nat option"

text \<open>The statics of dma_irq_handler.c and uart_dma.c. A channel of \<open>- 1\<close> is none.\<close>

record irq_state =
  sgDMA_UART_Channel :: u32
  sgUART_Config :: "UART_Config option"
  sgDMA_OneWire_RX_Channel :: u32
  sgDMA_OneWire_TX_Channel :: u32
  sgOneWire_Config :: "OneWire_Config option"
  dhtConfigsByChannel :: "nat option option list"
  sgUART_DMA_Channel :: u32

datatype irq_event =
    Acknowledge nat u32
  | Give_Semaphore nat
  | Gpio_Func u8
  | Gpio_Off u8
  | Uart_Hw u32
  | Uart_Hw_Off
  | Dma_Start u32
  | Irq_Enable nat

definition MAX_DMA_CHANNELS :: nat where "MAX_DMA_CHANNELS = 12"

definition irq_initial :: irq_state where
  "irq_initial = \<lparr>sgDMA_UART_Channel = - 1, sgUART_Config = None, sgDMA_OneWire_RX_Channel = - 1,
     sgDMA_OneWire_TX_Channel = - 1, sgOneWire_Config = None,
     dhtConfigsByChannel = replicate MAX_DMA_CHANNELS None, sgUART_DMA_Channel = 0\<rparr>"

subsection \<open>Registration\<close>

definition DMA_Master_Init :: "irq_event list" where
  "DMA_Master_Init = [Irq_Enable 0, Irq_Enable 1]"

definition DMA_UART_Register :: "UART_Config \<Rightarrow> u32 \<Rightarrow> irq_state \<Rightarrow> irq_state" where
  "DMA_UART_Register config channel s = s\<lparr>sgUART_Config := Some config, sgDMA_UART_Channel := channel\<rparr>"

definition DMA_OneWire_RX_Register :: "OneWire_Config \<Rightarrow> u32 \<Rightarrow> irq_state \<Rightarrow> irq_state" where
  "DMA_OneWire_RX_Register config channel s = s\<lparr>sgOneWire_Config := Some config, sgDMA_OneWire_RX_Channel := channel\<rparr>"

definition DMA_OneWire_TX_Register :: "OneWire_Config \<Rightarrow> u32 \<Rightarrow> irq_state \<Rightarrow> irq_state" where
  "DMA_OneWire_TX_Register config channel s = s\<lparr>sgOneWire_Config := Some config, sgDMA_OneWire_TX_Channel := channel\<rparr>"

text \<open>The argument is the semaphore field of the configuration that is registered.\<close>

definition DMA_DHT_Register :: "nat option \<Rightarrow> u32 \<Rightarrow> irq_state \<Rightarrow> irq_state" where
  "DMA_DHT_Register sem channel s =
     (if unat channel < MAX_DMA_CHANNELS
      then s\<lparr>dhtConfigsByChannel := (dhtConfigsByChannel s)[unat channel := Some sem]\<rparr>
      else s)"

subsection \<open>Handlers\<close>

text \<open>One channel of the loop of \<open>DMA_IRQ0_ISR\<close>; \<open>pending\<close>: its flag in the interrupt status.\<close>

definition irq0_channel :: "(nat \<Rightarrow> bool) \<Rightarrow> irq_state \<Rightarrow> nat \<Rightarrow> irq_event list" where
  "irq0_channel pending s channel =
     (if pending channel
      then Acknowledge 0 (word_of_nat channel) #
           (case dhtConfigsByChannel s ! channel of
              None \<Rightarrow> []
            | Some None \<Rightarrow> []
            | Some (Some sem) \<Rightarrow> [Give_Semaphore sem])
      else [])"

definition DMA_IRQ0_ISR :: "(nat \<Rightarrow> bool) \<Rightarrow> irq_state \<Rightarrow> irq_event list" where
  "DMA_IRQ0_ISR pending s = concat (map (irq0_channel pending s) [0..<MAX_DMA_CHANNELS])"

definition DMA_UART_ISR :: "irq_state \<Rightarrow> irq_state \<times> irq_event list" where
  "DMA_UART_ISR s =
     (case sgUART_Config s of
        Some c \<Rightarrow> (case dmaSemaphore c of
           Some sem \<Rightarrow> (s\<lparr>sgUART_Config := Some (c\<lparr>uart_status := UART_DATA_RX_SUCCESS\<rparr>)\<rparr>, [Give_Semaphore sem])
         | None \<Rightarrow> (s, []))
      | None \<Rightarrow> (s, []))"

definition DMA_OneWire_ISR :: "irq_state \<Rightarrow> irq_state" where
  "DMA_OneWire_ISR s = (case sgOneWire_Config s of None \<Rightarrow> s
     | Some c \<Rightarrow> s\<lparr>sgOneWire_Config := Some (c\<lparr>status := ONEW_DMA_SUCCESS\<rparr>)\<rparr>)"

definition DMA_IRQ1_ISR :: "(u32 \<Rightarrow> bool) \<Rightarrow> irq_state \<Rightarrow> irq_state \<times> irq_event list" where
  "DMA_IRQ1_ISR pending s =
     (let (s, e1) = (if sgDMA_UART_Channel s \<noteq> - 1 \<and> pending (sgDMA_UART_Channel s)
                     then let (s', ev) = DMA_UART_ISR s in (s', Acknowledge 1 (sgDMA_UART_Channel s) # ev)
                     else (s, []));
          (s, e2) = (if sgDMA_OneWire_RX_Channel s \<noteq> - 1 \<and> pending (sgDMA_OneWire_RX_Channel s)
                     then (DMA_OneWire_ISR s, [Acknowledge 1 (sgDMA_OneWire_RX_Channel s)])
                     else (s, []));
          (s, e3) = (if sgDMA_OneWire_TX_Channel s \<noteq> - 1 \<and> pending (sgDMA_OneWire_TX_Channel s)
                     then (DMA_OneWire_ISR s, [Acknowledge 1 (sgDMA_OneWire_TX_Channel s)])
                     else (s, []))
      in (s, e1 @ e2 @ e3))"

subsection \<open>UART\<close>

text \<open>\<open>channel\<close>: the DMA channel the SDK hands out.\<close>

definition UART_DMA_Init :: "u32 \<Rightarrow> UART_Config \<Rightarrow> irq_state \<Rightarrow> irq_state \<times> irq_event list" where
  "UART_DMA_Init channel uart s =
     (DMA_UART_Register uart channel (s\<lparr>sgUART_DMA_Channel := channel\<rparr>), [Irq_Enable 1])"

definition UART_Init :: "u32 \<Rightarrow> UART_Config \<Rightarrow> irq_state \<Rightarrow> irq_state \<times> irq_event list" where
  "UART_Init channel config s =
     (let (s, ev) = UART_DMA_Init channel config s
      in (s, [Uart_Hw (baudrate config), Gpio_Func (tx config), Gpio_Func (rx config)] @ ev))"

definition UART_Stop :: "UART_Config \<Rightarrow> irq_event list" where
  "UART_Stop config = [Uart_Hw_Off, Gpio_Off (tx config), Gpio_Off (rx config)]"

text \<open>\<open>None\<close>: no configuration was registered yet and the code dereferences a null pointer.\<close>

definition UART_ReadPacket :: "irq_state \<Rightarrow> (irq_state \<times> irq_event list) option" where
  "UART_ReadPacket s =
     (case sgUART_Config s of None \<Rightarrow> None
      | Some c \<Rightarrow> Some (s\<lparr>sgUART_Config := Some (c\<lparr>uart_status := UART_DATA_RX_IN_PROGRESS\<rparr>)\<rparr>,
                        [Dma_Start (sgUART_DMA_Channel s)]))"

subsection \<open>Facts\<close>

lemma irq0_events:
  "ev \<in> set (DMA_IRQ0_ISR pending s) \<longleftrightarrow>
   (\<exists>ch < 12. pending ch \<and> (ev = Acknowledge 0 (word_of_nat ch) \<or>
      (\<exists>sem. dhtConfigsByChannel s ! ch = Some (Some sem) \<and> ev = Give_Semaphore sem)))"
  by (force simp: DMA_IRQ0_ISR_def irq0_channel_def MAX_DMA_CHANNELS_def split: option.splits if_splits)

lemma register_lookup:
  assumes "length (dhtConfigsByChannel s) = 12" "unat ch < 12"
  shows "dhtConfigsByChannel (DMA_DHT_Register sem ch s) ! unat ch = Some sem"
    and "k \<noteq> unat ch \<Longrightarrow> dhtConfigsByChannel (DMA_DHT_Register sem ch s) ! k = dhtConfigsByChannel s ! k"
  using assms by (simp_all add: DMA_DHT_Register_def MAX_DMA_CHANNELS_def)

subsection \<open>Properties\<close>

text \<open>The channel-0 handler acknowledges every pending channel and gives the semaphore registered for a
  channel, and of no other: two sensors on two channels never wake each other's task.\<close>

theorem DMA_IRQ0_wakes_registered:
  assumes "length (dhtConfigsByChannel s) = 12" and "unat a < 12" and "unat b < 12" and "a \<noteq> b"
    and "\<forall>k < 12. dhtConfigsByChannel s ! k = None"
    and "st = DMA_DHT_Register (Some semA) a (DMA_DHT_Register (Some semB) b s)"
  shows "Give_Semaphore sem \<in> set (DMA_IRQ0_ISR pending st)
         \<longleftrightarrow> (pending (unat a) \<and> sem = semA) \<or> (pending (unat b) \<and> sem = semB)"
proof -
  have l: "length (dhtConfigsByChannel (DMA_DHT_Register (Some semB) b s)) = 12"
    using assms(1) by (simp add: DMA_DHT_Register_def)
  have ne: "unat a \<noteq> unat b" using assms(4) by (simp add: word_unat_eq_iff)
  have "dhtConfigsByChannel st ! k = (if k = unat a then Some (Some semA) else if k = unat b then Some (Some semB) else None)" if "k < 12" for k
    using register_lookup [OF l assms(2)] register_lookup [OF assms(1,3)] that assms(5) ne unfolding assms(6) by auto
  then show ?thesis
    using assms(2,3) ne by (auto simp: irq0_events split: if_splits)
qed

theorem DMA_IRQ0_wakes_registered_witness:
  "Give_Semaphore 7 \<in> set (DMA_IRQ0_ISR (\<lambda>ch. ch = 3) (DMA_DHT_Register (Some 7) 3 (DMA_DHT_Register (Some 8) 4 irq_initial)))
   \<and> Give_Semaphore 8 \<notin> set (DMA_IRQ0_ISR (\<lambda>ch. ch = 3) (DMA_DHT_Register (Some 7) 3 (DMA_DHT_Register (Some 8) 4 irq_initial)))"
  using DMA_IRQ0_wakes_registered [of irq_initial 3 4 _ 7 8 _ "\<lambda>ch. ch = 3"]
  by (simp add: irq_initial_def MAX_DMA_CHANNELS_def)

end
