(* ===== verification/PMS5003.thy ===== *)
theory PMS5003
  imports Task Packet Dma
begin

text \<open>
  The PMS5003 particle sensor on the UART: include/sensors/pms5003/pms5003.h and
  src/sensors/pms5003/pms5003.c. After \<open>PMS5003_Read\<close> the configuration's \<open>rawData\<close> is the UART's own
  buffer, so what the DMA stores there before the semaphore is given is what is processed.
\<close>

definition PMS5003_START_BYTE_1 :: u8 where "PMS5003_START_BYTE_1 = 0x42"
definition PMS5003_START_BYTE_2 :: u8 where "PMS5003_START_BYTE_2 = 0x4D"
definition PMS5003_PACKET_LENGTH :: nat where "PMS5003_PACKET_LENGTH = 32"

record PMS5003_Config =
  rawData :: "u8 list"
  status :: u8

record PMS5003_DataPacket =
  pm1 :: u16
  pm2_5 :: u16
  pm10 :: u16
  timestamp :: u32
  jsonify :: json_fn

definition pms_checksum :: "u8 list \<Rightarrow> u16" where
  "pms_checksum raw = foldl (\<lambda>c b. c + ucast b) 0 (take (PMS5003_PACKET_LENGTH - 2) raw)"

definition PMS5003_ValidatePacket :: "PMS5003_Config \<Rightarrow> bool" where
  "PMS5003_ValidatePacket config =
     (let raw = rawData config
      in if raw ! 0 \<noteq> 0x42 \<or> raw ! 1 \<noteq> 0x4D then False
         else pms_checksum raw = word16 (raw ! 30) (raw ! 31))"

definition PMS5003_ProcessData :: "PMS5003_Config \<Rightarrow> PMS5003_DataPacket \<Rightarrow> PMS5003_DataPacket" where
  "PMS5003_ProcessData config d =
     (if \<not> PMS5003_ValidatePacket config then d
      else let raw = rawData config
           in d\<lparr>pm1 := word16 (raw ! 4) (raw ! 5), pm2_5 := word16 (raw ! 6) (raw ! 7),
                pm10 := word16 (raw ! 8) (raw ! 9)\<rparr>)"

text \<open>
  The humidity compensation (switched off in the configuration). \<open>hum\<close> and \<open>temp\<close> come from the
  companion sensor; converting a value outside \<open>u16\<close> is undefined, \<open>None\<close>.
\<close>

definition pms_linear :: "u16 \<Rightarrow> f32 \<Rightarrow> f32 \<Rightarrow> f32" where
  "pms_linear x hum temp =
     f32_lit (524/1000) * f32_of_int (uint x) - f32_lit (862/10000) * hum + f32_lit (753/10000) * temp + f32_lit (575/100)"

definition PMS5003_CompensateHumidity ::
  "libm \<Rightarrow> PMS5003_DataPacket \<Rightarrow> f32 \<Rightarrow> f32 \<Rightarrow> PMS5003_DataPacket option" where
  "PMS5003_CompensateHumidity lm d hum temp =
     (let kappa = f32_lit (1/4)
      in if hum \<le> f32_lit 10 then Some d
      else let pm10Comp = \<not> (hum \<le> f32_lit 50);
               pm10Comp = (if f32_lit 85 \<le> hum then False else pm10Comp)
      in if f32_lit 90 \<le> hum then Some d
      else let d10 = (if pm10Comp
                 then let rh = hum / f32_lit 100;
                          gf = powf lm (1 + kappa * (rh / (1 - rh))) (1 / f32_lit 3);
                          x = f32_of_int (uint (pm10 d)) / gf
                      in map_option (\<lambda>v. d\<lparr>pm10 := v\<rparr>) (f32_to_u16 (x + f32_lit (1/2)))
                 else Some d)
      in Option.bind d10 (\<lambda>d.
         Option.bind (f32_to_u16 (pms_linear (pm1 d) hum temp + f32_lit (1/2))) (\<lambda>v1.
         Option.bind (f32_to_u16 (pms_linear (pm2_5 d) hum temp + f32_lit (1/2))) (\<lambda>v2.
         Some (d\<lparr>pm1 := v1, pm2_5 := v2\<rparr>)))))"

definition PMS5003_ProcessDataHumidCompensation ::
  "libm \<Rightarrow> PMS5003_Config \<Rightarrow> PMS5003_DataPacket \<Rightarrow> f32 \<Rightarrow> f32 \<Rightarrow> PMS5003_DataPacket option" where
  "PMS5003_ProcessDataHumidCompensation lm config d hum temp =
     (if \<not> PMS5003_ValidatePacket config then Some d
      else PMS5003_CompensateHumidity lm (PMS5003_ProcessData config d) hum temp)"

text \<open>\<open>PMS5003_Read\<close>: starts the transfer and points \<open>rawData\<close> at the UART buffer.\<close>

definition PMS5003_Read :: "irq_state \<Rightarrow> UART_Config \<Rightarrow> PMS5003_Config \<Rightarrow> ((bool \<times> PMS5003_Config) \<times> irq_state) option" where
  "PMS5003_Read irq uart config =
     map_option (\<lambda>(irq, ev). ((True, config\<lparr>rawData := uart_data uart\<rparr>), irq)) (UART_ReadPacket irq)"

type_synonym PMS5003_Task = "(PMS5003_Config, PMS5003_DataPacket, unit) task_state"

text \<open>
  A round of \<open>vPMS5003_Task\<close>. \<open>dma\<close>: the bytes in the UART buffer when the semaphore was taken, \<open>None\<close>
  when that timed out after a second.
\<close>

definition PMS5003_round :: "irq_state \<Rightarrow> UART_Config \<Rightarrow> u8 list option \<Rightarrow> PMS5003_Task \<Rightarrow> (PMS5003_Task \<times> irq_state) option" where
  "PMS5003_round irq uart dma t =
     map_option (\<lambda>((ok, config), irq).
       (case dma of
          None \<Rightarrow> task_delay 2000 (t\<lparr>conf := config\<rparr>)
        | Some bytes \<Rightarrow>
            let config = config\<lparr>rawData := fill (unat (packetSize uart)) bytes (rawData config)\<rparr>;
                d = PMS5003_ProcessData config (packet t)
            in task_delay 2000 (send d (t\<lparr>conf := config, packet := d\<rparr>)), irq))
       (PMS5003_Read irq uart (conf t))"

definition hkPMS5003_JSON_BUFFER :: nat where "hkPMS5003_JSON_BUFFER = 64"

definition PMS5003_text :: "PMS5003_DataPacket \<Rightarrow> string" where
  "PMS5003_text d = ''{\"sensor\": \"pms5003\",\"pm1\": '' @ dec_digits (unat (pm1 d)) @ '',\"pm2_5\": '' @
     dec_digits (unat (pm2_5 d)) @ '',\"pm10\": '' @ dec_digits (unat (pm10 d)) @ ''}''"

definition PMS5003_Jsonify :: "PMS5003_DataPacket \<Rightarrow> string option" where
  "PMS5003_Jsonify d = jsonify_into hkPMS5003_JSON_BUFFER (PMS5003_text d)"

subsection \<open>Facts\<close>

lemma foldl_add_ucast: "foldl (\<lambda>c b. c + ucast b) (i :: u16) (xs :: u8 list) = i + sum_list (map ucast xs)"
  by (induction xs arbitrary: i) simp_all

lemma sum_list_change:
  "k < length xs \<Longrightarrow> sum_list ((xs :: 'a::ab_group_add list)[k := x]) = sum_list xs + (x - xs ! k)"
  by (induction xs arbitrary: k) (auto split: nat.splits simp: algebra_simps)

lemma pms_checksum_change:
  assumes "length raw = 32" "k < 30" "b \<noteq> raw ! k"
  shows "pms_checksum (raw[k := b]) \<noteq> pms_checksum raw"
proof -
  have "pms_checksum (raw[k := b]) = pms_checksum raw + (ucast b - ucast (raw ! k))"
    using assms by (simp add: pms_checksum_def PMS5003_PACKET_LENGTH_def foldl_add_ucast take_update_swap map_update sum_list_change)
  moreover have "ucast b \<noteq> (ucast (raw ! k) :: u16)"
  proof
    assume "ucast b = (ucast (raw ! k) :: u16)"
    then have "unat (ucast b :: u16) = unat (ucast (raw ! k) :: u16)" by simp
    with assms(3) show False by (simp add: unat_ucast_up word_unat_eq_iff)
  qed
  ultimately show ?thesis by simp
qed

lemma pms_checksum_tail: "30 \<le> k \<Longrightarrow> pms_checksum (raw[k := b]) = pms_checksum raw"
  by (simp add: pms_checksum_def PMS5003_PACKET_LENGTH_def take_update_cancel)

lemma length_PMS5003_text: "length (PMS5003_text d) \<le> 63"
  using length_dec_u16 [of "pm1 d"] length_dec_u16 [of "pm2_5 d"] length_dec_u16 [of "pm10 d"]
  by (simp add: PMS5003_text_def)

subsection \<open>Properties\<close>

definition pms_demo :: "u8 list" where
  "pms_demo = [0x42, 0x4D, 0, 28, 0, 5, 0, 9, 0, 12] @ replicate 20 0 @ [0, 0xC5]"

text \<open>A frame that passes validation stops passing when any one of its 32 bytes is changed, and then leaves the
  packet of readings untouched.\<close>

theorem PMS5003_detects_one_byte:
  assumes "length (rawData config) = 32" and "PMS5003_ValidatePacket config" and "k < 32" and "b \<noteq> rawData config ! k"
  shows "\<not> PMS5003_ValidatePacket (config\<lparr>rawData := (rawData config)[k := b]\<rparr>)
     \<and> PMS5003_ProcessData (config\<lparr>rawData := (rawData config)[k := b]\<rparr>) d = d"
proof -
  let ?raw = "rawData config"
  have ok: "?raw ! 0 = 0x42" "?raw ! 1 = 0x4D" "pms_checksum ?raw = word16 (?raw ! 30) (?raw ! 31)"
    using assms(2) by (auto simp: PMS5003_ValidatePacket_def Let_def split: if_splits)
  have "\<not> PMS5003_ValidatePacket (config\<lparr>rawData := ?raw[k := b]\<rparr>)"
  proof (cases "k < 30")
    case True
    with pms_checksum_change [OF assms(1) _ assms(4)] ok(3) show ?thesis
      by (auto simp: PMS5003_ValidatePacket_def Let_def)
  next
    case False
    with assms(3) have "k = 30 \<or> k = 31" by linarith
    with pms_checksum_tail [of k ?raw b] ok(3) assms(1,4) show ?thesis
      by (auto simp: PMS5003_ValidatePacket_def Let_def word16_inject)
  qed
  then show ?thesis by (simp add: PMS5003_ProcessData_def)
qed

theorem PMS5003_detects_one_byte_witness:
  "\<not> PMS5003_ValidatePacket \<lparr>rawData = pms_demo[7 := 8], status = 0\<rparr>"
proof -
  have "PMS5003_ValidatePacket \<lparr>rawData = pms_demo, status = 0\<rparr>" by code_simp
  then show ?thesis
    using PMS5003_detects_one_byte [of "\<lparr>rawData = pms_demo, status = 0\<rparr>" 7 8] by (simp add: pms_demo_def)
qed

text \<open>The JSON text of a PMS5003 packet always fits its 64-byte buffer whole: \<open>PMS5003_Jsonify\<close> never returns NULL and
  never cuts the text, for any readings.\<close>

theorem PMS5003_Jsonify_fits:
  "PMS5003_Jsonify d = Some (PMS5003_text d) \<and> length (PMS5003_text d) \<le> 63"
  using length_PMS5003_text [of d] by (simp add: PMS5003_Jsonify_def jsonify_into_complete hkPMS5003_JSON_BUFFER_def)

end
