(* ===== verification/SGP30.thy ===== *)
theory SGP30
  imports Task Packet Crc
begin

text \<open>
  The SGP30 gas sensor: include/sensors/sgp30/sgp30.h and src/sensors/sgp30/sgp30.c, with the
  humidity compensation that the configuration switches off.
\<close>

definition SGP30_INIT :: u8 where "SGP30_INIT = 0x03"
definition SGP30_START_MEASURE :: u8 where "SGP30_START_MEASURE = 0x08"
definition SGP30_SET_HUMIDITY :: u8 where "SGP30_SET_HUMIDITY = 0x61"
definition SGP30_READY :: u16 where "SGP30_READY = 0x2137"
definition SGP30_READ_IN_PROGRESS :: u16 where "SGP30_READ_IN_PROGRESS = 0x696"

record SGP30_Config =
  address :: u8
  status :: u16
  rawData :: "u8 list"
  eco2Baseline :: u16
  tvocBaseline :: u16

record SGP30_DataPacket =
  eco2 :: u16
  tvoc :: u16
  timestamp :: u32
  jsonify :: json_fn

definition SGP30_WriteCommand :: "'e i2c_env \<Rightarrow> u8 \<Rightarrow> SGP30_Config \<Rightarrow> 'e world \<Rightarrow> int \<times> 'e world" where
  "SGP30_WriteCommand env command config w =
     (let w = mutex_enter_blocking w;
          (st, w) = i2c_write env (address config) [0x20, command] False w
      in if st = PICO_ERROR_GENERIC then (st, mutex_exit w) else (c_true, mutex_exit w))"

definition SGP30_Init :: "'e i2c_env \<Rightarrow> SGP30_Config \<Rightarrow> 'e world \<Rightarrow> (int \<times> SGP30_Config) \<times> 'e world" where
  "SGP30_Init env config w =
     (let config = config\<lparr>rawData := replicate (length (rawData config)) 0\<rparr>;
          (st, w) = SGP30_WriteCommand env SGP30_INIT config w
      in ((st, config), w))"

definition SGP30_InitRead :: "'e i2c_env \<Rightarrow> SGP30_Config \<Rightarrow> 'e world \<Rightarrow> (int \<times> SGP30_Config) \<times> 'e world" where
  "SGP30_InitRead env config w =
     (if status config = SGP30_READ_IN_PROGRESS then ((0, config), w)
      else let config = config\<lparr>status := SGP30_READ_IN_PROGRESS\<rparr>;
               (st, w) = SGP30_WriteCommand env SGP30_START_MEASURE config w
           in ((0, config), w))"

definition SGP30_Read :: "'e i2c_env \<Rightarrow> SGP30_Config \<Rightarrow> 'e world \<Rightarrow> (int \<times> SGP30_Config) \<times> 'e world" where
  "SGP30_Read env config w =
     (let w = mutex_enter_blocking w;
          n = length (rawData config);
          ((st, bs), w) = i2c_read env (address config) n False w;
          config = config\<lparr>rawData := fill n bs (rawData config)\<rparr>
      in if st = PICO_ERROR_GENERIC then ((st, config), mutex_exit w)
      else ((c_true, config\<lparr>status := SGP30_READY\<rparr>), mutex_exit w))"

definition SGP30_ReadBlocking :: "'e i2c_env \<Rightarrow> SGP30_Config \<Rightarrow> 'e world \<Rightarrow> (int \<times> SGP30_Config) \<times> 'e world" where
  "SGP30_ReadBlocking env config w =
     (let ((st, config), w) = SGP30_InitRead env config w;
          w = delay_ms 15 w
      in SGP30_Read env config w)"

definition SGP30_ProcessData :: "SGP30_Config \<Rightarrow> SGP30_DataPacket \<Rightarrow> SGP30_DataPacket" where
  "SGP30_ProcessData config d =
     (let raw = rawData config;
          e = word16 (raw ! 0) (raw ! 1);
          t = word16 (raw ! 3) (raw ! 4)
      in if SGP30_CRC raw 2 \<noteq> raw ! 2 then d
         else if SGP30_CRC (drop 3 raw) 2 \<noteq> raw ! 5 then d
         else d\<lparr>eco2 := e, tvoc := t\<rparr>)"

text \<open>
  \<open>humid\<close>: the absolute humidity of the companion sensor's packet. Converting a value outside the
  range of \<open>u16\<close> is undefined, \<open>None\<close>.
\<close>

definition SGP30_CompensateHumidity :: "'e i2c_env \<Rightarrow> f32 \<Rightarrow> SGP30_Config \<Rightarrow> 'e world \<Rightarrow> (int \<times> 'e world) option" where
  "SGP30_CompensateHumidity env humid config w =
     (case f32_to_u16 (humid * f32_lit 256) of None \<Rightarrow> None
      | Some humidCompensation \<Rightarrow>
          let w = mutex_enter_blocking w;
              humidMSB = ucast (drop_bit 8 humidCompensation) :: u8;
              humidLSB = ucast humidCompensation;
              commands = [0x20, SGP30_SET_HUMIDITY, humidMSB, humidLSB, SGP30_CRC [humidMSB, humidLSB] 2];
              (st, w) = i2c_write env (address config) commands False w
          in if st = PICO_ERROR_GENERIC then Some (st, mutex_exit w) else Some (c_true, mutex_exit w))"

definition SGP30_InitReadHumidCompensation ::
  "'e i2c_env \<Rightarrow> f32 \<Rightarrow> SGP30_Config \<Rightarrow> 'e world \<Rightarrow> (SGP30_Config \<times> 'e world) option" where
  "SGP30_InitReadHumidCompensation env humid config w =
     (if status config = SGP30_READ_IN_PROGRESS then Some (config, w)
      else let config = config\<lparr>status := SGP30_READ_IN_PROGRESS\<rparr>
           in map_option (\<lambda>(st, w). (config, snd (SGP30_WriteCommand env SGP30_START_MEASURE config w)))
                (SGP30_CompensateHumidity env humid config w))"

definition SGP30_ReadBlockingHumidComp ::
  "'e i2c_env \<Rightarrow> f32 \<Rightarrow> SGP30_Config \<Rightarrow> 'e world \<Rightarrow> ((int \<times> SGP30_Config) \<times> 'e world) option" where
  "SGP30_ReadBlockingHumidComp env humid config w =
     map_option (\<lambda>(config, w). SGP30_Read env config (delay_ms 15 w))
       (SGP30_InitReadHumidCompensation env humid config w)"

definition hkSGP30_JSON_BUFFER :: nat where "hkSGP30_JSON_BUFFER = 64"

definition SGP30_Jsonify :: "SGP30_DataPacket \<Rightarrow> string option" where
  "SGP30_Jsonify d = jsonify_into hkSGP30_JSON_BUFFER
     (''{\"sensor\": \"sgp30\",\"co2\": '' @ dec_digits (unat (eco2 d)) @ '',\"tvoc\": '' @ dec_digits (unat (tvoc d)) @ ''}'')"

type_synonym 'e SGP30_Task = "(SGP30_Config, SGP30_DataPacket, 'e) task_state"

text \<open>A round of \<open>vSGP30_Task\<close> with \<open>hkSGP30_HUMID_COMPENSATION\<close> off, as configured.\<close>

definition SGP30_round :: "'e i2c_env \<Rightarrow> 'e SGP30_Task \<Rightarrow> 'e SGP30_Task" where
  "SGP30_round env t =
     (let t = snd (on_conf (SGP30_InitRead env) t);
          t = task_delay 15 t;
          t = snd (on_conf (SGP30_Read env) t)
      in if status (conf t) = SGP30_READY
         then let d = SGP30_ProcessData (conf t) (packet t)
              in task_delay 1000 (send d (t\<lparr>packet := d\<rparr>))
         else task_delay 1000 t)"

definition vSGP30_Task :: "'e i2c_env \<Rightarrow> nat \<Rightarrow> 'e SGP30_Task \<Rightarrow> 'e SGP30_Task option" where
  "vSGP30_Task env n = run_task (on_conf (SGP30_Init env)) 10000 100 (\<lambda>t. Some (SGP30_round env t)) n"

subsection \<open>Facts\<close>

lemma SGP30_WriteCommand_free:
  "lock_state w = Some False \<Longrightarrow> lock_state (snd (SGP30_WriteCommand env cmd config w)) = Some False"
  by (simp add: SGP30_WriteCommand_def Let_def case_prod_unfold bus_simps)

lemma SGP30_Init_free: "lock_state w = Some False \<Longrightarrow> lock_state (snd (SGP30_Init env config w)) = Some False"
  by (simp add: SGP30_Init_def Let_def case_prod_unfold SGP30_WriteCommand_free)

lemma SGP30_InitRead_free: "lock_state w = Some False \<Longrightarrow> lock_state (snd (SGP30_InitRead env config w)) = Some False"
  by (simp add: SGP30_InitRead_def Let_def case_prod_unfold SGP30_WriteCommand_free)

lemma SGP30_Read_free: "lock_state w = Some False \<Longrightarrow> lock_state (snd (SGP30_Read env config w)) = Some False"
  by (simp add: SGP30_Read_def Let_def case_prod_unfold bus_simps)

lemma SGP30_InitRead_conf: "status (snd (fst (SGP30_InitRead env config w))) = SGP30_READ_IN_PROGRESS"
  "rawData (snd (fst (SGP30_InitRead env config w))) = rawData config"
  by (simp_all add: SGP30_InitRead_def Let_def case_prod_unfold)

definition SGP30_before_read :: "'e i2c_env \<Rightarrow> 'e SGP30_Task \<Rightarrow> 'e SGP30_Task" where
  "SGP30_before_read env t = task_delay 15 (snd (on_conf (SGP30_InitRead env) t))"

lemma SGP30_Read_status:
  "status (snd (fst (SGP30_Read env config w))) =
     (if fst (fst (SGP30_Read env config w)) = 1 then SGP30_READY else status config)"
  "fst (fst (SGP30_Read env config w)) \<in> {1, - 1}"
  by (simp_all add: SGP30_Read_def Let_def case_prod_unfold)

lemma SGP30_round_sent:
  fixes env t
  defines "r \<equiv> SGP30_Read env (conf (SGP30_before_read env t)) (wld (SGP30_before_read env t))"
  shows "sent (SGP30_round env t) = (if fst (fst r) = 1 then sent t @ [SGP30_ProcessData (snd (fst r)) (packet t)] else sent t)"
proof -
  have ne: "SGP30_READ_IN_PROGRESS \<noteq> SGP30_READY" by (simp add: SGP30_READ_IN_PROGRESS_def SGP30_READY_def)
  show ?thesis
    using ne by (simp add: r_def SGP30_round_def SGP30_before_read_def Let_def case_prod_unfold task_simps
        SGP30_Read_status SGP30_InitRead_conf)
qed

lemma SGP30_round_wld:
  "wld (SGP30_round env t) = delay_ms 1000 (snd (SGP30_Read env (conf (SGP30_before_read env t)) (wld (SGP30_before_read env t))))"
  by (simp add: SGP30_round_def SGP30_before_read_def Let_def case_prod_unfold task_simps)

interpretation sgp30: sensor_task "on_conf (SGP30_Init env)" "\<lambda>t. Some (SGP30_round env t)"
proof unfold_locales
  fix t t' :: "'a SGP30_Task"
  show "task_free t \<Longrightarrow> task_free (snd (on_conf (SGP30_Init env) t))"
    by (simp add: task_free_def task_simps SGP30_Init_free)
  show "sent (snd (on_conf (SGP30_Init env) t)) = sent t"
    by (simp add: task_simps)
  assume "Some (SGP30_round env t) = Some t'"
  then have r: "t' = SGP30_round env t" by simp
  show "task_free t \<Longrightarrow> task_free t'"
    by (simp add: r task_free_def SGP30_round_wld SGP30_before_read_def task_simps bus_simps
        SGP30_Read_free SGP30_InitRead_free)
  show "\<exists>ps. sent t' = sent t @ ps \<and> length ps \<le> 1"
    by (simp add: r SGP30_round_sent)
qed

lemma SGP30_CRC_pair_inj: "SGP30_CRC [a, b] 2 = SGP30_CRC [c, d] 2 \<Longrightarrow> a = c \<Longrightarrow> b = d"
proof (rule ccontr)
  assume eq: "SGP30_CRC [a, b] 2 = SGP30_CRC [c, d] 2" "a = c" and ne: "b \<noteq> d"
  from msb.crc_one_byte [of 1 "[c, d]" b "0xFF"] ne eq show False by (simp add: SGP30_CRC_fold)
qed

subsection \<open>Properties\<close>

definition sgp_demo :: "unit SGP30_Task" where
  "sgp_demo = \<lparr>conf = \<lparr>address = 0x58, status = 0, rawData = replicate 6 0, eco2Baseline = 0, tvocBaseline = 0\<rparr>,
     packet = \<lparr>eco2 = 1, tvoc = 2, timestamp = 0, jsonify = JSON_SGP30\<rparr>, sent = [], wld = quiet_world\<rparr>"

text \<open>The two gas readings are taken over together or not at all: the packet changes only when both words of the
  frame carry their checksum, and a round whose transfer succeeded with a bad checksum sends the old values again.\<close>

theorem SGP30_reading_atomic:
  assumes "length (rawData (conf t)) = 6" and "length fr = 6"
  shows "sent (SGP30_round (answer_env fr) t) = sent t @
     [if SGP30_CRC fr 2 = fr ! 2 \<and> SGP30_CRC (drop 3 fr) 2 = fr ! 5
      then (packet t)\<lparr>eco2 := word16 (fr ! 0) (fr ! 1), tvoc := word16 (fr ! 3) (fr ! 4)\<rparr>
      else packet t]"
proof -
  let ?b = "SGP30_before_read (answer_env fr) t"
  have l: "length (rawData (conf ?b)) = 6"
    using assms(1) by (simp add: SGP30_before_read_def task_simps SGP30_InitRead_conf)
  then have "fst (fst (SGP30_Read (answer_env fr) (conf ?b) (wld ?b))) = 1"
    "rawData (snd (fst (SGP30_Read (answer_env fr) (conf ?b) (wld ?b)))) = fr"
    using assms(2) by (simp_all add: SGP30_Read_def Let_def case_prod_unfold bus_simps fill_all)
  then show ?thesis by (simp add: SGP30_round_sent SGP30_ProcessData_def)
qed

theorem SGP30_reading_atomic_witness:
  "sent (SGP30_round (answer_env [0x01, 0x90, 0x4C, 0x00, 0x05, 0x00]) sgp_demo) = [packet sgp_demo]"
proof -
  have "SGP30_CRC (drop 3 [0x01, 0x90, 0x4C, 0x00, 0x05, 0x00]) 2 \<noteq> 0" by code_simp
  then show ?thesis
    using SGP30_reading_atomic [of sgp_demo "[0x01, 0x90, 0x4C, 0x00, 0x05, 0x00]"] by (simp add: sgp_demo_def)
qed

text \<open>The humidity the driver writes for compensation carries the checksum the sensor computes over it: the word
  sent is the absolute humidity in 8.8 fixed point, most significant byte first, and appending its checksum
  leaves a zero CRC remainder. When the value does not fit 16 bits the conversion is undefined.\<close>

theorem SGP30_humidity_word_protected:
  assumes "SGP30_CompensateHumidity env humid config w = Some (st, w')"
  shows "\<exists>h m l c. f32_to_u16 (humid * f32_lit 256) = Some h \<and> h = word16 m l
     \<and> crc_fold msb_step 0xFF [m, l, c] = 0
     \<and> blog w' = blog w @ [Mutex_Enter, I2C_Write (address config) [0x20, SGP30_SET_HUMIDITY, m, l, c] False, Mutex_Exit]"
proof -
  obtain h where h: "f32_to_u16 (humid * f32_lit 256) = Some h"
    using assms by (auto simp: SGP30_CompensateHumidity_def split: option.splits)
  let ?m = "ucast (drop_bit 8 h) :: u8" and ?l = "ucast h :: u8"
  have "h = word16 ?m ?l"
    unfolding word16_def by (rule bit_word_eqI) (auto simp: bit_simps possible_bit_def)
  moreover have "crc_fold msb_step 0xFF ([?m, ?l] @ [SGP30_CRC [?m, ?l] 2]) = 0"
    by (simp only: msb.crc_residue) (simp add: SGP30_CRC_fold)
  moreover have "blog w' = blog w @ [Mutex_Enter, I2C_Write (address config) [0x20, SGP30_SET_HUMIDITY, ?m, ?l, SGP30_CRC [?m, ?l] 2] False, Mutex_Exit]"
    using assms h by (auto simp: SGP30_CompensateHumidity_def Let_def case_prod_unfold bus_simps split: if_splits)
  ultimately show ?thesis using h by auto
qed

theorem SGP30_humidity_word_protected_witness:
  "\<exists>st w'. SGP30_CompensateHumidity (answer_env []) (Num 8) (conf sgp_demo) quiet_world = Some (st, w')
     \<and> (\<exists>h m l c. f32_to_u16 (Num 8 * f32_lit 256) = Some h \<and> h = word16 m l \<and> crc_fold msb_step 0xFF [m, l, c] = 0)"
proof -
  have "f32_to_u16 (Num 8 * f32_lit 256) = Some 2048" by code_simp
  then have "SGP30_CompensateHumidity (answer_env []) (Num 8) (conf sgp_demo) quiet_world \<noteq> None"
    by (simp add: SGP30_CompensateHumidity_def Let_def case_prod_unfold)
  then obtain st w' where r: "SGP30_CompensateHumidity (answer_env []) (Num 8) (conf sgp_demo) quiet_world = Some (st, w')" by auto
  show ?thesis using SGP30_humidity_word_protected [OF r] r by blast
qed

end
