(* ===== verification/Process.thy ===== *)
theory Process
  imports BME280 DHT DS18B20 PMS5003 SGP30
begin

text \<open>
  The snapshot of all sensors (include/sensors/sensors.h) and its processing (src/process.c): the
  weighted averages over the sensors of a kind. An array argument is the memory from its first
  element on: the array's elements and, where the code can read further, what lies behind it on
  the stack, a parameter. \<open>None\<close> is a read beyond that.
\<close>

record Average_DataPacket =
  avg_value :: f32
  weight :: u8

record Sensors_DataPacket =
  dht_0 :: DHT_DataPacket
  dht_1 :: DHT_DataPacket
  dht_2 :: DHT_DataPacket
  dht_3 :: DHT_DataPacket
  dht_avg :: DHT_DataPacket
  bme280_0 :: BME280_DataPacket
  bme280_1 :: BME280_DataPacket
  bme280_avg :: BME280_DataPacket
  ds18b20_0 :: DS18B20_DataPacket
  pms5003_0 :: PMS5003_DataPacket
  sgp30_0 :: SGP30_DataPacket
  temperature :: f32
  dewPoint :: f32
  relativeHumidity :: f32
  absoluteHumidity :: f32
  pressure :: f32
  timestamp :: u32

text \<open>\<open>{0}\<close>\<close>

definition sensors_zero :: Sensors_DataPacket where
  "sensors_zero =
     \<lparr>dht_0 = DHT_zero, dht_1 = DHT_zero, dht_2 = DHT_zero, dht_3 = DHT_zero, dht_avg = DHT_zero,
      bme280_0 = BME280_zero, bme280_1 = BME280_zero, bme280_avg = BME280_zero,
      ds18b20_0 = \<lparr>DS18B20_DataPacket.temperature = 0, paddress = 0, status = 0, timestamp = 0, jsonify = JSON_NULL\<rparr>,
      pms5003_0 = \<lparr>pm1 = 0, pm2_5 = 0, pm10 = 0, timestamp = 0, jsonify = JSON_NULL\<rparr>,
      sgp30_0 = \<lparr>eco2 = 0, tvoc = 0, timestamp = 0, jsonify = JSON_NULL\<rparr>,
      temperature = 0, dewPoint = 0, relativeHumidity = 0, absoluteHumidity = 0, pressure = 0, timestamp = 0\<rparr>"

subsection \<open>Weighted averages\<close>

text \<open>\<open>None\<close> for the pointer is NULL. The divider is a \<open>u16\<close>.\<close>

definition hkWeightedAverage :: "Average_DataPacket list option \<Rightarrow> nat \<Rightarrow> f32 option" where
  "hkWeightedAverage arr len =
     (case arr of None \<Rightarrow> Some (f32_lit (- 1))
      | Some arr \<Rightarrow>
          if len \<le> 1 then (case arr of [] \<Rightarrow> None | d # _ \<Rightarrow> Some (avg_value d))
          else if length arr < len then None
          else let (s, divider) = foldl (\<lambda>(s, v) d. (s + avg_value d * f32_of_int (uint (weight d)), v + ucast (weight d)))
                                        (0, 0 :: u16) (take len arr)
               in Some (s / f32_of_int (uint divider)))"

definition avg :: "f32 \<Rightarrow> u8 \<Rightarrow> Average_DataPacket" where
  "avg v w = \<lparr>avg_value = v, weight = w\<rparr>"

definition temparatureAverage :: "Sensors_DataPacket \<Rightarrow> Average_DataPacket list" where
  "temparatureAverage p =
     [avg (BME280_DataPacket.temperature (bme280_0 p)) 10, avg (BME280_DataPacket.temperature (bme280_1 p)) 10,
      avg (DS18B20_DataPacket.temperature (ds18b20_0 p)) 10,
      avg (DHT_DataPacket.temperature (dht_0 p)) 9, avg (DHT_DataPacket.temperature (dht_1 p)) 9,
      avg (DHT_DataPacket.temperature (dht_2 p)) 2, avg (DHT_DataPacket.temperature (dht_3 p)) 7]"

definition dewPointAverage :: "Sensors_DataPacket \<Rightarrow> Average_DataPacket list" where
  "dewPointAverage p =
     [avg (BME280_DataPacket.dewPoint (bme280_0 p)) 10, avg (BME280_DataPacket.dewPoint (bme280_1 p)) 10,
      avg (DHT_DataPacket.dewPoint (dht_0 p)) 9, avg (DHT_DataPacket.dewPoint (dht_1 p)) 9,
      avg (DHT_DataPacket.dewPoint (dht_2 p)) 2, avg (DHT_DataPacket.dewPoint (dht_3 p)) 7]"

definition relativeHumidityAverage :: "Sensors_DataPacket \<Rightarrow> Average_DataPacket list" where
  "relativeHumidityAverage p =
     [avg (BME280_DataPacket.humidity (bme280_0 p)) 10, avg (BME280_DataPacket.humidity (bme280_1 p)) 10,
      avg (DHT_DataPacket.humidity (dht_0 p)) 9, avg (DHT_DataPacket.humidity (dht_1 p)) 9,
      avg (DHT_DataPacket.humidity (dht_2 p)) 2, avg (DHT_DataPacket.humidity (dht_3 p)) 7]"

definition absoluteHumidityAverage :: "Sensors_DataPacket \<Rightarrow> Average_DataPacket list" where
  "absoluteHumidityAverage p =
     [avg (BME280_DataPacket.absoluteHumidity (bme280_0 p)) 10, avg (BME280_DataPacket.absoluteHumidity (bme280_1 p)) 10,
      avg (DHT_DataPacket.absoluteHumidity (dht_0 p)) 9, avg (DHT_DataPacket.absoluteHumidity (dht_1 p)) 9,
      avg (DHT_DataPacket.absoluteHumidity (dht_2 p)) 2, avg (DHT_DataPacket.absoluteHumidity (dht_3 p)) 7]"

definition pressureAverage :: "Sensors_DataPacket \<Rightarrow> Average_DataPacket list" where
  "pressureAverage p =
     [avg (BME280_DataPacket.pressure (bme280_0 p)) 8, avg (BME280_DataPacket.pressure (bme280_1 p)) 8]"

text \<open>
  One snapshot. \<open>behind\<close> is what follows \<open>dewPointAverage\<close> in memory: the dew point is averaged with
  the length of the temperature array, one more than the array has.
\<close>

definition process_snapshot :: "libm \<Rightarrow> Average_DataPacket list \<Rightarrow> Sensors_DataPacket \<Rightarrow> Sensors_DataPacket option" where
  "process_snapshot lm behind p =
     (let temparatureAverageLength = length (temparatureAverage p);
          relativeHumidityAverageLength = length (relativeHumidityAverage p);
          pressureAverageLength = length (pressureAverage p)
      in Option.bind (hkWeightedAverage (Some (temparatureAverage p)) temparatureAverageLength) (\<lambda>t.
         Option.bind (hkWeightedAverage (Some (dewPointAverage p @ behind)) temparatureAverageLength) (\<lambda>dp.
         Option.bind (hkWeightedAverage (Some (relativeHumidityAverage p)) relativeHumidityAverageLength) (\<lambda>rh.
         Option.bind (hkWeightedAverage (Some (absoluteHumidityAverage p)) relativeHumidityAverageLength) (\<lambda>ah.
         Option.bind (hkWeightedAverage (Some (pressureAverage p)) pressureAverageLength) (\<lambda>pr.
         Some (p\<lparr>bme280_avg := BME280_AverageData lm [bme280_0 p, bme280_1 p] 2,
                 dht_avg := DHT_AverageData lm [dht_0 p, dht_1 p] 2,
                 temperature := t, dewPoint := dp, relativeHumidity := rh, absoluteHumidity := ah, pressure := pr\<rparr>)))))))"

subsection \<open>Averages stay between the readings\<close>

abbreviation accumulate :: "f32 \<times> u16 \<Rightarrow> Average_DataPacket \<Rightarrow> f32 \<times> u16" where
  "accumulate \<equiv> \<lambda>(s, v) d. (s + avg_value d * f32_of_int (uint (weight d)), v + ucast (weight d))"

definition weights :: "Average_DataPacket list \<Rightarrow> int" where
  "weights ds = sum_list (map (\<lambda>d. uint (weight d)) ds)"

lemma weights_simps [simp]: "weights [] = 0" "weights (d # ds) = uint (weight d) + weights ds"
  by (simp_all add: weights_def)

lemma weights_nonneg: "0 \<le> weights ds"
  by (induction ds) auto

text \<open>\<open>M\<close> bounds the sizes of the readings, \<open>v\<close> is the weight summed up so far.\<close>

lemma accumulate_in_range:
  assumes "\<forall>d \<in> set ds. in_range lo hi (avg_value d) \<and> 0 < uint (weight d)"
    and "in_range (lo * uint v) (hi * uint v) s"
    and "uint v + weights ds < 2 ^ 16" "\<bar>lo\<bar> \<le> M" "\<bar>hi\<bar> \<le> M" "M * (uint v + weights ds) < 2 ^ 23"
    and "foldl accumulate (s, v) ds = (s', v')"
  shows "in_range (lo * uint v') (hi * uint v') s' \<and> uint v' = uint v + weights ds"
  using assms
proof (induction ds arbitrary: s v)
  case (Cons d ds)
  let ?w = "uint (weight d)" and ?v = "v + ucast (weight d) :: u16"
  have w: "0 < ?w" and ws: "0 \<le> weights ds" and M: "0 \<le> M"
    using Cons.prems(1,4) weights_nonneg by (auto intro: order_trans)
  have small: "\<bar>k * n\<bar> < 2 ^ 23" if "\<bar>k\<bar> \<le> M" "0 \<le> n" "n \<le> uint v + weights (d # ds)" for k n
  proof -
    have "\<bar>k * n\<bar> \<le> M * n" using that(1,2) by (simp add: abs_mult mult_right_mono)
    also have "\<dots> \<le> M * (uint v + weights (d # ds))" using that(3) M by (rule mult_left_mono)
    finally show ?thesis using Cons.prems(6) by linarith
  qed
  have "uint (ucast (weight d) :: u16) = ?w" by (simp add: unsigned_ucast_eq take_bit_int_eq_self less_trans [OF unsigned_less])
  moreover have "uint v + ?w < 2 ^ 16" using Cons.prems(3) ws by simp
  ultimately have v: "uint ?v = uint v + ?w" by (simp add: uint_word_ariths)
  have w16: "?w < 2 ^ 16" using Cons.prems(3) ws uint_ge_0 [of v] unfolding weights_simps by linarith
  have "in_range (lo * ?w) (hi * ?w) (avg_value d * f32_of_int ?w)"
    using Cons.prems(1,4,5) w ws w16 by (intro in_range_times small) auto
  then have "in_range (lo * uint v + lo * ?w) (hi * uint v + hi * ?w) (s + avg_value d * f32_of_int ?w)"
    using Cons.prems(2,4,5) small [of lo "uint v + ?w"] small [of hi "uint v + ?w"] w ws
    by (intro in_range_plus) (simp_all add: algebra_simps)
  then have "in_range (lo * uint ?v) (hi * uint ?v) (s + avg_value d * f32_of_int ?w)"
    by (simp add: v algebra_simps)
  then have "in_range (lo * uint v') (hi * uint v') s' \<and> uint v' = uint ?v + weights ds"
    by (rule Cons.IH [rotated]) (use Cons.prems v in \<open>simp_all add: add.assoc\<close>)
  then show ?case by (metis v weights_simps(2) add.assoc)
qed simp

lemma average_in_range:
  assumes "\<forall>d \<in> set ds. in_range lo hi (avg_value d) \<and> 0 < uint (weight d)"
    and "weights ds < 2 ^ 16" "\<bar>lo\<bar> \<le> M" "\<bar>hi\<bar> \<le> M" "M * weights ds < 2 ^ 23" "1 < length ds"
  shows "\<exists>x. hkWeightedAverage (Some ds) (length ds) = Some x \<and> in_range lo hi x"
proof -
  obtain s v where f: "foldl accumulate (0, 0) ds = (s, v)" by fastforce
  have z: "in_range (lo * uint (0 :: u16)) (hi * uint (0 :: u16)) 0" by (simp add: in_range_def zero_f32_def)
  have *: "in_range (lo * uint v) (hi * uint v) s \<and> uint v = weights ds"
    by (rule accumulate_in_range [OF assms(1) z _ assms(3,4) _ f, simplified]) (use assms(2,5) in simp_all)
  obtain d ds' where ds: "ds = d # ds'" using assms(6) by (cases ds) auto
  then have pos: "0 < weights ds" using assms(1) weights_nonneg [of ds'] by simp
  moreover have "0 \<le> M" using assms(3) by linarith
  ultimately have "M * 1 \<le> M * weights ds" by (intro mult_left_mono) simp_all
  then have M: "M < 2 ^ 23" using assms(5) by linarith
  have "in_range lo hi (s / f32_of_int (uint v))"
    by (rule in_range_divide [OF conjunct1 [OF *]]) (use * pos assms(2-4) M in auto)
  moreover have "hkWeightedAverage (Some ds) (length ds) = Some (s / f32_of_int (uint v))"
    using f assms(6) by (simp add: hkWeightedAverage_def)
  ultimately show ?thesis by blast
qed

text \<open>NaN in, NaN out.\<close>

lemma f32_NaN [simp]: "x + NaN = NaN" "NaN * x = NaN"
  by (cases x; simp)+

lemma f32_NaN_divide: "NaN / (x :: f32) = NaN"
  by (cases x) simp_all

lemma average_lengths [simp]:
  "length (temparatureAverage p) = 7" "length (dewPointAverage p) = 6" "length (relativeHumidityAverage p) = 6"
  "length (absoluteHumidityAverage p) = 6" "length (pressureAverage p) = 2"
  by (simp_all add: temparatureAverage_def dewPointAverage_def relativeHumidityAverage_def absoluteHumidityAverage_def pressureAverage_def)

text \<open>The averages as they stand in a processed snapshot.\<close>

lemma process_snapshot_fields:
  assumes "process_snapshot lm behind p = Some q"
  shows "hkWeightedAverage (Some (temparatureAverage p)) 7 = Some (temperature q)"
    "hkWeightedAverage (Some (dewPointAverage p @ behind)) 7 = Some (dewPoint q)"
    "hkWeightedAverage (Some (relativeHumidityAverage p)) 6 = Some (relativeHumidity q)"
    "hkWeightedAverage (Some (absoluteHumidityAverage p)) 6 = Some (absoluteHumidity q)"
    "hkWeightedAverage (Some (pressureAverage p)) 2 = Some (pressure q)"
    "q = p\<lparr>bme280_avg := BME280_AverageData lm [bme280_0 p, bme280_1 p] 2, dht_avg := DHT_AverageData lm [dht_0 p, dht_1 p] 2,
            temperature := temperature q, dewPoint := dewPoint q, relativeHumidity := relativeHumidity q,
            absoluteHumidity := absoluteHumidity q, pressure := pressure q\<rparr>"
  using assms
  by (auto simp: process_snapshot_def Let_def bind_eq_Some_conv)

lemma average_defined: "1 < n \<Longrightarrow> n \<le> length ds \<Longrightarrow> \<exists>x. hkWeightedAverage (Some ds) n = Some x"
  by (simp add: hkWeightedAverage_def split: prod.split)

lemma process_snapshot_defined:
  "behind \<noteq> [] \<Longrightarrow> \<exists>q. process_snapshot lm behind p = Some q"
proof -
  assume "behind \<noteq> []"
  then have b: "1 \<le> length behind" by (cases behind) auto
  obtain a b c d e where "hkWeightedAverage (Some (temparatureAverage p)) 7 = Some a"
    "hkWeightedAverage (Some (dewPointAverage p @ behind)) 7 = Some b"
    "hkWeightedAverage (Some (relativeHumidityAverage p)) 6 = Some c"
    "hkWeightedAverage (Some (absoluteHumidityAverage p)) 6 = Some d"
    "hkWeightedAverage (Some (pressureAverage p)) 2 = Some e"
    using b average_defined [of 7 "temparatureAverage p"] average_defined [of 7 "dewPointAverage p @ behind"]
      average_defined [of 6 "relativeHumidityAverage p"] average_defined [of 6 "absoluteHumidityAverage p"]
      average_defined [of 2 "pressureAverage p"]
    by auto
  then show ?thesis by (simp add: process_snapshot_def Let_def)
qed

subsection \<open>Properties\<close>

text \<open>The published temperature lies between the readings it is averaged from, with every rounding of the
  single-precision sum and division counted: if all seven readings are between two whole numbers of at most 100000,
  so is the average; the same for relative humidity.\<close>

theorem DataProcess_averages_between:
  assumes "behind \<noteq> []" and "\<bar>lo\<bar> \<le> 100000" "\<bar>hi\<bar> \<le> 100000" "\<bar>rlo\<bar> \<le> 100000" "\<bar>rhi\<bar> \<le> 100000"
    and "\<forall>d \<in> set (temparatureAverage p). in_range lo hi (avg_value d)"
    and "\<forall>d \<in> set (relativeHumidityAverage p). in_range rlo rhi (avg_value d)"
  shows "\<exists>q. process_snapshot lm behind p = Some q \<and> in_range lo hi (temperature q) \<and> in_range rlo rhi (relativeHumidity q)"
proof -
  obtain q where q: "process_snapshot lm behind p = Some q" using process_snapshot_defined [OF assms(1)] by blast
  have t: "weights (temparatureAverage p) = 57" "\<forall>d \<in> set (temparatureAverage p). 0 < uint (weight d)"
    by (simp_all add: temparatureAverage_def avg_def)
  have r: "weights (relativeHumidityAverage p) = 47" "\<forall>d \<in> set (relativeHumidityAverage p). 0 < uint (weight d)"
    by (simp_all add: relativeHumidityAverage_def avg_def)
  show ?thesis
    using average_in_range [of "temparatureAverage p" lo hi 100000] average_in_range [of "relativeHumidityAverage p" rlo rhi 100000]
      t r assms(2-7) process_snapshot_fields(1,3) [OF q] q by auto
qed

definition warm :: Sensors_DataPacket where
  "warm = sensors_zero\<lparr>bme280_0 := BME280_zero\<lparr>BME280_DataPacket.temperature := Num 20\<rparr>,
                       dht_3 := DHT_zero\<lparr>DHT_DataPacket.humidity := Num 50\<rparr>\<rparr>"

theorem DataProcess_averages_between_witness:
  "\<exists>q. process_snapshot id_libm [avg 0 0] warm = Some q \<and> in_range 0 20 (temperature q) \<and> in_range 0 50 (relativeHumidity q)"
proof -
  have "\<forall>d \<in> set (temparatureAverage warm). in_range 0 20 (avg_value d)"
    "\<forall>d \<in> set (relativeHumidityAverage warm). in_range 0 50 (avg_value d)"
    by (auto simp: temparatureAverage_def relativeHumidityAverage_def warm_def sensors_zero_def avg_def in_range_def
        BME280_zero_def DHT_zero_def zero_f32_def)
  from DataProcess_averages_between [OF _ _ _ _ _ this] show ?thesis by simp
qed

text \<open>The published dew point depends on memory that belongs to no reading: it is averaged over seven elements of an array of
  six. For every snapshot there is a content of the memory behind the array that makes it NaN, whatever the
  sensors measured, while all other fields are the same for every content.\<close>

theorem DataProcess_dewPoint_overread:
  assumes "process_snapshot lm behind p = Some q" and "process_snapshot lm (avg NaN w # rest) p = Some r"
  shows "dewPoint r = NaN \<and> q = r\<lparr>dewPoint := dewPoint q\<rparr>"
proof -
  note f = process_snapshot_fields [OF assms(1)] and g = process_snapshot_fields [OF assms(2)]
  have "dewPointAverage p @ avg NaN w # rest = (dewPointAverage p @ [avg NaN w]) @ rest" by simp
  moreover have "length (dewPointAverage p @ [avg NaN w]) = 7" by simp
  ultimately have t: "take 7 (dewPointAverage p @ avg NaN w # rest) = dewPointAverage p @ [avg NaN w]"
    by (simp add: take_append)
  have "7 \<le> length (dewPointAverage p @ avg NaN w # rest)" by simp
  with g(2) t have "dewPoint r = NaN"
    by (simp add: hkWeightedAverage_def avg_def f32_NaN_divide split: prod.splits)
  moreover have "temperature q = temperature r" "relativeHumidity q = relativeHumidity r"
    "absoluteHumidity q = absoluteHumidity r" "pressure q = pressure r"
    using f(1,3-5) g(1,3-5) by simp_all
  ultimately show ?thesis by (subst f(6), subst g(6)) simp
qed

theorem DataProcess_dewPoint_overread_witness:
  "\<exists>q r. process_snapshot id_libm [avg 0 0] warm = Some q \<and> process_snapshot id_libm [avg NaN 1] warm = Some r \<and> dewPoint r = NaN"
  using process_snapshot_defined [of "[avg 0 0]" id_libm warm] process_snapshot_defined [of "[avg NaN 1]" id_libm warm]
    DataProcess_dewPoint_overread by blast

end
