(* ===== verification/Rtos.thy ===== *)
theory Rtos
  imports Process
begin

text \<open>
  The kernel objects the tasks of the data pipeline share (the globals of src/main.c, declared in
  include/sensors/sensors.h): one queue per sensor, all members of one queue set, and the queues
  between the tasks. FreeRTOS is not part of the sources: its calls are the parameter \<open>rtos\<close>, on a
  kernel state of any type, and the locale \<open>freertos\<close> states what its manual documents for queues
  that \<open>xQueueCreate(1, ...)\<close> made and for calls that do not wait. A call that waits for ever is
  modelled by the task staying where it is.
\<close>

named_theorems rtos_simps \<open>what a kernel call does to the queues\<close>

datatype sensor =
    BME280_0 | BME280_1 | DHT20_0 | DHT20_1 | DHT11_0 | DHT22_0 | SGP30_0 | DS18B20_0 | PMS5003_0

datatype reading =
    BME280_Reading BME280_DataPacket
  | DHT_Reading DHT_DataPacket
  | SGP30_Reading SGP30_DataPacket
  | DS18B20_Reading DS18B20_DataPacket
  | PMS5003_Reading PMS5003_DataPacket

datatype queue_handle = xDataQueue sensor | xSnapshotQueue | xMQTTQueue | xDisplayQueue

datatype item = Reading reading | Snapshot Sensors_DataPacket

text \<open>The calls, with the timeout 0 of the sources: the result and the kernel afterwards.\<close>

record 'k rtos =
  xQueueSend :: "queue_handle \<Rightarrow> item \<Rightarrow> 'k \<Rightarrow> bool \<times> 'k"
  xQueueReceive :: "queue_handle \<Rightarrow> 'k \<Rightarrow> item option \<times> 'k"
  xQueueSelectFromSet :: "'k \<Rightarrow> sensor option \<times> 'k"

text \<open>
  \<open>content\<close> reads a queue, \<open>ready\<close> the handles waiting in the queue set, oldest first: a send to a
  member queue posts its handle, a receive from the member does not take it out again.
\<close>

fun posted :: "queue_handle \<Rightarrow> sensor list" where
  "posted (xDataQueue x) = [x]"
| "posted _ = []"

locale freertos =
  fixes os :: "'k rtos"
    and content :: "'k \<Rightarrow> queue_handle \<Rightarrow> item option"
    and ready :: "'k \<Rightarrow> sensor list"
  assumes send_empty: "content k q = None \<Longrightarrow> xQueueSend os q x k = (ok, k') \<Longrightarrow>
      ok \<and> content k' = (content k)(q := Some x) \<and> ready k' = ready k @ posted q"
    and send_full: "content k q = Some y \<Longrightarrow> xQueueSend os q x k = (ok, k') \<Longrightarrow>
      \<not> ok \<and> content k' = content k \<and> ready k' = ready k"
    and receive: "xQueueReceive os q k = (r, k') \<Longrightarrow>
      r = content k q \<and> content k' = (content k)(q := None) \<and> ready k' = ready k"
    and select: "xQueueSelectFromSet os k = (m, k') \<Longrightarrow>
      content k' = content k \<and> m = (case ready k of [] \<Rightarrow> None | x # xs \<Rightarrow> Some x) \<and> ready k' = tl (ready k)"
begin

lemma send_content:
  "xQueueSend os q x k = (r, k') \<Longrightarrow> content k' = (case content k q of None \<Rightarrow> (content k)(q := Some x) | Some y \<Rightarrow> content k)"
  using send_empty [of k q x r k'] send_full [of k q _ x r k'] by (cases "content k q") simp_all

lemma send_ready:
  "xQueueSend os q x k = (r, k') \<Longrightarrow> ready k' = ready k @ (if content k q = None then posted q else [])"
  using send_empty [of k q x r k'] send_full [of k q _ x r k'] by (cases "content k q") simp_all

lemmas receive_content = receive [THEN conjunct1] receive [THEN conjunct2, THEN conjunct1]
lemmas receive_ready = receive [THEN conjunct2, THEN conjunct2]
lemmas select_content = select [THEN conjunct1]
lemmas select_ready = select [THEN conjunct2]

end

text \<open>A kernel that keeps the queues as a function and the set as a list.\<close>

type_synonym list_kernel = "(queue_handle \<Rightarrow> item option) \<times> sensor list"

definition list_os :: "list_kernel rtos" where
  "list_os =
     \<lparr>xQueueSend = (\<lambda>q x (qs, rs). case qs q of None \<Rightarrow> (True, (qs(q := Some x), rs @ posted q)) | Some y \<Rightarrow> (False, (qs, rs))),
      xQueueReceive = (\<lambda>q (qs, rs). (qs q, (qs(q := None), rs))),
      xQueueSelectFromSet = (\<lambda>(qs, rs). (case rs of [] \<Rightarrow> (None, (qs, rs)) | x # xs \<Rightarrow> (Some x, (qs, xs))))\<rparr>"

interpretation list_os: freertos list_os fst snd
  by unfold_locales (auto simp: list_os_def split: option.splits list.splits prod.splits)

text \<open>The sensors a task can send for.\<close>

fun matches :: "sensor \<Rightarrow> reading \<Rightarrow> bool" where
  "matches x (BME280_Reading _) \<longleftrightarrow> x = BME280_0 \<or> x = BME280_1"
| "matches x (DHT_Reading _) \<longleftrightarrow> x \<in> {DHT20_0, DHT20_1, DHT11_0, DHT22_0}"
| "matches x (SGP30_Reading _) \<longleftrightarrow> x = SGP30_0"
| "matches x (DS18B20_Reading _) \<longleftrightarrow> x = DS18B20_0"
| "matches x (PMS5003_Reading _) \<longleftrightarrow> x = PMS5003_0"

end
