(* ===== verification/Pipeline.thy ===== *)
theory Pipeline
  imports Rtos Core "HOL-Library.Sublist"
begin

text \<open>
  The data pipeline (src/collect.c, src/process.c, src/display.c, src/send.c): the collector stores
  each sensor packet into its snapshot and every two seconds posts the snapshot to the processing
  and to the MQTT task; the processing task adds the averages and posts the result to the display
  and to the MQTT task. Each task is a function that makes one kernel call per step, so that the
  relation \<open>step\<close> has every interleaving the scheduler can choose; time is any tick count at each
  step. A pointer call through NULL and a packet of another type in a queue are the pc \<open>..._Fault\<close>.
\<close>

subsection \<open>Collecting (src/collect.c)\<close>

datatype collect_pc =
    C_Select | C_Receive sensor | C_Time | C_Snapshot | C_MQTT | C_Stamp | C_Fault

record collect_task =
  c_pc :: collect_pc
  c_packet :: Sensors_DataPacket
  xLastSendTime :: u32

definition xSendInterval :: u32 where "xSendInterval = 2000"

text \<open>Receiving into a packet of the snapshot; \<open>None\<close> when the queue holds an item of another type.\<close>

definition store_bme :: "(BME280_DataPacket \<Rightarrow> 's) \<Rightarrow> item \<Rightarrow> 's option" where
  "store_bme f i = (case i of Reading (BME280_Reading p) \<Rightarrow> Some (f p) | _ \<Rightarrow> None)"

definition store_dht :: "(DHT_DataPacket \<Rightarrow> 's) \<Rightarrow> item \<Rightarrow> 's option" where
  "store_dht f i = (case i of Reading (DHT_Reading p) \<Rightarrow> Some (f p) | _ \<Rightarrow> None)"

definition collect_store :: "sensor \<Rightarrow> item \<Rightarrow> Sensors_DataPacket \<Rightarrow> Sensors_DataPacket option" where
  "collect_store x i s =
     (case x of
        BME280_0 \<Rightarrow> store_bme (\<lambda>p. s\<lparr>bme280_0 := p\<rparr>) i
      | BME280_1 \<Rightarrow> store_bme (\<lambda>p. s\<lparr>bme280_1 := p\<rparr>) i
      | DHT20_0 \<Rightarrow> store_dht (\<lambda>p. s\<lparr>dht_0 := p\<rparr>) i
      | DHT20_1 \<Rightarrow> store_dht (\<lambda>p. s\<lparr>dht_1 := p\<rparr>) i
      | DHT11_0 \<Rightarrow> store_dht (\<lambda>p. s\<lparr>dht_2 := p\<rparr>) i
      | DHT22_0 \<Rightarrow> store_dht (\<lambda>p. s\<lparr>dht_3 := p\<rparr>) i
      | SGP30_0 \<Rightarrow> (case i of Reading (SGP30_Reading p) \<Rightarrow> Some (s\<lparr>sgp30_0 := p\<rparr>) | _ \<Rightarrow> None)
      | PMS5003_0 \<Rightarrow> (case i of Reading (PMS5003_Reading p) \<Rightarrow> Some (s\<lparr>pms5003_0 := p\<rparr>) | _ \<Rightarrow> None)
      | DS18B20_0 \<Rightarrow> (case i of Reading (DS18B20_Reading p) \<Rightarrow> Some (s\<lparr>ds18b20_0 := p\<rparr>) | _ \<Rightarrow> None))"

definition collect_step :: "'k rtos \<Rightarrow> u32 \<Rightarrow> 'k \<Rightarrow> collect_task \<Rightarrow> 'k \<times> collect_task" where
  "collect_step os now k c =
     (case c_pc c of
        C_Select \<Rightarrow> let (m, k) = xQueueSelectFromSet os k
                    in (k, c\<lparr>c_pc := (case m of None \<Rightarrow> C_Time | Some x \<Rightarrow> C_Receive x)\<rparr>)
      | C_Receive x \<Rightarrow> let (r, k) = xQueueReceive os (xDataQueue x) k
                       in (k, case r of None \<Rightarrow> c\<lparr>c_pc := C_Time\<rparr>
                              | Some i \<Rightarrow> (case collect_store x i (c_packet c) of None \<Rightarrow> c\<lparr>c_pc := C_Fault\<rparr>
                                           | Some s \<Rightarrow> c\<lparr>c_pc := C_Time, c_packet := s\<rparr>))
      | C_Time \<Rightarrow> (k, c\<lparr>c_pc := (if now - xLastSendTime c \<ge> xSendInterval then C_Snapshot else C_Select)\<rparr>)
      | C_Snapshot \<Rightarrow> (snd (xQueueSend os xSnapshotQueue (Snapshot (c_packet c)) k), c\<lparr>c_pc := C_MQTT\<rparr>)
      | C_MQTT \<Rightarrow> (snd (xQueueSend os xMQTTQueue (Snapshot (c_packet c)) k), c\<lparr>c_pc := C_Stamp\<rparr>)
      | C_Stamp \<Rightarrow> (k, c\<lparr>c_pc := C_Select, xLastSendTime := now\<rparr>)
      | C_Fault \<Rightarrow> (k, c))"

definition collect_init :: "u32 \<Rightarrow> collect_task" where
  "collect_init now = \<lparr>c_pc = C_Select, c_packet = sensors_zero, xLastSendTime = now\<rparr>"

subsection \<open>Processing (src/process.c)\<close>

datatype process_pc = P_Receive | P_Display | P_MQTT | P_Fault

record process_task =
  p_pc :: process_pc
  p_packet :: Sensors_DataPacket

definition process_step :: "'k rtos \<Rightarrow> libm \<Rightarrow> Average_DataPacket list \<Rightarrow> 'k \<Rightarrow> process_task \<Rightarrow> 'k \<times> process_task" where
  "process_step os lm behind k p =
     (case p_pc p of
        P_Receive \<Rightarrow> let (r, k) = xQueueReceive os xSnapshotQueue k
                     in (k, case r of None \<Rightarrow> p
                            | Some (Snapshot s) \<Rightarrow> (case process_snapshot lm behind s of None \<Rightarrow> p\<lparr>p_pc := P_Fault\<rparr>
                                                    | Some q \<Rightarrow> p\<lparr>p_pc := P_Display, p_packet := q\<rparr>)
                            | Some (Reading _) \<Rightarrow> p\<lparr>p_pc := P_Fault\<rparr>)
      | P_Display \<Rightarrow> (snd (xQueueSend os xDisplayQueue (Snapshot (p_packet p)) k), p\<lparr>p_pc := P_MQTT\<rparr>)
      | P_MQTT \<Rightarrow> (snd (xQueueSend os xMQTTQueue (Snapshot (p_packet p)) k), p\<lparr>p_pc := P_Receive\<rparr>)
      | P_Fault \<Rightarrow> (k, p))"

definition process_init :: process_task where
  "process_init = \<lparr>p_pc = P_Receive, p_packet = sensors_zero\<rparr>"

subsection \<open>Displaying (src/display.c)\<close>

text \<open>The texts of the \<open>HDEBUG\<close> calls, in their order.\<close>

definition display_bme :: "string \<Rightarrow> BME280_DataPacket \<Rightarrow> string list" where
  "display_bme tag p =
     [tag @ '' TEMPERATURE   : '' @ fmt_f 2 (BME280_DataPacket.temperature p) @ '' *C'',
      tag @ '' DEW POINT     : '' @ fmt_f 2 (BME280_DataPacket.dewPoint p) @ '' *C'',
      tag @ '' HUMIDITY      : '' @ fmt_f 2 (BME280_DataPacket.humidity p) @ '' %RH'',
      tag @ '' ABS HUMIDITY  : '' @ fmt_f 2 (BME280_DataPacket.absoluteHumidity p) @ '' %AH'',
      tag @ '' PRESSURE      : '' @ fmt_f 1 (BME280_DataPacket.pressure p) @ '' hPA'']"

definition display_dht :: "string \<Rightarrow> DHT_DataPacket \<Rightarrow> string list" where
  "display_dht tag p =
     [tag @ '' TEMPERATURE   : '' @ fmt_f 2 (DHT_DataPacket.temperature p) @ '' *C'',
      tag @ '' DEW POINT     : '' @ fmt_f 2 (DHT_DataPacket.dewPoint p) @ '' *C'',
      tag @ '' HUMIDITY      : '' @ fmt_f 2 (DHT_DataPacket.humidity p) @ '' %RH'',
      tag @ '' ABS HUMIDITY  : '' @ fmt_f 2 (DHT_DataPacket.absoluteHumidity p) @ '' %AH'']"

definition display_lines :: "Sensors_DataPacket \<Rightarrow> string list" where
  "display_lines p =
     display_bme ''(BME280_0)'' (bme280_0 p) @ display_bme ''(BME280_1)'' (bme280_1 p) @ display_bme ''(BME__AVG)'' (bme280_avg p)
     @ display_dht ''(DHT20__0)'' (dht_0 p) @ display_dht ''(DHT20__1)'' (dht_1 p) @ display_dht ''(DHT__AVG)'' (dht_avg p)
     @ display_dht ''(DHT11__0)'' (dht_2 p) @ display_dht ''(DHT22__0)'' (dht_3 p)
     @ [''(SGP30__0) eCO2          : '' @ dec_digits (unat (eco2 (sgp30_0 p))) @ '' ppm'',
        ''(SGP30__0) TVOC          : '' @ dec_digits (unat (tvoc (sgp30_0 p))) @ '' ppb'',
        ''(DS18B20 ) TEMPERATURE   : '' @ fmt_f 2 (DS18B20_DataPacket.temperature (ds18b20_0 p)) @ '' *C'',
        ''(PMS_5003) PM1           : '' @ dec_digits (unat (pm1 (pms5003_0 p))) @ '' ug/m3'',
        ''(PMS_5003) PM2.5         : '' @ dec_digits (unat (pm2_5 (pms5003_0 p))) @ '' ug/m3'',
        ''(PMS_5003) PM10          : '' @ dec_digits (unat (pm10 (pms5003_0 p))) @ '' ug/m3'',
        ''AVERAGE TEMPERATURE      : '' @ fmt_f 2 (Sensors_DataPacket.temperature p) @ '' *C'',
        ''AVERAGE DEW POINT        : '' @ fmt_f 2 (Sensors_DataPacket.dewPoint p) @ '' *C'',
        ''AVERAGE RELATIVE HUMIDITY: '' @ fmt_f 2 (Sensors_DataPacket.relativeHumidity p) @ '' %RH'',
        ''AVERAGE ABSOLUTE HUMIDITY: '' @ fmt_f 2 (Sensors_DataPacket.absoluteHumidity p) @ '' %AH'',
        ''AVERAGE PRESSURE         : '' @ fmt_f 2 (Sensors_DataPacket.pressure p) @ '' hPA'']"

text \<open>A round: what was received, \<open>None\<close> while the call waits.\<close>

definition display_step :: "'k rtos \<Rightarrow> 'k \<Rightarrow> item option \<times> 'k" where
  "display_step os k = xQueueReceive os xDisplayQueue k"

subsection \<open>Sending (src/send.c)\<close>

datatype send_pc = S_Receive | S_BME280_0 | S_BME280_1 | S_Fault

record send_task =
  s_pc :: send_pc
  s_packet :: Sensors_DataPacket

text \<open>
  \<open>data.jsonify(&data)\<close> for a BME280 packet: the inner option is the function's result, the outer
  is \<open>None\<close> for a call through NULL or of a function for another packet type.
\<close>

fun call_jsonify :: "string \<Rightarrow> json_fn \<Rightarrow> BME280_DataPacket \<Rightarrow> string option option" where
  "call_jsonify missing JSON_BME280 p = Some (BME280_Jsonify missing p)"
| "call_jsonify missing _ p = None"

text \<open>\<open>char payload[512]\<close>: \<open>strncpy\<close> of at most 511 characters and a terminating NUL.\<close>

definition payload_of :: "string \<Rightarrow> string" where "payload_of json = take (512 - 1) json"

text \<open>The text handed to \<open>mqtt_publish\<close>, if any.\<close>

definition send_step :: "'k rtos \<Rightarrow> string \<Rightarrow> 'k \<Rightarrow> send_task \<Rightarrow> string option \<times> 'k \<times> send_task" where
  "send_step os missing k s =
     (case s_pc s of
        S_Receive \<Rightarrow> let (r, k) = xQueueReceive os xMQTTQueue k
                     in (None, k, case r of None \<Rightarrow> s
                                  | Some (Snapshot p) \<Rightarrow> s\<lparr>s_pc := S_BME280_0, s_packet := p\<rparr>
                                  | Some (Reading _) \<Rightarrow> s\<lparr>s_pc := S_Fault\<rparr>)
      | S_BME280_0 \<Rightarrow>
          (case call_jsonify missing (BME280_DataPacket.jsonify (bme280_0 (s_packet s))) (bme280_0 (s_packet s)) of
             None \<Rightarrow> (None, k, s\<lparr>s_pc := S_Fault\<rparr>)
           | Some json \<Rightarrow> (map_option payload_of json, k, s\<lparr>s_pc := S_BME280_1\<rparr>))
      | S_BME280_1 \<Rightarrow>
          (case call_jsonify missing (BME280_DataPacket.jsonify (bme280_1 (s_packet s))) (bme280_1 (s_packet s)) of
             None \<Rightarrow> (None, k, s\<lparr>s_pc := S_Fault\<rparr>)
           | Some json \<Rightarrow> (map_option payload_of json, k, s\<lparr>s_pc := S_Receive\<rparr>))
      | S_Fault \<Rightarrow> (None, k, s))"

definition send_init :: send_task where
  "send_init = \<lparr>s_pc = S_Receive, s_packet = sensors_zero\<rparr>"

subsection \<open>The system\<close>

record 'k pipeline =
  kernel :: 'k
  collector :: collect_task
  processor :: process_task
  sender :: send_task

datatype event =
    Sensed sensor reading
  | Taken Sensors_DataPacket
  | Shown Sensors_DataPacket
  | Published string
  | Silent

definition pipeline_init :: "u32 \<Rightarrow> 'k \<Rightarrow> 'k pipeline" where
  "pipeline_init now k = \<lparr>kernel = k, collector = collect_init now, processor = process_init, sender = send_init\<rparr>"

text \<open>Which task runs is the scheduler's choice; a sensor task's send is one more kind of step.\<close>

inductive step :: "'k rtos \<Rightarrow> libm \<Rightarrow> 'k pipeline \<Rightarrow> event \<Rightarrow> 'k pipeline \<Rightarrow> bool" for os lm where
  sense: "matches x r \<Longrightarrow>
    step os lm s (Sensed x r) (s\<lparr>kernel := snd (xQueueSend os (xDataQueue x) (Reading r) (kernel s))\<rparr>)"
| collect: "collect_step os now (kernel s) (collector s) = (k, c) \<Longrightarrow>
    e = (if c_pc (collector s) = C_Snapshot then Taken (c_packet (collector s)) else Silent) \<Longrightarrow>
    step os lm s e (s\<lparr>kernel := k, collector := c\<rparr>)"
| process: "process_step os lm behind (kernel s) (processor s) = (k, p) \<Longrightarrow>
    step os lm s Silent (s\<lparr>kernel := k, processor := p\<rparr>)"
| display: "display_step os (kernel s) = (r, k) \<Longrightarrow>
    e = (case r of Some (Snapshot p) \<Rightarrow> Shown p | _ \<Rightarrow> Silent) \<Longrightarrow>
    step os lm s e (s\<lparr>kernel := k\<rparr>)"
| publish: "send_step os missing (kernel s) (sender s) = (t, k, d) \<Longrightarrow>
    e = (case t of Some text \<Rightarrow> Published text | None \<Rightarrow> Silent) \<Longrightarrow>
    step os lm s e (s\<lparr>kernel := k, sender := d\<rparr>)"

inductive exec :: "'k rtos \<Rightarrow> libm \<Rightarrow> 'k pipeline \<Rightarrow> event list \<Rightarrow> 'k pipeline \<Rightarrow> bool" for os lm where
  start: "exec os lm s [] s"
| more: "exec os lm s tr t \<Longrightarrow> step os lm t e u \<Longrightarrow> exec os lm s (tr @ [e]) u"

inductive_cases execE: "exec os lm s tr t"

subsection \<open>What the steps do to the parts of the system\<close>

text \<open>What a packet slot of a snapshot holds.\<close>

fun reading_of :: "sensor \<Rightarrow> Sensors_DataPacket \<Rightarrow> reading" where
  "reading_of BME280_0 s = BME280_Reading (bme280_0 s)"
| "reading_of BME280_1 s = BME280_Reading (bme280_1 s)"
| "reading_of DHT20_0 s = DHT_Reading (dht_0 s)"
| "reading_of DHT20_1 s = DHT_Reading (dht_1 s)"
| "reading_of DHT11_0 s = DHT_Reading (dht_2 s)"
| "reading_of DHT22_0 s = DHT_Reading (dht_3 s)"
| "reading_of SGP30_0 s = SGP30_Reading (sgp30_0 s)"
| "reading_of DS18B20_0 s = DS18B20_Reading (ds18b20_0 s)"
| "reading_of PMS5003_0 s = PMS5003_Reading (pms5003_0 s)"

lemma all_sensors:
  "(\<forall>x. P x) \<longleftrightarrow> P BME280_0 \<and> P BME280_1 \<and> P DHT20_0 \<and> P DHT20_1 \<and> P DHT11_0 \<and> P DHT22_0 \<and> P SGP30_0 \<and> P DS18B20_0 \<and> P PMS5003_0"
  by (metis sensor.exhaust)

text \<open>Storing a packet of the right type changes its own slot and no other.\<close>

lemma collect_store_matches:
  "matches x r \<Longrightarrow> \<exists>s'. collect_store x (Reading r) s = Some s' \<and> (\<forall>y. reading_of y s' = (if y = x then r else reading_of y s))"
  by (cases r; cases x) (simp_all add: collect_store_def store_bme_def store_dht_def all_sensors)

subsection \<open>Any kernel with the documented behaviour runs the pipeline as the list kernel does\<close>

definition on_lists :: "('k \<Rightarrow> queue_handle \<Rightarrow> item option) \<Rightarrow> ('k \<Rightarrow> sensor list) \<Rightarrow> 'k pipeline \<Rightarrow> list_kernel pipeline" where
  "on_lists content ready s =
     \<lparr>kernel = (content (kernel s), ready (kernel s)), collector = collector s, processor = processor s, sender = sender s\<rparr>"

lemma on_lists_simps [simp]:
  "kernel (on_lists content ready s) = (content (kernel s), ready (kernel s))"
  "collector (on_lists content ready s) = collector s" "processor (on_lists content ready s) = processor s"
  "sender (on_lists content ready s) = sender s"
  "on_lists content ready (s\<lparr>kernel := k\<rparr>) = (on_lists content ready s)\<lparr>kernel := (content k, ready k)\<rparr>"
  "on_lists content ready (s\<lparr>collector := c\<rparr>) = (on_lists content ready s)\<lparr>collector := c\<rparr>"
  "on_lists content ready (s\<lparr>processor := p\<rparr>) = (on_lists content ready s)\<lparr>processor := p\<rparr>"
  "on_lists content ready (s\<lparr>sender := d\<rparr>) = (on_lists content ready s)\<lparr>sender := d\<rparr>"
  by (simp_all add: on_lists_def)

context freertos
begin

abbreviation lists where "lists k \<equiv> (content k, ready k)"

lemma send_lists: "xQueueSend list_os q x (lists k) = (let (r, k') = xQueueSend os q x k in (r, lists k'))"
proof (cases "content k q")
  case None
  then show ?thesis using send_empty [OF None, of x] by (cases "xQueueSend os q x k") (simp add: list_os_def)
next
  case (Some y)
  then show ?thesis using send_full [OF Some, of x] by (cases "xQueueSend os q x k") (simp add: list_os_def)
qed

lemma receive_lists: "xQueueReceive list_os q (lists k) = (let (r, k') = xQueueReceive os q k in (r, lists k'))"
  using receive [of q k] by (cases "xQueueReceive os q k") (auto simp: list_os_def)

lemma select_lists: "xQueueSelectFromSet list_os (lists k) = (let (m, k') = xQueueSelectFromSet os k in (m, lists k'))"
  using select [of k] by (cases "xQueueSelectFromSet os k") (auto simp: list_os_def split: list.split)

lemmas to_lists = send_lists receive_lists select_lists Let_def split_def

lemma collect_lists: "collect_step list_os now (lists k) c = (let (k', c') = collect_step os now k c in (lists k', c'))"
  by (simp add: collect_step_def to_lists split: collect_pc.split)

lemma process_lists: "process_step list_os lm behind (lists k) p = (let (k', p') = process_step os lm behind k p in (lists k', p'))"
  by (simp add: process_step_def to_lists split: process_pc.split)

lemma send_step_lists: "send_step list_os missing (lists k) d = (let (t, k', d') = send_step os missing k d in (t, lists k', d'))"
  by (simp add: send_step_def to_lists split: send_pc.split option.split)

lemma step_lists: "step os lm s e t \<Longrightarrow> step list_os lm (on_lists content ready s) e (on_lists content ready t)"
proof (induction rule: step.induct)
  case (sense x r s)
  then show ?case using step.sense [of x r list_os lm "on_lists content ready s"] by (simp add: to_lists)
next
  case (collect now s k c e)
  then have "collect_step list_os now (kernel (on_lists content ready s)) (collector (on_lists content ready s)) = (lists k, c)"
    by (simp add: collect_lists)
  from step.collect [OF this refl, of lm] collect(2) show ?case by (simp split: if_splits)
next
  case (process behind s k p)
  then have "process_step list_os lm behind (kernel (on_lists content ready s)) (processor (on_lists content ready s)) = (lists k, p)"
    by (simp add: process_lists)
  from step.process [OF this] show ?case by simp
next
  case (display s r k e)
  then have "display_step list_os (kernel (on_lists content ready s)) = (r, lists k)"
    by (simp add: display_step_def receive_lists)
  from step.display [OF this display(2)] show ?case by simp
next
  case (publish missing s t k d e)
  then have "send_step list_os missing (kernel (on_lists content ready s)) (sender (on_lists content ready s)) = (t, lists k, d)"
    by (simp add: send_step_lists)
  from step.publish [OF this publish(2)] show ?case by simp
qed

lemma exec_lists: "exec os lm s tr t \<Longrightarrow> exec list_os lm (on_lists content ready s) tr (on_lists content ready t)"
  by (induction rule: exec.induct) (auto intro: exec.intros step_lists)

end

end
