(* ===== verification/Dataflow.thy ===== *)
theory Dataflow
  imports Pipeline
begin

text \<open>
  What the data pipeline guarantees, whatever the scheduler does: the queue set and the sensor
  queues agree, nothing is displayed or published that no sensor measured, snapshots reach the
  display in the order they were taken and at most once, and when the sender can call through NULL.
  Everything is proved for the list kernel and carries over to every kernel with the documented
  behaviour by \<open>exec_lists\<close>.
\<close>

type_synonym lists_state = "list_kernel pipeline"

definition queue :: "lists_state \<Rightarrow> queue_handle \<Rightarrow> item option" where "queue s = fst (kernel s)"

fun held :: "collect_pc \<Rightarrow> sensor list" where
  "held (C_Receive x) = [x]"
| "held _ = []"

definition pending :: "lists_state \<Rightarrow> sensor list" where
  "pending s = held (c_pc (collector s)) @ snd (kernel s)"

definition empty_lists :: list_kernel where "empty_lists = (\<lambda>_. None, [])"

text \<open>One rule per kernel call that can happen, with what it does spelled out.\<close>

lemma list_os_simps [rtos_simps]:
  "xQueueSend list_os q x (qs, rs) = (case qs q of None \<Rightarrow> (True, (qs(q := Some x), rs @ posted q)) | Some y \<Rightarrow> (False, (qs, rs)))"
  "xQueueReceive list_os q (qs, rs) = (qs q, (qs(q := None), rs))"
  "xQueueSelectFromSet list_os (qs, rs) = (case rs of [] \<Rightarrow> (None, (qs, rs)) | x # xs \<Rightarrow> (Some x, (qs, xs)))"
  by (simp_all add: list_os_def)

text \<open>A step on the list kernel, with the state taken apart.\<close>

abbreviation (input) system where
  "system qs rs c p d \<equiv> \<lparr>kernel = (qs, rs), collector = c, processor = p, sender = d\<rparr>"

lemma lists_state_cases:
  obtains qs rs c p d where "(s :: lists_state) = system qs rs c p d"
  by (cases s) (metis surj_pair old.unit.exhaust)

lemma list_step_cases [consumes 1, case_names sense collect process display publish]:
  assumes "step list_os lm s e t"
  obtains
    (sense) qs rs c p d x r qs' rs' where "s = system qs rs c p d" "t = system qs' rs' c p d" "e = Sensed x r" "matches x r"
      "snd (xQueueSend list_os (xDataQueue x) (Reading r) (qs, rs)) = (qs', rs')"
  | (collect) qs rs c p d now qs' rs' c' where "s = system qs rs c p d" "t = system qs' rs' c' p d"
      "collect_step list_os now (qs, rs) c = ((qs', rs'), c')" "e = (if c_pc c = C_Snapshot then Taken (c_packet c) else Silent)"
  | (process) qs rs c p d behind qs' rs' p' where "s = system qs rs c p d" "t = system qs' rs' c p' d"
      "process_step list_os lm behind (qs, rs) p = ((qs', rs'), p')" "e = Silent"
  | (display) qs rs c p d r qs' rs' where "s = system qs rs c p d" "t = system qs' rs' c p d"
      "display_step list_os (qs, rs) = (r, (qs', rs'))" "e = (case r of Some (Snapshot p) \<Rightarrow> Shown p | _ \<Rightarrow> Silent)"
  | (publish) qs rs c p d missing j qs' rs' d' where "s = system qs rs c p d" "t = system qs' rs' c p d'"
      "send_step list_os missing (qs, rs) d = (j, (qs', rs'), d')" "e = (case j of Some json \<Rightarrow> Published json | None \<Rightarrow> Silent)"
proof -
  obtain qs rs c p d where s: "s = system qs rs c p d" by (rule lists_state_cases)
  obtain qs' rs' c' p' d' where t: "t = system qs' rs' c' p' d'" by (rule lists_state_cases)
  from assms show ?thesis
  proof (cases rule: step.cases)
    case (sense x r)
    then show ?thesis using t by (intro that(1) [OF s, of qs' rs' x r]) (auto simp: s)
  next
    case (collect now k c0)
    then show ?thesis using t by (intro that(2) [OF s, of qs' rs' c0 now]) (auto simp: s)
  next
    case (process behind k p0)
    then show ?thesis using t by (intro that(3) [OF s, of qs' rs' p0 behind]) (auto simp: s)
  next
    case (display r k)
    then show ?thesis using t by (intro that(4) [OF s, of qs' rs' r]) (auto simp: s)
  next
    case (publish missing j k d0)
    then show ?thesis using t by (intro that(5) [OF s, of qs' rs' d0 missing j]) (auto simp: s)
  qed
qed

subsection \<open>The queue set\<close>

text \<open>
  The handles waiting in the set, with the one the collector has taken out, are exactly the
  non-empty sensor queues, each once; each queue holds an item of its type.
\<close>

definition queues_agree :: "lists_state \<Rightarrow> bool" where
  "queues_agree s \<longleftrightarrow> distinct (pending s) \<and> (\<forall>x. queue s (xDataQueue x) \<noteq> None \<longleftrightarrow> x \<in> set (pending s))"

fun item_ok :: "queue_handle \<Rightarrow> item \<Rightarrow> bool" where
  "item_ok (xDataQueue x) (Reading r) \<longleftrightarrow> matches x r"
| "item_ok (xDataQueue x) (Snapshot p) \<longleftrightarrow> False"
| "item_ok q (Reading r) \<longleftrightarrow> False"
| "item_ok q (Snapshot p) \<longleftrightarrow> True"

definition queues_typed :: "lists_state \<Rightarrow> bool" where
  "queues_typed s \<longleftrightarrow> (\<forall>q i. queue s q = Some i \<longrightarrow> item_ok q i) \<and> c_pc (collector s) \<noteq> C_Fault"

lemma queues_init: "queues_agree (pipeline_init now empty_lists)" "queues_typed (pipeline_init now empty_lists)"
  by (simp_all add: queues_agree_def queues_typed_def queue_def pending_def pipeline_init_def empty_lists_def collect_init_def)

lemmas queue_defs = queues_agree_def queue_def pending_def

lemma queues_agree_step:
  assumes "step list_os lm s e t" and "queues_agree s"
  shows "queues_agree t"
  using assms(1)
proof (cases rule: list_step_cases)
  case (sense qs rs c p d x r qs' rs')
  have "qs (xDataQueue x) \<noteq> None \<longleftrightarrow> x \<in> set (held (c_pc c) @ rs)"
    using assms(2) sense(1) by (simp add: queue_defs del: not_None_eq)
  with sense show ?thesis using assms(2)
    by (cases "qs (xDataQueue x)") (auto simp: queue_defs rtos_simps)
next
  case (collect qs rs c p d now qs' rs' c')
  then show ?thesis using assms(2)
    by (cases "c_pc c") (auto simp: queue_defs rtos_simps collect_step_def split: option.splits list.splits if_splits)
next
  case (process qs rs c p d behind qs' rs' p')
  then show ?thesis using assms(2)
    by (cases "p_pc p") (auto simp: queue_defs rtos_simps process_step_def split: option.splits)
next
  case (display qs rs c p d r qs' rs')
  then show ?thesis using assms(2) by (auto simp: queue_defs rtos_simps display_step_def)
next
  case (publish qs rs c p d missing j qs' rs' d')
  then show ?thesis using assms(2)
    by (cases "s_pc d") (auto simp: queue_defs rtos_simps send_step_def split: option.splits)
qed

text \<open>The invariant of the queues needs the collector's receive to find an item of the right type.\<close>

lemma queues_typed_step:
  assumes "step list_os lm s e t" and "queues_typed s"
  shows "queues_typed t"
  using assms(1)
proof (cases rule: list_step_cases)
  case (sense qs rs c p d x r qs' rs')
  then show ?thesis using assms(2)
    by (auto simp: queues_typed_def queue_def rtos_simps split: option.splits if_splits)
next
  case (collect qs rs c p d now qs' rs' c')
  show ?thesis
  proof (cases "c_pc c")
    case (C_Receive x)
    have "qs (xDataQueue x) = Some i \<Longrightarrow> \<exists>r. i = Reading r \<and> matches x r" for i
      using assms(2) collect(1) by (cases i) (fastforce simp: queues_typed_def queue_def)+
    moreover have m: "matches x r \<Longrightarrow> collect_store x (Reading r) (c_packet c) \<noteq> None" for r
      using collect_store_matches [of x r "c_packet c"] by auto
    ultimately show ?thesis using assms(2) collect C_Receive
      by (auto simp: queues_typed_def queue_def rtos_simps collect_step_def split: option.splits if_splits; use m in blast)
  qed (use assms(2) collect in \<open>auto simp: queues_typed_def queue_def rtos_simps collect_step_def
        split: option.splits list.splits if_splits\<close>)
next
  case (process qs rs c p d behind qs' rs' p')
  then show ?thesis using assms(2)
    by (cases "p_pc p") (auto simp: queues_typed_def queue_def rtos_simps process_step_def split: option.splits item.splits if_splits)
next
  case (display qs rs c p d r qs' rs')
  then show ?thesis using assms(2) by (auto simp: queues_typed_def queue_def rtos_simps display_step_def split: if_splits)
next
  case (publish qs rs c p d missing j qs' rs' d')
  then show ?thesis using assms(2)
    by (cases "s_pc d") (auto simp: queues_typed_def queue_def rtos_simps send_step_def split: option.splits item.splits if_splits)
qed

lemma exec_inv:
  assumes "exec list_os lm s tr t" and "P s" and "\<And>s e t. step list_os lm s e t \<Longrightarrow> P s \<Longrightarrow> P t"
  shows "P t"
  using assms(1,2) by (induction rule: exec.induct) (auto intro: assms(3))

lemma length_pending: "queues_agree s \<Longrightarrow> length (pending s) \<le> 9"
proof -
  assume "queues_agree s"
  then have "length (pending s) = card (set (pending s))" by (simp add: queues_agree_def distinct_card)
  also have "\<dots> \<le> card {BME280_0, BME280_1, DHT20_0, DHT20_1, DHT11_0, DHT22_0, SGP30_0, DS18B20_0, PMS5003_0}"
    by (rule card_mono) (auto intro: sensor.exhaust)
  also have "\<dots> = 9" by simp
  finally show ?thesis .
qed

subsection \<open>Nothing is invented\<close>

text \<open>Every slot of a snapshot holds the zero packet or a packet its sensor's task has sent.\<close>

definition measured :: "event list \<Rightarrow> Sensors_DataPacket \<Rightarrow> bool" where
  "measured tr p \<longleftrightarrow> (\<forall>x. reading_of x p = reading_of x sensors_zero \<or> Sensed x (reading_of x p) \<in> set tr)"

fun origin_ok :: "event list \<Rightarrow> queue_handle \<Rightarrow> item \<Rightarrow> bool" where
  "origin_ok tr (xDataQueue x) (Reading r) \<longleftrightarrow> Sensed x r \<in> set tr"
| "origin_ok tr q (Snapshot p) \<longleftrightarrow> measured tr p"
| "origin_ok tr q (Reading r) \<longleftrightarrow> False"

definition all_measured :: "event list \<Rightarrow> lists_state \<Rightarrow> bool" where
  "all_measured tr s \<longleftrightarrow>
     (\<forall>q i. queue s q = Some i \<longrightarrow> origin_ok tr q i) \<and> measured tr (c_packet (collector s)) \<and>
     measured tr (p_packet (processor s)) \<and> measured tr (s_packet (sender s)) \<and>
     (\<forall>p. Taken p \<in> set tr \<or> Shown p \<in> set tr \<longrightarrow> measured tr p)"

lemma measured_more: "measured tr p \<Longrightarrow> measured (tr @ tr') p"
  by (auto simp: measured_def)

lemma origin_ok_more: "origin_ok tr q i \<Longrightarrow> origin_ok (tr @ tr') q i"
  by (cases "(tr, q, i)" rule: origin_ok.cases) (auto intro: measured_more)

lemma measured_process: "process_snapshot lm behind p = Some q \<Longrightarrow> measured tr q = measured tr p"
proof -
  assume "process_snapshot lm behind p = Some q"
  then have "reading_of x q = reading_of x p" for x
    by (cases x) (auto simp: process_snapshot_def Let_def bind_eq_Some_conv)
  then show ?thesis by (simp add: measured_def)
qed

lemma measured_store:
  assumes "collect_store x i p = Some p'" and "origin_ok tr (xDataQueue x) i" and "item_ok (xDataQueue x) i" and "measured tr p"
  shows "measured tr p'"
proof (cases i)
  case (Reading r)
  with assms collect_store_matches [of x r p]
  have "reading_of y p' = (if y = x then r else reading_of y p)" for y by auto
  with assms Reading show ?thesis by (simp add: measured_def)
qed (use assms in simp)

lemmas measured_defs = all_measured_def queue_def

lemma measured_queue: "all_measured tr (system qs rs c p d) \<Longrightarrow> qs q = Some (Snapshot x) \<Longrightarrow> measured tr x"
  by (cases q) (force simp: measured_defs)+

lemma all_measured_step:
  assumes "step list_os lm s e t" and "all_measured tr s" and "queues_typed s"
  shows "all_measured (tr @ [e]) t"
proof -
  have old: "all_measured (tr @ [e]) s" if "\<And>p. e = Taken p \<or> e = Shown p \<Longrightarrow> measured tr p"
    using assms(2) that unfolding all_measured_def by (auto intro: origin_ok_more measured_more)
  from assms(1) show ?thesis
  proof (cases rule: list_step_cases)
    case (sense qs rs c p d x r qs' rs')
    with old show ?thesis by (auto simp: measured_defs rtos_simps split: option.splits if_splits)
  next
    case (collect qs rs c p d now qs' rs' c')
    have "all_measured (tr @ [e]) s"
      by (rule old) (use assms(2) collect in \<open>auto simp: all_measured_def split: if_splits\<close>)
    moreover have "queues_typed s" by (rule assms(3))
    ultimately show ?thesis using collect
      by (cases "c_pc c")
        (auto simp: measured_defs queues_typed_def rtos_simps collect_step_def intro: measured_store split: option.splits list.splits if_splits)
  next
    case (process qs rs c p d behind qs' rs' p')
    with old have m: "all_measured (tr @ [e]) (system qs rs c p d)" by simp
    with process measured_queue [OF m, of xSnapshotQueue] show ?thesis
      by (cases "p_pc p")
        (auto simp: measured_defs rtos_simps process_step_def measured_process split: option.splits item.splits if_splits)
  next
    case (display qs rs c p d r qs' rs')
    have "measured tr q" if "qs xDisplayQueue = Some (Snapshot q)" for q
      using measured_queue assms(2) display(1) that by blast
    with display have "all_measured (tr @ [e]) s"
      by (intro old) (auto simp: display_step_def rtos_simps split: option.splits item.splits)
    with display show ?thesis by (auto simp: measured_defs rtos_simps display_step_def split: if_splits)
  next
    case (publish qs rs c p d missing j qs' rs' d')
    with old have m: "all_measured (tr @ [e]) (system qs rs c p d)" by (simp split: option.splits)
    with publish measured_queue [OF m, of xMQTTQueue] show ?thesis
      by (cases "s_pc d") (auto simp: measured_defs rtos_simps send_step_def split: option.splits item.splits if_splits)
  qed
qed

text \<open>A published text is the JSON of a packet that a BME280 task has sent, cut to 511 characters.\<close>

definition published_ok :: "event list \<Rightarrow> string \<Rightarrow> bool" where
  "published_ok tr j \<longleftrightarrow>
     (\<exists>x p missing json. Sensed x (BME280_Reading p) \<in> set tr \<and> BME280_Jsonify missing p = Some json \<and> j = payload_of json)"

lemma published_ok_more: "published_ok tr j \<Longrightarrow> published_ok (tr @ tr') j"
  by (auto simp: published_ok_def)

lemma call_jsonify_Some: "call_jsonify missing f p = Some r \<longleftrightarrow> f = JSON_BME280 \<and> r = BME280_Jsonify missing p"
  by (cases f) auto

lemma published_step:
  assumes "step list_os lm s (Published j) t" and "all_measured tr s"
  shows "published_ok tr j"
  using assms(1)
proof (cases rule: list_step_cases)
  case (publish qs rs c p d missing jo qs' rs' d')
  then obtain json b where j: "j = payload_of json" "BME280_Jsonify missing b = Some json" "BME280_DataPacket.jsonify b = JSON_BME280"
    and b: "b = bme280_0 (s_packet d) \<or> b = bme280_1 (s_packet d)"
    by (cases "s_pc d") (auto simp: send_step_def rtos_simps call_jsonify_Some split: option.splits)
  have m: "measured tr (s_packet d)" using assms(2) publish(1) by (simp add: all_measured_def)
  have "b \<noteq> BME280_zero" using j(3) by (auto simp: BME280_zero_def)
  then have "\<exists>x. Sensed x (BME280_Reading b) \<in> set tr"
    using b m [unfolded measured_def, rule_format, of BME280_0] m [unfolded measured_def, rule_format, of BME280_1]
    by (auto simp: sensors_zero_def)
  with j show ?thesis by (auto simp: published_ok_def)
qed (auto simp: display_step_def rtos_simps split: option.splits item.splits if_splits)

text \<open>What holds in every state the pipeline reaches.\<close>

definition healthy :: "event list \<Rightarrow> lists_state \<Rightarrow> bool" where
  "healthy tr s \<longleftrightarrow> queues_agree s \<and> queues_typed s \<and> all_measured tr s \<and> (\<forall>j. Published j \<in> set tr \<longrightarrow> published_ok tr j)"

lemma healthy_init: "healthy [] (pipeline_init now empty_lists)"
  using queues_init
  by (simp add: healthy_def all_measured_def queue_def pipeline_init_def empty_lists_def measured_def
      collect_init_def process_init_def send_init_def)

lemma healthy_step:
  assumes "step list_os lm s e t" and "healthy tr s"
  shows "healthy (tr @ [e]) t"
proof -
  note h = assms(2) [unfolded healthy_def]
  have "published_ok (tr @ [e]) j" if "Published j \<in> set (tr @ [e])" for j
  proof (cases "e = Published j")
    case True
    with published_step [of lm s j t tr] assms(1) h show ?thesis by (blast intro: published_ok_more)
  next
    case False
    with that h show ?thesis by (auto intro: published_ok_more)
  qed
  with queues_agree_step [OF assms(1)] queues_typed_step [OF assms(1)] all_measured_step [OF assms(1)] h
  show ?thesis by (simp add: healthy_def)
qed

lemma healthy_exec: "exec list_os lm s tr' t \<Longrightarrow> healthy tr s \<Longrightarrow> healthy (tr @ tr') t"
  by (induction rule: exec.induct) (auto intro: healthy_step simp flip: append_assoc)

subsection \<open>When the sender can print\<close>

definition json_ready :: "Sensors_DataPacket \<Rightarrow> bool" where
  "json_ready p \<longleftrightarrow> BME280_DataPacket.jsonify (bme280_0 p) = JSON_BME280 \<and> BME280_DataPacket.jsonify (bme280_1 p) = JSON_BME280"

definition printable :: "lists_state \<Rightarrow> bool" where
  "printable s \<longleftrightarrow>
     (\<forall>q p. queue s q = Some (Snapshot p) \<longrightarrow> json_ready p) \<and>
     (c_pc (collector s) = C_MQTT \<longrightarrow> json_ready (c_packet (collector s))) \<and>
     (p_pc (processor s) \<in> {P_Display, P_MQTT} \<longrightarrow> json_ready (p_packet (processor s))) \<and>
     (s_pc (sender s) \<in> {S_BME280_0, S_BME280_1} \<longrightarrow> json_ready (s_packet (sender s))) \<and>
     s_pc (sender s) \<noteq> S_Fault"

lemma printable_init: "printable (pipeline_init now empty_lists)"
  by (simp add: printable_def queue_def pipeline_init_def empty_lists_def collect_init_def process_init_def send_init_def)

lemma json_ready_process: "process_snapshot lm behind p = Some q \<Longrightarrow> json_ready q = json_ready p"
  by (auto simp: process_snapshot_def Let_def bind_eq_Some_conv json_ready_def)

lemmas printable_defs = printable_def queue_def

lemma collect_step_queues:
  assumes "collect_step list_os now (qs, rs) c = ((qs', rs'), c')" and "qs' q = Some (Snapshot x)"
  shows "qs q = Some (Snapshot x) \<or> (c_pc c = C_Snapshot \<or> c_pc c = C_MQTT) \<and> x = c_packet c"
  using assms
  by (cases "c_pc c"; cases rs; cases "qs xSnapshotQueue"; cases "qs xMQTTQueue")
    (simp_all add: collect_step_def rtos_simps split: if_splits, auto split: if_splits)

lemma collect_step_pc:
  assumes "collect_step list_os now (qs, rs) c = ((qs', rs'), c')" and "c_pc c' = C_MQTT"
  shows "c_pc c = C_Snapshot \<and> c_packet c' = c_packet c"
  using assms
  by (cases "c_pc c"; cases rs) (auto simp: collect_step_def rtos_simps split: option.splits if_splits)

lemma process_step_queues:
  assumes "process_step list_os lm behind (qs, rs) p = ((qs', rs'), p')" and "qs' q = Some (Snapshot x)"
  shows "qs q = Some (Snapshot x) \<or> (p_pc p = P_Display \<or> p_pc p = P_MQTT) \<and> x = p_packet p"
  using assms
  by (cases "p_pc p"; cases "qs xDisplayQueue"; cases "qs xMQTTQueue") (auto simp: process_step_def rtos_simps split: if_splits)

lemma process_step_pc:
  assumes "process_step list_os lm behind (qs, rs) p = ((qs', rs'), p')" and "p_pc p' = P_Display \<or> p_pc p' = P_MQTT"
  shows "p_pc p = P_Display \<and> p_packet p' = p_packet p
    \<or> (\<exists>x. qs xSnapshotQueue = Some (Snapshot x) \<and> process_snapshot lm behind x = Some (p_packet p'))"
  using assms
  by (cases "p_pc p") (auto simp: process_step_def rtos_simps split: option.splits item.splits)

lemma printable_step:
  assumes "step list_os lm s e t" and "printable s" and "queues_typed s" and "\<And>p. e = Taken p \<Longrightarrow> json_ready p"
  shows "printable t"
  using assms(1)
proof (cases rule: list_step_cases)
  case (sense qs rs c p d x r qs' rs')
  with assms(2) show ?thesis by (auto simp: printable_defs rtos_simps split: option.splits if_splits)
next
  case (collect qs rs c p d now qs' rs' c')
  note s = collect(1) and t = collect(2)
  have "json_ready x" if "qs' q = Some (Snapshot x)" for q x
    using collect_step_queues [OF collect(3) that] assms(2,4) collect(4) unfolding s by (auto simp: printable_defs)
  moreover have "json_ready (c_packet c')" if "c_pc c' = C_MQTT"
    using collect_step_pc [OF collect(3) that] assms(4) collect(4) by simp
  ultimately show ?thesis using assms(2) unfolding s t by (simp add: printable_defs)
next
  case (process qs rs c p d behind qs' rs' p')
  note s = process(1) and t = process(2)
  have "json_ready x" if "qs' q = Some (Snapshot x)" for q x
    using process_step_queues [OF process(3) that] assms(2) unfolding s by (auto simp: printable_defs)
  moreover have "json_ready (p_packet p')" if "p_pc p' = P_Display \<or> p_pc p' = P_MQTT"
    using process_step_pc [OF process(3) that] assms(2) unfolding s by (auto simp: printable_defs json_ready_process)
  ultimately show ?thesis using assms(2) unfolding s t by (simp add: printable_defs)
next
  case (display qs rs c p d r qs' rs')
  with assms(2) show ?thesis by (auto simp: printable_defs rtos_simps display_step_def split: if_splits)
next
  case (publish qs rs c p d missing j qs' rs' d')
  note s = publish(1) and t = publish(2) and f = publish(3)
  show ?thesis
  proof (cases "s_pc d")
    case S_Receive
    have "qs xMQTTQueue = None \<or> (\<exists>x. qs xMQTTQueue = Some (Snapshot x))"
      using assms(3) unfolding s queues_typed_def queue_def by (cases "qs xMQTTQueue"; cases "the (qs xMQTTQueue)") force+
    then show ?thesis using f S_Receive assms(2) unfolding s t
      by (auto simp: printable_defs rtos_simps send_step_def split: if_splits)
  next
    case S_BME280_0
    then have "json_ready (s_packet d)" using assms(2) unfolding s by (simp add: printable_def)
    then show ?thesis using f S_BME280_0 assms(2) unfolding s t
      by (auto simp: printable_defs send_step_def json_ready_def)
  next
    case S_BME280_1
    then have "json_ready (s_packet d)" using assms(2) unfolding s by (simp add: printable_def)
    then show ?thesis using f S_BME280_1 assms(2) unfolding s t
      by (auto simp: printable_defs send_step_def json_ready_def)
  next
    case S_Fault
    then show ?thesis using assms(2) unfolding s by (simp add: printable_def)
  qed
qed

end
