(* ===== verification/Channel.thy ===== *)
theory Channel
  imports Dataflow
begin

text \<open>
  The contract of the data pipeline and its proofs for every kernel with the documented behaviour:
  between the collector and the display it is a lossy first-in first-out channel (\<open>channel\<close>, an
  abstract machine of one list); what is shown or published was measured; the sender calls the
  print function through NULL exactly when a snapshot was taken too early.
\<close>

subsection \<open>The abstract channel\<close>

text \<open>What the processing task may make of a snapshot, for some content of the memory it over-reads.\<close>

definition processed :: "libm \<Rightarrow> Sensors_DataPacket \<Rightarrow> Sensors_DataPacket \<Rightarrow> bool" where
  "processed lm p q \<longleftrightarrow> (\<exists>behind. process_snapshot lm behind p = Some q)"

text \<open>The snapshots a trace takes and shows.\<close>

fun takes :: "event \<Rightarrow> Sensors_DataPacket list" where "takes (Taken p) = [p]" | "takes _ = []"
fun shows_of :: "event \<Rightarrow> Sensors_DataPacket list" where "shows_of (Shown p) = [p]" | "shows_of _ = []"

text \<open>Snapshots enter at the end and leave, processed, at the front; any of them may be lost on the way.\<close>

inductive channel :: "libm \<Rightarrow> Sensors_DataPacket list \<Rightarrow> event \<Rightarrow> Sensors_DataPacket list \<Rightarrow> bool" for lm where
  put: "subseq ys (xs @ [p]) \<Longrightarrow> channel lm xs (Taken p) ys"
| get: "processed lm p q \<Longrightarrow> channel lm (p # xs) (Shown q) xs"
| other: "takes e = [] \<Longrightarrow> shows_of e = [] \<Longrightarrow> subseq ys xs \<Longrightarrow> channel lm xs e ys"

inductive channel_run :: "libm \<Rightarrow> event list \<Rightarrow> Sensors_DataPacket list \<Rightarrow> bool" for lm where
  empty: "channel_run lm [] []"
| more: "channel_run lm tr xs \<Longrightarrow> channel lm xs e ys \<Longrightarrow> channel_run lm (tr @ [e]) ys"

inductive_cases channel_Taken: "channel lm xs (Taken p) ys"
inductive_cases channel_Shown: "channel lm xs (Shown q) ys"

definition taken :: "event list \<Rightarrow> Sensors_DataPacket list" where "taken tr = concat (map takes tr)"
definition shown :: "event list \<Rightarrow> Sensors_DataPacket list" where "shown tr = concat (map shows_of tr)"

lemma taken_snoc [simp]: "taken [] = []" "taken (tr @ [e]) = taken tr @ takes e"
  by (simp_all add: taken_def)

lemma shown_snoc [simp]: "shown [] = []" "shown (tr @ [e]) = shown tr @ shows_of e"
  by (simp_all add: shown_def)

lemma subseq_lose: "subseq ys xs \<Longrightarrow> subseq (ps @ xs) zs \<Longrightarrow> subseq (ps @ ys) zs"
  by (metis subseq_append' subseq_order.order_trans)

text \<open>A step that neither takes nor shows only loses.\<close>

lemma channel_quiet: "channel lm xs e ys \<Longrightarrow> takes e = [] \<Longrightarrow> shows_of e = [] \<Longrightarrow> subseq ys xs"
  by (auto elim: channel.cases)

lemma channel_run_order:
  "channel_run lm tr xs \<Longrightarrow> \<exists>ps. subseq (ps @ xs) (taken tr) \<and> list_all2 (processed lm) ps (shown tr)"
proof (induction rule: channel_run.induct)
  case (more tr xs e ys)
  then obtain ps where ps: "subseq (ps @ xs) (taken tr)" "list_all2 (processed lm) ps (shown tr)" by blast
  show ?case
  proof (cases "takes e = [] \<and> shows_of e = []")
    case True
    with more(2) ps(1) have "subseq (ps @ ys) (taken tr)" by (blast intro: subseq_lose channel_quiet)
    with ps(2) True show ?thesis by auto
  next
    case False
    then consider p where "e = Taken p" | q where "e = Shown q" by (cases e) auto
    then show ?thesis
    proof cases
      case 1
      from more(2) have "subseq ys (xs @ [p])" unfolding 1 by (rule channel_Taken) simp_all
      moreover from ps(1) have "subseq (ps @ xs @ [p]) (taken tr @ [p])" by (metis append_assoc subseq_append)
      ultimately have "subseq (ps @ ys) (taken tr @ [p])" by (rule subseq_lose)
      then show ?thesis using ps(2) 1 by auto
    next
      case 2
      with more(2) obtain p where "xs = p # ys" "processed lm p q" by (auto elim: channel_Shown)
      with ps 2 show ?thesis by (intro exI [of _ "ps @ [p]"]) (simp add: list_all2_appendI)
    qed
  qed
qed simp

subsection \<open>The pipeline refines the channel\<close>

text \<open>What is on its way from the collector to the display, oldest first.\<close>

datatype transit = Raw Sensors_DataPacket | Done Sensors_DataPacket

fun transit_of :: "(Sensors_DataPacket \<Rightarrow> transit) \<Rightarrow> item option \<Rightarrow> transit list" where
  "transit_of f (Some (Snapshot p)) = [f p]"
| "transit_of f _ = []"

definition in_transit :: "lists_state \<Rightarrow> transit list" where
  "in_transit s =
     transit_of Done (queue s xDisplayQueue)
     @ (if p_pc (processor s) = P_Display then [Done (p_packet (processor s))] else [])
     @ transit_of Raw (queue s xSnapshotQueue)"

fun stands_for :: "libm \<Rightarrow> transit \<Rightarrow> Sensors_DataPacket \<Rightarrow> bool" where
  "stands_for lm (Raw p) p' \<longleftrightarrow> p = p'"
| "stands_for lm (Done q) p \<longleftrightarrow> processed lm p q"

definition refines :: "libm \<Rightarrow> lists_state \<Rightarrow> Sensors_DataPacket list \<Rightarrow> bool" where
  "refines lm s xs \<longleftrightarrow> list_all2 (stands_for lm) (in_transit s) xs"

lemma list_all2_subseq: "list_all2 P bs xs \<Longrightarrow> subseq as bs \<Longrightarrow> \<exists>ys. subseq ys xs \<and> list_all2 P as ys"
proof (induction arbitrary: as rule: list_all2_induct)
  case (Cons b bs x xs)
  show ?case
  proof (cases "\<exists>as'. as = b # as' \<and> subseq as' bs")
    case True
    then obtain as' where "as = b # as'" "subseq as' bs" by blast
    with Cons.IH Cons.hyps show ?thesis by (metis list.rel_intros(2) subseq_Cons2)
  next
    case False
    with Cons.prems have "subseq as bs" by (cases as) (auto split: if_splits)
    with Cons.IH show ?thesis by (meson list_emb_Cons)
  qed
qed (auto intro: exI [of _ "[]"])

lemma refines_lose: "subseq (in_transit t) (in_transit s) \<Longrightarrow> refines lm s xs \<Longrightarrow> \<exists>ys. subseq ys xs \<and> refines lm t ys"
  unfolding refines_def by (blast dest: list_all2_subseq)

lemma refines_stay:
  "in_transit t = in_transit s \<Longrightarrow> takes e = [] \<Longrightarrow> shows_of e = [] \<Longrightarrow> refines lm s xs \<Longrightarrow>
   \<exists>ys. channel lm xs e ys \<and> refines lm t ys"
  by (auto simp: refines_def intro!: exI [of _ xs] channel.other)

lemma simulation:
  assumes "step list_os lm s e t" and "refines lm s xs"
  shows "\<exists>ys. channel lm xs e ys \<and> refines lm t ys"
  using assms(1)
proof (cases rule: list_step_cases)
  case (sense qs rs c p d x r qs' rs')
  then have "in_transit t = in_transit s"
    by (auto simp: in_transit_def queue_def rtos_simps split: option.splits)
  with assms(2) sense(3) show ?thesis by (intro refines_stay) simp_all
next
  case (collect qs rs c p d now qs' rs' c')
  note s = collect(1) and t = collect(2)
  show ?thesis
  proof (cases "c_pc c = C_Snapshot \<and> qs xSnapshotQueue = None")
    case True
    then have "in_transit t = in_transit s @ [Raw (c_packet c)]"
      using collect(3) unfolding s t by (auto simp: in_transit_def queue_def rtos_simps collect_step_def)
    then show ?thesis using True collect(4) assms(2)
      by (intro exI [of _ "xs @ [c_packet c]"]) (auto simp: refines_def list_all2_appendI intro: channel.put)
  next
    case False
    then have "in_transit t = in_transit s"
      using collect(3) unfolding s t
      by (cases "c_pc c"; cases rs) (auto simp: in_transit_def queue_def rtos_simps collect_step_def split: option.splits)
    moreover have "channel lm xs e xs" unfolding collect(4) by (auto intro: channel.put channel.other)
    ultimately show ?thesis using assms(2) by (auto simp: refines_def)
  qed
next
  case (process qs rs c p d behind qs' rs' p')
  note s = process(1) and t = process(2)
  have lose: "\<exists>ys. subseq ys xs \<and> refines lm t ys"
  proof (cases "p_pc p")
    case P_Receive
    then show ?thesis
    proof (cases "qs xSnapshotQueue")
      case None
      with P_Receive have "in_transit t = in_transit s"
        using process(3) unfolding s t by (auto simp: in_transit_def queue_def rtos_simps process_step_def)
      with assms(2) show ?thesis by (auto simp: refines_def)
    next
      case (Some i)
      show ?thesis
      proof (cases "\<exists>x q. i = Snapshot x \<and> process_snapshot lm behind x = Some q")
        case True
        then obtain x q where i: "i = Snapshot x" "process_snapshot lm behind x = Some q" by blast
        with Some P_Receive have "in_transit s = transit_of Done (qs xDisplayQueue) @ [Raw x]"
          "in_transit t = transit_of Done (qs xDisplayQueue) @ [Done q]"
          using process(3) unfolding s t by (auto simp: in_transit_def queue_def rtos_simps process_step_def)
        moreover have "processed lm x q" using i(2) by (auto simp: processed_def)
        ultimately have "refines lm t xs" using assms(2)
          unfolding refines_def by (auto simp: list_all2_append1 list_all2_Cons1) (metis append_Cons append_Nil list.size(3,4) add.right_neutral add_Suc_right)
        then show ?thesis by blast
      next
        case False
        then have "subseq (in_transit t) (in_transit s)"
          using process(3) Some P_Receive unfolding s t
          by (cases i) (auto simp: in_transit_def queue_def rtos_simps process_step_def split: option.splits)
        then show ?thesis using assms(2) by (rule refines_lose)
      qed
    qed
  next
    case P_Display
    then have "subseq (in_transit t) (in_transit s)"
      using process(3) unfolding s t
      by (cases "qs xDisplayQueue") (auto simp: in_transit_def queue_def rtos_simps process_step_def subseq_append' intro: list_emb_Cons)
    then show ?thesis using assms(2) by (rule refines_lose)
  next
    case P_MQTT
    then have "in_transit t = in_transit s"
      using process(3) unfolding s t
      by (cases "qs xMQTTQueue") (auto simp: in_transit_def queue_def rtos_simps process_step_def)
    with assms(2) show ?thesis by (auto simp: refines_def)
  next
    case P_Fault
    then have "in_transit t = in_transit s"
      using process(3) unfolding s t by (auto simp: in_transit_def queue_def rtos_simps process_step_def)
    with assms(2) show ?thesis by (auto simp: refines_def)
  qed
  then obtain ys where "subseq ys xs" "refines lm t ys" by blast
  then show ?thesis using process(4) by (intro exI [of _ ys]) (simp add: channel.other)
next
  case (display qs rs c p d r qs' rs')
  note s = display(1) and t = display(2)
  show ?thesis
  proof (cases "\<exists>q. qs xDisplayQueue = Some (Snapshot q)")
    case True
    then obtain q where q: "qs xDisplayQueue = Some (Snapshot q)" by blast
    then have "transit_of Done (qs xDisplayQueue) = [Done q]" by simp
    then have "in_transit s = Done q # in_transit t"
      using display(3) unfolding s t by (auto simp: in_transit_def queue_def rtos_simps display_step_def)
    moreover have "r = Some (Snapshot q)" using q display(3) by (simp add: rtos_simps display_step_def)
    then have "e = Shown q" using display(4) by simp
    ultimately show ?thesis using assms(2)
      by (auto simp: refines_def list_all2_Cons1 intro: channel.get)
  next
    case False
    then have "transit_of Done (qs xDisplayQueue) = []" by (cases "(Done, qs xDisplayQueue)" rule: transit_of.cases) auto
    then have "in_transit t = in_transit s"
      using display(3) unfolding s t by (auto simp: in_transit_def queue_def rtos_simps display_step_def)
    moreover have "e = Silent" using False display(3,4) by (auto simp: rtos_simps display_step_def split: option.splits item.splits)
    ultimately show ?thesis using assms(2) by (intro refines_stay) simp_all
  qed
next
  case (publish qs rs c p d missing j qs' rs' d')
  then have "in_transit t = in_transit s"
    by (cases "s_pc d") (auto simp: in_transit_def queue_def rtos_simps send_step_def split: option.splits)
  moreover have "takes e = []" "shows_of e = []" using publish(4) by (auto split: option.splits)
  ultimately show ?thesis using assms(2) by (intro refines_stay) simp_all
qed

lemma exec_refines: "exec list_os lm (pipeline_init now empty_lists) tr t \<Longrightarrow> \<exists>xs. channel_run lm tr xs \<and> refines lm t xs"
proof (induction "pipeline_init now empty_lists" tr t rule: exec.induct)
  case start
  have "refines lm (pipeline_init now empty_lists) []"
    by (simp add: refines_def in_transit_def queue_def pipeline_init_def empty_lists_def process_init_def)
  then show ?case by (blast intro: channel_run.empty)
next
  case (more tr t e u)
  then show ?case by (meson simulation channel_run.more)
qed

subsection \<open>Once printable, always printable\<close>

text \<open>The packets the BME280 tasks send carry their print function.\<close>

definition bme_printable :: "event list \<Rightarrow> bool" where
  "bme_printable tr \<longleftrightarrow> (\<forall>x p. Sensed x (BME280_Reading p) \<in> set tr \<longrightarrow> BME280_DataPacket.jsonify p = JSON_BME280)"

lemma json_ready_store:
  assumes "collect_store x (Reading r) p = Some p'" and "matches x r" and "json_ready p"
    and "\<And>b. r = BME280_Reading b \<Longrightarrow> BME280_DataPacket.jsonify b = JSON_BME280"
  shows "json_ready p'"
  using assms by (cases r; cases x) (auto simp: collect_store_def store_bme_def store_dht_def json_ready_def)

lemma json_ready_step:
  assumes "step list_os lm s e t" and "healthy tr s" and "bme_printable tr" and "json_ready (c_packet (collector s))"
  shows "json_ready (c_packet (collector t))"
  using assms(1)
proof (cases rule: list_step_cases)
  case (collect qs rs c p d now qs' rs' c')
  note s = collect(1) and t = collect(2)
  show ?thesis
  proof (cases "\<exists>x i. c_pc c = C_Receive x \<and> qs (xDataQueue x) = Some i")
    case True
    then obtain x i where x: "c_pc c = C_Receive x" "qs (xDataQueue x) = Some i" by blast
    with assms(2) have "item_ok (xDataQueue x) i" "origin_ok tr (xDataQueue x) i"
      unfolding s healthy_def queues_typed_def all_measured_def queue_def by auto
    then obtain r where i: "i = Reading r" "matches x r" "Sensed x r \<in> set tr" by (cases i) auto
    with assms(3) have b: "\<And>b. r = BME280_Reading b \<Longrightarrow> BME280_DataPacket.jsonify b = JSON_BME280" by (auto simp: bme_printable_def)
    obtain p' where p': "collect_store x (Reading r) (c_packet c) = Some p'" using collect_store_matches [OF i(2)] by blast
    with collect(3) x i(1) have "c_packet c' = p'" by (auto simp: collect_step_def rtos_simps)
    with json_ready_store [OF p' i(2) _ b] assms(4) show ?thesis unfolding s t by simp
  next
    case False
    with collect(3) have "c_packet c' = c_packet c"
      by (cases "c_pc c"; cases rs) (auto simp: collect_step_def rtos_simps split: option.splits)
    with assms(4) show ?thesis unfolding s t by simp
  qed
qed (use assms(4) in simp_all)

lemma taken_ready: "step list_os lm s (Taken p) t \<Longrightarrow> p = c_packet (collector s)"
  by (cases rule: list_step_cases)
    (auto simp: display_step_def rtos_simps split: option.splits item.splits if_splits)

lemma exec_printable:
  assumes "exec list_os lm s tr' t" and "healthy tr s" and "printable s" and "json_ready (c_packet (collector s))"
    and "bme_printable (tr @ tr')"
  shows "printable t \<and> json_ready (c_packet (collector t))"
  using assms
proof (induction rule: exec.induct)
  case (more s tr' t e u)
  have b: "bme_printable (tr @ tr')" using more.prems(4) by (auto simp: bme_printable_def)
  have h: "healthy (tr @ tr') t" using more.hyps(1) more.prems(1) by (rule healthy_exec)
  have *: "printable t \<and> json_ready (c_packet (collector t))" by (rule more.IH [OF more.prems(1-3) b])
  with h have "printable u" using taken_ready [of lm t _ u] more.hyps(2)
    by (intro printable_step [OF more.hyps(2)]) (auto simp: healthy_def)
  with json_ready_step [OF more.hyps(2) h b] * show ?case by blast
qed simp

text \<open>Before the first snapshot nothing is under way.\<close>

lemma exec_before_first:
  assumes "exec list_os lm (pipeline_init now empty_lists) tr s" and "taken tr = []"
  shows "printable s"
  using assms
proof (induction "pipeline_init now empty_lists" tr s rule: exec.induct)
  case (more tr t e u)
  have "queues_typed t" using healthy_exec [OF more.hyps(1) healthy_init] by (simp add: healthy_def)
  with more show ?case by (intro printable_step [OF more.hyps(3)]) auto
qed (rule printable_init)

subsection \<open>Schedules\<close>

text \<open>A choice of the scheduler and the step it makes on the list kernel: runs that can be evaluated.\<close>

datatype choice =
    Do_sense sensor reading | Do_collect u32 | Do_process "Average_DataPacket list" | Do_display | Do_publish string

fun do_step :: "libm \<Rightarrow> choice \<Rightarrow> lists_state \<Rightarrow> event \<times> lists_state" where
  "do_step lm (Do_sense x r) s = (Sensed x r, s\<lparr>kernel := snd (xQueueSend list_os (xDataQueue x) (Reading r) (kernel s))\<rparr>)"
| "do_step lm (Do_collect now) s =
     (let (k, c) = collect_step list_os now (kernel s) (collector s)
      in (if c_pc (collector s) = C_Snapshot then Taken (c_packet (collector s)) else Silent, s\<lparr>kernel := k, collector := c\<rparr>))"
| "do_step lm (Do_process behind) s =
     (let (k, p) = process_step list_os lm behind (kernel s) (processor s) in (Silent, s\<lparr>kernel := k, processor := p\<rparr>))"
| "do_step lm Do_display s =
     (let (r, k) = display_step list_os (kernel s)
      in (case r of Some (Snapshot p) \<Rightarrow> Shown p | _ \<Rightarrow> Silent, s\<lparr>kernel := k\<rparr>))"
| "do_step lm (Do_publish missing) s =
     (let (t, k, d) = send_step list_os missing (kernel s) (sender s)
      in (case t of Some j \<Rightarrow> Published j | None \<Rightarrow> Silent, s\<lparr>kernel := k, sender := d\<rparr>))"

fun run_schedule :: "libm \<Rightarrow> choice list \<Rightarrow> event list \<times> lists_state \<Rightarrow> event list \<times> lists_state" where
  "run_schedule lm [] (tr, s) = (tr, s)"
| "run_schedule lm (c # cs) (tr, s) = (let (e, t) = do_step lm c s in run_schedule lm cs (tr @ [e], t))"

definition allowed :: "choice \<Rightarrow> bool" where
  "allowed c \<longleftrightarrow> (case c of Do_sense x r \<Rightarrow> matches x r | _ \<Rightarrow> True)"

lemma do_step_sound: "allowed c \<Longrightarrow> do_step lm c s = (e, t) \<Longrightarrow> step list_os lm s e t"
  by (cases c) (auto simp: allowed_def split: prod.splits intro: step.intros)

lemma run_schedule_sound:
  "run_schedule lm cs (tr, s) = (tr', t) \<Longrightarrow> list_all allowed cs \<Longrightarrow> exec list_os lm s0 tr s \<Longrightarrow> exec list_os lm s0 tr' t"
  by (induction cs arbitrary: tr s) (auto split: prod.splits intro: exec.more do_step_sound)

subsection \<open>Properties\<close>

text \<open>A kernel as it is when the scheduler starts.\<close>

lemma on_lists_init:
  "content k = (\<lambda>_. None) \<Longrightarrow> ready k = [] \<Longrightarrow> on_lists content ready (pipeline_init now k) = pipeline_init now empty_lists"
  by (simp add: on_lists_def pipeline_init_def empty_lists_def)

lemma exec_from_start:
  assumes "freertos os content ready" and "content k = (\<lambda>_. None)" and "ready k = []"
    and "exec os lm (pipeline_init now k) tr s"
  shows "exec list_os lm (pipeline_init now empty_lists) tr (on_lists content ready s)"
  using freertos.exec_lists [OF assms(1,4)] assms(2,3) by (simp add: on_lists_init)

lemma healthy_from_start:
  assumes "freertos os content ready" and "content k = (\<lambda>_. None)" and "ready k = []"
    and "exec os lm (pipeline_init now k) tr s"
  shows "healthy tr (on_lists content ready s)"
  using healthy_exec [OF exec_from_start [OF assms] healthy_init] by simp

text \<open>C4. Invariant of the queue set: whatever the scheduler does, the set holds the handle of a sensor queue exactly when
  that queue holds a packet and the collector has not just been told of it, and holds it once, so that the set
  never needs more than the nine handles it was created for; the queue the collector has been told of holds a packet of its sensor's
  type, so that its receive without waiting never fails and never stores a wrong type.\<close>

theorem PIPELINE_queue_set:
  assumes "freertos os content ready" and "content k = (\<lambda>_. None)" and "ready k = []"
    and "exec os lm (pipeline_init now k) tr s"
  shows "(\<forall>x. x \<in> set (ready (kernel s)) \<longleftrightarrow> content (kernel s) (xDataQueue x) \<noteq> None \<and> c_pc (collector s) \<noteq> C_Receive x)
    \<and> distinct (ready (kernel s)) \<and> length (ready (kernel s)) \<le> 9 \<and> c_pc (collector s) \<noteq> C_Fault
    \<and> (\<forall>x. c_pc (collector s) = C_Receive x \<longrightarrow> (\<exists>r. content (kernel s) (xDataQueue x) = Some (Reading r) \<and> matches x r))"
proof -
  from healthy_from_start [OF assms] have q: "queues_agree (on_lists content ready s)" "queues_typed (on_lists content ready s)"
    by (simp_all add: healthy_def)
  have "\<exists>r. content (kernel s) (xDataQueue x) = Some (Reading r) \<and> matches x r" if "c_pc (collector s) = C_Receive x" for x
  proof -
    from q(1) that obtain i where "content (kernel s) (xDataQueue x) = Some i" by (auto simp: queue_defs)
    with q(2) show ?thesis by (cases i) (force simp: queues_typed_def queue_def)+
  qed
  moreover have "x \<in> set (ready (kernel s)) \<longleftrightarrow> content (kernel s) (xDataQueue x) \<noteq> None \<and> c_pc (collector s) \<noteq> C_Receive x" for x
    using q(1) by (cases "c_pc (collector s)") (auto simp: queue_defs)
  ultimately show ?thesis using q length_pending [OF q(1)] by (auto simp: queue_defs queues_typed_def simp del: not_None_eq)
qed

text \<open>Nothing is invented: every packet in a snapshot that reaches the display was sent by the task of the sensor whose slot
  it is in (or is the zero packet the snapshot started with), and every published text is the JSON of a packet
  that a BME280 task sent.\<close>

theorem PIPELINE_measured:
  assumes "freertos os content ready" and "content k = (\<lambda>_. None)" and "ready k = []"
    and "exec os lm (pipeline_init now k) tr s"
  shows "(\<forall>p x. Shown p \<in> set tr \<longrightarrow> reading_of x p = reading_of x sensors_zero \<or> Sensed x (reading_of x p) \<in> set tr)
    \<and> (\<forall>j. Published j \<in> set tr \<longrightarrow> published_ok tr j)"
  using healthy_from_start [OF assms] by (auto simp: healthy_def all_measured_def measured_def)

text \<open>C1. Refinement: between the collector and the display the three tasks and two queues are a lossy first-in first-out
  channel. Every run of the pipeline is a run of the abstract channel; what is shown are processed snapshots
  in the order in which they were taken, none of them twice.\<close>

theorem PIPELINE_refines_channel:
  assumes "freertos os content ready" and "content k = (\<lambda>_. None)" and "ready k = []"
    and "exec os lm (pipeline_init now k) tr s"
  shows "\<exists>xs ps. channel_run lm tr xs \<and> subseq (ps @ xs) (taken tr) \<and> list_all2 (processed lm) ps (shown tr)"
  using exec_refines [OF exec_from_start [OF assms]] channel_run_order by blast

text \<open>C14. The sender never calls through NULL once the collector has stored a packet of each BME280 before the first snapshot:
  from such a state on, whatever happens, it does not fault, as long as the BME280 tasks send packets with
  their print function set.\<close>

theorem PIPELINE_prints_safely:
  assumes "freertos os content ready" and "content k = (\<lambda>_. None)" and "ready k = []"
    and "exec os lm (pipeline_init now k) tr s" and "taken tr = []" and "json_ready (c_packet (collector s))"
    and "exec os lm s tr' t" and "bme_printable (tr @ tr')"
  shows "s_pc (sender t) \<noteq> S_Fault"
proof -
  note run = exec_from_start [OF assms(1-4)]
  have "printable (on_lists content ready s)" by (rule exec_before_first [OF run assms(5)])
  moreover have "healthy tr (on_lists content ready s)" by (rule healthy_from_start [OF assms(1-4)])
  ultimately have "printable (on_lists content ready t)"
    using exec_printable [OF freertos.exec_lists [OF assms(1,7)]] assms(6,8) by simp
  then show ?thesis by (simp add: printable_def)
qed

text \<open>C40. And only that order saves it: with every kernel there is a run in which the sender calls a function through NULL. No
  sensor has to send anything; two seconds after the start the collector posts the snapshot it began with,
  whose \<open>jsonify\<close> pointers are NULL, and the sender calls them without a test.\<close>

theorem PIPELINE_early_snapshot_faults:
  assumes "freertos os content ready" and "content k = (\<lambda>_. None)" and "ready k = []"
  shows "\<exists>tr t. exec os lm (pipeline_init now k) tr t \<and> s_pc (sender t) = S_Fault \<and> (\<forall>x r. Sensed x r \<notin> set tr)"
proof -
  note laws = freertos.send_content [OF assms(1)] freertos.receive_content [OF assms(1)] freertos.select [OF assms(1)]
  let ?c = "\<lambda>pc. (collect_init now)\<lparr>c_pc := pc\<rparr>" and ?zero = "Snapshot sensors_zero"
  let ?s = "\<lambda>k pc d. (pipeline_init now k)\<lparr>collector := ?c pc, sender := d\<rparr>"
  obtain m k1 where k1: "xQueueSelectFromSet os k = (m, k1)" by fastforce
  obtain r2 k2 where k2: "xQueueSend os xSnapshotQueue ?zero k1 = (r2, k2)" by fastforce
  obtain r3 k3 where k3: "xQueueSend os xMQTTQueue ?zero k2 = (r3, k3)" by fastforce
  obtain r4 k4 where k4: "xQueueReceive os xMQTTQueue k3 = (r4, k4)" by fastforce
  have m: "m = None" "content k1 = (\<lambda>_. None)" using laws(4) [OF k1] assms(2,3) by auto
  have r4: "r4 = Some ?zero" using laws(2) [OF k4] laws(1) [OF k3] laws(1) [OF k2] m(2) by simp
  have zero: "collect_init now = ?c C_Select" "c_packet (collect_init now) = sensors_zero" "xLastSendTime (collect_init now) = now"
    by (simp_all add: collect_init_def)
  note cs = step.collect [where lm = lm and e = Silent] step.collect [where lm = lm and e = "Taken sensors_zero"]
  have start: "exec os lm (pipeline_init now k) [] (?s k C_Select send_init)"
    using exec.start [of os lm "pipeline_init now k"] by (simp add: pipeline_init_def zero(1) [symmetric])
  have 1: "step os lm (?s k C_Select send_init) Silent (?s k1 C_Time send_init)"
    using cs(1) [of os now "?s k C_Select send_init" k1 "?c C_Time"] by (simp add: pipeline_init_def collect_step_def k1 m)
  have 2: "step os lm (?s k1 C_Time send_init) Silent (?s k1 C_Snapshot send_init)"
    using cs(1) [of os "now + 2000" "?s k1 C_Time send_init" k1 "?c C_Snapshot"]
    by (simp add: pipeline_init_def collect_step_def zero(3) xSendInterval_def)
  have 3: "step os lm (?s k1 C_Snapshot send_init) (Taken sensors_zero) (?s k2 C_MQTT send_init)"
    using cs(2) [of os now "?s k1 C_Snapshot send_init" k2 "?c C_MQTT"]
    by (simp add: pipeline_init_def collect_step_def k2 zero(2))
  have 4: "step os lm (?s k2 C_MQTT send_init) Silent (?s k3 C_Stamp send_init)"
    using cs(1) [of os now "?s k2 C_MQTT send_init" k3 "?c C_Stamp"]
    by (simp add: pipeline_init_def collect_step_def k3 zero(2))
  let ?d = "send_init\<lparr>s_pc := S_BME280_0\<rparr>"
  have 5: "step os lm (?s k3 C_Stamp send_init) Silent (?s k4 C_Stamp ?d)"
    using step.publish [of os "[]" "?s k3 C_Stamp send_init" None k4 ?d Silent lm]
    by (simp add: pipeline_init_def send_step_def send_init_def k4 r4)
  have 6: "step os lm (?s k4 C_Stamp ?d) Silent (?s k4 C_Stamp (send_init\<lparr>s_pc := S_Fault\<rparr>))"
    using step.publish [of os "[]" "?s k4 C_Stamp ?d" None k4 "send_init\<lparr>s_pc := S_Fault\<rparr>" Silent lm]
    by (simp add: pipeline_init_def send_step_def send_init_def sensors_zero_def BME280_zero_def)
  note run = exec.more [OF exec.more [OF exec.more [OF exec.more [OF exec.more [OF exec.more [OF start 1] 2] 3] 4] 5] 6]
  show ?thesis by (rule exI, rule exI, rule conjI, rule run) simp
qed

subsection \<open>Runs\<close>

definition bme_ready :: BME280_DataPacket where "bme_ready = BME280_zero\<lparr>BME280_DataPacket.jsonify := JSON_BME280\<rparr>"

lemmas run_simps = rtos_simps collect_step_def process_step_def display_step_def send_step_def pipeline_init_def
  collect_init_def process_init_def send_init_def empty_lists_def allowed_def collect_store_def store_bme_def xSendInterval_def

lemma run_exec:
  "run_schedule lm cs ([], pipeline_init now empty_lists) = (tr, s) \<Longrightarrow> list_all allowed cs \<Longrightarrow>
   exec list_os lm (pipeline_init now empty_lists) tr s"
  by (rule run_schedule_sound) (auto intro: exec.start)

lemma empty_lists_sel [simp]: "fst empty_lists = (\<lambda>_. None)" "snd empty_lists = []"
  by (simp_all add: empty_lists_def)

theorem PIPELINE_queue_set_witness:
  "\<exists>tr s. exec list_os id_libm (pipeline_init 0 empty_lists) tr s \<and> c_pc (collector s) = C_Receive BME280_1
    \<and> (\<exists>r. fst (kernel s) (xDataQueue BME280_1) = Some (Reading r) \<and> matches BME280_1 r)"
proof -
  obtain tr s where r: "run_schedule id_libm [Do_sense BME280_1 (BME280_Reading bme_ready), Do_collect 0]
      ([], pipeline_init 0 empty_lists) = (tr, s)" by fastforce
  then have e: "exec list_os id_libm (pipeline_init 0 empty_lists) tr s" by (rule run_exec) (simp add: run_simps)
  moreover from r have c: "c_pc (collector s) = C_Receive BME280_1" by (auto simp: run_simps)
  ultimately show ?thesis
    using PIPELINE_queue_set [OF list_os.freertos_axioms empty_lists_sel e] by auto
qed

lemma shown_run:
  "\<exists>tr s q. exec list_os id_libm (pipeline_init 0 empty_lists) tr s \<and> shown tr = [q] \<and> Shown q \<in> set tr"
proof -
  obtain q where q: "process_snapshot id_libm [avg 0 0] sensors_zero = Some q" using process_snapshot_defined by blast
  obtain tr s where r: "run_schedule id_libm [Do_collect 0, Do_collect 2000, Do_collect 2000, Do_process [avg 0 0], Do_process [], Do_display]
      ([], pipeline_init 0 empty_lists) = (tr, s)" by fastforce
  then have e: "exec list_os id_libm (pipeline_init 0 empty_lists) tr s" by (rule run_exec) (simp add: run_simps)
  moreover from r have "shown tr = [q] \<and> Shown q \<in> set tr" by (auto simp: run_simps q shown_def)
  ultimately show ?thesis by blast
qed

theorem PIPELINE_measured_witness:
  "\<exists>tr s q. exec list_os id_libm (pipeline_init 0 empty_lists) tr s \<and> Shown q \<in> set tr
    \<and> (reading_of SGP30_0 q = reading_of SGP30_0 sensors_zero \<or> Sensed SGP30_0 (reading_of SGP30_0 q) \<in> set tr)"
proof -
  obtain tr s q where e: "exec list_os id_libm (pipeline_init 0 empty_lists) tr s" and q: "Shown q \<in> set tr"
    using shown_run by blast
  from PIPELINE_measured [OF list_os.freertos_axioms empty_lists_sel e] e q show ?thesis by blast
qed

theorem PIPELINE_refines_channel_witness:
  "\<exists>tr s q p. exec list_os id_libm (pipeline_init 0 empty_lists) tr s \<and> shown tr = [q] \<and> processed id_libm p q"
proof -
  obtain tr s q where e: "exec list_os id_libm (pipeline_init 0 empty_lists) tr s" and q: "shown tr = [q]"
    using shown_run by blast
  from PIPELINE_refines_channel [OF list_os.freertos_axioms empty_lists_sel e] q
  obtain ps where "list_all2 (processed id_libm) ps [q]" by auto
  then obtain p where "processed id_libm p q" by (cases ps) auto
  with e q show ?thesis by blast
qed

theorem PIPELINE_prints_safely_witness:
  "\<exists>tr s tr' t. exec list_os id_libm (pipeline_init 0 empty_lists) tr s \<and> exec list_os id_libm s tr' t
    \<and> taken tr' \<noteq> [] \<and> s_pc (sender t) \<noteq> S_Fault"
proof -
  obtain tr s where r: "run_schedule id_libm
      [Do_sense BME280_0 (BME280_Reading bme_ready), Do_collect 0, Do_collect 0, Do_collect 0,
       Do_sense BME280_1 (BME280_Reading bme_ready), Do_collect 0, Do_collect 0, Do_collect 0]
      ([], pipeline_init 0 empty_lists) = (tr, s)" by fastforce
  then have e: "exec list_os id_libm (pipeline_init 0 empty_lists) tr s" by (rule run_exec) (simp add: run_simps)
  from r have s: "taken tr = []" "json_ready (c_packet (collector s))" "bme_printable tr"
    by (auto simp: run_simps taken_def json_ready_def bme_ready_def bme_printable_def)
  obtain tr' t where r': "run_schedule id_libm
      [Do_collect 2000, Do_collect 2000, Do_collect 2000, Do_collect 2000, Do_publish [], Do_publish [], Do_publish []]
      ([], s) = (tr', t)" by fastforce
  then have e': "exec list_os id_libm s tr' t"
    by (rule run_schedule_sound) (simp_all add: allowed_def exec.start)
  from r r' have t: "taken tr' \<noteq> []" "bme_printable tr'"
    by (auto simp: run_simps taken_def bme_printable_def bme_ready_def split: option.splits)
  have "s_pc (sender t) \<noteq> S_Fault"
    by (rule PIPELINE_prints_safely [OF list_os.freertos_axioms empty_lists_sel e s(1,2) e'])
      (use s(3) t(2) in \<open>auto simp: bme_printable_def\<close>)
  with e e' t(1) show ?thesis by blast
qed

theorem PIPELINE_early_snapshot_faults_witness:
  "\<exists>tr t. exec list_os id_libm (pipeline_init 0 empty_lists) tr t \<and> s_pc (sender t) = S_Fault"
  using PIPELINE_early_snapshot_faults [OF list_os.freertos_axioms empty_lists_sel] by blast

end
