(* ===== verification/EEPROM.thy ===== *)
theory EEPROM
  imports Bus
begin

text \<open>
  The 24LC01B/24FC01 serial EEPROM on the I2C bus (src/storage/24lc01b.c, include/storage/*.h):
  single-page writes, sequential reads, and blobs cut at page boundaries. The chip is a parameter;
  \<open>eeprom_chip\<close> states what its data sheet promises: a write of at most a page stores into one
  8-byte page, wrapping inside it, and a sequential read continues at the address last set.
\<close>

definition EEPROM_ADDR :: u8 where "EEPROM_ADDR = 0x50"

definition EEPROM_PAGE_SIZE :: nat where "EEPROM_PAGE_SIZE = 8"

definition hkEEPROM_24FC01 :: bool where "hkEEPROM_24FC01 = True"

text \<open>\<open>data\<close> points to at least \<open>size\<close> bytes.\<close>

record DataPacket =
  data :: "u8 list"
  size :: u32
  address :: u32

definition EEPROM_Write :: "'e i2c_env \<Rightarrow> DataPacket \<Rightarrow> 'e world \<Rightarrow> bool \<times> 'e world" where
  "EEPROM_Write env pkt w =
     (let a = ucast (address pkt) :: u8;
          n = unat (size pkt)
      in if n = 0 \<or> EEPROM_PAGE_SIZE < n then (False, w)
      else let w = mutex_enter_blocking w;
               (st, w) = i2c_write env EEPROM_ADDR [a] True w
      in if st \<noteq> 1 then (False, mutex_exit w)
      else let buffer = a # take n (data pkt);
               (st, w) = i2c_write env EEPROM_ADDR buffer False w
      in if st \<noteq> int (1 + n) then (False, mutex_exit w)
      else (True, delay_ms 6 (mutex_exit w)))"

text \<open>\<open>speed\<close> of the configuration is in Hz. The bytes read fill \<open>data\<close>.\<close>

definition EEPROM_Read :: "'e i2c_env \<Rightarrow> u32 \<Rightarrow> DataPacket \<Rightarrow> 'e world \<Rightarrow> (bool \<times> u8 list) \<times> 'e world" where
  "EEPROM_Read env spd pkt w =
     (if \<not> hkEEPROM_24FC01 \<and> 400 < spd then ((False, data pkt), w)
      else let a = ucast (address pkt) :: u8;
               n = unat (size pkt);
               w = mutex_enter_blocking w;
               (st, w) = i2c_write env EEPROM_ADDR [a] True w
      in if st \<noteq> 1 then ((False, data pkt), mutex_exit w)
      else let ((st, bs), w) = i2c_read env EEPROM_ADDR n False w;
               buf = fill n bs (data pkt)
      in if st \<noteq> int n then ((False, buf), mutex_exit w)
      else ((True, buf), mutex_exit w))"

text \<open>The chunk \<open>EEPROM_WriteBlob\<close> writes at \<open>offset\<close>: up to the end of the page or of the data.\<close>

definition blob_chunk :: "u16 \<Rightarrow> nat \<Rightarrow> nat \<Rightarrow> nat" where
  "blob_chunk addr offset len =
     (let absAddr = addr + word_of_nat offset;
          pageOffset = unat absAddr mod EEPROM_PAGE_SIZE;
          chunk = EEPROM_PAGE_SIZE - pageOffset
      in if len - offset < chunk then len - offset else chunk)"

lemma blob_chunk_pos: "offset < len \<Longrightarrow> 0 < blob_chunk addr offset len"
  by (simp add: blob_chunk_def Let_def EEPROM_PAGE_SIZE_def)

lemma blob_chunk_le: "blob_chunk addr offset len \<le> 8" "offset \<le> len \<Longrightarrow> offset + blob_chunk addr offset len \<le> len"
  by (auto simp: blob_chunk_def Let_def EEPROM_PAGE_SIZE_def)

lemma blob_chunk_page: "unat (addr + word_of_nat offset) mod 8 + blob_chunk addr offset len \<le> 8"
  by (auto simp: blob_chunk_def Let_def EEPROM_PAGE_SIZE_def)

text \<open>The loop. The result is the return value: \<open>false\<close> (0) or the address after the data.\<close>

function blob_loop :: "'e i2c_env \<Rightarrow> u16 \<Rightarrow> u8 list \<Rightarrow> nat \<Rightarrow> 'e world \<Rightarrow> u16 \<times> 'e world" where
  "blob_loop env addr bytes offset w =
     (if offset < length bytes then
        let chunk = blob_chunk addr offset (length bytes);
            pkt = \<lparr>data = drop offset bytes, size = word_of_nat chunk, address = ucast (addr + word_of_nat offset)\<rparr>;
            (ok, w) = EEPROM_Write env pkt w
        in if \<not> ok then (0, w)
           else blob_loop env addr bytes (offset + chunk) (delay_ms 6 w)
      else (addr + word_of_nat offset, w))"
  by pat_completeness auto
termination
  by (relation "measure (\<lambda>(env, addr, bytes, offset, w). length bytes - offset)")
     (use blob_chunk_pos in \<open>auto simp: diff_less_mono2\<close>)

declare blob_loop.simps [simp del]

definition EEPROM_WriteBlob :: "'e i2c_env \<Rightarrow> u16 \<Rightarrow> u8 list \<Rightarrow> 'e world \<Rightarrow> u16 \<times> 'e world" where
  "EEPROM_WriteBlob env addr bytes w = blob_loop env addr bytes 0 w"

definition EEPROM_ReadBlob :: "'e i2c_env \<Rightarrow> u32 \<Rightarrow> u16 \<Rightarrow> u8 list \<Rightarrow> 'e world \<Rightarrow> (bool \<times> u8 list) \<times> 'e world" where
  "EEPROM_ReadBlob env spd addr buff w =
     EEPROM_Read env spd \<lparr>data = buff, size = word_of_nat (length buff), address = ucast addr\<rparr> w"

subsection \<open>What the chip promises\<close>

text \<open>Cell \<open>j\<close> after writing \<open>bs\<close> from address \<open>a\<close>: inside the page of \<open>a\<close>, wrapping at its end.\<close>

definition page_write :: "u8 list \<Rightarrow> nat \<Rightarrow> u8 list \<Rightarrow> u8 list" where
  "page_write mem a bs =
     fold (\<lambda>i m. m[a div 8 * 8 + (a + i) mod 8 := bs ! i]) [0..<length bs] mem"

definition eeprom_chip :: "'e i2c_env \<Rightarrow> ('e \<Rightarrow> u8 list) \<Rightarrow> ('e \<Rightarrow> nat) \<Rightarrow> bool" where
  "eeprom_chip env mem ptr \<longleftrightarrow>
     (\<forall>d. length (mem d) = 128) \<and>
     (\<forall>d a. fst (bus_write env EEPROM_ADDR [a] True d) = 1
          \<and> mem (snd (bus_write env EEPROM_ADDR [a] True d)) = mem d
          \<and> ptr (snd (bus_write env EEPROM_ADDR [a] True d)) = unat a mod 128) \<and>
     (\<forall>d a bs. 0 < length bs \<and> length bs \<le> 8 \<longrightarrow>
          fst (bus_write env EEPROM_ADDR (a # bs) False d) = int (1 + length bs)
          \<and> mem (snd (bus_write env EEPROM_ADDR (a # bs) False d)) = page_write (mem d) (unat a mod 128) bs) \<and>
     (\<forall>d n. fst (bus_read env EEPROM_ADDR n False d)
          = (int n, map (\<lambda>i. mem d ! ((ptr d + i) mod 128)) [0..<n]))"

lemma page_write_length [simp]: "length (page_write mem a bs) = length mem"
proof -
  have "length (fold (\<lambda>i m. m[f i := g i]) xs mem) = length mem" for f g and xs :: "nat list"
    by (induction xs arbitrary: mem) simp_all
  then show ?thesis by (simp add: page_write_def)
qed

text \<open>A write that does not reach the end of its page is a plain block write.\<close>

lemma page_write_block:
  assumes "a mod 8 + length bs \<le> 8" "j < length mem"
  shows "page_write mem a bs ! j = (if a \<le> j \<and> j < a + length bs then bs ! (j - a) else mem ! j)"
proof -
  have idx: "a div 8 * 8 + (a + i) mod 8 = a + i" if "i < length bs" for i
  proof -
    have "(a + i) mod 8 = (a mod 8 + i) mod 8" by (simp add: mod_add_left_eq)
    also have "\<dots> = a mod 8 + i" using that assms(1) by simp
    finally show ?thesis by simp
  qed
  have "fold (\<lambda>i m. m[a div 8 * 8 + (a + i) mod 8 := bs ! i]) [0..<n] mem ! j
      = (if a \<le> j \<and> j < a + n then bs ! (j - a) else mem ! j)" if "n \<le> length bs" for n
    using that
  proof (induction n)
    case 0
    then show ?case by auto
  next
    case (Suc n)
    have len: "length (fold (\<lambda>i m. m[a div 8 * 8 + (a + i) mod 8 := bs ! i]) xs mem) = length mem" for xs :: "nat list"
      by (induction xs rule: rev_induct) simp_all
    show ?case using Suc assms(2) idx [of n] len [of "[0..<n]"]
      by (cases "j = a + n") (auto simp: nth_list_update_neq)
  qed
  then show ?thesis by (simp add: page_write_def)
qed

subsection \<open>Facts\<close>

lemma EEPROM_Write_free: "lock_state w = Some False \<Longrightarrow> lock_state (snd (EEPROM_Write env pkt w)) = Some False"
  by (simp add: EEPROM_Write_def Let_def case_prod_unfold bus_simps)

lemma blob_loop_free: "lock_state w = Some False \<Longrightarrow> lock_state (snd (blob_loop env addr bytes offset w)) = Some False"
proof (induction env addr bytes offset w rule: blob_loop.induct)
  case (1 env addr bytes offset w)
  let ?pkt = "\<lparr>data = drop offset bytes, size = word_of_nat (blob_chunk addr offset (length bytes)),
               address = ucast (addr + word_of_nat offset)\<rparr>"
  have f: "lock_state (snd (EEPROM_Write env ?pkt w)) = Some False" by (rule EEPROM_Write_free [OF 1(2)])
  show ?case
    using 1 f by (subst blob_loop.simps) (auto simp: Let_def bus_simps split: prod.splits)
qed

lemma chip_write:
  assumes "eeprom_chip env mem ptr" "0 < length bs" "length bs \<le> 8" "unat (address pkt) < 128"
    and "data pkt = bs @ rest" "size pkt = word_of_nat (length bs)"
  shows "fst (EEPROM_Write env pkt w)"
    and "mem (dev (snd (EEPROM_Write env pkt w))) = page_write (mem (dev w)) (unat (address pkt)) bs"
proof -
  have n: "unat (size pkt) = length bs" using assms(3,6) by (simp add: unat_word_of_nat)
  have a: "unat (ucast (address pkt) :: u8) mod 128 = unat (address pkt)"
    using assms(4) by (simp add: unsigned_ucast_eq take_bit_nat_eq_self)
  note chip = assms(1) [unfolded eeprom_chip_def]
  show "fst (EEPROM_Write env pkt w)" "mem (dev (snd (EEPROM_Write env pkt w))) = page_write (mem (dev w)) (unat (address pkt)) bs"
    using chip assms(2,3,5) n a
    by (simp_all add: EEPROM_Write_def Let_def case_prod_unfold bus_simps EEPROM_PAGE_SIZE_def)
qed

lemma blob_loop_stores:
  assumes "eeprom_chip env mem ptr" "unat addr + length bytes \<le> 128" "offset \<le> length bytes"
    and "\<forall>j < 128. mem (dev w) ! j = (if unat addr \<le> j \<and> j < unat addr + offset then bytes ! (j - unat addr) else m0 ! j)"
  shows "fst (blob_loop env addr bytes offset w) = addr + word_of_nat (length bytes)
    \<and> (\<forall>j < 128. mem (dev (snd (blob_loop env addr bytes offset w))) ! j =
         (if unat addr \<le> j \<and> j < unat addr + length bytes then bytes ! (j - unat addr) else m0 ! j))"
  using assms
proof (induction env addr bytes offset w rule: blob_loop.induct)
  case (1 env addr bytes offset w)
  show ?case
  proof (cases "offset < length bytes")
    case False
    with 1(4) have "offset = length bytes" by simp
    with 1(5) show ?thesis by (simp add: blob_loop.simps [of env addr bytes])
  next
    case True
    let ?c = "blob_chunk addr offset (length bytes)"
    let ?a = "unat addr + offset"
    let ?pkt = "\<lparr>data = drop offset bytes, size = word_of_nat ?c, address = ucast (addr + word_of_nat offset)\<rparr>"
    let ?bs = "take ?c (drop offset bytes)"
    have c: "0 < ?c" "?c \<le> 8" "offset + ?c \<le> length bytes"
      using blob_chunk_pos [OF True] blob_chunk_le True by (simp_all add: less_imp_le)
    have ua: "unat (addr + word_of_nat offset) = ?a"
      using 1(3) True by (simp add: unat_word_ariths unat_word_of_nat)
    have addr: "unat (address ?pkt) = ?a" by (simp add: unat_ucast_up ua)
    have lb: "length ?bs = ?c" using c by simp
    have "drop offset bytes = ?bs @ drop ?c (drop offset bytes)" by (rule append_take_drop_id [symmetric])
    then have ok: "fst (EEPROM_Write env ?pkt w)" "mem (dev (snd (EEPROM_Write env ?pkt w))) = page_write (mem (dev w)) ?a ?bs"
      using chip_write [OF 1(2), of ?bs ?pkt "drop ?c (drop offset bytes)" w] c lb addr 1(3) True by simp_all
    have page: "?a mod 8 + length ?bs \<le> 8" using blob_chunk_page [of addr offset "length bytes"] ua lb by simp
    have ml: "length (mem (dev w)) = 128" using 1(2) by (simp add: eeprom_chip_def)
    have mem': "\<forall>j < 128. page_write (mem (dev w)) ?a ?bs ! j =
        (if unat addr \<le> j \<and> j < unat addr + (offset + ?c) then bytes ! (j - unat addr) else m0 ! j)"
    proof (intro allI impI)
      fix j :: nat assume j: "j < 128"
      have "page_write (mem (dev w)) ?a ?bs ! j = (if ?a \<le> j \<and> j < ?a + ?c then ?bs ! (j - ?a) else mem (dev w) ! j)"
        using page_write_block [OF page, of j "mem (dev w)"] j ml lb by simp
      moreover have "?bs ! (j - ?a) = bytes ! (j - unat addr)" if "?a \<le> j" "j < ?a + ?c"
        using that c by (simp add: add.commute)
      ultimately show "page_write (mem (dev w)) ?a ?bs ! j =
        (if unat addr \<le> j \<and> j < unat addr + (offset + ?c) then bytes ! (j - unat addr) else m0 ! j)"
        using 1(5) j by auto
    qed
    have unfold: "blob_loop env addr bytes offset w =
        blob_loop env addr bytes (offset + ?c) (delay_ms 6 (snd (EEPROM_Write env ?pkt w)))"
      using ok(1) True by (subst blob_loop.simps) (simp add: Let_def case_prod_unfold)
    show ?thesis
      unfolding unfold
      by (rule 1(1) [OF True refl refl refl prod.collapse])
         (use ok mem' 1(2,3) c(3) in \<open>simp_all add: bus_simps\<close>)
  qed
qed

lemma chip_read:
  assumes "eeprom_chip env mem ptr" "unat addr + length buff \<le> 128"
  shows "EEPROM_ReadBlob env spd addr buff w = ((True, map (\<lambda>i. mem (dev w) ! (unat addr + i)) [0..<length buff]),
     snd (EEPROM_ReadBlob env spd addr buff w))"
proof -
  let ?w1 = "snd (i2c_write env EEPROM_ADDR [ucast addr] True (mutex_enter_blocking w))"
  note chip = assms(1) [unfolded eeprom_chip_def]
  have a: "ucast (ucast addr :: u32) = (ucast addr :: u8)" by (rule bit_word_eqI) (auto simp: bit_simps)
  have n: "unat (word_of_nat (length buff) :: u32) = length buff" using assms(2) by (simp add: unat_word_of_nat)
  have st: "fst (i2c_write env EEPROM_ADDR [ucast addr] True (mutex_enter_blocking w)) = 1"
    using chip by (simp add: bus_simps)
  have r: "fst (i2c_read env EEPROM_ADDR (length buff) False ?w1) =
      (int (length buff), map (\<lambda>i. mem (dev w) ! ((unat (ucast addr :: u8) mod 128 + i) mod 128)) [0..<length buff])"
    using chip by (simp add: bus_simps)
  have m: "map (\<lambda>i. mem (dev w) ! ((unat (ucast addr :: u8) mod 128 + i) mod 128)) [0..<length buff]
      = map (\<lambda>i. mem (dev w) ! (unat addr + i)) [0..<length buff]"
  proof (rule map_cong [OF refl])
    fix i assume "i \<in> set [0..<length buff]"
    then have i: "unat addr + i < 128" using assms(2) by auto
    then have "unat (ucast addr :: u8) = unat addr" by (simp add: unsigned_ucast_eq take_bit_nat_eq_self)
    with i show "mem (dev w) ! ((unat (ucast addr :: u8) mod 128 + i) mod 128) = mem (dev w) ! (unat addr + i)" by simp
  qed
  show ?thesis
    by (rule prod_eqI)
       (simp_all add: EEPROM_ReadBlob_def EEPROM_Read_def hkEEPROM_24FC01_def Let_def case_prod_unfold a n st r m fill_all)
qed

subsection \<open>Properties\<close>

text \<open>A chip of 128 cells with its address counter, for the witnesses.\<close>

definition chip_mem :: "u8 list \<times> nat \<Rightarrow> u8 list" where
  "chip_mem d = (if length (fst d) = 128 then fst d else replicate 128 0)"

definition chip_env :: "(u8 list \<times> nat) i2c_env" where
  "chip_env = \<lparr>bus_write = \<lambda>a bs ns d.
       (int (length bs),
        (if length bs = 1 then chip_mem d else page_write (chip_mem d) (unat (hd bs) mod 128) (tl bs),
         unat (hd bs) mod 128)),
     bus_read = \<lambda>a n ns d. ((int n, map (\<lambda>i. chip_mem d ! ((snd d + i) mod 128)) [0..<n]), d)\<rparr>"

text \<open>C8. Round trip of the EEPROM: on a chip that behaves as its data sheet says, a blob that fits the 128 cells is
  stored whole by \<open>EEPROM_WriteBlob\<close>, whatever page boundaries it crosses, \<open>EEPROM_ReadBlob\<close> of the same
  length returns it, every other cell keeps its value, and the result is the address after the data.\<close>

theorem EEPROM_blob_roundtrip:
  assumes "eeprom_chip env mem ptr" and "unat addr + length bytes \<le> 128" and "length buff = length bytes"
    and "w' = snd (EEPROM_WriteBlob env addr bytes w)"
  shows "fst (EEPROM_WriteBlob env addr bytes w) = addr + word_of_nat (length bytes)
     \<and> fst (EEPROM_ReadBlob env spd addr buff w') = (True, bytes)
     \<and> (\<forall>j < 128. (j < unat addr \<or> unat addr + length bytes \<le> j) \<longrightarrow> mem (dev w') ! j = mem (dev w) ! j)"
proof -
  have b: "\<forall>j < 128. mem (dev w) ! j =
      (if unat addr \<le> j \<and> j < unat addr + 0 then bytes ! (j - unat addr) else mem (dev w) ! j)" by auto
  have s: "fst (EEPROM_WriteBlob env addr bytes w) = addr + word_of_nat (length bytes)"
    "\<forall>j < 128. mem (dev w') ! j = (if unat addr \<le> j \<and> j < unat addr + length bytes then bytes ! (j - unat addr) else mem (dev w) ! j)"
    using blob_loop_stores [OF assms(1,2) le0 b] unfolding assms(4) EEPROM_WriteBlob_def by blast+
  have "map (\<lambda>i. mem (dev w') ! (unat addr + i)) [0..<length buff] = bytes"
    using s(2) assms(2,3) by (intro nth_equalityI) simp_all
  then have "fst (EEPROM_ReadBlob env spd addr buff w') = (True, bytes)"
    using chip_read [OF assms(1), of addr buff spd w'] assms(2,3) by (metis fst_conv)
  then show ?thesis using s by auto
qed

lemma chip_env_ok: "eeprom_chip chip_env chip_mem snd"
  by (auto simp: eeprom_chip_def chip_env_def chip_mem_def split: prod.splits)

theorem EEPROM_blob_roundtrip_witness:
  "fst (EEPROM_ReadBlob chip_env 400 5 [0, 0, 0, 0, 0, 0]
      (snd (EEPROM_WriteBlob chip_env 5 [1, 2, 3, 4, 5, 6] \<lparr>dev = (replicate 128 0xFF, 0), blog = []\<rparr>))) = (True, [1, 2, 3, 4, 5, 6])"
  using EEPROM_blob_roundtrip [OF chip_env_ok _ _ refl, of 5 "[1, 2, 3, 4, 5, 6]" "[0, 0, 0, 0, 0, 0]" "\<lparr>dev = (replicate 128 0xFF, 0), blog = []\<rparr>" 400]
  by simp

text \<open>Whatever the bus answers, no page write of a blob crosses the end of an 8-byte page or is empty, and the bus
  mutex is free again afterwards.\<close>

theorem EEPROM_blob_pages:
  assumes "bus_free w" and "offset < length bytes"
  shows "bus_free (snd (EEPROM_WriteBlob env addr bytes w))
     \<and> 0 < blob_chunk addr offset (length bytes)
     \<and> unat (addr + word_of_nat offset) mod EEPROM_PAGE_SIZE + blob_chunk addr offset (length bytes) \<le> EEPROM_PAGE_SIZE
     \<and> offset + blob_chunk addr offset (length bytes) \<le> length bytes"
  using assms blob_loop_free [of w env addr bytes 0] blob_chunk_pos [OF assms(2), of addr]
    blob_chunk_page [of addr offset "length bytes"] blob_chunk_le(2) [of offset "length bytes" addr]
  by (simp add: bus_free_def EEPROM_WriteBlob_def EEPROM_PAGE_SIZE_def)

theorem EEPROM_blob_pages_witness:
  "bus_free (snd (EEPROM_WriteBlob silent_env 5 [1, 2, 3, 4, 5, 6] quiet_world)) \<and> blob_chunk 5 3 6 \<le> 3"
  using EEPROM_blob_pages [of quiet_world 3 "[1, 2, 3, 4, 5, 6]" silent_env 5]
  by (simp add: bus_free_def eval_nat_numeral)

end
