(* ===== verification/Net.thy ===== *)
theory Net
  imports EEPROM
begin

text \<open>
  WiFi and MQTT (src/comm/network/wifi.c, mqtt.c, src/manager.c, the start of src/send.c,
  include/comm/network/ping.h, mqtt.h). The radio, lwIP and the MQTT client are parameters; strings
  are byte lists without their NUL, arrays are byte lists of their length. The event group is a
  word of bits. The two state machines, the WiFi task and the one-shot manager task, run
  interleaved with the HTTP handler and the ping callback in \<open>boot_step\<close>.
\<close>

subsection \<open>C strings\<close>

text \<open>\<open>strncpy(dst, src, n)\<close>: the \<open>n\<close> bytes stored. A C string read from memory ends at its NUL; \<open>None\<close> without one.\<close>

definition strncpy :: "u8 list \<Rightarrow> nat \<Rightarrow> u8 list" where
  "strncpy src n = take n src @ replicate (n - length src) 0"

definition c_string :: "u8 list \<Rightarrow> u8 list option" where
  "c_string mem = (if 0 \<in> set mem then Some (takeWhile (\<lambda>b. b \<noteq> 0) mem) else None)"

lemma length_strncpy [simp]: "length (strncpy src n) = n"
  by (simp add: strncpy_def)

lemma c_string_strncpy:
  assumes "0 \<notin> set src" and "length src < n"
  shows "c_string (strncpy src n @ rest) = Some src"
proof -
  have "n - length src = Suc (n - length src - 1)" using assms(2) by simp
  then obtain k where k: "strncpy src n = src @ 0 # replicate k 0"
    using assms(2) by (metis strncpy_def take_all less_imp_le replicate_Suc)
  have "\<forall>b \<in> set src. b \<noteq> 0" using assms(1) by auto
  then have "takeWhile (\<lambda>b. b \<noteq> 0) (src @ 0 # replicate k 0 @ rest) = src" by (simp add: takeWhile_append2)
  then show ?thesis by (simp add: c_string_def k)
qed

subsection \<open>Configuration and credentials (include/comm/network/wifi.h)\<close>

definition WIFI_CONNECTED_BIT :: u32 where "WIFI_CONNECTED_BIT = push_bit 0 1"
definition BIT_MODE_NORMAL_OPERATION :: u32 where "BIT_MODE_NORMAL_OPERATION = push_bit 0 1"
definition BIT_MODE_CONFIG :: u32 where "BIT_MODE_CONFIG = push_bit 1 1"
definition BIT_MQTT_CONNECTED :: u32 where "BIT_MQTT_CONNECTED = push_bit 0 1"

definition SSID_MAXLEN :: nat where "SSID_MAXLEN = 64"
definition PASS_MAXLEN :: nat where "PASS_MAXLEN = 64"

text \<open>The addresses the task keeps for its log messages are left out.\<close>

record WIFI_Config =
  ssid :: "u8 list"
  password :: "u8 list"
  authType :: u32
  country :: u32

record WiFiCredentials =
  cssid :: "u8 list"
  cpass :: "u8 list"

text \<open>The bytes of the structure, and the structure that bytes stored over it make.\<close>

definition creds_bytes :: "WiFiCredentials \<Rightarrow> u8 list" where "creds_bytes c = cssid c @ cpass c"

definition creds_of :: "u8 list \<Rightarrow> WiFiCredentials" where
  "creds_of bs = \<lparr>cssid = take SSID_MAXLEN bs, cpass = drop SSID_MAXLEN bs\<rparr>"

definition creds_zero :: WiFiCredentials where
  "creds_zero = \<lparr>cssid = replicate SSID_MAXLEN 0, cpass = replicate PASS_MAXLEN 0\<rparr>"

lemma creds_of_bytes: "length (cssid c) = SSID_MAXLEN \<Longrightarrow> creds_of (creds_bytes c) = c"
  by (simp add: creds_of_def creds_bytes_def)

text \<open>\<open>set_bits\<close>, \<open>clear_bits\<close>: \<open>xEventGroupSetBits\<close> and \<open>xEventGroupClearBits\<close>.\<close>

definition set_bits :: "u32 \<Rightarrow> u32 \<Rightarrow> u32" where "set_bits b g = g OR b"
definition clear_bits :: "u32 \<Rightarrow> u32 \<Rightarrow> u32" where "clear_bits b g = g AND NOT b"

lemmas bit_defs = WIFI_CONNECTED_BIT_def BIT_MODE_NORMAL_OPERATION_def BIT_MODE_CONFIG_def BIT_MQTT_CONNECTED_def set_bits_def clear_bits_def

subsection \<open>The configuration page (configHandler)\<close>

text \<open>The parameters of the request with their values, in order.\<close>

definition store_param :: "u8 list \<times> u8 list \<Rightarrow> WiFiCredentials \<Rightarrow> WiFiCredentials" where
  "store_param pv c =
     (if fst pv = map of_char ''ssid'' then c\<lparr>cssid := fill (SSID_MAXLEN - 1) (strncpy (snd pv) (SSID_MAXLEN - 1)) (cssid c)\<rparr>
      else if fst pv = map of_char ''pass'' then c\<lparr>cpass := fill (PASS_MAXLEN - 1) (strncpy (snd pv) (PASS_MAXLEN - 1)) (cpass c)\<rparr>
      else c)"

definition configHandler :: "'e i2c_env \<Rightarrow> (u8 list \<times> u8 list) list \<Rightarrow> u32 \<Rightarrow> 'e world \<Rightarrow> string \<times> u32 \<times> 'e world" where
  "configHandler env params g w =
     (let creds = fold store_param params creds_zero;
          (nextChunk, w) = EEPROM_WriteBlob env 0x00 (creds_bytes creds) w
      in (''/index.shtml'', clear_bits BIT_MODE_CONFIG g, w))"

subsection \<open>The heartbeat (include/comm/network/ping.h)\<close>

text \<open>The echo request of \<open>len\<close> bytes; \<open>inet_chksum\<close> gives the two checksum bytes in memory order.\<close>

definition pingPrepareEcho :: "(u8 list \<Rightarrow> u8 list) \<Rightarrow> u16 \<Rightarrow> nat \<Rightarrow> u8 list \<times> u16" where
  "pingPrepareEcho chksum pingSeqNum len =
     (let iecho = \<lambda>sum. [8, 0] @ sum @ [0xAF, 0xAF, ucast (drop_bit 8 pingSeqNum), ucast pingSeqNum] @ replicate (len - 8) 0xA5
      in (iecho (chksum (iecho [0, 0])), pingSeqNum + 1))"

text \<open>\<open>payload\<close> is what \<open>p->payload\<close> points to; the call keeps the packet.\<close>

definition pingRecvCallback :: "u16 \<Rightarrow> u8 list \<Rightarrow> u32 \<Rightarrow> u32 \<times> u8" where
  "pingRecvCallback pingSeqNum payload g =
     (if take 2 (drop 4 payload) = [0xAF, 0xAF]
         \<and> take 2 (drop 6 payload) = [ucast (drop_bit 8 (pingSeqNum - 1)), ucast (pingSeqNum - 1)]
      then (set_bits WIFI_CONNECTED_BIT g, 1) else (g, 1))"

text \<open>The timer: the packet sent when \<open>pbuf_alloc\<close> succeeded; it always rearms itself.\<close>

definition pingSendTimer :: "(u8 list \<Rightarrow> u8 list) \<Rightarrow> bool \<Rightarrow> u16 \<Rightarrow> u8 list option \<times> u16" where
  "pingSendTimer chksum alloc pingSeqNum =
     (let pingSize = 8 + 32
      in if alloc then map_prod Some id (pingPrepareEcho chksum pingSeqNum pingSize) else (None, pingSeqNum))"

subsection \<open>The WiFi task (vWifiManagerTask)\<close>

record 'r radio =
  cyw43_init :: "u32 \<Rightarrow> 'r \<Rightarrow> int \<times> 'r"
  cyw43_connect :: "u8 list \<Rightarrow> u8 list \<Rightarrow> u32 \<Rightarrow> nat \<Rightarrow> 'r \<Rightarrow> int \<times> 'r"
  cyw43_link_up :: "'r \<Rightarrow> bool \<times> 'r"

datatype wifi_pc = W_Start | W_Loop | W_Config | W_Rebooted | W_Suspended | W_Fault

datatype wifi_event =
    Connect "u8 list" "u8 list" nat
  | Heartbeat
  | Sta_Disabled
  | Access_Point
  | Http_Server
  | Led bool
  | Wait nat
  | Reboot

record ('e, 'r) net =
  wifi_pc :: wifi_pc
  events :: u32
  i2c :: "'e world"
  chip :: 'r
  wlog :: "wifi_event list"

definition note_events :: "wifi_event list \<Rightarrow> ('e, 'r) net \<Rightarrow> ('e, 'r) net" where
  "note_events es s = s\<lparr>wlog := wlog s @ es\<rparr>"

text \<open>
  From the entry of the task to its loop. \<open>behind\<close> is the memory after the credentials structure, to which a
  string without NUL runs on.
\<close>

definition wifi_start :: "'e i2c_env \<Rightarrow> u32 \<Rightarrow> 'r radio \<Rightarrow> WIFI_Config \<Rightarrow> u8 list \<Rightarrow> ('e, 'r) net \<Rightarrow> ('e, 'r) net" where
  "wifi_start env spd rad cfg behind s =
     (let creds = \<lparr>cssid = strncpy (ssid cfg) (SSID_MAXLEN - 1) @ [0], cpass = strncpy (password cfg) (PASS_MAXLEN - 1) @ [0]\<rparr>;
          (st, r) = cyw43_init rad (country cfg) (chip s);
          s = s\<lparr>chip := r\<rparr>
      in if st \<noteq> 0 then s\<lparr>wifi_pc := W_Suspended\<rparr>
         else let ((found, bs), w) = EEPROM_ReadBlob env spd 0x00 (creds_bytes creds) (i2c s);
                  creds = creds_of bs;
                  s = s\<lparr>i2c := w\<rparr>
         in case (c_string (creds_bytes creds @ behind), c_string (cpass creds @ behind)) of
              (Some name, Some pass) \<Rightarrow>
                let (st, r) = cyw43_connect rad name pass (authType cfg) 30000 (chip s);
                    s = note_events [Connect name pass 30000] (s\<lparr>chip := r\<rparr>)
                in if st \<noteq> 0
                   then (note_events [Sta_Disabled] s)\<lparr>events := clear_bits WIFI_CONNECTED_BIT (events s), wifi_pc := W_Loop\<rparr>
                   else (note_events [Heartbeat] s)\<lparr>events := set_bits WIFI_CONNECTED_BIT (events s), wifi_pc := W_Loop\<rparr>
            | _ \<Rightarrow> s\<lparr>wifi_pc := W_Fault\<rparr>)"

text \<open>A round of the outer loop, up to the entry of the configuration loop.\<close>

definition wifi_round :: "'r radio \<Rightarrow> WIFI_Config \<Rightarrow> ('e, 'r) net \<Rightarrow> ('e, 'r) net" where
  "wifi_round rad cfg s =
     (if events s AND BIT_MODE_CONFIG \<noteq> 0 then (note_events [Access_Point, Http_Server] s)\<lparr>wifi_pc := W_Config\<rparr>
      else let (up, r) = cyw43_link_up rad (chip s); s = s\<lparr>chip := r\<rparr>
      in if up then (note_events [Led True, Wait 30000] s)\<lparr>events := set_bits WIFI_CONNECTED_BIT (events s)\<rparr>
         else let s = (note_events [Led True, Wait 250, Led False, Wait 250] s)\<lparr>events := clear_bits WIFI_CONNECTED_BIT (events s)\<rparr>;
                  (st, r) = cyw43_connect rad (ssid cfg) (password cfg) (authType cfg) 10000 (chip s);
                  s = note_events [Connect (ssid cfg) (password cfg) 10000] (s\<lparr>chip := r\<rparr>)
              in note_events ((if st \<noteq> 0 then [] else [Heartbeat]) @ [Wait 10000]) s)"

text \<open>A round of the configuration loop: blink, or reboot once the bit is cleared.\<close>

definition config_round :: "('e, 'r) net \<Rightarrow> ('e, 'r) net" where
  "config_round s =
     (if events s AND BIT_MODE_CONFIG \<noteq> 0 then note_events [Led True, Wait 250, Led False, Wait 250] s
      else (note_events [Wait 1000, Reboot] s)\<lparr>wifi_pc := W_Rebooted\<rparr>)"

definition wifi_step :: "'e i2c_env \<Rightarrow> u32 \<Rightarrow> 'r radio \<Rightarrow> WIFI_Config \<Rightarrow> u8 list \<Rightarrow> ('e, 'r) net \<Rightarrow> ('e, 'r) net" where
  "wifi_step env spd rad cfg behind s =
     (case wifi_pc s of
        W_Start \<Rightarrow> wifi_start env spd rad cfg behind s
      | W_Loop \<Rightarrow> wifi_round rad cfg s
      | W_Config \<Rightarrow> config_round s
      | _ \<Rightarrow> s)"

subsection \<open>The manager (src/manager.c)\<close>

text \<open>\<open>network\<close> is what \<open>xEventGroupWaitBits\<close> returned: the bits when the wait ended or timed out.\<close>

definition vSystemManagerTask :: "u32 \<Rightarrow> u32 \<Rightarrow> u32" where
  "vSystemManagerTask network g =
     (if network AND WIFI_CONNECTED_BIT \<noteq> 0 then set_bits BIT_MODE_NORMAL_OPERATION g else set_bits BIT_MODE_CONFIG g)"

subsection \<open>MQTT (include/comm/network/mqtt.h, src/comm/network/mqtt.c, src/send.c)\<close>

definition tolower :: "u8 \<Rightarrow> u8" where
  "tolower b = (if 65 \<le> b \<and> b \<le> 90 then b + 32 else b)"

text \<open>
  The client identifier written to a buffer of \<open>sz\<close> bytes, with its NUL; \<open>None\<close> when a copy leaves a buffer. \<open>board\<close> is
  the board's identifier, at most 8 characters in an array of 9. Lengths are \<open>size_t\<close>.
\<close>

definition hkUniqueID :: "u8 list \<Rightarrow> u8 list \<Rightarrow> u32 \<Rightarrow> u8 list option" where
  "hkUniqueID deviceName board sz =
     (let uniqueID = map tolower board @ replicate (9 - length board) 0;
          nameLen = word_of_nat (length deviceName) :: u32;
          idLen = word_of_nat (length board) :: u32;
          idLen = (if nameLen + idLen + 1 > sz then sz - nameLen - 1 else idLen)
      in if unat nameLen + unat idLen < unat sz \<and> unat idLen \<le> 9
         then Some (deviceName @ take (unat idLen) uniqueID @ [0]) else None)"

definition PICO_ERROR_CONNECT_FAILED :: int where "PICO_ERROR_CONNECT_FAILED = - 8"
definition PICO_ERROR_INVALID_ADDRESS :: int where "PICO_ERROR_INVALID_ADDRESS = - 10"

record MQTT_Config =
  client_id :: "u8 list"
  keep_alive :: u16
  mqttServerAddress :: u32
  mqttServerPort :: u16
  topic :: string

definition hkMQTT_KEEPALIVE :: u16 where "hkMQTT_KEEPALIVE = 60"
definition hkMQTT_BROKER_ADDR :: string where "hkMQTT_BROKER_ADDR = ''192.168.1.50''"
definition hkMQTT_BROKER_PORT :: u16 where "hkMQTT_BROKER_PORT = 1883"
definition hkMQTT_TOPIC :: string where "hkMQTT_TOPIC = ''sensors/data''"

text \<open>\<open>created\<close>: \<open>mqtt_client_new\<close> succeeded; \<open>aton\<close>: \<open>ipaddr_aton\<close>. \<open>None\<close>: the identifier overran its 32 bytes.\<close>

definition MQTT_Init :: "u8 list \<Rightarrow> bool \<Rightarrow> (string \<Rightarrow> u32 option) \<Rightarrow> MQTT_Config \<Rightarrow> (int \<times> MQTT_Config) option" where
  "MQTT_Init board created aton config =
     map_option (\<lambda>clientID.
       if \<not> created then (PICO_ERROR_CONNECT_FAILED, config)
       else let config = config\<lparr>client_id := clientID, keep_alive := hkMQTT_KEEPALIVE\<rparr>
       in case aton hkMQTT_BROKER_ADDR of None \<Rightarrow> (PICO_ERROR_INVALID_ADDRESS, config)
          | Some a \<Rightarrow> (PICO_OK, config\<lparr>mqttServerAddress := a, mqttServerPort := hkMQTT_BROKER_PORT, topic := hkMQTT_TOPIC\<rparr>))
       (hkUniqueID (map of_char ''pico'') board 32)"

text \<open>The connection callback, and whether the sending task goes on to its loop once the client is connected.\<close>

definition mqttClientConnectCallback :: "bool \<Rightarrow> u32 \<Rightarrow> u32" where
  "mqttClientConnectCallback accepted g = (if accepted then set_bits BIT_MQTT_CONNECTED g else clear_bits BIT_MQTT_CONNECTED g)"

definition send_start :: "u8 list \<Rightarrow> bool \<Rightarrow> (string \<Rightarrow> u32 option) \<Rightarrow> (MQTT_Config \<Rightarrow> int) \<Rightarrow> MQTT_Config \<Rightarrow> (bool \<times> MQTT_Config) option" where
  "send_start board created aton connect params =
     map_option (\<lambda>(st, params).
       (\<not> (st = PICO_ERROR_CONNECT_FAILED \<or> st = PICO_ERROR_INVALID_ADDRESS \<or> connect params \<noteq> 0), params))
       (MQTT_Init board created aton params)"

subsection \<open>Starting up: the tasks and callbacks that share the event group\<close>

text \<open>
  The manager waits at most thirty seconds for the connected bit; \<open>M_Woken\<close> holds the bits the wait returned. The page is
  served while the access point is open; the ping callback is registered by the first \<open>initHeartbeat\<close>.
\<close>

datatype manager_pc = M_Waiting | M_Woken u32 | M_Done

datatype boot_event = E_Wifi | E_Wake | E_Mode | E_Page "(u8 list \<times> u8 list) list" | E_Ping u16 "u8 list"

inductive boot_step ::
  "'e i2c_env \<Rightarrow> u32 \<Rightarrow> 'r radio \<Rightarrow> WIFI_Config \<Rightarrow> u8 list \<Rightarrow> manager_pc \<times> ('e, 'r) net \<Rightarrow> boot_event \<Rightarrow> manager_pc \<times> ('e, 'r) net \<Rightarrow> bool"
  for env spd rad cfg behind where
  wifi: "boot_step env spd rad cfg behind (m, s) E_Wifi (m, wifi_step env spd rad cfg behind s)"
| wake: "boot_step env spd rad cfg behind (M_Waiting, s) E_Wake (M_Woken (events s), s)"
| mode: "boot_step env spd rad cfg behind (M_Woken network, s) E_Mode (M_Done, s\<lparr>events := vSystemManagerTask network (events s)\<rparr>)"
| page: "wifi_pc s = W_Config \<Longrightarrow> configHandler env params (events s) (i2c s) = (p, g, w) \<Longrightarrow>
    boot_step env spd rad cfg behind (m, s) (E_Page params) (m, s\<lparr>events := g, i2c := w\<rparr>)"
| ping: "Heartbeat \<in> set (wlog s) \<Longrightarrow> pingRecvCallback n payload (events s) = (g, eaten) \<Longrightarrow>
    boot_step env spd rad cfg behind (m, s) (E_Ping n payload) (m, s\<lparr>events := g\<rparr>)"

definition net_init :: "'e world \<Rightarrow> 'r \<Rightarrow> ('e, 'r) net" where
  "net_init w r = \<lparr>wifi_pc = W_Start, events = 0, i2c = w, chip = r, wlog = []\<rparr>"

inductive_cases boot_stepE: "boot_step env spd rad cfg behind s e t"

subsection \<open>Lemmas\<close>

lemma creds_lengths: "length (cssid (fold store_param ps c)) = length (cssid c)" "length (cpass (fold store_param ps c)) = length (cpass c)"
  by (induction ps arbitrary: c) (simp_all add: store_param_def)

lemma c_string_self: "0 \<notin> set name \<Longrightarrow> c_string (name @ 0 # rest) = Some name"
proof -
  assume "0 \<notin> set name"
  then have "\<forall>b \<in> set name. b \<noteq> 0" by auto
  then show ?thesis by (simp add: c_string_def takeWhile_append2)
qed

text \<open>What the page stores, read back as a string.\<close>

lemma strncpy_stored:
  assumes "0 \<notin> set name" and "length name < n"
  shows "c_string (fill (n - 1) (strncpy name (n - 1)) (replicate n 0) @ rest) = Some name"
proof -
  have f: "fill (n - 1) (strncpy name (n - 1)) (replicate n 0) = strncpy name (n - 1) @ [0]"
    using assms(2) by (simp add: fill_def)
  have "strncpy name (n - 1) @ [0] = name @ 0 # replicate (n - 1 - length name) 0"
    using assms(2) by (simp add: strncpy_def replicate_app_Cons_same)
  with f have "fill (n - 1) (strncpy name (n - 1)) (replicate n 0) = name @ 0 # replicate (n - 1 - length name) 0" by simp
  then show ?thesis using c_string_self [OF assms(1)] by simp
qed

text \<open>With a working chip the 128 cells are the credentials, whatever was configured.\<close>

lemma read_credentials:
  assumes "eeprom_chip env mem ptr" and "length buff = 128"
  shows "fst (EEPROM_ReadBlob env spd 0 buff w) = (True, mem (dev w))"
    "snd (EEPROM_ReadBlob env spd 0 buff w) = snd (EEPROM_ReadBlob env spd 0 (replicate 128 0) w)"
proof -
  have "length (mem (dev w)) = 128" using assms(1) by (simp add: eeprom_chip_def)
  then have "map (\<lambda>i. mem (dev w) ! i) [0..<128] = mem (dev w)" by (metis map_nth)
  then show "fst (EEPROM_ReadBlob env spd 0 buff w) = (True, mem (dev w))"
    by (subst chip_read [OF assms(1)]) (simp_all add: assms(2))
  show "snd (EEPROM_ReadBlob env spd 0 buff w) = snd (EEPROM_ReadBlob env spd 0 (replicate 128 0) w)"
    using assms(2) by (simp add: EEPROM_ReadBlob_def EEPROM_Read_def Let_def case_prod_unfold)
qed

text \<open>The start of the task on a working chip, once the radio is up.\<close>

lemma wifi_start_chip:
  assumes "eeprom_chip env mem ptr" and "cyw43_init rad (country cfg) (chip s) = (0, r)"
    and "c_string (mem (dev (i2c s)) @ behind) = Some name" and "c_string (drop 64 (mem (dev (i2c s))) @ behind) = Some pw"
    and "cyw43_connect rad name pw (authType cfg) 30000 r = (st, r')"
  shows "wifi_start env spd rad cfg behind s =
    s\<lparr>chip := r', i2c := snd (EEPROM_ReadBlob env spd 0 (replicate 128 0) (i2c s)), wifi_pc := W_Loop,
      wlog := wlog s @ [Connect name pw 30000, if st \<noteq> 0 then Sta_Disabled else Heartbeat],
      events := (if st \<noteq> 0 then clear_bits WIFI_CONNECTED_BIT (events s) else set_bits WIFI_CONNECTED_BIT (events s))\<rparr>"
proof -
  let ?creds = "creds_bytes \<lparr>cssid = strncpy (ssid cfg) (SSID_MAXLEN - 1) @ [0], cpass = strncpy (password cfg) (PASS_MAXLEN - 1) @ [0]\<rparr>"
  have "length ?creds = 128" by (simp add: creds_bytes_def SSID_MAXLEN_def PASS_MAXLEN_def)
  note r = read_credentials [OF assms(1) this, of spd "i2c s"]
  have "creds_bytes (creds_of (mem (dev (i2c s)))) = mem (dev (i2c s))" "cpass (creds_of (mem (dev (i2c s)))) = drop 64 (mem (dev (i2c s)))"
    by (simp_all add: creds_bytes_def creds_of_def SSID_MAXLEN_def)
  with assms(2-5) r show ?thesis
    by (cases "EEPROM_ReadBlob env spd 0 ?creds (i2c s)") (simp add: wifi_start_def Let_def note_events_def)
qed

text \<open>
  The raw socket hands the callback the packet with its IP header, so the four bytes it compares
  are the header's identification and fragment fields: what the gateway answered has no influence.
\<close>

lemma ping_reply_ignored:
  "length ip_header = 20 \<Longrightarrow> pingRecvCallback n (ip_header @ reply) g = pingRecvCallback n (ip_header @ other) g"
  by (simp add: pingRecvCallback_def)

subsection \<open>Properties\<close>

text \<open>A radio that always connects, a station and its start, for the witnesses.\<close>

definition good_radio :: "unit radio" where
  "good_radio = \<lparr>cyw43_init = (\<lambda>c d. (0, d)), cyw43_connect = (\<lambda>n p a t d. (0, d)), cyw43_link_up = (\<lambda>d. (True, d))\<rparr>"

definition demo_cfg :: WIFI_Config where
  "demo_cfg = \<lparr>ssid = map of_char ''NP2'', password = map of_char ''0123456789'', authType = 4, country = 0\<rparr>"

definition demo_world :: "(u8 list \<times> nat) world" where "demo_world = \<lparr>dev = (replicate 128 0xFF, 0), blog = []\<rparr>"

text \<open>C22. What is typed into the configuration page is what the station connects with after the reboot: a name and a
  password of at most 63 bytes, posted to the page, go through the credentials structure, the EEPROM's page
  writes, the power cycle, the read back and the string functions, and the first connection attempt is made
  with exactly these two.\<close>

theorem WIFI_credentials_survive_reboot:
  assumes "eeprom_chip env mem ptr" and "0 \<notin> set name" "length name < 64" and "0 \<notin> set pw" "length pw < 64"
    and "configHandler env [(map of_char ''ssid'', name), (map of_char ''pass'', pw)] g w = (page, g', w')"
    and "mem (dev (i2c s)) = mem (dev w')" and "cyw43_init rad (country cfg) (chip s) = (0, r)"
  shows "\<exists>e. wlog (wifi_start env spd rad cfg behind s) = wlog s @ [Connect name pw 30000, e]"
proof -
  define c where "c = fold store_param [(map of_char ''ssid'', name), (map of_char ''pass'', pw)] creds_zero"
  have c: "cssid c = fill 63 (strncpy name 63) (replicate 64 0)" "cpass c = fill 63 (strncpy pw 63) (replicate 64 0)"
    by (simp_all add: c_def store_param_def creds_zero_def SSID_MAXLEN_def PASS_MAXLEN_def)
  have len: "length (creds_bytes c) = 128" by (simp add: creds_bytes_def c)
  have w': "w' = snd (EEPROM_WriteBlob env 0 (creds_bytes c) w)"
    using assms(6) by (simp add: configHandler_def c_def split: prod.splits)
  have "\<forall>j < 128. mem (dev w) ! j = (if unat (0 :: u16) \<le> j \<and> j < unat (0 :: u16) + 0 then creds_bytes c ! (j - unat (0 :: u16)) else mem (dev w) ! j)"
    by simp
  from blob_loop_stores [OF assms(1) _ _ this] len have "\<forall>j < 128. mem (dev w') ! j = creds_bytes c ! j"
    by (simp add: w' EEPROM_WriteBlob_def)
  moreover have "length (mem (dev w')) = 128" using assms(1) by (simp add: eeprom_chip_def)
  ultimately have m: "mem (dev (i2c s)) = creds_bytes c" using len assms(7) by (simp add: nth_equalityI)
  have "c_string (mem (dev (i2c s)) @ behind) = Some name"
    using strncpy_stored [OF assms(2,3), of "cpass c @ behind"] by (simp add: m creds_bytes_def c(1))
  moreover have "c_string (drop 64 (mem (dev (i2c s))) @ behind) = Some pw"
    using strncpy_stored [OF assms(4,5), of behind] by (simp add: m creds_bytes_def c)
  ultimately show ?thesis
    using wifi_start_chip [OF assms(1,8)] by (cases "cyw43_connect rad name pw (authType cfg) 30000 r") simp
qed

theorem WIFI_credentials_survive_reboot_witness:
  "\<exists>page g w e. configHandler chip_env [(map of_char ''ssid'', [78, 80]), (map of_char ''pass'', [49, 50])] 2 demo_world = (page, g, w)
    \<and> wlog (wifi_start chip_env 400000 good_radio demo_cfg [] (net_init w ())) = [Connect [78, 80] [49, 50] 30000, e]"
proof -
  obtain page g w where h: "configHandler chip_env [(map of_char ''ssid'', [78, 80]), (map of_char ''pass'', [49, 50])] 2 demo_world = (page, g, w)"
    by (metis prod.collapse)
  have "\<exists>e. wlog (wifi_start chip_env 400000 good_radio demo_cfg [] (net_init w ())) = wlog (net_init w ()) @ [Connect [78, 80] [49, 50] 30000, e]"
    by (rule WIFI_credentials_survive_reboot [OF chip_env_ok _ _ _ _ h, where r = "()"]) (simp_all add: net_init_def good_radio_def)
  with h show ?thesis by (simp add: net_init_def)
qed

text \<open>A blank or corrupt EEPROM locks the configured network out: as long as the chip answers, whatever its cells
  hold counts as saved credentials, and the name and password compiled into the firmware have no influence on
  the start of the WiFi task.\<close>

theorem WIFI_config_credentials_unused:
  assumes "eeprom_chip env mem ptr"
  shows "wifi_start env spd rad cfg behind s = wifi_start env spd rad (cfg\<lparr>ssid := any_ssid, password := any_password\<rparr>) behind s"
proof -
  let ?creds = "\<lambda>cfg. creds_bytes \<lparr>cssid = strncpy (ssid cfg) (SSID_MAXLEN - 1) @ [0], cpass = strncpy (password cfg) (PASS_MAXLEN - 1) @ [0]\<rparr>"
  have len: "length (?creds cfg) = 128" for cfg :: WIFI_Config by (simp add: creds_bytes_def SSID_MAXLEN_def PASS_MAXLEN_def)
  define cfg' where "cfg' = cfg\<lparr>ssid := any_ssid, password := any_password\<rparr>"
  have eq: "EEPROM_ReadBlob env spd 0 (?creds cfg) w = EEPROM_ReadBlob env spd 0 (?creds cfg') w" for w
    using read_credentials [OF assms len, of spd cfg w] read_credentials [OF assms len, of spd cfg' w] by (metis prod.collapse)
  have "authType cfg' = authType cfg" "country cfg' = country cfg" by (simp_all add: cfg'_def)
  then show ?thesis unfolding cfg'_def [symmetric] wifi_start_def Let_def eq by (simp only:)
qed

theorem WIFI_config_credentials_unused_witness:
  "wifi_start chip_env 400000 good_radio demo_cfg [0] (net_init demo_world ()) =
   wifi_start chip_env 400000 good_radio (demo_cfg\<lparr>ssid := [1], password := [2]\<rparr>) [0] (net_init demo_world ())"
  by (rule WIFI_config_credentials_unused [OF chip_env_ok])

text \<open>The client identifier fits its buffer exactly when the device name leaves room for one more character: it is then
  the name and as much of the board identifier as fits, with its NUL; a longer name overruns the buffer,
  because the room left is computed without sign.\<close>

theorem MQTT_client_id_fits:
  assumes "length board \<le> 8" and "length deviceName < 2 ^ 31" and "unat sz < 2 ^ 31" "0 < sz"
  shows "(hkUniqueID deviceName board sz \<noteq> None \<longleftrightarrow> length deviceName < unat sz)
    \<and> (\<forall>text. hkUniqueID deviceName board sz = Some text \<longrightarrow> length text \<le> unat sz
         \<and> text = deviceName @ take (min (length board) (unat sz - length deviceName - 1)) (map tolower board) @ [0])"
proof -
  let ?n = "length deviceName" and ?b = "length board"
  let ?nw = "word_of_nat ?n :: u32" and ?bw = "word_of_nat ?b :: u32"
  have n: "unat ?nw = ?n" and b: "unat ?bw = ?b" using assms(1,2) by (simp_all add: unat_word_of_nat)
  have "unat (word_of_nat (?n + ?b + 1) :: u32) = ?n + ?b + 1" by (rule unat_word_of_nat) (use assms(1,2) in simp)
  moreover have "?nw + ?bw + 1 = word_of_nat (?n + ?b + 1)" by simp
  ultimately have sum: "?nw + ?bw + 1 > sz \<longleftrightarrow> ?n + ?b + 1 > unat sz" unfolding word_less_nat_alt by (simp only:)
  have u: "unat (word_of_nat (?n + 1) :: u32) = ?n + 1" by (rule unat_word_of_nat) (use assms(2) in simp)
  have e: "sz - ?nw - 1 = sz - word_of_nat (?n + 1)" by (simp add: algebra_simps)
  have diff: "unat (sz - ?nw - 1) = (if ?n + 1 \<le> unat sz then unat sz - (?n + 1) else unat sz + 2 ^ 32 - (?n + 1))"
    unfolding e unat_sub_if' u by simp
  have id: "hkUniqueID deviceName board sz =
      (if ?n + unat l < unat sz \<and> unat l \<le> 9 then Some (deviceName @ take (unat l) (map tolower board @ replicate (9 - ?b) 0) @ [0]) else None)"
    if "l = (if ?n + ?b + 1 > unat sz then sz - ?nw - 1 else ?bw)" for l
    unfolding hkUniqueID_def Let_def sum that n ..
  show ?thesis
  proof (cases "?n + ?b + 1 > unat sz")
    case True
    note id = id [of "sz - ?nw - 1", unfolded if_P [OF True], OF refl]
    show ?thesis
    proof (cases "?n < unat sz")
      case fits: True
      then have d: "unat (sz - ?nw - 1) = unat sz - (?n + 1)" using diff by simp
      have "hkUniqueID deviceName board sz = Some (deviceName @ take (unat sz - (?n + 1)) (map tolower board) @ [0])"
        using True fits assms(1) unfolding id d by simp
      then show ?thesis using True fits by simp
    next
      case False
      then have "\<not> unat (sz - ?nw - 1) \<le> 9" using assms(2,4) unfolding diff by simp
      then have "hkUniqueID deviceName board sz = None" unfolding id by simp
      then show ?thesis using False by simp
    qed
  next
    case False
    note id = id [of ?bw, unfolded if_not_P [OF False] b, OF refl]
    have "hkUniqueID deviceName board sz = Some (deviceName @ map tolower board @ [0])"
      using False assms(1) unfolding id by simp
    then show ?thesis using False by simp
  qed
qed

theorem MQTT_client_id_fits_witness:
  "hkUniqueID (map of_char ''pico'') (map of_char ''E6614103'') 32 \<noteq> None \<and> hkUniqueID (map of_char ''pico'') (map of_char ''E6614103'') 4 = None"
  using MQTT_client_id_fits [of "map of_char ''E6614103''" "map of_char ''pico''" 32]
    MQTT_client_id_fits [of "map of_char ''E6614103''" "map of_char ''pico''" 4] by simp

end
