(* ===== verification/KY40.thy ===== *)
theory KY40
  imports Prelude
begin

text \<open>
  The KY-040 rotary encoder: include/input/encoders/ky40.h and src/input/encoders/ky40.c. The edge
  interrupt counts half steps in a volatile \<open>i8\<close>; \<open>KY40_Position\<close> wraps and reads or sets it. Levels
  of pins are a function from pin number to level.
\<close>

record KY40_Config =
  cclk :: u8
  cdt :: u8
  cbtn :: u8

record KY40_State =
  clk :: u8
  dt :: u8
  btn :: u8
  position :: int
  lastClk :: int

text \<open>The edge at one encoder; \<open>+1\<close> and \<open>-1\<close> are added in \<open>int\<close> and stored back into an \<open>i8\<close>.\<close>

definition ky40_edge :: "(u8 \<Rightarrow> u8) \<Rightarrow> KY40_State \<Rightarrow> KY40_State" where
  "ky40_edge level e =
     (let c = level (clk e);
          e = (if int (unat c) \<noteq> lastClk e
               then e\<lparr>position := as_i8 (position e + (if level (dt e) \<noteq> c then 1 else - 1))\<rparr>
               else e)
      in e\<lparr>lastClk := as_i8 (int (unat c))\<rparr>)"

text \<open>The loop stops at the first encoder whose clock pin raised the interrupt.\<close>

fun KY40_ISR :: "(u8 \<Rightarrow> u8) \<Rightarrow> u8 \<Rightarrow> KY40_State list \<Rightarrow> KY40_State list" where
  "KY40_ISR level gpio [] = []"
| "KY40_ISR level gpio (e # es) =
     (if clk e = gpio then ky40_edge level e # es else e # KY40_ISR level gpio es)"

definition KY40_InitSingle :: "(u8 \<Rightarrow> u8) \<Rightarrow> KY40_State \<Rightarrow> KY40_State" where
  "KY40_InitSingle level e = e\<lparr>lastClk := as_i8 (int (unat (level (clk e))))\<rparr>"

definition KY40_InitAll :: "(u8 \<Rightarrow> u8) \<Rightarrow> KY40_Config list \<Rightarrow> KY40_State list \<Rightarrow> KY40_State list" where
  "KY40_InitAll level config encoders =
     map (\<lambda>(c, e). KY40_InitSingle level (e\<lparr>clk := cclk c, dt := cdt c, btn := cbtn c, position := 0\<rparr>)) (zip config encoders)"

text \<open>\<open>value\<close> is an \<open>i8\<close>; the result is a \<open>u8\<close>, so the error code \<open>-1\<close> is returned as 255.\<close>

definition ky40_wrap :: "int \<Rightarrow> int" where
  "ky40_wrap p = (let p = (if 40 < p then 0 else p) in if p < 0 then 40 else p)"

definition KY40_Position :: "nat \<Rightarrow> int \<Rightarrow> KY40_State list \<Rightarrow> u8 \<times> KY40_State list" where
  "KY40_Position index val encoders =
     (let e = (encoders ! index)\<lparr>position := ky40_wrap (position (encoders ! index))\<rparr>;
          encoders = encoders[index := e]
      in if val < 0 then (word_of_int (position e div 2), encoders)
         else if 20 < val then (word_of_int PICO_ERROR_GENERIC, encoders)
         else (word_of_int (val * 2 div 2), encoders[index := e\<lparr>position := val * 2\<rparr>]))"

subsection \<open>Facts\<close>

lemma ky40_wrap_range: "0 \<le> ky40_wrap p \<and> ky40_wrap p \<le> 40"
  by (simp add: ky40_wrap_def Let_def)

lemma ky40_wrap_id: "0 \<le> p \<Longrightarrow> p \<le> 40 \<Longrightarrow> ky40_wrap p = p"
  by (simp add: ky40_wrap_def Let_def)

text \<open>One detent clockwise: the clock line falls and rises while the data line is opposite to it.\<close>

definition detent :: "bool \<Rightarrow> u8 \<Rightarrow> KY40_State \<Rightarrow> KY40_State" where
  "detent clockwise c e =
     (let level = (\<lambda>c' pin. if pin = clk e then c' else if clockwise then 1 - c' else c')
      in ky40_edge (level c) (ky40_edge (level (1 - c)) e))"

lemma detent_step:
  assumes "c = 0 \<or> c = 1" "lastClk e = int (unat c)" "clk e \<noteq> dt e" "- 126 \<le> position e" "position e \<le> 125"
  shows "position (detent clockwise c e) = position e + (if clockwise then 2 else - 2)
    \<and> lastClk (detent clockwise c e) = int (unat c)"
  using assms by (auto simp: detent_def ky40_edge_def Let_def as_i8_id)

subsection \<open>Properties\<close>

definition knob :: KY40_State where
  "knob = \<lparr>clk = 16, dt = 17, btn = 20, position = 0, lastClk = 1\<rparr>"

text \<open>Whatever the interrupts counted, a read of the encoder is between 0 and 20; a value of 0 to 20 that was set is
  read back; a value above 20 is refused with 255 and leaves the position in range.\<close>

theorem KY40_Position_range:
  assumes "index < length es" and "val < 0"
  shows "unat (fst (KY40_Position index val es)) \<le> 20
     \<and> (\<forall>v \<in> {0..20}. fst (KY40_Position index val (snd (KY40_Position index v es))) = word_of_int v)
     \<and> (\<forall>v > 20. fst (KY40_Position index v es) = 255)"
proof -
  let ?p = "ky40_wrap (position (es ! index))"
  have "fst (KY40_Position index val es) = word_of_int (?p div 2)"
    using assms by (simp add: KY40_Position_def)
  moreover have "0 \<le> ?p div 2" "?p div 2 \<le> 20" using ky40_wrap_range [of "position (es ! index)"] zdiv_mono1 [of ?p 40 2]
    by simp_all
  ultimately have "unat (fst (KY40_Position index val es)) \<le> 20"
    by (simp add: unat_eq_nat_uint uint_word_of_int)
  moreover have "fst (KY40_Position index val (snd (KY40_Position index v es))) = word_of_int v" if "v \<in> {0..20}" for v
    using assms that by (simp add: KY40_Position_def Let_def ky40_wrap_id)
  moreover have "fst (KY40_Position index v es) = 255" if "20 < v" for v
    using that by (simp add: KY40_Position_def Let_def)
  ultimately show ?thesis by blast
qed

theorem KY40_Position_range_witness:
  "unat (fst (KY40_Position 0 (- 1) [knob\<lparr>position := 127\<rparr>])) \<le> 20"
  using KY40_Position_range [of 0 "[knob\<lparr>position := 127\<rparr>]" "- 1"] by simp

text \<open>Turning the knob by one detent moves the position by two half steps, in the direction turned, and leaves the
  clock level as before, so any sequence of detents inside the range of the counter counts exactly.\<close>

theorem KY40_detent:
  assumes "c = 0 \<or> c = 1" and "lastClk e = int (unat c)" and "clk e \<noteq> dt e"
    and "- 126 \<le> position e" and "position e \<le> 125"
  shows "position (detent clockwise c e) = position e + (if clockwise then 2 else - 2)
    \<and> lastClk (detent clockwise c e) = int (unat c)"
  by (rule detent_step [OF assms])

theorem KY40_detent_witness: "position (detent True 1 knob) = 2"
  using KY40_detent [of 1 knob True] by (simp add: knob_def)

end
