(* ===== verification/Canvas.thy ===== *)
theory Canvas
  imports Prelude
begin

text \<open>
  The drawing routines that src/display/ssd1327/ssd1327_gfx.c and src/display/sh1107/sh1107_gfx.c
  share word for word, over the pixel routine of the driver. The locale \<open>canvas\<close> states what a
  pixel routine promises; from it every routine is proved to set exactly its pixels.
\<close>

type_synonym 'b pixel_fn = "u8 \<Rightarrow> u8 \<Rightarrow> u8 \<Rightarrow> 'b \<Rightarrow> 'b"

text \<open>\<open>GFX_InternalState_t\<close> of both drivers.\<close>

record gfx =
  frameBuffer :: "u8 list"
  cursorX :: u8
  cursorY :: u8
  textSize :: u8

subsection \<open>The routines\<close>

definition GFX_DrawFastHLine :: "'b pixel_fn \<Rightarrow> u8 \<Rightarrow> u8 \<Rightarrow> u8 \<Rightarrow> u8 \<Rightarrow> 'b \<Rightarrow> 'b" where
  "GFX_DrawFastHLine px x y w color = fold (\<lambda>i. px (x + word_of_nat i) y color) [0..<unat w]"

definition GFX_DrawFastVLine :: "'b pixel_fn \<Rightarrow> u8 \<Rightarrow> u8 \<Rightarrow> u8 \<Rightarrow> u8 \<Rightarrow> 'b \<Rightarrow> 'b" where
  "GFX_DrawFastVLine px x y h color = fold (\<lambda>i. px x (y + word_of_nat i) color) [0..<unat h]"

definition GFX_DrawRect :: "'b pixel_fn \<Rightarrow> u8 \<Rightarrow> u8 \<Rightarrow> u8 \<Rightarrow> u8 \<Rightarrow> u8 \<Rightarrow> 'b \<Rightarrow> 'b" where
  "GFX_DrawRect px x y w h color fb =
     (let fb = GFX_DrawFastHLine px x y w color fb;
          fb = GFX_DrawFastHLine px x (y + h - 1) w color fb;
          fb = GFX_DrawFastVLine px x y h color fb
      in GFX_DrawFastVLine px (x + w - 1) y h color fb)"

definition GFX_FillRect :: "'b pixel_fn \<Rightarrow> u8 \<Rightarrow> u8 \<Rightarrow> u8 \<Rightarrow> u8 \<Rightarrow> u8 \<Rightarrow> 'b \<Rightarrow> 'b" where
  "GFX_FillRect px x y w h color = fold (\<lambda>i. GFX_DrawFastHLine px x (y + word_of_nat i) w color) [0..<unat h]"

text \<open>
  The endless loop of \<open>GFX_DrawLine\<close>, left by its \<open>break\<close>; \<open>None\<close> would be a loop that never ends.
  \<open>err\<close> and \<open>e\<close> are \<open>i16\<close>, the coordinates \<open>u8\<close>.
\<close>

partial_function (option) line_loop ::
  "'b pixel_fn \<Rightarrow> u8 \<Rightarrow> u8 \<Rightarrow> u8 \<Rightarrow> int \<Rightarrow> int \<Rightarrow> u8 \<Rightarrow> u8 \<Rightarrow> u8 \<Rightarrow> u8 \<Rightarrow> int \<Rightarrow> 'b \<Rightarrow> 'b option" where
  "line_loop px x1 y1 color dx dy sx sy x y err fb =
     (let fb = px x y color fb in
      if x = x1 \<and> y = y1 then Some fb
      else let e = as_i16 (err * 2);
               a = (- dy < e);
               b = (e < dx);
               err = (if a then as_i16 (err - dy) else err);
               err = (if b then as_i16 (err + dx) else err)
           in line_loop px x1 y1 color dx dy sx sy (if a then x + sx else x) (if b then y + sy else y) err fb)"

definition GFX_DrawLine :: "'b pixel_fn \<Rightarrow> u8 \<Rightarrow> u8 \<Rightarrow> u8 \<Rightarrow> u8 \<Rightarrow> u8 \<Rightarrow> 'b \<Rightarrow> 'b option" where
  "GFX_DrawLine px x0 y0 x1 y1 color fb =
     (let dx = (if x0 < x1 then uint x1 - uint x0 else uint x0 - uint x1);
          dy = (if y0 < y1 then uint y1 - uint y0 else uint y0 - uint y1);
          sx = (if x0 < x1 then 1 else - 1);
          sy = (if y0 < y1 then 1 else - 1)
      in line_loop px x1 y1 color dx dy sx sy x0 y0 (dx - dy) fb)"

subsection \<open>Point lists\<close>

definition plot :: "'b pixel_fn \<Rightarrow> u8 \<Rightarrow> (u8 \<times> u8) list \<Rightarrow> 'b \<Rightarrow> 'b" where
  "plot px color ps = fold (\<lambda>p. px (fst p) (snd p) color) ps"

lemma plot_simps [simp]:
  "plot px color [] fb = fb" "plot px color (p # ps) fb = plot px color ps (px (fst p) (snd p) color fb)"
  "plot px color (ps @ qs) fb = plot px color qs (plot px color ps fb)"
  by (simp_all add: plot_def)

lemma hline_plot: "GFX_DrawFastHLine px x y w color = plot px color (map (\<lambda>i. (x + word_of_nat i, y)) [0..<unat w])"
  by (rule ext) (simp add: GFX_DrawFastHLine_def plot_def fold_map o_def)

lemma vline_plot: "GFX_DrawFastVLine px x y h color = plot px color (map (\<lambda>i. (x, y + word_of_nat i)) [0..<unat h])"
  by (rule ext) (simp add: GFX_DrawFastVLine_def plot_def fold_map o_def)

definition rect_points :: "u8 \<Rightarrow> u8 \<Rightarrow> u8 \<Rightarrow> u8 \<Rightarrow> (u8 \<times> u8) list" where
  "rect_points x y w h = concat (map (\<lambda>i. map (\<lambda>k. (x + word_of_nat k, y + word_of_nat i)) [0..<unat w]) [0..<unat h])"

lemma plot_concat: "plot px color (concat pss) fb = fold (plot px color) pss fb"
  by (induction pss arbitrary: fb) simp_all

lemma fillrect_plot: "GFX_FillRect px x y w h color = plot px color (rect_points x y w h)"
  by (rule ext) (simp add: GFX_FillRect_def rect_points_def plot_concat fold_map hline_plot o_def)

lemma rect_points_set:
  assumes "uint x + uint w \<le> 256" "uint y + uint h \<le> 256"
  shows "(px, py) \<in> set (rect_points x y w h) \<longleftrightarrow>
    uint x \<le> uint px \<and> uint px < uint x + uint w \<and> uint y \<le> uint py \<and> uint py < uint y + uint h"
proof -
  have off: "(\<exists>i < unat n. p = b + word_of_nat i) \<longleftrightarrow> uint b \<le> uint p \<and> uint p < uint b + uint n"
    if "uint b + uint n \<le> 256" for p b n :: u8
  proof
    assume "\<exists>i < unat n. p = b + word_of_nat i"
    then obtain i where i: "i < unat n" "p = b + word_of_nat i" by blast
    have "unat b + i < 256" using i(1) that unfolding uint_nat by linarith
    then have "unat p = unat b + i" unfolding i(2) by (rule unat_add_of_nat_u8)
    then show "uint b \<le> uint p \<and> uint p < uint b + uint n" using i(1) unfolding uint_nat by linarith
  next
    assume r: "uint b \<le> uint p \<and> uint p < uint b + uint n"
    then have "unat b \<le> unat p" "unat p - unat b < unat n" unfolding uint_nat by linarith+
    moreover have "p = b + word_of_nat (unat p - unat b)"
    proof -
      have "unat b + (unat p - unat b) = unat p" using \<open>unat b \<le> unat p\<close> by simp
      then have "unat (b + word_of_nat (unat p - unat b)) = unat p"
        using unat_u8 [of p] by (simp only: unat_add_of_nat_u8)
      then show ?thesis by (simp only: word_unat_eq_iff)
    qed
    ultimately show "\<exists>i < unat n. p = b + word_of_nat i" by blast
  qed
  have "(px, py) \<in> set (rect_points x y w h) \<longleftrightarrow>
      (\<exists>i < unat h. py = y + word_of_nat i) \<and> (\<exists>k < unat w. px = x + word_of_nat k)"
    by (fastforce simp: rect_points_def)
  then show ?thesis using off [OF assms(1)] off [OF assms(2)] by auto
qed

subsection \<open>Bresenham's line\<close>

text \<open>
  After \<open>i\<close> steps along the longer side \<open>m\<close> the other coordinate has moved \<open>j\<close> steps of \<open>n\<close>; the
  invariant says that \<open>j\<close> is \<open>n * i / m\<close> rounded to the nearest integer.
\<close>

definition near :: "int \<Rightarrow> int \<Rightarrow> int \<Rightarrow> int \<Rightarrow> bool" where
  "near m n i j \<longleftrightarrow> m * (2 * j - 1) < 2 * n * i \<and> 2 * n * i \<le> m * (2 * j + 1)"

lemma near_start: "0 < m \<Longrightarrow> near m n 0 0"
  by (simp add: near_def)

lemma near_step:
  assumes "near m n i j" "0 \<le> n" "n \<le> m"
  shows "if m * (2 * j + 1) < 2 * n * (i + 1) then near m n (i + 1) (j + 1) else near m n (i + 1) j"
  using assms by (auto simp: near_def algebra_simps)

lemma near_end: "near m n m j \<Longrightarrow> 0 < m \<Longrightarrow> j = n"
proof -
  assume "near m n m j" "0 < m"
  then have "m * (2 * j - 1) < m * (2 * n)" "m * (2 * n) \<le> m * (2 * j + 1)"
    by (simp_all add: near_def algebra_simps)
  with \<open>0 < m\<close> have "2 * j - 1 < 2 * n" "2 * n \<le> 2 * j + 1"
    by (simp_all add: mult_less_cancel_left_pos mult_le_cancel_left_pos)
  then show "j = n" by linarith
qed

lemma near_range:
  assumes "near m n i j" "0 \<le> n" "n \<le> m" "0 \<le> i" "i \<le> m" "0 < m"
  shows "0 \<le> j \<and> j \<le> n"
proof -
  have "0 \<le> 2 * n * i" using assms by simp
  then have "0 \<le> m * (2 * j + 1)" using assms(1) unfolding near_def by linarith
  then have "0 \<le> 2 * j + 1" using assms(6) by (simp add: zero_le_mult_iff)
  moreover have "n * i \<le> n * m" using assms by (intro mult_left_mono) auto
  then have "m * (2 * j - 1) < m * (2 * n)" using assms(1) by (simp add: near_def algebra_simps)
  then have "2 * j - 1 < 2 * n" using assms(6) by (simp add: mult_less_cancel_left_pos)
  ultimately show ?thesis by linarith
qed

lemma near_half:
  assumes "near m n i j"
  shows "2 * \<bar>n * i - m * j\<bar> \<le> m"
proof -
  have "m * (2 * j - 1) = 2 * (m * j) - m" "m * (2 * j + 1) = 2 * (m * j) + m" "2 * n * i = 2 * (n * i)"
    by (simp_all add: algebra_simps)
  with assms have "2 * (m * j) - m < 2 * (n * i)" "2 * (n * i) \<le> 2 * (m * j) + m" by (simp_all add: near_def)
  then show ?thesis by (cases "m * j \<le> n * i") simp_all
qed

text \<open>The coordinate \<open>k\<close> steps from \<open>c0\<close> towards \<open>c1\<close>.\<close>

definition toward :: "u8 \<Rightarrow> u8 \<Rightarrow> int \<Rightarrow> u8" where
  "toward c0 c1 k = (if c0 < c1 then c0 + word_of_int k else c0 - word_of_int k)"

definition span :: "u8 \<Rightarrow> u8 \<Rightarrow> int" where
  "span c0 c1 = (if c0 < c1 then uint c1 - uint c0 else uint c0 - uint c1)"

lemma span_range: "0 \<le> span c0 c1 \<and> span c0 c1 \<le> 255"
proof -
  have u: "0 \<le> uint c \<and> uint c \<le> 255" for c :: u8 using uint_bounded [of c] by simp
  show ?thesis
    using u [of c0] u [of c1] unfolding span_def word_less_def
    by (cases "uint c0 < uint c1"; simp only: if_True if_False; linarith)
qed

lemma toward_0 [simp]: "toward c0 c1 0 = c0"
  by (simp add: toward_def)

lemma toward_step: "toward c0 c1 k + (if c0 < c1 then 1 else - 1) = toward c0 c1 (k + 1)"
  by (simp add: toward_def)

lemma uint_toward:
  assumes "0 \<le> k" "k \<le> span c0 c1"
  shows "uint (toward c0 c1 k) = (if c0 < c1 then uint c0 + k else uint c0 - k)"
proof (cases "c0 < c1")
  case True
  then have "0 \<le> uint c0 + k" "uint c0 + k < 256"
    using assms uint_ge_0 [of c0] uint_bounded [of c1] by (simp_all add: span_def)
  with True show ?thesis by (simp add: toward_def uint_word_ariths uint_word_of_int mod_simps)
next
  case False
  then have "0 \<le> uint c0 - k" "uint c0 - k < 256"
    using assms(2) uint_ge_0 [of c1] uint_bounded [of c0] assms(1) unfolding span_def if_not_P [OF False]
    by (linarith, simp)
  with False show ?thesis by (simp add: toward_def uint_word_ariths uint_word_of_int mod_simps)
qed

lemma toward_end_iff: "0 \<le> k \<Longrightarrow> k \<le> span c0 c1 \<Longrightarrow> toward c0 c1 k = c1 \<longleftrightarrow> k = span c0 c1"
  using uint_toward [of k c0 c1] by (auto simp: span_def word_uint_eq_iff)

lemma line_loop_step:
  assumes "\<not> (x = x1 \<and> y = y1)" "as_i16 (err * 2) = err * 2"
    and "- dy < err * 2 \<Longrightarrow> as_i16 (err - dy) = err - dy"
    and "as_i16 ((if - dy < err * 2 then err - dy else err) + dx) = (if - dy < err * 2 then err - dy else err) + dx"
  shows "line_loop px x1 y1 color dx dy sx sy x y err fb =
    line_loop px x1 y1 color dx dy sx sy (if - dy < err * 2 then x + sx else x) (if err * 2 < dx then y + sy else y)
      ((if - dy < err * 2 then err - dy else err) + (if err * 2 < dx then dx else 0)) (px x y color fb)"
  using assms by (subst line_loop.simps) (auto simp: Let_def split: if_splits)

lemma line_x:
  assumes n: "0 \<le> dy" "dy \<le> dx" "0 < dx" and dx: "dx = span x0 x1" and dy: "dy = span y0 y1"
    and inv: "near dx dy i j" "0 \<le> i" "i + int k = dx"
    and sx: "sx = (if x0 < x1 then 1 else - 1)" and sy: "sy = (if y0 < y1 then 1 else - 1)"
  shows "\<exists>js. length js = Suc k \<and> hd js = j \<and> last js = dy
    \<and> (\<forall>m < Suc k. near dx dy (i + int m) (js ! m))
    \<and> line_loop px x1 y1 color dx dy sx sy (toward x0 x1 i) (toward y0 y1 j) (dx * (j + 1) - dy * (i + 1)) fb
      = Some (plot px color (map (\<lambda>m. (toward x0 x1 (i + int m), toward y0 y1 (js ! m))) [0..<Suc k]) fb)"
  using inv
proof (induction k arbitrary: i j fb)
  case 0
  then have j: "j = dy" using near_end [of dx dy j] n by simp
  then have "toward x0 x1 i = x1" "toward y0 y1 j = y1"
    using toward_end_iff [of i x0 x1] toward_end_iff [of j y0 y1] 0 n dx dy by simp_all
  with 0 j show ?case
    by (intro exI [of _ "[j]"]) (subst line_loop.simps, simp add: Let_def)
next
  case (Suc k)
  have jr: "0 \<le> j" "j \<le> dy" using near_range [OF Suc.prems(1) n(1,2)] Suc.prems n by simp_all
  have x: "toward x0 x1 i \<noteq> x1" using toward_end_iff [of i x0 x1] Suc.prems dx by simp
  let ?err = "dx * (j + 1) - dy * (i + 1)"
  have nr: "dx * (2 * j - 1) < 2 * dy * i" "2 * dy * i \<le> dx * (2 * j + 1)"
    using Suc.prems(1) by (simp_all add: near_def)
  have e2: "?err * 2 = dx * (2 * j + 1) - 2 * dy * i + dx - 2 * dy" by (simp add: algebra_simps)
  have lo: "- dy < ?err * 2"
  proof (cases "dx = dy")
    case True
    have "2 * dy * i \<noteq> dx * (2 * j + 1)"
    proof
      assume "2 * dy * i = dx * (2 * j + 1)"
      then have "dx * (2 * i) = dx * (2 * j + 1)" using True by simp
      then have "2 * i = 2 * j + 1" using n by simp
      then show False by presburger
    qed
    then show ?thesis using e2 nr True by linarith
  qed (use e2 nr n in linarith)
  have up: "?err * 2 < 3 * dx" using e2 nr n by (simp add: algebra_simps)
  have b: "dx \<le> 255" "dy \<le> 255" using span_range dx dy by simp_all
  have bounds: "as_i16 (r * 2) = r * 2 \<and> as_i16 (r - dy) = r - dy \<and> as_i16 (r - dy + dx) = r - dy + dx"
    if "- dy < r * 2" "r * 2 < 3 * dx" for r
    using that b n by (intro conjI as_i16_id; linarith)
  note e = bounds [OF lo up, THEN conjunct1] bounds [OF lo up, THEN conjunct2, THEN conjunct1]
    bounds [OF lo up, THEN conjunct2, THEN conjunct2]
  define t where "t \<longleftrightarrow> ?err * 2 < dx"
  have t: "t \<longleftrightarrow> dx * (2 * j + 1) < 2 * dy * (i + 1)" by (auto simp: t_def e2 algebra_simps)
  let ?j = "if t then j + 1 else j"
  have nx: "near dx dy (i + 1) ?j" using near_step [OF Suc.prems(1) n(1,2)] t by (simp split: if_splits)
  have err': "(if t then ?err - dy + dx else ?err - dy) = dx * (?j + 1) - dy * (i + 1 + 1)"
    by (simp add: algebra_simps)
  have unf: "line_loop px x1 y1 color dx dy sx sy (toward x0 x1 i) (toward y0 y1 j) ?err fb =
     line_loop px x1 y1 color dx dy sx sy (toward x0 x1 (i + 1)) (toward y0 y1 ?j) (dx * (?j + 1) - dy * (i + 1 + 1))
       (px (toward x0 x1 i) (toward y0 y1 j) color fb)"
  proof -
    have "line_loop px x1 y1 color dx dy sx sy (toward x0 x1 i) (toward y0 y1 j) ?err fb =
      line_loop px x1 y1 color dx dy sx sy (toward x0 x1 i + sx) (if t then toward y0 y1 j + sy else toward y0 y1 j)
        (?err - dy + (if t then dx else 0)) (px (toward x0 x1 i) (toward y0 y1 j) color fb)"
      using line_loop_step [of "toward x0 x1 i" x1 "toward y0 y1 j" y1 ?err dy dx px color sx sy fb] x e lo
      by (simp only: t_def if_True) simp
    also have "(if t then toward y0 y1 j + sy else toward y0 y1 j) = toward y0 y1 ?j"
      unfolding sy toward_step by simp
    also have "?err - dy + (if t then dx else 0) = dx * (?j + 1) - dy * (i + 1 + 1)"
      using err' by (simp split: if_splits)
    also have "toward x0 x1 i + sx = toward x0 x1 (i + 1)" unfolding sx by (rule toward_step)
    finally show ?thesis .
  qed
  obtain js where js: "length js = Suc k" "hd js = ?j" "last js = dy" "\<forall>m < Suc k. near dx dy (i + 1 + int m) (js ! m)"
    "line_loop px x1 y1 color dx dy sx sy (toward x0 x1 (i + 1)) (toward y0 y1 ?j) (dx * (?j + 1) - dy * (i + 1 + 1))
       (px (toward x0 x1 i) (toward y0 y1 j) color fb)
      = Some (plot px color (map (\<lambda>m. (toward x0 x1 (i + 1 + int m), toward y0 y1 (js ! m))) [0..<Suc k])
         (px (toward x0 x1 i) (toward y0 y1 j) color fb))"
    using Suc.IH [OF nx, of "px (toward x0 x1 i) (toward y0 y1 j) color fb"] Suc.prems by auto
  have "map (\<lambda>m. (toward x0 x1 (i + int m), toward y0 y1 ((j # js) ! m))) [0..<Suc (Suc k)]
     = (toward x0 x1 i, toward y0 y1 j) # map (\<lambda>m. (toward x0 x1 (i + 1 + int m), toward y0 y1 (js ! m))) [0..<Suc k]"
    by (subst upt_conv_Cons) (simp_all add: map_Suc_upt [symmetric] o_def add.assoc del: upt_Suc)
  then have "line_loop px x1 y1 color dx dy sx sy (toward x0 x1 i) (toward y0 y1 j) ?err fb
      = Some (plot px color (map (\<lambda>m. (toward x0 x1 (i + int m), toward y0 y1 ((j # js) ! m))) [0..<Suc (Suc k)]) fb)"
    unfolding unf js(5) by (simp del: upt_Suc)
  moreover have "\<forall>m < Suc (Suc k). near dx dy (i + int m) ((j # js) ! m)"
    using js(4) Suc.prems(1) by (auto simp: less_Suc_eq_0_disj add.assoc)
  ultimately show ?case using js by (intro exI [of _ "j # js"]) (auto simp del: upt_Suc)
qed

lemma line_y:
  assumes n: "0 \<le> dx" "dx < dy" and dx: "dx = span x0 x1" and dy: "dy = span y0 y1"
    and inv: "near dy dx i j" "0 \<le> i" "i + int k = dy"
    and sx: "sx = (if x0 < x1 then 1 else - 1)" and sy: "sy = (if y0 < y1 then 1 else - 1)"
  shows "\<exists>js. length js = Suc k \<and> hd js = j \<and> last js = dx
    \<and> (\<forall>m < Suc k. near dy dx (i + int m) (js ! m))
    \<and> line_loop px x1 y1 color dx dy sx sy (toward x0 x1 j) (toward y0 y1 i) (dx * (i + 1) - dy * (j + 1)) fb
      = Some (plot px color (map (\<lambda>m. (toward x0 x1 (js ! m), toward y0 y1 (i + int m))) [0..<Suc k]) fb)"
  using inv
proof (induction k arbitrary: i j fb)
  case 0
  then have j: "j = dx" using near_end [of dy dx j] n by simp
  then have "toward y0 y1 i = y1" "toward x0 x1 j = x1"
    using toward_end_iff [of i y0 y1] toward_end_iff [of j x0 x1] 0 n dx dy by simp_all
  with 0 j show ?case
    by (intro exI [of _ "[j]"]) (subst line_loop.simps, simp add: Let_def)
next
  case (Suc k)
  have y: "toward y0 y1 i \<noteq> y1" using toward_end_iff [of i y0 y1] Suc.prems dy by simp
  let ?err = "dx * (i + 1) - dy * (j + 1)"
  have nr: "dy * (2 * j - 1) < 2 * dx * i" "2 * dx * i \<le> dy * (2 * j + 1)"
    using Suc.prems(1) by (simp_all add: near_def)
  have up: "?err * 2 < dx" using nr n by (simp add: algebra_simps)
  have lo: "- 3 * dy < ?err * 2" using nr n by (simp add: algebra_simps)
  have b: "dx \<le> 255" "dy \<le> 255" using span_range dx dy by simp_all
  have bounds: "as_i16 (r * 2) = r * 2 \<and> (- dy < r * 2 \<longrightarrow> as_i16 (r - dy) = r - dy)
      \<and> as_i16 ((if - dy < r * 2 then r - dy else r) + dx) = (if - dy < r * 2 then r - dy else r) + dx"
    if "- 3 * dy < r * 2" "r * 2 < dx" for r
    using that b n by (cases "- dy < r * 2"; simp only: if_True if_False simp_thms; intro conjI as_i16_id; linarith)
  define t where "t \<longleftrightarrow> - dy < ?err * 2"
  have t: "t \<longleftrightarrow> dy * (2 * j + 1) < 2 * dx * (i + 1)" by (auto simp: t_def algebra_simps)
  let ?j = "if t then j + 1 else j"
  have nx: "near dy dx (i + 1) ?j" using near_step [OF Suc.prems(1)] n t by (simp split: if_splits)
  have unf: "line_loop px x1 y1 color dx dy sx sy (toward x0 x1 j) (toward y0 y1 i) ?err fb =
     line_loop px x1 y1 color dx dy sx sy (toward x0 x1 ?j) (toward y0 y1 (i + 1)) (dx * (i + 1 + 1) - dy * (?j + 1))
       (px (toward x0 x1 j) (toward y0 y1 i) color fb)"
  proof -
    have "line_loop px x1 y1 color dx dy sx sy (toward x0 x1 j) (toward y0 y1 i) ?err fb =
      line_loop px x1 y1 color dx dy sx sy (if t then toward x0 x1 j + sx else toward x0 x1 j) (toward y0 y1 i + sy)
        ((if t then ?err - dy else ?err) + dx) (px (toward x0 x1 j) (toward y0 y1 i) color fb)"
      using line_loop_step [of "toward x0 x1 j" x1 "toward y0 y1 i" y1 ?err dy dx px color sx sy fb] y bounds [OF lo up] up
      by (simp only: t_def if_True) simp
    also have "(if t then toward x0 x1 j + sx else toward x0 x1 j) = toward x0 x1 ?j"
      unfolding sx toward_step by simp
    also have "(if t then ?err - dy else ?err) + dx = dx * (i + 1 + 1) - dy * (?j + 1)"
      by (simp add: algebra_simps)
    also have "toward y0 y1 i + sy = toward y0 y1 (i + 1)" unfolding sy by (rule toward_step)
    finally show ?thesis .
  qed
  obtain js where js: "length js = Suc k" "hd js = ?j" "last js = dx" "\<forall>m < Suc k. near dy dx (i + 1 + int m) (js ! m)"
    "line_loop px x1 y1 color dx dy sx sy (toward x0 x1 ?j) (toward y0 y1 (i + 1)) (dx * (i + 1 + 1) - dy * (?j + 1))
       (px (toward x0 x1 j) (toward y0 y1 i) color fb)
      = Some (plot px color (map (\<lambda>m. (toward x0 x1 (js ! m), toward y0 y1 (i + 1 + int m))) [0..<Suc k])
         (px (toward x0 x1 j) (toward y0 y1 i) color fb))"
    using Suc.IH [OF nx, of "px (toward x0 x1 j) (toward y0 y1 i) color fb"] Suc.prems by auto
  have "map (\<lambda>m. (toward x0 x1 ((j # js) ! m), toward y0 y1 (i + int m))) [0..<Suc (Suc k)]
     = (toward x0 x1 j, toward y0 y1 i) # map (\<lambda>m. (toward x0 x1 (js ! m), toward y0 y1 (i + 1 + int m))) [0..<Suc k]"
    by (subst upt_conv_Cons) (simp_all add: map_Suc_upt [symmetric] o_def add.assoc del: upt_Suc)
  then have "line_loop px x1 y1 color dx dy sx sy (toward x0 x1 j) (toward y0 y1 i) ?err fb
      = Some (plot px color (map (\<lambda>m. (toward x0 x1 ((j # js) ! m), toward y0 y1 (i + int m))) [0..<Suc (Suc k)]) fb)"
    unfolding unf js(5) by (simp del: upt_Suc)
  moreover have "\<forall>m < Suc (Suc k). near dy dx (i + int m) ((j # js) ! m)"
    using js(4) Suc.prems(1) by (auto simp: less_Suc_eq_0_disj add.assoc)
  ultimately show ?case using js by (intro exI [of _ "j # js"]) (auto simp del: upt_Suc)
qed

text \<open>
  The pixels of a line: one for every step along the longer side, starting at one end and ending at
  the other, each at most half a pixel from the ideal line in the other direction.
\<close>

definition is_line :: "u8 \<Rightarrow> u8 \<Rightarrow> u8 \<Rightarrow> u8 \<Rightarrow> (u8 \<times> u8) list \<Rightarrow> bool" where
  "is_line x0 y0 x1 y1 ps \<longleftrightarrow>
     int (length ps) = max (span x0 x1) (span y0 y1) + 1 \<and> hd ps = (x0, y0) \<and> last ps = (x1, y1) \<and>
     (\<forall>k < length ps. \<exists>j. ps ! k =
        (if span y0 y1 \<le> span x0 x1 then (toward x0 x1 (int k), toward y0 y1 j) else (toward x0 x1 j, toward y0 y1 (int k)))
        \<and> 2 * \<bar>min (span x0 x1) (span y0 y1) * int k - max (span x0 x1) (span y0 y1) * j\<bar> \<le> max (span x0 x1) (span y0 y1))"

lemma toward_span: "toward c0 c1 (span c0 c1) = c1"
  using toward_end_iff [of "span c0 c1" c0 c1] span_range [of c0 c1] by simp

lemma DrawLine_loop: "GFX_DrawLine px x0 y0 x1 y1 color fb =
  line_loop px x1 y1 color (span x0 x1) (span y0 y1) (if x0 < x1 then 1 else - 1) (if y0 < y1 then 1 else - 1) x0 y0
    (span x0 x1 - span y0 y1) fb"
  by (simp add: GFX_DrawLine_def Let_def span_def)

lemma span_0: "span c0 c1 = 0 \<Longrightarrow> c0 = c1"
  using toward_span [of c0 c1] by simp

lemma last_map_upt: "last (map f [0..<Suc k]) = f k"
  by simp

lemma hd_map_upt: "hd (map f [0..<Suc k]) = f 0"
  by (simp add: hd_map del: upt_Suc)

lemma DrawLine_points: "\<exists>ps. is_line x0 y0 x1 y1 ps \<and> GFX_DrawLine px x0 y0 x1 y1 color fb = Some (plot px color ps fb)"
proof -
  let ?dx = "span x0 x1" and ?dy = "span y0 y1"
  let ?sx = "if x0 < x1 then 1 else - 1 :: u8" and ?sy = "if y0 < y1 then 1 else - 1 :: u8"
  have r: "0 \<le> ?dx" "0 \<le> ?dy" using span_range by simp_all
  consider "?dx = 0 \<and> ?dy = 0" | "?dy \<le> ?dx \<and> 0 < ?dx" | "?dx < ?dy" using r by linarith
  then show ?thesis
  proof cases
    case 1
    then have e: "x0 = x1" "y0 = y1" using span_0 by blast+
    have "span y1 y1 = 0" for y1 by (simp add: span_def)
    then show ?thesis unfolding DrawLine_loop e
      by (intro exI [of _ "[(x1, y1)]"]) (subst line_loop.simps, simp add: is_line_def Let_def exI [of _ 0])
  next
    case 2
    obtain js where js: "length js = Suc (nat ?dx)" "hd js = 0" "last js = ?dy"
      "\<forall>m < Suc (nat ?dx). near ?dx ?dy (0 + int m) (js ! m)"
      "line_loop px x1 y1 color ?dx ?dy ?sx ?sy (toward x0 x1 0) (toward y0 y1 0) (?dx * (0 + 1) - ?dy * (0 + 1)) fb
       = Some (plot px color (map (\<lambda>m. (toward x0 x1 (0 + int m), toward y0 y1 (js ! m))) [0..<Suc (nat ?dx)]) fb)"
      using line_x [of ?dy ?dx x0 x1 y0 y1 0 0 "nat ?dx" ?sx ?sy px color fb] 2 r near_start [of ?dx ?dy] by auto
    let ?ps = "map (\<lambda>m. (toward x0 x1 (0 + int m), toward y0 y1 (js ! m))) [0..<Suc (nat ?dx)]"
    have "js \<noteq> []" using js(1) by auto
    then have "js ! 0 = 0" "js ! nat ?dx = ?dy" using js(1-3) by (simp_all flip: hd_conv_nth add: last_conv_nth)
    then have "hd ?ps = (x0, y0)" "last ?ps = (x1, y1)"
      unfolding hd_map_upt last_map_upt using r by (simp_all add: toward_span)
    moreover have "\<exists>j. ?ps ! k = (toward x0 x1 (int k), toward y0 y1 j) \<and> 2 * \<bar>?dy * int k - ?dx * j\<bar> \<le> ?dx"
      if "k < length ?ps" for k
      using js(4) that near_half [of ?dx ?dy "int k" "js ! k"] by (intro exI [of _ "js ! k"]) (simp del: upt_Suc)
    ultimately have "is_line x0 y0 x1 y1 ?ps"
      using 2 by (simp add: is_line_def max_absorb1 min_absorb2 del: upt_Suc)
    then show ?thesis using js(5) by (intro exI [of _ ?ps]) (simp add: DrawLine_loop del: upt_Suc)
  next
    case 3
    then have dy: "0 < ?dy" using r by linarith
    obtain js where js: "length js = Suc (nat ?dy)" "hd js = 0" "last js = ?dx"
      "\<forall>m < Suc (nat ?dy). near ?dy ?dx (0 + int m) (js ! m)"
      "line_loop px x1 y1 color ?dx ?dy ?sx ?sy (toward x0 x1 0) (toward y0 y1 0) (?dx * (0 + 1) - ?dy * (0 + 1)) fb
       = Some (plot px color (map (\<lambda>m. (toward x0 x1 (js ! m), toward y0 y1 (0 + int m))) [0..<Suc (nat ?dy)]) fb)"
      using line_y [of ?dx ?dy x0 x1 y0 y1 0 0 "nat ?dy" ?sx ?sy px color fb] 3 r dy near_start [of ?dy ?dx] by auto
    let ?ps = "map (\<lambda>m. (toward x0 x1 (js ! m), toward y0 y1 (0 + int m))) [0..<Suc (nat ?dy)]"
    have "js \<noteq> []" using js(1) by auto
    then have "js ! 0 = 0" "js ! nat ?dy = ?dx" using js(1-3) by (simp_all flip: hd_conv_nth add: last_conv_nth)
    then have "hd ?ps = (x0, y0)" "last ?ps = (x1, y1)"
      unfolding hd_map_upt last_map_upt using r by (simp_all add: toward_span)
    moreover have "\<exists>j. ?ps ! k = (toward x0 x1 j, toward y0 y1 (int k)) \<and> 2 * \<bar>?dx * int k - ?dy * j\<bar> \<le> ?dy"
      if "k < length ?ps" for k
      using js(4) that near_half [of ?dy ?dx "int k" "js ! k"] by (intro exI [of _ "js ! k"]) (simp del: upt_Suc)
    ultimately have "is_line x0 y0 x1 y1 ?ps"
      using 3 dy by (simp add: is_line_def max_absorb2 min_absorb1 less_imp_le not_le del: upt_Suc)
    then show ?thesis using js(5) by (intro exI [of _ ?ps]) (simp add: DrawLine_loop del: upt_Suc)
  qed
qed

subsection \<open>What a pixel routine promises\<close>

text \<open>
  \<open>ok\<close>: the frame buffer has its size; \<open>good\<close>: the colours the display can show; \<open>shade\<close>: what is
  read back of a colour.
\<close>

locale canvas =
  fixes draw :: "'b pixel_fn" and get :: "u8 \<Rightarrow> u8 \<Rightarrow> 'b \<Rightarrow> u8"
    and ok :: "'b \<Rightarrow> bool" and good :: "u8 \<Rightarrow> bool" and shade :: "u8 \<Rightarrow> u8"
  assumes draw_ok: "ok fb \<Longrightarrow> ok (draw x y c fb)"
    and get_draw: "ok fb \<Longrightarrow> good c \<Longrightarrow> x < 128 \<Longrightarrow> y < 128 \<Longrightarrow> x' < 128 \<Longrightarrow> y' < 128 \<Longrightarrow>
      get x' y' (draw x y c fb) = (if x' = x \<and> y' = y then shade c else get x' y' fb)"
    and draw_outside: "\<not> (x < 128 \<and> y < 128) \<Longrightarrow> draw x y c fb = fb"
begin

lemma plot_ok: "ok fb \<Longrightarrow> ok (plot draw c ps fb)"
  by (induction ps arbitrary: fb) (simp_all add: draw_ok)

text \<open>Plotting a list of points sets those of them that are on the screen and nothing else.\<close>

lemma get_plot:
  assumes "ok fb" "good c" "x' < 128" "y' < 128"
  shows "get x' y' (plot draw c ps fb) = (if (x', y') \<in> set ps then shade c else get x' y' fb)"
  using assms(1)
proof (induction ps arbitrary: fb)
  case (Cons p ps)
  obtain x y where p: "p = (x, y)" by fastforce
  show ?case
  proof (cases "x < 128 \<and> y < 128")
    case True
    then show ?thesis
      using Cons.IH [OF draw_ok [OF Cons.prems]] get_draw [OF Cons.prems assms(2), of x y x' y'] assms(3,4)
      by (auto simp: p)
  next
    case False
    then show ?thesis using Cons assms(3,4) by (auto simp: p draw_outside)
  qed
qed simp

lemma fill_rect:
  assumes "ok fb" "good c" "x' < 128" "y' < 128" "uint x + uint w \<le> 256" "uint y + uint h \<le> 256"
  shows "get x' y' (GFX_FillRect draw x y w h c fb) =
    (if uint x \<le> uint x' \<and> uint x' < uint x + uint w \<and> uint y \<le> uint y' \<and> uint y' < uint y + uint h
     then shade c else get x' y' fb)"
  unfolding fillrect_plot get_plot [OF assms(1-4)] rect_points_set [OF assms(5,6)] by (rule refl)

lemma draw_line:
  assumes "ok fb" "good c"
  shows "\<exists>ps fb'. is_line x0 y0 x1 y1 ps \<and> GFX_DrawLine draw x0 y0 x1 y1 c fb = Some fb' \<and>
    (\<forall>x' y'. x' < 128 \<longrightarrow> y' < 128 \<longrightarrow> get x' y' fb' = (if (x', y') \<in> set ps then shade c else get x' y' fb))"
proof -
  obtain ps where "is_line x0 y0 x1 y1 ps" "GFX_DrawLine draw x0 y0 x1 y1 c fb = Some (plot draw c ps fb)"
    using DrawLine_points [of x0 y0 x1 y1 draw c fb] by blast
  then show ?thesis using get_plot [OF assms] by blast
qed

end

end
