(* ===== verification/SSD1327.thy ===== *)
theory SSD1327
  imports Bus Canvas
begin

text \<open>
  The SSD1327 grey-scale display: transfers (src/display/ssd1327/ssd1327.c) and drawing into the
  frame buffer of two pixels a byte (src/display/ssd1327/ssd1327_gfx.c). The font table
  (include/display/gfx/font_5_7.h) is an argument of the character routines.
\<close>

definition SSD1327_ADDRESS :: u8 where "SSD1327_ADDRESS = 0x3C"
definition SSD1327_RESET_PIN :: u8 where "SSD1327_RESET_PIN = 10"
definition SSD1327_WIDTH :: nat where "SSD1327_WIDTH = 128"
definition SSD1327_HEIGHT :: nat where "SSD1327_HEIGHT = 128"

subsection \<open>Transfers\<close>

text \<open>\<open>set\<close>: \<open>sgI2C\<close> is not NULL. The three writers differ in the control byte.\<close>

definition ssd_transfer :: "'e i2c_env \<Rightarrow> bool \<Rightarrow> u8 list \<Rightarrow> 'e world \<Rightarrow> int \<times> 'e world" where
  "ssd_transfer env ready buffer w =
     (if \<not> ready then (c_false, w)
      else let w = mutex_enter_blocking w;
               (st, w) = i2c_write env SSD1327_ADDRESS buffer False w
           in if st = PICO_ERROR_GENERIC then (c_false, mutex_exit w) else (st, mutex_exit w))"

definition SSD1327_WriteCommand :: "'e i2c_env \<Rightarrow> bool \<Rightarrow> u8 \<Rightarrow> 'e world \<Rightarrow> int \<times> 'e world" where
  "SSD1327_WriteCommand env ready command = ssd_transfer env ready [0x00, command]"

definition SSD1327_WriteCommandList :: "'e i2c_env \<Rightarrow> bool \<Rightarrow> u8 list \<Rightarrow> 'e world \<Rightarrow> int \<times> 'e world" where
  "SSD1327_WriteCommandList env ready commands = ssd_transfer env ready (0x00 # commands)"

definition SSD1327_WriteData :: "'e i2c_env \<Rightarrow> bool \<Rightarrow> u8 list \<Rightarrow> 'e world \<Rightarrow> int \<times> 'e world" where
  "SSD1327_WriteData env ready bytes = ssd_transfer env ready (0x40 # bytes)"

definition SSD1327_Reset :: "'e world \<Rightarrow> 'e world" where
  "SSD1327_Reset w =
     (let w = emit (Gpio_Output SSD1327_RESET_PIN) w;
          w = delay_ms 1 (emit (Gpio_Put SSD1327_RESET_PIN True) w);
          w = delay_ms 1 (emit (Gpio_Put SSD1327_RESET_PIN False) w)
      in delay_ms 1 (emit (Gpio_Put SSD1327_RESET_PIN True) w))"

definition ssd_initCommands :: "u8 list" where
  "ssd_initCommands =
     [0xFD, 0x12, 0xAE, 0xB3, 0xF1, 0xA8, 0x7F, 0xA2, 0x00, 0xA1, 0x00, 0xA0, 0x71, 0xAB, 0x01, 0x81, 0x9F,
      0xC7, 0x0F, 0xBC, 0x0D, 0xB1, 0x32, 0xBE, 0x0B, 0xB6, 0x0D, 0xC1, 0x99]"

text \<open>The function ends without a return statement: its \<open>b8\<close> result is not determined and not modelled.\<close>

definition SSD1327_Init :: "'e i2c_env \<Rightarrow> 'e world \<Rightarrow> 'e world" where
  "SSD1327_Init env w =
     (let w = SSD1327_Reset w;
          w = snd (SSD1327_WriteCommandList env True ssd_initCommands w);
          w = delay_ms 100 w
      in snd (SSD1327_WriteCommand env True 0xAF w))"

definition SSD1327_Display :: "'e i2c_env \<Rightarrow> bool \<Rightarrow> gfx \<Rightarrow> 'e world \<Rightarrow> 'e world" where
  "SSD1327_Display env ready g w =
     (let w = snd (SSD1327_WriteCommandList env ready [0x15, 0x00, 0x3F] w);
          w = snd (SSD1327_WriteCommandList env ready [0x75, 0x00, 0x7F] w)
      in snd (SSD1327_WriteData env ready (frameBuffer g) w))"

subsection \<open>Drawing\<close>

definition SSD1327_ClearBuffer :: "gfx \<Rightarrow> gfx" where
  "SSD1327_ClearBuffer g = g\<lparr>frameBuffer := replicate (length (frameBuffer g)) 0, cursorX := 0, cursorY := 0, textSize := 1\<rparr>"

text \<open>\<open>color << 4\<close> is stored into a byte; in the odd column \<open>color\<close> is not masked.\<close>

definition SSD1327_DrawPixel :: "gfx pixel_fn" where
  "SSD1327_DrawPixel x y color g =
     (if SSD1327_WIDTH \<le> unat x \<or> SSD1327_HEIGHT \<le> unat y then g
      else let index = (unat y * SSD1327_WIDTH + unat x) div 2;
               b = frameBuffer g ! index
           in if unat x mod 2 = 0
              then g\<lparr>frameBuffer := (frameBuffer g)[index := (b AND 0x0F) OR push_bit 4 color]\<rparr>
              else g\<lparr>frameBuffer := (frameBuffer g)[index := (b AND 0xF0) OR color]\<rparr>)"

definition SSD1327_DrawLine :: "u8 \<Rightarrow> u8 \<Rightarrow> u8 \<Rightarrow> u8 \<Rightarrow> u8 \<Rightarrow> gfx \<Rightarrow> gfx option" where
  "SSD1327_DrawLine = GFX_DrawLine SSD1327_DrawPixel"

definition SSD1327_DrawFastHLine :: "u8 \<Rightarrow> u8 \<Rightarrow> u8 \<Rightarrow> u8 \<Rightarrow> gfx \<Rightarrow> gfx" where
  "SSD1327_DrawFastHLine = GFX_DrawFastHLine SSD1327_DrawPixel"

definition SSD1327_DrawFastVLine :: "u8 \<Rightarrow> u8 \<Rightarrow> u8 \<Rightarrow> u8 \<Rightarrow> gfx \<Rightarrow> gfx" where
  "SSD1327_DrawFastVLine = GFX_DrawFastVLine SSD1327_DrawPixel"

definition SSD1327_DrawRect :: "u8 \<Rightarrow> u8 \<Rightarrow> u8 \<Rightarrow> u8 \<Rightarrow> u8 \<Rightarrow> gfx \<Rightarrow> gfx" where
  "SSD1327_DrawRect = GFX_DrawRect SSD1327_DrawPixel"

definition SSD1327_FillRect :: "u8 \<Rightarrow> u8 \<Rightarrow> u8 \<Rightarrow> u8 \<Rightarrow> u8 \<Rightarrow> gfx \<Rightarrow> gfx" where
  "SSD1327_FillRect = GFX_FillRect SSD1327_DrawPixel"

text \<open>One store of \<open>GFX_FillFastRect\<close>: the nibble is chosen by \<open>x\<close>, not by the column written.\<close>

definition fast_store :: "u8 \<Rightarrow> u8 \<Rightarrow> nat \<Rightarrow> nat \<Rightarrow> gfx \<Rightarrow> gfx" where
  "fast_store color x px py g =
     (let index = (py * SSD1327_WIDTH + px) div 2;
          b = frameBuffer g ! index
      in if unat x mod 2 = 0
         then g\<lparr>frameBuffer := (frameBuffer g)[index := (b AND 0x0F) OR push_bit 4 color]\<rparr>
         else g\<lparr>frameBuffer := (frameBuffer g)[index := (b AND 0xF0) OR color]\<rparr>)"

text \<open>\<open>x\<close>, \<open>y\<close> are unsigned, so the tests for negative values never hold.\<close>

definition SSD1327_FillFastRect :: "u8 \<Rightarrow> u8 \<Rightarrow> u8 \<Rightarrow> u8 \<Rightarrow> u8 \<Rightarrow> gfx \<Rightarrow> gfx" where
  "SSD1327_FillFastRect x y w h color g =
     (if SSD1327_WIDTH \<le> unat x \<or> SSD1327_HEIGHT \<le> unat y then g
      else let w' = (if SSD1327_WIDTH < unat x + unat w then SSD1327_WIDTH - unat x else unat w);
               h' = (if SSD1327_HEIGHT < unat y + unat h then SSD1327_HEIGHT - unat y else unat h)
           in fold (\<lambda>j. fold (\<lambda>i. fast_store color x (unat x + i) (unat y + j)) [0..<w']) [0..<h'] g)"

definition SSD1327_DrawChar :: "u8 list \<Rightarrow> u8 \<Rightarrow> u8 \<Rightarrow> u8 \<Rightarrow> u8 \<Rightarrow> u8 \<Rightarrow> gfx \<Rightarrow> gfx" where
  "SSD1327_DrawChar font x y c color sz g =
     (let g = g\<lparr>textSize := (if 1 < sz then sz else 1)\<rparr>
      in if c < 32 \<or> 126 < c then g
         else let fontIndex = (unat c - 32) * 5
              in fold (\<lambda>col. fold (\<lambda>row g.
                   if drop_bit row (font ! (fontIndex + col)) AND 1 \<noteq> 0
                   then (if sz = 1 then SSD1327_DrawPixel (x + word_of_nat col) (y + word_of_nat row) color g
                         else SSD1327_FillRect (x + word_of_nat col * sz) (y + word_of_nat row * sz) sz sz color g)
                   else g) [0..<7]) [0..<5] g)"

definition SSD1327_DrawFastChar :: "u8 list \<Rightarrow> u8 \<Rightarrow> u8 \<Rightarrow> u8 \<Rightarrow> gfx \<Rightarrow> gfx" where
  "SSD1327_DrawFastChar font x y c = SSD1327_DrawChar font x y c 0x0F 1"

text \<open>\<open>str\<close>: the characters before the terminating zero.\<close>

definition SSD1327_DrawString :: "u8 list \<Rightarrow> u8 \<Rightarrow> u8 \<Rightarrow> u8 list \<Rightarrow> u8 \<Rightarrow> u8 \<Rightarrow> gfx \<Rightarrow> gfx" where
  "SSD1327_DrawString font x y str color sz g =
     fold (\<lambda>c g. let g = SSD1327_DrawChar font (cursorX g) (cursorY g) c color sz g
                 in g\<lparr>cursorX := cursorX g + (5 * sz + 1)\<rparr>)
       str (g\<lparr>cursorX := x, cursorY := y, textSize := sz\<rparr>)"

definition SSD1327_DrawFastString :: "u8 list \<Rightarrow> u8 \<Rightarrow> u8 \<Rightarrow> u8 list \<Rightarrow> gfx \<Rightarrow> gfx" where
  "SSD1327_DrawFastString font x y str = SSD1327_DrawString font x y str 0x0F 1"

subsection \<open>The frame buffer as a canvas\<close>

definition ssd_get :: "u8 \<Rightarrow> u8 \<Rightarrow> gfx \<Rightarrow> u8" where
  "ssd_get x y g =
     (let b = frameBuffer g ! ((unat y * SSD1327_WIDTH + unat x) div 2)
      in if unat x mod 2 = 0 then drop_bit 4 b else b AND 0x0F)"

definition ssd_ok :: "gfx \<Rightarrow> bool" where
  "ssd_ok g \<longleftrightarrow> length (frameBuffer g) = SSD1327_WIDTH * SSD1327_HEIGHT div 2"

lemma nibble_masks: "(0x0F :: u8) = mask 4" "(0xF0 :: u8) = push_bit 4 (mask 4)"
  by (simp_all add: mask_eq_exp_minus_1 push_bit_eq_mult)

lemma bit_small: "(c :: u8) < 16 \<Longrightarrow> bit c n \<Longrightarrow> n < 4"
proof -
  assume c: "c < 16" and b: "bit c n"
  have "take_bit 4 c = c"
    by (rule word_unat_eq_iff [THEN iffD2]) (use c in \<open>simp add: unsigned_take_bit_eq take_bit_nat_eq_self word_less_nat_alt\<close>)
  with b show "n < 4" by (metis bit_take_bit_iff)
qed

lemma nibble_high:
  assumes "(c :: u8) < 16"
  shows "drop_bit 4 ((b AND 0x0F) OR push_bit 4 c) = c" "((b AND 0x0F) OR push_bit 4 c) AND 0x0F = b AND 0x0F"
  unfolding nibble_masks
  by (rule bit_word_eqI, use bit_small [OF assms] in \<open>auto simp: bit_simps possible_bit_def\<close>)+

lemma nibble_low:
  assumes "(c :: u8) < 16"
  shows "((b AND 0xF0) OR c) AND 0x0F = c" "drop_bit 4 ((b AND 0xF0) OR c) = drop_bit 4 b"
  unfolding nibble_masks
  by (rule bit_word_eqI, use bit_small [OF assms] in \<open>auto simp: bit_simps possible_bit_def dest: bit_imp_le_length\<close>)+

lemma nibble_parts:
  fixes b c :: u8
  shows "c < 16 \<Longrightarrow> drop_bit 4 (push_bit 4 c) = c" and "c < 16 \<Longrightarrow> drop_bit 4 c = 0"
    and "drop_bit 4 b AND 15 = drop_bit 4 b"
proof -
  assume c: "c < 16"
  show "drop_bit 4 (push_bit 4 c) = c"
    by (rule bit_word_eqI) (use bit_small [OF c] in \<open>auto simp: bit_simps possible_bit_def\<close>)
  have "\<not> bit c (4 + n)" for n using bit_small [OF c, of "4 + n"] by auto
  then show "drop_bit 4 c = 0" by (intro bit_word_eqI) (simp add: bit_simps)
next
  have "bit b (4 + n) \<Longrightarrow> n < 4" for n using bit_imp_le_length [of b "4 + n"] by simp
  then show "drop_bit 4 b AND 15 = drop_bit 4 b"
    by (intro bit_word_eqI) (auto simp: nibble_masks bit_simps)
qed

lemma ssd_index:
  assumes "x < 128" "y < 128"
  shows "(y * 128 + x) div 2 < (8192 :: nat)" "(y * 128 + x) div 2 = y * 64 + x div 2"
  using assms by linarith+

lemma ssd_index_eq:
  fixes x y x' y' :: nat
  assumes "x < 128" "x' < 128"
  shows "y * 64 + x div 2 = y' * 64 + x' div 2 \<longleftrightarrow> y = y' \<and> x div 2 = x' div 2"
proof
  assume e: "y * 64 + x div 2 = y' * 64 + x' div 2"
  have d: "x div 2 < 64" "x' div 2 < 64" using assms by simp_all
  have "y = (y * 64 + x div 2) div 64" "y' = (y' * 64 + x' div 2) div 64" using d by simp_all
  with e have "y = y'" by simp
  with e show "y = y' \<and> x div 2 = x' div 2" by simp
qed simp

interpretation ssd1327: canvas SSD1327_DrawPixel ssd_get ssd_ok "\<lambda>c. c < 16" "\<lambda>c. c"
proof unfold_locales
  fix x y c :: u8 and g
  show "ssd_ok g \<Longrightarrow> ssd_ok (SSD1327_DrawPixel x y c g)"
    by (simp add: ssd_ok_def SSD1327_DrawPixel_def Let_def)
  show "\<not> (x < 128 \<and> y < 128) \<Longrightarrow> SSD1327_DrawPixel x y c g = g"
    by (auto simp: SSD1327_DrawPixel_def SSD1327_WIDTH_def SSD1327_HEIGHT_def word_less_nat_alt)
next
  fix x y c x' y' :: u8 and g
  assume ok: "ssd_ok g" and c: "c < 16" and r: "x < 128" "y < 128" "x' < 128" "y' < 128"
  from r have n: "unat x < 128" "unat y < 128" "unat x' < 128" "unat y' < 128" by (simp_all add: word_less_nat_alt)
  have len: "length (frameBuffer g) = 8192" using ok by (simp add: ssd_ok_def SSD1327_WIDTH_def SSD1327_HEIGHT_def)
  note d = ssd_index [OF n(1,2)] ssd_index [OF n(3,4)]
  have same: "x' = x \<longleftrightarrow> unat x' div 2 = unat x div 2 \<and> unat x' mod 2 = unat x mod 2"
    by (metis word_unat_eq_iff div_mult_mod_eq)
  have y: "y' = y \<longleftrightarrow> unat y' = unat y" by (simp add: word_unat_eq_iff)
  show "ssd_get x' y' (SSD1327_DrawPixel x y c g) = (if x' = x \<and> y' = y then c else ssd_get x' y' g)"
  proof (cases "unat y' = unat y \<and> unat x' div 2 = unat x div 2")
    case False
    then have "(unat y * 128 + unat x) div 2 \<noteq> (unat y' * 128 + unat x') div 2"
      using ssd_index_eq [OF n(1,3)] d by auto
    then show ?thesis
      using False n same y by (auto simp: ssd_get_def SSD1327_DrawPixel_def SSD1327_WIDTH_def SSD1327_HEIGHT_def Let_def)
  next
    case True
    then have "(unat y * 128 + unat x) div 2 = (unat y' * 128 + unat x') div 2" using d by simp
    moreover have "unat x mod 2 = 0 \<or> unat x mod 2 = 1" "unat x' mod 2 = 0 \<or> unat x' mod 2 = 1" by auto
    ultimately show ?thesis
      using True n same y d len c
      by (auto simp: ssd_get_def SSD1327_DrawPixel_def SSD1327_WIDTH_def SSD1327_HEIGHT_def Let_def nibble_high nibble_low nibble_parts)
  qed
qed

subsection \<open>Facts\<close>

lemma ssd_transfer_free: "lock_state w = Some False \<Longrightarrow> lock_state (snd (ssd_transfer env ready b w)) = Some False"
  by (simp add: ssd_transfer_def Let_def case_prod_unfold bus_simps)

lemma SSD1327_Init_free: "lock_state w = Some False \<Longrightarrow> lock_state (SSD1327_Init env w) = Some False"
  by (simp add: SSD1327_Init_def SSD1327_Reset_def SSD1327_WriteCommandList_def SSD1327_WriteCommand_def Let_def
      ssd_transfer_free bus_simps)

lemma SSD1327_Display_free: "lock_state w = Some False \<Longrightarrow> lock_state (SSD1327_Display env ready g w) = Some False"
  by (simp add: SSD1327_Display_def SSD1327_WriteCommandList_def SSD1327_WriteData_def Let_def ssd_transfer_free)

text \<open>The low nibbles of a frame buffer.\<close>

definition low_nibbles :: "gfx \<Rightarrow> u8 list" where
  "low_nibbles g = map (\<lambda>b. b AND 0x0F) (frameBuffer g)"

lemma high_store_low: "((b AND 0x0F) OR push_bit 4 c) AND 0x0F = b AND (0x0F :: u8)"
  unfolding nibble_masks by (rule bit_word_eqI) (auto simp: bit_simps)

lemma fast_store_low:
  assumes "unat x mod 2 = 0"
  shows "low_nibbles (fast_store color x px py g) = low_nibbles g"
proof -
  let ?i = "(py * SSD1327_WIDTH + px) div 2"
  have "map (\<lambda>b. b AND 0x0F) ((frameBuffer g)[?i := (frameBuffer g ! ?i AND 0x0F) OR push_bit 4 color])
      = map (\<lambda>b. b AND 0x0F) (frameBuffer g)"
    unfolding map_update high_store_low
    by (cases "?i < length (frameBuffer g)") (simp_all add: list_update_same_conv list_update_beyond)
  with assms show ?thesis by (simp add: low_nibbles_def fast_store_def Let_def del: map_update)
qed

lemma fold_keeps: "(\<And>i s. f (g i s) = f s) \<Longrightarrow> f (fold g xs s) = f s"
  by (induction xs arbitrary: s) simp_all

lemma FillFastRect_low:
  assumes "unat x mod 2 = 0"
  shows "low_nibbles (SSD1327_FillFastRect x y w h color g) = low_nibbles g"
  unfolding SSD1327_FillFastRect_def Let_def using assms
  by (auto intro!: fold_keeps [where f = low_nibbles] fast_store_low)

subsection \<open>Properties\<close>

definition blank :: gfx where
  "blank = \<lparr>frameBuffer = replicate 8192 0, cursorX = 0, cursorY = 0, textSize = 1\<rparr>"

lemma blank_ok: "ssd_ok blank"
  by (simp add: ssd_ok_def blank_def SSD1327_WIDTH_def SSD1327_HEIGHT_def)

text \<open>Filling a rectangle with one of the 16 grey levels gives exactly the pixels inside it that level and leaves
  every other pixel of the 128 by 128 screen as it was, also when the rectangle reaches past the edge.\<close>

theorem SSD1327_FillRect_exact:
  assumes "ssd_ok g" and "c < 16" and "x' < 128" and "y' < 128"
    and "uint x + uint w \<le> 256" and "uint y + uint h \<le> 256"
  shows "ssd_get x' y' (SSD1327_FillRect x y w h c g) =
    (if uint x \<le> uint x' \<and> uint x' < uint x + uint w \<and> uint y \<le> uint y' \<and> uint y' < uint y + uint h
     then c else ssd_get x' y' g)"
  unfolding SSD1327_FillRect_def by (rule ssd1327.fill_rect [OF assms])

theorem SSD1327_FillRect_exact_witness:
  "ssd_get 101 50 (SSD1327_FillRect 100 50 2 3 9 blank) = 9 \<and> ssd_get 102 50 (SSD1327_FillRect 100 50 2 3 9 blank) = 0"
proof -
  have "ssd_get 102 50 blank = 0" by (simp add: ssd_get_def blank_def SSD1327_WIDTH_def Let_def)
  then show ?thesis
    using SSD1327_FillRect_exact [OF blank_ok, of 9 101 50 100 2 50 3] SSD1327_FillRect_exact [OF blank_ok, of 9 102 50 100 2 50 3]
    by simp
qed

text \<open>C9. \<open>GFX_DrawLine\<close> ends for every pair of end points and draws a digital line: one pixel for each step along the
  longer side, from the first point to the last, each within half a pixel of the ideal line; all other
  pixels of the screen keep their grey level.\<close>

theorem SSD1327_DrawLine_exact:
  assumes "ssd_ok g" and "c < 16"
  shows "\<exists>ps g'. is_line x0 y0 x1 y1 ps \<and> SSD1327_DrawLine x0 y0 x1 y1 c g = Some g' \<and>
    (\<forall>x' y'. x' < 128 \<longrightarrow> y' < 128 \<longrightarrow> ssd_get x' y' g' = (if (x', y') \<in> set ps then c else ssd_get x' y' g))"
  unfolding SSD1327_DrawLine_def by (rule ssd1327.draw_line [OF assms])

theorem SSD1327_DrawLine_exact_witness: "\<exists>ps g'. is_line 3 7 120 90 ps \<and> SSD1327_DrawLine 3 7 120 90 5 blank = Some g'"
  using SSD1327_DrawLine_exact [OF blank_ok, of 5 3 7 120 90] by auto

text \<open>\<open>GFX_FillFastRect\<close> picks the nibble by the column it was called with instead of the column it is writing: started
  in an even column it never changes any pixel in an odd column, whatever the width and the colour.\<close>

theorem SSD1327_FillFastRect_skips_odd:
  assumes "ssd_ok g" and "unat x mod 2 = 0" and "unat x' mod 2 = 1" and "x' < 128" and "y' < 128"
  shows "ssd_get x' y' (SSD1327_FillFastRect x y w h color g) = ssd_get x' y' g"
proof -
  let ?g = "SSD1327_FillFastRect x y w h color g"
  let ?i = "(unat y' * SSD1327_WIDTH + unat x') div 2"
  have low: "low_nibbles ?g = low_nibbles g" by (rule FillFastRect_low [OF assms(2)])
  then have len: "length (frameBuffer ?g) = length (frameBuffer g)" by (metis length_map low_nibbles_def)
  have "?i < length (frameBuffer g)"
    using assms ssd_index(1) [of "unat x'" "unat y'"]
    by (simp add: ssd_ok_def SSD1327_WIDTH_def SSD1327_HEIGHT_def word_less_nat_alt)
  then have "frameBuffer ?g ! ?i AND 0x0F = frameBuffer g ! ?i AND 0x0F"
    using low len by (metis low_nibbles_def nth_map)
  then show ?thesis using assms(3) by (simp add: ssd_get_def Let_def)
qed

theorem SSD1327_FillFastRect_skips_odd_witness: "ssd_get 11 5 (SSD1327_FillFastRect 10 5 4 2 15 blank) = 0"
proof -
  have "ssd_get 11 5 blank = 0" by (simp add: ssd_get_def blank_def SSD1327_WIDTH_def Let_def)
  then show ?thesis using SSD1327_FillFastRect_skips_odd [OF blank_ok, of 10 11 5 5 4 2 15] by simp
qed

end
