(* ===== verification/Startup.thy ===== *)
theory Startup
  imports Channel Net KY40 Dma SSD1327
begin

text \<open>
  src/src/main.c with the project options of include/config/arm.h: the drivers it initialises, the
  kernel objects it creates, the parameters it gives each task, and the order of all that up to the
  start of the scheduler. Every creation takes memory from the FreeRTOS heap, whose answers are a
  parameter; when one is refused the kernel calls \<open>vApplicationMallocFailedHook\<close>
  (\<open>configUSE_MALLOC_FAILED_HOOK\<close> is 1), which never returns.
\<close>

subsection \<open>Options\<close>

definition hkTASK_PRIORITY_LOW :: nat where "hkTASK_PRIORITY_LOW = 1"
definition hkTASK_PRIORITY_MEDIUM :: nat where "hkTASK_PRIORITY_MEDIUM = 2"
definition hkTASK_PRIORITY_HIGH :: nat where "hkTASK_PRIORITY_HIGH = 3"
definition configMINIMAL_STACK_SIZE :: nat where "configMINIMAL_STACK_SIZE = 128"
definition configMAX_PRIORITIES :: nat where "configMAX_PRIORITIES = 32"
definition configMAX_TASK_NAME_LEN :: nat where "configMAX_TASK_NAME_LEN = 32"

definition hkBME280_ADDRESS :: u8 where "hkBME280_ADDRESS = 0x76"
definition hkDHT20_ADDRESS :: u8 where "hkDHT20_ADDRESS = 0x38"
definition hkSGP30_ADDRESS :: u8 where "hkSGP30_ADDRESS = 0x58"
definition hkWIFI_SSID :: "u8 list" where "hkWIFI_SSID = map of_char ''NP2''"
definition hkWIFI_PASS :: "u8 list" where "hkWIFI_PASS = map of_char ''0123456789''"
definition hkDHT_PIN :: u8 where "hkDHT_PIN = 15"

definition BME280_HUMID_OVERSAMPLING_X2 :: u8 where "BME280_HUMID_OVERSAMPLING_X2 = 0x02"
definition BME280_OVERSAMPLING_X2 :: u8 where "BME280_OVERSAMPLING_X2 = 0x02"
definition BME280_MODE_FORCED :: u8 where "BME280_MODE_FORCED = 0x01"
definition BME280_FILTER_COEFF_4 :: u8 where "BME280_FILTER_COEFF_4 = push_bit 2 0x02"
definition BME280_STANDBY_TIME_0_5_MS :: u8 where "BME280_STANDBY_TIME_0_5_MS = 0x00"

subsection \<open>Sizes of C types\<close>

text \<open>
  The types of the packets by the layout rule of the 32-bit targets: a scalar of \<open>n\<close> bytes is aligned
  to \<open>n\<close>, a structure to its most aligned member, and its size is a multiple of that.
\<close>

datatype ctype = Scalar nat | Struct "ctype list"

definition align_up :: "nat \<Rightarrow> nat \<Rightarrow> nat" where "align_up a n = (n + a - 1) div a * a"

fun c_align :: "ctype \<Rightarrow> nat" and c_aligns :: "ctype list \<Rightarrow> nat" where
  "c_align (Scalar n) = n"
| "c_align (Struct ts) = c_aligns ts"
| "c_aligns [] = 1"
| "c_aligns (t # ts) = max (c_align t) (c_aligns ts)"

fun c_sizeof :: "ctype \<Rightarrow> nat" and members_end :: "nat \<Rightarrow> ctype list \<Rightarrow> nat" where
  "c_sizeof (Scalar n) = n"
| "c_sizeof (Struct ts) = align_up (c_aligns ts) (members_end 0 ts)"
| "members_end off [] = off"
| "members_end off (t # ts) = members_end (align_up (c_align t) off + c_sizeof t) ts"

text \<open>Where the last member ends: the bytes behind it are padding.\<close>

fun data_end :: "ctype \<Rightarrow> nat" where
  "data_end (Scalar n) = n"
| "data_end (Struct ts) = members_end 0 ts"

definition c_u16 :: ctype where "c_u16 = Scalar 2"
definition c_u32 :: ctype where "c_u32 = Scalar 4"
definition c_u64 :: ctype where "c_u64 = Scalar 8"
definition c_f32 :: ctype where "c_f32 = Scalar 4"
definition c_ptr :: ctype where "c_ptr = Scalar 4"

definition BME280_DataPacket_t :: ctype where
  "BME280_DataPacket_t = Struct [c_f32, c_f32, c_f32, c_f32, c_f32, c_u32, c_ptr]"
definition DHT_DataPacket_t :: ctype where
  "DHT_DataPacket_t = Struct [c_f32, c_f32, c_f32, c_f32, c_u32, c_ptr]"
definition DS18B20_DataPacket_t :: ctype where
  "DS18B20_DataPacket_t = Struct [c_f32, c_u64, c_u32, c_u32, c_ptr]"
definition PMS5003_DataPacket_t :: ctype where
  "PMS5003_DataPacket_t = Struct [c_u16, c_u16, c_u16, c_u32, c_ptr]"
definition SGP30_DataPacket_t :: ctype where
  "SGP30_DataPacket_t = Struct [c_u16, c_u16, c_u32, c_ptr]"
definition Sensors_DataPacket_t :: ctype where
  "Sensors_DataPacket_t = Struct (replicate 5 DHT_DataPacket_t @ replicate 3 BME280_DataPacket_t
     @ [DS18B20_DataPacket_t, PMS5003_DataPacket_t, SGP30_DataPacket_t] @ replicate 5 c_f32 @ [c_u32])"

text \<open>What the tasks send to a queue and receive from it.\<close>

fun carried :: "queue_handle \<Rightarrow> ctype" where
  "carried (xDataQueue x) =
     (if x \<in> {BME280_0, BME280_1} then BME280_DataPacket_t
      else if x = SGP30_0 then SGP30_DataPacket_t
      else if x = DS18B20_0 then DS18B20_DataPacket_t
      else if x = PMS5003_0 then PMS5003_DataPacket_t
      else DHT_DataPacket_t)"
| "carried _ = Sensors_DataPacket_t"

subsection \<open>Tasks and their parameters\<close>

datatype bus = I2C0 | I2C1

datatype pio = PIO0 | PIO1 | PIO2

text \<open>The structures a task is given, with the objects they point to.\<close>

datatype params =
    No_Params
  | Bus_Params bus
  | WiFi_Params bus WIFI_Config
  | BME280_Params bus BME280_Config BME280_DataPacket
  | DHT20_Params bus DHT20_Config DHT_DataPacket
  | DHT_Params pio DHT_Config DHT_DataPacket
  | SGP30_Params bus SGP30_Config SGP30_DataPacket
  | PMS5003_Params UART_Config PMS5003_Config PMS5003_DataPacket
  | DS18B20_Params OneWire_Config DS18B20_Config DS18B20_DataPacket
  | MQTT_Params

record task =
  tname :: string
  depth :: nat
  targs :: params
  priority :: nat

definition calibration_zero :: BME280_CalibrationParams where
  "calibration_zero = \<lparr>dig_T1 = 0, dig_T2 = 0, dig_T3 = 0, dig_P1 = 0, dig_P2 = 0, dig_P3 = 0, dig_P4 = 0, dig_P5 = 0,
     dig_P6 = 0, dig_P7 = 0, dig_P8 = 0, dig_P9 = 0, dig_H1 = 0, dig_H2 = 0, dig_H3 = 0, dig_H4 = 0, dig_H5 = 0, dig_H6 = 0\<rparr>"

text \<open>Objects with static storage: what an initialiser does not name is zero.\<close>

definition hkI2C0 :: i2c_config where "hkI2C0 = \<lparr>sda = 4, scl = 5, speed = 400 * 1000\<rparr>"
definition hkI2C1 :: i2c_config where "hkI2C1 = \<lparr>sda = 18, scl = 19, speed = 1000 * 1000\<rparr>"

definition hkUART0 :: "nat option \<Rightarrow> UART_Config" where
  "hkUART0 sem = \<lparr>tx = 8, rx = 9, baudrate = 9600, uart_data = replicate 32 0, uart_status = UART_INIT, packetSize = 32, dmaSemaphore = sem\<rparr>"

definition hkOneWire0 :: OneWire_Config where
  "hkOneWire0 = \<lparr>OneWire_Config.gpio = 13, status = ONEW_INIT, sm = 0, bitMode = 8\<rparr>"

definition hkWiFi0 :: "u32 \<Rightarrow> u32 \<Rightarrow> WIFI_Config" where
  "hkWiFi0 wpa2 poland = \<lparr>ssid = hkWIFI_SSID, password = hkWIFI_PASS, authType = wpa2, country = poland\<rparr>"

definition hkBME280 :: BME280_Config where
  "hkBME280 = \<lparr>BME280_Config.rawData = replicate 8 0, address = hkBME280_ADDRESS, status = BME280_INIT,
     humiditySampling = BME280_HUMID_OVERSAMPLING_X2, iirCoefficient = BME280_STANDBY_TIME_0_5_MS OR BME280_FILTER_COEFF_4,
     tempAndPressureMode = push_bit 5 BME280_OVERSAMPLING_X2 OR push_bit 2 BME280_OVERSAMPLING_X2 OR BME280_MODE_FORCED,
     params = calibration_zero\<rparr>"

definition hkBME280_Data :: BME280_DataPacket where
  "hkBME280_Data = BME280_zero\<lparr>BME280_DataPacket.jsonify := JSON_BME280\<rparr>"

definition hkDHT20 :: DHT20_Config where "hkDHT20 = \<lparr>rawData20 = replicate 7 0, address = hkDHT20_ADDRESS\<rparr>"

definition hkDHT_Data :: DHT_DataPacket where "hkDHT_Data = DHT_zero\<lparr>DHT_DataPacket.jsonify := JSON_DHT\<rparr>"

definition hkDHT11_0 :: DHT_Config where
  "hkDHT11_0 = \<lparr>DHT_Config.gpio = 17, rawData = replicate 5 0, status = DHT_INIT, type = DHT_11, sm = 0, smOffset = 0, dmaChannel = 0\<rparr>"

definition hkDHT22_0 :: DHT_Config where
  "hkDHT22_0 = \<lparr>DHT_Config.gpio = hkDHT_PIN, rawData = replicate 5 0, status = DHT_INIT, type = DHT_22, sm = 0, smOffset = 0, dmaChannel = 0\<rparr>"

definition hkSGP30_0 :: SGP30_Config where
  "hkSGP30_0 = \<lparr>SGP30_Config.address = hkSGP30_ADDRESS, status = ucast SGP30_INIT, rawData = replicate 6 0, eco2Baseline = 0, tvocBaseline = 0\<rparr>"

definition hkSGP30_0_Data :: SGP30_DataPacket where
  "hkSGP30_0_Data = \<lparr>eco2 = 0, tvoc = 0, timestamp = 0, jsonify = JSON_SGP30\<rparr>"

definition hkPMS5003_0 :: PMS5003_Config where "hkPMS5003_0 = \<lparr>PMS5003_Config.rawData = replicate 32 0, status = 0\<rparr>"

definition hkPMS5003_0_Data :: PMS5003_DataPacket where
  "hkPMS5003_0_Data = \<lparr>pm1 = 0, pm2_5 = 0, pm10 = 0, timestamp = 0, jsonify = JSON_PMS5003\<rparr>"

definition hkDS18B20_0 :: DS18B20_Config where
  "hkDS18B20_0 = \<lparr>DS18B20_Config.address = ucast ONEW_SKIP_ROM, data = replicate 9 0, dataCount = 0, state = DS18B20_IDLE,
     resolution = 12, convertStartTime = 0\<rparr>"

definition hkDS18B20_0_Data :: DS18B20_DataPacket where
  "hkDS18B20_0_Data = \<lparr>DS18B20_DataPacket.temperature = 0, paddress = 0, status = 0, timestamp = 0, jsonify = JSON_DS18B20\<rparr>"

definition hkKY40_Encoders :: "KY40_Config list" where
  "hkKY40_Encoders = [\<lparr>cclk = 16, cdt = 17, cbtn = 20\<rparr>]"

subsection \<open>main\<close>

text \<open>
  The statements of \<open>main\<close>, in its order. A queue is created with a length and the size of an item,
  a semaphore is known by its number in the order of creation.
\<close>

datatype command =
    DMA_Init
  | Init_I2C bus i2c_config
  | Init_UART UART_Config
  | Init_OneWire OneWire_Config
  | Init_KY40 "KY40_Config list"
  | Create_Queue queue_handle nat nat
  | Create_Set nat
  | Create_Semaphore
  | Create_Event_Group
  | Add_To_Set queue_handle
  | Create_Task task

definition sensor_task_of :: "string \<Rightarrow> params \<Rightarrow> task" where
  "sensor_task_of n p = \<lparr>tname = n, depth = configMINIMAL_STACK_SIZE + 256, targs = p, priority = hkTASK_PRIORITY_LOW\<rparr>"

text \<open>The structures whose addresses main gives the tasks of the sensors that exist twice.\<close>

definition hkBME280_0_TaskParams :: params where "hkBME280_0_TaskParams = BME280_Params I2C0 hkBME280 hkBME280_Data"
definition hkBME280_1_TaskParams :: params where "hkBME280_1_TaskParams = BME280_Params I2C1 hkBME280 hkBME280_Data"
definition hkDHT20_0_TaskParams :: params where "hkDHT20_0_TaskParams = DHT20_Params I2C0 hkDHT20 hkDHT_Data"
definition hkDHT20_1_TaskParams :: params where "hkDHT20_1_TaskParams = DHT20_Params I2C1 hkDHT20 hkDHT_Data"
definition hkDHT11_0_TaskParams :: params where "hkDHT11_0_TaskParams = DHT_Params PIO0 hkDHT11_0 hkDHT_Data"
definition hkDHT22_0_TaskParams :: params where "hkDHT22_0_TaskParams = DHT_Params PIO2 hkDHT22_0 hkDHT_Data"

declare hkBME280_0_TaskParams_def [simp] hkBME280_1_TaskParams_def [simp] hkDHT20_0_TaskParams_def [simp]
  hkDHT20_1_TaskParams_def [simp] hkDHT11_0_TaskParams_def [simp] hkDHT22_0_TaskParams_def [simp]

definition tasks_of_main :: "u32 \<Rightarrow> u32 \<Rightarrow> nat option \<Rightarrow> (sensor option \<times> task) list" where
  "tasks_of_main wpa2 poland sem =
     [(None, \<lparr>tname = ''System_Manager_Task'', depth = configMINIMAL_STACK_SIZE + 256, targs = No_Params, priority = hkTASK_PRIORITY_HIGH + 1\<rparr>),
      (None, \<lparr>tname = ''WiFi_Manager_Task'', depth = configMINIMAL_STACK_SIZE + 256, targs = WiFi_Params I2C0 (hkWiFi0 wpa2 poland), priority = hkTASK_PRIORITY_HIGH + 1\<rparr>),
      (Some BME280_0, sensor_task_of ''BME280_0_Task'' hkBME280_0_TaskParams),
      (Some BME280_1, sensor_task_of ''BME280_1_Task'' hkBME280_1_TaskParams),
      (Some DHT20_0, sensor_task_of ''DHT20_0_Task'' hkDHT20_0_TaskParams),
      (Some DHT20_1, sensor_task_of ''DHT20_1_Task'' hkDHT20_1_TaskParams),
      (Some DHT11_0, sensor_task_of ''DHT11_0_Task'' hkDHT11_0_TaskParams),
      (Some DHT22_0, sensor_task_of ''DHT22_0_Task'' hkDHT22_0_TaskParams),
      (Some SGP30_0, sensor_task_of ''SGP30_0_Task'' (SGP30_Params I2C0 hkSGP30_0 hkSGP30_0_Data)),
      (Some DS18B20_0, sensor_task_of ''DS18B20_0_Task'' (DS18B20_Params hkOneWire0 hkDS18B20_0 hkDS18B20_0_Data)),
      (Some PMS5003_0, sensor_task_of ''PMS5003_0_Task'' (PMS5003_Params (hkUART0 sem) hkPMS5003_0 hkPMS5003_0_Data)),
      (None, \<lparr>tname = ''Collect_Task'', depth = configMINIMAL_STACK_SIZE + 256, targs = No_Params, priority = hkTASK_PRIORITY_MEDIUM\<rparr>),
      (None, \<lparr>tname = ''Process_Task'', depth = configMINIMAL_STACK_SIZE + 256, targs = Bus_Params I2C0, priority = hkTASK_PRIORITY_MEDIUM\<rparr>),
      (None, \<lparr>tname = ''Display_Task'', depth = configMINIMAL_STACK_SIZE + 256, targs = No_Params, priority = hkTASK_PRIORITY_HIGH\<rparr>),
      (None, \<lparr>tname = ''Data_Send_Task'', depth = 4096, targs = MQTT_Params, priority = hkTASK_PRIORITY_HIGH\<rparr>)]"

text \<open>The queue of a sensor is created with the item size main.c names: for the DS18B20 that of the BME280 packet.\<close>

fun created_for :: "queue_handle \<Rightarrow> ctype" where
  "created_for (xDataQueue x) =
     (case x of BME280_0 \<Rightarrow> BME280_DataPacket_t | BME280_1 \<Rightarrow> BME280_DataPacket_t
      | DHT20_0 \<Rightarrow> DHT_DataPacket_t | DHT20_1 \<Rightarrow> DHT_DataPacket_t | DHT11_0 \<Rightarrow> DHT_DataPacket_t | DHT22_0 \<Rightarrow> DHT_DataPacket_t
      | SGP30_0 \<Rightarrow> SGP30_DataPacket_t | PMS5003_0 \<Rightarrow> PMS5003_DataPacket_t | DS18B20_0 \<Rightarrow> BME280_DataPacket_t)"
| "created_for _ = Sensors_DataPacket_t"

definition create_queue :: "queue_handle \<Rightarrow> command" where
  "create_queue q = Create_Queue q 1 (c_sizeof (created_for q))"

definition start_task :: "sensor option \<times> task \<Rightarrow> command list" where
  "start_task st = (case fst st of None \<Rightarrow> [] | Some x \<Rightarrow> [Add_To_Set (xDataQueue x)]) @ [Create_Task (snd st)]"

definition main_commands :: "u32 \<Rightarrow> u32 \<Rightarrow> command list" where
  "main_commands wpa2 poland =
     [DMA_Init, Init_I2C I2C0 hkI2C0, Init_I2C I2C1 hkI2C1, Create_Semaphore, Init_UART (hkUART0 (Some 0)), Init_OneWire hkOneWire0]
     @ map (create_queue \<circ> xDataQueue) [BME280_0, BME280_1, DHT20_0, DHT20_1, DHT11_0]
     @ [Create_Semaphore, create_queue (xDataQueue DHT22_0), Create_Semaphore]
     @ map (create_queue \<circ> xDataQueue) [SGP30_0, PMS5003_0, DS18B20_0]
     @ [Init_KY40 hkKY40_Encoders, Create_Set 9]
     @ map create_queue [xSnapshotQueue, xMQTTQueue, xDisplayQueue]
     @ [Create_Event_Group, Create_Event_Group]
     @ concat (map start_task (tasks_of_main wpa2 poland (Some 0)))"

datatype phase = Booting | Halted | Scheduling

record ('e, 'l) board =
  phase :: phase
  buses :: "bus \<Rightarrow> 'e world"
  irq :: irq_state
  irq_log :: "irq_event list"
  onewire :: "'l ow"
  encoders :: "KY40_State list"
  queues :: "queue_handle \<Rightarrow> (nat \<times> nat) option"
  set_length :: "nat option"
  members :: "queue_handle list"
  semaphores :: nat
  groups :: nat
  tasks :: "task list"
  allocs :: nat

text \<open>What the SDK and the pins answer during the start, and which allocations the heap grants.\<close>

record answers =
  heap :: "nat \<Rightarrow> bool"
  dma_channel :: u32
  pio_sm :: u8
  level :: "u8 \<Rightarrow> u8"

definition allocate :: "answers \<Rightarrow> (('e, 'l) board \<Rightarrow> ('e, 'l) board) \<Rightarrow> ('e, 'l) board \<Rightarrow> ('e, 'l) board" where
  "allocate a f b = (if heap a (allocs b) then f (b\<lparr>allocs := allocs b + 1\<rparr>) else b\<lparr>phase := Halted\<rparr>)"

fun perform :: "answers \<Rightarrow> command \<Rightarrow> ('e, 'l) board \<Rightarrow> ('e, 'l) board" where
  "perform a DMA_Init b = b\<lparr>irq_log := irq_log b @ DMA_Master_Init\<rparr>"
| "perform a (Init_I2C i c) b = b\<lparr>buses := (buses b)(i := I2C_Init c (buses b i))\<rparr>"
| "perform a (Init_UART c) b =
     (let (s, ev) = UART_Init (dma_channel a) c (irq b) in b\<lparr>irq := s, irq_log := irq_log b @ ev\<rparr>)"
| "perform a (Init_OneWire c) b = b\<lparr>onewire := OneWire_Init (pio_sm a) ((onewire b)\<lparr>cfg := c\<rparr>)\<rparr>"
| "perform a (Init_KY40 cs) b = b\<lparr>encoders := KY40_InitAll (level a) cs (encoders b)\<rparr>"
| "perform a (Create_Queue q n k) b = allocate a (\<lambda>b. b\<lparr>queues := (queues b)(q \<mapsto> (n, k))\<rparr>) b"
| "perform a (Create_Set n) b = allocate a (\<lambda>b. b\<lparr>set_length := Some n\<rparr>) b"
| "perform a Create_Semaphore b = allocate a (\<lambda>b. b\<lparr>semaphores := semaphores b + 1\<rparr>) b"
| "perform a Create_Event_Group b = allocate a (\<lambda>b. b\<lparr>groups := groups b + 1\<rparr>) b"
| "perform a (Add_To_Set q) b = b\<lparr>members := members b @ [q]\<rparr>"
| "perform a (Create_Task t) b = allocate a (\<lambda>b. b\<lparr>tasks := tasks b @ [t]\<rparr>) b"

definition run_command :: "answers \<Rightarrow> command \<Rightarrow> ('e, 'l) board \<Rightarrow> ('e, 'l) board" where
  "run_command a c b = (if phase b = Halted then b else perform a c b)"

text \<open>\<open>main\<close> up to \<open>vTaskStartScheduler\<close>, on a board as it comes out of reset.\<close>

definition main :: "answers \<Rightarrow> u32 \<Rightarrow> u32 \<Rightarrow> ('e, 'l) board \<Rightarrow> ('e, 'l) board" where
  "main a wpa2 poland b =
     (let b = fold (run_command a) (main_commands wpa2 poland) b
      in if phase b = Halted then b else b\<lparr>phase := Scheduling\<rparr>)"

definition reset_board :: "(bus \<Rightarrow> 'e world) \<Rightarrow> 'l ow \<Rightarrow> ('e, 'l) board" where
  "reset_board ws l = \<lparr>phase = Booting, buses = ws, irq = irq_initial, irq_log = [], onewire = l,
     encoders = [\<lparr>clk = 0, dt = 0, btn = 0, position = 0, lastClk = 0\<rparr>], queues = (\<lambda>_. None), set_length = None, members = [], semaphores = 0,
     groups = 0, tasks = [], allocs = 0\<rparr>"

subsection \<open>What a run of commands leaves\<close>

fun takes_memory :: "command \<Rightarrow> bool" where
  "takes_memory (Create_Queue _ _ _) = True"
| "takes_memory (Create_Set _) = True"
| "takes_memory Create_Semaphore = True"
| "takes_memory Create_Event_Group = True"
| "takes_memory (Create_Task _) = True"
| "takes_memory _ = False"

definition creations :: "command list \<Rightarrow> nat" where "creations cs = length (filter takes_memory cs)"

fun task_made :: "command \<Rightarrow> task list" where "task_made (Create_Task t) = [t]" | "task_made _ = []"
fun member_added :: "command \<Rightarrow> queue_handle list" where "member_added (Add_To_Set q) = [q]" | "member_added _ = []"
fun queue_made :: "command \<Rightarrow> (queue_handle \<Rightarrow> (nat \<times> nat) option) \<Rightarrow> queue_handle \<Rightarrow> (nat \<times> nat) option" where
  "queue_made (Create_Queue q n k) m = m(q \<mapsto> (n, k))"
| "queue_made _ m = m"
fun set_made :: "command \<Rightarrow> nat option \<Rightarrow> nat option" where "set_made (Create_Set n) x = Some n" | "set_made _ x = x"

lemma run_halted: "phase b = Halted \<Longrightarrow> fold (run_command a) cs b = b"
  by (induction cs) (simp_all add: run_command_def)

lemma run_one:
  assumes "phase b = Booting"
  shows "phase (run_command a c b) = (if takes_memory c \<longrightarrow> heap a (allocs b) then Booting else Halted)"
    and "phase (run_command a c b) = Booting \<Longrightarrow> allocs (run_command a c b) = allocs b + (if takes_memory c then 1 else 0)"
    and "phase (run_command a c b) = Booting \<Longrightarrow> tasks (run_command a c b) = tasks b @ task_made c"
    and "phase (run_command a c b) = Booting \<Longrightarrow> Startup.members (run_command a c b) = Startup.members b @ member_added c"
    and "phase (run_command a c b) = Booting \<Longrightarrow> queues (run_command a c b) = queue_made c (queues b)"
    and "phase (run_command a c b) = Booting \<Longrightarrow> set_length (run_command a c b) = set_made c (set_length b)"
proof -
  have e: "run_command a c b = perform a c b" using assms by (simp add: run_command_def)
  show "phase (run_command a c b) = (if takes_memory c \<longrightarrow> heap a (allocs b) then Booting else Halted)"
    unfolding e by (cases c) (simp_all add: assms allocate_def case_prod_unfold Let_def [where s = "UART_Init _ _ _"])
  show "phase (run_command a c b) = Booting \<Longrightarrow> allocs (run_command a c b) = allocs b + (if takes_memory c then 1 else 0)"
    unfolding e by (cases c) (simp_all add: assms allocate_def case_prod_unfold Let_def [where s = "UART_Init _ _ _"] split: if_splits)
  show "phase (run_command a c b) = Booting \<Longrightarrow> tasks (run_command a c b) = tasks b @ task_made c"
    unfolding e by (cases c) (simp_all add: assms allocate_def case_prod_unfold Let_def [where s = "UART_Init _ _ _"] split: if_splits)
  show "phase (run_command a c b) = Booting \<Longrightarrow> Startup.members (run_command a c b) = Startup.members b @ member_added c"
    unfolding e by (cases c) (simp_all add: assms allocate_def case_prod_unfold Let_def [where s = "UART_Init _ _ _"] split: if_splits)
  show "phase (run_command a c b) = Booting \<Longrightarrow> queues (run_command a c b) = queue_made c (queues b)"
    unfolding e by (cases c) (simp_all add: assms allocate_def case_prod_unfold Let_def [where s = "UART_Init _ _ _"] split: if_splits)
  show "phase (run_command a c b) = Booting \<Longrightarrow> set_length (run_command a c b) = set_made c (set_length b)"
    unfolding e by (cases c) (simp_all add: assms allocate_def case_prod_unfold Let_def [where s = "UART_Init _ _ _"] split: if_splits)
qed

lemma run_phase:
  "phase b = Booting \<Longrightarrow>
   phase (fold (run_command a) cs b) = (if \<forall>i < creations cs. heap a (allocs b + i) then Booting else Halted)"
proof (induction cs arbitrary: b)
  case (Cons c cs)
  show ?case
  proof (cases "takes_memory c \<longrightarrow> heap a (allocs b)")
    case True
    then have ok: "phase (run_command a c b) = Booting" using run_one(1) [OF Cons.prems] by simp
    show ?thesis using Cons.IH [OF ok] run_one(2) [OF Cons.prems ok] True
      by (auto simp: creations_def less_Suc_eq_0_disj)
  next
    case False
    then show ?thesis using run_one(1) [OF Cons.prems, of a c] run_halted [of "run_command a c b" a cs]
      by (auto simp: creations_def)
  qed
qed (simp add: creations_def)

lemma run_effect:
  assumes "phase b = Booting" "phase (fold (run_command a) cs b) = Booting"
  shows "tasks (fold (run_command a) cs b) = tasks b @ concat (map task_made cs)
    \<and> Startup.members (fold (run_command a) cs b) = Startup.members b @ concat (map member_added cs)
    \<and> queues (fold (run_command a) cs b) = fold queue_made cs (queues b)
    \<and> set_length (fold (run_command a) cs b) = fold set_made cs (set_length b)"
  using assms
proof (induction cs arbitrary: b)
  case (Cons c cs)
  have "phase (run_command a c b) \<noteq> Halted" using Cons.prems(2) run_halted [of "run_command a c b" a cs] by auto
  then have ok: "phase (run_command a c b) = Booting" using run_one(1) [OF Cons.prems(1), of a c] by (simp split: if_splits)
  show ?case using Cons.IH [OF ok] Cons.prems(2) run_one(3-6) [OF Cons.prems(1) ok] by simp
qed simp

lemma main_creations: "creations (main_commands wpa2 poland) = 33"
  by (simp add: creations_def main_commands_def create_queue_def start_task_def tasks_of_main_def)

text \<open>The sensors in the order in which their queues join the set.\<close>

definition sensors :: "sensor list" where
  "sensors = [BME280_0, BME280_1, DHT20_0, DHT20_1, DHT11_0, DHT22_0, SGP30_0, DS18B20_0, PMS5003_0]"

lemma sensors_all: "distinct sensors \<and> set sensors = UNIV"
proof -
  have "x \<in> set sensors" for x by (cases x) (simp_all add: sensors_def)
  then show ?thesis by (auto simp: sensors_def)
qed

lemma main_effect:
  "concat (map task_made (main_commands wpa2 poland)) = map snd (tasks_of_main wpa2 poland (Some 0))"
  "concat (map member_added (main_commands wpa2 poland)) = map xDataQueue sensors"
  "fold set_made (main_commands wpa2 poland) None = Some 9"
  "fold queue_made (main_commands wpa2 poland) (\<lambda>_. None) q = Some (1, c_sizeof (created_for q))"
proof -
  show "fold queue_made (main_commands wpa2 poland) (\<lambda>_. None) q = Some (1, c_sizeof (created_for q))"
  proof (cases q)
    case (xDataQueue x)
    then show ?thesis by (cases x) (simp_all add: main_commands_def create_queue_def start_task_def tasks_of_main_def)
  qed (simp_all add: main_commands_def create_queue_def start_task_def tasks_of_main_def)
qed (simp_all add: main_commands_def create_queue_def start_task_def tasks_of_main_def sensors_def)

lemma main_phase:
  "phase (main a wpa2 poland (reset_board ws l)) = (if \<forall>i < 33. heap a i then Scheduling else Halted)"
  using run_phase [of "reset_board ws l" a "main_commands wpa2 poland"]
  by (simp add: main_def Let_def main_creations reset_board_def)

lemma main_state:
  assumes "phase (main a wpa2 poland (reset_board ws l)) = Scheduling"
  shows "tasks (main a wpa2 poland (reset_board ws l)) = map snd (tasks_of_main wpa2 poland (Some 0))"
    and "Startup.members (main a wpa2 poland (reset_board ws l)) = map xDataQueue sensors"
    and "queues (main a wpa2 poland (reset_board ws l)) q = Some (1, c_sizeof (created_for q))"
    and "set_length (main a wpa2 poland (reset_board ws l)) = Some 9"
proof -
  let ?b = "reset_board ws l" and ?cs = "main_commands wpa2 poland"
  have b: "phase ?b = Booting" by (simp add: reset_board_def)
  have h: "\<forall>i < 33. heap a i" using assms main_phase [of a wpa2 poland ws l] by (simp split: if_splits)
  then have f: "phase (fold (run_command a) ?cs ?b) = Booting" using run_phase [OF b, of a ?cs] by (simp add: main_creations reset_board_def)
  note e = run_effect [OF b f]
  show "tasks (main a wpa2 poland ?b) = map snd (tasks_of_main wpa2 poland (Some 0))"
    "Startup.members (main a wpa2 poland ?b) = map xDataQueue sensors"
    "queues (main a wpa2 poland ?b) q = Some (1, c_sizeof (created_for q))"
    "set_length (main a wpa2 poland ?b) = Some 9"
    using e f by (simp_all add: main_def Let_def main_effect) (simp_all add: reset_board_def main_effect)
qed

lemma packet_sizes:
  "c_sizeof BME280_DataPacket_t = 28" "data_end BME280_DataPacket_t = 28"
  "c_sizeof DHT_DataPacket_t = 24" "data_end DHT_DataPacket_t = 24"
  "c_sizeof DS18B20_DataPacket_t = 32" "data_end DS18B20_DataPacket_t = 28"
  "c_sizeof PMS5003_DataPacket_t = 16" "data_end PMS5003_DataPacket_t = 16"
  "c_sizeof SGP30_DataPacket_t = 12" "data_end SGP30_DataPacket_t = 12"
  "c_sizeof Sensors_DataPacket_t = 296" "data_end Sensors_DataPacket_t = 292"
  by code_simp+

subsection \<open>Properties\<close>

text \<open>C23. The scheduler is never started with a kernel object missing: \<open>main\<close> reaches it exactly when the heap grants
  every one of the 33 creations, and halts otherwise. When it is started, each of the queues exists with one
  place, the set holds the nine sensor queues and has room for an event of each, and all fifteen tasks are there.\<close>

theorem MAIN_halts_or_completes:
  "phase (main a wpa2 poland (reset_board ws l)) = (if \<forall>i < 33. heap a i then Scheduling else Halted) \<and>
   (phase (main a wpa2 poland (reset_board ws l)) = Scheduling \<longrightarrow>
      tasks (main a wpa2 poland (reset_board ws l)) = map snd (tasks_of_main wpa2 poland (Some 0))
    \<and> (\<forall>q. \<exists>k. queues (main a wpa2 poland (reset_board ws l)) q = Some (1, k))
    \<and> Startup.members (main a wpa2 poland (reset_board ws l)) = map xDataQueue sensors
    \<and> set_length (main a wpa2 poland (reset_board ws l)) = Some (length sensors))"
  using main_phase [of a wpa2 poland ws l] main_state [of a wpa2 poland ws l] by (auto simp: sensors_def)

lemma MAIN_halts_or_completes_witness:
  "phase (main \<lparr>heap = (\<lambda>_. True), dma_channel = 0, pio_sm = 0, level = (\<lambda>_. 0)\<rparr> 4 5 (reset_board (\<lambda>_. \<lparr>dev = (), blog = []\<rparr>) ow_demo)) = Scheduling
   \<and> phase (main \<lparr>heap = (\<lambda>i. i < 20), dma_channel = 0, pio_sm = 0, level = (\<lambda>_. 0)\<rparr> 4 5 (reset_board (\<lambda>_. \<lparr>dev = (), blog = []\<rparr>) ow_demo)) = Halted"
proof -
  have "\<exists>i < 33. \<not> i < (20 :: nat)" by (rule exI [of _ 20]) simp
  then show ?thesis by (simp add: conjunct1 [OF MAIN_halts_or_completes])
qed

text \<open>C39. Every queue carries its packets: the item size a queue is created with is enough for all members of the packet
  sent to it and not more than the packet itself, so a send reads and a receive writes inside the packet. For
  the DS18B20, whose queue is created with the size of another packet, what is cut off is padding.\<close>

theorem MAIN_queues_carry_packets:
  assumes "queues (main a wpa2 poland (reset_board ws l)) q = Some (n, k)"
    and "phase (main a wpa2 poland (reset_board ws l)) = Scheduling"
  shows "data_end (carried q) \<le> k \<and> k \<le> c_sizeof (carried q)"
proof -
  have k: "k = c_sizeof (created_for q)" using assms(1) main_state(3) [OF assms(2), of q] by simp
  show ?thesis
  proof (cases q)
    case (xDataQueue x)
    then show ?thesis unfolding k by (cases x) (simp_all add: packet_sizes)
  qed (simp_all add: k packet_sizes)
qed

lemma MAIN_queues_carry_packets_witness:
  "data_end DS18B20_DataPacket_t = 28 \<and> c_sizeof DS18B20_DataPacket_t = 32 \<and> data_end (carried (xDataQueue DS18B20_0)) \<le> 28"
proof -
  let ?a = "\<lparr>heap = (\<lambda>_. True), dma_channel = 0, pio_sm = 0, level = (\<lambda>_. 0)\<rparr>"
  let ?b = "reset_board (\<lambda>_. \<lparr>dev = (), blog = []\<rparr>) ow_demo"
  have s: "phase (main ?a 4 5 ?b) = Scheduling" by (simp add: main_phase)
  have c: "c_sizeof (created_for (xDataQueue DS18B20_0)) = 28" by (simp add: packet_sizes)
  show ?thesis using MAIN_queues_carry_packets [OF main_state(3) [OF s, of "xDataQueue DS18B20_0"] s] unfolding c by (simp add: packet_sizes)
qed

text \<open>The devices a task talks to, with their bus.\<close>

fun task_devices :: "params \<Rightarrow> (bus \<times> u8) list" where
  "task_devices (WiFi_Params i _) = [(i, EEPROM_ADDR)]"
| "task_devices (BME280_Params i c _) = [(i, BME280_Config.address c)]"
| "task_devices (DHT20_Params i c _) = [(i, DHT20_Config.address c)]"
| "task_devices (SGP30_Params i c _) = [(i, SGP30_Config.address c)]"
| "task_devices _ = []"

text \<open>No two tasks talk to the same device: the pairs of bus and address in the parameters main gives the tasks are
  distinct.\<close>

theorem MAIN_devices_distinct:
  assumes "phase (main a wpa2 poland (reset_board ws l)) = Scheduling"
  shows "distinct (concat (map (task_devices \<circ> targs) (tasks (main a wpa2 poland (reset_board ws l)))))"
  unfolding main_state(1) [OF assms]
  by (simp add: tasks_of_main_def sensor_task_of_def hkBME280_def hkDHT20_def hkSGP30_0_def hkBME280_ADDRESS_def
      hkDHT20_ADDRESS_def hkSGP30_ADDRESS_def EEPROM_ADDR_def)

lemma MAIN_devices_distinct_witness:
  "distinct (concat (map (task_devices \<circ> targs) (tasks (main \<lparr>heap = (\<lambda>_. True), dma_channel = 0, pio_sm = 0, level = (\<lambda>_. 0)\<rparr> 4 5
     (reset_board (\<lambda>_. \<lparr>dev = (), blog = []\<rparr>) ow_demo)))))"
  by (rule MAIN_devices_distinct) (simp add: main_phase)

text \<open>The pins the drivers take over.\<close>

fun command_pins :: "command \<Rightarrow> u8 list" where
  "command_pins (Init_I2C _ c) = [sda c, scl c]"
| "command_pins (Init_UART c) = [tx c, rx c]"
| "command_pins (Init_OneWire c) = [OneWire_Config.gpio c]"
| "command_pins (Init_KY40 cs) = concat (map (\<lambda>c. [cclk c, cdt c, cbtn c]) cs)"
| "command_pins (Create_Task t) = (case targs t of DHT_Params _ c _ \<Rightarrow> [DHT_Config.gpio c] | _ \<Rightarrow> [])"
| "command_pins _ = []"

definition claimed_pins :: "u32 \<Rightarrow> u32 \<Rightarrow> u8 list" where
  "claimed_pins wpa2 poland = concat (map command_pins (main_commands wpa2 poland))"

text \<open>Every pin belongs to one driver, except pin 17, which both the DHT11 and the data line of the encoder are given:
  reading the sensor drives the line the encoder interrupt reads.\<close>

theorem MAIN_pin_conflict:
  "count_list (claimed_pins wpa2 poland) p \<le> (if p = 17 then 2 else 1)
   \<and> count_list (claimed_pins wpa2 poland) 17 = 2"
proof -
  have "claimed_pins wpa2 poland = [4, 5, 18, 19, 8, 9, 13, 16, 17, 20, 17, 15]"
    by (simp add: claimed_pins_def main_commands_def create_queue_def start_task_def tasks_of_main_def sensor_task_of_def
        hkI2C0_def hkI2C1_def hkUART0_def hkOneWire0_def hkKY40_Encoders_def hkDHT11_0_def hkDHT22_0_def hkDHT_PIN_def)
  moreover have "count_list [4, 5, 18, 19, 8, 9, 13, 16, 17, 20, 17, 15 :: u8] p \<le> (if p = 17 then 2 else 1)"
    by (simp del: One_nat_def split: if_splits) 
  ultimately show ?thesis by simp
qed

lemma BME280_ProcessData_jsonify:
  "BME280_ProcessData lm c d = Some d' \<Longrightarrow> BME280_DataPacket.jsonify d' = BME280_DataPacket.jsonify d"
  by (auto simp: BME280_ProcessData_def BME280_DewPoint_def BME280_AbsoluteHumidity_def Let_def bind_eq_Some_conv split: prod.splits)

lemma BME280_round_jsonify:
  assumes "BME280_round env lm t = Some t'"
    and "BME280_DataPacket.jsonify (packet t) = j \<and> (\<forall>p \<in> set (sent t). BME280_DataPacket.jsonify p = j)"
  shows "BME280_DataPacket.jsonify (packet t') = j \<and> (\<forall>p \<in> set (sent t'). BME280_DataPacket.jsonify p = j)"
  using BME280_round_cases [OF assms(1)] assms(2) by (auto split: if_splits dest: BME280_ProcessData_jsonify)

text \<open>What the BME280 tasks that main starts send can be printed: however long a task has run and whatever the sensor
  answered, every packet it sent carries \<open>BME280_Jsonify\<close>, which is what the sender of the pipeline relies on.\<close>

theorem MAIN_bme_packets_printable:
  assumes "t \<in> set (tasks (main a wpa2 poland (reset_board ws l)))" and "phase (main a wpa2 poland (reset_board ws l)) = Scheduling"
    and "targs t = BME280_Params i c d"
    and "vBME280_Task env uninit lm n \<lparr>conf = c, packet = d, sent = [], wld = w\<rparr> = Some s"
  shows "bme_printable (map (\<lambda>p. Sensed x (BME280_Reading p)) (sent s))"
proof -
  let ?P = "\<lambda>t :: 'e BME280_Task. BME280_DataPacket.jsonify (packet t) = JSON_BME280 \<and> (\<forall>p \<in> set (sent t). BME280_DataPacket.jsonify p = JSON_BME280)"
  have d: "d = hkBME280_Data" using assms(1,3) unfolding main_state(1) [OF assms(2)] by (auto simp: tasks_of_main_def sensor_task_of_def)
  from assms(4) obtain s0 where s0: "retry_init (on_conf (BME280_Init env uninit)) (task_delay 10000) \<lparr>conf = c, packet = d, sent = [], wld = w\<rparr> = Some s0"
    and r: "rounds n (BME280_round env lm) (task_delay 100 s0) = Some s"
    by (auto simp: vBME280_Task_def run_task_def bind_eq_Some_conv)
  have "?P s0" by (rule retry_init_inv [OF s0, where P = ?P]) (simp_all add: task_simps d hkBME280_Data_def)
  then have "?P (task_delay 100 s0)" by (simp add: task_simps)
  then have "?P s" by (rule rounds_inv [OF r, where P = ?P]) (rule BME280_round_jsonify)
  then show ?thesis by (auto simp: bme_printable_def)
qed

lemma MAIN_bme_packets_printable_witness:
  "\<exists>s. vBME280_Task (answer_env []) [] id_libm 0 \<lparr>conf = hkBME280, packet = hkBME280_Data, sent = [], wld = quiet_world\<rparr> = Some s
     \<and> bme_printable (map (\<lambda>p. Sensed BME280_1 (BME280_Reading p)) (sent s))"
proof -
  let ?a = "\<lparr>heap = (\<lambda>_. True), dma_channel = 0, pio_sm = 0, level = (\<lambda>_. 0)\<rparr>"
  let ?m = "main ?a 4 5 (reset_board (\<lambda>_. \<lparr>dev = (), blog = []\<rparr>) ow_demo)"
  let ?t = "sensor_task_of ''BME280_1_Task'' (BME280_Params I2C1 hkBME280 hkBME280_Data)"
  have s: "phase ?m = Scheduling" by (simp add: main_phase)
  have t: "?t \<in> set (tasks ?m)" unfolding main_state(1) [OF s] by (simp add: tasks_of_main_def)
  have p: "targs ?t = BME280_Params I2C1 hkBME280 hkBME280_Data" by (simp add: sensor_task_of_def)
  obtain r where "vBME280_Task (answer_env []) [] id_libm 0 \<lparr>conf = hkBME280, packet = hkBME280_Data, sent = [], wld = quiet_world\<rparr> = Some r"
    using demo_start [of "[]" "[]" id_libm "\<lparr>conf = hkBME280, packet = hkBME280_Data, sent = [], wld = quiet_world\<rparr>"] by blast
  then show ?thesis using MAIN_bme_packets_printable [OF t s p] by blast
qed

end
