(* ===== verification/Graph.thy ===== *)
theory Graph
  imports Core SSD1327
begin

text \<open>
  What is drawn on the display through the driver's routines (src/display/gfx/gfx.c,
  include/display/gfx/gfx.h): the \<open>hk\<close> wrappers, the test pattern, the scrolling graph with its
  legend and values, and the screen savers. The state is the frame buffer; \<open>hkDisplay\<close> sends it
  over the bus. The font is a parameter, random numbers are a stream. \<open>None\<close> is undefined
  behaviour: a conversion out of range, a read or write outside the history, a division by zero.
\<close>

subsection \<open>Wrappers\<close>

definition hkClearBuffer :: "gfx \<Rightarrow> gfx" where "hkClearBuffer = SSD1327_ClearBuffer"
definition hkDisplay :: "'e i2c_env \<Rightarrow> bool \<Rightarrow> gfx \<Rightarrow> 'e world \<Rightarrow> 'e world" where "hkDisplay = SSD1327_Display"
definition hkDrawPixel :: "u8 \<Rightarrow> u8 \<Rightarrow> u8 \<Rightarrow> gfx \<Rightarrow> gfx" where "hkDrawPixel = SSD1327_DrawPixel"
definition hkDrawLine :: "u8 \<Rightarrow> u8 \<Rightarrow> u8 \<Rightarrow> u8 \<Rightarrow> u8 \<Rightarrow> gfx \<Rightarrow> gfx option" where "hkDrawLine = SSD1327_DrawLine"
definition hkDrawFastHLine :: "u8 \<Rightarrow> u8 \<Rightarrow> u8 \<Rightarrow> u8 \<Rightarrow> gfx \<Rightarrow> gfx" where "hkDrawFastHLine = SSD1327_DrawFastHLine"
definition hkDrawFastVLine :: "u8 \<Rightarrow> u8 \<Rightarrow> u8 \<Rightarrow> u8 \<Rightarrow> gfx \<Rightarrow> gfx" where "hkDrawFastVLine = SSD1327_DrawFastVLine"
definition hkDrawRect :: "u8 \<Rightarrow> u8 \<Rightarrow> u8 \<Rightarrow> u8 \<Rightarrow> u8 \<Rightarrow> gfx \<Rightarrow> gfx" where "hkDrawRect = SSD1327_DrawRect"
definition hkFillRect :: "u8 \<Rightarrow> u8 \<Rightarrow> u8 \<Rightarrow> u8 \<Rightarrow> u8 \<Rightarrow> gfx \<Rightarrow> gfx" where "hkFillRect = SSD1327_FillRect"
definition hkFillFastRect :: "u8 \<Rightarrow> u8 \<Rightarrow> u8 \<Rightarrow> u8 \<Rightarrow> u8 \<Rightarrow> gfx \<Rightarrow> gfx" where "hkFillFastRect = SSD1327_FillFastRect"

definition hkDrawFastChar :: "u8 list \<Rightarrow> u8 \<Rightarrow> u8 \<Rightarrow> u8 \<Rightarrow> gfx \<Rightarrow> gfx" where
  "hkDrawFastChar font x y c = SSD1327_DrawChar font x y c 0x0F 1"

definition hkDrawChar :: "u8 list \<Rightarrow> u8 \<Rightarrow> u8 \<Rightarrow> u8 \<Rightarrow> u8 \<Rightarrow> u8 \<Rightarrow> gfx \<Rightarrow> gfx" where
  "hkDrawChar = SSD1327_DrawChar"

text \<open>Strings are HOL strings here; the driver reads their bytes.\<close>

definition hkDrawString :: "u8 list \<Rightarrow> u8 \<Rightarrow> u8 \<Rightarrow> string \<Rightarrow> u8 \<Rightarrow> u8 \<Rightarrow> gfx \<Rightarrow> gfx" where
  "hkDrawString font x y str color sz = SSD1327_DrawString font x y (map of_char str) color sz"

definition hkDrawFastString :: "u8 list \<Rightarrow> u8 \<Rightarrow> u8 \<Rightarrow> string \<Rightarrow> gfx \<Rightarrow> gfx" where
  "hkDrawFastString font x y str = hkDrawString font x y str 0x0F 1"

text \<open>\<open>sleep_ms(250); hkDisplay();\<close>, one stage of the pattern drawn by \<open>f\<close>.\<close>

definition stage :: "'e i2c_env \<Rightarrow> bool \<Rightarrow> (gfx \<Rightarrow> gfx option) \<Rightarrow> gfx \<times> 'e world \<Rightarrow> (gfx \<times> 'e world) option" where
  "stage env ready f gw =
     Option.bind (f (fst gw)) (\<lambda>g. Some (g, hkDisplay env ready g (delay_ms 250 (snd gw))))"

definition hkDrawTestPattern :: "'e i2c_env \<Rightarrow> bool \<Rightarrow> u8 list \<Rightarrow> gfx \<times> 'e world \<Rightarrow> (gfx \<times> 'e world) option" where
  "hkDrawTestPattern env ready font gw =
     Option.bind (stage env ready (\<lambda>g. Some (hkDrawRect 0 0 127 127 0x0F g)) (hkClearBuffer (fst gw), snd gw)) (\<lambda>gw.
     Option.bind (stage env ready (\<lambda>g. Option.bind (hkDrawLine 0 0 127 127 0x0F g) (hkDrawLine 0 127 127 0 0x0F)) gw) (\<lambda>gw.
     Option.bind (stage env ready (\<lambda>g.
       let g = hkDrawFastString font 20 5 ''SSD1327 gfx OK!'' g;
           g = hkDrawFastString font 30 15 ''0123456789'' g;
           g = hkDrawFastChar font 40 30 35 g;
           g = hkDrawFastChar font 50 30 36 g;
           g = hkDrawFastChar font 60 30 37 g;
           g = hkDrawFastChar font 70 30 38 g
       in Some (hkDrawFastChar font 80 30 42 g)) gw) (\<lambda>gw.
     Option.bind (stage env ready (\<lambda>g. Some (hkDrawRect 6 43 54 29 0x0F (hkFillRect 8 45 50 25 0x0F g))) gw) (\<lambda>gw.
     Option.bind (stage env ready (\<lambda>g. Some (hkDrawFastHLine 80 80 40 0x0F (hkDrawFastVLine 100 45 30 0x0F g))) gw) (\<lambda>gw.
     Option.bind (stage env ready (\<lambda>g.
       let g = hkDrawChar font 32 117 65 0x01 1 g;
           g = hkDrawChar font 40 110 66 0x06 2 g
       in Some (hkDrawChar font 53 103 67 0x0F 3 g)) gw) (\<lambda>(g, w).
     let w = delay_ms 5000 w; g = hkClearBuffer g
     in Some (g, hkDisplay env ready g w)))))))"

subsection \<open>The graph\<close>

text \<open>\<open>history\<close> is the memory the pointer leads to; \<open>glength\<close> the length the configuration states.\<close>

record GraphConfig =
  gx :: u8
  gy :: u8
  width :: u8
  height :: u8
  minVal :: f32
  maxVal :: f32
  colour :: u8
  borderColour :: u8
  legendColour :: u8
  history :: "u8 list"
  glength :: u8
  cursor :: u8

definition hkGraphInit :: "GraphConfig \<Rightarrow> GraphConfig option" where
  "hkGraphInit c =
     (if length (history c) < unat (glength c) then None
      else Some (c\<lparr>history := replicate (unat (glength c)) 0 @ drop (unat (glength c)) (history c)\<rparr>))"

definition hkGraphDrawAxes :: "GraphConfig \<Rightarrow> gfx \<Rightarrow> gfx" where
  "hkGraphDrawAxes c = hkDrawRect (gx c - 1) (gy c - 1) (width c + 2) (height c + 2) (borderColour c)"

text \<open>\<open>(i32)(x * 10)\<close>\<close>

definition tenths :: "f32 \<Rightarrow> int option" where
  "tenths x = Option.bind (f32_trunc (x * f32_of_int 10)) ck32"

text \<open>The clamping that adding and drawing share: between the top and the bottom row of the plot.\<close>

definition clamp_y :: "GraphConfig \<Rightarrow> int \<Rightarrow> int" where
  "clamp_y c v =
     (let v = (if v < uint (gy c) then uint (gy c) else v)
      in if v > uint (gy c) + uint (height c) then uint (gy c) + uint (height c) else v)"

text \<open>The row of a data point.\<close>

definition graph_row :: "GraphConfig \<Rightarrow> f32 \<Rightarrow> int option" where
  "graph_row c d =
     Option.bind (tenths d) (\<lambda>v.
     Option.bind (tenths (minVal c)) (\<lambda>lo.
     Option.bind (tenths (maxVal c)) (\<lambda>hi.
     map_option (clamp_y c) (map_i32 v lo hi (uint (gy c) + uint (height c)) (uint (gy c))))))"

definition hkGraphAddDataPoint :: "f32 \<Rightarrow> GraphConfig \<Rightarrow> GraphConfig option" where
  "hkGraphAddDataPoint d c =
     Option.bind (graph_row c d) (\<lambda>nextY.
     if length (history c) \<le> unat (cursor c) then None
     else let c = c\<lparr>history := (history c)[unat (cursor c) := word_of_int nextY], cursor := cursor c + 1\<rparr>
          in Some (if cursor c \<ge> width c then c\<lparr>cursor := 0\<rparr> else c))"

definition hkGraphSegment :: "GraphConfig \<Rightarrow> nat \<Rightarrow> gfx \<Rightarrow> gfx option" where
  "hkGraphSegment c i g =
     Option.bind (rd (history c) (i - 1)) (\<lambda>p.
     Option.bind (rd (history c) i) (\<lambda>n.
     hkDrawLine (gx c + word_of_nat i - 1) (word_of_int (clamp_y c (uint p))) (gx c + word_of_nat i) (word_of_int (clamp_y c (uint n))) (colour c) g))"

definition hkGraphDraw :: "GraphConfig \<Rightarrow> gfx \<Rightarrow> gfx option" where
  "hkGraphDraw c g = fold (\<lambda>i r. Option.bind r (hkGraphSegment c i)) [1..<unat (cursor c)] (Some g)"

text \<open>\<open>char label[16]\<close>\<close>

definition label16 :: "string \<Rightarrow> string" where "label16 s = snd (snprintf 16 s)"

definition hkGraphDrawLegend :: "u8 list \<Rightarrow> GraphConfig \<Rightarrow> string \<Rightarrow> gfx \<Rightarrow> gfx" where
  "hkGraphDrawLegend font c title g =
     (let titleX = gx c + width c div 2 - word_of_nat (length title * 6 div 2);
          g = hkDrawString font titleX (gy c - 10) title (borderColour c) 1 g;
          g = hkDrawString font 6 (gy c + 1) (label16 (fmt_f 0 (maxVal c))) (legendColour c) 1 g
      in hkDrawString font 6 (gy c + height c - 8) (label16 (fmt_f 0 (minVal c))) (legendColour c) 1 g)"

text \<open>The result of \<open>snprintf\<close> as a \<open>u8\<close>, and the label.\<close>

definition GFX_PrecisionPrint :: "u8 \<Rightarrow> f32 \<Rightarrow> u8 \<times> string" where
  "GFX_PrecisionPrint precision d =
     (let s = fmt_f (if precision \<le> 3 then unat precision else 1) d in (word_of_nat (length s), label16 s))"

definition hkGraphDrawValue :: "u8 list \<Rightarrow> GraphConfig \<Rightarrow> f32 \<Rightarrow> u8 \<Rightarrow> gfx \<Rightarrow> gfx" where
  "hkGraphDrawValue font c d precision g =
     (let (padding, label) = GFX_PrecisionPrint precision d;
          labelX = gx c + width c - padding * 6
      in hkDrawString font labelX (gy c + 1) label (legendColour c) 1 g)"

text \<open>Where the following value is drawn, for a label of \<open>padding\<close> characters; \<open>currX\<close> is a \<open>u16\<close>.\<close>

definition follow_index :: "GraphConfig \<Rightarrow> nat" where
  "follow_index c = (if cursor c = 0 then unat (width c) - 1 else unat (cursor c) - 1)"

definition follow_x :: "GraphConfig \<Rightarrow> u8 \<Rightarrow> u16" where
  "follow_x c padding =
     (let textWidth = padding * 5 + padding :: u8;
          currX = word_of_int (uint (gx c) + int (follow_index c) - uint textWidth div 2) :: u16;
          currX = (if uint currX < uint (gx c) then ucast (gx c) else currX)
      in if uint currX + uint textWidth > uint (gx c) + uint (width c)
         then word_of_int (uint (gx c) + uint (width c) - uint textWidth) else currX)"

definition follow_y :: "GraphConfig \<Rightarrow> u8 \<Rightarrow> u8" where
  "follow_y c currY =
     (let graphTopY = gy c; graphBottomY = gy c + height c; graphMidY = gy c + height c div 2
      in if currY < graphMidY
         then let drawY = currY + 4 in if drawY < graphTopY then graphTopY else drawY
         else let drawY = currY - 7 - 4
              in if uint drawY + 7 > uint graphBottomY then graphBottomY - 7 else drawY)"

definition hkGraphDrawValueFollow :: "u8 list \<Rightarrow> GraphConfig \<Rightarrow> f32 \<Rightarrow> u8 \<Rightarrow> gfx \<Rightarrow> gfx option" where
  "hkGraphDrawValueFollow font c d precision g =
     (let (padding, label) = GFX_PrecisionPrint precision d
      in Option.bind (rd (history c) (follow_index c)) (\<lambda>currY.
         Some (hkDrawString font (ucast (follow_x c padding)) (follow_y c currY) label (legendColour c) 1 g)))"

subsection \<open>Screen savers\<close>

record Raindrop =
  rx :: u8
  ry :: u8
  speedY :: f32
  rwidth :: u8
  rheight :: u8
  rcolour :: u8

record saver =
  droplets :: "Raindrop list"
  rectX :: u8
  rectY :: u8
  rspeedX :: u8
  rspeedY :: u8

text \<open>The \<open>i\<close>-th droplet, from the six random numbers drawn for it.\<close>

definition new_droplet :: "(nat \<Rightarrow> u32) \<Rightarrow> nat \<Rightarrow> Raindrop" where
  "new_droplet rnd32 n =
     \<lparr>rx = ucast (rnd32 n mod 127), ry = ucast (rnd32 (n + 1) mod 10 - 10), speedY = f32_of_int (uint (rnd32 (n + 2) mod 15 + 6)),
      rwidth = ucast (rnd32 (n + 3) mod 3), rheight = ucast (rnd32 (n + 4) mod 4 + 7), rcolour = ucast (rnd32 (n + 5) mod 15 + 3)\<rparr>"

definition hkScreenSaverInit :: "(nat \<Rightarrow> u32) \<Rightarrow> saver \<Rightarrow> saver" where
  "hkScreenSaverInit rnd32 s = s\<lparr>droplets := map (\<lambda>i. new_droplet rnd32 (6 * i)) [0..<48]\<rparr>"

text \<open>\<open>u8 += f32\<close>: the sum is converted back, which is undefined outside 0..255.\<close>

definition f32_to_u8 :: "f32 \<Rightarrow> u8 option" where
  "f32_to_u8 x = (case f32_trunc x of None \<Rightarrow> None
     | Some n \<Rightarrow> if 0 \<le> n \<and> n < 256 then Some (word_of_int n) else None)"

text \<open>
  Random numbers are an arbitrary stream, of which each droplet is given four places for the case
  that it starts anew. \<open>0.18\<close> is a double: the sum is a double sum, rounded to single precision when it
  is stored.
\<close>

definition droplet_step :: "(nat \<Rightarrow> u32) \<Rightarrow> nat \<Rightarrow> Raindrop \<times> gfx \<Rightarrow> (Raindrop \<times> gfx) option" where
  "droplet_step rnd32 n dg =
     Option.bind (f32_to_u8 (f32_of_int (uint (ry (fst dg))) + speedY (fst dg))) (\<lambda>y.
     let d = (fst dg)\<lparr>ry := y, speedY := (if is_finite (speedY (fst dg)) then f32_of (val (speedY (fst dg)) + 18 / 100) else speedY (fst dg))\<rparr>;
         g = hkFillFastRect (rx d) (ry d) (rwidth d) (rheight d) (rcolour d) (snd dg)
     in Some (if ry d > 127
              then d\<lparr>rx := ucast (rnd32 n mod 120 + 7), ry := ucast (rnd32 (n + 1) mod 10 - 10), rwidth := ucast (rnd32 (n + 2) mod 3),
                     speedY := f32_of_int (uint (rnd32 (n + 3) mod 15 + 6))\<rparr> else d, g))"

fun rain :: "(nat \<Rightarrow> u32) \<Rightarrow> nat \<Rightarrow> Raindrop list \<Rightarrow> gfx \<Rightarrow> (Raindrop list \<times> gfx) option" where
  "rain rnd32 n [] g = Some ([], g)"
| "rain rnd32 n (d # ds) g =
     Option.bind (droplet_step rnd32 n (d, g)) (\<lambda>(d, g).
     Option.bind (rain rnd32 (n + 4) ds g) (\<lambda>(ds, g). Some (d # ds, g)))"

text \<open>The bouncing square: one coordinate. \<open>speed *= -1\<close> on a \<open>u8\<close>.\<close>

definition bounce :: "u8 \<Rightarrow> u8 \<times> u8 \<Rightarrow> u8 \<times> u8" where
  "bounce side ps =
     (let pos = fst ps + snd ps
      in (pos, if pos \<le> 0 \<or> uint pos \<ge> uint side - 10 then - snd ps else snd ps))"

definition hkScreenSaver :: "'e i2c_env \<Rightarrow> bool \<Rightarrow> (nat \<Rightarrow> u32) \<Rightarrow> u8 \<Rightarrow> u8 \<Rightarrow> u8 \<Rightarrow> saver \<times> gfx \<times> 'e world \<Rightarrow> (saver \<times> gfx \<times> 'e world) option" where
  "hkScreenSaver env ready rnd32 w h screenSaver sgw =
     (case sgw of (s, g, wd) \<Rightarrow>
       let g = hkClearBuffer g
       in map_option (\<lambda>(s, g). (s, g, hkDisplay env ready g wd))
         (if screenSaver = 0 then map_option (\<lambda>(ds, g). (s\<lparr>droplets := ds\<rparr>, g)) (rain rnd32 0 (droplets s) g)
          else if screenSaver = 1 then
            let (x, sx) = bounce w (rectX s, rspeedX s); (y, sy) = bounce h (rectY s, rspeedY s)
            in Some (s\<lparr>rectX := x, rectY := y, rspeedX := sx, rspeedY := sy\<rparr>, hkFillFastRect x y 10 10 15 g)
          else Some (s, g)))"

definition saver_init :: saver where
  "saver_init = \<lparr>droplets = replicate 48 \<lparr>rx = 0, ry = 0, speedY = 0, rwidth = 0, rheight = 0, rcolour = 0\<rparr>,
                 rectX = 10, rectY = 10, rspeedX = 1, rspeedY = 1\<rparr>"

subsection \<open>Lemmas\<close>

text \<open>Between two coordinates.\<close>

definition betw :: "u8 \<Rightarrow> u8 \<Rightarrow> u8 \<Rightarrow> bool" where
  "betw a b c \<longleftrightarrow> min (uint a) (uint b) \<le> uint c \<and> uint c \<le> max (uint a) (uint b)"

lemma betw_toward: "0 \<le> k \<Longrightarrow> k \<le> span a b \<Longrightarrow> betw a b (toward a b k)"
  using uint_toward [of k a b] by (auto simp: betw_def span_def word_less_def split: if_splits)

text \<open>The minor coordinate of a line never overshoots.\<close>

lemma half_range:
  fixes m n k j :: int
  assumes "2 * \<bar>n * k - m * j\<bar> \<le> m" "0 \<le> n" "n \<le> m" "0 \<le> k" "k \<le> m" "0 < m"
  shows "0 \<le> j \<and> j \<le> n"
proof -
  have "0 \<le> n * k" "n * k \<le> m * n" using assms by (auto simp: mult.commute [of m] intro: mult_left_mono)
  moreover have "2 * (n * k - m * j) \<le> m" "- m \<le> 2 * (n * k - m * j)" using assms(1) by (simp_all add: abs_if split: if_splits)
  ultimately have "- m \<le> 2 * (m * j)" and "2 * (m * j) \<le> 2 * (m * n) + m" by (simp_all add: algebra_simps)
  then have "m * (- 1) \<le> m * (2 * j)" and "m * (2 * j) \<le> m * (2 * n + 1)" by (simp_all add: algebra_simps)
  then have "- 1 \<le> 2 * j" and "2 * j \<le> 2 * n + 1" using assms(6) by (simp_all only: mult_le_cancel_left_pos)
  then show ?thesis by linarith
qed

lemma line_in_box:
  assumes "is_line x0 y0 x1 y1 ps" and "(a, b) \<in> set ps"
  shows "betw x0 x1 a \<and> betw y0 y1 b"
proof -
  let ?dx = "span x0 x1" and ?dy = "span y0 y1"
  obtain k where k: "k < length ps" "ps ! k = (a, b)" using assms(2) by (auto simp: in_set_conv_nth)
  have d: "0 \<le> ?dx" "0 \<le> ?dy" using span_range by auto
  have len: "int k \<le> max ?dx ?dy" using assms(1) k(1) by (simp add: is_line_def)
  from assms(1) k obtain j where j: "(a, b) = (if ?dy \<le> ?dx then (toward x0 x1 (int k), toward y0 y1 j) else (toward x0 x1 j, toward y0 y1 (int k)))"
    "2 * \<bar>min ?dx ?dy * int k - max ?dx ?dy * j\<bar> \<le> max ?dx ?dy"
    unfolding is_line_def by metis
  show ?thesis
  proof (cases "max ?dx ?dy = 0")
    case True
    then have z: "?dx = 0" "?dy = 0" using d by auto
    then have "length ps = 1" using assms(1) by (simp add: is_line_def)
    then have "(a, b) = hd ps" using k by (cases ps) auto
    then show ?thesis using assms(1) by (simp add: is_line_def betw_def)
  next
    case False
    then have m: "0 < max ?dx ?dy" using d by auto
    have "0 \<le> j \<and> j \<le> min ?dx ?dy"
      by (rule half_range [OF j(2) _ _ _ len m]) (use d in auto)
    then show ?thesis using j(1) len d by (auto intro: betw_toward split: if_splits)
  qed
qed

lemma clamp_y_range: "uint (gy c) \<le> clamp_y c v \<and> clamp_y c v \<le> uint (gy c) + uint (height c)"
  using uint_ge_0 [of "height c"] by (auto simp: clamp_y_def Let_def)

lemma uint_clamp: "uint (gy c) + uint (height c) < 256 \<Longrightarrow> uint (word_of_int (clamp_y c v) :: u8) = clamp_y c v"
  using order_trans [OF uint_ge_0 conjunct1 [OF clamp_y_range]] clamp_y_range [of c v] take_bit_int_eq_self [of "clamp_y c v" 8]
  by (simp add: uint_word_of_int_eq)

text \<open>The plot area.\<close>

definition in_plot :: "GraphConfig \<Rightarrow> u8 \<Rightarrow> u8 \<Rightarrow> bool" where
  "in_plot c a b \<longleftrightarrow> uint (gx c) \<le> uint a \<and> uint a < uint (gx c) + uint (width c)
     \<and> uint (gy c) \<le> uint b \<and> uint b \<le> uint (gy c) + uint (height c)"

definition graph_ok :: "GraphConfig \<Rightarrow> bool" where
  "graph_ok c \<longleftrightarrow> uint (gx c) + uint (width c) \<le> 256 \<and> uint (gy c) + uint (height c) < 256
     \<and> cursor c < width c \<and> unat (width c) \<le> length (history c)"

lemma segment_in_plot:
  assumes "graph_ok c" "ssd_ok g" "colour c < 16" "1 \<le> i" "i < unat (cursor c)"
  shows "\<exists>g'. hkGraphSegment c i g = Some g' \<and> ssd_ok g' \<and>
    (\<forall>a b. a < 128 \<longrightarrow> b < 128 \<longrightarrow> \<not> in_plot c a b \<longrightarrow> ssd_get a b g' = ssd_get a b g)"
proof -
  have cw: "unat (cursor c) < unat (width c)" using assms(1) by (simp add: graph_ok_def word_less_nat_alt)
  then have len: "i < length (history c)" using assms by (simp add: graph_ok_def)
  let ?p = "word_of_int (clamp_y c (uint (history c ! (i - 1)))) :: u8" and ?n = "word_of_int (clamp_y c (uint (history c ! i))) :: u8"
  let ?x0 = "gx c + word_of_nat i - 1" and ?x1 = "gx c + word_of_nat i"
  have "i < 256" using less_trans [OF assms(5) unat_u8] .
  then have i: "unat (word_of_nat i :: u8) = i" by (simp add: unat_word_of_nat)
  have xw: "unat (gx c) + i < 256" using assms(1,5) cw unfolding graph_ok_def uint_nat by linarith
  have x1: "unat ?x1 = unat (gx c) + i" using xw i unat_add_lem [of "gx c" "word_of_nat i"] by simp
  have x0: "unat ?x0 = unat (gx c) + i - 1" using x1 assms(4) unat_minus_one [of ?x1] by force
  obtain ps g' where l: "is_line ?x0 ?p ?x1 ?n ps" "hkDrawLine ?x0 ?p ?x1 ?n (colour c) g = Some g'" "ssd_ok g'"
    "\<forall>a b. a < 128 \<longrightarrow> b < 128 \<longrightarrow> ssd_get a b g' = (if (a, b) \<in> set ps then colour c else ssd_get a b g)"
    using DrawLine_points [of ?x0 ?p ?x1 ?n SSD1327_DrawPixel "colour c" g] ssd1327.plot_ok [OF assms(2)]
      ssd1327.get_plot [OF assms(2,3)]
    unfolding hkDrawLine_def SSD1327_DrawLine_def by metis
  have "in_plot c a b" if "(a, b) \<in> set ps" for a b
  proof -
    from line_in_box [OF l(1) that] have "betw ?x0 ?x1 a" "betw ?p ?n b" by auto
    moreover have "uint ?x0 = uint (gx c) + int i - 1" "uint ?x1 = uint (gx c) + int i"
      using x0 x1 assms(4) unfolding uint_nat by linarith+
    moreover have "uint ?p = clamp_y c (uint (history c ! (i - 1)))" "uint ?n = clamp_y c (uint (history c ! i))"
      using assms(1) uint_clamp [of c] unfolding graph_ok_def by blast+
    moreover have "int i < uint (width c)" using assms(5) cw unfolding uint_nat by linarith
    ultimately show ?thesis
      using assms(4) clamp_y_range [of c "uint (history c ! (i - 1))"] clamp_y_range [of c "uint (history c ! i)"]
      unfolding betw_def in_plot_def by linarith
  qed
  then have "\<forall>a b. a < 128 \<longrightarrow> b < 128 \<longrightarrow> \<not> in_plot c a b \<longrightarrow> ssd_get a b g' = ssd_get a b g" using l(4) by auto
  moreover have "hkGraphSegment c i g = Some g'" using len l(2) by (simp add: hkGraphSegment_def rd_def)
  ultimately show ?thesis using l(3) by blast
qed

lemma segments_in_plot:
  assumes "graph_ok c" "colour c < 16" "\<forall>i \<in> set is. 1 \<le> i \<and> i < unat (cursor c)" "ssd_ok g"
  shows "\<exists>g'. fold (\<lambda>i r. Option.bind r (hkGraphSegment c i)) is (Some g) = Some g' \<and> ssd_ok g' \<and>
    (\<forall>a b. a < 128 \<longrightarrow> b < 128 \<longrightarrow> \<not> in_plot c a b \<longrightarrow> ssd_get a b g' = ssd_get a b g)"
  using assms(3,4)
proof (induction "is" arbitrary: g)
  case (Cons i "is")
  obtain h where h: "hkGraphSegment c i g = Some h" "ssd_ok h"
    "\<And>a b. a < 128 \<Longrightarrow> b < 128 \<Longrightarrow> \<not> in_plot c a b \<Longrightarrow> ssd_get a b h = ssd_get a b g"
    using segment_in_plot [OF assms(1) Cons.prems(2) assms(2), of i] Cons.prems(1) by auto
  then show ?case using Cons.IH [OF _ h(2)] Cons.prems(1) by auto
qed simp

text \<open>The effect of adding one point, and of adding several.\<close>

definition put_row :: "nat \<Rightarrow> int \<Rightarrow> GraphConfig \<Rightarrow> GraphConfig" where
  "put_row n y c = c\<lparr>history := (history c)[n mod unat (width c) := word_of_int y], cursor := word_of_nat (Suc n mod unat (width c))\<rparr>"

lemma clamp_y_cong [simp]: "clamp_y (c\<lparr>history := h, cursor := k\<rparr>) = clamp_y c"
  by (simp add: clamp_y_def fun_eq_iff Let_def)

lemma graph_row_cong [simp]: "graph_row (c\<lparr>history := h, cursor := k\<rparr>) d = graph_row c d"
  by (simp add: graph_row_def)

lemma add_data_point:
  assumes "unat (cursor c) = n mod unat (width c)" "0 < width c" "unat (width c) \<le> length (history c)" "graph_row c d = Some y"
  shows "hkGraphAddDataPoint d c = Some (put_row n y c)"
proof -
  have w: "0 < unat (width c)" "unat (width c) < 256" using assms(2) unat_u8 [of "width c"] by (simp_all add: word_less_nat_alt)
  have lt: "n mod unat (width c) < unat (width c)" using w by simp
  then have s: "unat (cursor c + 1) = Suc (n mod unat (width c))" using assms(1) w unat_u8_Suc [of "cursor c"] by linarith
  have "(if cursor c + 1 \<ge> width c then 0 else cursor c + 1) = (word_of_nat (Suc n mod unat (width c)) :: u8)"
  proof (cases "Suc (n mod unat (width c)) = unat (width c)")
    case True then show ?thesis using s by (simp add: word_le_nat_alt mod_Suc)
  next
    case False
    then have "Suc n mod unat (width c) = unat (cursor c + 1)" using s by (simp add: mod_Suc)
    then have "(word_of_nat (Suc n mod unat (width c)) :: u8) = cursor c + 1" by (simp only: of_nat_unat ucast_id)
    moreover have "\<not> width c \<le> cursor c + 1" using False s lt by (simp only: word_le_nat_alt)
    ultimately show ?thesis by (simp only: if_False)
  qed
  then show ?thesis using assms lt by (auto simp: hkGraphAddDataPoint_def put_row_def Let_def split: if_splits)
qed

fun graph_run :: "f32 list \<Rightarrow> GraphConfig \<Rightarrow> GraphConfig option" where
  "graph_run [] c = Some c"
| "graph_run (d # ds) c = Option.bind (hkGraphAddDataPoint d c) (graph_run ds)"

fun put_rows :: "nat \<Rightarrow> int list \<Rightarrow> GraphConfig \<Rightarrow> GraphConfig" where
  "put_rows n [] c = c"
| "put_rows n (y # ys) c = put_rows (Suc n) ys (put_row n y c)"

lemma put_row_simps [simp]:
  "width (put_row n y c) = width c" "length (history (put_row n y c)) = length (history c)"
  "graph_row (put_row n y c) = graph_row c"
  by (simp_all add: put_row_def fun_eq_iff)

lemma cursor_put_row: "0 < width c \<Longrightarrow> unat (cursor (put_row n y c)) = Suc n mod unat (width c)"
  using mod_less_divisor [of "unat (width c)" "Suc n"] unat_u8 [of "width c"]
  by (simp add: put_row_def word_less_nat_alt unat_word_of_nat del: mod_less_divisor)

lemma graph_run_rows:
  assumes "unat (cursor c) = n mod unat (width c)" "0 < width c" "unat (width c) \<le> length (history c)" "\<forall>d \<in> set ds. graph_row c d \<noteq> None"
  shows "graph_run ds c = Some (put_rows n (map (\<lambda>d. the (graph_row c d)) ds) c)"
  using assms
proof (induction ds arbitrary: c n)
  case (Cons d ds)
  from Cons.prems(4) obtain y where y: "graph_row c d = Some y" by auto
  have a: "hkGraphAddDataPoint d c = Some (put_row n y c)" by (rule add_data_point [OF Cons.prems(1-3) y])
  have "graph_run ds (put_row n y c) = Some (put_rows (Suc n) (map (\<lambda>d. the (graph_row (put_row n y c) d)) ds) (put_row n y c))"
    by (rule Cons.IH) (use Cons.prems in \<open>simp_all add: cursor_put_row\<close>)
  then show ?case using a y by simp
qed simp

lemma cell_kept: "k < m \<Longrightarrow> m < k + w \<Longrightarrow> m mod w \<noteq> k mod (w :: nat)"
  by (metis add_diff_inverse_nat less_diff_conv2 less_imp_le mod_eq_dvd_iff_nat nat_dvd_not_less not_less zero_less_diff add.commute)

lemma put_rows_keeps:
  assumes "k < n" "n + length ys \<le> k + unat (width c)"
  shows "history (put_rows n ys c) ! (k mod unat (width c)) = history c ! (k mod unat (width c))"
  using assms
proof (induction ys arbitrary: c n)
  case (Cons y ys)
  have "n mod unat (width c) \<noteq> k mod unat (width c)" using Cons.prems by (intro cell_kept) simp_all
  then have "history (put_row n y c) ! (k mod unat (width c)) = history c ! (k mod unat (width c))" by (simp add: put_row_def)
  then show ?case using Cons.IH [of "Suc n" "put_row n y c"] Cons.prems by simp
qed simp

lemma put_rows_cell:
  assumes "k < length ys" "length ys \<le> k + unat (width c)" "0 < width c" "unat (width c) \<le> length (history c)"
  shows "history (put_rows n ys c) ! ((n + k) mod unat (width c)) = word_of_int (ys ! k)"
  using assms
proof (induction ys arbitrary: c n k)
  case (Cons y ys)
  show ?case
  proof (cases k)
    case 0
    have "n mod unat (width c) < length (history c)" using Cons.prems by (simp add: word_less_nat_alt less_le_trans [OF mod_less_divisor])
    then show ?thesis using 0 Cons.prems put_rows_keeps [of n "Suc n" ys "put_row n y c"] by (simp add: put_row_def)
  next
    case (Suc j)
    then show ?thesis using Cons.IH [of j "put_row n y c" "Suc n"] Cons.prems by simp
  qed
qed simp

lemma put_rows_frame:
  "width (put_rows n ys c) = width c \<and> length (history (put_rows n ys c)) = length (history c)
   \<and> (0 < width c \<longrightarrow> ys \<noteq> [] \<longrightarrow> unat (cursor (put_rows n ys c)) = (n + length ys) mod unat (width c))"
proof (induction ys arbitrary: n c)
  case (Cons y ys)
  then show ?case using Cons.IH [of "Suc n" "put_row n y c"] cursor_put_row [of c n y] by (cases ys) auto
qed simp

subsection \<open>Properties\<close>

text \<open>C20. The history is a ring of the last \<open>width\<close> rows: adding data points, none of which is
  outside the computed range of \<open>i32\<close>, always succeeds, leaves the cursor at the number of points
  modulo the width, and the cell of each of the last \<open>width\<close> points holds its row, clamped between
  the top and the bottom of the plot.\<close>

theorem GRAPH_history_is_ring:
  assumes "cursor c = 0" "0 < width c" "unat (width c) \<le> length (history c)" "uint (gy c) + uint (height c) < 256"
    and "\<forall>d \<in> set ds. graph_row c d \<noteq> None"
  shows "\<exists>c'. graph_run ds c = Some c' \<and> unat (cursor c') = length ds mod unat (width c) \<and>
    (\<forall>k < length ds. length ds \<le> k + unat (width c) \<longrightarrow>
       (let row = the (graph_row c (ds ! k))
        in uint (gy c) \<le> row \<and> row \<le> uint (gy c) + uint (height c) \<and> uint (history c' ! (k mod unat (width c))) = row))"
proof -
  let ?ys = "map (\<lambda>d. the (graph_row c d)) ds"
  have run: "graph_run ds c = Some (put_rows 0 ?ys c)" using assms by (intro graph_run_rows) simp_all
  have "unat (cursor (put_rows 0 ?ys c)) = length ds mod unat (width c)"
    using put_rows_frame [of 0 ?ys c] assms(1,2) by (cases ds) auto
  moreover have "let row = the (graph_row c (ds ! k)) in uint (gy c) \<le> row \<and> row \<le> uint (gy c) + uint (height c)
      \<and> uint (history (put_rows 0 ?ys c) ! (k mod unat (width c))) = row" if k: "k < length ds" "length ds \<le> k + unat (width c)" for k
  proof -
    obtain v where v: "the (graph_row c (ds ! k)) = clamp_y c v"
      using assms(5) nth_mem [OF k(1)] by (fastforce simp: graph_row_def bind_eq_Some_conv)
    have "history (put_rows 0 ?ys c) ! (k mod unat (width c)) = word_of_int (clamp_y c v)"
      using put_rows_cell [of k ?ys c 0] k assms(2,3) v by simp
    then show ?thesis using v clamp_y_range [of c v] uint_clamp [OF assms(4), of v] by (simp only: Let_def)
  qed
  ultimately show ?thesis using run by blast
qed

definition demo_graph :: GraphConfig where
  "demo_graph = \<lparr>gx = 10, gy = 20, width = 3, height = 50, minVal = f32_of_int 0, maxVal = f32_of_int 100, colour = 15,
     borderColour = 8, legendColour = 8, history = [0, 0, 0, 0], glength = 4, cursor = 0\<rparr>"

lemma GRAPH_history_is_ring_witness:
  "\<exists>c'. graph_run (map f32_of_int [0, 10, 20, 30, 200]) demo_graph = Some c' \<and> unat (cursor c') = 2"
proof -
  have "\<forall>d \<in> set (map f32_of_int [0, 10, 20, 30, 200]). graph_row demo_graph d \<noteq> None" by code_simp
  then show ?thesis
    using GRAPH_history_is_ring [of demo_graph "map f32_of_int [0, 10, 20, 30, 200]"] by (auto simp: demo_graph_def)
qed

text \<open>Drawing the graph always ends without undefined behaviour, and pixels outside the plot area
  keep their value, whatever the history holds.\<close>

theorem GRAPH_stays_in_plot:
  assumes "graph_ok c" "ssd_ok g" "colour c < 16"
  shows "\<exists>g'. hkGraphDraw c g = Some g' \<and> ssd_ok g' \<and>
    (\<forall>a b. a < 128 \<longrightarrow> b < 128 \<longrightarrow> \<not> in_plot c a b \<longrightarrow> ssd_get a b g' = ssd_get a b g)"
  unfolding hkGraphDraw_def by (rule segments_in_plot [OF assms(1,3) _ assms(2)]) simp

lemma GRAPH_stays_in_plot_witness:
  "\<exists>g'. hkGraphDraw (demo_graph\<lparr>cursor := 2, history := [0, 255, 30]\<rparr>) blank = Some g' \<and> ssd_get 5 5 g' = ssd_get 5 5 blank"
  using GRAPH_stays_in_plot [of "demo_graph\<lparr>cursor := 2, history := [0, 255, 30]\<rparr>" blank]
  by (auto simp: demo_graph_def graph_ok_def in_plot_def blank_ok)

lemma wrap16: "d < 0 \<Longrightarrow> - 65536 \<le> d \<Longrightarrow> uint (word_of_int d :: u16) = d + 65536"
  using mod_pos_pos_trivial [of "d + 65536" 65536] by (simp add: uint_word_of_int_eq take_bit_eq_mod)

text \<open>A following label whose left end would be left of the screen is drawn at the right edge of the graph
  instead: the \<open>u16\<close> position wraps around before it is compared.\<close>

theorem GRAPH_follow_label_jumps:
  assumes "unat (gx c) + follow_index c < unat (padding * 5 + padding :: u8) div 2"
  shows "follow_x c padding = word_of_int (uint (gx c) + uint (width c) - uint (padding * 5 + padding :: u8))"
proof -
  let ?t = "padding * 5 + padding :: u8" and ?d = "uint (gx c) + int (follow_index c) - uint (padding * 5 + padding :: u8) div 2"
  have "int (unat ?t div 2) = uint ?t div 2" by (simp add: zdiv_int)
  then have d: "?d < 0" "- 128 < ?d" using assms unat_u8 [of ?t] unfolding uint_nat by linarith+
  then have "uint (word_of_int ?d :: u16) = ?d + 65536" by (intro wrap16) simp_all
  moreover have "uint (gx c) < 256" "uint (width c) < 256" "0 \<le> uint ?t"
    using unat_u8 [of "gx c"] unat_u8 [of "width c"] unfolding uint_nat by linarith+
  ultimately have "\<not> uint (word_of_int ?d :: u16) < uint (gx c)" "uint (word_of_int ?d :: u16) + uint ?t > uint (gx c) + uint (width c)"
    using d by linarith+
  then show ?thesis unfolding follow_x_def Let_def by (simp only: if_True if_False)
qed

text \<open>The bouncing square of the second screen saver stays on the screen.\<close>

definition square_ok :: "u8 \<times> u8 \<Rightarrow> bool" where
  "square_ok ps \<longleftrightarrow> fst ps \<le> 118 \<and> (snd ps = 1 \<and> fst ps < 118 \<or> snd ps = - 1 \<and> 0 < fst ps)"

theorem SAVER_square_stays: "square_ok ps \<Longrightarrow> square_ok (bounce 128 ps)"
proof -
  obtain p s where ps: "ps = (p, s)" by (cases ps)
  assume ok: "square_ok ps"
  then consider "s = 1" "uint p < 118" | "s = - 1" "0 < uint p" "uint p \<le> 118"
    by (auto simp: ps square_ok_def word_less_def word_le_def)
  then show ?thesis
  proof cases
    case 1
    then have "unat p < 255" unfolding uint_nat by linarith
    then have "uint (p + 1) = uint p + 1" using unat_u8_Suc [of p] unfolding uint_nat by linarith
    then show ?thesis using 1 by (auto simp: ps square_ok_def bounce_def Let_def word_less_def word_le_def word_eq_iff_unsigned)
  next
    case 2
    then have "p \<noteq> 0" by auto
    then have "uint (p - 1) = uint p - 1" using unat_minus_one [of p] 2(2) unfolding uint_nat by linarith
    then show ?thesis using 2 by (auto simp: ps square_ok_def bounce_def Let_def word_less_def word_le_def)
  qed
qed

text \<open>Droplets start at 246..255, above the screen in the wrap-around reading; the first step of one adds its
  speed in floating point and converts a value above 255 back to \<open>u8\<close>, which C leaves undefined.\<close>

theorem SAVER_rain_undefined: "droplet_step rnd32 n (new_droplet (\<lambda>_. 9) 0, g) = None"
proof -
  have "f32_to_u8 (f32_of_int (uint (ry (new_droplet (\<lambda>_. 9) 0))) + speedY (new_droplet (\<lambda>_. 9) 0)) = None" by code_simp
  then show ?thesis by (simp add: droplet_step_def)
qed

end
