(* ===== verification/Calendar.thy ===== *)
theory Calendar
  imports Prelude
begin

text \<open>
  What the clock driver uses of the C library's \<open>time.h\<close>, in UTC, the time zone of a system without one:
  \<open>mktime\<close> and \<open>gmtime\<close> between calendar dates and seconds since 1970, and the \<open>strftime\<close> conversions of its
  format. The arithmetic counts days in years that begin in March; \<open>month_start_Suc\<close> and \<open>epoch_day\<close> tie it to
  the lengths of the months.
\<close>

record tm =
  tm_year :: int
  tm_mon :: int
  tm_mday :: int
  tm_hour :: int
  tm_min :: int
  tm_sec :: int
  tm_isdst :: int

text \<open>Days from the epoch to the first of a month, counted from January, in a year.\<close>

definition march_start :: "int \<Rightarrow> int" where
  "march_start y = 365 * y + y div 4 - y div 100 + y div 400 - 719468"

definition month_start :: "int \<Rightarrow> int \<Rightarrow> int" where
  "month_start y m = march_start (if m < 2 then y - 1 else y) + (153 * ((m + 10) mod 12) + 2) div 5"

text \<open>The fields need not be in their ranges: months carry into the year, the rest into the days and seconds.\<close>

definition mktime :: "tm \<Rightarrow> int" where
  "mktime t = (month_start (1900 + tm_year t + tm_mon t div 12) (tm_mon t mod 12) + tm_mday t - 1) * 86400
     + tm_hour t * 3600 + tm_min t * 60 + tm_sec t"

text \<open>A day of four centuries that begin in March as centuries, four years, years and days; a day since the epoch as
  year, month and day.\<close>

definition take_apart :: "int \<Rightarrow> int \<times> int \<times> int \<times> int" where
  "take_apart doe =
     (let c = min 3 (doe div 36524); r = doe - c * 36524; q = r div 1461; s = r - q * 1461; n = min 3 (s div 365)
      in (c, q, n, s - n * 365))"

definition civil :: "int \<Rightarrow> int \<times> int \<times> int" where
  "civil days =
     (let z = days + 719468; era = z div 146097;
          (c, q, n, doy) = take_apart (z mod 146097);
          mp = (5 * doy + 2) div 153;
          y = era * 400 + c * 100 + q * 4 + n
      in (if mp < 10 then y else y + 1, (mp + 2) mod 12, doy - (153 * mp + 2) div 5 + 1))"

definition gmtime :: "int \<Rightarrow> tm" where
  "gmtime t =
     (let (y, m, d) = civil (t div 86400); s = t mod 86400
      in \<lparr>tm_year = y - 1900, tm_mon = m, tm_mday = d, tm_hour = s div 3600, tm_min = s mod 3600 div 60, tm_sec = s mod 60, tm_isdst = 0\<rparr>)"

definition two_digits :: "int \<Rightarrow> string" where
  "two_digits n = (if n < 10 then ''0'' else []) @ dec_digits (nat n)"

text \<open>\<open>%Y-%m-%dT%H:%M:%S\<close>\<close>

definition iso_time :: "tm \<Rightarrow> string" where
  "iso_time t =
     (let y = 1900 + tm_year t
      in dec_int y @ ''-'' @ two_digits (tm_mon t + 1) @ ''-'' @ two_digits (tm_mday t)
         @ ''T'' @ two_digits (tm_hour t) @ '':'' @ two_digits (tm_min t) @ '':'' @ two_digits (tm_sec t))"

subsection \<open>The calendar\<close>

definition leap :: "int \<Rightarrow> bool" where
  "leap y \<longleftrightarrow> y mod 4 = 0 \<and> (y mod 100 \<noteq> 0 \<or> y mod 400 = 0)"

definition month_length :: "int \<Rightarrow> int \<Rightarrow> int" where
  "month_length y m = (if m = 1 then (if leap y then 29 else 28) else if m \<in> {3, 5, 8, 10} then 30 else 31)"

lemma epoch_day: "month_start 1970 0 = 0"
  by (simp add: month_start_def march_start_def)

lemma div_step:
  assumes "1 < (k :: int)"
  shows "y div k = (y - 1) div k + (if y mod k = 0 then 1 else 0)"
proof (cases "y mod k = 0")
  case True
  have "(y - 1) div k = y div k - 1"
    by (rule int_div_pos_eq [where r = "k - 1"]) (use True assms mult_div_mod_eq [of k y] in \<open>simp_all add: algebra_simps\<close>)
  with True show ?thesis by simp
next
  case False
  have "0 \<le> y mod k - 1" "y mod k - 1 < k"
    using False assms pos_mod_sign [of k y] pos_mod_bound [of k y] by linarith+
  then have "(y - 1) div k = y div k"
    by (rule int_div_pos_eq [where r = "y mod k - 1", rotated]) simp
  with False show ?thesis by simp
qed

lemma march_start_Suc: "march_start y = march_start (y - 1) + (if leap y then 366 else 365)"
proof -
  have arith: "365 * y + (a + (if p then 1 else 0)) - (b + (if q then 1 else 0)) + (c + (if r then 1 else 0)) - 719468
      = 365 * (y - 1) + a - b + c - 719468 + (if p \<and> (\<not> q \<or> r) then 366 else 365)"
    if "q \<longrightarrow> p" "r \<longrightarrow> q" for a b c :: int and p q r
    using that by (cases p; cases q; cases r) simp_all
  have "y mod 100 = 0 \<longrightarrow> y mod 4 = 0" "y mod 400 = 0 \<longrightarrow> y mod 100 = 0"
    using mod_mod_cancel [of 4 100 y] mod_mod_cancel [of 100 400 y] by auto
  from arith [OF this] show ?thesis
    unfolding march_start_def leap_def div_step [of 4 y, simplified] div_step [of 100 y, simplified] div_step [of 400 y, simplified] .
qed

theorem month_start_Suc:
  assumes "0 \<le> m" and "m < 12"
  shows "(if m = 11 then month_start (y + 1) 0 else month_start y (m + 1)) = month_start y m + month_length y m"
proof -
  have "m = 0 \<or> m = 1 \<or> m = 2 \<or> m = 3 \<or> m = 4 \<or> m = 5 \<or> m = 6 \<or> m = 7 \<or> m = 8 \<or> m = 9 \<or> m = 10 \<or> m = 11"
    using assms by presburger
  then show ?thesis unfolding month_start_def month_length_def
    by (elim disjE; simp only:; simp add: march_start_Suc [of y])
qed

subsection \<open>Dates and days\<close>

lemma march_start_split:
  assumes "c \<in> {0..3}" and "q \<in> {0..24}" and "n \<in> {0..3}"
  shows "march_start (e * 400 + c * 100 + q * 4 + n) = e * 146097 + c * 36524 + q * 1461 + n * 365 - 719468"
proof -
  let ?y = "e * 400 + c * 100 + q * 4 + n"
  have "?y div 4 = e * 100 + c * 25 + q" by (rule int_div_pos_eq [where r = n]) (use assms in simp_all)
  moreover have "?y div 100 = e * 4 + c" by (rule int_div_pos_eq [where r = "q * 4 + n"]) (use assms in simp_all)
  moreover have "?y div 400 = e" by (rule int_div_pos_eq [where r = "c * 100 + q * 4 + n"]) (use assms in simp_all)
  ultimately show ?thesis unfolding march_start_def by simp
qed

text \<open>The day in the year is at most 364, or 365 when a leap day ends it.\<close>

definition march_day :: "int \<Rightarrow> int \<Rightarrow> int \<Rightarrow> int \<Rightarrow> bool" where
  "march_day c q n doy \<longleftrightarrow> c \<in> {0..3} \<and> q \<in> {0..24} \<and> n \<in> {0..3} \<and> 0 \<le> doy
     \<and> (doy \<le> 364 \<or> doy = 365 \<and> n = 3 \<and> (q \<noteq> 24 \<or> c = 3))"

text \<open>There is only one way to take a day apart.\<close>

lemma take_apart_eq:
  assumes "march_day c q n doy"
  shows "take_apart (c * 36524 + q * 1461 + n * 365 + doy) = (c, q, n, doy)"
proof -
  let ?d = "c * 36524 + q * 1461 + n * 365 + doy"
  have b: "0 \<le> c" "c \<le> 3" "0 \<le> q" "q \<le> 24" "0 \<le> n" "n \<le> 3" "0 \<le> doy" "doy \<le> 365" "doy = 365 \<Longrightarrow> n = 3 \<and> (q \<noteq> 24 \<or> c = 3)"
    using assms by (auto simp: march_day_def)
  have s: "n * 365 + doy < 1461" using b by (cases "n = 3") auto
  have c: "min 3 (?d div 36524) = c"
  proof (cases "c = 3")
    case True
    have "3 * 36524 \<le> ?d" using True b by simp
    then have "3 \<le> ?d div 36524" using zdiv_mono1 [of "3 * 36524" ?d 36524] by simp
    with True show ?thesis by simp
  next
    case False
    have "q * 1461 + n * 365 + doy < 36524"
      using False b s by (cases "q = 24"; cases "n = 3"; cases "doy = 365") auto
    then have "?d div 36524 = c" by (intro int_div_pos_eq [where r = "q * 1461 + n * 365 + doy"]) (use b in simp_all)
    with False b show ?thesis by simp
  qed
  have q: "(q * 1461 + n * 365 + doy) div 1461 = q"
    by (rule int_div_pos_eq [where r = "n * 365 + doy"]) (use b s in simp_all)
  have n: "min 3 ((n * 365 + doy) div 365) = n"
  proof (cases "n = 3")
    case True
    then have "3 \<le> (n * 365 + doy) div 365" using zdiv_mono1 [of "3 * 365" "n * 365 + doy" 365] b by simp
    with True show ?thesis by simp
  next
    case False
    then have "(n * 365 + doy) div 365 = n" by (intro int_div_pos_eq [where r = doy]) (use b in force)+
    with False b show ?thesis by simp
  qed
  have rest: "?d - c * 36524 = q * 1461 + n * 365 + doy" "q * 1461 + n * 365 + doy - q * 1461 = n * 365 + doy" "n * 365 + doy - n * 365 = doy"
    by simp_all
  show ?thesis unfolding take_apart_def Let_def c rest q n ..
qed

lemma take_apart_ex:
  assumes "0 \<le> doe" and "doe < 146097"
  obtains c q n doy where "march_day c q n doy" "doe = c * 36524 + q * 1461 + n * 365 + doy"
proof -
  define c where "c = min 3 (doe div 36524)"
  define r where "r = doe - c * 36524"
  define q where "q = r div 1461"
  define s where "s = r - q * 1461"
  define n where "n = min 3 (s div 365)"
  have c: "0 \<le> c" "c \<le> 3" and r: "0 \<le> r" "r \<le> 36524" "r = 36524 \<longrightarrow> c = 3"
    using assms unfolding r_def c_def min_def by (auto simp: not_le)
  have q: "0 \<le> q" "q \<le> 24" "0 \<le> s" "s < 1461" using r(1,2) unfolding s_def q_def by auto
  have n: "0 \<le> n" "n \<le> 3" "0 \<le> s - n * 365" "s - n * 365 \<le> 365" "s - n * 365 = 365 \<longrightarrow> n = 3"
    using q(3,4) unfolding n_def min_def by (auto simp: not_le)
  have "q \<noteq> 24 \<or> c = 3" if "s - n * 365 = 365"
  proof -
    have "s = 1460" using that n(5) by simp
    then show ?thesis using r(2,3) unfolding s_def by auto
  qed
  then have "march_day c q n (s - n * 365)" using c q n unfolding march_day_def by auto
  moreover have "doe = c * 36524 + q * 1461 + n * 365 + (s - n * 365)" unfolding s_def r_def by simp
  ultimately show ?thesis by (rule that)
qed

lemma month_of_day:
  assumes "0 \<le> (doy :: int)" and "doy \<le> 365"
  shows "(5 * doy + 2) div 153 \<in> {0..11}"
proof -
  have "(5 * doy + 2) div 153 \<le> (5 * 365 + 2) div 153" by (rule zdiv_mono1) (use assms in simp_all)
  then show ?thesis using assms by (simp add: pos_imp_zdiv_nonneg_iff)
qed

lemma int_0_11: "mp \<in> {0..11} \<Longrightarrow> mp = 0 \<or> mp = 1 \<or> mp = 2 \<or> mp = 3 \<or> mp = 4 \<or> mp = 5 \<or> mp = 6 \<or> mp = 7 \<or> mp = 8 \<or> mp = 9 \<or> mp = 10 \<or> mp = (11 :: int)"
  unfolding atLeastAtMost_iff by presburger

lemma march_month_index:
  assumes "mp \<in> {0..11}"
  shows "0 \<le> (mp + 2) mod 12" "(mp + 2) mod 12 < 12" "((mp + 2) mod 12 + 10) mod 12 = mp" "(mp + 2) mod 12 < 2 \<longleftrightarrow> \<not> mp < (10 :: int)"
  using int_0_11 [OF assms] by (elim disjE; simp)+

lemma civil_days:
  assumes "civil days = (y, m, d)"
  shows "0 \<le> m \<and> m < 12 \<and> month_start y m + d - 1 = days"
proof -
  let ?z = "days + 719468"
  obtain c q n doy where i: "march_day c q n doy" "?z mod 146097 = c * 36524 + q * 1461 + n * 365 + doy"
    by (rule take_apart_ex [of "?z mod 146097"]) simp_all
  define mp y' where "mp = (5 * doy + 2) div 153" and "y' = ?z div 146097 * 400 + c * 100 + q * 4 + n"
  have "civil days = (if mp < 10 then y' else y' + 1, (mp + 2) mod 12, doy - (153 * mp + 2) div 5 + 1)"
    unfolding civil_def Let_def i(2) take_apart_eq [OF i(1)] prod.case mp_def y'_def ..
  then have r: "y = (if mp < 10 then y' else y' + 1)" "m = (mp + 2) mod 12" "d = doy - (153 * mp + 2) div 5 + 1"
    unfolding assms by (simp_all only: prod.inject)
  have mp: "mp \<in> {0..11}" unfolding mp_def using i(1) by (intro month_of_day) (auto simp: march_day_def)
  have "march_start y' = ?z div 146097 * 146097 + c * 36524 + q * 1461 + n * 365 - 719468"
    unfolding y'_def using i(1) by (intro march_start_split) (simp_all add: march_day_def)
  then have "march_start y' + doy = days" using i(2) div_mult_mod_eq [of ?z 146097] by linarith
  moreover have "month_start y m = march_start y' + (153 * mp + 2) div 5"
    using march_month_index [OF mp] unfolding month_start_def r by simp
  ultimately show ?thesis using r(3) march_month_index(1,2) [OF mp] unfolding r(2) by simp
qed

text \<open>Every second has a date, and the date has that second.\<close>

theorem mktime_gmtime: "mktime (gmtime t) = t"
proof -
  obtain y m d where c: "civil (t div 86400) = (y, m, d)" by (metis prod_cases3)
  note d = civil_days [OF c]
  obtain days s where t: "t div 86400 = days" "t mod 86400 = s" by blast
  obtain h l where h: "s div 3600 = h" "s mod 3600 = l" by blast
  obtain mn sc where mn: "l div 60 = mn" "l mod 60 = sc" by blast
  have "s mod 60 = sc" using mod_mod_cancel [of 60 3600 s] unfolding h mn by simp
  then have "gmtime t = \<lparr>tm_year = y - 1900, tm_mon = m, tm_mday = d, tm_hour = h, tm_min = mn, tm_sec = sc, tm_isdst = 0\<rparr>"
    using c unfolding gmtime_def t Let_def h mn by simp
  moreover have "m div 12 = 0" "m mod 12 = m" "month_start y m + d - 1 = days" using d unfolding t by simp_all
  moreover have "days * 86400 + h * 3600 + mn * 60 + sc = t"
    using div_mult_mod_eq [of t 86400] div_mult_mod_eq [of s 3600] div_mult_mod_eq [of l 60] unfolding t h mn by simp
  ultimately show ?thesis unfolding mktime_def by simp
qed

subsection \<open>Dates\<close>

definition valid_date :: "int \<Rightarrow> int \<Rightarrow> int \<Rightarrow> bool" where
  "valid_date y m d \<longleftrightarrow> 0 \<le> m \<and> m < 12 \<and> 1 \<le> d \<and> d \<le> month_length y m"

definition valid_tm :: "tm \<Rightarrow> bool" where
  "valid_tm t \<longleftrightarrow> valid_date (1900 + tm_year t) (tm_mon t) (tm_mday t) \<and> tm_hour t \<in> {0..23} \<and> tm_min t \<in> {0..59} \<and> tm_sec t \<in> {0..59}"

lemma year_parts:
  fixes y :: int
  obtains e c q n where "y = e * 400 + c * 100 + q * 4 + n" "c \<in> {0..3}" "q \<in> {0..24}" "n \<in> {0..3}"
proof -
  obtain e a where a: "y div 400 = e" "y mod 400 = a" by blast
  obtain c b where b: "a div 100 = c" "a mod 100 = b" by blast
  obtain q n where n: "b div 4 = q" "b mod 4 = n" by blast
  have "0 \<le> a" "a < 400" "0 \<le> b" "b < 100" "0 \<le> n" "n < 4" using a(2) b(2) n(2) by auto
  moreover have "y = e * 400 + a" "a = c * 100 + b" "b = q * 4 + n"
    using div_mult_mod_eq [of y 400] div_mult_mod_eq [of a 100] div_mult_mod_eq [of b 4] unfolding a b n by simp_all
  ultimately show ?thesis by (intro that [of e c q n]) auto
qed

lemma leap_parts:
  assumes "c \<in> {0..3}" and "q \<in> {0..24}" and "n \<in> {0..3}"
  shows "leap (e * 400 + c * 100 + q * 4 + n + 1) \<longleftrightarrow> n = 3 \<and> (q \<noteq> 24 \<or> c = 3)"
proof -
  have "march_start (e * 400 + c * 100 + q * 4 + n + 1) - march_start (e * 400 + c * 100 + q * 4 + n)
      = (if n = 3 \<and> (q \<noteq> 24 \<or> c = 3) then 366 else 365)"
  proof -
    consider "n < 3" | "n = 3" "q < 24" | "n = 3" "q = 24" "c < 3" | "n = 3" "q = 24" "c = 3" using assms by fastforce
    then show ?thesis
    proof cases
      case 1
      with assms show ?thesis using march_start_split [of c q "n + 1" e] march_start_split [of c q n e] by (simp add: add.assoc)
    next
      case 2
      with assms show ?thesis using march_start_split [of c "q + 1" 0 e] march_start_split [of c q 3 e] by (simp add: algebra_simps)
    next
      case 3
      with assms show ?thesis using march_start_split [of "c + 1" 0 0 e] march_start_split [of c 24 3 e] by (simp add: algebra_simps)
    next
      case 4
      with assms show ?thesis using march_start_split [of 0 0 0 "e + 1"] march_start_split [of 3 24 3 e] by (simp add: algebra_simps)
    qed
  qed
  then show ?thesis using march_start_Suc [of "e * 400 + c * 100 + q * 4 + n + 1"] by (auto split: if_splits)
qed

lemma civil_month_start:
  assumes "valid_date y m d"
  shows "civil (month_start y m + d - 1) = (y, m, d)"
proof -
  define y' mp where "y' = (if m < 2 then y - 1 else y)" and "mp = (m + 10) mod 12"
  define doy where "doy = (153 * mp + 2) div 5 + d - 1"
  obtain e c q n where p: "y' = e * 400 + c * 100 + q * 4 + n" "c \<in> {0..3}" "q \<in> {0..24}" "n \<in> {0..3}" by (rule year_parts)
  have m: "m \<in> {0..11}" and d: "1 \<le> d" "d \<le> month_length y m" using assms by (auto simp: valid_date_def)
  have lp: "leap (y' + 1) \<longleftrightarrow> n = 3 \<and> (q \<noteq> 24 \<or> c = 3)" unfolding p(1) by (rule leap_parts [OF p(2-4)])
  have f: "(mp < 10 \<longleftrightarrow> \<not> m < 2) \<and> (mp + 2) mod 12 = m \<and> (5 * doy + 2) div 153 = mp
      \<and> 0 \<le> doy \<and> (doy \<le> 364 \<or> doy = 365 \<and> leap (y' + 1))"
    using int_0_11 [OF m] d unfolding doy_def mp_def y'_def month_length_def
    by (elim disjE; simp split: if_splits; (intro conjI)?; arith?)
  then have md: "march_day c q n doy" using p lp by (auto simp: march_day_def)
  let ?doe = "c * 36524 + q * 1461 + n * 365 + doy"
  have days: "month_start y m + d - 1 + 719468 = e * 146097 + ?doe"
    using march_start_split [OF p(2-4), of e] unfolding month_start_def mp_def [symmetric] y'_def [symmetric] p(1) [symmetric] doy_def by linarith
  have doe: "0 \<le> ?doe" "?doe < 146097" using md by (auto simp: march_day_def)
  have z: "(month_start y m + d - 1 + 719468) div 146097 = e" "(month_start y m + d - 1 + 719468) mod 146097 = ?doe"
    unfolding days using doe by (simp_all add: int_div_pos_eq int_mod_pos_eq)
  have "(5 * doy + 2) div 153 = mp" "doy - (153 * mp + 2) div 5 + 1 = d" using f by (simp_all add: doy_def)
  moreover have "(if mp < 10 then y' else y' + 1) = y" "(mp + 2) mod 12 = m" using f by (auto simp: y'_def)
  ultimately show ?thesis unfolding civil_def Let_def z take_apart_eq [OF md] prod.case p(1) [symmetric] by (simp only:)
qed

text \<open>And every date has its second.\<close>

theorem gmtime_mktime:
  assumes "valid_tm t"
  shows "gmtime (mktime t) = t\<lparr>tm_isdst := 0\<rparr>"
proof -
  let ?days = "month_start (1900 + tm_year t) (tm_mon t) + tm_mday t - 1"
  let ?s = "tm_hour t * 3600 + tm_min t * 60 + tm_sec t"
  have v: "valid_date (1900 + tm_year t) (tm_mon t) (tm_mday t)" "tm_hour t \<in> {0..23}" "tm_min t \<in> {0..59}" "tm_sec t \<in> {0..59}"
    using assms by (simp_all add: valid_tm_def)
  have "tm_mon t div 12 = 0" "tm_mon t mod 12 = tm_mon t" using v(1) by (simp_all add: valid_date_def)
  then have mk: "mktime t = ?days * 86400 + ?s" unfolding mktime_def by simp
  have s: "0 \<le> ?s" "?s < 86400" using v by auto
  have q: "mktime t div 86400 = ?days" unfolding mk by (rule int_div_pos_eq [where r = ?s]) (use s in simp_all)
  have r: "mktime t mod 86400 = ?s" unfolding mk by (rule int_mod_pos_eq [where q = ?days]) (use s in simp_all)
  have h: "?s div 3600 = tm_hour t" by (rule int_div_pos_eq [where r = "tm_min t * 60 + tm_sec t"]) (use v in auto)
  have l: "?s mod 3600 = tm_min t * 60 + tm_sec t" by (rule int_mod_pos_eq [where q = "tm_hour t"]) (use v in auto)
  have n: "(tm_min t * 60 + tm_sec t) div 60 = tm_min t" by (rule int_div_pos_eq [where r = "tm_sec t"]) (use v in auto)
  have c: "?s mod 60 = tm_sec t" by (rule int_mod_pos_eq [where q = "tm_hour t * 60 + tm_min t"]) (use v in auto)
  show ?thesis unfolding gmtime_def q r civil_month_start [OF v(1)] Let_def prod.case h l n c by (cases t) simp
qed

lemma march_start_neg: "y \<le> 1000 \<Longrightarrow> march_start y < - 350000"
proof -
  assume y: "y \<le> 1000"
  obtain e c q n where p: "y = e * 400 + c * 100 + q * 4 + n" "c \<in> {0..3}" "q \<in> {0..24}" "n \<in> {0..3}" by (rule year_parts)
  have "e * 400 \<le> 1000" using y p by simp
  then show ?thesis using y p march_start_split [OF p(2-4), of e] by simp
qed

lemma mktime_ancient:
  assumes "valid_tm t" and "tm_year t \<le> - 900"
  shows "mktime t < 0"
proof -
  let ?y = "1900 + tm_year t"
  have v: "tm_mon t div 12 = 0" "tm_mon t mod 12 = tm_mon t" "tm_mday t \<le> 31" "tm_hour t \<le> 23" "tm_min t \<le> 59" "tm_sec t \<le> 59"
    using assms(1) by (auto simp: valid_tm_def valid_date_def month_length_def split: if_splits)
  have "march_start (if tm_mon t < 2 then ?y - 1 else ?y) < - 350000" using assms(2) by (intro march_start_neg) simp
  moreover have "(153 * ((tm_mon t + 10) mod 12) + 2) div 5 \<le> (153 * 11 + 2) div 5" by (intro zdiv_mono1) simp_all
  ultimately have "month_start ?y (tm_mon t) + tm_mday t - 1 < - 300000" using v(3) unfolding month_start_def by simp
  then show ?thesis using v unfolding mktime_def by simp
qed

end
