(* ===== verification/DS1307.thy ===== *)
theory DS1307
  imports Bus Packet Core Calendar
begin

text \<open>
  The DS1307 real-time clock: include/timing/ds1307/ds1307.h and src/timing/ds1307/ds1307.c, with the C
  library's calendar from theory Calendar.
\<close>

definition DS1307_REG_SECONDS :: u8 where "DS1307_REG_SECONDS = 0x00"

record DS1307_Config =
  address :: u8
  reset :: bool
  utcOffset :: u8

record DS1307_DataPacket =
  sec :: u8
  min :: u8
  hour :: u8
  dayName :: u8
  day :: u8
  month :: u8
  year :: u16
  timestamp :: u32
  jsonify :: json_fn

text \<open>The seven time registers \<open>DS1307_Init\<close> writes.\<close>

definition ds1307_registers :: "DS1307_DataPacket \<Rightarrow> u8 list" where
  "ds1307_registers dt =
     [intToBCD (sec dt), intToBCD (min dt), intToBCD (hour dt), intToBCD (dayName dt), intToBCD (day dt),
      intToBCD (month dt), intToBCD (ucast (year dt mod 100))]"

text \<open>
  \<open>dt\<close> is \<open>None\<close> for NULL. With the clock running, \<open>reset\<close> set and no date the code dereferences the
  null pointer: \<open>None\<close>.
\<close>

definition DS1307_Init ::
  "'e i2c_env \<Rightarrow> DS1307_Config \<Rightarrow> DS1307_DataPacket option \<Rightarrow> 'e world \<Rightarrow> (int \<times> 'e world) option" where
  "DS1307_Init env config dt w =
     (let w = mutex_enter_blocking w;
          (st, w) = i2c_write env (address config) [DS1307_REG_SECONDS] True w
      in if st = PICO_ERROR_GENERIC then Some (st, mutex_exit w)
      else let ((st, bs), w) = i2c_read env (address config) 1 True w
      in if st = PICO_ERROR_GENERIC then Some (st, mutex_exit w)
      else let seconds = hd (fill 1 bs [0]);
               clockHalted = (seconds AND 0x80 \<noteq> 0)
      in if clockHalted \<and> dt = None then Some (c_false, mutex_exit w)
      else if \<not> clockHalted \<and> \<not> reset config then Some (c_true, mutex_exit w)
      else let (st, w) = i2c_write env (address config) [DS1307_REG_SECONDS, seconds AND 0x7F] False w
      in if st = PICO_ERROR_GENERIC then Some (st, mutex_exit w)
      else let w = mutex_exit w
      in case dt of None \<Rightarrow> None
      | Some dt \<Rightarrow>
          let tbuf = DS1307_REG_SECONDS # ds1307_registers dt;
              w = mutex_enter_blocking w;
              (st, w) = i2c_write env (address config) tbuf False w
          in if st = PICO_ERROR_GENERIC then Some (st, mutex_exit w)
             else Some (c_true, mutex_exit w))"

text \<open>The fields of the packet from the seven registers.\<close>

definition ds1307_fields :: "u8 list \<Rightarrow> DS1307_DataPacket \<Rightarrow> DS1307_DataPacket" where
  "ds1307_fields tbuf dt = dt\<lparr>
     sec := BCDToInt (tbuf ! 0), min := BCDToInt (tbuf ! 1), hour := BCDToInt (tbuf ! 2),
     dayName := BCDToInt (tbuf ! 3), day := BCDToInt (tbuf ! 4), month := BCDToInt (tbuf ! 5),
     year := ucast (BCDToInt (word_of_int (uint (tbuf ! 6) + 2000)))\<rparr>"

definition ds1307_timeinfo :: "DS1307_DataPacket \<Rightarrow> tm" where
  "ds1307_timeinfo dt = \<lparr>tm_year = uint (year dt) - 1900, tm_mon = uint (month dt) - 1, tm_mday = uint (day dt),
     tm_hour = uint (hour dt), tm_min = uint (min dt), tm_sec = uint (sec dt), tm_isdst = - 1\<rparr>"

text \<open>
  The buffer argument of the register write is the number 0, a null pointer: \<open>byte0\<close> is the byte at
  address 0 that is sent in place of the register number. \<open>uninit\<close>: the seven bytes of \<open>tbuf\<close> on entry.
\<close>

definition DS1307_ReadDateTime ::
  "'e i2c_env \<Rightarrow> u8 \<Rightarrow> u8 list \<Rightarrow> DS1307_Config \<Rightarrow> DS1307_DataPacket \<Rightarrow> 'e world \<Rightarrow>
   (u32 \<times> DS1307_DataPacket) \<times> 'e world" where
  "DS1307_ReadDateTime env byte0 uninit config dt w =
     (let w = mutex_enter_blocking w;
          (st, w) = i2c_write env (address config) [byte0] True w
      in if st = PICO_ERROR_GENERIC then ((word_of_int st, dt), mutex_exit w)
      else let ((st, bs), w) = i2c_read env (address config) 7 False w;
               tbuf = fill 7 bs uninit
      in if st = PICO_ERROR_GENERIC then ((word_of_int st, dt), mutex_exit w)
      else let w = mutex_exit w;
               dt = ds1307_fields tbuf dt;
               localTimestamp = mktime (ds1307_timeinfo dt)
           in ((word_of_int (localTimestamp - uint (utcOffset config) * 3600), dt), w))"

text \<open>
  The number \<open>timestamp\<close> is converted to a pointer: the time that is printed are the eight bytes of memory
  at that address, and it must be mapped. \<open>gmtime\<close> has no result when the year does not fit an \<open>int\<close>, the buffer no
  text when it is too short.
\<close>

definition DS1307_TimeStamp :: "(u32 \<Rightarrow> u8 option) \<Rightarrow> u32 \<Rightarrow> nat \<Rightarrow> string option" where
  "DS1307_TimeStamp mem ts len =
     Option.bind (those (map (\<lambda>i. mem (ts + word_of_nat i)) [0..<8])) (\<lambda>bs.
       let timeinfo = gmtime (sint (word_rcat (rev bs) :: 64 word)); text = iso_time timeinfo
       in if - (2 ^ 31) \<le> tm_year timeinfo \<and> tm_year timeinfo < 2 ^ 31 \<and> List.length text < len then Some text else None)"

definition hkDS1307_JSON_BUFFER :: nat where "hkDS1307_JSON_BUFFER = 64"

definition DS1307_Jsonify :: "DS1307_DataPacket \<Rightarrow> string option" where
  "DS1307_Jsonify d = jsonify_into hkDS1307_JSON_BUFFER
     (''{\"sensor\": \"ds1307\",\"timestamp\": '' @ dec_digits (unat (timestamp d)) @ ''}'')"

subsection \<open>Facts\<close>

lemma DS1307_Init_free:
  "lock_state w = Some False \<Longrightarrow> DS1307_Init env config dt w = Some (st, w') \<Longrightarrow> lock_state w' = Some False"
  by (auto simp: DS1307_Init_def Let_def case_prod_unfold bus_simps split: if_splits option.splits)

lemma DS1307_Read_free:
  "lock_state w = Some False \<Longrightarrow> lock_state (snd (DS1307_ReadDateTime env byte0 uninit config dt w)) = Some False"
  by (simp add: DS1307_ReadDateTime_def Let_def case_prod_unfold bus_simps)

lemma year_small: "unat (ucast (BCDToInt b) :: u16) \<le> 165"
proof -
  have "unat b div 16 \<le> 15" "unat b mod 16 \<le> 15" using unat_u8 [of b] by simp_all
  then show ?thesis by (simp add: unat_ucast_up unat_BCDToInt)
qed

subsection \<open>Properties\<close>

definition rtc_demo :: DS1307_DataPacket where
  "rtc_demo = \<lparr>sec = 30, min = 59, hour = 23, dayName = 7, day = 31, month = 12, year = 2025, timestamp = 0, jsonify = JSON_DS1307\<rparr>"

text \<open>Setting the clock and reading the registers back gives the same second, minute, hour, weekday, day and month,
  but never the same year for a date after 165: the offset of 2000 is added to the byte before it is decoded.\<close>

theorem DS1307_roundtrip_without_year:
  assumes "unat (sec dt) < 100" and "unat (min dt) < 100" and "unat (hour dt) < 100" and "unat (dayName dt) < 100"
    and "unat (day dt) < 100" and "unat (month dt) < 100" and "165 < unat (year dt)"
    and d_def: "d = ds1307_fields (ds1307_registers dt) dt0"
  shows "sec d = sec dt \<and> min d = min dt \<and> hour d = hour dt \<and> dayName d = dayName dt \<and> day d = day dt
     \<and> month d = month dt \<and> year d \<noteq> year dt"
proof -
  have "unat (year d) \<le> 165"
    using year_small by (simp add: d_def ds1307_fields_def)
  then have "year d \<noteq> year dt" using assms(7) by auto
  then show ?thesis
    using assms(1-6) by (simp add: d_def ds1307_fields_def ds1307_registers_def BCDToInt_intToBCD)
qed

theorem DS1307_roundtrip_without_year_witness:
  "month (ds1307_fields (ds1307_registers rtc_demo) rtc_demo) = 12 \<and> year (ds1307_fields (ds1307_registers rtc_demo) rtc_demo) \<noteq> 2025"
  using DS1307_roundtrip_without_year [of rtc_demo _ rtc_demo, OF _ _ _ _ _ _ _ refl] by (simp add: rtc_demo_def)

text \<open>The time a reading returns is that of the registers' date, an hour per unit of the offset earlier; but the year is one before
  166, long before the epoch, so the number is negative and wraps around in its 32 bits.\<close>

theorem DS1307_reads_ancient_date:
  assumes "DS1307_ReadDateTime env byte0 uninit config dt w = ((ts, dt'), w')" and "dt' \<noteq> dt" and "valid_tm (ds1307_timeinfo dt')"
  shows "\<exists>t < 0. ts = word_of_int (t - uint (utcOffset config) * 3600) \<and> gmtime t = (ds1307_timeinfo dt')\<lparr>tm_isdst := 0\<rparr>"
proof -
  let ?t = "mktime (ds1307_timeinfo dt')"
  have r: "ts = word_of_int (?t - uint (utcOffset config) * 3600)" "\<exists>tbuf. dt' = ds1307_fields tbuf dt"
    using assms(1,2) by (auto simp: DS1307_ReadDateTime_def Let_def case_prod_unfold split: if_splits)
  then have "unat (year dt') \<le> 165" using year_small by (elim exE) (simp add: ds1307_fields_def)
  then have "uint (year dt') \<le> 165" by (metis nat_le_iff of_nat_numeral unat_eq_nat_uint)
  then have "?t < 0" using assms(3) by (intro mktime_ancient) (simp_all add: ds1307_timeinfo_def)
  then show ?thesis using r(1) gmtime_mktime [OF assms(3)] by blast
qed

text \<open>What \<open>DS1307_TimeStamp\<close> prints of a moment it is given depends on the memory at that address only: a device whose memory is not
  mapped there has no result for it, one that holds the epoch there prints 1970.\<close>

lemma DS1307_TimeStamp_examples:
  "DS1307_TimeStamp (\<lambda>_. None) 1735689600 20 = None"
  "DS1307_TimeStamp (\<lambda>_. Some 0) 1735689600 20 = Some ''1970-01-01T00:00:00''"
proof -
  have u: "[0..<8] = [0, 1, 2, 3, 4, 5, 6, 7 :: nat]" by code_simp
  show "DS1307_TimeStamp (\<lambda>_. None) 1735689600 20 = None" by (simp add: DS1307_TimeStamp_def u)
  have "word_rcat [0, 0, 0, 0, 0, 0, 0, 0 :: u8] = (0 :: 64 word)" by (simp add: word_rcat_def)
  moreover have "tm_year (gmtime 0) = 70" "iso_time (gmtime 0) = ''1970-01-01T00:00:00''" by code_simp+
  ultimately show "DS1307_TimeStamp (\<lambda>_. Some 0) 1735689600 20 = Some ''1970-01-01T00:00:00''"
    by (simp add: DS1307_TimeStamp_def u)
qed

end
