(* ===== verification/SH1107.thy ===== *)
theory SH1107
  imports Bus Canvas
begin

text \<open>
  The SH1107 monochrome display: transfers (src/display/sh1107/sh1107.c, which does not take the bus
  mutex) and drawing into the frame buffer of eight vertical pixels a byte
  (src/display/sh1107/sh1107_gfx.c).
\<close>

definition SH1107_ADDRESS :: u8 where "SH1107_ADDRESS = 0x3D"
definition SH1107_WIDTH :: nat where "SH1107_WIDTH = 128"
definition SH1107_HEIGHT :: nat where "SH1107_HEIGHT = 128"

subsection \<open>Transfers\<close>

definition sh_transfer :: "'e i2c_env \<Rightarrow> bool \<Rightarrow> u8 list \<Rightarrow> 'e world \<Rightarrow> int \<times> 'e world" where
  "sh_transfer env ready buffer w =
     (if \<not> ready then (c_false, w)
      else let (st, w) = i2c_write env SH1107_ADDRESS buffer False w
           in if st = PICO_ERROR_GENERIC then (c_false, w) else (st, w))"

definition SH1107_WriteCommand :: "'e i2c_env \<Rightarrow> bool \<Rightarrow> u8 \<Rightarrow> 'e world \<Rightarrow> int \<times> 'e world" where
  "SH1107_WriteCommand env ready command = sh_transfer env ready [0x00, command]"

definition SH1107_WriteCommandList :: "'e i2c_env \<Rightarrow> bool \<Rightarrow> u8 list \<Rightarrow> 'e world \<Rightarrow> int \<times> 'e world" where
  "SH1107_WriteCommandList env ready commands = sh_transfer env ready (0x00 # commands)"

definition SH1107_WriteData :: "'e i2c_env \<Rightarrow> bool \<Rightarrow> u8 list \<Rightarrow> 'e world \<Rightarrow> int \<times> 'e world" where
  "SH1107_WriteData env ready bytes = sh_transfer env ready (0x40 # bytes)"

definition sh_initCommands :: "u8 list" where
  "sh_initCommands =
     [0xAE, 0xD5, 0x51, 0x20, 0x81, 0x4F, 0xAD, 0x8A, 0xA0, 0xC0, 0xDC, 0x00, 0xD3, 0x60, 0xD9, 0x22, 0xDB, 0x35,
      0xA8, 0x3F, 0xA4, 0xA6]"

definition SH1107_Init :: "'e i2c_env \<Rightarrow> u8 \<Rightarrow> u8 \<Rightarrow> 'e world \<Rightarrow> 'e world" where
  "SH1107_Init env width height w =
     (let w = emit (Gpio_Output 10) w;
          w = delay_ms 1 (emit (Gpio_Put 10 True) w);
          w = delay_ms 1 (emit (Gpio_Put 10 False) w);
          w = emit (Gpio_Put 10 True) w;
          w = snd (SH1107_WriteCommandList env True sh_initCommands w);
          w = (if width = 128 \<and> height = 128
               then snd (SH1107_WriteCommandList env True [0xD3, 0x00, 0xA8, 0x7F] w) else w);
          w = delay_ms 100 w
      in snd (SH1107_WriteCommand env True 0xAF w))"

definition SH1107_Display :: "'e i2c_env \<Rightarrow> bool \<Rightarrow> gfx \<Rightarrow> 'e world \<Rightarrow> 'e world" where
  "SH1107_Display env ready g w =
     (let w = snd (SH1107_WriteCommandList env ready [0x22, 0, 15] w);
          w = snd (SH1107_WriteCommandList env ready [0x21, 0, 127] w)
      in snd (SH1107_WriteData env ready (frameBuffer g) w))"

subsection \<open>Drawing\<close>

definition SH1107_ClearBuffer :: "gfx \<Rightarrow> gfx" where
  "SH1107_ClearBuffer g = g\<lparr>frameBuffer := replicate (length (frameBuffer g)) 0, cursorX := 0, cursorY := 0\<rparr>"

definition sh_mask :: "nat \<Rightarrow> u8" where
  "sh_mask k = push_bit k 1"

definition SH1107_DrawPixel :: "gfx pixel_fn" where
  "SH1107_DrawPixel x y color g =
     (if SH1107_WIDTH \<le> unat x \<or> SH1107_HEIGHT \<le> unat y then g
      else let byteIndex = unat x + unat y div 8 * SH1107_WIDTH;
               bitMask = sh_mask (unat y mod 8);
               b = frameBuffer g ! byteIndex
           in if color \<noteq> 0 then g\<lparr>frameBuffer := (frameBuffer g)[byteIndex := b OR bitMask]\<rparr>
              else g\<lparr>frameBuffer := (frameBuffer g)[byteIndex := b AND NOT bitMask]\<rparr>)"

definition SH1107_DrawLine :: "u8 \<Rightarrow> u8 \<Rightarrow> u8 \<Rightarrow> u8 \<Rightarrow> u8 \<Rightarrow> gfx \<Rightarrow> gfx option" where
  "SH1107_DrawLine = GFX_DrawLine SH1107_DrawPixel"

definition SH1107_DrawFastHLine :: "u8 \<Rightarrow> u8 \<Rightarrow> u8 \<Rightarrow> u8 \<Rightarrow> gfx \<Rightarrow> gfx" where
  "SH1107_DrawFastHLine = GFX_DrawFastHLine SH1107_DrawPixel"

definition SH1107_DrawFastVLine :: "u8 \<Rightarrow> u8 \<Rightarrow> u8 \<Rightarrow> u8 \<Rightarrow> gfx \<Rightarrow> gfx" where
  "SH1107_DrawFastVLine = GFX_DrawFastVLine SH1107_DrawPixel"

definition SH1107_DrawRect :: "u8 \<Rightarrow> u8 \<Rightarrow> u8 \<Rightarrow> u8 \<Rightarrow> u8 \<Rightarrow> gfx \<Rightarrow> gfx" where
  "SH1107_DrawRect = GFX_DrawRect SH1107_DrawPixel"

definition SH1107_FillRect :: "u8 \<Rightarrow> u8 \<Rightarrow> u8 \<Rightarrow> u8 \<Rightarrow> u8 \<Rightarrow> gfx \<Rightarrow> gfx" where
  "SH1107_FillRect = GFX_FillRect SH1107_DrawPixel"

definition SH1107_DrawChar :: "u8 list \<Rightarrow> u8 \<Rightarrow> u8 \<Rightarrow> u8 \<Rightarrow> u8 \<Rightarrow> gfx \<Rightarrow> gfx" where
  "SH1107_DrawChar font x y c color g =
     (if c < 32 \<or> 126 < c then g
      else let fontIndex = (unat c - 32) * 5
           in fold (\<lambda>col. fold (\<lambda>row g.
                if drop_bit row (font ! (fontIndex + col)) AND 1 \<noteq> 0
                then SH1107_DrawPixel (x + word_of_nat col) (y + word_of_nat row) color g else g) [0..<8]) [0..<5] g)"

definition SH1107_DrawString :: "u8 list \<Rightarrow> u8 \<Rightarrow> u8 \<Rightarrow> u8 list \<Rightarrow> u8 \<Rightarrow> gfx \<Rightarrow> gfx" where
  "SH1107_DrawString font x y str color g =
     fold (\<lambda>c g. let g = SH1107_DrawChar font (cursorX g) (cursorY g) c color g
                 in g\<lparr>cursorX := cursorX g + (5 * textSize g + 1)\<rparr>)
       str (g\<lparr>cursorX := x, cursorY := y\<rparr>)"

subsection \<open>The frame buffer as a canvas\<close>

definition sh_get :: "u8 \<Rightarrow> u8 \<Rightarrow> gfx \<Rightarrow> u8" where
  "sh_get x y g = (if bit (frameBuffer g ! (unat x + unat y div 8 * SH1107_WIDTH)) (unat y mod 8) then 1 else 0)"

definition sh_ok :: "gfx \<Rightarrow> bool" where
  "sh_ok g \<longleftrightarrow> length (frameBuffer g) = SH1107_WIDTH * SH1107_HEIGHT div 8"

lemma sh_index:
  assumes "x < 128" "y < 128" "x' < 128"
  shows "x + y div 8 * 128 < (2048 :: nat)" "x + y div 8 * 128 = x' + y' div 8 * 128 \<longleftrightarrow> x = x' \<and> y div 8 = y' div (8 :: nat)"
proof -
  have "y div 8 < 16" using assms(2) by (simp add: div_less_iff_less_mult)
  then show "x + y div 8 * 128 < 2048" using assms(1) by linarith
  have "(x + y div 8 * 128) mod 128 = x" "(x' + y' div 8 * 128) mod 128 = x'" using assms by simp_all
  then show "x + y div 8 * 128 = x' + y' div 8 * 128 \<longleftrightarrow> x = x' \<and> y div 8 = y' div 8" by (metis add_left_imp_eq mult_cancel2 zero_neq_numeral)
qed

lemma mask_bit: "k < 8 \<Longrightarrow> n < 8 \<Longrightarrow> bit (sh_mask k) n \<longleftrightarrow> n = k"
  by (auto simp: sh_mask_def bit_simps possible_bit_def bit_1_iff simp del: push_bit_of_1)

lemma not_mask_bit: "k < 8 \<Longrightarrow> n < 8 \<Longrightarrow> bit (NOT (sh_mask k)) n \<longleftrightarrow> n \<noteq> k"
  using mask_bit [of k n] by (simp only: bit_not_iff possible_bit_def) simp

interpretation sh1107: canvas SH1107_DrawPixel sh_get sh_ok "\<lambda>c. True" "\<lambda>c. if c \<noteq> 0 then 1 else 0"
proof unfold_locales
  fix x y c :: u8 and g
  show "sh_ok g \<Longrightarrow> sh_ok (SH1107_DrawPixel x y c g)"
    by (simp add: sh_ok_def SH1107_DrawPixel_def Let_def)
  show "\<not> (x < 128 \<and> y < 128) \<Longrightarrow> SH1107_DrawPixel x y c g = g"
    by (auto simp: SH1107_DrawPixel_def SH1107_WIDTH_def SH1107_HEIGHT_def word_less_nat_alt)
next
  fix x y c x' y' :: u8 and g
  assume ok: "sh_ok g" and r: "x < 128" "y < 128" "x' < 128" "y' < 128"
  from r have n: "unat x < 128" "unat y < 128" "unat x' < 128" "unat y' < 128" by (simp_all add: word_less_nat_alt)
  have len: "length (frameBuffer g) = 2048" using ok by (simp add: sh_ok_def SH1107_WIDTH_def SH1107_HEIGHT_def)
  note i = sh_index(1) [OF n(1,2,3)] sh_index(2) [OF n(1,2,3), of "unat y'"]
  have m: "unat y mod 8 < 8" "unat y' mod 8 < 8" by simp_all
  have y: "y' = y \<longleftrightarrow> unat y' div 8 = unat y div 8 \<and> unat y' mod 8 = unat y mod 8"
    by (metis word_unat_eq_iff div_mult_mod_eq)
  have x: "x' = x \<longleftrightarrow> unat x' = unat x" by (simp add: word_unat_eq_iff)
  show "sh_get x' y' (SH1107_DrawPixel x y c g) = (if x' = x \<and> y' = y then if c \<noteq> 0 then 1 else 0 else sh_get x' y' g)"
  proof (cases "unat x' = unat x \<and> unat y' div 8 = unat y div 8")
    case False
    with i(2) have "unat x + unat y div 8 * 128 \<noteq> unat x' + unat y' div 8 * 128" by auto
    then show ?thesis
      using False n x y by (auto simp: sh_get_def SH1107_DrawPixel_def SH1107_WIDTH_def SH1107_HEIGHT_def Let_def)
  next
    case True
    then show ?thesis
      using n x y i(1) len mask_bit [OF m] not_mask_bit [OF m]
      by (auto simp: sh_get_def SH1107_DrawPixel_def SH1107_WIDTH_def SH1107_HEIGHT_def Let_def bit_or_iff bit_and_iff)
  qed
qed

subsection \<open>Properties\<close>

definition sh_blank :: gfx where
  "sh_blank = \<lparr>frameBuffer = replicate 2048 0, cursorX = 0, cursorY = 0, textSize = 0\<rparr>"

lemma sh_blank_ok: "sh_ok sh_blank"
  by (simp add: sh_ok_def sh_blank_def SH1107_WIDTH_def SH1107_HEIGHT_def)

text \<open>On the monochrome display, too, a line is drawn completely, ends, and touches no other pixel: every point of a
  digital line between the end points that is on the screen is lit or cleared, the rest is unchanged.\<close>

theorem SH1107_DrawLine_exact:
  assumes "sh_ok g"
  shows "\<exists>ps g'. is_line x0 y0 x1 y1 ps \<and> SH1107_DrawLine x0 y0 x1 y1 c g = Some g' \<and>
    (\<forall>x' y'. x' < 128 \<longrightarrow> y' < 128 \<longrightarrow>
       sh_get x' y' g' = (if (x', y') \<in> set ps then (if c \<noteq> 0 then 1 else 0) else sh_get x' y' g))"
  unfolding SH1107_DrawLine_def by (rule sh1107.draw_line [OF assms TrueI])

theorem SH1107_DrawLine_exact_witness: "\<exists>ps g'. is_line 0 0 200 90 ps \<and> SH1107_DrawLine 0 0 200 90 1 sh_blank = Some g'"
  using SH1107_DrawLine_exact [OF sh_blank_ok, of 0 0 200 90 1] by auto

text \<open>The SH1107 driver talks on the shared bus without taking its mutex: any refresh of the screen started with the
  bus free breaks the locking discipline.\<close>

theorem SH1107_breaks_discipline:
  assumes "bus_free w"
  shows "lock_state (SH1107_Display env True g w) = None"
  using assms
  by (simp add: bus_free_def SH1107_Display_def SH1107_WriteCommandList_def SH1107_WriteData_def sh_transfer_def
      Let_def case_prod_unfold bus_simps)

theorem SH1107_breaks_discipline_witness: "lock_state (SH1107_Display silent_env True sh_blank quiet_world) = None"
  using SH1107_breaks_discipline [of quiet_world silent_env sh_blank] by (simp add: bus_free_def)

end
