(* ===== verification/Dhcp.thy ===== *)
theory Dhcp
  imports Prelude
begin

text \<open>
  The address server of the configuration access point (src/comm/network/dhcp/dhcpserver.c). The
  message buffer \<open>dhcp_msg\<close> is the list of its 548 bytes, \<open>opt\<close> the 308 bytes after the magic cookie.
  A read past the end of the buffer is \<open>None\<close>. The calls of lwIP are parameters: whether
  \<open>pbuf_alloc\<close> succeeded and what sending returned. \<open>ticks i\<close> is the \<open>i\<close>-th answer of
  \<open>cyw43_hal_ticks_ms\<close> during the handling of one packet.
\<close>

named_theorems dhcp_simps \<open>constants of the message layout\<close>

definition DHCPDISCOVER :: u8 where "DHCPDISCOVER = 1"
definition DHCPOFFER :: u8 where "DHCPOFFER = 2"
definition DHCPREQUEST :: u8 where "DHCPREQUEST = 3"
definition DHCPACK :: u8 where "DHCPACK = 5"

definition DHCP_OPT_SUBNET_MASK :: u8 where "DHCP_OPT_SUBNET_MASK = 1"
definition DHCP_OPT_ROUTER :: u8 where "DHCP_OPT_ROUTER = 3"
definition DHCP_OPT_DNS :: u8 where "DHCP_OPT_DNS = 6"
definition DHCP_OPT_REQUESTED_IP :: u8 where "DHCP_OPT_REQUESTED_IP = 50"
definition DHCP_OPT_IP_LEASE_TIME :: u8 where "DHCP_OPT_IP_LEASE_TIME = 51"
definition DHCP_OPT_MSG_TYPE :: u8 where "DHCP_OPT_MSG_TYPE = 53"
definition DHCP_OPT_SERVER_ID :: u8 where "DHCP_OPT_SERVER_ID = 54"
definition DHCP_OPT_END :: u8 where "DHCP_OPT_END = 255"

definition DEFAULT_LEASE_TIME_S :: u32 where "DEFAULT_LEASE_TIME_S = 24 * 60 * 60"

definition DHCPS_BASE_IP :: u8 where "DHCPS_BASE_IP = 16"
definition DHCPS_MAX_IP :: nat where "DHCPS_MAX_IP = 8"
definition DHCP_MIN_SIZE :: nat where "DHCP_MIN_SIZE = 240 + 3"

definition PORT_DHCP_CLIENT :: u16 where "PORT_DHCP_CLIENT = 68"

text \<open>\<open>sizeof(dhcp_msg_t)\<close> and the offsets of \<open>yiaddr\<close>, \<open>chaddr\<close> and of the options behind the cookie.\<close>

definition dhcp_msg_size :: nat where "dhcp_msg_size = 548"
definition yiaddr_at :: nat where "yiaddr_at = 16"
definition chaddr_at :: nat where "chaddr_at = 28"
definition opt_at :: nat where "opt_at = 236 + 4"

lemmas dhcp_const_defs [dhcp_simps] =
  DHCPDISCOVER_def DHCPOFFER_def DHCPREQUEST_def DHCPACK_def DHCPS_BASE_IP_def DHCPS_MAX_IP_def
  DHCP_MIN_SIZE_def dhcp_msg_size_def yiaddr_at_def chaddr_at_def opt_at_def

record dhcp_server_lease =
  mac :: "u8 list"
  expiry :: u16

record dhcp_server =
  ip :: "u8 list"
  nm :: "u8 list"
  lease :: "dhcp_server_lease list"
  udp :: bool

subsection \<open>Sockets\<close>

definition ENOMEM :: int where "ENOMEM = 12"

definition dhcp_socket_new_dgram :: "bool \<Rightarrow> int \<times> bool" where
  "dhcp_socket_new_dgram created = (if created then (0, True) else (- ENOMEM, False))"

definition dhcp_socket_free :: "bool \<Rightarrow> bool" where
  "dhcp_socket_free u = (if u then False else u)"

text \<open>\<open>alloc\<close>: \<open>pbuf_alloc\<close> succeeded; \<open>err\<close>: the answer of \<open>udp_sendto(_if)\<close>.\<close>

definition dhcp_socket_sendto :: "bool \<Rightarrow> int \<Rightarrow> u8 list \<Rightarrow> u32 \<Rightarrow> u16 \<Rightarrow> int \<times> (u8 list \<times> u32 \<times> u16) option" where
  "dhcp_socket_sendto alloc err buf dest port =
     (let len = (if length buf > 0xffff then 0xffff else length buf)
      in if \<not> alloc then (- ENOMEM, None)
         else (if err \<noteq> 0 then err else int len, Some (take len buf, dest, port)))"

definition dhcp_server_init :: "bool \<Rightarrow> u8 list \<Rightarrow> u8 list \<Rightarrow> dhcp_server" where
  "dhcp_server_init created i n =
     \<lparr>ip = i, nm = n, lease = replicate DHCPS_MAX_IP \<lparr>mac = replicate 6 0, expiry = 0\<rparr>,
      udp = snd (dhcp_socket_new_dgram created)\<rparr>"

definition dhcp_server_deinit :: "dhcp_server \<Rightarrow> dhcp_server" where
  "dhcp_server_deinit d = d\<lparr>udp := dhcp_socket_free (udp d)\<rparr>"

subsection \<open>Options\<close>

text \<open>\<open>Some None\<close> is the NULL of \<open>opt_find\<close>; \<open>None\<close> a read past the buffer.\<close>

function opt_find :: "u8 list \<Rightarrow> u8 \<Rightarrow> nat \<Rightarrow> nat option option" where
  "opt_find opt cmd i =
     (if i < 308
      then (case rd opt i of None \<Rightarrow> None
           | Some b \<Rightarrow>
               if b = DHCP_OPT_END then Some None
               else if b = cmd then Some (Some i)
               else (case rd opt (i + 1) of None \<Rightarrow> None
                     | Some len \<Rightarrow> opt_find opt cmd (i + (2 + unat len))))
      else Some None)"
  by pat_completeness auto
termination by (relation "measure (\<lambda>(opt, cmd, i). 308 - i)") auto

declare opt_find.simps [simp del]

definition opt_write_n :: "u8 \<Rightarrow> u8 list \<Rightarrow> u8 list" where
  "opt_write_n cmd bs = [cmd, word_of_nat (length bs)] @ bs"

definition opt_write_u8 :: "u8 \<Rightarrow> u8 \<Rightarrow> u8 list" where
  "opt_write_u8 cmd val = [cmd, 1, val]"

definition opt_write_u32 :: "u8 \<Rightarrow> u32 \<Rightarrow> u8 list" where
  "opt_write_u32 cmd val =
     [cmd, 4, ucast (drop_bit 24 val), ucast (drop_bit 16 val), ucast (drop_bit 8 val), ucast val]"

subsection \<open>Leases\<close>

text \<open>\<open>(int32_t)((expiry << 16 | 0xffff) - ticks) < 0\<close>\<close>

definition expired :: "u16 \<Rightarrow> u32 \<Rightarrow> bool" where
  "expired e now = bit ((push_bit 16 (ucast e) OR 0xffff) - now :: u32) 31"

function discover_loop :: "(nat \<Rightarrow> u32) \<Rightarrow> u8 list \<Rightarrow> nat \<Rightarrow> nat \<Rightarrow> dhcp_server_lease list \<Rightarrow> dhcp_server_lease list \<times> nat" where
  "discover_loop ticks client i yi ls =
     (if i < DHCPS_MAX_IP
      then if mac (ls ! i) = client then (ls, i)
           else if yi = DHCPS_MAX_IP
           then let yi = (if mac (ls ! i) = replicate 6 0 then i else yi)
                in if expired (expiry (ls ! i)) (ticks i)
                   then discover_loop ticks client (Suc i) i (ls[i := (ls ! i)\<lparr>mac := replicate 6 0\<rparr>])
                   else discover_loop ticks client (Suc i) yi ls
           else discover_loop ticks client (Suc i) yi ls
      else (ls, yi))"
  by pat_completeness auto
termination by (relation "measure (\<lambda>(ticks, client, i, yi, ls). DHCPS_MAX_IP - i)") auto

declare discover_loop.simps [simp del]

text \<open>
  The two requests the server answers. The result is the lease table and, unless the request is
  ignored, the lease index and the type of the reply.
\<close>

definition dhcp_discover :: "(nat \<Rightarrow> u32) \<Rightarrow> u8 list \<Rightarrow> dhcp_server \<Rightarrow> dhcp_server \<times> (nat \<times> u8) option" where
  "dhcp_discover ticks client d =
     (let (ls, yi) = discover_loop ticks client 0 DHCPS_MAX_IP (lease d)
      in (d\<lparr>lease := ls\<rparr>, if yi = DHCPS_MAX_IP then None else Some (yi, DHCPOFFER)))"

definition dhcp_grant :: "u32 \<Rightarrow> u8 list \<Rightarrow> nat \<Rightarrow> dhcp_server \<Rightarrow> dhcp_server \<times> (nat \<times> u8) option" where
  "dhcp_grant now client yi d =
     (if yi \<ge> DHCPS_MAX_IP then (d, None)
      else let l = lease d ! yi;
               l' = l\<lparr>mac := client, expiry := ucast (drop_bit 16 (now + DEFAULT_LEASE_TIME_S * 1000))\<rparr>
           in if mac l = client then (d\<lparr>lease := (lease d)[yi := l']\<rparr>, Some (yi, DHCPACK))
              else if mac l = replicate 6 0 then (d\<lparr>lease := (lease d)[yi := l']\<rparr>, Some (yi, DHCPACK))
              else (d, None))"

definition dhcp_request :: "u32 \<Rightarrow> u8 list \<Rightarrow> u8 list \<Rightarrow> dhcp_server \<Rightarrow> (dhcp_server \<times> (nat \<times> u8) option) option" where
  "dhcp_request now client opt d =
     (case opt_find opt DHCP_OPT_REQUESTED_IP 0 of None \<Rightarrow> None
      | Some None \<Rightarrow> Some (d, None)
      | Some (Some at) \<Rightarrow>
          if length opt < at + 5 then None
          else if take 3 (drop (at + 2) opt) \<noteq> take 3 (ip d) then Some (d, None)
          else case rd opt (at + 5) of None \<Rightarrow> None
               | Some b \<Rightarrow> Some (dhcp_grant now client (unat (b - DHCPS_BASE_IP)) d))"

definition dhcp_reply_options :: "dhcp_server \<Rightarrow> u8 \<Rightarrow> u8 list" where
  "dhcp_reply_options d t =
     opt_write_u8 DHCP_OPT_MSG_TYPE t
     @ opt_write_n DHCP_OPT_SERVER_ID (ip d)
     @ opt_write_n DHCP_OPT_SUBNET_MASK (nm d)
     @ opt_write_n DHCP_OPT_ROUTER (ip d)
     @ opt_write_n DHCP_OPT_DNS (ip d)
     @ opt_write_u32 DHCP_OPT_IP_LEASE_TIME DEFAULT_LEASE_TIME_S
     @ [DHCP_OPT_END]"

text \<open>
  The message as it is sent: from \<open>op\<close> to the last option written, over the client's own bytes.
\<close>

definition dhcp_reply :: "u8 list \<Rightarrow> dhcp_server \<Rightarrow> nat \<Rightarrow> u8 \<Rightarrow> u8 list" where
  "dhcp_reply msg d yi t =
     (let msg = msg[0 := DHCPOFFER];
          msg = take yiaddr_at msg @ take 3 (ip d) @ [DHCPS_BASE_IP + word_of_nat yi] @ drop (yiaddr_at + 4) msg
      in take opt_at msg @ dhcp_reply_options d t)"

text \<open>
  \<open>stack\<close> is what the uninitialised \<open>dhcp_msg\<close> holds before the copy. The result is the server and the
  message handed to \<open>dhcp_socket_sendto\<close>, if any.
\<close>

definition dhcp_server_process :: "(nat \<Rightarrow> u32) \<Rightarrow> u8 list \<Rightarrow> u8 list \<Rightarrow> dhcp_server \<Rightarrow> (dhcp_server \<times> u8 list option) option" where
  "dhcp_server_process ticks stack p d =
     (if length p < DHCP_MIN_SIZE then Some (d, None)
      else let msg = fill dhcp_msg_size p stack;
               opt = drop opt_at msg;
               client = take 6 (drop chaddr_at msg)
           in case opt_find opt DHCP_OPT_MSG_TYPE 0 of None \<Rightarrow> None
              | Some None \<Rightarrow> Some (d, None)
              | Some (Some at) \<Rightarrow>
                (case rd opt (at + 2) of None \<Rightarrow> None
                 | Some t \<Rightarrow>
                   (case (if t = DHCPDISCOVER then Some (dhcp_discover ticks client d)
                          else if t = DHCPREQUEST then dhcp_request (ticks 0) client opt d
                          else Some (d, None)) of None \<Rightarrow> None
                    | Some (d', r) \<Rightarrow>
                        Some (d', case r of None \<Rightarrow> None | Some (yi, t) \<Rightarrow> Some (dhcp_reply msg d' yi t)))))"


subsection \<open>Lemmas\<close>

definition no_mac :: "u8 list" where "no_mac = replicate 6 0"

text \<open>Scanning the table only clears expired leases, and settles on one that is free or the client's.\<close>

lemma discover_loop_facts:
  assumes "discover_loop ticks client i yi ls = (ls', yi')" and "length ls = 8" and "yi \<le> 8"
    and "yi < 8 \<Longrightarrow> mac (ls ! yi) = client \<or> mac (ls ! yi) = no_mac"
  shows "length ls' = 8 \<and> yi' \<le> 8
    \<and> (\<forall>j < 8. \<not> expired (expiry (ls ! j)) (ticks j) \<longrightarrow> ls' ! j = ls ! j)
    \<and> (yi' < 8 \<longrightarrow> mac (ls' ! yi') = client \<or> mac (ls' ! yi') = no_mac)"
  using assms
proof (induction ticks client i yi ls arbitrary: ls' yi' rule: discover_loop.induct)
  case (1 ticks client i yi ls)
  show ?case
  proof (cases "i < 8 \<and> mac (ls ! i) \<noteq> client")
    case False
    with 1(4-7) show ?thesis
      by (subst (asm) discover_loop.simps) (auto simp: dhcp_simps split: if_splits)
  next
    case i: True
    show ?thesis
    proof (cases "yi = 8")
      case False
      with 1(3) [OF _ _ ] i 1(4-7) show ?thesis
        by (subst (asm) (2) discover_loop.simps) (auto simp: dhcp_simps)
    next
      case yi: True
      show ?thesis
      proof (cases "expired (expiry (ls ! i)) (ticks i)")
        case True
        with i yi 1(4) have "discover_loop ticks client (Suc i) i (ls[i := (ls ! i)\<lparr>mac := replicate 6 0\<rparr>]) = (ls', yi')"
          by (subst (asm) discover_loop.simps) (simp add: dhcp_simps)
        from 1(1) [OF _ _ _ refl _ this] i yi True 1(5) show ?thesis
          by (auto simp: dhcp_simps no_mac_def nth_list_update split: if_splits)
      next
        case False
        with i yi 1(4) have "discover_loop ticks client (Suc i) (if mac (ls ! i) = replicate 6 0 then i else yi) ls = (ls', yi')"
          by (subst (asm) discover_loop.simps) (simp add: dhcp_simps)
        from 1(2) [OF _ _ _ refl _ this] i yi False 1(5) show ?thesis
          by (cases "mac (ls ! i) = replicate 6 0") (simp_all add: dhcp_simps no_mac_def)
      qed
    qed
  qed
qed

text \<open>It finds a place whenever there is one.\<close>

lemma discover_loop_finds:
  assumes "\<exists>j \<ge> i. j < 8 \<and> (mac (ls ! j) = client \<or> mac (ls ! j) = no_mac \<or> expired (expiry (ls ! j)) (ticks j)) \<or> yi < 8"
    and "length ls = 8" and "yi \<le> 8"
  shows "snd (discover_loop ticks client i yi ls) < 8"
  using assms
proof (induction ticks client i yi ls rule: discover_loop.induct)
  case (1 ticks client i yi ls)
  show ?case
  proof (cases "i < 8 \<and> mac (ls ! i) \<noteq> client")
    case False
    with 1(4-6) show ?thesis
      by (subst discover_loop.simps) (auto simp: dhcp_simps)
  next
    case i: True
    show ?thesis
    proof (cases "yi = 8")
      case False
      with 1(3) i 1(4-6) show ?thesis
        by (subst discover_loop.simps) (auto simp: dhcp_simps)
    next
      case yi: True
      show ?thesis
      proof (cases "expired (expiry (ls ! i)) (ticks i)")
        case True
        with 1(1) i yi 1(4-6) show ?thesis
          by (subst discover_loop.simps) (auto simp: dhcp_simps)
      next
        case False
        have "\<exists>j \<ge> Suc i. j < 8 \<and> (mac (ls ! j) = client \<or> mac (ls ! j) = no_mac \<or> expired (expiry (ls ! j)) (ticks j))
                \<or> (if mac (ls ! i) = replicate 6 0 then i else yi) < 8"
          using 1(4) i yi False by (auto simp: no_mac_def Suc_le_eq nat_less_le)
        with 1(2) i yi False 1(5) show ?thesis
          by (subst discover_loop.simps) (auto simp: dhcp_simps)
      qed
    qed
  qed
qed


text \<open>A lease granted or found belongs to the client afterwards, or is free; no other lease moves.\<close>

lemma grant_facts:
  assumes "dhcp_grant now client yi d = (d', r)" and "length (lease d) = 8"
  shows "ip d' = ip d \<and> nm d' = nm d \<and> length (lease d') = 8
    \<and> (\<forall>j < 8. mac (lease d ! j) \<noteq> no_mac \<longrightarrow> mac (lease d' ! j) = mac (lease d ! j))
    \<and> (\<forall>k t. r = Some (k, t) \<longrightarrow> k = yi \<and> yi < 8 \<and> t = DHCPACK \<and> mac (lease d' ! yi) = client)"
  using assms by (auto simp: dhcp_grant_def Let_def DHCPS_MAX_IP_def no_mac_def nth_list_update split: if_splits)

lemma discover_facts:
  assumes "dhcp_discover ticks client d = (d', r)" and "length (lease d) = 8"
  shows "ip d' = ip d \<and> nm d' = nm d \<and> length (lease d') = 8
    \<and> (\<forall>j < 8. \<not> expired (expiry (lease d ! j)) (ticks j) \<longrightarrow> lease d' ! j = lease d ! j)
    \<and> (\<forall>k t. r = Some (k, t) \<longrightarrow> k < 8 \<and> t = DHCPOFFER \<and> (mac (lease d' ! k) = client \<or> mac (lease d' ! k) = no_mac))"
proof -
  obtain ls yi where l: "discover_loop ticks client 0 DHCPS_MAX_IP (lease d) = (ls, yi)" by fastforce
  have "length ls = 8 \<and> yi \<le> 8
    \<and> (\<forall>j < 8. \<not> expired (expiry (lease d ! j)) (ticks j) \<longrightarrow> ls ! j = lease d ! j)
    \<and> (yi < 8 \<longrightarrow> mac (ls ! yi) = client \<or> mac (ls ! yi) = no_mac)"
    by (rule discover_loop_facts [OF l assms(2)]) (simp_all add: DHCPS_MAX_IP_def)
  with assms(1) l show ?thesis by (auto simp: dhcp_discover_def DHCPS_MAX_IP_def split: if_splits)
qed

lemma request_facts:
  assumes "dhcp_request now client opt d = Some (d', r)" and "length (lease d) = 8"
  shows "ip d' = ip d \<and> nm d' = nm d \<and> length (lease d') = 8
    \<and> (\<forall>j < 8. mac (lease d ! j) \<noteq> no_mac \<longrightarrow> mac (lease d' ! j) = mac (lease d ! j))
    \<and> (\<forall>k t. r = Some (k, t) \<longrightarrow> k < 8 \<and> t = DHCPACK \<and> mac (lease d' ! k) = client)"
  using assms grant_facts
  by (fastforce simp: dhcp_request_def split: option.splits if_splits)

text \<open>The last byte of \<open>yiaddr\<close> in a reply.\<close>

lemma reply_address:
  assumes "length (ip d) = 4" and "length msg = 548"
  shows "dhcp_reply msg d yi t ! 19 = 16 + word_of_nat yi"
proof -
  have "dhcp_reply msg d yi t ! 19 =
    (take yiaddr_at (msg[0 := DHCPOFFER]) @ take 3 (ip d) @ [DHCPS_BASE_IP + word_of_nat yi] @ drop (yiaddr_at + 4) (msg[0 := DHCPOFFER])) ! 19"
    using assms by (simp add: dhcp_reply_def Let_def opt_at_def yiaddr_at_def nth_append)
  also have "\<dots> = 16 + word_of_nat yi"
    using assms by (simp add: nth_append yiaddr_at_def DHCPS_BASE_IP_def)
  finally show ?thesis .
qed

text \<open>The table entries that survive a packet, and the entry a reply is about.\<close>

lemma process_facts:
  assumes p: "dhcp_server_process ticks stack p d = Some (d', r)"
    and "length (lease d) = 8" and "length (ip d) = 4" and "length stack = 548"
  shows "length (lease d') = 8 \<and> ip d' = ip d \<and> nm d' = nm d
    \<and> (\<forall>j < 8. \<not> expired (expiry (lease d ! j)) (ticks j) \<longrightarrow> mac (lease d ! j) \<noteq> no_mac \<longrightarrow> mac (lease d' ! j) = mac (lease d ! j))
    \<and> (\<forall>m. r = Some m \<longrightarrow> (\<exists>k < 8. m ! 19 = 16 + word_of_nat k
         \<and> (mac (lease d' ! k) = take 6 (drop 28 (fill 548 p stack)) \<or> mac (lease d' ! k) = no_mac)))"
proof -
  let ?msg = "fill dhcp_msg_size p stack"
  let ?client = "take 6 (drop chaddr_at ?msg)"
  have same: ?thesis if "d' = d" "r = None" using that assms by simp
  have by_result: ?thesis
    if "length (lease d') = 8 \<and> ip d' = ip d \<and> nm d' = nm d"
      and keep: "\<And>j. j < 8 \<Longrightarrow> \<not> expired (expiry (lease d ! j)) (ticks j) \<Longrightarrow> mac (lease d ! j) \<noteq> no_mac \<Longrightarrow> mac (lease d' ! j) = mac (lease d ! j)"
      and q: "\<And>k t. q = Some (k, t) \<Longrightarrow> k < 8 \<and> (mac (lease d' ! k) = ?client \<or> mac (lease d' ! k) = no_mac)"
      and r: "r = (case q of None \<Rightarrow> None | Some (yi, t) \<Rightarrow> Some (dhcp_reply ?msg d' yi t))" for q :: "(nat \<times> u8) option"
  proof -
    have l: "length ?msg = 548" using assms(4) by simp
    have "\<exists>k < 8. m ! 19 = 16 + word_of_nat k \<and> (mac (lease d' ! k) = ?client \<or> mac (lease d' ! k) = no_mac)" if "r = Some m" for m
    proof -
      from that r obtain k t where k: "q = Some (k, t)" "m = dhcp_reply ?msg d' k t" by (auto split: option.splits)
      with reply_address [OF _ l, of d' k t] q [OF k(1)] \<open>length (lease d') = 8 \<and> ip d' = ip d \<and> nm d' = nm d\<close> assms(3)
      show ?thesis by auto
    qed
    with that(1) keep show ?thesis by (simp add: dhcp_msg_size_def chaddr_at_def)
  qed
  from p consider "d' = d" "r = None"
    | q where "dhcp_discover ticks ?client d = (d', q)" "r = (case q of None \<Rightarrow> None | Some (yi, t) \<Rightarrow> Some (dhcp_reply ?msg d' yi t))"
    | q where "dhcp_request (ticks 0) ?client (drop opt_at ?msg) d = Some (d', q)"
        "r = (case q of None \<Rightarrow> None | Some (yi, t) \<Rightarrow> Some (dhcp_reply ?msg d' yi t))"
    unfolding dhcp_server_process_def Let_def by (auto split: if_splits option.splits prod.splits)
  then show ?thesis
  proof cases
    case (2 q)
    show ?thesis
      by (rule by_result [OF _ _ _ 2(2)]) (use discover_facts [OF 2(1) assms(2)] in auto)
  next
    case (3 q)
    show ?thesis
      by (rule by_result [OF _ _ _ 3(2)]) (use request_facts [OF 3(1) assms(2)] in auto)
  qed (rule same)
qed


subsection \<open>A client\<close>

text \<open>
  The messages of a client with hardware address \<open>c\<close>: 240 bytes of header with the address at
  offset 28, then the options.
\<close>

definition client_msg :: "u8 list \<Rightarrow> u8 list \<Rightarrow> u8 list" where
  "client_msg c opts = replicate 28 0 @ c @ replicate 202 0 @ [99, 130, 83, 99] @ opts"

definition discover_msg :: "u8 list \<Rightarrow> u8 list" where
  "discover_msg c = client_msg c [53, 1, 1, 255]"

definition request_msg :: "u8 list \<Rightarrow> u8 list \<Rightarrow> u8 list" where
  "request_msg c addr = client_msg c ([53, 1, 3, 50, 4] @ addr @ [255])"

definition offered :: "u8 list \<Rightarrow> u8 list" where "offered m = take 4 (drop 16 m)"

lemma client_msg_fill:
  assumes "length c = 6" "length stack = 548" "length opts \<le> 308"
  shows "take 6 (drop 28 (fill 548 (client_msg c opts) stack)) = c"
    "drop 240 (fill 548 (client_msg c opts) stack) = opts @ drop (240 + length opts) stack"
    "fill 548 (client_msg c opts) stack = client_msg c opts @ drop (240 + length opts) stack"
proof -
  have l: "length (client_msg c opts) = 240 + length opts" using assms(1) by (simp add: client_msg_def)
  then have "take (min 548 (length stack)) (client_msg c opts) = client_msg c opts" using assms by simp
  then show f: "fill 548 (client_msg c opts) stack = client_msg c opts @ drop (240 + length opts) stack"
    using l by (simp add: fill_def)
  show "take 6 (drop 28 (fill 548 (client_msg c opts) stack)) = c"
    unfolding f unfolding client_msg_def using assms by simp
  show "drop 240 (fill 548 (client_msg c opts) stack) = opts @ drop (240 + length opts) stack"
    unfolding f unfolding client_msg_def using assms by simp
qed

lemma offered_reply:
  assumes "length (ip d) = 4" and "length msg = 548"
  shows "offered (dhcp_reply msg d k t) = take 3 (ip d) @ [16 + word_of_nat k]"
    "dhcp_reply msg d k t ! 242 = t"
proof -
  obtain X where e: "dhcp_reply msg d k t = X @ dhcp_reply_options d t"
    and X: "X = take 240 (take 16 (msg[0 := 2]) @ take 3 (ip d) @ [16 + word_of_nat k] @ drop 20 (msg[0 := 2]))"
    by (simp add: dhcp_reply_def Let_def dhcp_simps)
  from X assms have l: "length X = 240" by simp
  then show "dhcp_reply msg d k t ! 242 = t"
    by (simp add: e nth_append dhcp_reply_options_def opt_write_u8_def)
  have "take 4 (drop 16 X) = take 3 (ip d) @ [16 + word_of_nat k]"
    using X assms by simp
  then show "offered (dhcp_reply msg d k t) = take 3 (ip d) @ [16 + word_of_nat k]"
    using l by (simp add: offered_def e)
qed

lemma process_discover:
  assumes "length c = 6" "length stack = 548"
  shows "dhcp_server_process ticks stack (discover_msg c) d =
    (case dhcp_discover ticks c d of (d', q) \<Rightarrow>
      Some (d', case q of None \<Rightarrow> None | Some (yi, t) \<Rightarrow> Some (dhcp_reply (fill 548 (discover_msg c) stack) d' yi t)))"
proof -
  let ?m = "fill 548 (discover_msg c) stack"
  have m: "drop 240 ?m = [53, 1, 1, 255] @ drop 244 stack"
    using client_msg_fill(2) [OF assms, of "[53, 1, 1, 255]"] by (simp add: discover_msg_def)
  have "opt_find (drop 240 ?m) 53 0 = Some (Some 0)"
    by (subst opt_find.simps) (simp add: m rd_def DHCP_OPT_END_def)
  moreover have "rd (drop 240 ?m) (Suc (Suc 0)) = Some 1"
    by (simp add: m rd_def)
  moreover have "length (discover_msg c) = 244" using assms(1) by (simp add: discover_msg_def client_msg_def)
  moreover have "take 6 (drop 28 ?m) = c"
    using client_msg_fill(1) [OF assms, of "[53, 1, 1, 255]"] by (simp add: discover_msg_def)
  ultimately show ?thesis
    by (simp add: dhcp_server_process_def Let_def dhcp_simps DHCP_OPT_MSG_TYPE_def)
qed

lemma process_request:
  assumes c: "length c = 6" "length stack = 548" and d: "length (ip d) = 4" and k: "k < 8"
  shows "dhcp_server_process ticks stack (request_msg c (take 3 (ip d) @ [16 + word_of_nat k])) d =
    (case dhcp_grant (ticks 0) c k d of (d', q) \<Rightarrow>
      Some (d', case q of None \<Rightarrow> None | Some (yi, t) \<Rightarrow>
        Some (dhcp_reply (fill 548 (request_msg c (take 3 (ip d) @ [16 + word_of_nat k])) stack) d' yi t)))"
proof -
  let ?a = "take 3 (ip d) @ [16 + word_of_nat k]"
  let ?m = "fill 548 (request_msg c ?a) stack"
  obtain a b e g where i: "ip d = [a, b, e, g]" using d by (auto simp: numeral_eq_Suc length_Suc_conv)
  note f = client_msg_fill [OF c, of "[53, 1, 3, 50, 4] @ ?a @ [255]", simplified i, simplified]
  have m: "drop 240 ?m = [53, 1, 3, 50, 4, a, b, e, 16 + word_of_nat k, 255] @ drop 250 stack"
    by (simp add: request_msg_def f(1,2) i)
  have t: "opt_find (drop 240 ?m) 53 0 = Some (Some 0)"
    by (subst opt_find.simps) (simp add: m rd_def DHCP_OPT_END_def)
  have r: "opt_find (drop 240 ?m) 50 0 = Some (Some 3)"
    by (subst opt_find.simps, simp add: m rd_def DHCP_OPT_END_def)
       (subst opt_find.simps, simp add: rd_def DHCP_OPT_END_def)
  have u: "rd (drop 240 ?m) 2 = Some 3" "rd (drop 240 ?m) 8 = Some (16 + word_of_nat k)"
      "take 3 (drop 5 (drop 240 ?m)) = take 3 (ip d)" "length (drop 240 ?m) = 308"
    using c(2) by (simp_all only: m) (simp_all add: rd_def i)
  have "unat (16 + word_of_nat k - DHCPS_BASE_IP) = k"
    using k by (simp add: DHCPS_BASE_IP_def unat_of_nat)
  then have "dhcp_request (ticks 0) c (drop 240 ?m) d = Some (dhcp_grant (ticks 0) c k d)"
    using r u by (simp add: dhcp_request_def DHCP_OPT_REQUESTED_IP_def)
  moreover have "length (request_msg c ?a) = 250" using c(1) by (simp add: request_msg_def client_msg_def i)
  moreover have "take 6 (drop 28 ?m) = c" by (simp add: request_msg_def f(1,2) i)
  ultimately show ?thesis
    using t u(1) [unfolded numeral_2_eq_2] by (simp add: dhcp_server_process_def Let_def dhcp_simps DHCP_OPT_MSG_TYPE_def)
qed


subsection \<open>Lease time\<close>

lemma bit31: "bit (w :: u32) 31 \<longleftrightarrow> 2 ^ 31 \<le> unat w"
proof -
  have "bit w 31 \<longleftrightarrow> bit (unat w) 31" by (simp add: bit_unsigned_iff)
  then have "bit w 31 \<longleftrightarrow> odd (unat w div 2 ^ 31)" by (simp add: bit_iff_odd)
  moreover have "unat w div 2 ^ 31 = 0 \<or> unat w div 2 ^ 31 = 1"
    using unat_u32 [of w] by auto
  moreover have "unat w div 2 ^ 31 = 0 \<longleftrightarrow> unat w < 2 ^ 31" by auto
  ultimately show ?thesis by (metis even_zero linorder_not_less odd_one)
qed

lemma unat_minus_of_nat:
  assumes "unat (g :: u32) < 65536" "k < 2 ^ 31"
  shows "unat (86400000 + g - word_of_nat k) =
    (if k \<le> 86400000 + unat g then 86400000 + unat g - k else 2 ^ 32 + (86400000 + unat g) - k)"
proof -
  have a: "unat (86400000 + g) = 86400000 + unat g"
    using assms(1) by (simp add: unat_word_ariths)
  have b: "unat (word_of_nat k :: u32) = k"
    using assms(2) by (intro unat_word_of_nat) simp
  show ?thesis
    using assms a b by (auto simp: unat_sub_if' word_le_nat_alt)
qed

lemma round_up: "(n :: nat) div 65536 * 65536 + 65535 = n + (65535 - n mod 65536)"
proof -
  have "r < 65536 \<Longrightarrow> q * 65536 + 65535 = (q * 65536 + r) + (65535 - r)" for q r :: nat by simp
  from this [of "n mod 65536" "n div 65536"] show ?thesis by (simp add: div_mult_mod_eq)
qed

lemma word_plus_of_nat: "unat (a :: u32) = unat b + g \<Longrightarrow> a = b + word_of_nat g"
proof -
  assume "unat a = unat b + g"
  then have "word_of_nat (unat a) = (word_of_nat (unat b + g) :: u32)" by (rule arg_cong)
  then show ?thesis by simp
qed

lemma lease_time:
  fixes now :: u32
  defines "e \<equiv> ucast (drop_bit 16 (now + DEFAULT_LEASE_TIME_S * 1000)) :: u16"
  assumes "k < 2 ^ 31"
  shows "k \<le> 86400000 \<Longrightarrow> \<not> expired e (now + word_of_nat k)"
    and "86400000 + 65536 \<le> k \<Longrightarrow> expired e (now + word_of_nat k)"
proof -
  let ?x = "now + 86400000 :: u32"
  let ?E = "push_bit 16 (ucast e) OR 0xffff :: u32"
  define g where "g = 65535 - unat ?x mod 65536"
  have "unat (drop_bit 16 ?x) = unat ?x div 65536" by (simp add: drop_bit_eq_div unat_div)
  moreover have "unat ?x div 65536 < 65536" using unat_u32 [of ?x] by simp
  ultimately have "unat e = unat ?x div 65536"
    by (simp add: e_def DEFAULT_LEASE_TIME_S_def unsigned_ucast_eq take_bit_nat_eq_self)
  moreover have "unat e < 65536" by (rule unat_u16)
  ultimately have "unat ?E = unat ?x div 65536 * 65536 + 65535"
    using unat_shift_or [of "0xffff :: u32" 16 "ucast e"] by (simp add: unat_ucast_up)
  also have "\<dots> = unat ?x + g"
    unfolding g_def by (rule round_up)
  finally have "unat ?E = unat ?x + g" .
  then have E: "?E = ?x + word_of_nat g" by (rule word_plus_of_nat)
  have g: "g < 65536" by (simp add: g_def)
  then have ug: "unat (word_of_nat g :: u32) = g" by (intro unat_word_of_nat) simp
  have "unat (?E - (now + word_of_nat k)) = unat (86400000 + word_of_nat g - word_of_nat k :: u32)"
    by (simp only: E) (simp add: algebra_simps)
  also have "\<dots> = (if k \<le> 86400000 + g then 86400000 + g - k else 2 ^ 32 + (86400000 + g) - k)"
    using unat_minus_of_nat [of "word_of_nat g" k] g assms(2) by (simp only: ug)
  finally have x: "expired e (now + word_of_nat k) \<longleftrightarrow>
      2 ^ 31 \<le> (if k \<le> 86400000 + g then 86400000 + g - k else 2 ^ 32 + (86400000 + g) - k)"
    by (simp only: expired_def bit31)
  show "\<not> expired e (now + word_of_nat k)" if "k \<le> 86400000"
    using that g by (simp add: x)
  show "expired e (now + word_of_nat k)" if "86400000 + 65536 \<le> k"
    using that g assms(2) by (simp add: x)
qed

subsection \<open>Reading past the options\<close>

lemma overread:
  assumes "length opt = 308" "odd i" "3 \<le> i" "i \<le> 307" "\<forall>j. 3 \<le> j \<longrightarrow> j < 308 \<longrightarrow> opt ! j = 0" "cmd \<noteq> 0"
  shows "opt_find opt cmd i = None"
  using assms
proof (induction opt cmd i rule: opt_find.induct)
  case (1 opt cmd i)
  show ?case
  proof (cases "i = 307")
    case True
    with 1(2-) show ?thesis by (subst opt_find.simps) (simp add: rd_def DHCP_OPT_END_def)
  next
    case False
    with 1(3,5) have i: "i + 2 \<le> 307" by (cases "i = 306") auto
    with 1(2-) have o: "rd opt i = Some 0" "rd opt (i + 1) = Some 0" by (simp_all add: rd_def)
    have "opt_find opt cmd (i + (2 + unat (0 :: u8))) = None"
      using 1(1) [of 0 0] 1(2-) i o by (simp add: DHCP_OPT_END_def)
    with o i 1(7) show ?thesis by (subst opt_find.simps) (simp add: DHCP_OPT_END_def)
  qed
qed

subsection \<open>Properties\<close>

definition dhcp_demo :: dhcp_server where
  "dhcp_demo = dhcp_server_init True [192, 168, 250, 1] [255, 255, 255, 0]"

text \<open>C12. No packet, however malformed, takes an address away from a client whose lease has not expired or hands that
  address to someone else: the table still names the client, and if the server answers another client, the address in
  the answer is a different one.\<close>

theorem DHCP_no_stealing:
  assumes "dhcp_server_process ticks stack p d = Some (d', r)"
    and "length (lease d) = 8" "length (ip d) = 4" "length stack = 548"
    and "i < 8" "mac (lease d ! i) = a" "a \<noteq> no_mac" "\<not> expired (expiry (lease d ! i)) (ticks i)"
  shows "mac (lease d' ! i) = a
    \<and> (\<forall>m. r = Some m \<longrightarrow> take 6 (drop 28 (fill 548 p stack)) \<noteq> a \<longrightarrow> m ! 19 \<noteq> 16 + word_of_nat i)"
proof -
  note f = process_facts [OF assms(1-4)]
  have k: "k = i" if "word_of_nat k = (word_of_nat i :: u8)" "k < 8" for k
    using arg_cong [OF that(1), of unat] that(2) assms(5) by (simp add: unat_word_of_nat)
  show ?thesis using f assms(5-8) k by fastforce
qed


theorem DHCP_no_stealing_witness:
  "\<exists>d'. dhcp_server_process (\<lambda>i. 0) (replicate 548 0) (discover_msg [2, 2, 2, 2, 2, 2])
        (fst (dhcp_grant 0 [1, 1, 1, 1, 1, 1] 0 dhcp_demo)) = Some d' \<and> mac (lease (fst d') ! 0) = [1, 1, 1, 1, 1, 1]"
proof -
  let ?d = "fst (dhcp_grant 0 [1, 1, 1, 1, 1, 1] 0 dhcp_demo)"
  let ?p = "dhcp_server_process (\<lambda>i. 0) (replicate 548 0) (discover_msg [2, 2, 2, 2, 2, 2]) ?d"
  have d: "length (lease ?d) = 8" "length (ip ?d) = 4" "mac (lease ?d ! 0) = [1, 1, 1, 1, 1, 1]" "expiry (lease ?d ! 0) = 1318"
    by (simp_all add: dhcp_grant_def dhcp_demo_def dhcp_server_init_def DHCPS_MAX_IP_def DEFAULT_LEASE_TIME_S_def Let_def)
  have "?p \<noteq> None" by (simp add: process_discover case_prod_unfold)
  then obtain d' r where p: "?p = Some (d', r)" by auto
  have "\<not> expired 1318 0" "[1, 1, 1, 1, 1, 1] \<noteq> no_mac" by code_simp+
  with DHCP_no_stealing [OF p d(1,2) _ _ d(3)] d(4) have "mac (lease d' ! 0) = [1, 1, 1, 1, 1, 1]" by simp
  with p show ?thesis by simp
qed

text \<open>C28. The handshake completes: while some entry of the table is free, expired or the client's own, a DISCOVER is answered
  with an OFFER, and the REQUEST for the offered address, sent next, with an ACK of the same address, which the table
  then keeps for the client for 24 hours.\<close>

theorem DHCP_handshake:
  assumes "length c = 6" "length (lease d) = 8" "length (ip d) = 4" "length s1 = 548" "length s2 = 548"
    and "\<exists>j < 8. mac (lease d ! j) = c \<or> mac (lease d ! j) = no_mac \<or> expired (expiry (lease d ! j)) (t1 j)"
  shows "\<exists>d1 m1 d2 m2 k. dhcp_server_process t1 s1 (discover_msg c) d = Some (d1, Some m1)
    \<and> m1 ! 242 = DHCPOFFER
    \<and> dhcp_server_process t2 s2 (request_msg c (offered m1)) d1 = Some (d2, Some m2)
    \<and> m2 ! 242 = DHCPACK \<and> offered m2 = offered m1 \<and> offered m1 = take 3 (ip d) @ [16 + word_of_nat k]
    \<and> k < 8 \<and> mac (lease d2 ! k) = c
    \<and> (\<forall>ms \<le> 86400000. \<not> expired (expiry (lease d2 ! k)) (t2 0 + word_of_nat ms))"
proof -
  obtain d1 q where q: "dhcp_discover t1 c d = (d1, q)" by fastforce
  have "snd (discover_loop t1 c 0 8 (lease d)) < 8"
    by (rule discover_loop_finds) (use assms in auto)
  with q have "q \<noteq> None" by (auto simp: dhcp_discover_def DHCPS_MAX_IP_def split: prod.splits if_splits)
  note f = discover_facts [OF q assms(2)]
  with \<open>q \<noteq> None\<close> obtain k where k: "q = Some (k, DHCPOFFER)" "k < 8" "mac (lease d1 ! k) = c \<or> mac (lease d1 ! k) = no_mac"
    by auto
  let ?m1 = "dhcp_reply (fill 548 (discover_msg c) s1) d1 k DHCPOFFER"
  have d1: "ip d1 = ip d" "length (lease d1) = 8" using f by simp_all
  note o1 = offered_reply [of d1 "fill 548 (discover_msg c) s1" k DHCPOFFER, unfolded d1(1), OF assms(3)]
  obtain d2 where g: "dhcp_grant (t2 0) c k d1 = (d2, Some (k, DHCPACK))" "ip d2 = ip d" "mac (lease d2 ! k) = c"
    "expiry (lease d2 ! k) = ucast (drop_bit 16 (t2 0 + DEFAULT_LEASE_TIME_S * 1000))"
    using k(2,3) d1 by (auto simp: dhcp_grant_def DHCPS_MAX_IP_def Let_def no_mac_def)
  let ?m2 = "dhcp_reply (fill 548 (request_msg c (take 3 (ip d) @ [16 + word_of_nat k])) s2) d2 k DHCPACK"
  have p1: "dhcp_server_process t1 s1 (discover_msg c) d = Some (d1, Some ?m1)"
    using process_discover [OF assms(1,4)] q k(1) by simp
  have p2: "dhcp_server_process t2 s2 (request_msg c (take 3 (ip d) @ [16 + word_of_nat k])) d1 = Some (d2, Some ?m2)"
    using process_request [OF assms(1,5), of d1 k t2] g(1) d1(1) assms(3) k(2) by simp
  note o2 = offered_reply [of d2 "fill 548 (request_msg c (take 3 (ip d) @ [16 + word_of_nat k])) s2" k DHCPACK, unfolded g(2), OF assms(3)]
  have "\<forall>ms \<le> 86400000. \<not> expired (expiry (lease d2 ! k)) (t2 0 + word_of_nat ms)"
    using lease_time(1) g(4) by simp
  then show ?thesis
    using p1 p2 o1 o2 assms(4,5) k(2) g(3)
    by (intro exI [of _ d1] exI [of _ ?m1] exI [of _ d2] exI [of _ ?m2] exI [of _ k]) simp
qed

theorem DHCP_handshake_witness:
  "\<exists>d1 m1 d2 m2. dhcp_server_process (\<lambda>i. 7) (replicate 548 0) (discover_msg [1, 2, 3, 4, 5, 6]) dhcp_demo = Some (d1, Some m1)
     \<and> dhcp_server_process (\<lambda>i. 9) (replicate 548 0) (request_msg [1, 2, 3, 4, 5, 6] (offered m1)) d1 = Some (d2, Some m2)
     \<and> offered m2 = offered m1"
proof -
  have "length (lease dhcp_demo) = 8" "length (ip dhcp_demo) = 4" "mac (lease dhcp_demo ! 0) = no_mac"
    by (simp_all add: dhcp_demo_def dhcp_server_init_def DHCPS_MAX_IP_def no_mac_def)
  then show ?thesis
    using DHCP_handshake [of "[1, 2, 3, 4, 5, 6]" dhcp_demo "replicate 548 0" "replicate 548 0" "\<lambda>i. 7" "\<lambda>i. 9"] by fastforce
qed

text \<open>A granted lease lasts at least the 24 hours that are promised to the client and at most 65.536 seconds longer, although
  only the upper 16 bits of the millisecond counter are stored and the counter wraps around; this holds for the first
  \<open>2^31\<close> milliseconds after the grant.\<close>

theorem DHCP_lease_time:
  assumes "dhcp_grant now client yi d = (d', Some r)" and "length (lease d) = 8" and "ms < 2 ^ 31"
  shows "(ms \<le> 86400000 \<longrightarrow> \<not> expired (expiry (lease d' ! yi)) (now + word_of_nat ms))
    \<and> (86400000 + 65536 \<le> ms \<longrightarrow> expired (expiry (lease d' ! yi)) (now + word_of_nat ms))"
proof -
  have "expiry (lease d' ! yi) = ucast (drop_bit 16 (now + DEFAULT_LEASE_TIME_S * 1000))"
    using assms(1,2) by (auto simp: dhcp_grant_def Let_def DHCPS_MAX_IP_def split: if_splits)
  with lease_time [OF assms(3)] show ?thesis by simp
qed

theorem DHCP_lease_time_witness:
  "\<not> expired (expiry (lease (fst (dhcp_grant 0xFFFFFF00 [1, 2, 3, 4, 5, 6] 0 dhcp_demo)) ! 0)) (0xFFFFFF00 + word_of_nat 1000)"
proof -
  let ?g = "dhcp_grant 0xFFFFFF00 [1, 2, 3, 4, 5, 6] 0 dhcp_demo"
  have d: "length (lease dhcp_demo) = 8" "mac (lease dhcp_demo ! 0) = replicate 6 0"
    by (simp_all add: dhcp_demo_def dhcp_server_init_def DHCPS_MAX_IP_def)
  then have "?g = (fst ?g, Some (0, DHCPACK))"
    by (simp add: dhcp_grant_def DHCPS_MAX_IP_def Let_def)
  from DHCP_lease_time [OF this d(1), of 1000] show ?thesis by simp
qed

text \<open>A packet without end option makes \<open>opt_find\<close> read behind the message: options that start with a one-byte host name and
  are padded with zeros put it on the last byte of the buffer, whose length byte lies outside \<open>dhcp_msg\<close>.\<close>

theorem DHCP_option_overread:
  assumes "length c = 6" "length stack = 548"
  shows "dhcp_server_process ticks stack (client_msg c ([12, 1, x] @ replicate 305 0)) d = None"
proof -
  let ?opts = "[12, 1, x] @ replicate 305 0"
  have m: "drop 240 (fill 548 (client_msg c ?opts) stack) = ?opts"
    using client_msg_fill(2) [OF assms, of ?opts] assms(2) by simp
  have "opt_find ?opts 53 3 = None"
    by (rule overread) (auto simp: nth_Cons split: nat.splits)
  then have "opt_find ?opts 53 0 = None"
    by (subst opt_find.simps) (simp add: rd_def DHCP_OPT_END_def)
  moreover have "length (client_msg c ?opts) = 548" using assms(1) by (simp add: client_msg_def)
  ultimately show ?thesis
    using m by (simp add: dhcp_server_process_def Let_def dhcp_simps DHCP_OPT_MSG_TYPE_def)
qed

theorem DHCP_option_overread_witness:
  "dhcp_server_process (\<lambda>i. 0) (replicate 548 0) (client_msg [1, 2, 3, 4, 5, 6] ([12, 1, 65] @ replicate 305 0)) dhcp_demo = None"
  by (rule DHCP_option_overread) simp_all

end
