(* ===== verification/Dns.thy ===== *)
theory Dns
  imports Prelude
begin

text \<open>
  The name server of the configuration access point (src/comm/network/dns/dnsserver.c): it answers
  every standard query with its own address. \<open>dns_msg\<close> is the list of the 300 bytes of the local
  array, \<open>stack\<close> what the array holds before the query is copied into it. \<open>None\<close> is an access outside
  the array (or a failed assertion in \<open>dns_socket_bind\<close>). lwIP's answers are parameters.
\<close>

definition MAX_DNS_MSG_SIZE :: nat where "MAX_DNS_MSG_SIZE = 300"

definition dns_header_size :: nat where "dns_header_size = 12"

definition ENOMEM :: int where "ENOMEM = 12"

record dns_server =
  ip :: "u8 list"
  udp :: bool

subsection \<open>Sockets\<close>

definition dns_socket_new_dgram :: "bool \<Rightarrow> int \<times> bool" where
  "dns_socket_new_dgram created = (if created then (0, True) else (- ENOMEM, False))"

definition dns_socket_free :: "bool \<Rightarrow> bool" where
  "dns_socket_free u = (if u then False else u)"

definition dns_socket_bind :: "int \<Rightarrow> int option" where
  "dns_socket_bind err = (if err \<noteq> 0 then None else Some err)"

definition dns_socket_sendto :: "bool \<Rightarrow> int \<Rightarrow> u8 list \<Rightarrow> int \<times> u8 list option" where
  "dns_socket_sendto alloc err buf =
     (let len = (if length buf > 0xffff then 0xffff else length buf)
      in if \<not> alloc then (- ENOMEM, None)
         else (if err \<noteq> 0 then err else int len, Some (take len buf)))"

definition dns_server_init :: "bool \<Rightarrow> int \<Rightarrow> u8 list \<Rightarrow> dns_server \<Rightarrow> dns_server option" where
  "dns_server_init created err i d =
     (let (status, u) = dns_socket_new_dgram created; d = d\<lparr>udp := u\<rparr>
      in if status \<noteq> 0 then Some d
         else (case dns_socket_bind err of None \<Rightarrow> None
               | Some e \<Rightarrow> Some (if e \<noteq> 0 then d else d\<lparr>ip := i\<rparr>)))"

definition dns_server_deinit :: "dns_server \<Rightarrow> dns_server" where
  "dns_server_deinit d = d\<lparr>udp := dns_socket_free (udp d)\<rparr>"

subsection \<open>Queries\<close>

definition be16 :: "u8 list \<Rightarrow> nat \<Rightarrow> u16" where
  "be16 msg i = word16 (msg ! i) (msg ! (i + 1))"

text \<open>
  The walk over the labels of the question: \<open>Some None\<close> when a label is too long, otherwise where
  the pointer stands afterwards, which may be behind \<open>end\<close>.
\<close>

function skip_name :: "u8 list \<Rightarrow> nat \<Rightarrow> nat \<Rightarrow> nat option option" where
  "skip_name msg stop q =
     (if q < stop
      then (case rd msg q of None \<Rightarrow> None
            | Some label_len \<Rightarrow>
                if label_len = 0 then Some (Some (q + 1))
                else if unat label_len > 63 then Some None
                else skip_name msg stop (q + 1 + unat label_len))
      else Some (Some q))"
  by pat_completeness auto
termination by (relation "measure (\<lambda>(msg, stop, q). stop - q)") auto

declare skip_name.simps [simp del]

definition dns_answer :: "u8 list \<Rightarrow> u8 list" where
  "dns_answer addr = [0xc0, word_of_nat dns_header_size, 0, 1, 0, 1, 0, 0, 0, 60, 0, 4] @ addr"

text \<open>Storing \<open>bs\<close> at offset \<open>q\<close>.\<close>

definition poke :: "nat \<Rightarrow> u8 list \<Rightarrow> u8 list \<Rightarrow> u8 list option" where
  "poke q bs msg =
     (if q + length bs \<le> length msg then Some (take q msg @ bs @ drop (q + length bs) msg) else None)"

text \<open>Writing the answer behind the question, which ends at \<open>q\<close>, and the new header: the reply that is sent.\<close>

definition dns_reply :: "u8 list \<Rightarrow> nat \<Rightarrow> u8 list \<Rightarrow> u8 list option" where
  "dns_reply msg q addr =
     Option.bind (poke q (dns_answer addr) msg) (\<lambda>m.
     Option.bind (poke 2 [0x84, 0x80, 0, 1, 0, 1, 0, 0, 0, 0] m) (\<lambda>m.
     Some (take (q + length (dns_answer addr)) m)))"

definition dns_server_process :: "u8 list \<Rightarrow> u8 list \<Rightarrow> dns_server \<Rightarrow> u8 list option option" where
  "dns_server_process stack p d =
     (let dns_msg = fill MAX_DNS_MSG_SIZE p stack;
          msg_len = min (length p) MAX_DNS_MSG_SIZE
      in if msg_len < dns_header_size then Some None
         else let flags = be16 dns_msg 2;
                  question_count = be16 dns_msg 4
         in if drop_bit 15 flags AND 0x1 \<noteq> 0 then Some None
            else if drop_bit 11 flags AND 0xf \<noteq> 0 then Some None
            else if question_count < 1 then Some None
            else (case skip_name dns_msg msg_len dns_header_size of None \<Rightarrow> None
                  | Some None \<Rightarrow> Some None
                  | Some (Some q) \<Rightarrow>
                      if q - dns_header_size > 255 then Some None
                      else map_option Some (dns_reply dns_msg (q + 4) (ip d))))"

subsection \<open>Lemmas\<close>

lemma skip_name_defined:
  "stop \<le> length msg \<Longrightarrow> skip_name msg stop q \<noteq> None"
proof (induction msg stop q rule: skip_name.induct)
  case (1 msg stop q)
  then show ?case by (subst skip_name.simps) (auto simp: rd_def)
qed

lemma skip_name_ge: "skip_name msg stop q = Some (Some r) \<Longrightarrow> q \<le> r"
proof (induction msg stop q arbitrary: r rule: skip_name.induct)
  case (1 msg stop q)
  from 1(2) show ?case
    by (subst (asm) skip_name.simps) (use 1(1) in \<open>fastforce split: if_splits option.splits dest: add_leD1\<close>)
qed

text \<open>The encoding of a name: each label behind its length byte.\<close>

definition labels :: "u8 list list \<Rightarrow> u8 list" where
  "labels ls = concat (map (\<lambda>l. word_of_nat (length l) # l) ls)"

lemma skip_name_labels:
  assumes "\<forall>l \<in> set ls. 0 < length l \<and> length l \<le> 63"
    and "drop q msg = labels ls @ 0 # rest" "q + length (labels ls) < stop"
  shows "skip_name msg stop q = Some (Some (q + length (labels ls) + 1))"
  using assms
proof (induction ls arbitrary: q)
  case Nil
  then have "q < length msg" "msg ! q = 0"
    by (simp_all add: labels_def) (metis drop_eq_Nil list.distinct(1) not_less, metis nth_via_drop)
  then have "rd msg q = Some 0" by (simp add: rd_def)
  with Nil(3) show ?case by (subst skip_name.simps) (simp add: labels_def)
next
  case (Cons l ls)
  have lab: "labels (l # ls) = word_of_nat (length l) # l @ labels ls" by (simp add: labels_def)
  with Cons(3) have d: "drop q msg = word_of_nat (length l) # l @ labels ls @ 0 # rest" by simp
  then have r: "rd msg q = Some (word_of_nat (length l))"
    by (metis drop_eq_Nil list.distinct(1) not_less nth_via_drop rd_def)
  have u: "unat (word_of_nat (length l) :: u8) = length l" using Cons(2) by (simp add: unat_word_of_nat)
  then have n: "(word_of_nat (length l) :: u8) \<noteq> 0" using Cons(2) by (metis list.set_intros(1) less_irrefl unat_0)
  have "drop (q + 1 + length l) msg = drop (1 + length l) (drop q msg)" by (simp add: add.commute)
  also have "\<dots> = labels ls @ 0 # rest" by (simp add: d)
  finally have "skip_name msg stop (q + 1 + length l) = Some (Some (q + 1 + length l + length (labels ls) + 1))"
    using Cons lab by (intro Cons.IH) auto
  with r u n Cons(2,4) lab show ?case by (subst skip_name.simps) auto
qed


lemma take_prefix: "length xs = n \<Longrightarrow> take n (xs @ ys) = xs"
  by simp

text \<open>A query that passes the header tests, up to the walk over its name.\<close>

lemma process_query:
  assumes "length stack = 300" "12 \<le> length p"
    and h: "drop_bit 15 (be16 (fill 300 p stack) 2) AND 0x1 = 0" "drop_bit 11 (be16 (fill 300 p stack) 2) AND 0xf = 0"
      "\<not> be16 (fill 300 p stack) 4 < 1"
    and q: "skip_name (fill 300 p stack) (min (length p) 300) 12 = Some (Some q)" "q \<le> 267" "length (ip d) = 4"
  shows "dns_server_process stack p d = Some (Some
    (take 2 (fill 300 p stack) @ [0x84, 0x80, 0, 1, 0, 1, 0, 0, 0, 0] @ take (q - 8) (drop 12 (fill 300 p stack)) @ dns_answer (ip d)))"
proof -
  let ?m = "fill 300 p stack" and ?a = "dns_answer (ip d)"
  let ?A = "take 2 ?m @ [0x84, 0x80, 0, 1, 0, 1, 0, 0, 0, 0] @ take (q - 8) (drop 12 ?m) @ ?a"
  have l: "length ?m = 300" "length ?a = 16" using assms by (simp_all add: dns_answer_def)
  have q12: "12 \<le> q" using skip_name_ge [OF q(1)] .
  then obtain n where n: "q = 12 + n" using le_Suc_ex by blast
  have p1: "poke (q + 4) ?a ?m = Some (take (q + 4) ?m @ ?a @ drop (q + 20) ?m)"
    using l q(2) by (simp add: poke_def add.commute)
  have "drop 12 (take (q + 4) ?m) = take (q - 8) (drop 12 ?m)"
    by (simp add: n drop_take)
  then have p2: "poke 2 [0x84, 0x80, 0, 1, 0, 1, 0, 0, 0, 0] (take (q + 4) ?m @ ?a @ drop (q + 20) ?m) =
      Some (?A @ drop (q + 20) ?m)"
    using l q(2) q12 by (simp add: poke_def)
  have "length ?A = q + 20" using l q(2) n by simp
  then have "take (q + 20) (?A @ drop (q + 20) ?m) = ?A" by (rule take_prefix)
  then have "dns_reply ?m (q + 4) (ip d) = Some ?A"
    unfolding dns_reply_def p1 bind.bind_lunit p2 l(2) by (simp only: add.assoc) simp
  then show ?thesis
    using h q(1,2) assms(2) by (auto simp: dns_server_process_def Let_def MAX_DNS_MSG_SIZE_def dns_header_size_def)
qed

subsection \<open>Properties\<close>

definition dns_demo :: dns_server where "dns_demo = \<lparr>ip = [192, 168, 250, 1], udp = True\<rparr>"

text \<open>C30. Whatever bytes a datagram holds, the server reads and writes only inside its 300-byte array, and a reply is between
  32 and 287 bytes long.\<close>

theorem DNS_stays_in_bounds:
  assumes "length stack = 300" and "length (ip d) = 4"
  shows "\<exists>r. dns_server_process stack p d = Some r \<and> (\<forall>m. r = Some m \<longrightarrow> 32 \<le> length m \<and> length m \<le> 287)"
proof (cases "dns_server_process stack p d = Some None")
  case False
  let ?m = "fill 300 p stack"
  have "skip_name ?m (min (length p) 300) 12 \<noteq> None"
    by (rule skip_name_defined) (simp add: assms(1))
  with False obtain q where h: "12 \<le> length p" "drop_bit 15 (be16 ?m 2) AND 0x1 = 0" "drop_bit 11 (be16 ?m 2) AND 0xf = 0" "\<not> be16 ?m 4 < 1"
    and q: "skip_name ?m (min (length p) 300) 12 = Some (Some q)" "q \<le> 267"
    unfolding dns_server_process_def Let_def MAX_DNS_MSG_SIZE_def dns_header_size_def
    by (auto split: if_splits option.splits)
  have "12 \<le> q" using skip_name_ge [OF q(1)] .
  with process_query [OF assms(1) h q assms(2)] q(2) assms show ?thesis by (simp add: dns_answer_def)
qed simp

theorem DNS_stays_in_bounds_witness:
  "\<exists>r. dns_server_process (replicate 300 0) (replicate 500 63) dns_demo = Some r"
  using DNS_stays_in_bounds [of "replicate 300 0" dns_demo "replicate 500 63"] by (auto simp: dns_demo_def)

text \<open>C29. A well-formed standard query is answered with its own identifier and question, flagged as an authoritative response
  with one answer: a pointer to the name, type A, class IN, 60 seconds, and the server's address.\<close>

theorem DNS_answers_query:
  assumes "length stack = 300" and "length (ip d) = 4"
    and "drop_bit 15 (word16 f1 f2) AND 0x1 = 0" "drop_bit 11 (word16 f1 f2) AND 0xf = 0" "\<not> word16 q1 q2 < 1"
    and "length counts = 6" "length kind = 4"
    and "\<forall>l \<in> set ls. 0 < length l \<and> length l \<le> 63" "length (labels ls) < 255"
  shows "dns_server_process stack ([i1, i2, f1, f2, q1, q2] @ counts @ labels ls @ [0] @ kind @ rest) d =
    Some (Some ([i1, i2, 0x84, 0x80, 0, 1, 0, 1, 0, 0, 0, 0] @ labels ls @ [0] @ kind
      @ [0xc0, 12, 0, 1, 0, 1, 0, 0, 0, 60, 0, 4] @ ip d))"
proof -
  let ?q = "labels ls @ [0] @ kind"
  let ?p = "[i1, i2, f1, f2, q1, q2] @ counts @ ?q @ rest"
  let ?m = "fill 300 ?p stack"
  define n where "n = length (labels ls)"
  have n: "n < 255" using assms(9) by (simp add: n_def)
  define A where "A = [i1, i2, f1, f2, q1, q2] @ counts @ ?q"
  have A: "length A = 17 + n" using assms(6,7) by (simp add: A_def n_def)
  have p: "?p = A @ rest" by (simp add: A_def)
  have "take 300 (A @ rest) = A @ take (283 - n) rest" using A n by simp
  then have "?m = A @ take (283 - n) rest @ drop (17 + n + length (take (283 - n) rest)) stack"
    unfolding p fill_def Let_def using assms(1) A by simp
  then obtain tail where m: "?m = [i1, i2, f1, f2, q1, q2] @ counts @ ?q @ tail"
    unfolding A_def by (simp only: append_assoc)
  have "drop 12 ?m = labels ls @ 0 # kind @ tail" unfolding m using assms(6) by simp
  moreover have "12 + n < min (length ?p) 300" using n assms(6) by (simp add: n_def)
  ultimately have s: "skip_name ?m (min (length ?p) 300) 12 = Some (Some (12 + n + 1))"
    using skip_name_labels [OF assms(8), of 12 ?m "kind @ tail"] by (simp add: n_def)
  have b: "be16 ?m 2 = word16 f1 f2" "be16 ?m 4 = word16 q1 q2"
    unfolding m be16_def by simp_all
  have "take (12 + n + 1 - 8) (drop 12 ?m) = ?q"
    unfolding m using assms(6,7) by (simp add: n_def)
  moreover have "12 + n + 1 \<le> 267" using n by simp
  moreover have "12 \<le> length ?p" using assms(6) by simp
  moreover have "take 2 ?m = [i1, i2]" unfolding m by simp
  ultimately show ?thesis
    using process_query [OF assms(1), of ?p "12 + n + 1" d] s b assms(2-5)
    by (simp add: dns_answer_def dns_header_size_def)
qed

theorem DNS_answers_query_witness:
  "dns_server_process (replicate 300 0) [0xAB, 0xCD, 1, 0, 0, 1, 0, 0, 0, 0, 0, 0, 2, 104, 107, 0, 0, 1, 0, 1] dns_demo =
     Some (Some [0xAB, 0xCD, 0x84, 0x80, 0, 1, 0, 1, 0, 0, 0, 0, 2, 104, 107, 0, 0, 1, 0, 1,
       0xc0, 12, 0, 1, 0, 1, 0, 0, 0, 60, 0, 4, 192, 168, 250, 1])"
proof -
  have f: "drop_bit 15 (word16 1 0) AND 0x1 = 0" "drop_bit 11 (word16 1 0) AND 0xf = 0" "\<not> word16 0 1 < 1" by code_simp+
  from DNS_answers_query [OF _ _ f, of "replicate 300 0" dns_demo "replicate 6 0" "[0, 1, 0, 1]" "[[104, 107]]" "0xAB" "0xCD" "[]"]
  show ?thesis by (simp add: dns_demo_def labels_def numeral_eq_Suc)
qed

text \<open>A query that is cut off inside a label is answered with bytes of the stack: of a 13-byte query whose last byte
  announces a label of \<open>n\<close> bytes, the reply carries \<open>n + 4\<close> bytes that were never received.\<close>

theorem DNS_leaks_stack:
  assumes "length stack = 300" and "length (ip d) = 4" and "0 < n" "n \<le> 63"
  shows "\<exists>m. dns_server_process stack ([0xAB, 0xCD, 1, 0, 0, 1, 0, 0, 0, 0, 0, 0] @ [word_of_nat n]) d = Some (Some m)
    \<and> length m = 33 + n \<and> (\<forall>i. 13 \<le> i \<longrightarrow> i < 17 + n \<longrightarrow> m ! i = stack ! i)"
proof -
  let ?h = "[0xAB, 0xCD, 1, 0, 0, 1, 0, 0, 0, 0, 0, 0]" and ?n = "word_of_nat n :: u8"
  let ?m = "fill 300 (?h @ [?n]) stack"
  have m: "?m = ?h @ [?n] @ drop 13 stack" using assms(1) by (simp add: fill_def Let_def eval_nat_numeral)
  have u: "unat ?n = n" using assms(4) by (simp add: unat_word_of_nat)
  then have "?n \<noteq> 0" using assms(3) by (metis less_irrefl unat_0)
  moreover have "rd ?m 12 = Some ?n" unfolding m using assms(1) by (simp add: rd_def)
  ultimately have s: "skip_name ?m (min (length (?h @ [?n])) 300) 12 = Some (Some (13 + n))"
    using u assms(4) by (subst skip_name.simps, simp) (subst skip_name.simps, simp)
  have b: "be16 ?m 2 = word16 1 0" "be16 ?m 4 = word16 0 1" unfolding m be16_def by simp_all
  have f: "drop_bit 15 (word16 1 0) AND 0x1 = 0" "drop_bit 11 (word16 1 0) AND 0xf = 0" "\<not> word16 0 1 < 1" by code_simp+
  have "dns_server_process stack (?h @ [?n]) d =
    Some (Some (take 2 ?m @ [0x84, 0x80, 0, 1, 0, 1, 0, 0, 0, 0] @ take (5 + n) (drop 12 ?m) @ dns_answer (ip d)))"
    using process_query [OF assms(1), of "?h @ [?n]" "13 + n" d] s b f assms(2,4) by simp
  moreover have "(take 2 ?m @ [0x84, 0x80, 0, 1, 0, 1, 0, 0, 0, 0] @ take (5 + n) (drop 12 ?m) @ dns_answer (ip d)) ! i = stack ! i"
    if "13 \<le> i" "i < 17 + n" for i
  proof -
    have le: "i - 12 < 5 + n" using that by linarith
    have "length (take 2 ?m @ [0x84, 0x80, 0, 1, 0, 1, 0, 0, 0, 0 :: u8]) = 12" using assms(1) by simp
    then have "(take 2 ?m @ [0x84, 0x80, 0, 1, 0, 1, 0, 0, 0, 0] @ take (5 + n) (drop 12 ?m) @ dns_answer (ip d)) ! i = take (5 + n) (drop 12 ?m) ! (i - 12)"
      using that assms(1,4) le by (simp only: append_assoc [symmetric]) (simp add: nth_append)
    also have "\<dots> = ?m ! i" using that assms(1) by (simp add: add.commute)
    also have "\<dots> = stack ! i" using that assms(1,4) by (simp add: nth_fill)
    finally show ?thesis .
  qed
  ultimately show ?thesis using assms(1,2,4) by (auto simp: dns_answer_def)
qed

theorem DNS_leaks_stack_witness:
  "\<exists>m. dns_server_process (replicate 300 0x5A) ([0xAB, 0xCD, 1, 0, 0, 1, 0, 0, 0, 0, 0, 0] @ [63]) dns_demo = Some (Some m)
     \<and> m ! 40 = 0x5A"
proof -
  have "replicate 300 0x5A ! 40 = (0x5A :: u8)" by (simp add: nth_replicate)
  then show ?thesis
    using DNS_leaks_stack [of "replicate 300 0x5A" dns_demo 63] by (force simp: dns_demo_def)
qed

end
