(* ===== verification/Font.thy ===== *)
theory Font
  imports SSD1327
begin

text \<open>
  The 5 by 7 font (include/display/gfx/font_5_7.h), five column bytes for each of the characters 32 to
  126, and what drawing text with it paints on the display: exactly the set bits of the glyphs.
\<close>

definition FONT_5x7 :: "u8 list" where
  "FONT_5x7 =
    [0x00, 0x00, 0x00, 0x00, 0x00,
     0x00, 0x00, 0x5F, 0x00, 0x00,
     0x00, 0x07, 0x00, 0x07, 0x00,
     0x14, 0x7F, 0x14, 0x7F, 0x14,
     0x24, 0x2A, 0x7F, 0x2A, 0x12,
     0x23, 0x13, 0x08, 0x64, 0x62,
     0x36, 0x49, 0x55, 0x22, 0x50,
     0x00, 0x05, 0x03, 0x00, 0x00,
     0x00, 0x1C, 0x22, 0x41, 0x00,
     0x00, 0x41, 0x22, 0x1C, 0x00,
     0x14, 0x08, 0x3E, 0x08, 0x14,
     0x08, 0x08, 0x3E, 0x08, 0x08,
     0x00, 0x50, 0x30, 0x00, 0x00,
     0x08, 0x08, 0x08, 0x08, 0x08,
     0x00, 0x60, 0x60, 0x00, 0x00,
     0x20, 0x10, 0x08, 0x04, 0x02,
     0x3E, 0x51, 0x49, 0x45, 0x3E,
     0x00, 0x42, 0x7F, 0x40, 0x00,
     0x42, 0x61, 0x51, 0x49, 0x46,
     0x21, 0x41, 0x45, 0x4B, 0x31,
     0x18, 0x14, 0x12, 0x7F, 0x10,
     0x27, 0x45, 0x45, 0x45, 0x39,
     0x3C, 0x4A, 0x49, 0x49, 0x30,
     0x01, 0x71, 0x09, 0x05, 0x03,
     0x36, 0x49, 0x49, 0x49, 0x36,
     0x06, 0x49, 0x49, 0x29, 0x1E,
     0x00, 0x36, 0x36, 0x00, 0x00,
     0x00, 0x56, 0x36, 0x00, 0x00,
     0x08, 0x14, 0x22, 0x41, 0x00,
     0x14, 0x14, 0x14, 0x14, 0x14,
     0x00, 0x41, 0x22, 0x14, 0x08,
     0x02, 0x01, 0x51, 0x09, 0x06,
     0x32, 0x49, 0x79, 0x41, 0x3E,
     0x7E, 0x11, 0x11, 0x11, 0x7E,
     0x7F, 0x49, 0x49, 0x49, 0x36,
     0x3E, 0x41, 0x41, 0x41, 0x22,
     0x7F, 0x41, 0x41, 0x22, 0x1C,
     0x7F, 0x49, 0x49, 0x49, 0x41,
     0x7F, 0x09, 0x09, 0x09, 0x01,
     0x3E, 0x41, 0x49, 0x49, 0x7A,
     0x7F, 0x08, 0x08, 0x08, 0x7F,
     0x00, 0x41, 0x7F, 0x41, 0x00,
     0x20, 0x40, 0x41, 0x3F, 0x01,
     0x7F, 0x08, 0x14, 0x22, 0x41,
     0x7F, 0x40, 0x40, 0x40, 0x40,
     0x7F, 0x02, 0x0C, 0x02, 0x7F,
     0x7F, 0x04, 0x08, 0x10, 0x7F,
     0x3E, 0x41, 0x41, 0x41, 0x3E,
     0x7F, 0x09, 0x09, 0x09, 0x06,
     0x3E, 0x41, 0x51, 0x21, 0x5E,
     0x7F, 0x09, 0x19, 0x29, 0x46,
     0x46, 0x49, 0x49, 0x49, 0x31,
     0x01, 0x01, 0x7F, 0x01, 0x01,
     0x3F, 0x40, 0x40, 0x40, 0x3F,
     0x1F, 0x20, 0x40, 0x20, 0x1F,
     0x3F, 0x40, 0x38, 0x40, 0x3F,
     0x63, 0x14, 0x08, 0x14, 0x63,
     0x07, 0x08, 0x70, 0x08, 0x07,
     0x61, 0x51, 0x49, 0x45, 0x43,
     0x00, 0x7F, 0x41, 0x41, 0x00,
     0x02, 0x04, 0x08, 0x10, 0x20,
     0x00, 0x41, 0x41, 0x7F, 0x00,
     0x04, 0x02, 0x01, 0x02, 0x04,
     0x40, 0x40, 0x40, 0x40, 0x40,
     0x00, 0x01, 0x02, 0x04, 0x00,
     0x20, 0x54, 0x54, 0x54, 0x78,
     0x7F, 0x48, 0x44, 0x44, 0x38,
     0x38, 0x44, 0x44, 0x44, 0x20,
     0x38, 0x44, 0x44, 0x48, 0x7F,
     0x38, 0x54, 0x54, 0x54, 0x18,
     0x08, 0x7E, 0x09, 0x01, 0x02,
     0x0C, 0x52, 0x52, 0x52, 0x3E,
     0x7F, 0x08, 0x04, 0x04, 0x78,
     0x00, 0x44, 0x7D, 0x40, 0x00,
     0x20, 0x40, 0x44, 0x3D, 0x00,
     0x7F, 0x10, 0x28, 0x44, 0x00,
     0x00, 0x41, 0x7F, 0x40, 0x00,
     0x7C, 0x04, 0x18, 0x04, 0x78,
     0x7C, 0x08, 0x04, 0x04, 0x78,
     0x38, 0x44, 0x44, 0x44, 0x38,
     0x7C, 0x14, 0x14, 0x14, 0x08,
     0x08, 0x14, 0x14, 0x18, 0x7C,
     0x7C, 0x08, 0x04, 0x04, 0x08,
     0x48, 0x54, 0x54, 0x54, 0x20,
     0x04, 0x3F, 0x44, 0x40, 0x20,
     0x3C, 0x40, 0x40, 0x20, 0x7C,
     0x1C, 0x20, 0x40, 0x20, 0x1C,
     0x3C, 0x40, 0x30, 0x40, 0x3C,
     0x44, 0x28, 0x10, 0x28, 0x44,
     0x0C, 0x50, 0x50, 0x50, 0x3C,
     0x44, 0x64, 0x54, 0x4C, 0x44,
     0x00, 0x08, 0x36, 0x41, 0x00,
     0x00, 0x00, 0x7F, 0x00, 0x00,
     0x00, 0x41, 0x36, 0x08, 0x00,
     0x02, 0x01, 0x02, 0x01, 0x00]"

text \<open>The column byte \<open>col\<close> of the glyph of a printable character.\<close>

definition glyph :: "u8 \<Rightarrow> nat \<Rightarrow> u8" where
  "glyph c col = FONT_5x7 ! ((unat c - 32) * 5 + col)"

definition printable_char :: "u8 \<Rightarrow> bool" where
  "printable_char c \<longleftrightarrow> 32 \<le> c \<and> c \<le> 126"

lemma font_length: "length FONT_5x7 = 475"
  by (simp add: FONT_5x7_def)

text \<open>No character the test lets through reads outside the table.\<close>

lemma glyph_in_font:
  assumes "printable_char c" "col < 5"
  shows "(unat c - 32) * 5 + col < length FONT_5x7"
proof -
  have "32 \<le> unat c" "unat c \<le> 126" using assms(1) by (simp_all add: printable_char_def word_le_nat_alt)
  then show ?thesis using assms(2) unfolding font_length by linarith
qed

subsection \<open>Glyphs as point lists\<close>

definition glyph_points :: "u8 \<Rightarrow> u8 \<Rightarrow> u8 \<Rightarrow> (u8 \<times> u8) list" where
  "glyph_points x y c = concat (map (\<lambda>col. map (\<lambda>row. (x + word_of_nat col, y + word_of_nat row))
     (filter (\<lambda>row. drop_bit row (glyph c col) AND 1 \<noteq> 0) [0..<7])) [0..<5])"

lemma fold_if: "fold (\<lambda>r g. if P r then q r g else g) rs = fold q (filter P rs)"
  by (rule ext, induct rs rule: rev_induct) simp_all

lemma DrawChar_plot:
  assumes "printable_char c"
  shows "SSD1327_DrawChar FONT_5x7 x y c color 1 g = plot SSD1327_DrawPixel color (glyph_points x y c) (g\<lparr>textSize := 1\<rparr>)"
proof -
  have p: "\<not> (c < 32 \<or> 126 < c)" using assms by (auto simp: printable_char_def)
  have "(if 1 < (1 :: u8) then 1 else 1) = (1 :: u8)" by simp
  then show ?thesis unfolding SSD1327_DrawChar_def if_not_P [OF p] Let_def
    by (simp only: simp_thms if_True fold_if glyph_points_def plot_concat fold_map o_def glyph_def) (simp only: plot_def fold_map o_def fst_conv snd_conv)
qed

lemma glyph_points_set:
  "(a, b) \<in> set (glyph_points x y c) \<longleftrightarrow>
    (\<exists>col < 5. \<exists>row < 7. a = x + word_of_nat col \<and> b = y + word_of_nat row \<and> drop_bit row (glyph c col) AND 1 \<noteq> 0)"
  by (fastforce simp: glyph_points_def simp del: upt_rec_numeral)


lemma DrawPixel_cursor:
  "cursorX (SSD1327_DrawPixel x y c g) = cursorX g \<and> cursorY (SSD1327_DrawPixel x y c g) = cursorY g"
  by (simp add: SSD1327_DrawPixel_def Let_def)

lemma plot_cursor:
  "cursorX (plot SSD1327_DrawPixel c ps g) = cursorX g \<and> cursorY (plot SSD1327_DrawPixel c ps g) = cursorY g"
  by (induction ps arbitrary: g) (simp_all add: DrawPixel_cursor)

lemma ssd_get_frame: "frameBuffer g = frameBuffer h \<Longrightarrow> ssd_get a b g = ssd_get a b h"
  by (simp add: ssd_get_def)

lemma ssd_ok_frame: "frameBuffer g = frameBuffer h \<Longrightarrow> ssd_ok g = ssd_ok h"
  by (simp add: ssd_ok_def)

text \<open>One character of a string.\<close>

definition put_char :: "u8 \<Rightarrow> u8 \<Rightarrow> gfx \<Rightarrow> gfx" where
  "put_char color c g =
     (let g = SSD1327_DrawChar FONT_5x7 (cursorX g) (cursorY g) c color 1 g in g\<lparr>cursorX := cursorX g + (5 * 1 + 1)\<rparr>)"

lemma put_char:
  assumes "printable_char c" "ssd_ok g" "color < 16"
  shows "ssd_ok (put_char color c g)" "cursorX (put_char color c g) = cursorX g + 6" "cursorY (put_char color c g) = cursorY g"
    and "a < 128 \<Longrightarrow> b < 128 \<Longrightarrow>
      ssd_get a b (put_char color c g) = (if (a, b) \<in> set (glyph_points (cursorX g) (cursorY g) c) then color else ssd_get a b g)"
proof -
  let ?p = "plot SSD1327_DrawPixel color (glyph_points (cursorX g) (cursorY g) c) (g\<lparr>textSize := 1\<rparr>)"
  have e: "put_char color c g = ?p\<lparr>cursorX := cursorX ?p + (5 * 1 + 1)\<rparr>"
    by (simp only: put_char_def Let_def DrawChar_plot [OF assms(1)])
  have ok: "ssd_ok (g\<lparr>textSize := 1\<rparr>)" using assms(2) by (simp add: ssd_ok_def)
  show "ssd_ok (put_char color c g)" using ssd1327.plot_ok [OF ok, of color "glyph_points (cursorX g) (cursorY g) c"]
    by (simp add: e ssd_ok_def)
  show "cursorX (put_char color c g) = cursorX g + 6" "cursorY (put_char color c g) = cursorY g"
    by (simp_all add: e plot_cursor)
  show "ssd_get a b (put_char color c g) = (if (a, b) \<in> set (glyph_points (cursorX g) (cursorY g) c) then color else ssd_get a b g)"
    if "a < 128" "b < 128"
    using ssd1327.get_plot [OF ok assms(3) that, of "glyph_points (cursorX g) (cursorY g) c"]
      ssd_get_frame [of "put_char color c g" ?p a b] ssd_get_frame [of "g\<lparr>textSize := 1\<rparr>" g a b]
    by (simp add: e)
qed

text \<open>The pixels of a text that starts with its top left corner at \<open>(x, y)\<close>.\<close>

definition text_pixel :: "u8 \<Rightarrow> u8 \<Rightarrow> u8 list \<Rightarrow> u8 \<Rightarrow> u8 \<Rightarrow> bool" where
  "text_pixel x y str a b \<longleftrightarrow>
     (\<exists>k < length str. \<exists>col < 5. \<exists>row < 7.
        unat a = unat x + 6 * k + col \<and> unat b = unat y + row \<and> bit (glyph (str ! k) col) row)"

lemma bit_test: "drop_bit row (w :: u8) AND 1 \<noteq> 0 \<longleftrightarrow> bit w row"
  using and_exp_eq_0_iff_not_bit [of "drop_bit row w" 0] by (simp add: bit_drop_bit_eq)

lemma glyph_points_pixel:
  assumes "unat x + 5 \<le> 256" "unat y + 7 \<le> 256"
  shows "(a, b) \<in> set (glyph_points x y c) \<longleftrightarrow>
    (\<exists>col < 5. \<exists>row < 7. unat a = unat x + col \<and> unat b = unat y + row \<and> bit (glyph c col) row)"
proof -
  have off: "p = z + word_of_nat k \<longleftrightarrow> unat p = unat z + k" if "unat z + k < 256" for p z :: u8 and k
    using unat_add_of_nat_u8 [OF that] by (simp only: word_unat_eq_iff)
  have "a = x + word_of_nat col \<longleftrightarrow> unat a = unat x + col" if "col < 5" for col
    using off [of x col a] that assms(1) by simp
  moreover have "b = y + word_of_nat row \<longleftrightarrow> unat b = unat y + row" if "row < 7" for row
    using off [of y row b] that assms(2) by simp
  ultimately show ?thesis unfolding glyph_points_set bit_test by blast
qed

lemma text_pixel_Cons:
  assumes "unat x + 6 < 256" "unat y + 7 \<le> 256"
  shows "text_pixel x y (c # str) a b \<longleftrightarrow> (a, b) \<in> set (glyph_points x y c) \<or> text_pixel (x + 6) y str a b"
proof -
  have x: "unat (x + 6) = unat x + 6" using unat_add_of_nat_u8 [of x 6] assms(1) by simp
  have ex: "(\<exists>k < length (c # str). P k) \<longleftrightarrow> P 0 \<or> (\<exists>k < length str. P (Suc k))" for P :: "nat \<Rightarrow> bool"
    by (auto simp: less_Suc_eq_0_disj)
  have e: "unat x + 6 + 6 * k = unat x + 6 * Suc k" for k by simp
  show ?thesis unfolding text_pixel_def ex x e
    using glyph_points_pixel [of x y a b c] assms by simp
qed

subsection \<open>Property\<close>

lemma put_text:
  assumes "color < 16" "a < 128" "b < 128"
  shows "ssd_ok g \<Longrightarrow> \<forall>c \<in> set str. printable_char c \<Longrightarrow> unat (cursorX g) + 6 * length str < 256 \<Longrightarrow> unat (cursorY g) + 7 \<le> 256 \<Longrightarrow>
    ssd_get a b (fold (put_char color) str g) = (if text_pixel (cursorX g) (cursorY g) str a b then color else ssd_get a b g)"
proof (induction str arbitrary: g)
  case Nil
  then show ?case by (simp add: text_pixel_def)
next
  case (Cons c str)
  let ?g = "put_char color c g"
  have c: "printable_char c" using Cons.prems(2) by simp
  note p = put_char [OF c Cons.prems(1) assms(1)]
  have x: "unat (cursorX g) + 6 < 256" using Cons.prems(3) by simp
  then have "unat (cursorX ?g) = unat (cursorX g) + 6" using unat_add_of_nat_u8 [of "cursorX g" 6] p(2) by simp
  then have "ssd_get a b (fold (put_char color) str ?g)
      = (if text_pixel (cursorX ?g) (cursorY ?g) str a b then color else ssd_get a b ?g)"
    using Cons.prems p by (intro Cons.IH) simp_all
  then show ?case using text_pixel_Cons [OF x Cons.prems(4), of c str a b] p(2,3) p(4) [OF assms(2,3)] by auto
qed

text \<open>C31. Drawing a text of printable characters at size 1 paints exactly the set bits of its glyphs, six columns apart, in the
  given grey level and no other pixel of the screen; what lies past the edge of the screen is cut off.\<close>
theorem FONT_DrawString_exact:
  assumes "ssd_ok g" "color < 16" "\<forall>c \<in> set str. printable_char c"
    and "unat x + 6 * length str < 256" "unat y + 7 \<le> 256" "a < 128" "b < 128"
  shows "ssd_get a b (SSD1327_DrawString FONT_5x7 x y str color 1 g) = (if text_pixel x y str a b then color else ssd_get a b g)"
proof -
  let ?g = "g\<lparr>cursorX := x, cursorY := y, textSize := 1\<rparr>"
  have "SSD1327_DrawString FONT_5x7 x y str color 1 g = fold (put_char color) str ?g"
    unfolding SSD1327_DrawString_def put_char_def Let_def ..
  moreover have "ssd_ok ?g" using assms(1) by (simp add: ssd_ok_def)
  ultimately show ?thesis using put_text [OF assms(2,6,7), of ?g str] assms(3,4,5) ssd_get_frame [of ?g g a b] by simp
qed

theorem FONT_DrawString_exact_witness:
  "ssd_get 10 11 (SSD1327_DrawString FONT_5x7 10 10 [65, 66] 9 1 blank) = 9"
proof -
  have "text_pixel 10 10 [65, 66] 10 11"
    unfolding text_pixel_def
    by (rule exI [of _ 0], rule conjI, simp, rule exI [of _ 0], rule conjI, simp, rule exI [of _ 1]) (simp add: glyph_def FONT_5x7_def bit_simps)
  then show ?thesis
    using FONT_DrawString_exact [OF blank_ok, of 9 "[65, 66]" 10 10 10 11] by (simp add: printable_char_def)
qed

end
