(* ===== verification/OneWireDma.thy ===== *)
theory OneWireDma
  imports Dma
begin

text \<open>
  The 1-Wire bus with DMA (src/comm/onewire/onewire_dma.c), the variant that \<open>hkOW_USE_DMA\<close> selects.
  Two channels move bytes between memory and the FIFOs of the state machine. A channel is what the SDK
  programs into it; a transfer that was started is the channel's setting at that moment.
\<close>

datatype place = Nowhere | Rx_Fifo | Tx_Fifo | Buffer | Dummy

record dma_channel =
  read_increment :: bool
  write_increment :: bool
  rx_paced :: bool
  read_addr :: place
  write_addr :: place
  trans_count :: nat

record ow_dma =
  rx_number :: u32
  tx_number :: u32
  rx_channel :: dma_channel
  tx_channel :: dma_channel
  started :: "dma_channel list"

text \<open>\<open>dma_channel_set_read_addr\<close>, \<open>.._write_addr\<close> and \<open>.._trans_count\<close>, the last argument being the trigger.\<close>

definition start_tx :: "bool \<Rightarrow> ow_dma \<Rightarrow> ow_dma" where
  "start_tx trigger d = (if trigger then d\<lparr>started := started d @ [tx_channel d]\<rparr> else d)"

definition start_rx :: "bool \<Rightarrow> ow_dma \<Rightarrow> ow_dma" where
  "start_rx trigger d = (if trigger then d\<lparr>started := started d @ [rx_channel d]\<rparr> else d)"

text \<open>Both channels are paced by the receive FIFO: \<open>pio_get_dreq(.., false)\<close> twice.\<close>

definition OneWire_DMA_Init :: "u32 \<Rightarrow> u32 \<Rightarrow> OneWire_Config \<Rightarrow> irq_state \<times> ow_dma \<Rightarrow> (irq_state \<times> ow_dma) \<times> irq_event list" where
  "OneWire_DMA_Init rxn txn config s =
     (let d = (snd s)\<lparr>
            rx_number := rxn,
            rx_channel := \<lparr>read_increment = False, write_increment = True, rx_paced = True, read_addr = Rx_Fifo, write_addr = Nowhere, trans_count = 0\<rparr>,
            tx_number := txn,
            tx_channel := \<lparr>read_increment = True, write_increment = False, rx_paced = True, read_addr = Nowhere, write_addr = Tx_Fifo, trans_count = 0\<rparr>\<rparr>;
          q = DMA_OneWire_TX_Register config txn (DMA_OneWire_RX_Register config rxn (fst s))
      in ((q, d), [Irq_Enable 1, Irq_Enable 1]))"

text \<open>\<open>claimed\<close> is compared with \<open>-1\<close> as in onewire.c.\<close>

definition OneWire_Init_dma ::
  "u8 \<Rightarrow> u32 \<Rightarrow> u32 \<Rightarrow> 'e ow \<Rightarrow> irq_state \<times> ow_dma \<Rightarrow> 'e ow \<times> (irq_state \<times> ow_dma) \<times> irq_event list" where
  "OneWire_Init_dma claimed rxn txn s d =
     (if int (unat claimed) = - 1 then (s, d, [])
      else let s = s\<lparr>trace := trace s @ [Program (bitMode (cfg s))]\<rparr>;
               (d, ev) = OneWire_DMA_Init rxn txn (cfg s) d
           in (set_status ONEW_INIT_SUCCESS s, d, ev))"

definition OneWire_Reset_dma :: "'e ow_env \<Rightarrow> 'e ow \<Rightarrow> bool \<times> 'e ow" where
  "OneWire_Reset_dma env s =
     (let (r, l) = line_reset env (line s)
      in (r AND 1 = 0, s\<lparr>line := l, trace := trace s @ [Reset]\<rparr>))"

definition OneWire_WriteByte_dma :: "'e ow_env \<Rightarrow> u32 \<Rightarrow> 'e ow \<Rightarrow> bool \<times> 'e ow" where
  "OneWire_WriteByte_dma env data s =
     (if busy s then (False, s)
      else let s = set_status ONEW_WRITE_IN_PROGRESS s;
               (r, s) = word_io env data s
           in (True, set_status ONEW_WRITE_SUCCESS s))"

text \<open>The length is passed as the trigger of the address write, so a write starts before its count is set.\<close>

definition OneWire_Write_dma :: "nat \<Rightarrow> 'e ow \<times> ow_dma \<Rightarrow> 'e ow \<times> ow_dma" where
  "OneWire_Write_dma len sd =
     (let (s, d) = sd
      in if status (cfg s) = ONEW_DMA_IN_PROGRESS then (s, d)
         else let d = start_tx (len \<noteq> 0) (d\<lparr>tx_channel := (tx_channel d)\<lparr>read_addr := Buffer\<rparr>\<rparr>);
                  d = start_tx True (d\<lparr>tx_channel := (tx_channel d)\<lparr>trans_count := len\<rparr>\<rparr>)
              in (set_status ONEW_DMA_IN_PROGRESS s, d))"

text \<open>The two calls that clear and set the increment change a local copy of a default setting, never the channel.\<close>

definition OneWire_Read_dma :: "nat \<Rightarrow> 'e ow \<times> ow_dma \<Rightarrow> 'e ow \<times> ow_dma" where
  "OneWire_Read_dma len sd =
     (let (s, d) = sd
      in if status (cfg s) = ONEW_DMA_IN_PROGRESS then (s, d)
         else let d = d\<lparr>rx_channel := (rx_channel d)\<lparr>write_addr := Buffer\<rparr>\<rparr>;
                  d = start_rx True (d\<lparr>rx_channel := (rx_channel d)\<lparr>trans_count := len\<rparr>\<rparr>);
                  d = d\<lparr>tx_channel := (tx_channel d)\<lparr>read_addr := Dummy\<rparr>\<rparr>;
                  d = start_tx True (d\<lparr>tx_channel := (tx_channel d)\<lparr>trans_count := len\<rparr>\<rparr>)
              in (set_status ONEW_DMA_IN_PROGRESS s, d))"

subsection \<open>Facts\<close>

text \<open>Reset and single bytes are as without DMA.\<close>

lemma OneWire_bytes_dma: "OneWire_Reset_dma = OneWire_Reset" "OneWire_WriteByte_dma = OneWire_WriteByte"
  by (intro ext, simp add: OneWire_Reset_dma_def OneWire_Reset_def OneWire_WriteByte_dma_def OneWire_WriteByte_def)+

text \<open>The bytes of memory a transfer reads, and the size of the objects they are read from.\<close>

definition bytes_read :: "dma_channel \<Rightarrow> nat" where
  "bytes_read c = (if read_increment c then trans_count c else min 1 (trans_count c))"

fun object_size :: "nat \<Rightarrow> place \<Rightarrow> nat" where
  "object_size len Buffer = len"
| "object_size len Dummy = 1"
| "object_size len _ = 1"

definition in_bounds :: "nat \<Rightarrow> dma_channel \<Rightarrow> bool" where
  "in_bounds len c \<longleftrightarrow> bytes_read c \<le> object_size len (read_addr c)"

text \<open>
  Every read of more than one byte sends the memory behind the one-byte constant it was meant to repeat, because the
  channel still increments its read address.
\<close>

theorem OWDMA_Read_overreads:
  assumes "OneWire_Init_dma claimed rxn txn s d = (s1, (q, d1), ev)" and "OneWire_Read_dma len (s1, d1) = (s2, d2)"
  shows "\<exists>c. started d2 = started d1 @ [(rx_channel d2), c] \<and> read_addr c = Dummy \<and> bytes_read c = len
    \<and> (1 < len \<longrightarrow> \<not> in_bounds len c) \<and> status (cfg s2) = ONEW_DMA_IN_PROGRESS"
  using assms uint_ge_0 [of claimed]
  by (auto simp: OneWire_Init_dma_def OneWire_DMA_Init_def OneWire_Read_dma_def Let_def start_tx_def start_rx_def set_status_def ONEW_codes
      in_bounds_def bytes_read_def split: if_splits)

text \<open>While a transfer is in progress further ones are refused, and the interrupt ends it.\<close>

theorem OWDMA_one_at_a_time:
  assumes "status (cfg s) = ONEW_DMA_IN_PROGRESS"
  shows "OneWire_Read_dma len (s, d) = (s, d) \<and> OneWire_Write_dma len (s, d) = (s, d)"
  using assms by (simp add: OneWire_Read_dma_def OneWire_Write_dma_def)

end
