(* ===== verification/Report.thy ===== *)
theory Report
  imports Pipeline Core
begin

text \<open>
  The display task over the logger: the lines it makes of a snapshot (src/display.c), through
  \<open>HDEBUG\<close> and the logger's two buffers (include/core/logger.h, src/core/logger.c).
\<close>

definition HDEBUG_lines :: "Sensors_DataPacket \<Rightarrow> string option list" where
  "HDEBUG_lines p = map (log_macro False LOG_DEBUG) (display_lines p)"

text \<open>The values a single-precision number can have.\<close>

definition f32_stored :: "f32 \<Rightarrow> bool" where
  "f32_stored x \<longleftrightarrow> \<bar>val x\<bar> < pow2 128"

lemma f32_of_stored: "f32_stored (f32_of r)"
  by (simp add: f32_stored_def f32_of_def Let_def)

lemma length_fmt_fixed:
  assumes "0 \<le> r" "r \<le> 10 ^ 39 - 1" "0 < p"
  shows "length (fmt_fixed p r) \<le> 40 + p"
proof -
  let ?n = "nat (rne (r * 10 ^ p))"
  have "r * 10 ^ p \<le> of_int ((10 ^ 39 - 1) * 10 ^ p)" using assms(2) by (simp add: mult_right_mono)
  then have "rne (r * 10 ^ p) \<le> (10 ^ 39 - 1) * 10 ^ p" by (rule rne_le)
  then have "?n \<le> nat ((10 ^ 39 - 1) * 10 ^ p)" by simp
  also have "\<dots> = (10 ^ 39 - 1) * 10 ^ p" by (simp add: nat_mult_distrib nat_power_eq)
  finally have "?n div 10 ^ p \<le> 10 ^ 39 - 1" using div_le_mono [of ?n "(10 ^ 39 - 1) * 10 ^ p" "10 ^ p"] by simp
  then have 1: "length (dec_digits (?n div 10 ^ p)) \<le> 39" by (intro length_dec_digits) simp_all
  have "length (dec_digits (?n mod 10 ^ p)) \<le> p" using assms(3) by (intro length_dec_digits) simp_all
  then have "length (pad_left p (CHR ''0'') (dec_digits (?n mod 10 ^ p))) = p" by (simp add: pad_left_def)
  then show ?thesis using 1 assms(3) by (simp add: fmt_fixed_def Let_def)
qed

lemma length_fmt_f:
  assumes "f32_stored x" "0 < p"
  shows "length (fmt_f p x) \<le> 41 + p"
proof -
  have "pow2 128 \<le> (10 ^ 39 - 1 :: rat)" by (simp add: pow2_def)
  then have r: "0 \<le> \<bar>val x\<bar>" "\<bar>val x\<bar> \<le> 10 ^ 39 - 1" using assms(1) by (simp_all add: f32_stored_def)
  have "length (fmt_fixed p \<bar>val x\<bar>) \<le> 40 + p" by (rule length_fmt_fixed [OF r assms(2)])
  then show ?thesis by (cases x) auto
qed

definition bme_stored :: "BME280_DataPacket \<Rightarrow> bool" where
  "bme_stored p \<longleftrightarrow> f32_stored (BME280_DataPacket.temperature p) \<and> f32_stored (BME280_DataPacket.dewPoint p) \<and>
     f32_stored (BME280_DataPacket.humidity p) \<and> f32_stored (BME280_DataPacket.absoluteHumidity p) \<and>
     f32_stored (BME280_DataPacket.pressure p)"

definition dht_stored :: "DHT_DataPacket \<Rightarrow> bool" where
  "dht_stored p \<longleftrightarrow> f32_stored (DHT_DataPacket.temperature p) \<and> f32_stored (DHT_DataPacket.dewPoint p) \<and>
     f32_stored (DHT_DataPacket.humidity p) \<and> f32_stored (DHT_DataPacket.absoluteHumidity p)"

definition snapshot_stored :: "Sensors_DataPacket \<Rightarrow> bool" where
  "snapshot_stored p \<longleftrightarrow> list_all bme_stored [bme280_0 p, bme280_1 p, bme280_avg p] \<and>
     list_all dht_stored [dht_0 p, dht_1 p, dht_avg p, dht_2 p, dht_3 p] \<and>
     list_all f32_stored [DS18B20_DataPacket.temperature (ds18b20_0 p), Sensors_DataPacket.temperature p,
       Sensors_DataPacket.dewPoint p, Sensors_DataPacket.relativeHumidity p, Sensors_DataPacket.absoluteHumidity p,
       Sensors_DataPacket.pressure p]"

lemma display_bme_short: "bme_stored p \<Longrightarrow> length tag \<le> 10 \<Longrightarrow> list_all (\<lambda>t. length t \<le> 117) (display_bme tag p)"
  using length_fmt_f [of "BME280_DataPacket.temperature p" 2] length_fmt_f [of "BME280_DataPacket.dewPoint p" 2]
    length_fmt_f [of "BME280_DataPacket.humidity p" 2] length_fmt_f [of "BME280_DataPacket.absoluteHumidity p" 2]
    length_fmt_f [of "BME280_DataPacket.pressure p" 1]
  by (simp add: display_bme_def bme_stored_def)

lemma display_dht_short: "dht_stored p \<Longrightarrow> length tag \<le> 10 \<Longrightarrow> list_all (\<lambda>t. length t \<le> 117) (display_dht tag p)"
  using length_fmt_f [of "DHT_DataPacket.temperature p" 2] length_fmt_f [of "DHT_DataPacket.dewPoint p" 2]
    length_fmt_f [of "DHT_DataPacket.humidity p" 2] length_fmt_f [of "DHT_DataPacket.absoluteHumidity p" 2]
  by (simp add: display_dht_def dht_stored_def)

lemma display_lines_short:
  assumes "snapshot_stored p"
  shows "list_all (\<lambda>t. length t \<le> 117) (display_lines p)"
proof -
  have f: "f32_stored x \<Longrightarrow> length (fmt_f 2 x) \<le> 43" for x using length_fmt_f [of x 2] by simp
  have d: "length (dec_digits (unat x)) \<le> 5" for x :: u16 by (rule length_dec_u16)
  show ?thesis
    using assms unfolding display_lines_def snapshot_stored_def list_all_append
    by (simp add: display_bme_short display_dht_short) (intro conjI; rule order_trans, rule d f; simp)
qed

text \<open>C38. Whatever single-precision numbers a snapshot holds, infinities and NaN included, every line that the
  display task logs of it passes both buffers of the logger uncut: it comes out with its prefix and its newline.\<close>
theorem REPORT_lines_whole:
  assumes "snapshot_stored p"
  shows "HDEBUG_lines p = map (\<lambda>t. Some (logLevelStrings ! 4 @ t @ [CHR 0x0A])) (display_lines p)"
proof -
  have "\<forall>t\<in>set (display_lines p). length t \<le> 117" using display_lines_short [OF assms] by (simp add: list_all_iff)
  then show ?thesis by (simp add: HDEBUG_lines_def log_macro_debug)
qed

lemma f32_stored_0 [simp]: "f32_stored 0"
  by (simp add: f32_stored_def pow2_def zero_f32_def)

theorem REPORT_lines_whole_witness:
  "HDEBUG_lines sensors_zero = map (\<lambda>t. Some (logLevelStrings ! 4 @ t @ [CHR 0x0A])) (display_lines sensors_zero)"
  using REPORT_lines_whole [of sensors_zero]
  by (simp add: snapshot_stored_def bme_stored_def dht_stored_def sensors_zero_def BME280_zero_def DHT_zero_def)

end
