(* ===== verification/Rtt.thy ===== *)
theory Rtt
  imports Prelude "HOL-Library.Monad_Syntax"
begin

text \<open>
  The ring buffers that carry the firmware's trace and terminal output to the debug probe
  (src/lib/SEGGER/SEGGER_RTT.c and .h). A channel is a byte array with a write and a read offset; the
  target writes the \<^emph>\<open>up\<close> channels and reads the \<^emph>\<open>down\<close> channels, the probe does the opposite by
  changing the offsets in the target's memory.

  Offsets, sizes and flags keep the 32 bits of \<open>unsigned\<close>. A pointer to a byte array is the array,
  \<open>None\<close> is \<open>NULL\<close>; \<open>None\<close> as the result of an operation is an access outside an array.
  \<open>SEGGER_RTT_UNCACHED_OFF\<close> is 0, \<open>SEGGER_RTT_MEMCPY_USE_BYTELOOP\<close> is 0 and the memory barriers and
  the interrupt lock have no effect on one thread of control. The models below are of the C versions.
\<close>

subsection \<open>Descriptors and the control block (SEGGER_RTT.h)\<close>

record rtt_buffer =
  sName :: string
  pBuffer :: "u8 list option"
  SizeOfBuffer :: u32
  WrOff :: u32
  RdOff :: u32
  Flags :: u32

record rtt_cb =
  acID :: "u8 list"
  MaxNumUpBuffers :: int
  MaxNumDownBuffers :: int
  aUp :: "rtt_buffer list"
  aDown :: "rtt_buffer list"
  ActiveTerminal :: u8

definition MODE_NO_BLOCK_SKIP :: u32 where "MODE_NO_BLOCK_SKIP = 0"
definition MODE_NO_BLOCK_TRIM :: u32 where "MODE_NO_BLOCK_TRIM = 1"
definition MODE_BLOCK_IF_FIFO_FULL :: u32 where "MODE_BLOCK_IF_FIFO_FULL = 2"
definition MODE_MASK :: u32 where "MODE_MASK = 3"

lemmas mode_defs = MODE_NO_BLOCK_SKIP_def MODE_NO_BLOCK_TRIM_def MODE_BLOCK_IF_FIFO_FULL_def MODE_MASK_def

definition SEGGER_RTT_MAX_NUM_UP_BUFFERS :: nat where "SEGGER_RTT_MAX_NUM_UP_BUFFERS = 3"
definition SEGGER_RTT_MAX_NUM_DOWN_BUFFERS :: nat where "SEGGER_RTT_MAX_NUM_DOWN_BUFFERS = 3"
definition BUFFER_SIZE_UP :: nat where "BUFFER_SIZE_UP = 1024"
definition BUFFER_SIZE_DOWN :: nat where "BUFFER_SIZE_DOWN = 16"

subsection \<open>Copying into and out of a buffer\<close>

text \<open>\<open>memcpy(pBuffer + off, src, n)\<close> and \<open>memcpy(dst, pBuffer + off, n)\<close>.\<close>

definition mem_put :: "u8 list option \<Rightarrow> u32 \<Rightarrow> u8 list \<Rightarrow> u32 \<Rightarrow> u8 list option option" where
  "mem_put buf off src n =
     (if n = 0 then Some buf
      else case buf of None \<Rightarrow> None | Some b \<Rightarrow>
        if unat n \<le> length src \<and> unat off + unat n \<le> length b
        then Some (Some (take (unat off) b @ take (unat n) src @ drop (unat off + unat n) b))
        else None)"

definition mem_get :: "u8 list option \<Rightarrow> u32 \<Rightarrow> u32 \<Rightarrow> u8 list option" where
  "mem_get buf off n =
     (if n = 0 then Some []
      else case buf of None \<Rightarrow> None | Some b \<Rightarrow>
        if unat off + unat n \<le> length b then Some (take (unat n) (drop (unat off) b)) else None)"

subsection \<open>The bytes in a buffer, and the probe that takes them\<close>

text \<open>The bytes between the read and the write offset, oldest first.\<close>

definition contents :: "rtt_buffer \<Rightarrow> u8 list" where
  "contents r =
     (case pBuffer r of None \<Rightarrow> [] | Some b \<Rightarrow>
        let rdo = unat (RdOff r); wr = unat (WrOff r) in
        if rdo \<le> wr then take (wr - rdo) (drop rdo b) else drop rdo b @ take wr b)"

text \<open>The probe takes the \<open>k\<close> oldest bytes of an up channel, or all there are: it moves \<open>RdOff\<close>.\<close>

definition probe :: "nat \<Rightarrow> rtt_buffer \<Rightarrow> rtt_buffer" where
  "probe k r =
     (let p = unat (RdOff r) + min k (length (contents r)); sz = unat (SizeOfBuffer r) in
      r\<lparr>RdOff := word_of_nat (if p \<ge> sz then p - sz else p)\<rparr>)"

subsection \<open>Writing to a buffer\<close>

definition WriteNoCheck :: "rtt_buffer \<Rightarrow> u8 list \<Rightarrow> u32 \<Rightarrow> rtt_buffer option" where
  "WriteNoCheck pRing pData NumBytes =
     (let wr = WrOff pRing; rem = SizeOfBuffer pRing - wr in
      if rem > NumBytes then do {
        b \<leftarrow> mem_put (pBuffer pRing) wr pData NumBytes;
        Some (pRing\<lparr>pBuffer := b, WrOff := wr + NumBytes\<rparr>)
      } else do {
        b \<leftarrow> mem_put (pBuffer pRing) wr pData rem;
        b \<leftarrow> mem_put b 0 (drop (unat rem) pData) (NumBytes - rem);
        Some (pRing\<lparr>pBuffer := b, WrOff := NumBytes - rem\<rparr>)
      })"

definition GetAvailWriteSpace :: "rtt_buffer \<Rightarrow> u32" where
  "GetAvailWriteSpace pRing =
     (if RdOff pRing \<le> WrOff pRing then SizeOfBuffer pRing - 1 - WrOff pRing + RdOff pRing
      else RdOff pRing - WrOff pRing - 1)"

text \<open>One round of \<open>_WriteBlocking\<close> stores as much as fits before the end of the array.\<close>

definition block_step :: "rtt_buffer \<Rightarrow> u32 \<Rightarrow> u32" where
  "block_step r NumBytes =
     min (min (if RdOff r > WrOff r then RdOff r - WrOff r - 1 else SizeOfBuffer r - (WrOff r - RdOff r + 1))
       (SizeOfBuffer r - WrOff r)) NumBytes"

text \<open>
  \<open>_WriteBlocking\<close> waits for the probe. \<open>ks\<close> says how many bytes the probe takes before each round of
  the loop; the result is \<open>None\<close> when the rounds run out before all the data is written.
\<close>

primrec WriteBlocking_loop :: "nat list \<Rightarrow> rtt_buffer \<Rightarrow> u8 list \<Rightarrow> u32 \<Rightarrow> u32 \<Rightarrow> (rtt_buffer \<times> u32) option" where
  "WriteBlocking_loop [] pRing pData NumBytes written = None"
| "WriteBlocking_loop (k # ks) pRing pData NumBytes written =
     (let pRing = probe k pRing; n = block_step pRing NumBytes in do {
        b \<leftarrow> mem_put (pBuffer pRing) (WrOff pRing) pData n;
        let pRing' = pRing\<lparr>pBuffer := b, WrOff := (if WrOff pRing + n = SizeOfBuffer pRing then 0 else WrOff pRing + n)\<rparr>;
        if NumBytes - n \<noteq> 0
        then WriteBlocking_loop ks pRing' (drop (unat n) pData) (NumBytes - n) (written + n)
        else Some (pRing', written + n)
      })"

definition WriteBlocking :: "nat list \<Rightarrow> rtt_buffer \<Rightarrow> u8 list \<Rightarrow> u32 \<Rightarrow> (rtt_buffer \<times> u32) option" where
  "WriteBlocking ks pRing pData NumBytes = WriteBlocking_loop ks pRing pData NumBytes 0"

definition WriteSkip :: "rtt_buffer \<Rightarrow> u8 list \<Rightarrow> u32 \<Rightarrow> (rtt_buffer \<times> u32) option" where
  "WriteSkip pRing pData NumBytes =
     (let rdo = RdOff pRing; wr = WrOff pRing; sz = SizeOfBuffer pRing in
      if rdo \<le> wr then
        (let avail = sz - wr - 1 in
         if avail \<ge> NumBytes then do {
           b \<leftarrow> mem_put (pBuffer pRing) wr pData NumBytes;
           Some (pRing\<lparr>pBuffer := b, WrOff := wr + NumBytes\<rparr>, 1)
         } else if avail + rdo \<ge> NumBytes then do {
           let rem = sz - wr;
           b \<leftarrow> mem_put (pBuffer pRing) wr pData rem;
           b \<leftarrow> (if NumBytes - rem \<noteq> 0 then mem_put b 0 (drop (unat rem) pData) (NumBytes - rem) else Some b);
           Some (pRing\<lparr>pBuffer := b, WrOff := NumBytes - rem\<rparr>, 1)
         } else Some (pRing, 0))
      else if rdo - wr - 1 \<ge> NumBytes then do {
        b \<leftarrow> mem_put (pBuffer pRing) wr pData NumBytes;
        Some (pRing\<lparr>pBuffer := b, WrOff := wr + NumBytes\<rparr>, 1)
      } else Some (pRing, 0))"

text \<open>The body shared by \<open>SEGGER_RTT_WriteNoLock\<close> and \<open>SEGGER_RTT_WriteDownBufferNoLock\<close>.\<close>

definition WriteMode :: "nat list \<Rightarrow> rtt_buffer \<Rightarrow> u8 list \<Rightarrow> u32 \<Rightarrow> (rtt_buffer \<times> u32) option" where
  "WriteMode ks pRing pData NumBytes =
     (if Flags pRing = MODE_NO_BLOCK_SKIP then
        (let avail = GetAvailWriteSpace pRing in
         if avail < NumBytes then Some (pRing, 0)
         else map_option (\<lambda>r. (r, NumBytes)) (WriteNoCheck pRing pData NumBytes))
      else if Flags pRing = MODE_NO_BLOCK_TRIM then
        (let avail = GetAvailWriteSpace pRing; n = (if avail < NumBytes then avail else NumBytes) in
         map_option (\<lambda>r. (r, n)) (WriteNoCheck pRing pData n))
      else if Flags pRing = MODE_BLOCK_IF_FIFO_FULL then WriteBlocking ks pRing pData NumBytes
      else Some (pRing, 0))"

definition PutCharSkip :: "rtt_buffer \<Rightarrow> u8 \<Rightarrow> (rtt_buffer \<times> u32) option" where
  "PutCharSkip pRing c =
     (let wr = (if WrOff pRing + 1 = SizeOfBuffer pRing then 0 else WrOff pRing + 1) in
      if wr \<noteq> RdOff pRing then do {
        b \<leftarrow> mem_put (pBuffer pRing) (WrOff pRing) [c] 1;
        Some (pRing\<lparr>pBuffer := b, WrOff := wr\<rparr>, 1)
      } else Some (pRing, 0))"

text \<open>
  \<open>SEGGER_RTT_PutChar\<close>: in blocking mode it polls \<open>RdOff\<close> until there is room. The probe takes \<open>k\<close>
  bytes after each unsuccessful poll.
\<close>

primrec PutChar_poll :: "nat list \<Rightarrow> rtt_buffer \<Rightarrow> u32 \<Rightarrow> rtt_buffer option" where
  "PutChar_poll [] pRing wr = (if wr = RdOff pRing then None else Some pRing)"
| "PutChar_poll (k # ks) pRing wr = (if wr = RdOff pRing then PutChar_poll ks (probe k pRing) wr else Some pRing)"

definition PutChar :: "nat list \<Rightarrow> rtt_buffer \<Rightarrow> u8 \<Rightarrow> (rtt_buffer \<times> u32) option" where
  "PutChar ks pRing c =
     (let wr = (if WrOff pRing + 1 = SizeOfBuffer pRing then 0 else WrOff pRing + 1) in do {
        pRing \<leftarrow> (if Flags pRing = MODE_BLOCK_IF_FIFO_FULL then PutChar_poll ks pRing wr else Some pRing);
        if wr \<noteq> RdOff pRing then do {
          b \<leftarrow> mem_put (pBuffer pRing) (WrOff pRing) [c] 1;
          Some (pRing\<lparr>pBuffer := b, WrOff := wr\<rparr>, 1)
        } else Some (pRing, 0)
      })"

subsection \<open>Writing over the oldest data\<close>

primrec dec_to :: "u32 \<Rightarrow> nat \<Rightarrow> u32 \<Rightarrow> u32 option" where
  "dec_to sz 0 rdo = (if rdo \<ge> sz then None else Some rdo)"
| "dec_to sz (Suc fuel) rdo = (if rdo \<ge> sz then dec_to sz fuel (rdo - sz) else Some rdo)"

primrec Overwrite_loop :: "nat \<Rightarrow> rtt_buffer \<Rightarrow> u8 list \<Rightarrow> u32 \<Rightarrow> u32 \<Rightarrow> rtt_buffer option" where
  "Overwrite_loop 0 pRing pData NumBytes avail = None"
| "Overwrite_loop (Suc fuel) pRing pData NumBytes avail =
     (if avail > NumBytes then do {
        b \<leftarrow> mem_put (pBuffer pRing) (WrOff pRing) pData NumBytes;
        Some (pRing\<lparr>pBuffer := b, WrOff := WrOff pRing + NumBytes\<rparr>)
      } else do {
        b \<leftarrow> mem_put (pBuffer pRing) (WrOff pRing) pData avail;
        let pRing' = pRing\<lparr>pBuffer := b, WrOff := 0\<rparr>;
        if NumBytes - avail \<noteq> 0
        then Overwrite_loop fuel pRing' (drop (unat avail) pData) (NumBytes - avail) (SizeOfBuffer pRing - 1)
        else Some pRing'
      })"

text \<open>
  \<open>fuel\<close> bounds the two loops; \<open>None\<close> when it does not suffice.
\<close>

definition WriteWithOverwrite :: "nat \<Rightarrow> rtt_buffer \<Rightarrow> u8 list \<Rightarrow> u32 \<Rightarrow> rtt_buffer option" where
  "WriteWithOverwrite fuel pRing pData NumBytes =
     (let rdo = RdOff pRing; wr = WrOff pRing; sz = SizeOfBuffer pRing;
          avail = (if wr = rdo then sz - 1 else if wr < rdo then rdo - wr - 1 else rdo - wr - 1 + sz)
      in do {
        rdo' \<leftarrow> (if NumBytes > avail then dec_to sz fuel (rdo + (NumBytes - avail)) else Some rdo);
        Overwrite_loop fuel (pRing\<lparr>RdOff := rdo'\<rparr>) pData NumBytes (sz - wr)
      })"

subsection \<open>Reading from a buffer\<close>

definition ReadRing :: "rtt_buffer \<Rightarrow> u32 \<Rightarrow> (rtt_buffer \<times> u8 list) option" where
  "ReadRing pRing BufferSize =
     (let rdo = RdOff pRing; wr = WrOff pRing; sz = SizeOfBuffer pRing in do {
        (got, rd1) \<leftarrow>
          (if rdo > wr then do {
             let n = min (sz - rdo) BufferSize;
             bs \<leftarrow> mem_get (pBuffer pRing) rdo n;
             Some (bs, if rdo + n = sz then 0 else rdo + n)
           } else Some ([], rdo));
        let n = min (wr - rd1) (BufferSize - word_of_nat (length got));
        (got, rd2) \<leftarrow>
          (if n > 0 then do {
             bs \<leftarrow> mem_get (pBuffer pRing) rd1 n;
             Some (got @ bs, rd1 + n)
           } else Some (got, rd1));
        Some (if got \<noteq> [] then pRing\<lparr>RdOff := rd2\<rparr> else pRing, got)
      })"

subsection \<open>A buffer is a bounded byte queue\<close>

text \<open>The shape every configured buffer has, and how many bytes it can hold.\<close>

definition ring_ok :: "rtt_buffer \<Rightarrow> bool" where
  "ring_ok r \<longleftrightarrow> (\<exists>b. pBuffer r = Some b \<and> length b = unat (SizeOfBuffer r)) \<and>
     WrOff r < SizeOfBuffer r \<and> RdOff r < SizeOfBuffer r"

definition capacity :: "rtt_buffer \<Rightarrow> nat" where
  "capacity r = unat (SizeOfBuffer r) - 1"

text \<open>What a write may not change.\<close>

definition same_channel :: "rtt_buffer \<Rightarrow> rtt_buffer \<Rightarrow> bool" where
  "same_channel r r' \<longleftrightarrow> sName r' = sName r \<and> SizeOfBuffer r' = SizeOfBuffer r \<and> Flags r' = Flags r"

lemma same_channel_refl [simp]: "same_channel r r"
  by (simp add: same_channel_def)

lemma same_channel_trans: "same_channel a b \<Longrightarrow> same_channel b c \<Longrightarrow> same_channel a c"
  by (simp add: same_channel_def)

lemma same_channel_capacity: "same_channel r r' \<Longrightarrow> capacity r' = capacity r"
  by (simp add: same_channel_def capacity_def)

lemma unat_minus: "b \<le> a \<Longrightarrow> unat (a - b :: u32) = unat a - unat b"
  by (rule unat_sub)

lemma unat_plus: "unat a + unat b < 2 ^ 32 \<Longrightarrow> unat (a + b :: u32) = unat a + unat b"
  by (simp add: unat_word_ariths)

lemmas u32_le = word_le_nat_alt word_less_nat_alt

lemma ring_okD:
  assumes "ring_ok r"
  obtains b where "pBuffer r = Some b" "length b = unat (SizeOfBuffer r)"
    "unat (WrOff r) < unat (SizeOfBuffer r)" "unat (RdOff r) < unat (SizeOfBuffer r)"
    "unat (SizeOfBuffer r) < 2 ^ 32"
  using assms unat_u32 [of "SizeOfBuffer r"] by (auto simp: ring_ok_def u32_le)

lemma length_contents:
  assumes "ring_ok r"
  shows "length (contents r) = (if RdOff r \<le> WrOff r then unat (WrOff r) - unat (RdOff r)
    else unat (SizeOfBuffer r) - unat (RdOff r) + unat (WrOff r))"
  using assms by (auto elim!: ring_okD simp: contents_def Let_def u32_le)

lemma contents_capacity:
  assumes "ring_ok r" shows "length (contents r) \<le> capacity r"
  using assms by (auto elim!: ring_okD simp: length_contents [OF assms] capacity_def u32_le)

lemma unat_avail:
  assumes "ring_ok r" shows "unat (GetAvailWriteSpace r) = capacity r - length (contents r)"
proof -
  let ?s = "SizeOfBuffer r" and ?w = "WrOff r" and ?o = "RdOff r"
  from assms have l: "unat ?w < unat ?s" "unat ?o < unat ?s" by (auto elim!: ring_okD)
  have s1: "unat (?s - 1) = unat ?s - 1" using l by (subst unat_minus) (auto simp: u32_le)
  have sw: "unat (?s - 1 - ?w) = unat ?s - 1 - unat ?w" using l s1 by (subst unat_minus) (auto simp: u32_le)
  show ?thesis
  proof (cases "?o \<le> ?w")
    case True
    have "unat (?s - 1 - ?w + ?o) = unat ?s - 1 - unat ?w + unat ?o"
      using l sw True unat_u32 [of ?s] by (subst unat_plus) (auto simp: u32_le)
    then show ?thesis using True l by (simp add: GetAvailWriteSpace_def length_contents [OF assms] capacity_def u32_le)
  next
    case False
    have a: "unat (?o - ?w) = unat ?o - unat ?w" using False by (subst unat_minus) (auto simp: u32_le)
    have "unat (?o - ?w - 1) = unat ?o - unat ?w - 1"
      using False a by (subst unat_minus) (auto simp: u32_le)
    then show ?thesis using False l by (simp add: GetAvailWriteSpace_def length_contents [OF assms] capacity_def u32_le)
  qed
qed

text \<open>The two shapes of a write: before the end of the array, and around it.\<close>

lemma append_flat:
  assumes "ring_ok r" and n: "unat n \<le> length d" "unat (WrOff r) + unat n < unat (SizeOfBuffer r)"
    and f: "length (contents r) + unat n \<le> capacity r"
  shows "\<exists>b'. mem_put (pBuffer r) (WrOff r) d n = Some b' \<and>
    (let r' = r\<lparr>pBuffer := b', WrOff := WrOff r + n\<rparr> in
      ring_ok r' \<and> contents r' = contents r @ take (unat n) d)"
proof -
  from assms(1) obtain b where b: "pBuffer r = Some b" "length b = unat (SizeOfBuffer r)"
    and l: "unat (WrOff r) < unat (SizeOfBuffer r)" "unat (RdOff r) < unat (SizeOfBuffer r)"
    and s: "unat (SizeOfBuffer r) < 2 ^ 32" by (rule ring_okD)
  have w: "unat (WrOff r + n) = unat (WrOff r) + unat n" using n s by (subst unat_plus) auto
  show ?thesis
  proof (cases "n = 0")
    case True
    then show ?thesis using assms(1) by (simp add: mem_put_def ring_ok_def contents_def)
  next
    case False
    let ?b = "take (unat (WrOff r)) b @ take (unat n) d @ drop (unat (WrOff r) + unat n) b"
    let ?r = "r\<lparr>pBuffer := Some ?b, WrOff := WrOff r + n\<rparr>"
    have m: "mem_put (pBuffer r) (WrOff r) d n = Some (Some ?b)" using False b n by (simp add: mem_put_def)
    have lb: "length ?b = length b" using n b by simp
    have ok: "ring_ok ?r" using lb b l n w by (simp add: ring_ok_def u32_le)
    have "contents ?r = contents r @ take (unat n) d"
    proof (cases "unat (RdOff r) \<le> unat (WrOff r)")
      case True
      then show ?thesis using b l n w by (simp add: contents_def Let_def drop_take)
    next
      case F: False
      then have "unat (WrOff r) + unat n < unat (RdOff r)"
        using f l assms(1) by (simp add: length_contents capacity_def u32_le)
      then show ?thesis using b l n w F by (simp add: contents_def Let_def)
    qed
    then show ?thesis using m ok by (auto simp: Let_def)
  qed
qed

lemma append_wrap:
  assumes "ring_ok r" and n: "unat n \<le> length d" "SizeOfBuffer r - WrOff r \<le> n"
    and f: "length (contents r) + unat n \<le> capacity r"
  shows "\<exists>b1 b2. mem_put (pBuffer r) (WrOff r) d (SizeOfBuffer r - WrOff r) = Some b1 \<and>
    mem_put b1 0 (drop (unat (SizeOfBuffer r - WrOff r)) d) (n - (SizeOfBuffer r - WrOff r)) = Some b2 \<and>
    (let r' = r\<lparr>pBuffer := b2, WrOff := n - (SizeOfBuffer r - WrOff r)\<rparr> in
      ring_ok r' \<and> contents r' = contents r @ take (unat n) d)"
proof -
  from assms(1) obtain b where b: "pBuffer r = Some b" "length b = unat (SizeOfBuffer r)"
    and l: "unat (WrOff r) < unat (SizeOfBuffer r)" "unat (RdOff r) < unat (SizeOfBuffer r)"
    and s: "unat (SizeOfBuffer r) < 2 ^ 32" by (rule ring_okD)
  let ?rem = "SizeOfBuffer r - WrOff r"
  let ?s = "unat (SizeOfBuffer r)" and ?w = "unat (WrOff r)" and ?o = "unat (RdOff r)"
  have rem: "unat ?rem = ?s - ?w" using l by (subst unat_minus) (auto simp: u32_le)
  have k: "unat (n - ?rem) = unat n - (?s - ?w)" using n rem by (subst unat_minus) auto
  have nr: "?s - ?w \<le> unat n" using n(2) rem by (simp add: u32_le)
  have F: "?o \<le> ?w"
    using f l assms(1) nr by (auto simp: length_contents capacity_def u32_le split: if_splits)
  have fit: "unat n - (?s - ?w) < ?o" using f F l nr assms(1) by (simp add: length_contents capacity_def u32_le)
  let ?b1 = "take ?w b @ take (?s - ?w) d"
  have m1: "mem_put (pBuffer r) (WrOff r) d ?rem = Some (Some ?b1)"
    using l n nr rem b by (auto simp: mem_put_def)
  have l1: "length ?b1 = ?s" using n nr l b by simp
  let ?k = "unat n - (?s - ?w)"
  let ?b2 = "take ?k (drop (?s - ?w) d) @ drop ?k ?b1"
  have m2: "mem_put (Some ?b1) 0 (drop (unat ?rem) d) (n - ?rem) = Some (Some ?b2)"
  proof (cases "n - ?rem = 0")
    case True
    then show ?thesis using k by (simp add: mem_put_def)
  next
    case False
    then show ?thesis using k rem l1 n(1) fit l by (simp add: mem_put_def)
  qed
  have l2: "length ?b2 = ?s" using l1 n(1) nr fit l by simp
  let ?r = "r\<lparr>pBuffer := Some ?b2, WrOff := n - ?rem\<rparr>"
  have ok: "ring_ok ?r" using l2 l k fit by (simp add: ring_ok_def u32_le)
  have "contents ?r = drop ?o ?b2 @ take ?k ?b2"
    using fit k by (simp add: contents_def Let_def)
  also have "drop ?o ?b2 = take (?w - ?o) (drop ?o b) @ take (?s - ?w) d"
    using fit n(1) nr l F b by (simp add: drop_take)
  also have "take ?k ?b2 = take ?k (drop (?s - ?w) d)" using n(1) nr by simp
  also have "(take (?w - ?o) (drop ?o b) @ take (?s - ?w) d) @ take ?k (drop (?s - ?w) d) = contents r @ take (unat n) d"
  proof -
    have "take (unat n) d = take (?s - ?w) d @ take ?k (drop (?s - ?w) d)"
      using nr by (metis le_add_diff_inverse take_add)
    then show ?thesis using F b by (simp add: contents_def Let_def)
  qed
  finally show ?thesis using m1 m2 ok by (auto simp: Let_def)
qed

lemma WriteNoCheck_spec:
  assumes "ring_ok r" and n: "unat n \<le> length d" and f: "length (contents r) + unat n \<le> capacity r"
  shows "\<exists>r'. WriteNoCheck r d n = Some r' \<and> ring_ok r' \<and> contents r' = contents r @ take (unat n) d \<and>
    same_channel r r' \<and> RdOff r' = RdOff r"
proof -
  from assms(1) have l: "unat (WrOff r) < unat (SizeOfBuffer r)" by (rule ring_okD)
  have rem: "unat (SizeOfBuffer r - WrOff r) = unat (SizeOfBuffer r) - unat (WrOff r)"
    using l by (subst unat_minus) (auto simp: u32_le)
  show ?thesis
  proof (cases "SizeOfBuffer r - WrOff r > n")
    case True
    then have "unat (WrOff r) + unat n < unat (SizeOfBuffer r)" using rem by (simp add: u32_le)
    from append_flat [OF assms(1) n this f] True show ?thesis
      by (auto simp: WriteNoCheck_def Let_def same_channel_def)
  next
    case False
    then have "SizeOfBuffer r - WrOff r \<le> n" by simp
    from append_wrap [OF assms(1) n this f] False show ?thesis
      by (auto simp: WriteNoCheck_def Let_def same_channel_def)
  qed
qed

text \<open>\<open>SEGGER_RTT_WriteSkipNoLock\<close> stores all of the data or leaves the buffer alone.\<close>

lemma WriteSkip_spec:
  assumes "ring_ok r" and n: "unat n \<le> length d"
  shows "if length (contents r) + unat n \<le> capacity r
    then \<exists>r'. WriteSkip r d n = Some (r', 1) \<and> ring_ok r' \<and> contents r' = contents r @ take (unat n) d \<and>
      same_channel r r' \<and> RdOff r' = RdOff r
    else WriteSkip r d n = Some (r, 0)"
proof -
  let ?s = "unat (SizeOfBuffer r)" and ?w = "unat (WrOff r)" and ?o = "unat (RdOff r)"
  from assms(1) have l: "?w < ?s" "?o < ?s" by (auto elim!: ring_okD)
  have rem: "unat (SizeOfBuffer r - WrOff r) = ?s - ?w" using l by (subst unat_minus) (auto simp: u32_le)
  have a1: "unat (SizeOfBuffer r - WrOff r - 1) = ?s - ?w - 1"
    using l rem by (subst unat_minus) (auto simp: u32_le)
  show ?thesis
  proof (cases "RdOff r \<le> WrOff r")
    case True
    then have F: "?o \<le> ?w" by (simp add: u32_le)
    have a2: "unat (SizeOfBuffer r - WrOff r - 1 + RdOff r) = ?s - ?w - 1 + ?o"
      using l F a1 unat_u32 [of "SizeOfBuffer r"] by (subst unat_plus) auto
    have len: "length (contents r) = ?w - ?o" using True by (simp add: length_contents [OF assms(1)])
    consider (flat) "SizeOfBuffer r - WrOff r - 1 \<ge> n"
      | (wrap) "\<not> SizeOfBuffer r - WrOff r - 1 \<ge> n" "SizeOfBuffer r - WrOff r - 1 + RdOff r \<ge> n"
      | (full) "\<not> SizeOfBuffer r - WrOff r - 1 \<ge> n" "\<not> SizeOfBuffer r - WrOff r - 1 + RdOff r \<ge> n" by blast
    then show ?thesis
    proof cases
      case flat
      then have i: "unat n \<le> ?s - ?w - 1" using a1 by (simp add: u32_le)
      then have w: "?w + unat n < ?s" using l by linarith
      have fit: "length (contents r) + unat n \<le> capacity r" using i l F by (simp add: len capacity_def)
      from append_flat [OF assms(1) n w fit] flat True fit show ?thesis
        by (auto simp: WriteSkip_def Let_def same_channel_def)
    next
      case wrap
      then have i: "\<not> unat n \<le> ?s - ?w - 1" "unat n \<le> ?s - ?w - 1 + ?o" using a1 a2 by (simp_all add: u32_le)
      then have fit: "length (contents r) + unat n \<le> capacity r" using l F by (simp add: len capacity_def)
      have w: "SizeOfBuffer r - WrOff r \<le> n" using i rem by (simp add: u32_le)
      obtain b1 b2 where m: "mem_put (pBuffer r) (WrOff r) d (SizeOfBuffer r - WrOff r) = Some b1"
          "mem_put b1 0 (drop (unat (SizeOfBuffer r - WrOff r)) d) (n - (SizeOfBuffer r - WrOff r)) = Some b2"
        and R: "ring_ok (r\<lparr>pBuffer := b2, WrOff := n - (SizeOfBuffer r - WrOff r)\<rparr>)"
          "contents (r\<lparr>pBuffer := b2, WrOff := n - (SizeOfBuffer r - WrOff r)\<rparr>) = contents r @ take (unat n) d"
        using append_wrap [OF assms(1) n w fit] by (auto simp: Let_def)
      have "n - (SizeOfBuffer r - WrOff r) = 0 \<Longrightarrow> b2 = b1" using m(2) by (simp add: mem_put_def)
      then show ?thesis using wrap True fit m R
        by (auto simp: WriteSkip_def Let_def same_channel_def)
    next
      case full
      then have "\<not> unat n \<le> ?s - ?w - 1" "\<not> unat n \<le> ?s - ?w - 1 + ?o" using a1 a2 by (simp_all add: u32_le)
      then have "\<not> length (contents r) + unat n \<le> capacity r" using l F by (simp add: len capacity_def)
      then show ?thesis using full True by (simp add: WriteSkip_def Let_def)
    qed
  next
    case False
    then have F: "?w < ?o" by (simp add: u32_le)
    have a: "unat (RdOff r - WrOff r) = ?o - ?w" using F by (subst unat_minus) (auto simp: u32_le)
    then have a3: "unat (RdOff r - WrOff r - 1) = ?o - ?w - 1" using F by (subst unat_minus) (auto simp: u32_le)
    have len: "length (contents r) = ?s - ?o + ?w" using False by (simp add: length_contents [OF assms(1)])
    show ?thesis
    proof (cases "RdOff r - WrOff r - 1 \<ge> n")
      case flat: True
      then have i: "unat n \<le> ?o - ?w - 1" using a3 by (simp add: u32_le)
      then have w: "?w + unat n < ?s" using l F by linarith
      have fit: "length (contents r) + unat n \<le> capacity r" using i l F by (simp add: len capacity_def)
      from append_flat [OF assms(1) n w fit] flat False fit show ?thesis
        by (auto simp: WriteSkip_def Let_def same_channel_def)
    next
      case full: False
      then have "\<not> unat n \<le> ?o - ?w - 1" using a3 by (simp add: u32_le)
      then have "\<not> length (contents r) + unat n \<le> capacity r" using l F by (simp add: len capacity_def)
      then show ?thesis using full False by (simp add: WriteSkip_def Let_def)
    qed
  qed
qed

lemma PutCharSkip_is_WriteSkip:
  assumes "ring_ok r" shows "PutCharSkip r c = WriteSkip r [c] 1"
proof -
  let ?s = "unat (SizeOfBuffer r)" and ?w = "unat (WrOff r)" and ?o = "unat (RdOff r)"
  from assms have l: "?w < ?s" "?o < ?s" "?s < 2 ^ 32" by (auto elim!: ring_okD)
  have rem: "unat (SizeOfBuffer r - WrOff r) = ?s - ?w" using l by (subst unat_minus) (auto simp: u32_le)
  have a1: "unat (SizeOfBuffer r - WrOff r - 1) = ?s - ?w - 1"
    using l rem by (subst unat_minus) (auto simp: u32_le)
  have w1: "unat (WrOff r + 1) = ?w + 1" using l by (subst unat_plus) auto
  have e: "WrOff r + 1 = SizeOfBuffer r \<longleftrightarrow> ?w + 1 = ?s" using w1 by (metis word_unat_eq_iff)
  have rem1: "SizeOfBuffer r - WrOff r = 1 \<longleftrightarrow> ?w + 1 = ?s" using rem l by (simp add: word_unat_eq_iff) linarith
  show ?thesis
  proof (cases "RdOff r \<le> WrOff r")
    case True
    then have F: "?o \<le> ?w" by (simp add: u32_le)
    have a2: "unat (SizeOfBuffer r - WrOff r - 1 + RdOff r) = ?s - ?w - 1 + ?o"
      using l F a1 by (subst unat_plus) auto
    show ?thesis
    proof (cases "?w + 1 = ?s")
      case wrap: True
      then have z: "SizeOfBuffer r - WrOff r = 1" using rem1 by simp
      have nz: "(0::u32) \<noteq> RdOff r \<longleftrightarrow> 1 \<le> RdOff r" by (simp add: word_le_nat_alt word_unat_eq_iff) linarith
      show ?thesis using wrap e z True nz
        by (simp add: PutCharSkip_def WriteSkip_def Let_def)
    next
      case flat: False
      then have "SizeOfBuffer r - WrOff r - 1 \<ge> 1" using a1 l by (simp add: u32_le)
      moreover have "WrOff r + 1 \<noteq> RdOff r" proof assume "WrOff r + 1 = RdOff r" with w1 F show False by simp qed
      ultimately show ?thesis using flat e True by (simp add: PutCharSkip_def WriteSkip_def Let_def)
    qed
  next
    case False
    then have F: "?w < ?o" by (simp add: u32_le)
    have a: "unat (RdOff r - WrOff r) = ?o - ?w" using F by (subst unat_minus) (auto simp: u32_le)
    then have a3: "unat (RdOff r - WrOff r - 1) = ?o - ?w - 1" using F by (subst unat_minus) (auto simp: u32_le)
    have "WrOff r + 1 \<noteq> SizeOfBuffer r" using F l e by simp
    moreover have "WrOff r + 1 \<noteq> RdOff r \<longleftrightarrow> RdOff r - WrOff r - 1 \<ge> 1"
      using a3 F w1 by (auto simp: word_le_nat_alt word_unat_eq_iff)
    ultimately show ?thesis using False by (simp add: PutCharSkip_def WriteSkip_def Let_def)
  qed
qed

lemma mem_get_all: "unat off + unat n \<le> length b \<Longrightarrow> mem_get (Some b) off n = Some (take (unat n) (drop (unat off) b))"
  by (auto simp: mem_get_def)

lemma ReadRing_spec:
  assumes "ring_ok r"
  shows "\<exists>r'. ReadRing r n = Some (r', take (unat n) (contents r)) \<and> ring_ok r' \<and>
    contents r' = drop (unat n) (contents r) \<and> same_channel r r' \<and> WrOff r' = WrOff r"
proof -
  from assms obtain b where b: "pBuffer r = Some b" "length b = unat (SizeOfBuffer r)"
    and l: "unat (WrOff r) < unat (SizeOfBuffer r)" "unat (RdOff r) < unat (SizeOfBuffer r)"
    and s: "unat (SizeOfBuffer r) < 2 ^ 32" by (rule ring_okD)
  let ?s = "unat (SizeOfBuffer r)" and ?w = "unat (WrOff r)" and ?o = "unat (RdOff r)" and ?n = "unat n"
  show ?thesis
  proof (cases "RdOff r > WrOff r")
    case False
    then have F: "?o \<le> ?w" by (simp add: u32_le)
    let ?m = "min (WrOff r - RdOff r) n"
    have d: "unat (WrOff r - RdOff r) = ?w - ?o" using F by (subst unat_minus) (auto simp: u32_le)
    have m: "unat ?m = min (?w - ?o) ?n" using d by (auto simp: min_def u32_le)
    have p: "unat (RdOff r + ?m) = ?o + min (?w - ?o) ?n" using m F l s by (subst unat_plus) auto
    have c: "contents r = take (?w - ?o) (drop ?o b)" using F b by (simp add: contents_def Let_def)
    have g: "mem_get (pBuffer r) (RdOff r) ?m = Some (take ?n (contents r))"
      using m F l b c by (subst b) (simp add: mem_get_all min.commute)
    show ?thesis
    proof (cases "?m > 0")
      case True
      then have ne: "0 < min (?w - ?o) ?n" using m by (simp add: word_less_nat_alt)
      have t: "take ?n (contents r) \<noteq> []" using ne c F l b by auto
      have R: "ReadRing r n = Some (r\<lparr>RdOff := RdOff r + ?m\<rparr>, take ?n (contents r))"
        using False True g t by (simp add: ReadRing_def Let_def)
      have "contents (r\<lparr>RdOff := RdOff r + ?m\<rparr>) = drop ?n (contents r)"
        using p F b c by (cases "?w - ?o \<le> ?n") (auto simp: contents_def Let_def drop_take min_def add.commute)
      moreover have "ring_ok (r\<lparr>RdOff := RdOff r + ?m\<rparr>)"
        using p F l b by (simp add: ring_ok_def u32_le)
      ultimately show ?thesis using R by (auto simp: same_channel_def)
    next
      case Z: False
      then have z: "?m = 0" by (metis word_gt_0)
      have "?w - ?o = 0 \<or> ?n = 0" using m z by (simp add: min_def split: if_splits)
      then have e: "take ?n (contents r) = []" "drop ?n (contents r) = contents r" using c by auto
      have "ReadRing r n = Some (r, [])" using False Z by (simp add: ReadRing_def Let_def del: min_less_iff_conj)
      then show ?thesis using e assms by auto
    qed
  next
    case True
    then have F: "?w < ?o" by (simp add: u32_le)
    let ?m = "min (SizeOfBuffer r - RdOff r) n"
    have d: "unat (SizeOfBuffer r - RdOff r) = ?s - ?o" using l by (subst unat_minus) (auto simp: u32_le)
    have m: "unat ?m = min (?s - ?o) ?n" using d by (auto simp: min_def u32_le)
    have p: "unat (RdOff r + ?m) = ?o + min (?s - ?o) ?n" using m F l s by (subst unat_plus) auto
    have c: "contents r = drop ?o b @ take ?w b" using F b by (simp add: contents_def Let_def)
    have g: "mem_get (pBuffer r) (RdOff r) ?m = Some (take ?n (drop ?o b))"
    proof -
      have "mem_get (Some b) (RdOff r) ?m = Some (take (unat ?m) (drop ?o b))"
        by (rule mem_get_all) (use m l b in auto)
      moreover have "take (unat ?m) (drop ?o b) = take ?n (drop ?o b)" unfolding m using b by (simp add: min_def)
      ultimately show ?thesis using b by simp
    qed
    have e: "RdOff r + ?m = SizeOfBuffer r \<longleftrightarrow> ?s - ?o \<le> ?n"
      using p l by (auto simp: word_unat_eq_iff min_def split: if_splits)
    show ?thesis
    proof (cases "?s - ?o \<le> ?n")
      case wrap: True
      let ?got = "take ?n (drop ?o b)"
      have gl: "length ?got = ?s - ?o" "?got = drop ?o b" "?got \<noteq> []" using wrap b l by auto
      have le: "word_of_nat (?s - ?o) \<le> n" using wrap s by (simp add: word_le_nat_alt unat_of_nat)
      have u: "unat (n - word_of_nat (?s - ?o)) = ?n - (?s - ?o)"
        using le s by (subst unat_minus) (auto simp: unat_of_nat)
      let ?k = "min (WrOff r) (n - word_of_nat (?s - ?o))"
      have k: "unat ?k = min ?w (?n - (?s - ?o))" using u by (auto simp: min_def u32_le)
      have g2: "mem_get (pBuffer r) 0 ?k = Some (take (?n - (?s - ?o)) (take ?w b))"
        using k l b by (subst b) (simp add: mem_get_all min.commute)
      have T: "take ?n (contents r) = drop ?o b @ take (?n - (?s - ?o)) (take ?w b)"
        using c wrap b by simp
      have D: "drop ?n (contents r) = drop (?n - (?s - ?o)) (take ?w b)" using c wrap b by simp
      have R: "ReadRing r n = Some (r\<lparr>RdOff := ?k\<rparr>, take ?n (contents r))"
      proof (cases "?k > 0")
        case True
        then show ?thesis using g g2 gl e wrap T \<open>RdOff r > WrOff r\<close>
          by (simp add: ReadRing_def Let_def del: min_less_iff_conj)
      next
        case False
        then have z: "?k = 0" by (metis word_gt_0)
        then have "take (?n - (?s - ?o)) (take ?w b) = []" using k by (auto simp: min_def split: if_splits)
        then show ?thesis using g gl e wrap T z False \<open>RdOff r > WrOff r\<close>
          by (simp add: ReadRing_def Let_def del: min_less_iff_conj)
      qed
      have "contents (r\<lparr>RdOff := ?k\<rparr>) = drop ?n (contents r)"
        using k b l unfolding D by (auto simp: contents_def Let_def drop_take min_def)
      moreover have "ring_ok (r\<lparr>RdOff := ?k\<rparr>)" using k l b by (simp add: ring_ok_def u32_le)
      ultimately show ?thesis using R by (auto simp: same_channel_def)
    next
      case part: False
      have m': "?m = n" using part d by (simp add: min_def u32_le)
      have z: "n - word_of_nat (length (take ?n (drop ?o b))) = 0" using part b by (simp add: min_def)
      have R: "ReadRing r n = Some (if take ?n (drop ?o b) \<noteq> [] then r\<lparr>RdOff := RdOff r + n\<rparr> else r, take ?n (drop ?o b))"
        using g e part True z m' by (simp add: ReadRing_def Let_def)
      have T: "take ?n (contents r) = take ?n (drop ?o b)" using c part b by simp
      show ?thesis
      proof (cases "n = 0")
        case True
        then show ?thesis using R assms by auto
      next
        case nz: False
        then have "take ?n (drop ?o b) \<noteq> []" using b l by (simp add: unat_eq_0)
        moreover have "contents (r\<lparr>RdOff := RdOff r + n\<rparr>) = drop ?n (contents r)"
          using p part m' b F l c by (simp add: contents_def Let_def min_def drop_drop add.commute)
        moreover have "ring_ok (r\<lparr>RdOff := RdOff r + n\<rparr>)"
          using p part m' l b by (simp add: ring_ok_def u32_le min_def)
        ultimately show ?thesis using R T by (auto simp: same_channel_def)
      qed
    qed
  qed
qed

end
