(* ===== verification/RttApi.thy ===== *)
theory RttApi
  imports Rtt
begin

text \<open>
  The rest of src/lib/SEGGER/SEGGER_RTT.c: the modes of a write, writing over the oldest data, the
  control block and the functions the firmware calls on it.
\<close>

subsection \<open>The probe and the blocking write\<close>

lemma probe_spec:
  assumes "ring_ok r"
  shows "ring_ok (probe k r) \<and> contents (probe k r) = drop k (contents r) \<and> same_channel r (probe k r) \<and>
    WrOff (probe k r) = WrOff r \<and> pBuffer (probe k r) = pBuffer r"
proof -
  from assms obtain b where b: "pBuffer r = Some b" "length b = unat (SizeOfBuffer r)"
    and l: "unat (WrOff r) < unat (SizeOfBuffer r)" "unat (RdOff r) < unat (SizeOfBuffer r)"
    and s: "unat (SizeOfBuffer r) < 2 ^ 32" by (rule ring_okD)
  let ?s = "unat (SizeOfBuffer r)" and ?w = "unat (WrOff r)" and ?o = "unat (RdOff r)"
  let ?n = "min k (length (contents r))"
  let ?p = "if ?o + ?n \<ge> ?s then ?o + ?n - ?s else ?o + ?n"
  have len: "length (contents r) = (if ?o \<le> ?w then ?w - ?o else ?s - ?o + ?w)"
    using length_contents [OF assms] by (simp add: u32_le)
  have p: "?p < ?s" using len l by (auto simp: min_def split: if_splits)
  have u: "unat (RdOff (probe k r)) = ?p" using p s by (simp add: probe_def Let_def unat_of_nat)
  have ok: "ring_ok (probe k r)"
    unfolding ring_ok_def u32_le u using b l p by (simp add: probe_def Let_def)
  have f: "WrOff (probe k r) = WrOff r" "pBuffer (probe k r) = pBuffer r" "SizeOfBuffer (probe k r) = SizeOfBuffer r"
    "same_channel r (probe k r)" by (simp_all add: probe_def Let_def same_channel_def)
  define n where "n = ?n"
  have n: "n \<le> length (contents r)" "unat (RdOff (probe k r)) = (if ?o + n \<ge> ?s then ?o + n - ?s else ?o + n)"
    using u by (simp_all add: n_def)
  have "contents (probe k r) = drop n (contents r)"
  proof (cases "?o \<le> ?w")
    case True
    then have "?o + n < ?s" "?o + n \<le> ?w" using n(1) len l by simp_all
    then show ?thesis using True b f n(2) by (simp add: contents_def Let_def drop_take add.commute)
  next
    case False
    then have C: "contents r = drop ?o b @ take ?w b" using b by (simp add: contents_def Let_def)
    show ?thesis
    proof (cases "?o + n \<ge> ?s")
      case w: True
      then have "?o + n - ?s \<le> ?w" using len n(1) False l by simp
      moreover have "drop n (contents r) = drop (?o + n - ?s) (take ?w b)"
        using C b l w by (simp add: add.commute)
      ultimately show ?thesis using b f n(2) w by (simp add: contents_def Let_def drop_take)
    next
      case nw: False
      then have "?w < ?o + n" using False by simp
      then show ?thesis using b f l nw n(2) C by (simp add: contents_def Let_def drop_drop add.commute)
    qed
  qed
  then show ?thesis using ok f by (simp add: n_def min_def)
qed

lemma unat_block_step:
  assumes "ring_ok r"
  shows "unat (block_step r n) =
    min (min (capacity r - length (contents r)) (unat (SizeOfBuffer r) - unat (WrOff r))) (unat n)"
proof -
  let ?s = "unat (SizeOfBuffer r)" and ?w = "unat (WrOff r)" and ?o = "unat (RdOff r)"
  from assms have l: "?w < ?s" "?o < ?s" "?s < 2 ^ 32" by (auto elim!: ring_okD)
  have mn: "unat (min a b) = min (unat a) (unat b)" for a b :: u32 by (auto simp: min_def u32_le)
  have rem: "unat (SizeOfBuffer r - WrOff r) = ?s - ?w" using l by (subst unat_minus) (auto simp: u32_le)
  have "unat (if RdOff r > WrOff r then RdOff r - WrOff r - 1 else SizeOfBuffer r - (WrOff r - RdOff r + 1))
      = capacity r - length (contents r)"
  proof (cases "RdOff r > WrOff r")
    case True
    then have F: "?w < ?o" by (simp add: u32_le)
    have a: "unat (RdOff r - WrOff r) = ?o - ?w" using F by (subst unat_minus) (auto simp: u32_le)
    then have "unat (RdOff r - WrOff r - 1) = ?o - ?w - 1" using F by (subst unat_minus) (auto simp: u32_le)
    then show ?thesis using True F l by (simp add: length_contents [OF assms] capacity_def u32_le)
  next
    case False
    then have F: "?o \<le> ?w" by (simp add: u32_le)
    have a: "unat (WrOff r - RdOff r) = ?w - ?o" using F by (subst unat_minus) (auto simp: u32_le)
    then have a1: "unat (WrOff r - RdOff r + 1) = ?w - ?o + 1" using F l by (subst unat_plus) auto
    then have "unat (SizeOfBuffer r - (WrOff r - RdOff r + 1)) = ?s - (?w - ?o + 1)"
      using F l by (subst unat_minus) (auto simp: u32_le)
    then show ?thesis using False F l by (simp add: length_contents [OF assms] capacity_def u32_le)
  qed
  then show ?thesis by (simp only: block_step_def mn rem)
qed

lemma append_block:
  assumes "ring_ok r" and n: "unat n \<le> length d"
  defines "k \<equiv> block_step r n"
  shows "\<exists>b. mem_put (pBuffer r) (WrOff r) d k = Some b \<and>
    (let r' = r\<lparr>pBuffer := b, WrOff := (if WrOff r + k = SizeOfBuffer r then 0 else WrOff r + k)\<rparr> in
      ring_ok r' \<and> contents r' = contents r @ take (unat k) d \<and> same_channel r r' \<and> RdOff r' = RdOff r)"
proof -
  from assms(1) have l: "unat (WrOff r) < unat (SizeOfBuffer r)" "unat (SizeOfBuffer r) < 2 ^ 32"
    by (auto elim!: ring_okD)
  have k: "unat k \<le> capacity r - length (contents r)" "unat k \<le> unat (SizeOfBuffer r) - unat (WrOff r)" "unat k \<le> unat n"
    using unat_block_step [OF assms(1), of n] by (simp_all add: k_def min_le_iff_disj)
  have fit: "length (contents r) + unat k \<le> capacity r" using k(1) contents_capacity [OF assms(1)] by simp
  have kd: "unat k \<le> length d" using k(3) n by simp
  have w: "unat (WrOff r + k) = unat (WrOff r) + unat k" using k(2) l by (subst unat_plus) auto
  show ?thesis
  proof (cases "WrOff r + k = SizeOfBuffer r")
    case True
    then have e: "k = SizeOfBuffer r - WrOff r" by (metis add_diff_cancel_left')
    have z: "k - k = 0" by simp
    from append_wrap [OF assms(1) kd _ fit] e
    obtain b1 b2 where "mem_put (pBuffer r) (WrOff r) d k = Some b1" "mem_put b1 0 (drop (unat k) d) 0 = Some b2"
      "ring_ok (r\<lparr>pBuffer := b2, WrOff := 0\<rparr>)" "contents (r\<lparr>pBuffer := b2, WrOff := 0\<rparr>) = contents r @ take (unat k) d"
      by (auto simp: Let_def)
    then show ?thesis using True by (simp add: Let_def same_channel_def mem_put_def)
  next
    case False
    then have "unat (WrOff r) + unat k \<noteq> unat (SizeOfBuffer r)" using w by (metis word_unat_eq_iff)
    then have "unat (WrOff r) + unat k < unat (SizeOfBuffer r)" using k(2) l by linarith
    from append_flat [OF assms(1) kd this fit] False show ?thesis by (auto simp: Let_def same_channel_def)
  qed
qed

lemma WriteBlocking_loop_step:
  assumes "ring_ok r" "unat n \<le> length d"
  obtains r' where
    "ring_ok r'" "same_channel r r'" "contents r' = drop k (contents r) @ take (unat (block_step (probe k r) n)) d"
    "WrOff r' = (let m = block_step (probe k r) n in if WrOff r + m = SizeOfBuffer r then 0 else WrOff r + m)"
    "WriteBlocking_loop (k # ks) r d n w =
      (let m = block_step (probe k r) n in
       if n - m \<noteq> 0 then WriteBlocking_loop ks r' (drop (unat m) d) (n - m) (w + m) else Some (r', w + m))"
proof -
  let ?r = "probe k r" and ?m = "block_step (probe k r) n"
  from probe_spec [OF assms(1), of k] have P: "ring_ok ?r" "contents ?r = drop k (contents r)" "same_channel r ?r" "WrOff ?r = WrOff r" by auto
  from append_block [OF P(1) assms(2)] obtain b where b: "mem_put (pBuffer ?r) (WrOff ?r) d ?m = Some b"
    and R: "let q = ?r\<lparr>pBuffer := b, WrOff := (if WrOff ?r + ?m = SizeOfBuffer ?r then 0 else WrOff ?r + ?m)\<rparr> in
      ring_ok q \<and> contents q = contents ?r @ take (unat ?m) d \<and> same_channel ?r q \<and> RdOff q = RdOff ?r"
    by blast
  define q where "q = ?r\<lparr>pBuffer := b, WrOff := (if WrOff ?r + ?m = SizeOfBuffer ?r then 0 else WrOff ?r + ?m)\<rparr>"
  have Q: "ring_ok q" "contents q = contents ?r @ take (unat ?m) d" "same_channel ?r q" "RdOff q = RdOff ?r"
    using R by (simp_all add: q_def Let_def)
  have "WriteBlocking_loop (k # ks) r d n w =
      (let m = ?m in
       if n - m \<noteq> 0 then WriteBlocking_loop ks q (drop (unat m) d) (n - m) (w + m) else Some (q, w + m))"
    using b by (simp add: Let_def q_def)
  moreover have "WrOff q = (let m = ?m in if WrOff r + m = SizeOfBuffer r then 0 else WrOff r + m)"
    using P by (simp add: q_def Let_def same_channel_def)
  ultimately show thesis using that [of q] Q P same_channel_trans [OF P(3) Q(3)] by simp
qed

text \<open>
  Nothing is lost, doubled or reordered between the bytes the probe takes and those still there.
\<close>

lemma WriteBlocking_loop_stream:
  "ring_ok r \<Longrightarrow> unat n \<le> length d \<Longrightarrow> WriteBlocking_loop ks r d n w = Some (r', w') \<Longrightarrow>
    ring_ok r' \<and> same_channel r r' \<and> w' = w + n \<and> (\<exists>taken. taken @ contents r' = contents r @ take (unat n) d)"
proof (induction ks arbitrary: r d n w)
  case (Cons k ks)
  let ?m = "block_step (probe k r) n"
  from Cons.prems(1,2) obtain q where q: "ring_ok q" "same_channel r q"
      "contents q = drop k (contents r) @ take (unat ?m) d"
    and E: "WriteBlocking_loop (k # ks) r d n w =
      (let m = ?m in
       if n - m \<noteq> 0 then WriteBlocking_loop ks q (drop (unat m) d) (n - m) (w + m) else Some (q, w + m))"
    by (rule WriteBlocking_loop_step)
  have mn: "?m \<le> n" by (simp add: block_step_def)
  then have u: "unat (n - ?m) = unat n - unat ?m" by (rule unat_minus)
  show ?case
  proof (cases "n - ?m \<noteq> 0")
    case True
    then have L: "WriteBlocking_loop ks q (drop (unat ?m) d) (n - ?m) (w + ?m) = Some (r', w')"
      using E Cons.prems(3) by (simp add: Let_def)
    have le: "unat (n - ?m) \<le> length (drop (unat ?m) d)" using u Cons.prems(2) by simp
    from Cons.IH [OF q(1) le L] obtain taken where I: "ring_ok r'" "same_channel q r'" "w' = w + ?m + (n - ?m)"
      "taken @ contents r' = contents q @ take (unat n - unat ?m) (drop (unat ?m) d)" using u by auto
    have "take (unat ?m) d @ take (unat n - unat ?m) (drop (unat ?m) d) = take (unat n) d"
      using mn by (metis le_add_diff_inverse take_add word_le_nat_alt)
    then have "(take k (contents r) @ taken) @ contents r' = contents r @ take (unat n) d"
      using I(4) q(3) by simp
    then have "\<exists>taken. taken @ contents r' = contents r @ take (unat n) d" by blast
    moreover have "w' = w + n" using I(3) by simp
    ultimately show ?thesis using I(1) same_channel_trans [OF q(2) I(2)] by simp
  next
    case False
    then have "?m = n" by simp
    then have "r' = q" "w' = w + n" using E Cons.prems(3) False by (simp_all add: Let_def)
    then show ?thesis using q \<open>?m = n\<close> by (auto intro!: exI [of _ "take k (contents r)"])
  qed
qed simp

text \<open>It ends when the probe takes at least one byte before every round, and at once when the data fits.\<close>

lemma WriteBlocking_loop_ends:
  "ring_ok r \<Longrightarrow> unat n \<le> length d \<Longrightarrow> 0 < capacity r \<Longrightarrow> \<forall>k\<in>set ks. 0 < k \<Longrightarrow> unat n \<le> length ks \<Longrightarrow> ks \<noteq> [] \<Longrightarrow>
    WriteBlocking_loop ks r d n w \<noteq> None"
proof (induction ks arbitrary: r d n w)
  case (Cons k ks)
  let ?m = "block_step (probe k r) n"
  from Cons.prems(1,2) obtain q where q: "ring_ok q" "same_channel r q"
    and E: "WriteBlocking_loop (k # ks) r d n w =
      (let m = ?m in
       if n - m \<noteq> 0 then WriteBlocking_loop ks q (drop (unat m) d) (n - m) (w + m) else Some (q, w + m))"
    by (rule WriteBlocking_loop_step)
  have mn: "?m \<le> n" by (simp add: block_step_def)
  then have u: "unat (n - ?m) = unat n - unat ?m" by (rule unat_minus)
  show ?case
  proof (cases "n - ?m \<noteq> 0")
    case True
    from probe_spec [OF Cons.prems(1), of k]
    have P: "ring_ok (probe k r)" "contents (probe k r) = drop k (contents r)" "capacity (probe k r) = capacity r"
      by (auto dest: same_channel_capacity)
    have "0 < k" using Cons.prems(4) by simp
    then have "0 < capacity (probe k r) - length (contents (probe k r))"
      using P contents_capacity [OF Cons.prems(1)] Cons.prems(3) by (cases "contents r = []") auto
    moreover have "unat (WrOff (probe k r)) < unat (SizeOfBuffer (probe k r))" using P(1) by (rule ring_okD)
    moreover have "0 < unat n" using True mn by (metis gr0I unat_eq_zero word_le_0_iff diff_self)
    ultimately have "0 < unat ?m" using unat_block_step [OF P(1), of n] by simp
    then have le: "unat (n - ?m) \<le> length ks" using u Cons.prems(5) by simp
    have "unat (n - ?m) \<noteq> 0" using True by (simp add: unat_eq_0)
    then have "ks \<noteq> []" using le by auto
    moreover have "unat (n - ?m) \<le> length (drop (unat ?m) d)" using u Cons.prems(2) by simp
    moreover have "0 < capacity q" using same_channel_capacity [OF q(2)] Cons.prems(3) by simp
    ultimately have "WriteBlocking_loop ks q (drop (unat ?m) d) (n - ?m) (w + ?m) \<noteq> None"
      using Cons.IH [OF q(1)] Cons.prems(4) le by simp
    then show ?thesis using E True by (simp add: Let_def)
  next
    case False
    then show ?thesis using E by (simp add: Let_def)
  qed
qed simp

lemma WriteBlocking_fits:
  assumes "ring_ok r" "unat n \<le> length d" "length (contents r) + unat n \<le> capacity r"
  shows "\<exists>r'. WriteBlocking [0, 0] r d n = Some (r', n) \<and> ring_ok r' \<and> same_channel r r' \<and>
    contents r' = contents r @ take (unat n) d"
proof -
  have p0: "RdOff (probe 0 q) = RdOff q" if "ring_ok q" for q
    using that unat_u32 [of "SizeOfBuffer q"] by (auto elim!: ring_okD simp: probe_def Let_def)
  let ?r = "probe 0 r" and ?m = "block_step (probe 0 r) n"
  from probe_spec [OF assms(1), of 0] have P: "ring_ok ?r" "contents ?r = contents r" "same_channel r ?r"
    "WrOff ?r = WrOff r" by auto
  have Ps: "SizeOfBuffer ?r = SizeOfBuffer r" "capacity ?r = capacity r"
    using P(3) by (simp_all add: same_channel_def capacity_def)
  have um: "unat ?m = min (unat (SizeOfBuffer r) - unat (WrOff r)) (unat n)"
    using unat_block_step [OF P(1), of n, unfolded P(2,4) Ps] assms(3) by linarith
  have mn: "?m \<le> n" by (simp add: block_step_def)
  then have u: "unat (n - ?m) = unat n - unat ?m" by (rule unat_minus)
  obtain r1 where q: "ring_ok r1" "same_channel r r1" "contents r1 = contents r @ take (unat ?m) d"
      "WrOff r1 = (let m = ?m in if WrOff r + m = SizeOfBuffer r then 0 else WrOff r + m)"
    and E: "WriteBlocking_loop [0, 0] r d n 0 =
      (let m = ?m in
       if n - m \<noteq> 0 then WriteBlocking_loop [0] r1 (drop (unat m) d) (n - m) (0 + m) else Some (r1, 0 + m))"
    using WriteBlocking_loop_step [OF assms(1,2), of 0 "[0]" 0] by auto
  show ?thesis
  proof (cases "n - ?m = 0")
    case True
    then have "?m = n" by simp
    then show ?thesis using E q by (auto simp: WriteBlocking_def)
  next
    case False
    then have nz: "unat n - unat ?m \<noteq> 0" using u by (metis unat_eq_0)
    then have lt: "unat ?m = unat (SizeOfBuffer r) - unat (WrOff r)" "unat (SizeOfBuffer r) - unat (WrOff r) < unat n"
      using um by auto
    let ?n = "n - ?m" and ?d = "drop (unat ?m) d"
    have le: "unat ?n \<le> length ?d" using u assms(2) by simp
    obtain r2 where s: "ring_ok r2" "same_channel r1 r2"
        "contents r2 = contents r1 @ take (unat (block_step (probe 0 r1) ?n)) ?d"
      and E2: "WriteBlocking_loop [0] r1 ?d ?n (0 + ?m) =
        (let m = block_step (probe 0 r1) ?n in
         if ?n - m \<noteq> 0 then WriteBlocking_loop [] r2 (drop (unat m) ?d) (?n - m) (0 + ?m + m) else Some (r2, 0 + ?m + m))"
      using WriteBlocking_loop_step [OF q(1) le, of 0 "[]" "0 + ?m"] by auto
    from probe_spec [OF q(1), of 0] have P1: "ring_ok (probe 0 r1)" "contents (probe 0 r1) = contents r1"
      "same_channel r1 (probe 0 r1)" "WrOff (probe 0 r1) = WrOff r1" by auto
    have w0: "WrOff r1 = 0"
    proof -
      have "unat (WrOff r) < unat (SizeOfBuffer r)" using assms(1) by (rule ring_okD)
      then have "unat (WrOff r + ?m) = unat (SizeOfBuffer r)"
        using lt unat_u32 [of "SizeOfBuffer r"] by (subst unat_plus) auto
      then have "WrOff r + ?m = SizeOfBuffer r" by (simp add: word_unat_eq_iff)
      then show ?thesis using q(4) by (simp add: Let_def)
    qed
    have "length (contents r1) = length (contents r) + unat ?m" using q(3) assms(2) mn by (simp add: word_le_nat_alt)
    moreover have c: "capacity (probe 0 r1) = capacity r" "SizeOfBuffer (probe 0 r1) = SizeOfBuffer r"
      using same_channel_trans [OF q(2) P1(3)] by (simp_all add: same_channel_def capacity_def)
    moreover have "unat ?n \<le> unat (SizeOfBuffer r)" using assms(3) u by (simp add: capacity_def)
    ultimately have "unat (block_step (probe 0 r1) ?n) = unat ?n"
      using unat_block_step [OF P1(1), of ?n] P1(2,4) w0 u assms(3) by simp
    then have all: "block_step (probe 0 r1) ?n = ?n" by (simp add: word_unat_eq_iff)
    have "take (unat ?m) d @ take (unat n - unat ?m) (drop (unat ?m) d) = take (unat n) d"
      using mn by (metis le_add_diff_inverse take_add word_le_nat_alt)
    then have "contents r2 = contents r @ take (unat n) d" using s(3) q(3) all u by simp
    then show ?thesis using E E2 all False s(1) same_channel_trans [OF q(2) s(2)]
      by (auto simp: WriteBlocking_def Let_def)
  qed
qed

subsection \<open>The three modes of a write\<close>

lemma WriteMode_skip:
  assumes "ring_ok r" "Flags r = MODE_NO_BLOCK_SKIP" "unat n \<le> length d"
  shows "if length (contents r) + unat n \<le> capacity r
    then \<exists>r'. WriteMode ks r d n = Some (r', n) \<and> ring_ok r' \<and> contents r' = contents r @ take (unat n) d \<and> same_channel r r'
    else WriteMode ks r d n = Some (r, 0)"
proof -
  have e: "GetAvailWriteSpace r < n \<longleftrightarrow> \<not> length (contents r) + unat n \<le> capacity r"
    using unat_avail [OF assms(1)] contents_capacity [OF assms(1)] by (simp add: word_less_nat_alt) linarith
  then show ?thesis using WriteNoCheck_spec [OF assms(1,3)] assms(2)
    by (auto simp: WriteMode_def Let_def)
qed

lemma WriteMode_trim:
  assumes "ring_ok r" "Flags r = MODE_NO_BLOCK_TRIM" "unat n \<le> length d"
  defines "m \<equiv> min (capacity r - length (contents r)) (unat n)"
  shows "\<exists>r'. WriteMode ks r d n = Some (r', word_of_nat m) \<and> ring_ok r' \<and> contents r' = contents r @ take m d \<and> same_channel r r'"
proof -
  let ?m = "if GetAvailWriteSpace r < n then GetAvailWriteSpace r else n"
  have u: "unat ?m = m" using unat_avail [OF assms(1)] by (auto simp: m_def word_less_nat_alt)
  then have w: "?m = word_of_nat m" unfolding u [symmetric] by simp
  have "length (contents r) + unat ?m \<le> capacity r" using u contents_capacity [OF assms(1)] by (simp add: m_def)
  moreover have "unat ?m \<le> length d" using u assms(3) by (simp add: m_def)
  ultimately obtain r' where "WriteNoCheck r d ?m = Some r'" "ring_ok r'" "contents r' = contents r @ take m d" "same_channel r r'"
    using WriteNoCheck_spec [OF assms(1), of ?m d] u by auto
  then show ?thesis using assms(2) w by (simp add: WriteMode_def Let_def mode_defs)
qed

subsection \<open>Writing over the oldest data\<close>

lemma WriteWithOverwrite_spec:
  assumes r: "ring_ok r" and n: "unat n \<le> length d" "unat n \<le> capacity r"
    and sz: "unat (SizeOfBuffer r) \<le> 2 ^ 31" and fuel: "2 \<le> fuel"
  shows "\<exists>r'. WriteWithOverwrite fuel r d n = Some r' \<and> ring_ok r' \<and> same_channel r r' \<and>
    contents r' = drop (length (contents r) + unat n - capacity r) (contents r @ take (unat n) d)"
proof -
  let ?s = "unat (SizeOfBuffer r)" and ?w = "unat (WrOff r)" and ?o = "unat (RdOff r)"
  let ?av = "if WrOff r = RdOff r then SizeOfBuffer r - 1 else if WrOff r < RdOff r then RdOff r - WrOff r - 1
    else RdOff r - WrOff r - 1 + SizeOfBuffer r"
  let ?k = "length (contents r) + unat n - capacity r"
  from r have l: "?w < ?s" "?o < ?s" by (auto elim!: ring_okD)
  obtain f where f: "fuel = Suc (Suc f)" using fuel by (metis Suc_le_D numeral_2_eq_2 Suc_le_mono)
  have avs: "?av = GetAvailWriteSpace r" by (auto simp: GetAvailWriteSpace_def)
  have av: "unat ?av = capacity r - length (contents r)" unfolding avs by (rule unat_avail [OF r])
  have lc: "length (contents r) \<le> capacity r" by (rule contents_capacity [OF r])
  let ?rd = "RdOff (probe ?k r)"
  have kc: "?k \<le> length (contents r)" using n(2) by simp
  have rdv: "(if n > ?av then dec_to (SizeOfBuffer r) fuel (RdOff r + (n - ?av)) else Some (RdOff r)) = Some ?rd"
  proof (cases "n > ?av")
    case True
    then have "?av \<le> n" by (rule less_imp_le)
    from unat_minus [OF this] have k: "unat (n - ?av) = ?k" using av lc by linarith
    have "?k < ?s" using n(2) lc l by (simp add: capacity_def)
    then have u: "unat (RdOff r + (n - ?av)) = ?o + ?k" using k l sz by (subst unat_plus) auto
    have p: "unat ?rd = (if ?o + ?k \<ge> ?s then ?o + ?k - ?s else ?o + ?k)"
      using kc l \<open>?k < ?s\<close> sz by (auto simp: probe_def Let_def unat_of_nat)
    have d: "dec_to (SizeOfBuffer r) fuel (RdOff r + (n - ?av)) =
      Some (if RdOff r + (n - ?av) \<ge> SizeOfBuffer r then RdOff r + (n - ?av) - SizeOfBuffer r else RdOff r + (n - ?av))"
    proof (cases "RdOff r + (n - ?av) \<ge> SizeOfBuffer r")
      case ge: True
      then have "unat (RdOff r + (n - ?av) - SizeOfBuffer r) = ?o + ?k - ?s" using u by (subst unat_minus) auto
      then have "\<not> RdOff r + (n - ?av) - SizeOfBuffer r \<ge> SizeOfBuffer r"
        using l \<open>?k < ?s\<close> by (simp add: word_le_nat_alt)
      then show ?thesis using ge f by simp
    next
      case False
      then show ?thesis using f by simp
    qed
    have "(if RdOff r + (n - ?av) \<ge> SizeOfBuffer r then RdOff r + (n - ?av) - SizeOfBuffer r else RdOff r + (n - ?av)) = ?rd"
      using u p by (auto simp: word_unat_eq_iff word_le_nat_alt unat_minus)
    then show ?thesis using True d by simp
  next
    case False
    then have "?k = 0" using av lc by (simp add: word_less_nat_alt)
    moreover have "RdOff (probe 0 r) = RdOff r" using l unat_u32 [of "SizeOfBuffer r"]
      by (simp add: probe_def Let_def word_unat_eq_iff unat_of_nat)
    ultimately show ?thesis using False by simp
  qed
  define q where "q = r\<lparr>RdOff := ?rd\<rparr>"
  have "q = probe ?k r" by (simp add: q_def probe_def Let_def)
  then have Q: "ring_ok q" "contents q = drop ?k (contents r)" "same_channel r q" "WrOff q = WrOff r"
    using probe_spec [OF r] by auto
  have Qs: "SizeOfBuffer q = SizeOfBuffer r" "capacity q = capacity r"
    using Q(3) by (simp_all add: same_channel_def capacity_def)
  have fit: "length (contents q) + unat n \<le> capacity q" using Q(2) Qs lc n(2) by simp
  have W: "WriteWithOverwrite fuel r d n = Overwrite_loop fuel q d n (SizeOfBuffer r - WrOff r)"
    unfolding WriteWithOverwrite_def Let_def using rdv by (simp add: q_def)
  have rem: "unat (SizeOfBuffer r - WrOff r) = ?s - ?w" using l by (subst unat_minus) (auto simp: u32_le)
  have tgt: "contents q @ take (unat n) d = drop ?k (contents r @ take (unat n) d)" using Q(2) kc by simp
  show ?thesis
  proof (cases "SizeOfBuffer r - WrOff r > n")
    case True
    then have "unat (WrOff q) + unat n < unat (SizeOfBuffer q)" using rem Q(4) Qs by (simp add: u32_le)
    from append_flat [OF Q(1) n(1) this fit] True f Q(3) tgt show ?thesis
      unfolding W by (auto simp: Let_def same_channel_def)
  next
    case False
    then have le: "SizeOfBuffer q - WrOff q \<le> n" using Q(4) Qs by simp
    obtain b1 b2 where m: "mem_put (pBuffer q) (WrOff q) d (SizeOfBuffer q - WrOff q) = Some b1"
        "mem_put b1 0 (drop (unat (SizeOfBuffer q - WrOff q)) d) (n - (SizeOfBuffer q - WrOff q)) = Some b2"
      and R: "ring_ok (q\<lparr>pBuffer := b2, WrOff := n - (SizeOfBuffer q - WrOff q)\<rparr>)"
        "contents (q\<lparr>pBuffer := b2, WrOff := n - (SizeOfBuffer q - WrOff q)\<rparr>) = contents q @ take (unat n) d"
      using append_wrap [OF Q(1) n(1) le fit] by (auto simp: Let_def)
    let ?n = "n - (SizeOfBuffer q - WrOff q)"
    have un: "unat ?n = unat n - (?s - ?w)" using le rem Q(4) Qs by (subst unat_minus) auto
    have s1: "unat (SizeOfBuffer r - 1) = ?s - 1" using l by (subst unat_minus) (auto simp: u32_le)
    have gt: "SizeOfBuffer r - 1 > ?n" if "?n \<noteq> 0"
    proof -
      have "0 < unat ?n" using that by (simp add: unat_gt_0)
      then have "unat ?n < ?s - 1" using un n(2) l by (simp add: capacity_def)
      then show ?thesis using s1 by (simp add: word_less_nat_alt)
    qed
    have z: "?n = 0 \<Longrightarrow> b2 = b1" using m(2) by (simp add: mem_put_def)
    have "Overwrite_loop fuel q d n (SizeOfBuffer r - WrOff r) = Some (q\<lparr>pBuffer := b2, WrOff := ?n\<rparr>)"
      using False f m gt z Q(4) Qs by (cases "?n = 0") simp_all
    then show ?thesis using R Q(3) tgt unfolding W by (auto simp: same_channel_def)
  qed
qed

text \<open>
  Larger blocks are not stored right: after the first round the loop takes the room to be one less
  than the array. A block of seven bytes leaves a four-byte channel empty.
\<close>

lemma WriteWithOverwrite_loses:
  "map_option contents (WriteWithOverwrite 5
      \<lparr>sName = [], pBuffer = Some [0, 0, 0, 0], SizeOfBuffer = 4, WrOff = 0, RdOff = 0, Flags = 0\<rparr>
      [1, 2, 3, 4, 5, 6, 7] 7) = Some []"
  by code_simp

subsection \<open>The control block\<close>

definition unused_channel :: rtt_buffer where
  "unused_channel = \<lparr>sName = [], pBuffer = None, SizeOfBuffer = 0, WrOff = 0, RdOff = 0, Flags = 0\<rparr>"

text \<open>The memory of the control block before the first call: all zero.\<close>

definition rtt_boot :: rtt_cb where
  "rtt_boot = \<lparr>acID = replicate 16 0, MaxNumUpBuffers = 0, MaxNumDownBuffers = 0,
     aUp = replicate SEGGER_RTT_MAX_NUM_UP_BUFFERS unused_channel,
     aDown = replicate SEGGER_RTT_MAX_NUM_DOWN_BUFFERS unused_channel, ActiveTerminal = 0\<rparr>"

definition bytes_of :: "string \<Rightarrow> u8 list" where
  "bytes_of s = map of_char s"

text \<open>
  The two arrays of channel 0 are given as zeros: what they hold is not visible while the offsets are
  equal. The identifier is copied backwards from a reversed literal.
\<close>

definition DoInit :: "rtt_cb \<Rightarrow> rtt_cb" where
  "DoInit p = p\<lparr>
     acID := rev (replicate 6 0 @ bytes_of ''TTR REGGES''),
     MaxNumUpBuffers := int SEGGER_RTT_MAX_NUM_UP_BUFFERS,
     MaxNumDownBuffers := int SEGGER_RTT_MAX_NUM_DOWN_BUFFERS,
     aUp := (replicate SEGGER_RTT_MAX_NUM_UP_BUFFERS unused_channel)[0 :=
       \<lparr>sName = ''Terminal'', pBuffer = Some (replicate BUFFER_SIZE_UP 0), SizeOfBuffer = word_of_nat BUFFER_SIZE_UP,
        WrOff = 0, RdOff = 0, Flags = MODE_NO_BLOCK_SKIP\<rparr>],
     aDown := (replicate SEGGER_RTT_MAX_NUM_DOWN_BUFFERS unused_channel)[0 :=
       \<lparr>sName = ''Terminal'', pBuffer = Some (replicate BUFFER_SIZE_DOWN 0), SizeOfBuffer = word_of_nat BUFFER_SIZE_DOWN,
        WrOff = 0, RdOff = 0, Flags = MODE_NO_BLOCK_SKIP\<rparr>]\<rparr>"

definition INIT :: "rtt_cb \<Rightarrow> rtt_cb" where
  "INIT p = (if hd (acID p) \<noteq> of_char (CHR ''S'') then DoInit p else p)"

definition SEGGER_RTT_Init :: "rtt_cb \<Rightarrow> rtt_cb" where
  "SEGGER_RTT_Init p = DoInit p"

text \<open>Access to \<open>aUp[BufferIndex]\<close> and \<open>aDown[BufferIndex]\<close>; an index past the array is a fault.\<close>

definition on_up :: "nat \<Rightarrow> (rtt_buffer \<Rightarrow> (rtt_buffer \<times> 'a) option) \<Rightarrow> rtt_cb \<Rightarrow> (rtt_cb \<times> 'a) option" where
  "on_up i f p =
     (if i < length (aUp p) then map_option (\<lambda>(r, x). (p\<lparr>aUp := (aUp p)[i := r]\<rparr>, x)) (f (aUp p ! i)) else None)"

definition on_down :: "nat \<Rightarrow> (rtt_buffer \<Rightarrow> (rtt_buffer \<times> 'a) option) \<Rightarrow> rtt_cb \<Rightarrow> (rtt_cb \<times> 'a) option" where
  "on_down i f p =
     (if i < length (aDown p) then map_option (\<lambda>(r, x). (p\<lparr>aDown := (aDown p)[i := r]\<rparr>, x)) (f (aDown p ! i)) else None)"

subsection \<open>Reading and writing through the control block\<close>

definition SEGGER_RTT_ReadUpBufferNoLock :: "nat \<Rightarrow> u32 \<Rightarrow> rtt_cb \<Rightarrow> (rtt_cb \<times> u8 list) option" where
  "SEGGER_RTT_ReadUpBufferNoLock i n p = on_up i (\<lambda>r. ReadRing r n) (INIT p)"

definition SEGGER_RTT_ReadNoLock :: "nat \<Rightarrow> u32 \<Rightarrow> rtt_cb \<Rightarrow> (rtt_cb \<times> u8 list) option" where
  "SEGGER_RTT_ReadNoLock i n p = on_down i (\<lambda>r. ReadRing r n) (INIT p)"

definition SEGGER_RTT_ReadUpBuffer :: "nat \<Rightarrow> u32 \<Rightarrow> rtt_cb \<Rightarrow> (rtt_cb \<times> u8 list) option" where
  "SEGGER_RTT_ReadUpBuffer i n p = SEGGER_RTT_ReadUpBufferNoLock i n p"

definition SEGGER_RTT_Read :: "nat \<Rightarrow> u32 \<Rightarrow> rtt_cb \<Rightarrow> (rtt_cb \<times> u8 list) option" where
  "SEGGER_RTT_Read i n p = SEGGER_RTT_ReadNoLock i n p"

definition SEGGER_RTT_WriteWithOverwriteNoLock :: "nat \<Rightarrow> nat \<Rightarrow> u8 list \<Rightarrow> u32 \<Rightarrow> rtt_cb \<Rightarrow> (rtt_cb \<times> unit) option" where
  "SEGGER_RTT_WriteWithOverwriteNoLock fuel i d n p =
     on_up i (\<lambda>r. map_option (\<lambda>r'. (r', ())) (WriteWithOverwrite fuel r d n)) p"

definition SEGGER_RTT_WriteSkipNoLock :: "nat \<Rightarrow> u8 list \<Rightarrow> u32 \<Rightarrow> rtt_cb \<Rightarrow> (rtt_cb \<times> u32) option" where
  "SEGGER_RTT_WriteSkipNoLock i d n p = on_up i (\<lambda>r. WriteSkip r d n) p"

definition SEGGER_RTT_WriteDownBufferNoLock :: "nat list \<Rightarrow> nat \<Rightarrow> u8 list \<Rightarrow> u32 \<Rightarrow> rtt_cb \<Rightarrow> (rtt_cb \<times> u32) option" where
  "SEGGER_RTT_WriteDownBufferNoLock ks i d n p = on_down i (\<lambda>r. WriteMode ks r d n) p"

definition SEGGER_RTT_WriteNoLock :: "nat list \<Rightarrow> nat \<Rightarrow> u8 list \<Rightarrow> u32 \<Rightarrow> rtt_cb \<Rightarrow> (rtt_cb \<times> u32) option" where
  "SEGGER_RTT_WriteNoLock ks i d n p = on_up i (\<lambda>r. WriteMode ks r d n) p"

definition SEGGER_RTT_WriteDownBuffer :: "nat list \<Rightarrow> nat \<Rightarrow> u8 list \<Rightarrow> u32 \<Rightarrow> rtt_cb \<Rightarrow> (rtt_cb \<times> u32) option" where
  "SEGGER_RTT_WriteDownBuffer ks i d n p = SEGGER_RTT_WriteDownBufferNoLock ks i d n (INIT p)"

definition SEGGER_RTT_Write :: "nat list \<Rightarrow> nat \<Rightarrow> u8 list \<Rightarrow> u32 \<Rightarrow> rtt_cb \<Rightarrow> (rtt_cb \<times> u32) option" where
  "SEGGER_RTT_Write ks i d n p = SEGGER_RTT_WriteNoLock ks i d n (INIT p)"

text \<open>A C string is the bytes before its terminator.\<close>

definition SEGGER_RTT_WriteString :: "nat list \<Rightarrow> nat \<Rightarrow> u8 list \<Rightarrow> rtt_cb \<Rightarrow> (rtt_cb \<times> u32) option" where
  "SEGGER_RTT_WriteString ks i s p = SEGGER_RTT_Write ks i s (word_of_nat (length s)) p"

definition SEGGER_RTT_PutCharSkipNoLock :: "nat \<Rightarrow> u8 \<Rightarrow> rtt_cb \<Rightarrow> (rtt_cb \<times> u32) option" where
  "SEGGER_RTT_PutCharSkipNoLock i c p = on_up i (\<lambda>r. PutCharSkip r c) p"

definition SEGGER_RTT_PutCharSkip :: "nat \<Rightarrow> u8 \<Rightarrow> rtt_cb \<Rightarrow> (rtt_cb \<times> u32) option" where
  "SEGGER_RTT_PutCharSkip i c p = on_up i (\<lambda>r. PutCharSkip r c) (INIT p)"

definition SEGGER_RTT_PutChar :: "nat list \<Rightarrow> nat \<Rightarrow> u8 \<Rightarrow> rtt_cb \<Rightarrow> (rtt_cb \<times> u32) option" where
  "SEGGER_RTT_PutChar ks i c p = on_up i (\<lambda>r. PutChar ks r c) (INIT p)"

subsection \<open>Keyboard input and the fill level\<close>

definition SEGGER_RTT_GetKey :: "rtt_cb \<Rightarrow> (rtt_cb \<times> int) option" where
  "SEGGER_RTT_GetKey p =
     map_option (\<lambda>(p, c). (p, if length c = 1 then uint (hd c) else - 1)) (SEGGER_RTT_Read 0 1 p)"

text \<open>
  \<open>SEGGER_RTT_WaitKey\<close> repeats until there is a character. The probe sends \<open>bs\<close> to channel 0 before
  each repetition; the result is \<open>None\<close> when nothing has come by then.
\<close>

definition host_send :: "u8 list \<Rightarrow> rtt_cb \<Rightarrow> rtt_cb" where
  "host_send bs p = (case on_down 0 (\<lambda>r. WriteSkip r bs (word_of_nat (length bs))) p of Some (p', _) \<Rightarrow> p' | None \<Rightarrow> p)"

primrec SEGGER_RTT_WaitKey :: "u8 list list \<Rightarrow> rtt_cb \<Rightarrow> (rtt_cb \<times> int) option" where
  "SEGGER_RTT_WaitKey [] p =
     (case SEGGER_RTT_GetKey p of None \<Rightarrow> None | Some (p, r) \<Rightarrow> if r < 0 then None else Some (p, r))"
| "SEGGER_RTT_WaitKey (bs # feed) p =
     (case SEGGER_RTT_GetKey p of None \<Rightarrow> None
      | Some (p, r) \<Rightarrow> if r < 0 then SEGGER_RTT_WaitKey feed (host_send bs p) else Some (p, r))"

definition SEGGER_RTT_HasKey :: "rtt_cb \<Rightarrow> (rtt_cb \<times> int) option" where
  "SEGGER_RTT_HasKey p = on_down 0 (\<lambda>r. Some (r, if RdOff r \<noteq> WrOff r then 1 else 0)) (INIT p)"

definition SEGGER_RTT_HasData :: "nat \<Rightarrow> rtt_cb \<Rightarrow> u32 option" where
  "SEGGER_RTT_HasData i p = (if i < length (aDown p) then Some (WrOff (aDown p ! i) - RdOff (aDown p ! i)) else None)"

definition SEGGER_RTT_HasDataUp :: "nat \<Rightarrow> rtt_cb \<Rightarrow> u32 option" where
  "SEGGER_RTT_HasDataUp i p = (if i < length (aUp p) then Some (WrOff (aUp p ! i) - RdOff (aUp p ! i)) else None)"

definition SEGGER_RTT_GetAvailWriteSpace :: "nat \<Rightarrow> rtt_cb \<Rightarrow> u32 option" where
  "SEGGER_RTT_GetAvailWriteSpace i p = (if i < length (aUp p) then Some (GetAvailWriteSpace (aUp p ! i)) else None)"

definition BytesInBuffer :: "rtt_buffer \<Rightarrow> u32" where
  "BytesInBuffer r =
     (if RdOff r \<le> WrOff r then WrOff r - RdOff r else SizeOfBuffer r - (WrOff r - RdOff r))"

definition SEGGER_RTT_GetBytesInBuffer :: "nat \<Rightarrow> rtt_cb \<Rightarrow> u32 option" where
  "SEGGER_RTT_GetBytesInBuffer i p = (if i < length (aUp p) then Some (BytesInBuffer (aUp p ! i)) else None)"

subsection \<open>Setting up channels\<close>

text \<open>The first free channel, or the number of channels.\<close>

primrec first_free :: "nat \<Rightarrow> rtt_buffer list \<Rightarrow> nat" where
  "first_free i [] = i"
| "first_free i (r # rs) = (if pBuffer r = None then i else first_free (Suc i) rs)"

definition new_channel :: "string \<Rightarrow> u8 list \<Rightarrow> u32 \<Rightarrow> rtt_buffer" where
  "new_channel name buf flags = \<lparr>sName = name, pBuffer = Some buf, SizeOfBuffer = word_of_nat (length buf),
     WrOff = 0, RdOff = 0, Flags = flags\<rparr>"

definition SEGGER_RTT_AllocUpBuffer :: "string \<Rightarrow> u8 list \<Rightarrow> u32 \<Rightarrow> rtt_cb \<Rightarrow> rtt_cb \<times> int" where
  "SEGGER_RTT_AllocUpBuffer name buf flags p =
     (let p = INIT p; i = first_free 0 (aUp p) in
      if int i < MaxNumUpBuffers p then (p\<lparr>aUp := (aUp p)[i := new_channel name buf flags]\<rparr>, int i) else (p, - 1))"

definition SEGGER_RTT_AllocDownBuffer :: "string \<Rightarrow> u8 list \<Rightarrow> u32 \<Rightarrow> rtt_cb \<Rightarrow> rtt_cb \<times> int" where
  "SEGGER_RTT_AllocDownBuffer name buf flags p =
     (let p = INIT p; i = first_free 0 (aDown p) in
      if int i < MaxNumDownBuffers p then (p\<lparr>aDown := (aDown p)[i := new_channel name buf flags]\<rparr>, int i) else (p, - 1))"

definition SEGGER_RTT_ConfigUpBuffer :: "nat \<Rightarrow> string \<Rightarrow> u8 list \<Rightarrow> u32 \<Rightarrow> rtt_cb \<Rightarrow> rtt_cb \<times> int" where
  "SEGGER_RTT_ConfigUpBuffer i name buf flags p =
     (let p = INIT p in
      if i < SEGGER_RTT_MAX_NUM_UP_BUFFERS then
        (p\<lparr>aUp := (aUp p)[i := if i \<noteq> 0 then new_channel name buf flags else (aUp p ! i)\<lparr>Flags := flags\<rparr>]\<rparr>, 0)
      else (p, - 1))"

definition SEGGER_RTT_ConfigDownBuffer :: "nat \<Rightarrow> string \<Rightarrow> u8 list \<Rightarrow> u32 \<Rightarrow> rtt_cb \<Rightarrow> rtt_cb \<times> int" where
  "SEGGER_RTT_ConfigDownBuffer i name buf flags p =
     (let p = INIT p in
      if i < SEGGER_RTT_MAX_NUM_DOWN_BUFFERS then
        (p\<lparr>aDown := (aDown p)[i := if i \<noteq> 0 then new_channel name buf flags else (aDown p ! i)\<lparr>Flags := flags\<rparr>]\<rparr>, 0)
      else (p, - 1))"

definition SEGGER_RTT_SetNameUpBuffer :: "nat \<Rightarrow> string \<Rightarrow> rtt_cb \<Rightarrow> rtt_cb \<times> int" where
  "SEGGER_RTT_SetNameUpBuffer i name p =
     (let p = INIT p in
      if i < SEGGER_RTT_MAX_NUM_UP_BUFFERS then (p\<lparr>aUp := (aUp p)[i := (aUp p ! i)\<lparr>sName := name\<rparr>]\<rparr>, 0) else (p, - 1))"

definition SEGGER_RTT_SetNameDownBuffer :: "nat \<Rightarrow> string \<Rightarrow> rtt_cb \<Rightarrow> rtt_cb \<times> int" where
  "SEGGER_RTT_SetNameDownBuffer i name p =
     (let p = INIT p in
      if i < SEGGER_RTT_MAX_NUM_DOWN_BUFFERS then (p\<lparr>aDown := (aDown p)[i := (aDown p ! i)\<lparr>sName := name\<rparr>]\<rparr>, 0)
      else (p, - 1))"

definition SEGGER_RTT_SetFlagsUpBuffer :: "nat \<Rightarrow> u32 \<Rightarrow> rtt_cb \<Rightarrow> rtt_cb \<times> int" where
  "SEGGER_RTT_SetFlagsUpBuffer i flags p =
     (let p = INIT p in
      if i < SEGGER_RTT_MAX_NUM_UP_BUFFERS then (p\<lparr>aUp := (aUp p)[i := (aUp p ! i)\<lparr>Flags := flags\<rparr>]\<rparr>, 0) else (p, - 1))"

definition SEGGER_RTT_SetFlagsDownBuffer :: "nat \<Rightarrow> u32 \<Rightarrow> rtt_cb \<Rightarrow> rtt_cb \<times> int" where
  "SEGGER_RTT_SetFlagsDownBuffer i flags p =
     (let p = INIT p in
      if i < SEGGER_RTT_MAX_NUM_DOWN_BUFFERS then (p\<lparr>aDown := (aDown p)[i := (aDown p ! i)\<lparr>Flags := flags\<rparr>]\<rparr>, 0)
      else (p, - 1))"

subsection \<open>Virtual terminals\<close>

definition aTerminalId :: "u8 list" where
  "aTerminalId = bytes_of ''0123456789ABCDEF''"

definition terminal_switch :: "u8 \<Rightarrow> u8 list option" where
  "terminal_switch TerminalId =
     (if unat TerminalId < length aTerminalId then Some [0xFF, aTerminalId ! unat TerminalId] else None)"

definition PostTerminalSwitch :: "nat list \<Rightarrow> rtt_buffer \<Rightarrow> u8 \<Rightarrow> rtt_buffer option" where
  "PostTerminalSwitch ks pRing TerminalId = do {
     ac \<leftarrow> terminal_switch TerminalId;
     (pRing, _) \<leftarrow> WriteBlocking ks pRing ac 2;
     Some pRing
   }"

definition SEGGER_RTT_SetTerminal :: "nat list \<Rightarrow> u8 \<Rightarrow> rtt_cb \<Rightarrow> (rtt_cb \<times> int) option" where
  "SEGGER_RTT_SetTerminal ks TerminalId p =
     (let p = INIT p in
      case terminal_switch TerminalId of None \<Rightarrow> Some (p, - 1)
      | Some ac \<Rightarrow>
        (let pRing = aUp p ! 0 in
         if Flags pRing AND MODE_MASK = MODE_BLOCK_IF_FIFO_FULL then do {
           (pRing, _) \<leftarrow> WriteBlocking ks pRing ac 2;
           Some (p\<lparr>ActiveTerminal := TerminalId, aUp := (aUp p)[0 := pRing]\<rparr>, 0)
         } else if GetAvailWriteSpace pRing \<ge> 2 then do {
           pRing \<leftarrow> WriteNoCheck pRing ac 2;
           Some (p\<lparr>ActiveTerminal := TerminalId, aUp := (aUp p)[0 := pRing]\<rparr>, 0)
         } else Some (p, - 1)))"

text \<open>
  \<open>SEGGER_RTT_TerminalOut\<close> makes three blocking writes; each is given the probe's schedule \<open>ks\<close>. The
  status is an \<open>int\<close>.
\<close>

definition terminal_out :: "nat list \<Rightarrow> rtt_buffer \<Rightarrow> u8 \<Rightarrow> u8 \<Rightarrow> u8 list \<Rightarrow> u32 \<Rightarrow> (rtt_buffer \<times> int) option" where
  "terminal_out ks pRing TerminalId active s n = do {
     pRing \<leftarrow> PostTerminalSwitch ks pRing TerminalId;
     (pRing, w) \<leftarrow> WriteBlocking ks pRing s n;
     pRing \<leftarrow> PostTerminalSwitch ks pRing active;
     Some (pRing, as_i32 (uint w))
   }"

definition TerminalOut_ring :: "nat list \<Rightarrow> rtt_buffer \<Rightarrow> u8 \<Rightarrow> u8 \<Rightarrow> u8 list \<Rightarrow> (rtt_buffer \<times> int) option" where
  "TerminalOut_ring ks pRing TerminalId active s =
     (let FragLen = word_of_nat (length s) :: u32; Avail = GetAvailWriteSpace pRing;
          mode = Flags pRing AND MODE_MASK in
      if mode = MODE_NO_BLOCK_SKIP then
        (if Avail < FragLen + 4 then Some (pRing, 0) else terminal_out ks pRing TerminalId active s FragLen)
      else if mode = MODE_NO_BLOCK_TRIM then
        (if Avail < 4 then Some (pRing, - 1)
         else terminal_out ks pRing TerminalId active s (if FragLen < Avail - 4 then FragLen else Avail - 4))
      else if mode = MODE_BLOCK_IF_FIFO_FULL then terminal_out ks pRing TerminalId active s FragLen
      else Some (pRing, - 1))"

definition SEGGER_RTT_TerminalOut :: "nat list \<Rightarrow> u8 \<Rightarrow> u8 list \<Rightarrow> rtt_cb \<Rightarrow> (rtt_cb \<times> int) option" where
  "SEGGER_RTT_TerminalOut ks TerminalId s p =
     (let p = INIT p in
      if unat TerminalId < length aTerminalId
      then on_up 0 (\<lambda>r. TerminalOut_ring ks r TerminalId (ActiveTerminal p) s) p
      else Some (p, - 1))"

end
