(* ===== verification/RttChannel.thy ===== *)
theory RttChannel
  imports RttApi
begin

text \<open>
  The contract of a trace channel, what follows from it for any mixture of writes and of reads by the
  probe, and the proof that the buffers of SEGGER_RTT.c keep it. The recorder (theory SysView) writes
  its packets through this contract.
\<close>

subsection \<open>The abstract channel: a bounded byte queue\<close>

datatype chan_op = Put "u8 list" | Take nat

text \<open>
  A write is stored whole or refused; the probe takes the oldest bytes. The results: the queue, the
  accepted writes, and the bytes the probe has got.
\<close>

primrec queue_run :: "nat \<Rightarrow> chan_op list \<Rightarrow> u8 list \<Rightarrow> u8 list \<times> u8 list list \<times> u8 list" where
  "queue_run cap [] q = (q, [], [])"
| "queue_run cap (x # xs) q =
     (case x of
        Put d \<Rightarrow>
          if length q + length d \<le> cap
          then (case queue_run cap xs (q @ d) of (q', acc, del) \<Rightarrow> (q', d # acc, del))
          else queue_run cap xs q
      | Take k \<Rightarrow> (case queue_run cap xs (drop k q) of (q', acc, del) \<Rightarrow> (q', acc, take k q @ del)))"

lemma queue_run_stream:
  "queue_run cap xs q = (q', acc, del) \<Longrightarrow> length q \<le> cap \<Longrightarrow> del @ q' = q @ concat acc \<and> length q' \<le> cap"
proof (induction xs arbitrary: q q' acc del)
  case (Cons x xs)
  show ?case
  proof (cases x)
    case (Put d)
    then show ?thesis using Cons by (fastforce split: if_splits prod.splits)
  next
    case (Take k)
    then obtain del' where d: "queue_run cap xs (drop k q) = (q', acc, del')" "del = take k q @ del'"
      using Cons.prems by (auto split: prod.splits)
    with Cons.IH [OF d(1)] Cons.prems(2) have "del' @ q' = drop k q @ concat acc" "length q' \<le> cap" by auto
    then show ?thesis using d(2) by (metis append_assoc append_take_drop_id)
  qed
qed simp

text \<open>The same operations on an implementation.\<close>

primrec run_ops :: "(u8 list \<Rightarrow> 'c \<Rightarrow> ('c \<times> bool) option) \<Rightarrow> (nat \<Rightarrow> 'c \<Rightarrow> ('c \<times> u8 list) option) \<Rightarrow> chan_op list \<Rightarrow> 'c \<Rightarrow>
    ('c \<times> u8 list list \<times> u8 list) option" where
  "run_ops wr tk [] c = Some (c, [], [])"
| "run_ops wr tk (x # xs) c =
     (case x of
        Put d \<Rightarrow>
          (case wr d c of None \<Rightarrow> None
           | Some (c', b) \<Rightarrow>
             (case run_ops wr tk xs c' of None \<Rightarrow> None
              | Some (c'', acc, del) \<Rightarrow> Some (c'', if b then d # acc else acc, del)))
      | Take k \<Rightarrow>
          (case tk k c of None \<Rightarrow> None
           | Some (c', bs) \<Rightarrow>
             (case run_ops wr tk xs c' of None \<Rightarrow> None
              | Some (c'', acc, del) \<Rightarrow> Some (c'', acc, bs @ del))))"

definition op_small :: "chan_op \<Rightarrow> bool" where
  "op_small x = (case x of Put d \<Rightarrow> length d < 2 ^ 32 | Take k \<Rightarrow> k < 2 ^ 32)"

locale byte_channel =
  fixes ok :: "'c \<Rightarrow> bool"
    and bytes :: "'c \<Rightarrow> u8 list"
    and cap :: "'c \<Rightarrow> nat"
    and wr :: "u8 list \<Rightarrow> 'c \<Rightarrow> ('c \<times> bool) option"
    and tk :: "nat \<Rightarrow> 'c \<Rightarrow> ('c \<times> u8 list) option"
  assumes wr_room: "ok c \<Longrightarrow> length d < 2 ^ 32 \<Longrightarrow> length (bytes c) + length d \<le> cap c \<Longrightarrow>
      \<exists>c'. wr d c = Some (c', True) \<and> ok c' \<and> bytes c' = bytes c @ d \<and> cap c' = cap c"
    and wr_full: "ok c \<Longrightarrow> length d < 2 ^ 32 \<Longrightarrow> \<not> length (bytes c) + length d \<le> cap c \<Longrightarrow> wr d c = Some (c, False)"
    and tk_law: "ok c \<Longrightarrow> k < 2 ^ 32 \<Longrightarrow>
      \<exists>c'. tk k c = Some (c', take k (bytes c)) \<and> ok c' \<and> bytes c' = drop k (bytes c) \<and> cap c' = cap c"
    and within: "ok c \<Longrightarrow> length (bytes c) \<le> cap c"
begin

lemma run_refines:
  "ok c \<Longrightarrow> \<forall>x\<in>set xs. op_small x \<Longrightarrow>
    \<exists>c' acc del. run_ops wr tk xs c = Some (c', acc, del) \<and> ok c' \<and> cap c' = cap c \<and>
      queue_run (cap c) xs (bytes c) = (bytes c', acc, del)"
proof (induction xs arbitrary: c)
  case (Cons x xs)
  show ?case
  proof (cases x)
    case (Put d)
    then have s: "length d < 2 ^ 32" using Cons.prems(2) by (simp add: op_small_def)
    show ?thesis
    proof (cases "length (bytes c) + length d \<le> cap c")
      case True
      from wr_room [OF Cons.prems(1) s True] obtain c1 where c1: "wr d c = Some (c1, True)" "ok c1"
        "bytes c1 = bytes c @ d" "cap c1 = cap c" by blast
      from Cons.IH [OF c1(2)] Cons.prems(2) c1 Put True show ?thesis by auto
    next
      case False
      from Cons.IH [OF Cons.prems(1)] Cons.prems(2) wr_full [OF Cons.prems(1) s False] Put False show ?thesis by auto
    qed
  next
    case (Take k)
    then have "k < 2 ^ 32" using Cons.prems(2) by (simp add: op_small_def)
    from tk_law [OF Cons.prems(1) this] obtain c1 where c1: "tk k c = Some (c1, take k (bytes c))" "ok c1"
      "bytes c1 = drop k (bytes c)" "cap c1 = cap c" by blast
    from Cons.IH [OF c1(2)] Cons.prems(2) c1 Take show ?thesis by auto
  qed
qed simp

lemma run_stream:
  assumes "ok c" "\<forall>x\<in>set xs. op_small x" "bytes c = []"
  shows "\<exists>c' acc del. run_ops wr tk xs c = Some (c', acc, del) \<and> ok c' \<and> del @ bytes c' = concat acc"
  using run_refines [OF assms(1,2)] queue_run_stream [of "cap c" xs "bytes c"] within [OF assms(1)] assms(3) by fastforce

end

subsection \<open>An up channel of SEGGER_RTT.c\<close>

text \<open>
  The write the recorder uses, \<open>SEGGER_RTT_WriteSkipNoLock\<close>, and the read of \<open>SEGGER_RTT_ReadUpBufferNoLock\<close> and \<open>SEGGER_RTT_ReadNoLock\<close>.
\<close>

definition ring_put :: "u8 list \<Rightarrow> rtt_buffer \<Rightarrow> (rtt_buffer \<times> bool) option" where
  "ring_put d r = map_option (\<lambda>(r, status). (r, status \<noteq> 0)) (WriteSkip r d (word_of_nat (length d)))"

definition ring_read :: "nat \<Rightarrow> rtt_buffer \<Rightarrow> (rtt_buffer \<times> u8 list) option" where
  "ring_read k r = ReadRing r (word_of_nat k)"

lemma ring_read_spec:
  assumes "ring_ok r" "k < 2 ^ 32"
  shows "\<exists>r'. ring_read k r = Some (r', take k (contents r)) \<and> ring_ok r' \<and> contents r' = drop k (contents r) \<and> same_channel r r'"
proof -
  have "unat (word_of_nat k :: u32) = k" using assms(2) by (simp add: unat_of_nat)
  with ReadRing_spec [OF assms(1), of "word_of_nat k"] show ?thesis by (auto simp: ring_read_def)
qed

text \<open>The debug probe, which moves the read offset in the target's memory, takes what the target's own read would have given.\<close>

lemma probe_reads:
  assumes "ring_ok r" "k < 2 ^ 32"
  shows "\<exists>r'. ring_read k r = Some (r', take k (contents r)) \<and> contents (probe k r) = contents r' \<and> ring_ok (probe k r)"
  using ring_read_spec [OF assms] probe_spec [OF assms(1), of k] by auto

interpretation skip_channel: byte_channel ring_ok contents capacity ring_put ring_read
proof
  fix c :: rtt_buffer and d :: "u8 list" and k
  assume ok: "ring_ok c"
  show "length (contents c) \<le> capacity c" using ok by (rule contents_capacity)
  show "\<exists>c'. ring_read k c = Some (c', take k (contents c)) \<and> ring_ok c' \<and> contents c' = drop k (contents c) \<and> capacity c' = capacity c"
    if "k < 2 ^ 32" using ring_read_spec [OF ok that] same_channel_capacity by blast
  assume d: "length d < 2 ^ 32"
  then have u: "unat (word_of_nat (length d) :: u32) = length d" by (simp add: unat_of_nat)
  note S = WriteSkip_spec [OF ok, of "word_of_nat (length d)" d, unfolded u]
  {
    assume "length (contents c) + length d \<le> capacity c"
    with S show "\<exists>c'. ring_put d c = Some (c', True) \<and> ring_ok c' \<and> contents c' = contents c @ d \<and> capacity c' = capacity c"
      by (auto simp: ring_put_def dest: same_channel_capacity)
  next
    assume "\<not> length (contents c) + length d \<le> capacity c"
    with S show "ring_put d c = Some (c, False)" by (simp add: ring_put_def)
  }
qed

subsection \<open>Channel 0 through the functions of the interface\<close>

definition term_put :: "u8 list \<Rightarrow> rtt_cb \<Rightarrow> (rtt_cb \<times> bool) option" where
  "term_put d p = map_option (\<lambda>(p, status). (p, status = word_of_nat (length d)))
     (SEGGER_RTT_Write [] 0 d (word_of_nat (length d)) p)"

definition term_take :: "nat \<Rightarrow> rtt_cb \<Rightarrow> (rtt_cb \<times> u8 list) option" where
  "term_take k p = SEGGER_RTT_ReadUpBuffer 0 (word_of_nat k) p"

definition term_bytes :: "rtt_cb \<Rightarrow> u8 list" where
  "term_bytes p = contents (aUp p ! 0)"

definition term_ok :: "rtt_cb \<Rightarrow> bool" where
  "term_ok p \<longleftrightarrow> hd (acID p) = of_char (CHR ''S'') \<and> 0 < length (aUp p) \<and> ring_ok (aUp p ! 0) \<and> Flags (aUp p ! 0) = MODE_NO_BLOCK_SKIP \<and>
     SizeOfBuffer (aUp p ! 0) = word_of_nat BUFFER_SIZE_UP"

lemma INIT_done: "term_ok p \<Longrightarrow> INIT p = p"
  by (simp add: INIT_def term_ok_def)

lemma term_ok_upd:
  assumes "term_ok p" "ring_ok r" "same_channel (aUp p ! 0) r"
  shows "term_ok (p\<lparr>aUp := (aUp p)[0 := r]\<rparr>)" "term_bytes (p\<lparr>aUp := (aUp p)[0 := r]\<rparr>) = contents r"
  using assms by (simp_all add: term_ok_def term_bytes_def same_channel_def)

lemma term_capacity: "term_ok p \<Longrightarrow> capacity (aUp p ! 0) = BUFFER_SIZE_UP - 1"
  by (simp add: term_ok_def capacity_def BUFFER_SIZE_UP_def)

interpretation terminal: byte_channel term_ok term_bytes "\<lambda>_. BUFFER_SIZE_UP - 1" term_put term_take
proof
  fix c :: rtt_cb and d :: "u8 list" and k
  assume ok: "term_ok c"
  let ?r = "aUp c ! 0"
  have r: "ring_ok ?r" "Flags ?r = MODE_NO_BLOCK_SKIP" "0 < length (aUp c)" and b: "term_bytes c = contents ?r"
    using ok by (simp_all add: term_ok_def term_bytes_def)
  note cap = term_capacity [OF ok]
  show within: "length (term_bytes c) \<le> BUFFER_SIZE_UP - 1" using contents_capacity [OF r(1)] b cap by simp
  show "\<exists>c'. term_take k c = Some (c', take k (term_bytes c)) \<and> term_ok c' \<and> term_bytes c' = drop k (term_bytes c) \<and>
      BUFFER_SIZE_UP - 1 = BUFFER_SIZE_UP - 1" if "k < 2 ^ 32"
  proof -
    from ring_read_spec [OF r(1) that] obtain r' where R: "ReadRing ?r (word_of_nat k) = Some (r', take k (contents ?r))" "ring_ok r'"
      "contents r' = drop k (contents ?r)" "same_channel ?r r'" by (auto simp: ring_read_def)
    have T: "term_take k c = Some (c\<lparr>aUp := (aUp c)[0 := r']\<rparr>, take k (contents ?r))"
      using r(3) R(1) INIT_done [OF ok]
      by (simp add: term_take_def SEGGER_RTT_ReadUpBuffer_def SEGGER_RTT_ReadUpBufferNoLock_def on_up_def)
    show ?thesis unfolding T b using term_ok_upd [OF ok R(2,4)] R(3) by simp
  qed
  assume d: "length d < 2 ^ 32"
  then have u: "unat (word_of_nat (length d) :: u32) = length d" by (simp add: unat_of_nat)
  note S = WriteMode_skip [OF r(1,2), of "word_of_nat (length d)" d "[]", unfolded u]
  have W: "term_put d c = map_option (\<lambda>(r', status). (c\<lparr>aUp := (aUp c)[0 := r']\<rparr>, status = word_of_nat (length d)))
      (WriteMode [] ?r d (word_of_nat (length d)))"
    using r(3) INIT_done [OF ok]
    by (simp add: term_put_def SEGGER_RTT_Write_def SEGGER_RTT_WriteNoLock_def on_up_def option.map_comp comp_def split_def)
  {
    assume "length (term_bytes c) + length d \<le> BUFFER_SIZE_UP - 1"
    with S b cap obtain r' where w: "WriteMode [] ?r d (word_of_nat (length d)) = Some (r', word_of_nat (length d))" "ring_ok r'"
      "contents r' = contents ?r @ d" "same_channel ?r r'" by auto
    then show "\<exists>c'. term_put d c = Some (c', True) \<and> term_ok c' \<and> term_bytes c' = term_bytes c @ d \<and>
        BUFFER_SIZE_UP - 1 = BUFFER_SIZE_UP - 1"
      unfolding W b using term_ok_upd [OF ok w(2,4)] w(1,3) by auto
  next
    assume F: "\<not> length (term_bytes c) + length d \<le> BUFFER_SIZE_UP - 1"
    with S b cap have w: "WriteMode [] ?r d (word_of_nat (length d)) = Some (?r, 0)" by simp
    have "d \<noteq> []" using F within by auto
    then have "(0 :: u32) \<noteq> word_of_nat (length d)" using u by (metis length_0_conv unsigned_0)
    then show "term_put d c = Some (c, False)" unfolding W w by simp
  }
qed

lemma term_boot: "term_ok (SEGGER_RTT_Init rtt_boot)" "term_bytes (SEGGER_RTT_Init rtt_boot) = []"
  by (simp_all add: SEGGER_RTT_Init_def DoInit_def term_ok_def term_bytes_def bytes_of_def ring_ok_def contents_def
      BUFFER_SIZE_UP_def SEGGER_RTT_MAX_NUM_UP_BUFFERS_def)

subsection \<open>Properties\<close>

text \<open>C6. An up channel that is written with \<open>SEGGER_RTT_WriteSkipNoLock\<close> and emptied with \<open>SEGGER_RTT_ReadUpBufferNoLock\<close> is a
  bounded byte queue: for every sequence of writes and reads neither ever leaves the array, a write is accepted
  exactly when the queue has room for all of it, a read returns the oldest bytes, and the bytes read followed by those still stored are
  the initial ones followed by the accepted writes, whole and in order.\<close>
theorem RTT_channel_refines_queue:
  assumes "ring_ok r" "\<forall>x\<in>set ops. op_small x"
  shows "\<exists>r' acc del. run_ops ring_put ring_read ops r = Some (r', acc, del) \<and> ring_ok r' \<and>
    queue_run (capacity r) ops (contents r) = (contents r', acc, del) \<and>
    del @ contents r' = contents r @ concat acc"
  using skip_channel.run_refines [OF assms] queue_run_stream [of "capacity r" ops "contents r"] contents_capacity [OF assms(1)]
  by blast

theorem RTT_channel_refines_queue_witness:
  "let r = \<lparr>sName = [], pBuffer = Some [0, 0, 0, 0], SizeOfBuffer = 4, WrOff = 3, RdOff = 3, Flags = 0\<rparr>;
       ops = [Put [1, 2], Put [3, 4], Take 1, Put [5, 6], Take 4] in
   run_ops ring_put ring_read ops r =
     Some (\<lparr>sName = [], pBuffer = Some [2, 5, 6, 1], SizeOfBuffer = 4, WrOff = 3, RdOff = 3, Flags = 0\<rparr>,
       [[1, 2], [5, 6]], [1, 2, 5, 6]) \<and>
   (\<exists>r' acc del. run_ops ring_put ring_read ops r = Some (r', acc, del) \<and> del @ contents r' = concat acc)"
proof -
  let ?r = "\<lparr>sName = [], pBuffer = Some [0, 0, 0, 0], SizeOfBuffer = 4, WrOff = 3, RdOff = 3, Flags = 0\<rparr> :: rtt_buffer"
  let ?ops = "[Put [1, 2], Put [3, 4], Take 1, Put [5, 6], Take 4]"
  have 1: "ring_ok ?r" "contents ?r = []" by (simp_all add: ring_ok_def contents_def)
  have 2: "\<forall>x\<in>set ?ops. op_small x" by (simp add: op_small_def)
  have "run_ops ring_put ring_read ?ops ?r =
     Some (\<lparr>sName = [], pBuffer = Some [2, 5, 6, 1], SizeOfBuffer = 4, WrOff = 3, RdOff = 3, Flags = 0\<rparr>,
       [[1, 2], [5, 6]], [1, 2, 5, 6])" by code_simp
  then show ?thesis using RTT_channel_refines_queue [OF 1(1) 2] 1(2) by (auto simp: Let_def)
qed

text \<open>Channel 0 after \<open>SEGGER_RTT_Init\<close>, used through \<open>SEGGER_RTT_Write\<close> and
  \<open>SEGGER_RTT_ReadUpBuffer\<close> in the default mode: no call faults, a write returns its length exactly when
  the 1023 bytes of the queue have room for it and 0 otherwise, and no accepted byte is lost, doubled or
  reordered.\<close>
theorem RTT_terminal_stream:
  assumes "\<forall>x\<in>set ops. op_small x"
  shows "\<exists>p acc del. run_ops term_put term_take ops (SEGGER_RTT_Init rtt_boot) = Some (p, acc, del) \<and> term_ok p \<and>
    queue_run 1023 ops [] = (term_bytes p, acc, del) \<and> del @ term_bytes p = concat acc"
  using terminal.run_refines [OF term_boot(1) assms] queue_run_stream [of 1023 ops "[]"]
  unfolding term_boot(2) BUFFER_SIZE_UP_def by fastforce

theorem RTT_terminal_stream_witness:
  "\<exists>p acc del. run_ops term_put term_take [Put [72, 105], Take 1] (SEGGER_RTT_Init rtt_boot) = Some (p, acc, del) \<and>
    queue_run 1023 [Put [72, 105], Take 1] [] = (term_bytes p, acc, del)"
  using RTT_terminal_stream [of "[Put [72, 105], Take 1]"] by (auto simp: op_small_def)

text \<open>C32. In the blocking mode nothing is dropped either: whatever the probe takes between the rounds of
  \<open>_WriteBlocking\<close>, if it takes at least one byte each time then as many rounds as there are bytes are
  enough, all the data is written, and what the probe took followed by what is stored is what was stored
  followed by the data.\<close>
theorem RTT_blocking_write_completes:
  assumes "ring_ok r" "Flags r = MODE_BLOCK_IF_FIFO_FULL" "0 < capacity r" "unat n \<le> length d"
    and ks: "\<forall>k\<in>set ks. 0 < k" "unat n \<le> length ks" "ks \<noteq> []"
  shows "\<exists>r' taken. WriteMode ks r d n = Some (r', n) \<and> ring_ok r' \<and> same_channel r r' \<and>
    taken @ contents r' = contents r @ take (unat n) d"
proof -
  have e: "WriteMode ks r d n = WriteBlocking_loop ks r d n 0"
    using assms(2) by (simp add: WriteMode_def mode_defs WriteBlocking_def)
  from WriteBlocking_loop_ends [OF assms(1,4,3) ks(1,2,3), of 0] obtain r' w
    where w: "WriteBlocking_loop ks r d n 0 = Some (r', w)" by auto
  from WriteBlocking_loop_stream [OF assms(1,4) w] w e show ?thesis by auto
qed

theorem RTT_blocking_write_completes_witness:
  "let r = \<lparr>sName = [], pBuffer = Some [7, 8, 9], SizeOfBuffer = 3, WrOff = 2, RdOff = 0, Flags = 2\<rparr> in
   \<exists>r' taken. WriteMode [1, 1, 1] r [10, 11, 12] 3 = Some (r', 3) \<and> taken @ contents r' = [7, 8, 10, 11, 12]"
proof -
  let ?r = "\<lparr>sName = [], pBuffer = Some [7, 8, 9], SizeOfBuffer = 3, WrOff = 2, RdOff = 0, Flags = 2\<rparr> :: rtt_buffer"
  have "ring_ok ?r" "Flags ?r = MODE_BLOCK_IF_FIFO_FULL" "0 < capacity ?r"
    by (simp_all add: ring_ok_def capacity_def mode_defs)
  from RTT_blocking_write_completes [OF this, of 3 "[10, 11, 12]" "[1, 1, 1]"] show ?thesis
    by (auto simp: Let_def contents_def)
qed

text \<open>\<open>SEGGER_RTT_WriteWithOverwriteNoLock\<close> with a block that fits an empty channel stores it whole, and
  of the older bytes keeps the newest ones there is room for.\<close>
theorem RTT_overwrite_keeps_newest:
  assumes "ring_ok r" "length d < unat (SizeOfBuffer r)" "unat (SizeOfBuffer r) \<le> 2 ^ 31"
  shows "\<exists>r'. WriteWithOverwrite 2 r d (word_of_nat (length d)) = Some r' \<and> ring_ok r' \<and> same_channel r r' \<and>
    contents r' = drop (length (contents r) + length d - capacity r) (contents r @ d)"
proof -
  have u: "unat (word_of_nat (length d) :: u32) = length d"
    using assms(2) unat_u32 [of "SizeOfBuffer r"] by (simp add: unat_of_nat)
  from WriteWithOverwrite_spec [OF assms(1), of "word_of_nat (length d)" d 2] assms(2,3) show ?thesis
    unfolding u by (auto simp: capacity_def)
qed

theorem RTT_overwrite_keeps_newest_witness:
  "let r = \<lparr>sName = [], pBuffer = Some [7, 8, 9, 0], SizeOfBuffer = 4, WrOff = 3, RdOff = 0, Flags = 0\<rparr> in
   \<exists>r'. WriteWithOverwrite 2 r [1, 2] (word_of_nat (length [1 :: u8, 2])) = Some r' \<and> contents r' = [9, 1, 2]"
proof -
  let ?r = "\<lparr>sName = [], pBuffer = Some [7, 8, 9, 0], SizeOfBuffer = 4, WrOff = 3, RdOff = 0, Flags = 0\<rparr> :: rtt_buffer"
  have r: "ring_ok ?r" by (simp add: ring_ok_def)
  have c: "contents ?r = [7, 8, 9]" "capacity ?r = 3" by (code_simp, code_simp)
  have "drop (length [7 :: u8, 8, 9] + length [1 :: u8, 2] - 3) ([7, 8, 9] @ [1, 2]) = [9 :: u8, 1, 2]" by code_simp
  then show ?thesis using RTT_overwrite_keeps_newest [OF r, of "[1, 2]", unfolded c] unfolding Let_def by fastforce
qed

text \<open>The frame \<open>SEGGER_RTT_TerminalOut\<close> puts around a text.\<close>

definition terminal_frame :: "u8 \<Rightarrow> u8 \<Rightarrow> u8 list \<Rightarrow> u8 list" where
  "terminal_frame t active s = [0xFF, aTerminalId ! unat t] @ s @ [0xFF, aTerminalId ! unat active]"

lemma PostTerminalSwitch_fits:
  assumes "ring_ok r" "unat t < 16" "length (contents r) + 2 \<le> capacity r"
  shows "\<exists>r'. PostTerminalSwitch [0, 0] r t = Some r' \<and> ring_ok r' \<and> same_channel r r' \<and>
    contents r' = contents r @ [0xFF, aTerminalId ! unat t]"
proof -
  have "terminal_switch t = Some [0xFF, aTerminalId ! unat t]"
    using assms(2) by (simp add: terminal_switch_def aTerminalId_def bytes_of_def)
  moreover have "unat (2 :: u32) = 2" by simp
  ultimately show ?thesis
    using WriteBlocking_fits [OF assms(1), of 2 "[0xFF, aTerminalId ! unat t]"] assms(3)
    by (auto simp: PostTerminalSwitch_def)
qed

lemma terminal_out_fits:
  assumes "ring_ok r" "unat t < 16" "unat active < 16" "unat n \<le> length s" "length (contents r) + unat n + 4 \<le> capacity r"
  shows "\<exists>r'. terminal_out [0, 0] r t active s n = Some (r', as_i32 (uint n)) \<and> ring_ok r' \<and> same_channel r r' \<and>
    contents r' = contents r @ terminal_frame t active (take (unat n) s)"
proof -
  from PostTerminalSwitch_fits [OF assms(1,2)] assms(5) obtain r1 where
    1: "PostTerminalSwitch [0, 0] r t = Some r1" "ring_ok r1" "same_channel r r1"
      "contents r1 = contents r @ [0xFF, aTerminalId ! unat t]" by auto
  have c1: "capacity r1 = capacity r" by (rule same_channel_capacity [OF 1(3)])
  from WriteBlocking_fits [OF 1(2) assms(4)] 1(4) c1 assms(5) obtain r2 where
    2: "WriteBlocking [0, 0] r1 s n = Some (r2, n)" "ring_ok r2" "same_channel r1 r2"
      "contents r2 = contents r1 @ take (unat n) s" by auto
  have c2: "capacity r2 = capacity r" using same_channel_capacity [OF 2(3)] c1 by simp
  have "length (contents r2) + 2 \<le> capacity r2" using 1(4) 2(4) c2 assms(4,5) by simp
  from PostTerminalSwitch_fits [OF 2(2) assms(3) this] obtain r3 where
    3: "PostTerminalSwitch [0, 0] r2 active = Some r3" "ring_ok r3" "same_channel r2 r3"
      "contents r3 = contents r2 @ [0xFF, aTerminalId ! unat active]" by auto
  show ?thesis using 1 2 3 same_channel_trans [OF same_channel_trans [OF 1(3) 2(3)] 3(3)]
    by (auto simp: terminal_out_def terminal_frame_def)
qed

text \<open>\<open>SEGGER_RTT_TerminalOut\<close> on a channel in the default mode writes the switch to the terminal,
  the text and the switch back as one block or nothing at all, and waits for the probe in neither case:
  it returns the length of the text exactly when there is room for the text and four more bytes, else 0.\<close>
theorem RTT_TerminalOut_whole:
  assumes "ring_ok r" "Flags r = MODE_NO_BLOCK_SKIP" "unat t < 16" "unat active < 16" "length s < 2 ^ 31"
  shows "if length (contents r) + length s + 4 \<le> capacity r
    then \<exists>r'. TerminalOut_ring [0, 0] r t active s = Some (r', int (length s)) \<and> ring_ok r' \<and>
      contents r' = contents r @ terminal_frame t active s
    else TerminalOut_ring [0, 0] r t active s = Some (r, 0)"
proof -
  let ?n = "word_of_nat (length s) :: u32"
  have u: "unat ?n = length s" using assms(5) by (simp add: unat_of_nat)
  have m: "Flags r AND MODE_MASK = MODE_NO_BLOCK_SKIP" using assms(2) by (simp add: mode_defs)
  have "unat (?n + 4) = length s + 4" using assms(5) u by (subst unat_plus) auto
  then have e: "GetAvailWriteSpace r < ?n + 4 \<longleftrightarrow> \<not> length (contents r) + length s + 4 \<le> capacity r"
    using unat_avail [OF assms(1)] contents_capacity [OF assms(1)] by (simp add: word_less_nat_alt) linarith
  have i: "as_i32 (uint ?n) = int (length s)"
  proof -
    have "uint ?n = int (length s)" using u by (metis uint_nat)
    then show ?thesis using assms(5) by (simp add: as_i32_id)
  qed
  show ?thesis
  proof (cases "length (contents r) + length s + 4 \<le> capacity r")
    case True
    then have "TerminalOut_ring [0, 0] r t active s = terminal_out [0, 0] r t active s ?n"
      using e m by (simp add: TerminalOut_ring_def Let_def)
    then show ?thesis using terminal_out_fits [OF assms(1,3,4), of ?n s] True u i by auto
  next
    case False
    then show ?thesis using e m by (simp add: TerminalOut_ring_def Let_def)
  qed
qed

theorem RTT_TerminalOut_whole_witness:
  "let r = \<lparr>sName = [], pBuffer = Some (replicate 16 0), SizeOfBuffer = 16, WrOff = 14, RdOff = 14, Flags = 0\<rparr> in
   \<exists>r'. TerminalOut_ring [0, 0] r 10 0 [1, 2, 3] = Some (r', 3) \<and> contents r' = [0xFF, 65, 1, 2, 3, 0xFF, 48]"
proof -
  let ?r = "\<lparr>sName = [], pBuffer = Some (replicate 16 0), SizeOfBuffer = 16, WrOff = 14, RdOff = 14, Flags = 0\<rparr> :: rtt_buffer"
  have r: "ring_ok ?r" "Flags ?r = MODE_NO_BLOCK_SKIP" "unat (10 :: u8) < 16" "unat (0 :: u8) < 16"
    by (simp_all add: ring_ok_def mode_defs)
  have c: "contents ?r = []" "capacity ?r = 15" "terminal_frame 10 0 [1, 2, 3] = [0xFF, 65, 1, 2, 3, 0xFF, 48]"
    by (code_simp, code_simp, code_simp)
  show ?thesis using RTT_TerminalOut_whole [OF r, of "[1, 2, 3]", unfolded c] unfolding Let_def by auto
qed

text \<open>\<open>SEGGER_RTT_GetBytesInBuffer\<close> is right while the stored bytes do not run around the end of the
  array. When they do it subtracts the offsets the wrong way round: the result is twice the size less
  the true number, more than the buffer can ever hold.\<close>
theorem RTT_GetBytesInBuffer_wrong:
  assumes "ring_ok r" "unat (SizeOfBuffer r) \<le> 2 ^ 31"
  shows "unat (BytesInBuffer r) =
    (if RdOff r \<le> WrOff r then length (contents r) else 2 * unat (SizeOfBuffer r) - length (contents r)) \<and>
    (RdOff r > WrOff r \<longrightarrow> capacity r < unat (BytesInBuffer r))"
proof -
  from assms(1) have l: "unat (WrOff r) < unat (SizeOfBuffer r)" "unat (RdOff r) < unat (SizeOfBuffer r)"
    by (auto elim!: ring_okD)
  have *: "unat (BytesInBuffer r) =
    (if RdOff r \<le> WrOff r then length (contents r) else 2 * unat (SizeOfBuffer r) - length (contents r))"
  proof (cases "RdOff r \<le> WrOff r")
    case True
    then show ?thesis using unat_minus [OF True] by (simp add: BytesInBuffer_def length_contents [OF assms(1)])
  next
    case False
    then have F: "WrOff r \<le> RdOff r" by simp
    have "SizeOfBuffer r - (WrOff r - RdOff r) = SizeOfBuffer r + (RdOff r - WrOff r)" by simp
    moreover have "unat (SizeOfBuffer r + (RdOff r - WrOff r)) = unat (SizeOfBuffer r) + (unat (RdOff r) - unat (WrOff r))"
      using unat_minus [OF F] l assms(2) by (subst unat_plus) auto
    ultimately have "unat (BytesInBuffer r) = unat (SizeOfBuffer r) + (unat (RdOff r) - unat (WrOff r))"
      unfolding BytesInBuffer_def using False by presburger
    then show ?thesis using False l by (simp add: length_contents [OF assms(1)] u32_le)
  qed
  moreover have "capacity r < unat (BytesInBuffer r)" if "RdOff r > WrOff r"
  proof -
    have "\<not> RdOff r \<le> WrOff r" using that by (simp only: not_le)
    then have "unat (BytesInBuffer r) = 2 * unat (SizeOfBuffer r) - length (contents r)" using * by simp
    then show ?thesis using contents_capacity [OF assms(1)] l unfolding capacity_def by linarith
  qed
  ultimately show ?thesis by blast
qed

theorem RTT_GetBytesInBuffer_wrong_witness:
  "let r = \<lparr>sName = [], pBuffer = Some [1, 2, 3, 4], SizeOfBuffer = 4, WrOff = 1, RdOff = 3, Flags = 0\<rparr> in
   length (contents r) = 2 \<and> unat (BytesInBuffer r) = 6"
proof -
  let ?r = "\<lparr>sName = [], pBuffer = Some [1, 2, 3, 4], SizeOfBuffer = 4, WrOff = 1, RdOff = 3, Flags = 0\<rparr> :: rtt_buffer"
  have "ring_ok ?r" by (simp add: ring_ok_def)
  moreover have "length (contents ?r) = 2" "\<not> (3 :: u32) \<le> 1" by (code_simp, code_simp)
  ultimately show ?thesis using RTT_GetBytesInBuffer_wrong [of ?r] by (simp add: Let_def)
qed

text \<open>
  A channel that has not been set up is not refused: its size 0 makes the free space wrap to
  \<open>2 ^ 32 - 1\<close>, and the write goes through the null pointer.
\<close>

lemma unused_channel_write: "GetAvailWriteSpace unused_channel = - 1" "WriteMode [] unused_channel [65] 1 = None"
  by (simp_all add: unused_channel_def GetAvailWriteSpace_def WriteMode_def WriteNoCheck_def mem_put_def mode_defs Let_def)

end
