(* ===== verification/Printf.thy ===== *)
theory Printf
  imports RttApi
begin

text \<open>
  The number formatting that src/lib/SEGGER/SEGGER_RTT_printf.c and src/lib/SEGGER/SEGGER_SYSVIEW.c
  both contain, with the destination as a parameter: \<open>put\<close> is the file's \<open>_StoreChar\<close> and \<open>ok\<close> the test
  \<open>ReturnValue >= 0\<close> after it, which SEGGER_SYSVIEW.c does not make (\<open>ok\<close> is then always true).
  \<open>None\<close> is a fault: a division by zero, a digit outside the table, a negation that overflows.
\<close>

subsection \<open>Flags and characters\<close>

definition FORMAT_FLAG_LEFT_JUSTIFY :: u32 where "FORMAT_FLAG_LEFT_JUSTIFY = 1"
definition FORMAT_FLAG_PAD_ZERO :: u32 where "FORMAT_FLAG_PAD_ZERO = 2"
definition FORMAT_FLAG_PRINT_SIGN :: u32 where "FORMAT_FLAG_PRINT_SIGN = 4"
definition FORMAT_FLAG_ALTERNATE :: u32 where "FORMAT_FLAG_ALTERNATE = 8"

lemmas flag_defs = FORMAT_FLAG_LEFT_JUSTIFY_def FORMAT_FLAG_PAD_ZERO_def FORMAT_FLAG_PRINT_SIGN_def FORMAT_FLAG_ALTERNATE_def

definition has_flag :: "u32 \<Rightarrow> u32 \<Rightarrow> bool" where
  "has_flag FormatFlags f \<longleftrightarrow> FormatFlags AND f \<noteq> 0"

definition chr :: "char \<Rightarrow> u8" where "chr c = of_char c"

definition aV2C :: "u8 list" where "aV2C = bytes_of ''0123456789ABCDEF''"

subsection \<open>Destinations\<close>

text \<open>\<open>n\<close> times the character \<open>c\<close>, leaving the loop when the destination fails.\<close>

primrec put_n :: "('b \<Rightarrow> u8 \<Rightarrow> 'b option) \<Rightarrow> ('b \<Rightarrow> bool) \<Rightarrow> nat \<Rightarrow> u8 \<Rightarrow> 'b \<Rightarrow> 'b option" where
  "put_n put ok 0 c d = Some d"
| "put_n put ok (Suc n) c d = do { d \<leftarrow> put d c; if ok d then put_n put ok n c d else Some d }"

text \<open>
  \<open>while (FieldWidth != 0 && Width < FieldWidth) { FieldWidth--; _StoreChar(c); ... }\<close>, with the field
  width that is left after it (which is not used again when the loop is left early).
\<close>

definition pad :: "('b \<Rightarrow> u8 \<Rightarrow> 'b option) \<Rightarrow> ('b \<Rightarrow> bool) \<Rightarrow> u32 \<Rightarrow> u32 \<Rightarrow> u8 \<Rightarrow> 'b \<Rightarrow> ('b \<times> u32) option" where
  "pad put ok Width FieldWidth c d =
     map_option (\<lambda>d. (d, if Width < FieldWidth then Width else FieldWidth)) (put_n put ok (unat FieldWidth - unat Width) c d)"

subsection \<open>Numbers\<close>

text \<open>The loop \<open>while (Number >= Base)\<close>; the bases are 10 and 16.\<close>

function digit_count :: "nat \<Rightarrow> nat \<Rightarrow> nat" where
  "digit_count Base Number = (if Number \<ge> Base \<and> Base \<ge> 2 then Suc (digit_count Base (Number div Base)) else 1)"
  by auto
termination by (relation "measure snd") auto

declare digit_count.simps [simp del]

text \<open>
  The loop that looks for the first digit: one multiplication, modulo \<open>2 ^ 32\<close>, for each digit asked for
  beyond the first, and then more while the quotient is not a digit. It cannot wrap in this second part.
\<close>

function grow :: "nat \<Rightarrow> nat \<Rightarrow> nat \<Rightarrow> nat option" where
  "grow Base v Digit =
     (if Digit = 0 \<or> Base < 2 then None
      else if v div Digit < Base then Some Digit
      else grow Base v (Digit * Base))"
  by auto
termination
proof (relation "measure (\<lambda>(Base, v, Digit). v - Digit)")
  fix Base v Digit :: nat
  assume a: "\<not> (Digit = 0 \<or> Base < 2)" "\<not> v div Digit < Base"
  then have "Base * Digit \<le> v" by (metis div_times_less_eq_dividend leI mult_le_mono1 order_trans)
  moreover have "Digit < Base * Digit" using a by simp
  ultimately have "v - Base * Digit < v - Digit" by linarith
  then show "((Base, v, Digit * Base), Base, v, Digit) \<in> measure (\<lambda>(Base, v, Digit). v - Digit)"
    by (simp add: mult.commute)
qed simp

declare grow.simps [simp del]

primrec times_base :: "nat \<Rightarrow> nat \<Rightarrow> nat \<Rightarrow> nat" where
  "times_base Base 0 Digit = Digit"
| "times_base Base (Suc n) Digit = times_base Base n (Digit * Base mod 2 ^ 32)"

definition first_digit :: "nat \<Rightarrow> nat \<Rightarrow> nat \<Rightarrow> nat option" where
  "first_digit Base v NumDigits = grow Base v (times_base Base (NumDigits - 1) 1)"

text \<open>The loop that prints the digits; indexing \<open>_aV2C\<close> past its 16 entries is a fault.\<close>

function put_digits :: "('b \<Rightarrow> u8 \<Rightarrow> 'b option) \<Rightarrow> ('b \<Rightarrow> bool) \<Rightarrow> nat \<Rightarrow> nat \<Rightarrow> nat \<Rightarrow> 'b \<Rightarrow> 'b option" where
  "put_digits put ok Base v Digit d =
     (if Digit = 0 \<or> Base < 2 then None
      else (let Div = v div Digit in
        if Div \<ge> 16 then None
        else (case put d (aV2C ! Div) of None \<Rightarrow> None
          | Some d \<Rightarrow> if \<not> ok d then Some d
              else if Digit div Base = 0 then Some d
              else put_digits put ok Base (v - Div * Digit) (Digit div Base) d)))"
  by auto
termination by (relation "measure (\<lambda>(put, ok, Base, v, Digit, d). Digit)") auto

declare put_digits.simps [simp del]

definition PrintUnsigned ::
  "('b \<Rightarrow> u8 \<Rightarrow> 'b option) \<Rightarrow> ('b \<Rightarrow> bool) \<Rightarrow> u32 \<Rightarrow> nat \<Rightarrow> u32 \<Rightarrow> u32 \<Rightarrow> u32 \<Rightarrow> 'b \<Rightarrow> 'b option" where
  "PrintUnsigned put ok v Base NumDigits FieldWidth FormatFlags d =
     (let Width = max (word_of_nat (digit_count Base (unat v))) NumDigits in do {
        (d, FieldWidth) \<leftarrow>
          (if \<not> has_flag FormatFlags FORMAT_FLAG_LEFT_JUSTIFY
           then pad put ok Width FieldWidth
             (if has_flag FormatFlags FORMAT_FLAG_PAD_ZERO \<and> NumDigits = 0 then chr (CHR ''0'') else chr (CHR '' '')) d
           else Some (d, FieldWidth));
        if ok d then do {
          Digit \<leftarrow> first_digit Base (unat v) (unat NumDigits);
          d \<leftarrow> put_digits put ok Base (unat v) Digit d;
          if has_flag FormatFlags FORMAT_FLAG_LEFT_JUSTIFY
          then map_option fst (pad put ok Width FieldWidth (chr (CHR '' '')) d)
          else Some d
        } else Some d
      })"

text \<open>\<open>v\<close> is an \<open>int\<close>; negating the least one overflows.\<close>

definition PrintInt ::
  "('b \<Rightarrow> u8 \<Rightarrow> 'b option) \<Rightarrow> ('b \<Rightarrow> bool) \<Rightarrow> u32 \<Rightarrow> nat \<Rightarrow> u32 \<Rightarrow> u32 \<Rightarrow> u32 \<Rightarrow> 'b \<Rightarrow> 'b option" where
  "PrintInt put ok v Base NumDigits FieldWidth FormatFlags d =
     (if sint v = - (2 ^ 31) then None
      else
        (let Width = max (word_of_nat (digit_count Base (nat \<bar>sint v\<bar>))) NumDigits;
             FieldWidth = (if FieldWidth > 0 \<and> (sint v < 0 \<or> has_flag FormatFlags FORMAT_FLAG_PRINT_SIGN)
               then FieldWidth - 1 else FieldWidth) in do {
           (d, FieldWidth) \<leftarrow>
             (if (\<not> has_flag FormatFlags FORMAT_FLAG_PAD_ZERO \<or> NumDigits \<noteq> 0) \<and> \<not> has_flag FormatFlags FORMAT_FLAG_LEFT_JUSTIFY
              then pad put ok Width FieldWidth (chr (CHR '' '')) d else Some (d, FieldWidth));
           if ok d then do {
             d \<leftarrow> (if sint v < 0 then put d (chr (CHR ''-''))
                else if has_flag FormatFlags FORMAT_FLAG_PRINT_SIGN then put d (chr (CHR ''+'')) else Some d);
             if ok d then do {
               (d, FieldWidth) \<leftarrow>
                 (if has_flag FormatFlags FORMAT_FLAG_PAD_ZERO \<and> \<not> has_flag FormatFlags FORMAT_FLAG_LEFT_JUSTIFY \<and> NumDigits = 0
                  then pad put ok Width FieldWidth (chr (CHR ''0'')) d else Some (d, FieldWidth));
               if ok d
               then PrintUnsigned put ok (if sint v < 0 then - v else v) Base NumDigits FieldWidth FormatFlags d
               else Some d
             } else Some d
           } else Some d
         }))"

subsection \<open>Digits\<close>

text \<open>The \<open>n\<close> last digits of \<open>v\<close>, and the digits that are printed.\<close>

definition digits :: "nat \<Rightarrow> nat \<Rightarrow> nat \<Rightarrow> u8 list" where
  "digits Base n v = map (\<lambda>k. aV2C ! (v div Base ^ k mod Base)) (rev [0..<n])"

lemma digits_Suc: "digits Base (Suc n) v = aV2C ! (v div Base ^ n mod Base) # digits Base n v"
  by (simp add: digits_def)

lemma digits_0 [simp]: "digits Base 0 v = []"
  by (simp add: digits_def)

lemma digits_mod:
  assumes "0 < Base"
  shows "digits Base n (v mod Base ^ n) = digits Base n v"
proof -
  have "v mod Base ^ n div Base ^ k mod Base = v div Base ^ k mod Base" if "k < n" for k
  proof -
    obtain m where "n = k + Suc m" using \<open>k < n\<close> less_iff_Suc_add by auto
    then have "Base ^ n = Base ^ k * Base ^ Suc m" by (simp only: power_add)
    then have n: "v mod Base ^ n = Base ^ k * (v div Base ^ k mod Base ^ Suc m) + v mod Base ^ k" by (simp only: mod_mult2_eq)
    show ?thesis
    proof -
      have "v mod Base ^ n div Base ^ k = v div Base ^ k mod Base ^ Suc m" unfolding n using assms by simp
      then show ?thesis by (simp add: mod_mod_cancel)
    qed
  qed
  then show ?thesis by (auto simp: digits_def)
qed

lemma length_digits [simp]: "length (digits Base n v) = n"
  by (simp add: digits_def)

lemma digit_count_le: "2 \<le> Base \<Longrightarrow> digit_count Base v \<le> Suc k \<longleftrightarrow> v < Base ^ Suc k"
proof (induction k arbitrary: v)
  case 0
  have "digit_count Base v \<noteq> 0" for v by (simp add: digit_count.simps [of Base v])
  then show ?case using 0 by (auto simp: digit_count.simps [of Base v] Suc_le_eq)
next
  case (Suc k)
  show ?case
  proof (cases "v < Base")
    case True
    also have "Base = Base ^ 1" by simp
    also have "\<dots> \<le> Base ^ Suc (Suc k)" by (rule power_increasing) (use Suc.prems in simp_all)
    finally have "v < Base ^ Suc (Suc k)" .
    then show ?thesis using True by (simp add: digit_count.simps [of Base v])
  next
    case False
    have "v div Base < Base ^ Suc k \<longleftrightarrow> v < Base ^ Suc (Suc k)"
      using Suc.prems div_less_iff_less_mult [of Base v "Base ^ Suc k"] by (simp add: mult.commute)
    then show ?thesis using False Suc by (simp add: digit_count.simps [of Base v])
  qed
qed

lemma digit_count_pos: "0 < digit_count Base v"
  by (simp add: digit_count.simps [of Base v])

lemma digit_count_bound: "2 \<le> Base \<Longrightarrow> v < 2 ^ 32 \<Longrightarrow> digit_count Base v \<le> 32"
proof -
  assume b: "2 \<le> Base" "v < 2 ^ 32"
  have "(2::nat) ^ Suc 31 \<le> Base ^ Suc 31" using b(1) by (rule power_mono) simp
  then have "v < Base ^ Suc 31" using b(2) by simp
  then show ?thesis using digit_count_le [OF b(1), of v 31] by simp
qed

lemma times_base_pow: "2 \<le> Base \<Longrightarrow> D * Base ^ n < 2 ^ 32 \<Longrightarrow> times_base Base n D = D * Base ^ n"
proof (induction n arbitrary: D)
  case (Suc n)
  have "D * Base * 1 \<le> D * Base * Base ^ n" using Suc.prems(1) by (intro mult_le_mono2) simp
  then have "D * Base < 2 ^ 32" using Suc.prems(2) by (simp only: power_Suc mult.assoc mult_1_right)
  then show ?case using Suc by (simp add: mult.assoc)
qed simp

lemma grow_pow: "2 \<le> Base \<Longrightarrow> grow Base v (Base ^ k) = Some (Base ^ max k (digit_count Base v - 1))"
proof (induction "digit_count Base v - Suc k" arbitrary: k)
  case 0
  then have "digit_count Base v \<le> Suc k" by simp
  then have "v < Base ^ Suc k" using digit_count_le [OF 0(2)] by simp
  then have "v div Base ^ k < Base" by (simp add: less_mult_imp_div_less)
  moreover have "max k (digit_count Base v - 1) = k" using \<open>digit_count Base v \<le> Suc k\<close> by simp
  ultimately show ?case using 0(2) by (simp add: grow.simps [of Base v])
next
  case (Suc x)
  then have "\<not> digit_count Base v \<le> Suc k" by simp
  then have "\<not> v < Base ^ Suc k" using digit_count_le [OF Suc(3)] by simp
  then have n: "\<not> v div Base ^ k < Base" using Suc(3) by (simp add: div_less_iff_less_mult mult.commute)
  have "grow Base v (Base ^ Suc k) = Some (Base ^ max (Suc k) (digit_count Base v - 1))"
    using Suc by (intro Suc(1)) simp_all
  moreover have "max (Suc k) (digit_count Base v - 1) = max k (digit_count Base v - 1)" using Suc(2) by simp
  ultimately show ?case using n Suc(3) by (simp add: grow.simps [of Base v "Base ^ k"] mult.commute)
qed

lemma first_digit_pow:
  assumes "2 \<le> Base" "Base ^ (nd - 1) < 2 ^ 32"
  shows "first_digit Base v nd = Some (Base ^ (max nd (digit_count Base v) - 1))"
proof -
  have "max (nd - 1) (digit_count Base v - 1) = max nd (digit_count Base v) - 1" by simp
  then show ?thesis
    using grow_pow [OF assms(1), of v "nd - 1"] times_base_pow [OF assms(1), of 1 "nd - 1"] assms(2) by (simp add: first_digit_def)
qed

subsection \<open>Any destination that has room\<close>

text \<open>All the characters of a text.\<close>

primrec put_all :: "('b \<Rightarrow> u8 \<Rightarrow> 'b option) \<Rightarrow> ('b \<Rightarrow> bool) \<Rightarrow> u8 list \<Rightarrow> 'b \<Rightarrow> 'b option" where
  "put_all put ok [] d = Some d"
| "put_all put ok (c # cs) d = do { d \<leftarrow> put d c; if ok d then put_all put ok cs d else Some d }"

lemma put_n_all: "put_n put ok n c d = put_all put ok (replicate n c) d"
proof (induction n arbitrary: d)
  case (Suc n)
  then show ?case by (cases "put d c") simp_all
qed simp

lemma put_digits_all:
  "2 \<le> Base \<Longrightarrow> Base \<le> 16 \<Longrightarrow> v < Base ^ Suc k \<Longrightarrow>
    put_digits put ok Base v (Base ^ k) d = put_all put ok (digits Base (Suc k) v) d"
proof (induction k arbitrary: v d)
  case 0
  then show ?case by (auto simp: put_digits.simps [of put ok Base v] digits_Suc split: option.splits)
next
  case (Suc k)
  define q where "q = v div Base ^ Suc k"
  have q: "q < Base" using Suc.prems by (simp add: q_def less_mult_imp_div_less mult.commute)
  have m: "v - q * Base ^ Suc k = v mod Base ^ Suc k" unfolding q_def by (rule minus_div_mult_eq_mod)
  have p: "0 < Base ^ Suc k" "Base ^ Suc k div Base = Base ^ k" "0 < Base ^ k" using Suc.prems by simp_all
  have "v mod Base ^ Suc k < Base ^ Suc k" using p by simp
  from Suc.IH [OF Suc.prems(1,2) this] have IH: "put_digits put ok Base (v mod Base ^ Suc k) (Base ^ k) d =
    put_all put ok (digits Base (Suc k) v) d" for d
    using digits_mod [of Base "Suc k" v] Suc.prems(1) by simp
  show ?case
    unfolding digits_Suc [of Base "Suc k"] put_all.simps put_digits.simps [of put ok Base v "Base ^ Suc k"]
    using q p m IH Suc.prems(1,2) unfolding q_def [symmetric] Let_def
    by (auto split: option.splits simp del: power_Suc)
qed

text \<open>The destination that is a list.\<close>

definition append_char :: "u8 list \<Rightarrow> u8 \<Rightarrow> u8 list option" where "append_char xs c = Some (xs @ [c])"
definition always :: "'b \<Rightarrow> bool" where "always d = True"

lemma put_all_append: "put_all append_char always cs xs = Some (xs @ cs)"
  by (induction cs arbitrary: xs) (simp_all add: append_char_def always_def)

text \<open>
  \<open>h\<close> does to a destination what \<open>g\<close> does to a list, as long as the list stays within \<open>N\<close> characters;
  \<open>R\<close> relates the two. The second form is for functions with a further result.
\<close>

definition follows :: "('b \<Rightarrow> u8 list \<Rightarrow> bool) \<Rightarrow> nat \<Rightarrow> (u8 list \<Rightarrow> u8 list option) \<Rightarrow> ('b \<Rightarrow> 'b option) \<Rightarrow> bool" where
  "follows R N g h \<longleftrightarrow> (\<forall>xs ys. g xs = Some ys \<longrightarrow> length xs \<le> length ys \<and>
     (\<forall>d. R d xs \<and> length ys \<le> N \<longrightarrow> (\<exists>d'. h d = Some d' \<and> R d' ys)))"

definition follows2 ::
  "('b \<Rightarrow> u8 list \<Rightarrow> bool) \<Rightarrow> nat \<Rightarrow> (u8 list \<Rightarrow> (u8 list \<times> 'a) option) \<Rightarrow> ('b \<Rightarrow> ('b \<times> 'a) option) \<Rightarrow> bool" where
  "follows2 R N g h \<longleftrightarrow> (\<forall>xs ys a. g xs = Some (ys, a) \<longrightarrow> length xs \<le> length ys \<and>
     (\<forall>d. R d xs \<and> length ys \<le> N \<longrightarrow> (\<exists>d'. h d = Some (d', a) \<and> R d' ys)))"

lemma follows_id [simp]: "follows R N Some Some" "follows2 R N (\<lambda>x. Some (x, a)) (\<lambda>d. Some (d, a))"
  by (simp_all add: follows_def follows2_def)

lemma follows_None [simp]: "follows R N (\<lambda>x. None) h" "follows2 R N (\<lambda>x. None) h2"
  by (simp_all add: follows_def follows2_def)

lemma followsD: "follows R N g h \<Longrightarrow> g xs = Some ys \<Longrightarrow> R d xs \<Longrightarrow> length ys \<le> N \<Longrightarrow> \<exists>d'. h d = Some d' \<and> R d' ys"
  unfolding follows_def by blast

lemma follows_bind:
  assumes "follows R N g h" "follows R N g2 h2"
  shows "follows R N (\<lambda>x. Option.bind (g x) g2) (\<lambda>d. Option.bind (h d) h2)"
  unfolding follows_def bind_eq_Some_conv
proof (intro allI impI, elim exE conjE)
  fix xs ys zs assume 1: "g xs = Some zs" "g2 zs = Some ys"
  from 1 assms have l: "length xs \<le> length zs" "length zs \<le> length ys" unfolding follows_def by blast+
  have "\<exists>d'. (\<exists>y. h d = Some y \<and> h2 y = Some d') \<and> R d' ys" if "R d xs" "length ys \<le> N" for d
    using that 1 assms l unfolding follows_def by (meson le_trans)
  then show "length xs \<le> length ys \<and> (\<forall>d. R d xs \<and> length ys \<le> N \<longrightarrow> (\<exists>d'. (\<exists>y. h d = Some y \<and> h2 y = Some d') \<and> R d' ys))"
    using l by simp
qed

lemma follows2_bind:
  assumes "follows2 R N g h" "\<And>a. follows R N (g2 a) (h2 a)"
  shows "follows R N (\<lambda>x. Option.bind (g x) (\<lambda>(y, a). g2 a y)) (\<lambda>d. Option.bind (h d) (\<lambda>(e, a). h2 a e))"
  unfolding follows_def bind_eq_Some_conv split_paired_Ex split
proof (intro allI impI, elim exE conjE)
  fix xs ys zs a assume 1: "g xs = Some (zs, a)" "g2 a zs = Some ys"
  from 1 assms have l: "length xs \<le> length zs" "length zs \<le> length ys" unfolding follows_def follows2_def by blast+
  have "\<exists>d'. (\<exists>y a. h d = Some (y, a) \<and> h2 a y = Some d') \<and> R d' ys" if "R d xs" "length ys \<le> N" for d
    using that 1 assms l unfolding follows_def follows2_def by (meson le_trans)
  then show "length xs \<le> length ys \<and> (\<forall>d. R d xs \<and> length ys \<le> N \<longrightarrow> (\<exists>d'. (\<exists>y a. h d = Some (y, a) \<and> h2 a y = Some d') \<and> R d' ys))"
    using l by simp
qed

lemma follows_ret:
  assumes "follows R N g h"
  shows "follows2 R N (\<lambda>x. Option.bind (g x) (\<lambda>y. Some (y, a))) (\<lambda>d. Option.bind (h d) (\<lambda>e. Some (e, a)))"
  using assms unfolding follows_def follows2_def bind_eq_Some_conv by fastforce

lemma follows2_fst: "follows2 R N g h \<Longrightarrow> follows R N (\<lambda>x. map_option fst (g x)) (\<lambda>d. map_option fst (h d))"
  unfolding follows_def follows2_def by fastforce

lemma follows_if: "follows R N g h \<Longrightarrow> follows R N g' h' \<Longrightarrow> follows R N (\<lambda>x. if b then g x else g' x) (\<lambda>d. if b then h d else h' d)"
  by (cases b) simp_all

lemma follows2_if:
  "follows2 R N g h \<Longrightarrow> follows2 R N g' h' \<Longrightarrow> follows2 R N (\<lambda>x. if b then g x else g' x) (\<lambda>d. if b then h d else h' d)"
  by (cases b) simp_all

lemma follows_value: "(\<And>a. follows R N (g a) (h a)) \<Longrightarrow> follows R N (\<lambda>x. Option.bind m (\<lambda>a. g a x)) (\<lambda>d. Option.bind m (\<lambda>a. h a d))"
  by (cases m) simp_all

lemma follows2_value:
  "(\<And>a. follows2 R N (g a) (h a)) \<Longrightarrow> follows2 R N (\<lambda>x. Option.bind m (\<lambda>a. g a x)) (\<lambda>d. Option.bind m (\<lambda>a. h a d))"
  by (cases m) simp_all

lemma put_digits_stuck: "D = 0 \<or> b < 2 \<or> v div D \<ge> 16 \<Longrightarrow> put_digits p q b v D = (\<lambda>d. None)"
  by (auto simp: fun_eq_iff put_digits.simps [of p q b v D])

lemma put_digits_step:
  "\<not> (D = 0 \<or> b < 2 \<or> v div D \<ge> 16) \<Longrightarrow> put_digits p q b v D = (\<lambda>d. Option.bind (p d (aV2C ! (v div D)))
     (\<lambda>d. if q d then (if D div b = 0 then Some else put_digits p q b (v - v div D * D) (D div b)) d else Some d))"
  by (auto simp: fun_eq_iff put_digits.simps [of p q b v D] Let_def split: option.splits)

text \<open>A destination with room for \<open>N\<close> characters.\<close>

locale char_sink =
  fixes put :: "'b \<Rightarrow> u8 \<Rightarrow> 'b option" and ok :: "'b \<Rightarrow> bool" and R :: "'b \<Rightarrow> u8 list \<Rightarrow> bool" and N :: nat
  assumes R_ok: "R d xs \<Longrightarrow> ok d"
    and put_R: "R d xs \<Longrightarrow> length xs < N \<Longrightarrow> \<exists>d'. put d c = Some d' \<and> R d' (xs @ [c])"
begin

lemma follows_put: "follows R N (\<lambda>x. append_char x c) (\<lambda>d. put d c)"
  unfolding follows_def append_char_def using put_R by auto

lemma follows_ok:
  "follows R N g h \<Longrightarrow> follows R N (\<lambda>x. if always x then g x else Some x) (\<lambda>d. if ok d then h d else Some d)"
  unfolding follows_def always_def by (simp, metis R_ok)

lemma follows_put_all: "follows R N (put_all append_char always cs) (put_all put ok cs)"
proof (induction cs)
  case Nil
  show ?case by (simp add: follows_def)
next
  case (Cons c cs)
  show ?case unfolding put_all.simps by (rule follows_bind [OF follows_put follows_ok [OF Cons]])
qed

lemma follows_put_n: "follows R N (put_n append_char always n c) (put_n put ok n c)"
proof -
  have "put_n p o' n c = put_all p o' (replicate n c)" for p :: "'c \<Rightarrow> u8 \<Rightarrow> 'c option" and o'
    using put_n_all by (rule ext)
  then show ?thesis using follows_put_all by metis
qed

lemma follows_pad: "follows2 R N (pad append_char always W F c) (pad put ok W F c)"
proof -
  have "follows R N (put_n append_char always n c) (put_n put ok n c)" for n by (rule follows_put_n)
  then show ?thesis unfolding pad_def follows2_def follows_def by fastforce
qed

lemma follows_put_digits: "follows R N (put_digits append_char always b v D) (put_digits put ok b v D)"
proof (induction D arbitrary: v rule: less_induct)
  case (less D)
  show ?case
  proof (cases "D = 0 \<or> b < 2 \<or> v div D \<ge> 16")
    case True
    then show ?thesis by (simp add: put_digits_stuck)
  next
    case False
    then have "D div b < D" by simp
    from less [OF this] have rest: "follows R N
      (if D div b = 0 then Some else put_digits append_char always b (v - v div D * D) (D div b))
      (if D div b = 0 then Some else put_digits put ok b (v - v div D * D) (D div b))" by simp
    show ?thesis unfolding put_digits_step [OF False] by (rule follows_bind [OF follows_put follows_ok [OF rest]])
  qed
qed

lemma follows_PrintUnsigned: "follows R N (PrintUnsigned append_char always v b nd fw fl) (PrintUnsigned put ok v b nd fw fl)"
  unfolding PrintUnsigned_def Let_def
  by (intro follows2_bind follows_ok follows_value follows2_if follows_pad follows_id follows_if follows2_fst follows_bind follows_put_digits)

lemma follows_PrintInt: "follows R N (PrintInt append_char always v b nd fw fl) (PrintInt put ok v b nd fw fl)"
  unfolding PrintInt_def Let_def
  by (intro follows_if follows_None follows2_bind follows_ok follows2_if follows_pad follows_id follows_bind follows_put
      follows_PrintUnsigned)

end

subsection \<open>What is printed\<close>

definition unsigned_text :: "u32 \<Rightarrow> nat \<Rightarrow> u32 \<Rightarrow> u32 \<Rightarrow> u32 \<Rightarrow> u8 list" where
  "unsigned_text v Base nd fw fl =
     (let n = max (digit_count Base (unat v)) (unat nd); ds = digits Base n (unat v) in
      if has_flag fl FORMAT_FLAG_LEFT_JUSTIFY then ds @ replicate (unat fw - n) (chr (CHR '' ''))
      else replicate (unat fw - n) (if has_flag fl FORMAT_FLAG_PAD_ZERO \<and> nd = 0 then chr (CHR ''0'') else chr (CHR '' '')) @ ds)"

lemma pad_text: "pad append_char always W F c xs =
    Some (xs @ replicate (unat F - unat W) c, if W < F then W else F)"
  by (simp add: pad_def put_n_all put_all_append)

lemma unat_max: "unat (max a b :: u32) = max (unat a) (unat b)"
  by (simp add: max_def word_le_nat_alt)

lemma PrintUnsigned_text:
  assumes b: "2 \<le> Base" "Base \<le> 16" and nd: "Base ^ (unat nd - 1) < 2 ^ 32"
  shows "PrintUnsigned append_char always v Base nd fw fl xs = Some (xs @ unsigned_text v Base nd fw fl)"
proof -
  define n where "n = max (unat nd) (digit_count Base (unat v))"
  have v: "unat v < 2 ^ 32" using unat_u32 [of v] by simp
  have c: "unat (word_of_nat (digit_count Base (unat v)) :: u32) = digit_count Base (unat v)"
    using digit_count_bound [OF b(1) v] by (simp add: unat_of_nat take_bit_nat_eq_self)
  have w: "unat (max (word_of_nat (digit_count Base (unat v))) nd) = n" by (simp add: unat_max c n_def max.commute)
  have n: "n = Suc (n - 1)" using digit_count_pos [of Base "unat v"] by (simp add: n_def max_def)
  have "digit_count Base (unat v) \<le> Suc (n - 1)" using n by (simp add: n_def)
  then have "unat v < Base ^ Suc (n - 1)" using digit_count_le [OF b(1)] by blast
  from put_digits_all [OF b this, of append_char always]
  have pd: "put_digits append_char always Base (unat v) (Base ^ (n - Suc 0)) ys = Some (ys @ digits Base n (unat v))" for ys
    using n by (simp add: put_all_append)
  have f: "first_digit Base (unat v) (unat nd) = Some (Base ^ (n - 1))"
    using first_digit_pow [OF b(1) nd] by (simp add: n_def)
  have u: "unsigned_text v Base nd fw fl =
      (if has_flag fl FORMAT_FLAG_LEFT_JUSTIFY then digits Base n (unat v) @ replicate (unat fw - n) (chr (CHR '' ''))
       else replicate (unat fw - n) (if has_flag fl FORMAT_FLAG_PAD_ZERO \<and> nd = 0 then chr (CHR ''0'') else chr (CHR '' '')) @
         digits Base n (unat v))"
    by (simp add: unsigned_text_def n_def max.commute Let_def)
  show ?thesis
    unfolding PrintUnsigned_def Let_def pad_text w f u by (simp add: pd pad_text w always_def)
qed

text \<open>Reading the digits back.\<close>

definition digit_value :: "u8 \<Rightarrow> nat" where
  "digit_value c = length (takeWhile (\<lambda>x. x \<noteq> c) aV2C)"

definition read_digits :: "nat \<Rightarrow> u8 list \<Rightarrow> nat" where
  "read_digits Base cs = foldl (\<lambda>n c. n * Base + digit_value c) 0 cs"

lemma digit_value_aV2C: "k < 16 \<Longrightarrow> digit_value (aV2C ! k) = k"
proof -
  have "\<forall>k\<in>set [0..<16]. digit_value (aV2C ! k) = k" by code_simp
  then show "k < 16 \<Longrightarrow> digit_value (aV2C ! k) = k" by simp
qed

lemma read_digits_digits:
  assumes b: "2 \<le> Base" "Base \<le> 16"
  shows "foldl (\<lambda>n c. n * Base + digit_value c) a (digits Base n v) = a * Base ^ n + v mod Base ^ n"
proof (induction n arbitrary: a)
  case (Suc n)
  have d: "digit_value (aV2C ! (v div Base ^ n mod Base)) = v div Base ^ n mod Base"
  proof (rule digit_value_aV2C)
    have "v div Base ^ n mod Base < Base" using b by simp
    then show "v div Base ^ n mod Base < 16" using b(2) by simp
  qed
  have "v mod Base ^ Suc n = Base ^ n * (v div Base ^ n mod Base) + v mod Base ^ n"
    using mod_mult2_eq [of v "Base ^ n" Base] by (simp add: mult.commute)
  then show ?case unfolding digits_Suc foldl.simps d Suc by (simp add: algebra_simps)
qed simp

lemma read_unsigned:
  assumes "2 \<le> Base" "Base \<le> 16"
  shows "read_digits Base (digits Base (max (digit_count Base v) nd) v) = v"
proof -
  obtain k where k: "max (digit_count Base v) nd = Suc k" using digit_count_pos [of Base v] by (cases "max (digit_count Base v) nd") auto
  then have "digit_count Base v \<le> Suc k" by simp
  then have "v < Base ^ Suc k" using digit_count_le [OF assms(1)] by simp
  then show ?thesis unfolding k read_digits_def read_digits_digits [OF assms] by simp
qed

end
