(* ===== verification/RttPrintf.thy ===== *)
theory RttPrintf
  imports Printf RttChannel
begin

text \<open>
  \<open>SEGGER_RTT_printf\<close> and \<open>SEGGER_RTT_vprintf\<close> (src/lib/SEGGER/SEGGER_RTT_printf.c). A format string is
  its characters before the terminator; the remaining arguments are words, \<open>None\<close> when the function
  reads one that the caller did not pass; \<open>mem\<close> gives the string behind a pointer.
\<close>

subsection \<open>Collecting characters (_StoreChar)\<close>

definition SEGGER_RTT_PRINTF_BUFFER_SIZE :: nat where "SEGGER_RTT_PRINTF_BUFFER_SIZE = 64"

text \<open>
  \<open>acBuffer\<close> are the \<open>Cnt\<close> characters collected; the control block the text goes to is kept here too.
  \<open>ks\<close> is the probe's schedule for a write in blocking mode.
\<close>

record printf_desc =
  acBuffer :: "u8 list"
  ReturnValue :: int
  RTTBufferIndex :: nat
  prtt :: rtt_cb

definition StoreChar :: "nat list \<Rightarrow> printf_desc \<Rightarrow> u8 \<Rightarrow> printf_desc option" where
  "StoreChar ks p c =
     (let p = (if length (acBuffer p) + 1 \<le> SEGGER_RTT_PRINTF_BUFFER_SIZE
               then p\<lparr>acBuffer := acBuffer p @ [c], ReturnValue := ReturnValue p + 1\<rparr> else p) in
      if length (acBuffer p) = SEGGER_RTT_PRINTF_BUFFER_SIZE then do {
        (r, n) \<leftarrow> SEGGER_RTT_Write ks (RTTBufferIndex p) (acBuffer p) (word_of_nat (length (acBuffer p))) (prtt p);
        Some (if n \<noteq> word_of_nat (length (acBuffer p)) then p\<lparr>prtt := r, ReturnValue := - 1\<rparr> else p\<lparr>prtt := r, acBuffer := []\<rparr>)
      } else Some p)"

definition going_on :: "printf_desc \<Rightarrow> bool" where
  "going_on p \<longleftrightarrow> ReturnValue p \<ge> 0"

subsection \<open>Reading a conversion\<close>

definition is_digit :: "u8 \<Rightarrow> bool" where
  "is_digit c \<longleftrightarrow> chr (CHR ''0'') \<le> c \<and> c \<le> chr (CHR ''9'')"

definition is_long :: "u8 \<Rightarrow> bool" where
  "is_long c \<longleftrightarrow> c = chr (CHR ''l'') \<or> c = chr (CHR ''h'')"

primrec parse_flags :: "u8 list \<Rightarrow> u32 \<Rightarrow> u32 \<times> u8 list" where
  "parse_flags [] FormatFlags = (FormatFlags, [])"
| "parse_flags (c # s) FormatFlags =
     (if c = chr (CHR ''-'') then parse_flags s (FormatFlags OR FORMAT_FLAG_LEFT_JUSTIFY)
      else if c = chr (CHR ''0'') then parse_flags s (FormatFlags OR FORMAT_FLAG_PAD_ZERO)
      else if c = chr (CHR ''+'') then parse_flags s (FormatFlags OR FORMAT_FLAG_PRINT_SIGN)
      else if c = chr (CHR ''#'') then parse_flags s (FormatFlags OR FORMAT_FLAG_ALTERNATE)
      else (FormatFlags, c # s))"

primrec parse_number :: "u8 list \<Rightarrow> u32 \<Rightarrow> u32 \<times> u8 list" where
  "parse_number [] n = (n, [])"
| "parse_number (c # s) n = (if is_digit c then parse_number s (n * 10 + (ucast c - ucast (chr (CHR ''0'')))) else (n, c # s))"

definition skip_long :: "u8 list \<Rightarrow> u8 list" where
  "skip_long s = dropWhile is_long s"

text \<open>The next argument as an \<open>int\<close> or a pointer.\<close>

definition va_arg :: "u32 list \<Rightarrow> (u32 \<times> u32 list) option" where
  "va_arg args = (case args of [] \<Rightarrow> None | a # as \<Rightarrow> Some (a, as))"

text \<open>The precision: digits, or \<open>*\<close> and an argument.\<close>

definition parse_precision :: "u8 list \<Rightarrow> u32 list \<Rightarrow> ((bool \<times> u32) \<times> u8 list \<times> u32 list) option" where
  "parse_precision s args = (case s of
     [] \<Rightarrow> Some ((False, 0), s, args)
   | c # r \<Rightarrow>
      if c \<noteq> chr (CHR ''.'') then Some ((False, 0), s, args)
      else (case r of
          [] \<Rightarrow> Some ((False, 0), r, args)
        | d # r' \<Rightarrow>
           if d = chr (CHR ''*'') then do { (v, args) \<leftarrow> va_arg args; Some ((True, v), r', args) }
           else (case parse_number r 0 of (n, q) \<Rightarrow> Some ((is_digit d, n), q, args))))"

subsection \<open>One conversion and the whole text\<close>

text \<open>The loop of \<open>%s\<close>; \<open>Precision\<close> is decremented with each character and may wrap.\<close>

primrec put_string :: "('b \<Rightarrow> u8 \<Rightarrow> 'b option) \<Rightarrow> ('b \<Rightarrow> bool) \<Rightarrow> bool \<Rightarrow> u8 list \<Rightarrow> u32 \<Rightarrow> 'b \<Rightarrow> 'b option" where
  "put_string put ok PrecisionSet [] Precision d = Some d"
| "put_string put ok PrecisionSet (c # s) Precision d =
     (if PrecisionSet \<and> Precision = 0 then Some d
      else do { d \<leftarrow> put d c; if ok d then put_string put ok PrecisionSet s (Precision - 1) d else Some d })"

definition null_string :: "u8 list" where "null_string = bytes_of ''(NULL)''"

text \<open>The \<open>switch\<close> on the conversion character.\<close>

definition convert ::
  "('b \<Rightarrow> u8 \<Rightarrow> 'b option) \<Rightarrow> ('b \<Rightarrow> bool) \<Rightarrow> (u32 \<Rightarrow> u8 list option) \<Rightarrow> u8 \<Rightarrow> u32 \<Rightarrow> u32 \<Rightarrow> bool \<times> u32 \<Rightarrow> u32 list \<Rightarrow> 'b \<Rightarrow>
     ('b \<times> u32 list) option" where
  "convert put ok mem c FormatFlags FieldWidth prec args d =
     (if c = chr (CHR ''c'') then do { (v, args) \<leftarrow> va_arg args; d \<leftarrow> put d (ucast v); Some (d, args) }
      else if c = chr (CHR ''d'') then do {
        (v, args) \<leftarrow> va_arg args; d \<leftarrow> PrintInt put ok v 10 (snd prec) FieldWidth FormatFlags d; Some (d, args) }
      else if c = chr (CHR ''u'') then do {
        (v, args) \<leftarrow> va_arg args; d \<leftarrow> PrintUnsigned put ok v 10 (snd prec) FieldWidth FormatFlags d; Some (d, args) }
      else if c = chr (CHR ''x'') \<or> c = chr (CHR ''X'') then do {
        (v, args) \<leftarrow> va_arg args; d \<leftarrow> PrintUnsigned put ok v 16 (snd prec) FieldWidth FormatFlags d; Some (d, args) }
      else if c = chr (CHR ''s'') then do {
        (v, args) \<leftarrow> va_arg args;
        s \<leftarrow> (if v = 0 then Some null_string else mem v);
        d \<leftarrow> put_string put ok (fst prec \<and> v \<noteq> 0) s (snd prec) d;
        Some (d, args) }
      else if c = chr (CHR ''p'') then do {
        (v, args) \<leftarrow> va_arg args; d \<leftarrow> PrintUnsigned put ok v 16 8 8 0 d; Some (d, args) }
      else if c = chr (CHR ''%'') then do { d \<leftarrow> put d (chr (CHR ''%'')); Some (d, args) }
      else Some (d, args))"

text \<open>
  The loop over the format. After a conversion the pointer moves one character on, also when the format
  ended after the percent sign: the loop then reads past the terminator, which is a fault. Each round
  consumes a character, so \<open>length s + 1\<close> rounds are enough.
\<close>

primrec vprintf_loop ::
  "nat \<Rightarrow> ('b \<Rightarrow> u8 \<Rightarrow> 'b option) \<Rightarrow> ('b \<Rightarrow> bool) \<Rightarrow> (u32 \<Rightarrow> u8 list option) \<Rightarrow> u8 list \<Rightarrow> u32 list \<Rightarrow> 'b \<Rightarrow> 'b option" where
  "vprintf_loop 0 put ok mem s args d = None"
| "vprintf_loop (Suc n) put ok mem s args d = (case s of
     [] \<Rightarrow> Some d
   | c # s \<Rightarrow>
      if c = chr (CHR ''%'') then
        (case parse_flags s 0 of (FormatFlags, s) \<Rightarrow> (case parse_number s 0 of (FieldWidth, s) \<Rightarrow> do {
           (prec, s, args) \<leftarrow> parse_precision s args;
           case skip_long s of [] \<Rightarrow> None
           | c # s \<Rightarrow> do {
               (d, args) \<leftarrow> convert put ok mem c FormatFlags FieldWidth prec args d;
               if ok d then vprintf_loop n put ok mem s args d else Some d
             }
         }))
      else do { d \<leftarrow> put d c; if ok d then vprintf_loop n put ok mem s args d else Some d })"

definition SEGGER_RTT_vprintf ::
  "nat list \<Rightarrow> (u32 \<Rightarrow> u8 list option) \<Rightarrow> nat \<Rightarrow> u8 list \<Rightarrow> u32 list \<Rightarrow> rtt_cb \<Rightarrow> (rtt_cb \<times> int) option" where
  "SEGGER_RTT_vprintf ks mem BufferIndex sFormat args p = do {
     d \<leftarrow> vprintf_loop (Suc (length sFormat)) (StoreChar ks) going_on mem sFormat args
       \<lparr>acBuffer = [], ReturnValue = 0, RTTBufferIndex = BufferIndex, prtt = p\<rparr>;
     if ReturnValue d > 0 then do {
       r \<leftarrow> (if acBuffer d \<noteq> []
         then map_option fst (SEGGER_RTT_Write ks BufferIndex (acBuffer d) (word_of_nat (length (acBuffer d))) (prtt d))
         else Some (prtt d));
       Some (r, ReturnValue d + int (length (acBuffer d)))
     } else Some (prtt d, ReturnValue d)
   }"

definition SEGGER_RTT_printf ::
  "nat list \<Rightarrow> (u32 \<Rightarrow> u8 list option) \<Rightarrow> nat \<Rightarrow> u8 list \<Rightarrow> u32 list \<Rightarrow> rtt_cb \<Rightarrow> (rtt_cb \<times> int) option" where
  "SEGGER_RTT_printf ks mem BufferIndex sFormat args p = SEGGER_RTT_vprintf ks mem BufferIndex sFormat args p"

subsection \<open>The text of a format\<close>

definition format_text :: "(u32 \<Rightarrow> u8 list option) \<Rightarrow> u8 list \<Rightarrow> u32 list \<Rightarrow> u8 list option" where
  "format_text mem s args = vprintf_loop (Suc (length s)) append_char always mem s args []"

context char_sink
begin

lemma follows_put_string: "follows R N (put_string append_char always ps s pr) (put_string put ok ps s pr)"
proof (induction s arbitrary: pr)
  case Nil
  show ?case by (simp add: follows_def)
next
  case (Cons c s)
  show ?case unfolding put_string.simps
    by (intro follows_if follows_id follows_bind follows_put follows_ok Cons)
qed

lemma follows_convert:
  "follows2 R N (convert append_char always mem c fl fw prec args) (convert put ok mem c fl fw prec args)"
  unfolding convert_def split_def
  by (intro follows2_if follows2_value follows_ret follows_put follows_PrintInt follows_PrintUnsigned follows_put_string follows_id)

lemma follows_vprintf_loop:
  "follows R N (vprintf_loop n append_char always mem s args) (vprintf_loop n put ok mem s args)"
proof (induction n arbitrary: s args)
  case (Suc n)
  show ?case
  proof (cases s)
    case Nil
    then show ?thesis by (simp add: follows_def)
  next
    case (Cons c r)
    obtain fl s1 where 1: "parse_flags r 0 = (fl, s1)" by fastforce
    obtain fw s2 where 2: "parse_number s1 0 = (fw, s2)" by fastforce
    have conv: "follows R N
      (\<lambda>d. do { (prec, s, args) \<leftarrow> parse_precision s2 args;
        case skip_long s of [] \<Rightarrow> None
        | c # s \<Rightarrow> do { (d, args) \<leftarrow> convert append_char always mem c fl fw prec args d;
            if always d then vprintf_loop n append_char always mem s args d else Some d } })
      (\<lambda>d. do { (prec, s, args) \<leftarrow> parse_precision s2 args;
        case skip_long s of [] \<Rightarrow> None
        | c # s \<Rightarrow> do { (d, args) \<leftarrow> convert put ok mem c fl fw prec args d;
            if ok d then vprintf_loop n put ok mem s args d else Some d } })"
    proof (rule follows_value, clarify)
      fix a b s' args'
      show "follows R N
        (\<lambda>d. case skip_long s' of [] \<Rightarrow> None
          | c # s \<Rightarrow> do { (d, args) \<leftarrow> convert append_char always mem c fl fw (a, b) args' d;
              if always d then vprintf_loop n append_char always mem s args d else Some d })
        (\<lambda>d. case skip_long s' of [] \<Rightarrow> None
          | c # s \<Rightarrow> do { (d, args) \<leftarrow> convert put ok mem c fl fw (a, b) args' d;
              if ok d then vprintf_loop n put ok mem s args d else Some d })"
        by (cases "skip_long s'") (simp_all add: follows2_bind follows_convert follows_ok Suc)
    qed
    show ?thesis
      unfolding vprintf_loop.simps Cons list.case 1 2 split
      by (intro follows_if conv follows_bind follows_put follows_ok Suc)
  qed
qed (simp add: follows_def)

end

subsection \<open>Printing to a channel that skips\<close>

text \<open>
  While the text fits into the channel: what has been written and what is still collected are the text,
  and the return value counts its characters.
\<close>

definition printed :: "nat \<Rightarrow> rtt_cb \<Rightarrow> nat \<Rightarrow> printf_desc \<Rightarrow> u8 list \<Rightarrow> bool" where
  "printed i p N d xs \<longleftrightarrow> RTTBufferIndex d = i \<and> ReturnValue d = int (length xs) \<and> length (acBuffer d) = length xs mod 64 \<and>
     i < length (aUp p) \<and> hd (acID p) = of_char (CHR ''S'') \<and> length (contents (aUp p ! i)) + N \<le> capacity (aUp p ! i) \<and>
     (\<exists>r w. prtt d = p\<lparr>aUp := (aUp p)[i := r]\<rparr> \<and> ring_ok r \<and> Flags r = MODE_NO_BLOCK_SKIP \<and>
        capacity r = capacity (aUp p ! i) \<and> contents r = contents (aUp p ! i) @ w \<and> w @ acBuffer d = xs)"

text \<open>Writing what has been collected.\<close>

lemma flush:
  assumes "i < length (aUp p)" "hd (acID p) = of_char (CHR ''S'')" "ring_ok r" "Flags r = MODE_NO_BLOCK_SKIP"
    "length (contents r) + length bs \<le> capacity r" "length bs \<le> 64"
  shows "\<exists>r'. SEGGER_RTT_Write ks i bs (word_of_nat (length bs)) (p\<lparr>aUp := (aUp p)[i := r]\<rparr>) =
      Some (p\<lparr>aUp := (aUp p)[i := r']\<rparr>, word_of_nat (length bs)) \<and>
    ring_ok r' \<and> Flags r' = MODE_NO_BLOCK_SKIP \<and> capacity r' = capacity r \<and> contents r' = contents r @ bs"
proof -
  have n: "unat (word_of_nat (length bs) :: u32) = length bs" using assms(6) by (simp add: unat_of_nat take_bit_nat_eq_self)
  have le: "unat (word_of_nat (length bs) :: u32) \<le> length bs" by (simp add: n)
  obtain r' where r': "WriteMode ks r bs (word_of_nat (length bs)) = Some (r', word_of_nat (length bs))" "ring_ok r'"
    "contents r' = contents r @ bs" "same_channel r r'"
    using WriteMode_skip [OF assms(3,4) le, of ks] assms(5) unfolding n by auto
  have "Flags r' = MODE_NO_BLOCK_SKIP" "capacity r' = capacity r"
    using r'(4) assms(4) same_channel_capacity [OF r'(4)] by (simp_all add: same_channel_def)
  then show ?thesis using r' assms(1,2)
    by (intro exI [of _ r']) (simp add: SEGGER_RTT_Write_def SEGGER_RTT_WriteNoLock_def INIT_def on_up_def)
qed

lemma printed_put:
  assumes "printed i p N d xs" "length xs < N"
  shows "\<exists>d'. StoreChar ks d c = Some d' \<and> printed i p N d' (xs @ [c])"
proof -
  from assms(1) obtain r w where P: "RTTBufferIndex d = i" "ReturnValue d = int (length xs)" "length (acBuffer d) = length xs mod 64"
    "i < length (aUp p)" "hd (acID p) = of_char (CHR ''S'')" "length (contents (aUp p ! i)) + N \<le> capacity (aUp p ! i)"
    "prtt d = p\<lparr>aUp := (aUp p)[i := r]\<rparr>" "ring_ok r" "Flags r = MODE_NO_BLOCK_SKIP"
    "capacity r = capacity (aUp p ! i)" "contents r = contents (aUp p ! i) @ w" "w @ acBuffer d = xs"
    unfolding printed_def by blast
  have l: "length (acBuffer d) < 64" unfolding P(3) by simp
  define bs where "bs = acBuffer d @ [c]"
  define d1 where "d1 = d\<lparr>acBuffer := bs, ReturnValue := ReturnValue d + 1\<rparr>"
  show ?thesis
  proof (cases "length (acBuffer d) = 63")
    case False
    then have s: "StoreChar ks d c = Some d1" using l by (simp add: StoreChar_def SEGGER_RTT_PRINTF_BUFFER_SIZE_def d1_def bs_def)
    have "Suc (length xs) mod 64 = Suc (length xs mod 64)" using False P(3) by (simp add: mod_Suc)
    then have "printed i p N d1 (xs @ [c])"
      unfolding printed_def using P by (auto simp: d1_def bs_def intro!: exI [of _ r])
    then show ?thesis using s by blast
  next
    case True
    have "length (contents r) + length bs \<le> capacity r" using P(6,10,11,12) assms(2) by (auto simp: bs_def)
    from flush [OF P(4,5,8,9) this, of ks] True obtain r' where
      r': "SEGGER_RTT_Write ks i bs (word_of_nat (length bs)) (p\<lparr>aUp := (aUp p)[i := r]\<rparr>) =
        Some (p\<lparr>aUp := (aUp p)[i := r']\<rparr>, word_of_nat (length bs))"
      "ring_ok r'" "Flags r' = MODE_NO_BLOCK_SKIP" "capacity r' = capacity r" "contents r' = contents r @ bs"
      by (auto simp: bs_def)
    define d2 where "d2 = d1\<lparr>prtt := p\<lparr>aUp := (aUp p)[i := r']\<rparr>, acBuffer := []\<rparr>"
    have "length bs = 64" using True by (simp add: bs_def)
    then have s: "StoreChar ks d c = Some d2"
      using r'(1) P(1,7) True by (simp add: StoreChar_def SEGGER_RTT_PRINTF_BUFFER_SIZE_def d1_def d2_def bs_def Let_def)
    have m: "Suc (length xs) mod 64 = 0" using True P(3) by (simp add: mod_Suc)
    have "\<exists>r w. prtt d2 = p\<lparr>aUp := (aUp p)[i := r]\<rparr> \<and> ring_ok r \<and> Flags r = MODE_NO_BLOCK_SKIP \<and>
        capacity r = capacity (aUp p ! i) \<and> contents r = contents (aUp p ! i) @ w \<and> w @ acBuffer d2 = xs @ [c]"
      using r'(2-5) P(10,11,12) by (intro exI [of _ r'] exI [of _ "w @ bs"]) (simp add: d2_def bs_def flip: P(12))
    then have "printed i p N d2 (xs @ [c])"
      unfolding printed_def using P(1,2,4,5,6) m by (simp add: d2_def d1_def)
    then show ?thesis using s by blast
  qed
qed

interpretation rtt_sink: char_sink "StoreChar ks" going_on "printed i p N" N
proof unfold_locales
  fix d xs
  assume "printed i p N d xs"
  then show "going_on d" by (simp add: going_on_def printed_def)
qed (rule printed_put)

lemma sint_cases32: "sint (v :: u32) = (if uint v < 2 ^ 31 then uint v else uint v - 2 ^ 32)"
proof -
  have l: "0 \<le> uint v" "uint v < 2 ^ 32" using uint_lt2p [of v] by simp_all
  have e: "sint v = (uint v + 2 ^ 31) mod 2 ^ 32 - 2 ^ 31"
    by (simp add: sint_uint signed_take_bit_eq_take_bit_shift take_bit_eq_mod)
  show ?thesis
  proof (cases "uint v < 2 ^ 31")
    case False
    then have "(uint v - 2 ^ 31) mod 2 ^ 32 = uint v - 2 ^ 31" using l by (intro mod_pos_pos_trivial) simp_all
    then have "(uint v - 2 ^ 31 + 2 ^ 32) mod 2 ^ 32 = uint v - 2 ^ 31" unfolding mod_add_self2 .
    then show ?thesis using False e by (simp add: add.commute)
  qed (use l e in simp)
qed

lemma unat_abs:
  assumes "sint (v :: u32) \<noteq> - (2 ^ 31)"
  shows "unat (if sint v < 0 then - v else v) = nat \<bar>sint v\<bar>"
proof -
  have l: "0 \<le> uint v" "uint v < 2 ^ 32" using uint_lt2p [of v] by simp_all
  have "uint (- v) = (- uint v) mod 2 ^ 32" by (simp add: uint_word_ariths(4))
  then have m: "uint (- v) = (if uint v = 0 then 0 else 2 ^ 32 - uint v)" using l by (simp add: zmod_zminus1_eq_if)
  have "int (unat (if sint v < 0 then - v else v)) = \<bar>sint v\<bar>"
    using l m unfolding sint_cases32 by (auto split: if_splits)
  then show ?thesis by linarith
qed

lemma printed_start:
  assumes "i < length (aUp p)" "hd (acID p) = of_char (CHR ''S'')" "ring_ok (aUp p ! i)" "Flags (aUp p ! i) = MODE_NO_BLOCK_SKIP"
    "length (contents (aUp p ! i)) + N \<le> capacity (aUp p ! i)"
  shows "printed i p N \<lparr>acBuffer = [], ReturnValue = 0, RTTBufferIndex = i, prtt = p\<rparr> []"
  using assms by (auto simp: printed_def intro!: exI [of _ "aUp p ! i"])

subsection \<open>Properties\<close>

text \<open>C16. When the text of a format and its arguments fits into an up channel that skips, \<open>SEGGER_RTT_printf\<close>
  appends exactly this text to the bytes in the channel, whatever its length in relation to the 64-byte
  buffer it is collected in. The result is the length of the text plus the length of its last piece, which
  is counted twice, and not the number of bytes written that the documentation promises.\<close>
theorem RTT_printf_prints:
  assumes p: "i < length (aUp p)" "hd (acID p) = of_char (CHR ''S'')" "ring_ok (aUp p ! i)" "Flags (aUp p ! i) = MODE_NO_BLOCK_SKIP"
    and t: "format_text mem s args = Some t" "length (contents (aUp p ! i)) + length t \<le> capacity (aUp p ! i)"
  shows "\<exists>r. SEGGER_RTT_printf ks mem i s args p = Some (p\<lparr>aUp := (aUp p)[i := r]\<rparr>, int (length t) + int (length t mod 64)) \<and>
    ring_ok r \<and> contents r = contents (aUp p ! i) @ t"
proof -
  let ?N = "length t"
  from followsD [OF rtt_sink.follows_vprintf_loop t(1) [unfolded format_text_def] printed_start [OF p t(2)] order_refl]
  obtain d where d: "vprintf_loop (Suc (length s)) (StoreChar ks) going_on mem s args
      \<lparr>acBuffer = [], ReturnValue = 0, RTTBufferIndex = i, prtt = p\<rparr> = Some d" "printed i p ?N d t" by blast
  from d(2) obtain r w where P: "ReturnValue d = int (length t)" "length (acBuffer d) = length t mod 64"
    "prtt d = p\<lparr>aUp := (aUp p)[i := r]\<rparr>" "ring_ok r" "Flags r = MODE_NO_BLOCK_SKIP"
    "capacity r = capacity (aUp p ! i)" "contents r = contents (aUp p ! i) @ w" "w @ acBuffer d = t"
    unfolding printed_def by blast
  have "length w + length (acBuffer d) = length t" using P(8) by (metis length_append)
  then have l: "length (contents r) + length (acBuffer d) \<le> capacity r" "length (acBuffer d) \<le> 64"
    using t(2) P(2,6,7) by simp_all
  from flush [OF p(1,2) P(4,5) l, of ks] obtain r' where r':
    "SEGGER_RTT_Write ks i (acBuffer d) (word_of_nat (length (acBuffer d))) (prtt d) =
      Some (p\<lparr>aUp := (aUp p)[i := r']\<rparr>, word_of_nat (length (acBuffer d)))"
    "ring_ok r'" "contents r' = contents r @ acBuffer d" unfolding P(3) by auto
  define q where "q = (if acBuffer d = [] then r else r')"
  have q: "ring_ok q" "contents q = contents (aUp p ! i) @ t" using P(4,7,8) r' by (auto simp: q_def)
  have "length t = 0 \<Longrightarrow> acBuffer d = []" using P(2) by simp
  then have "SEGGER_RTT_printf ks mem i s args p = Some (p\<lparr>aUp := (aUp p)[i := q]\<rparr>, int (length t) + int (length t mod 64))"
    using d(1) P(1,2,3) r'(1) by (auto simp: SEGGER_RTT_printf_def SEGGER_RTT_vprintf_def q_def)
  then show ?thesis using q by blast
qed

theorem RTT_printf_prints_witness:
  "\<exists>r. SEGGER_RTT_printf [] (\<lambda>_. None) 0 (bytes_of ''T=%d C'') [(- 5)] (SEGGER_RTT_Init rtt_boot) =
      Some ((SEGGER_RTT_Init rtt_boot)\<lparr>aUp := (aUp (SEGGER_RTT_Init rtt_boot))[0 := r]\<rparr>, 12) \<and>
    contents r = bytes_of ''T=-5 C''"
proof -
  have f: "format_text (\<lambda>_. None) (bytes_of ''T=%d C'') [(- 5)] = Some (bytes_of ''T=-5 C'')" by code_simp
  have b: "ring_ok (aUp (SEGGER_RTT_Init rtt_boot) ! 0)" "contents (aUp (SEGGER_RTT_Init rtt_boot) ! 0) = []"
    using term_boot by (simp_all add: term_ok_def term_bytes_def)
  have c: "length (contents (aUp (SEGGER_RTT_Init rtt_boot) ! 0)) + length (bytes_of ''T=-5 C'') \<le> capacity (aUp (SEGGER_RTT_Init rtt_boot) ! 0)"
    unfolding b(2) by code_simp
  have i: "0 < length (aUp (SEGGER_RTT_Init rtt_boot))" "hd (acID (SEGGER_RTT_Init rtt_boot)) = of_char (CHR ''S'')"
    "Flags (aUp (SEGGER_RTT_Init rtt_boot) ! 0) = MODE_NO_BLOCK_SKIP" by code_simp+
  have l: "length (bytes_of ''T=-5 C'') = 6" by (simp add: bytes_of_def)
  show ?thesis using RTT_printf_prints [OF i(1,2) b(1) i(3) f c, of "[]"] unfolding b(2) l by auto
qed

text \<open>C26. Printed numbers read back: \<open>%u\<close> and \<open>%x\<close> print the digits of every 32-bit word, and \<open>%d\<close> those of every
  integer, with a minus sign in front of the absolute value when it is negative, but for the least one, whose negation
  overflows: for this argument \<open>%d\<close> has no defined result.\<close>
theorem PRINTF_numbers_read_back:
  "\<exists>u x. format_text mem (bytes_of ''%u'') [v] = Some u \<and> format_text mem (bytes_of ''%x'') [v] = Some x \<and>
    read_digits 10 u = unat v \<and> read_digits 16 x = unat v \<and>
    (if sint (v :: u32) = - (2 ^ 31) then format_text mem (bytes_of ''%d'') [v] = None
     else \<exists>t. format_text mem (bytes_of ''%d'') [v] = Some t \<and>
       (if sint v < 0 then hd t = chr (CHR ''-'') \<and> int (read_digits 10 (tl t)) = - sint v else int (read_digits 10 t) = sint v))"
proof -
  let ?d = "\<lambda>b v. digits b (max (digit_count b v) 0) v"
  have U: "PrintUnsigned append_char always w b 0 0 0 xs = Some (xs @ ?d b (unat w))" if "b = 10 \<or> b = 16" for w b xs
    using PrintUnsigned_text [of b 0 w 0 0 xs] that by (auto simp: unsigned_text_def has_flag_def)
  have I: "PrintInt append_char always v 10 0 0 0 xs =
      Some (xs @ (if sint v < 0 then [chr (CHR ''-'')] else []) @ ?d 10 (nat \<bar>sint v\<bar>))" if n: "sint v \<noteq> - (2 ^ 31)" for xs
  proof -
    have p: "pad append_char always W 0 c xs = Some (xs, 0)" for W c xs by (simp add: pad_def)
    show ?thesis using n unfolding PrintInt_def Let_def
      by (simp add: p U always_def has_flag_def append_char_def unat_abs [OF n, symmetric])
  qed
  have F: "format_text mem (bytes_of ''%d'') [v] = PrintInt append_char always v 10 0 0 0 []"
    "format_text mem (bytes_of ''%u'') [v] = PrintUnsigned append_char always v 10 0 0 0 []"
    "format_text mem (bytes_of ''%x'') [v] = PrintUnsigned append_char always v 16 0 0 0 []"
    by (simp_all add: format_text_def bytes_of_def chr_def parse_precision_def skip_long_def is_long_def is_digit_def convert_def
        va_arg_def always_def)
  show ?thesis
  proof (cases "sint v = - (2 ^ 31)")
    case True
    then have "PrintInt append_char always v 10 0 0 0 [] = None" unfolding PrintInt_def by (rule if_P)
    with True show ?thesis unfolding F by (simp only: if_True simp_thms) (simp add: U read_unsigned [of _ _ 0, simplified])
  next
    case False
    show ?thesis unfolding F I [OF False] using False
      by (simp add: U read_unsigned [of _ _ 0, simplified])
  qed
qed

text \<open>The multiplications that look for the first digit wrap to zero when the precision is large.\<close>

lemma times_base_mod: "D < 2 ^ 32 \<Longrightarrow> times_base Base n D = D * Base ^ n mod 2 ^ 32"
proof (induction n arbitrary: D)
  case (Suc n)
  have "times_base Base (Suc n) D = D * Base mod 2 ^ 32 * Base ^ n mod 2 ^ 32"
    using Suc.IH [of "D * Base mod 2 ^ 32"] by simp
  also have "\<dots> = D * Base ^ Suc n mod 2 ^ 32" by (simp only: mod_mult_left_eq power_Suc mult.assoc)
  finally show ?case .
qed simp

lemma first_digit_wraps:
  assumes "Base = 16 \<and> 9 \<le> nd \<or> Base = 10 \<and> 33 \<le> nd"
  shows "first_digit Base v nd = None"
proof -
  have "(2::nat) ^ 32 dvd Base ^ (nd - 1)"
  proof (cases "Base = 16")
    case True
    have "(16::nat) ^ (nd - 1) = 2 ^ (4 * (nd - 1))" by (simp only: power_mult) simp
    moreover have "(2::nat) ^ 32 dvd 2 ^ (4 * (nd - 1))" by (rule le_imp_power_dvd) (use assms True in auto)
    ultimately show ?thesis using True by (simp only:)
  next
    case False
    have "(2::nat) ^ 32 dvd 2 ^ (nd - 1)" by (rule le_imp_power_dvd) (use assms False in auto)
    moreover have "(2::nat) ^ (nd - 1) * 5 ^ (nd - 1) = 10 ^ (nd - 1)" by (simp flip: power_mult_distrib)
    ultimately have "(2::nat) ^ 32 dvd 10 ^ (nd - 1)" by (metis dvd_mult2)
    then show ?thesis using False assms by (simp only: disj_not1) auto
  qed
  then have "times_base Base (nd - 1) 1 = 0" using times_base_mod [of 1 Base "nd - 1"] by (simp add: mod_eq_0_iff_dvd)
  then show ?thesis by (simp add: first_digit_def grow.simps [of Base v 0])
qed

text \<open>A precision of more than 8 hexadecimal digits, or of more than 32 decimal ones, makes \<open>_PrintUnsigned\<close>
  divide by zero, whatever the number and wherever it prints to.\<close>
theorem PRINTF_precision_divides_by_zero:
  assumes "Base = 16 \<and> 9 \<le> unat nd \<or> Base = 10 \<and> 33 \<le> unat nd"
  shows "PrintUnsigned append_char always v Base nd fw fl xs = None"
  unfolding PrintUnsigned_def Let_def first_digit_wraps [OF assms] by (simp add: pad_text always_def)

theorem PRINTF_precision_divides_by_zero_witness:
  "PrintUnsigned append_char always 255 16 9 0 0 [] = None"
  by (rule PRINTF_precision_divides_by_zero) simp

end
