(* ===== verification/SysView.thy ===== *)
theory SysView
  imports RttChannel
begin

text \<open>
  The event recorder (src/lib/SEGGER/SEGGER_SYSVIEW.c) with the FreeRTOS glue that keeps its task list
  (src/lib/SEGGER/FreeRTOSV11/SEGGER_SYSVIEW_FreeRTOS.c and its configuration). The recorder encodes
  events as packets, writes them to an RTT up channel, counts what it had to drop, and obeys the
  commands the host puts into the down channel.

  The configuration is the one of the repository: \<open>SUPPORT_LONG_ID\<close> 1, \<open>SUPPORT_LONG_DATA\<close> 0,
  \<open>USE_STATIC_BUFFER\<close> 1, \<open>POST_MORTEM_MODE\<close> 0, \<open>RTT_CHANNEL\<close> 0, \<open>ID_SHIFT\<close> 0, \<open>TIMESTAMP_BITS\<close> 32,
  \<open>CAN_RESTART\<close> 1, \<open>PRINTF_IMPLICIT_FORMAT\<close> 0.
\<close>

subsection \<open>Encoding (ENCODE_U32, _EncodeData, _EncodeFloat, _EncodeStr)\<close>

lemma u32_shift_less: "(0x7F :: u32) < v \<Longrightarrow> unat (drop_bit 7 v) < unat v"
proof -
  assume "0x7F < v"
  then have "127 < unat v" by (simp add: word_less_nat_alt)
  moreover have "unat (drop_bit 7 v) = unat v div 128" by (simp add: drop_bit_eq_div unat_div)
  ultimately show ?thesis by simp
qed

function ENCODE_U32 :: "u32 \<Rightarrow> u8 list" where
  "ENCODE_U32 v = (if 0x7F < v then ucast (v OR 0x80) # ENCODE_U32 (drop_bit 7 v) else [ucast v])"
  by auto
termination by (relation "measure unat") (simp_all add: u32_shift_less)

declare ENCODE_U32.simps [simp del]

definition SEGGER_SYSVIEW_MAX_STRING_LEN :: nat where "SEGGER_SYSVIEW_MAX_STRING_LEN = 128"
definition SEGGER_SYSVIEW_INFO_SIZE :: nat where "SEGGER_SYSVIEW_INFO_SIZE = 9"
definition SEGGER_SYSVIEW_QUANTA_U32 :: nat where "SEGGER_SYSVIEW_QUANTA_U32 = 5"
definition SEGGER_SYSVIEW_MAX_ARGUMENTS :: nat where "SEGGER_SYSVIEW_MAX_ARGUMENTS = 16"
definition MAX_ID_BYTES :: nat where "MAX_ID_BYTES = 5"
definition MAX_DATA_BYTES :: nat where "MAX_DATA_BYTES = 2"

definition SEGGER_SYSVIEW_MAX_PACKET_SIZE :: nat where
  "SEGGER_SYSVIEW_MAX_PACKET_SIZE = SEGGER_SYSVIEW_INFO_SIZE + SEGGER_SYSVIEW_MAX_STRING_LEN +
     2 * SEGGER_SYSVIEW_QUANTA_U32 + SEGGER_SYSVIEW_MAX_ARGUMENTS * SEGGER_SYSVIEW_QUANTA_U32"

lemmas sv_sizes = SEGGER_SYSVIEW_MAX_STRING_LEN_def SEGGER_SYSVIEW_INFO_SIZE_def SEGGER_SYSVIEW_QUANTA_U32_def
  SEGGER_SYSVIEW_MAX_ARGUMENTS_def MAX_ID_BYTES_def MAX_DATA_BYTES_def SEGGER_SYSVIEW_MAX_PACKET_SIZE_def

definition EncodeData :: "u8 list \<Rightarrow> u32 \<Rightarrow> u8 list option" where
  "EncodeData pSrc NumBytes =
     (if unat NumBytes \<le> length pSrc
      then Some ((if NumBytes < 255 then [ucast NumBytes]
                  else [255, ucast (drop_bit 8 NumBytes AND 255), ucast (NumBytes AND 255)])
                 @ take (unat NumBytes) pSrc)
      else None)"

text \<open>The bits of a \<open>float\<close>, encoded as an integer.\<close>

definition EncodeFloat :: "u32 \<Rightarrow> u8 list" where
  "EncodeFloat bits = ENCODE_U32 bits"

text \<open>A string is the characters before its terminator, \<open>None\<close> is \<open>NULL\<close>.\<close>

definition EncodeStr :: "u8 list option \<Rightarrow> nat \<Rightarrow> u8 list" where
  "EncodeStr pText Limit =
     (case pText of None \<Rightarrow> [0]
      | Some t \<Rightarrow> (let s = take (min Limit SEGGER_SYSVIEW_MAX_STRING_LEN) t in word_of_nat (length s) # s))"

subsection \<open>Event identifiers (SEGGER_SYSVIEW.h)\<close>

definition SYSVIEW_EVTID_OVERFLOW :: u32 where "SYSVIEW_EVTID_OVERFLOW = 1"
definition SYSVIEW_EVTID_ISR_ENTER :: u32 where "SYSVIEW_EVTID_ISR_ENTER = 2"
definition SYSVIEW_EVTID_ISR_EXIT :: u32 where "SYSVIEW_EVTID_ISR_EXIT = 3"
definition SYSVIEW_EVTID_TASK_START_EXEC :: u32 where "SYSVIEW_EVTID_TASK_START_EXEC = 4"
definition SYSVIEW_EVTID_TASK_STOP_EXEC :: u32 where "SYSVIEW_EVTID_TASK_STOP_EXEC = 5"
definition SYSVIEW_EVTID_TASK_START_READY :: u32 where "SYSVIEW_EVTID_TASK_START_READY = 6"
definition SYSVIEW_EVTID_TASK_STOP_READY :: u32 where "SYSVIEW_EVTID_TASK_STOP_READY = 7"
definition SYSVIEW_EVTID_TASK_CREATE :: u32 where "SYSVIEW_EVTID_TASK_CREATE = 8"
definition SYSVIEW_EVTID_TASK_INFO :: u32 where "SYSVIEW_EVTID_TASK_INFO = 9"
definition SYSVIEW_EVTID_TRACE_START :: u32 where "SYSVIEW_EVTID_TRACE_START = 10"
definition SYSVIEW_EVTID_TRACE_STOP :: u32 where "SYSVIEW_EVTID_TRACE_STOP = 11"
definition SYSVIEW_EVTID_SYSTIME_CYCLES :: u32 where "SYSVIEW_EVTID_SYSTIME_CYCLES = 12"
definition SYSVIEW_EVTID_SYSTIME_US :: u32 where "SYSVIEW_EVTID_SYSTIME_US = 13"
definition SYSVIEW_EVTID_SYSDESC :: u32 where "SYSVIEW_EVTID_SYSDESC = 14"
definition SYSVIEW_EVTID_MARK_START :: u32 where "SYSVIEW_EVTID_MARK_START = 15"
definition SYSVIEW_EVTID_MARK_STOP :: u32 where "SYSVIEW_EVTID_MARK_STOP = 16"
definition SYSVIEW_EVTID_IDLE :: u32 where "SYSVIEW_EVTID_IDLE = 17"
definition SYSVIEW_EVTID_ISR_TO_SCHEDULER :: u32 where "SYSVIEW_EVTID_ISR_TO_SCHEDULER = 18"
definition SYSVIEW_EVTID_TIMER_ENTER :: u32 where "SYSVIEW_EVTID_TIMER_ENTER = 19"
definition SYSVIEW_EVTID_TIMER_EXIT :: u32 where "SYSVIEW_EVTID_TIMER_EXIT = 20"
definition SYSVIEW_EVTID_STACK_INFO :: u32 where "SYSVIEW_EVTID_STACK_INFO = 21"
definition SYSVIEW_EVTID_MODULEDESC :: u32 where "SYSVIEW_EVTID_MODULEDESC = 22"
definition SYSVIEW_EVTID_DATA_SAMPLE :: u32 where "SYSVIEW_EVTID_DATA_SAMPLE = 23"
definition SYSVIEW_EVTID_INIT :: u32 where "SYSVIEW_EVTID_INIT = 24"
definition SYSVIEW_EVTID_NAME_RESOURCE :: u32 where "SYSVIEW_EVTID_NAME_RESOURCE = 25"
definition SYSVIEW_EVTID_PRINT_FORMATTED :: u32 where "SYSVIEW_EVTID_PRINT_FORMATTED = 26"
definition SYSVIEW_EVTID_NUMMODULES :: u32 where "SYSVIEW_EVTID_NUMMODULES = 27"
definition SYSVIEW_EVTID_END_CALL :: u32 where "SYSVIEW_EVTID_END_CALL = 28"
definition SYSVIEW_EVTID_TASK_TERMINATE :: u32 where "SYSVIEW_EVTID_TASK_TERMINATE = 29"
definition SYSVIEW_EVTID_EX :: u32 where "SYSVIEW_EVTID_EX = 31"
definition SYSVIEW_EVTID_EX_MARK :: u32 where "SYSVIEW_EVTID_EX_MARK = 0"
definition SYSVIEW_EVTID_EX_NAME_MARKER :: u32 where "SYSVIEW_EVTID_EX_NAME_MARKER = 1"
definition SYSVIEW_EVTID_EX_HEAP_DEFINE :: u32 where "SYSVIEW_EVTID_EX_HEAP_DEFINE = 2"
definition SYSVIEW_EVTID_EX_HEAP_ALLOC :: u32 where "SYSVIEW_EVTID_EX_HEAP_ALLOC = 3"
definition SYSVIEW_EVTID_EX_HEAP_ALLOC_EX :: u32 where "SYSVIEW_EVTID_EX_HEAP_ALLOC_EX = 4"
definition SYSVIEW_EVTID_EX_HEAP_FREE :: u32 where "SYSVIEW_EVTID_EX_HEAP_FREE = 5"
definition SYSVIEW_EVTID_EX_REGISTER_DATA :: u32 where "SYSVIEW_EVTID_EX_REGISTER_DATA = 6"

lemmas evtid_defs = SYSVIEW_EVTID_OVERFLOW_def SYSVIEW_EVTID_ISR_ENTER_def SYSVIEW_EVTID_ISR_EXIT_def
  SYSVIEW_EVTID_TASK_START_EXEC_def SYSVIEW_EVTID_TASK_STOP_EXEC_def SYSVIEW_EVTID_TASK_START_READY_def
  SYSVIEW_EVTID_TASK_STOP_READY_def SYSVIEW_EVTID_TASK_CREATE_def SYSVIEW_EVTID_TASK_INFO_def
  SYSVIEW_EVTID_TRACE_START_def SYSVIEW_EVTID_TRACE_STOP_def SYSVIEW_EVTID_SYSTIME_CYCLES_def
  SYSVIEW_EVTID_SYSTIME_US_def SYSVIEW_EVTID_SYSDESC_def SYSVIEW_EVTID_MARK_START_def SYSVIEW_EVTID_MARK_STOP_def
  SYSVIEW_EVTID_IDLE_def SYSVIEW_EVTID_ISR_TO_SCHEDULER_def SYSVIEW_EVTID_TIMER_ENTER_def SYSVIEW_EVTID_TIMER_EXIT_def
  SYSVIEW_EVTID_STACK_INFO_def SYSVIEW_EVTID_MODULEDESC_def SYSVIEW_EVTID_DATA_SAMPLE_def SYSVIEW_EVTID_INIT_def
  SYSVIEW_EVTID_NAME_RESOURCE_def SYSVIEW_EVTID_PRINT_FORMATTED_def SYSVIEW_EVTID_NUMMODULES_def
  SYSVIEW_EVTID_END_CALL_def SYSVIEW_EVTID_TASK_TERMINATE_def SYSVIEW_EVTID_EX_def

subsection \<open>State\<close>

text \<open>
  An entry of the task list of the FreeRTOS glue, and a registered module. A module's
  \<open>pfSendModuleDesc\<close> is code of the application; it is given by the descriptions it records, \<open>None\<close> is
  \<open>NULL\<close>.
\<close>

record task_status =
  xHandle :: u32
  pcTaskName :: "u8 list option"
  uxCurrentPriority :: u32
  pxStack :: u32
  uStackHighWaterMark :: u32

record sv_module =
  sModule :: "u8 list option"
  NumEvents :: u32
  EventOffset :: u32
  pfSendModuleDesc :: "u8 list list option"

text \<open>
  The recorder's globals, the RTT control block, the registered modules (the first one first) and the
  task list. The operating system interface and the description callback are \<open>NULL\<close> or the ones of the
  repository. \<open>timestamps\<close> are the values successive reads of the cycle counter return, \<open>reads\<close> how many
  have been made; \<open>high_water\<close>, \<open>tick_count\<close> and \<open>interrupt_id\<close> stand for
  \<open>uxTaskGetStackHighWaterMark\<close>, \<open>xTaskGetTickCountFromISR\<close> and the interrupt register.
\<close>

datatype os_api = SYSVIEW_X_OS_TraceAPI
datatype sys_desc_func = cbSendSystemDesc

record sysview =
  EnableState :: u8
  UpChannel :: u8
  RecursionCnt :: u8
  SysFreq :: u32
  CPUFreq :: u32
  LastTxTimeStamp :: u32
  RAMBaseAddress :: u32
  DropCount :: u32
  DownChannel :: u8
  DisabledEvents :: u32
  pOSAPI :: "os_api option"
  pfSendSysDesc :: "sys_desc_func option"
  modules :: "sv_module list"
  NumModules :: u8
  aTasks :: "task_status list"
  NumTasks :: nat
  rtt :: rtt_cb
  timestamps :: "nat \<Rightarrow> u32"
  reads :: nat
  high_water :: "u32 \<Rightarrow> u32"
  tick_count :: u32
  interrupt_id :: u32

definition SHRINK_ID :: "sysview \<Rightarrow> u32 \<Rightarrow> u32" where
  "SHRINK_ID s i = i - RAMBaseAddress s"

definition GET_TIMESTAMP :: "sysview \<Rightarrow> u32 \<times> sysview" where
  "GET_TIMESTAMP s = (timestamps s (reads s), s\<lparr>reads := Suc (reads s)\<rparr>)"

subsection \<open>Sending a packet (_SendPacket)\<close>

text \<open>
  The identifier and, from 24 on, the length are stored in front of the payload, each in 7-bit groups.
\<close>

definition id_bytes :: "u32 \<Rightarrow> u8 list" where
  "id_bytes i =
     (if i < 127 then [ucast i]
      else if i < 2 ^ 14 then [ucast (i OR 0x80), ucast (drop_bit 7 i)]
      else if i < 2 ^ 21 then [ucast (i OR 0x80), ucast (drop_bit 7 i OR 0x80), ucast (drop_bit 14 i)]
      else if i < 2 ^ 28 then [ucast (i OR 0x80), ucast (drop_bit 7 i OR 0x80), ucast (drop_bit 14 i OR 0x80),
        ucast (drop_bit 21 i)]
      else [ucast (i OR 0x80), ucast (drop_bit 7 i OR 0x80), ucast (drop_bit 14 i OR 0x80), ucast (drop_bit 21 i OR 0x80),
        ucast (drop_bit 28 i)])"

definition len_bytes :: "u32 \<Rightarrow> u8 list" where
  "len_bytes n = (if n > 127 then [ucast (n OR 0x80), ucast (drop_bit 7 n)] else [ucast n])"

definition packet_header :: "u32 \<Rightarrow> u32 \<Rightarrow> u8 list" where
  "packet_header EventId NumBytes =
     (if EventId < 24 then [ucast EventId] else id_bytes EventId @ len_bytes NumBytes)"

definition TrySendOverflowPacket :: "sysview \<Rightarrow> sysview option" where
  "TrySendOverflowPacket s =
     (case GET_TIMESTAMP s of (ts, s) \<Rightarrow>
        let aPacket = [ucast SYSVIEW_EVTID_OVERFLOW] @ ENCODE_U32 (DropCount s) @ ENCODE_U32 (ts - LastTxTimeStamp s) in do {
          (p, status) \<leftarrow> SEGGER_RTT_WriteSkipNoLock (unat (UpChannel s)) aPacket (word_of_nat (length aPacket)) (rtt s);
          Some (if status \<noteq> 0 then s\<lparr>rtt := p, LastTxTimeStamp := ts, EnableState := EnableState s - 1\<rparr>
                else s\<lparr>rtt := p, DropCount := DropCount s + 1\<rparr>)
        })"

text \<open>
  The part from label \<open>Send\<close> on. \<open>front\<close> bytes are free before the payload and \<open>cap\<close> bytes long is the
  packet buffer; running out of either is a fault.
\<close>

definition Send :: "nat \<Rightarrow> nat \<Rightarrow> u8 list \<Rightarrow> u32 \<Rightarrow> sysview \<Rightarrow> sysview option" where
  "Send front cap payload EventId s =
     (if EventId < 32 \<and> DisabledEvents s AND push_bit (unat EventId) 1 \<noteq> 0 then Some s
      else
        (let hdr = packet_header EventId (word_of_nat (length payload)) in
         case GET_TIMESTAMP s of (ts, s) \<Rightarrow>
           let delta = ENCODE_U32 (ts - LastTxTimeStamp s); pkt = hdr @ payload @ delta in
           if length hdr \<le> front \<and> front + length payload + length delta \<le> cap then do {
             (p, status) \<leftarrow> SEGGER_RTT_WriteSkipNoLock (unat (UpChannel s)) pkt (word_of_nat (length pkt)) (rtt s);
             Some (if status \<noteq> 0 then s\<lparr>rtt := p, LastTxTimeStamp := ts\<rparr>
                   else s\<lparr>rtt := p, EnableState := EnableState s + 1\<rparr>)
           } else None))"

text \<open>Everything before label \<open>SendDone\<close>.\<close>

definition SendPacket_body :: "nat \<Rightarrow> nat \<Rightarrow> u8 list \<Rightarrow> u32 \<Rightarrow> sysview \<Rightarrow> sysview option" where
  "SendPacket_body front cap payload EventId s =
     (if cap < front + length payload then None
      else if EnableState s = 1 then Send front cap payload EventId s
      else if EnableState s = 0 then Some s
      else if EnableState s = 2 then do {
        s \<leftarrow> TrySendOverflowPacket s;
        if EnableState s \<noteq> 1 then Some s else Send front cap payload EventId s
      } else Send front cap payload EventId s)"

text \<open>
  At \<open>SendDone\<close> a pending command is handled, but not by the packets that the handling sends itself:
  while \<open>RecursionCnt\<close> is 1 the end of \<open>_SendPacket\<close> does nothing. The functions below take the function
  that sends as an argument; theory SysViewReentry has the recursion as the code writes it and shows
  that it never goes deeper than these two levels.
\<close>

type_synonym sender = "u8 list \<Rightarrow> u32 \<Rightarrow> sysview \<Rightarrow> sysview option"

definition SendPacket_nested :: sender where
  "SendPacket_nested payload EventId s =
     SendPacket_body (MAX_ID_BYTES + MAX_DATA_BYTES) SEGGER_SYSVIEW_MAX_PACKET_SIZE payload EventId s"

subsection \<open>Recording events\<close>

definition SEGGER_SYSVIEW_RecordVoid :: "sender \<Rightarrow> u32 \<Rightarrow> sysview \<Rightarrow> sysview option" where
  "SEGGER_SYSVIEW_RecordVoid send EventID s = send [] EventID s"

definition SEGGER_SYSVIEW_RecordU32 :: "sender \<Rightarrow> u32 \<Rightarrow> u32 \<Rightarrow> sysview \<Rightarrow> sysview option" where
  "SEGGER_SYSVIEW_RecordU32 send EventID v s = send (ENCODE_U32 v) EventID s"

definition SEGGER_SYSVIEW_RecordU32x2 :: "sender \<Rightarrow> u32 \<Rightarrow> u32 \<Rightarrow> u32 \<Rightarrow> sysview \<Rightarrow> sysview option" where
  "SEGGER_SYSVIEW_RecordU32x2 send EventID p0 p1 s = send (ENCODE_U32 p0 @ ENCODE_U32 p1) EventID s"

definition SEGGER_SYSVIEW_RecordU32x3 :: "sender \<Rightarrow> u32 \<Rightarrow> u32 \<Rightarrow> u32 \<Rightarrow> u32 \<Rightarrow> sysview \<Rightarrow> sysview option" where
  "SEGGER_SYSVIEW_RecordU32x3 send EventID p0 p1 p2 s = send (ENCODE_U32 p0 @ ENCODE_U32 p1 @ ENCODE_U32 p2) EventID s"

definition SEGGER_SYSVIEW_RecordU32x4 :: "sender \<Rightarrow> u32 \<Rightarrow> u32 \<Rightarrow> u32 \<Rightarrow> u32 \<Rightarrow> u32 \<Rightarrow> sysview \<Rightarrow> sysview option" where
  "SEGGER_SYSVIEW_RecordU32x4 send EventID p0 p1 p2 p3 s =
     send (ENCODE_U32 p0 @ ENCODE_U32 p1 @ ENCODE_U32 p2 @ ENCODE_U32 p3) EventID s"

definition SEGGER_SYSVIEW_RecordU32x5 :: "sender \<Rightarrow> u32 \<Rightarrow> u32 \<Rightarrow> u32 \<Rightarrow> u32 \<Rightarrow> u32 \<Rightarrow> u32 \<Rightarrow> sysview \<Rightarrow> sysview option" where
  "SEGGER_SYSVIEW_RecordU32x5 send EventID p0 p1 p2 p3 p4 s =
     send (ENCODE_U32 p0 @ ENCODE_U32 p1 @ ENCODE_U32 p2 @ ENCODE_U32 p3 @ ENCODE_U32 p4) EventID s"

definition SEGGER_SYSVIEW_RecordU32x6 ::
  "sender \<Rightarrow> u32 \<Rightarrow> u32 \<Rightarrow> u32 \<Rightarrow> u32 \<Rightarrow> u32 \<Rightarrow> u32 \<Rightarrow> u32 \<Rightarrow> sysview \<Rightarrow> sysview option" where
  "SEGGER_SYSVIEW_RecordU32x6 send EventID p0 p1 p2 p3 p4 p5 s =
     send (ENCODE_U32 p0 @ ENCODE_U32 p1 @ ENCODE_U32 p2 @ ENCODE_U32 p3 @ ENCODE_U32 p4 @ ENCODE_U32 p5) EventID s"

definition SEGGER_SYSVIEW_RecordU32x7 ::
  "sender \<Rightarrow> u32 \<Rightarrow> u32 \<Rightarrow> u32 \<Rightarrow> u32 \<Rightarrow> u32 \<Rightarrow> u32 \<Rightarrow> u32 \<Rightarrow> u32 \<Rightarrow> sysview \<Rightarrow> sysview option" where
  "SEGGER_SYSVIEW_RecordU32x7 send EventID p0 p1 p2 p3 p4 p5 p6 s =
     send (ENCODE_U32 p0 @ ENCODE_U32 p1 @ ENCODE_U32 p2 @ ENCODE_U32 p3 @ ENCODE_U32 p4 @ ENCODE_U32 p5 @ ENCODE_U32 p6)
       EventID s"

definition SEGGER_SYSVIEW_RecordU32x8 ::
  "sender \<Rightarrow> u32 \<Rightarrow> u32 \<Rightarrow> u32 \<Rightarrow> u32 \<Rightarrow> u32 \<Rightarrow> u32 \<Rightarrow> u32 \<Rightarrow> u32 \<Rightarrow> u32 \<Rightarrow> sysview \<Rightarrow> sysview option" where
  "SEGGER_SYSVIEW_RecordU32x8 send EventID p0 p1 p2 p3 p4 p5 p6 p7 s =
     send (ENCODE_U32 p0 @ ENCODE_U32 p1 @ ENCODE_U32 p2 @ ENCODE_U32 p3 @ ENCODE_U32 p4 @ ENCODE_U32 p5 @ ENCODE_U32 p6 @
       ENCODE_U32 p7) EventID s"

definition SEGGER_SYSVIEW_RecordU32x9 ::
  "sender \<Rightarrow> u32 \<Rightarrow> u32 \<Rightarrow> u32 \<Rightarrow> u32 \<Rightarrow> u32 \<Rightarrow> u32 \<Rightarrow> u32 \<Rightarrow> u32 \<Rightarrow> u32 \<Rightarrow> u32 \<Rightarrow> sysview \<Rightarrow> sysview option" where
  "SEGGER_SYSVIEW_RecordU32x9 send EventID p0 p1 p2 p3 p4 p5 p6 p7 p8 s =
     send (ENCODE_U32 p0 @ ENCODE_U32 p1 @ ENCODE_U32 p2 @ ENCODE_U32 p3 @ ENCODE_U32 p4 @ ENCODE_U32 p5 @ ENCODE_U32 p6 @
       ENCODE_U32 p7 @ ENCODE_U32 p8) EventID s"

definition SEGGER_SYSVIEW_RecordU32x10 ::
  "sender \<Rightarrow> u32 \<Rightarrow> u32 \<Rightarrow> u32 \<Rightarrow> u32 \<Rightarrow> u32 \<Rightarrow> u32 \<Rightarrow> u32 \<Rightarrow> u32 \<Rightarrow> u32 \<Rightarrow> u32 \<Rightarrow> u32 \<Rightarrow> sysview \<Rightarrow> sysview option" where
  "SEGGER_SYSVIEW_RecordU32x10 send EventID p0 p1 p2 p3 p4 p5 p6 p7 p8 p9 s =
     send (ENCODE_U32 p0 @ ENCODE_U32 p1 @ ENCODE_U32 p2 @ ENCODE_U32 p3 @ ENCODE_U32 p4 @ ENCODE_U32 p5 @ ENCODE_U32 p6 @
       ENCODE_U32 p7 @ ENCODE_U32 p8 @ ENCODE_U32 p9) EventID s"

definition SEGGER_SYSVIEW_RecordString :: "sender \<Rightarrow> u32 \<Rightarrow> u8 list option \<Rightarrow> sysview \<Rightarrow> sysview option" where
  "SEGGER_SYSVIEW_RecordString send EventID pString s = send (EncodeStr pString SEGGER_SYSVIEW_MAX_STRING_LEN) EventID s"

text \<open>Events without and with a parameter.\<close>

definition SEGGER_SYSVIEW_RecordEnterISR :: "sender \<Rightarrow> sysview \<Rightarrow> sysview option" where
  "SEGGER_SYSVIEW_RecordEnterISR send s = send (ENCODE_U32 (interrupt_id s AND 0x1FF)) SYSVIEW_EVTID_ISR_ENTER s"

definition SEGGER_SYSVIEW_RecordExitISR :: "sender \<Rightarrow> sysview \<Rightarrow> sysview option" where
  "SEGGER_SYSVIEW_RecordExitISR send s = send [] SYSVIEW_EVTID_ISR_EXIT s"

definition SEGGER_SYSVIEW_RecordExitISRToScheduler :: "sender \<Rightarrow> sysview \<Rightarrow> sysview option" where
  "SEGGER_SYSVIEW_RecordExitISRToScheduler send s = send [] SYSVIEW_EVTID_ISR_TO_SCHEDULER s"

definition SEGGER_SYSVIEW_RecordEnterTimer :: "sender \<Rightarrow> u32 \<Rightarrow> sysview \<Rightarrow> sysview option" where
  "SEGGER_SYSVIEW_RecordEnterTimer send TimerId s = send (ENCODE_U32 (SHRINK_ID s TimerId)) SYSVIEW_EVTID_TIMER_ENTER s"

definition SEGGER_SYSVIEW_RecordExitTimer :: "sender \<Rightarrow> sysview \<Rightarrow> sysview option" where
  "SEGGER_SYSVIEW_RecordExitTimer send s = send [] SYSVIEW_EVTID_TIMER_EXIT s"

definition SEGGER_SYSVIEW_RecordEndCall :: "sender \<Rightarrow> u32 \<Rightarrow> sysview \<Rightarrow> sysview option" where
  "SEGGER_SYSVIEW_RecordEndCall send EventID s = send (ENCODE_U32 EventID) SYSVIEW_EVTID_END_CALL s"

definition SEGGER_SYSVIEW_RecordEndCallU32 :: "sender \<Rightarrow> u32 \<Rightarrow> u32 \<Rightarrow> sysview \<Rightarrow> sysview option" where
  "SEGGER_SYSVIEW_RecordEndCallU32 send EventID Para0 s = send (ENCODE_U32 EventID @ ENCODE_U32 Para0) SYSVIEW_EVTID_END_CALL s"

definition SEGGER_SYSVIEW_OnIdle :: "sender \<Rightarrow> sysview \<Rightarrow> sysview option" where
  "SEGGER_SYSVIEW_OnIdle send s = send [] SYSVIEW_EVTID_IDLE s"

definition SEGGER_SYSVIEW_OnTaskCreate :: "sender \<Rightarrow> u32 \<Rightarrow> sysview \<Rightarrow> sysview option" where
  "SEGGER_SYSVIEW_OnTaskCreate send TaskId s = send (ENCODE_U32 (SHRINK_ID s TaskId)) SYSVIEW_EVTID_TASK_CREATE s"

definition SEGGER_SYSVIEW_OnTaskTerminate :: "sender \<Rightarrow> u32 \<Rightarrow> sysview \<Rightarrow> sysview option" where
  "SEGGER_SYSVIEW_OnTaskTerminate send TaskId s = send (ENCODE_U32 (SHRINK_ID s TaskId)) SYSVIEW_EVTID_TASK_TERMINATE s"

definition SEGGER_SYSVIEW_OnTaskStartExec :: "sender \<Rightarrow> u32 \<Rightarrow> sysview \<Rightarrow> sysview option" where
  "SEGGER_SYSVIEW_OnTaskStartExec send TaskId s = send (ENCODE_U32 (SHRINK_ID s TaskId)) SYSVIEW_EVTID_TASK_START_EXEC s"

definition SEGGER_SYSVIEW_OnTaskStopExec :: "sender \<Rightarrow> sysview \<Rightarrow> sysview option" where
  "SEGGER_SYSVIEW_OnTaskStopExec send s = send [] SYSVIEW_EVTID_TASK_STOP_EXEC s"

definition SEGGER_SYSVIEW_OnTaskStartReady :: "sender \<Rightarrow> u32 \<Rightarrow> sysview \<Rightarrow> sysview option" where
  "SEGGER_SYSVIEW_OnTaskStartReady send TaskId s = send (ENCODE_U32 (SHRINK_ID s TaskId)) SYSVIEW_EVTID_TASK_START_READY s"

definition SEGGER_SYSVIEW_OnTaskStopReady :: "sender \<Rightarrow> u32 \<Rightarrow> u32 \<Rightarrow> sysview \<Rightarrow> sysview option" where
  "SEGGER_SYSVIEW_OnTaskStopReady send TaskId Cause s =
     send (ENCODE_U32 (SHRINK_ID s TaskId) @ ENCODE_U32 Cause) SYSVIEW_EVTID_TASK_STOP_READY s"

definition SEGGER_SYSVIEW_MarkStart :: "sender \<Rightarrow> u32 \<Rightarrow> sysview \<Rightarrow> sysview option" where
  "SEGGER_SYSVIEW_MarkStart send MarkerId s = send (ENCODE_U32 MarkerId) SYSVIEW_EVTID_MARK_START s"

definition SEGGER_SYSVIEW_MarkStop :: "sender \<Rightarrow> u32 \<Rightarrow> sysview \<Rightarrow> sysview option" where
  "SEGGER_SYSVIEW_MarkStop send MarkerId s = send (ENCODE_U32 MarkerId) SYSVIEW_EVTID_MARK_STOP s"

definition SEGGER_SYSVIEW_Mark :: "sender \<Rightarrow> u32 \<Rightarrow> sysview \<Rightarrow> sysview option" where
  "SEGGER_SYSVIEW_Mark send MarkerId s = send (ENCODE_U32 SYSVIEW_EVTID_EX_MARK @ ENCODE_U32 MarkerId) SYSVIEW_EVTID_EX s"

definition SEGGER_SYSVIEW_NameMarker :: "sender \<Rightarrow> u32 \<Rightarrow> u8 list option \<Rightarrow> sysview \<Rightarrow> sysview option" where
  "SEGGER_SYSVIEW_NameMarker send MarkerId name s =
     send (ENCODE_U32 SYSVIEW_EVTID_EX_NAME_MARKER @ ENCODE_U32 MarkerId @ EncodeStr name SEGGER_SYSVIEW_MAX_STRING_LEN)
       SYSVIEW_EVTID_EX s"

definition SEGGER_SYSVIEW_NameResource :: "sender \<Rightarrow> u32 \<Rightarrow> u8 list option \<Rightarrow> sysview \<Rightarrow> sysview option" where
  "SEGGER_SYSVIEW_NameResource send ResourceId name s =
     send (ENCODE_U32 (SHRINK_ID s ResourceId) @ EncodeStr name SEGGER_SYSVIEW_MAX_STRING_LEN) SYSVIEW_EVTID_NAME_RESOURCE s"

definition SEGGER_SYSVIEW_HeapDefine :: "sender \<Rightarrow> u32 \<Rightarrow> u32 \<Rightarrow> u32 \<Rightarrow> u32 \<Rightarrow> sysview \<Rightarrow> sysview option" where
  "SEGGER_SYSVIEW_HeapDefine send pHeap pBase HeapSize MetadataSize s =
     send (ENCODE_U32 SYSVIEW_EVTID_EX_HEAP_DEFINE @ ENCODE_U32 (SHRINK_ID s pHeap) @ ENCODE_U32 (SHRINK_ID s pBase) @
       ENCODE_U32 HeapSize @ ENCODE_U32 MetadataSize) SYSVIEW_EVTID_EX s"

definition SEGGER_SYSVIEW_HeapAlloc :: "sender \<Rightarrow> u32 \<Rightarrow> u32 \<Rightarrow> u32 \<Rightarrow> sysview \<Rightarrow> sysview option" where
  "SEGGER_SYSVIEW_HeapAlloc send pHeap pUserData UserDataLen s =
     send (ENCODE_U32 SYSVIEW_EVTID_EX_HEAP_ALLOC @ ENCODE_U32 (SHRINK_ID s pHeap) @ ENCODE_U32 (SHRINK_ID s pUserData) @
       ENCODE_U32 UserDataLen) SYSVIEW_EVTID_EX s"

definition SEGGER_SYSVIEW_HeapAllocEx :: "sender \<Rightarrow> u32 \<Rightarrow> u32 \<Rightarrow> u32 \<Rightarrow> u32 \<Rightarrow> sysview \<Rightarrow> sysview option" where
  "SEGGER_SYSVIEW_HeapAllocEx send pHeap pUserData UserDataLen Tag s =
     send (ENCODE_U32 SYSVIEW_EVTID_EX_HEAP_ALLOC_EX @ ENCODE_U32 (SHRINK_ID s pHeap) @ ENCODE_U32 (SHRINK_ID s pUserData) @
       ENCODE_U32 UserDataLen @ ENCODE_U32 Tag) SYSVIEW_EVTID_EX s"

definition SEGGER_SYSVIEW_HeapFree :: "sender \<Rightarrow> u32 \<Rightarrow> u32 \<Rightarrow> sysview \<Rightarrow> sysview option" where
  "SEGGER_SYSVIEW_HeapFree send pHeap pUserData s =
     send (ENCODE_U32 SYSVIEW_EVTID_EX_HEAP_FREE @ ENCODE_U32 (SHRINK_ID s pHeap) @ ENCODE_U32 (SHRINK_ID s pUserData))
       SYSVIEW_EVTID_EX s"

text \<open>\<open>SEGGER_SYSVIEW_DATA_SAMPLE\<close> and \<open>SEGGER_SYSVIEW_DATA_REGISTER\<close>; the bits of a \<open>float\<close> for a \<open>float\<close>.\<close>

definition SEGGER_SYSVIEW_SampleData :: "sender \<Rightarrow> u32 \<Rightarrow> u32 \<Rightarrow> sysview \<Rightarrow> sysview option" where
  "SEGGER_SYSVIEW_SampleData send ID pFloat s = send (ENCODE_U32 ID @ EncodeFloat pFloat) SYSVIEW_EVTID_DATA_SAMPLE s"

record data_register =
  dr_ID :: u32
  dr_DataType :: u32
  dr_Offset :: u32
  dr_RangeMin :: u32
  dr_RangeMax :: u32
  dr_ScalingFactor :: u32
  dr_sName :: "u8 list option"
  dr_sUnit :: "u8 list option"

text \<open>A \<open>float\<close> is zero when all its bits but the sign are.\<close>

definition float_nonzero :: "u32 \<Rightarrow> bool" where
  "float_nonzero bits \<longleftrightarrow> bits AND 0x7FFFFFFF \<noteq> 0"

definition register_payload :: "data_register \<Rightarrow> u8 list" where
  "register_payload i =
     (let five = ENCODE_U32 (dr_DataType i) @ ENCODE_U32 (dr_Offset i) @ ENCODE_U32 (dr_RangeMin i) @ ENCODE_U32 (dr_RangeMax i) @
            EncodeFloat (dr_ScalingFactor i) in
      ENCODE_U32 SYSVIEW_EVTID_EX_REGISTER_DATA @ ENCODE_U32 (dr_ID i) @ EncodeStr (dr_sName i) SEGGER_SYSVIEW_MAX_STRING_LEN @
      (if dr_sUnit i \<noteq> None then five @ EncodeStr (dr_sUnit i) SEGGER_SYSVIEW_MAX_STRING_LEN
       else if float_nonzero (dr_ScalingFactor i) then five
       else if dr_RangeMax i \<noteq> 0 then
         ENCODE_U32 (dr_DataType i) @ ENCODE_U32 (dr_Offset i) @ ENCODE_U32 (dr_RangeMin i) @ ENCODE_U32 (dr_RangeMax i)
       else if dr_RangeMin i \<noteq> 0 then ENCODE_U32 (dr_DataType i) @ ENCODE_U32 (dr_Offset i) @ ENCODE_U32 (dr_RangeMin i)
       else if dr_Offset i \<noteq> 0 then ENCODE_U32 (dr_DataType i) @ ENCODE_U32 (dr_Offset i)
       else if dr_DataType i \<noteq> 0 then ENCODE_U32 (dr_DataType i) else []))"

definition SEGGER_SYSVIEW_RegisterData :: "sender \<Rightarrow> data_register \<Rightarrow> sysview \<Rightarrow> sysview option" where
  "SEGGER_SYSVIEW_RegisterData send pInfo s = send (register_payload pInfo) SYSVIEW_EVTID_EX s"

subsection \<open>Descriptions of the system, its tasks and modules\<close>

record task_info =
  ti_TaskID :: u32
  ti_sName :: "u8 list option"
  ti_Prio :: u32
  ti_StackBase :: u32
  ti_StackSize :: u32
  ti_StackUsage :: u32

text \<open>Two packets, built in the same buffer one after the other.\<close>

definition SEGGER_SYSVIEW_SendTaskInfo :: "sender \<Rightarrow> task_info \<Rightarrow> sysview \<Rightarrow> sysview option" where
  "SEGGER_SYSVIEW_SendTaskInfo send i s = do {
     s \<leftarrow> send (ENCODE_U32 (SHRINK_ID s (ti_TaskID i)) @ ENCODE_U32 (ti_Prio i) @ EncodeStr (ti_sName i) 32)
       SYSVIEW_EVTID_TASK_INFO s;
     send (ENCODE_U32 (SHRINK_ID s (ti_TaskID i)) @ ENCODE_U32 (ti_StackBase i) @ ENCODE_U32 (ti_StackSize i) @
       ENCODE_U32 (ti_StackUsage i)) SYSVIEW_EVTID_STACK_INFO s
   }"

text \<open>The packet is encoded and never sent.\<close>

definition stack_info_payload :: "u32 \<Rightarrow> u32 \<Rightarrow> u32 \<Rightarrow> u32 \<Rightarrow> sysview \<Rightarrow> u8 list" where
  "stack_info_payload TaskID StackBase StackSize StackUsage s =
     ENCODE_U32 (SHRINK_ID s TaskID) @ ENCODE_U32 StackBase @ ENCODE_U32 StackSize @ ENCODE_U32 StackUsage"

definition SEGGER_SYSVIEW_SendStackInfo :: "sender \<Rightarrow> u32 \<Rightarrow> u32 \<Rightarrow> u32 \<Rightarrow> u32 \<Rightarrow> sysview \<Rightarrow> sysview option" where
  "SEGGER_SYSVIEW_SendStackInfo send TaskID StackBase StackSize StackUsage s =
     (let payload = stack_info_payload TaskID StackBase StackSize StackUsage s in Some s)"

definition SEGGER_SYSVIEW_SendSysDesc :: "sender \<Rightarrow> u8 list option \<Rightarrow> sysview \<Rightarrow> sysview option" where
  "SEGGER_SYSVIEW_SendSysDesc send sSysDesc s = send (EncodeStr sSysDesc SEGGER_SYSVIEW_MAX_STRING_LEN) SYSVIEW_EVTID_SYSDESC s"

definition sysdesc_1 :: "u8 list" where
  "sysdesc_1 = bytes_of ''N=FreeRTOS Demo Application,D=Cortex-M4,O=FreeRTOS''"

definition sysdesc_2 :: "u8 list" where
  "sysdesc_2 = bytes_of ''I#15=SysTick''"

definition cbSendSystemDesc_run :: "sender \<Rightarrow> sysview \<Rightarrow> sysview option" where
  "cbSendSystemDesc_run send s = do {
     s \<leftarrow> SEGGER_SYSVIEW_SendSysDesc send (Some sysdesc_1) s;
     SEGGER_SYSVIEW_SendSysDesc send (Some sysdesc_2) s
   }"

definition send_desc :: "sender \<Rightarrow> sysview \<Rightarrow> sysview option" where
  "send_desc send s = (case pfSendSysDesc s of None \<Rightarrow> Some s | Some cbSendSystemDesc \<Rightarrow> cbSendSystemDesc_run send s)"

definition init_payload :: "sysview \<Rightarrow> u8 list" where
  "init_payload s = ENCODE_U32 (SysFreq s) @ ENCODE_U32 (CPUFreq s) @ ENCODE_U32 (RAMBaseAddress s) @ ENCODE_U32 0"

definition SEGGER_SYSVIEW_GetSysDesc :: "sender \<Rightarrow> sysview \<Rightarrow> sysview option" where
  "SEGGER_SYSVIEW_GetSysDesc send s = do {
     s \<leftarrow> send (init_payload s) SYSVIEW_EVTID_INIT s;
     send_desc send s
   }"

text \<open>The task list of the glue (SEGGER_SYSVIEW_FreeRTOS.c); \<open>portTICK_PERIOD_MS\<close> is 1.\<close>

definition SYSVIEW_FREERTOS_MAX_NOF_TASKS :: nat where "SYSVIEW_FREERTOS_MAX_NOF_TASKS = 8"

definition no_task :: task_status where
  "no_task = \<lparr>xHandle = 0, pcTaskName = None, uxCurrentPriority = 0, pxStack = 0, uStackHighWaterMark = 0\<rparr>"

definition SYSVIEW_SendTaskInfo ::
  "sender \<Rightarrow> u32 \<Rightarrow> u8 list option \<Rightarrow> u32 \<Rightarrow> u32 \<Rightarrow> u32 \<Rightarrow> sysview \<Rightarrow> sysview option" where
  "SYSVIEW_SendTaskInfo send TaskID name Prio StackBase StackSize s =
     SEGGER_SYSVIEW_SendTaskInfo send \<lparr>ti_TaskID = TaskID, ti_sName = name, ti_Prio = Prio, ti_StackBase = StackBase,
       ti_StackSize = StackSize, ti_StackUsage = 0\<rparr> s"

text \<open>The loop \<open>for (n = 0; n < _NumTasks; n++)\<close>, from \<open>n\<close> on.\<close>

primrec cbSendTaskList_from :: "sender \<Rightarrow> nat \<Rightarrow> nat \<Rightarrow> sysview \<Rightarrow> sysview option" where
  "cbSendTaskList_from send 0 n s = Some s"
| "cbSendTaskList_from send (Suc k) n s =
     (if n < length (aTasks s) then
        (let t = (aTasks s ! n)\<lparr>uStackHighWaterMark := high_water s (xHandle (aTasks s ! n))\<rparr>;
             s = s\<lparr>aTasks := (aTasks s)[n := t]\<rparr> in do {
           s \<leftarrow> SYSVIEW_SendTaskInfo send (xHandle t) (pcTaskName t) (uxCurrentPriority t) (pxStack t) (uStackHighWaterMark t) s;
           cbSendTaskList_from send k (Suc n) s
         })
      else None)"

definition cbSendTaskList :: "sender \<Rightarrow> sysview \<Rightarrow> sysview option" where
  "cbSendTaskList send s = cbSendTaskList_from send (NumTasks s) 0 s"

definition cbGetTime :: "sysview \<Rightarrow> u64" where
  "cbGetTime s = ucast (tick_count s) * 1 * 1000"

definition SEGGER_SYSVIEW_SendTaskList :: "sender \<Rightarrow> sysview \<Rightarrow> sysview option" where
  "SEGGER_SYSVIEW_SendTaskList send s =
     (case pOSAPI s of None \<Rightarrow> Some s | Some SYSVIEW_X_OS_TraceAPI \<Rightarrow> cbSendTaskList send s)"

definition SEGGER_SYSVIEW_RecordSystime :: "sender \<Rightarrow> sysview \<Rightarrow> sysview option" where
  "SEGGER_SYSVIEW_RecordSystime send s =
     (case pOSAPI s of
        Some SYSVIEW_X_OS_TraceAPI \<Rightarrow>
          SEGGER_SYSVIEW_RecordU32x2 send SYSVIEW_EVTID_SYSTIME_US (ucast (cbGetTime s)) (ucast (drop_bit 32 (cbGetTime s))) s
      | None \<Rightarrow> (case GET_TIMESTAMP s of (ts, s) \<Rightarrow> SEGGER_SYSVIEW_RecordU32 send SYSVIEW_EVTID_SYSTIME_CYCLES ts s))"

text \<open>Modules.\<close>

definition MODULE_EVENT_OFFSET :: u32 where "MODULE_EVENT_OFFSET = 512"

definition SEGGER_SYSVIEW_SendNumModules :: "sender \<Rightarrow> sysview \<Rightarrow> sysview option" where
  "SEGGER_SYSVIEW_SendNumModules send s = send (ENCODE_U32 (ucast (NumModules s))) SYSVIEW_EVTID_NUMMODULES s"

text \<open>The module is given by its place in the list.\<close>

definition SEGGER_SYSVIEW_RecordModuleDescription :: "sender \<Rightarrow> nat \<Rightarrow> u8 list option \<Rightarrow> sysview \<Rightarrow> sysview option" where
  "SEGGER_SYSVIEW_RecordModuleDescription send n sDescription s =
     (if n < length (modules s)
      then send (ENCODE_U32 (ucast (word_of_nat n :: u8)) @ ENCODE_U32 (EventOffset (modules s ! n)) @
             EncodeStr sDescription SEGGER_SYSVIEW_MAX_STRING_LEN) SYSVIEW_EVTID_MODULEDESC s
      else None)"

primrec send_descriptions :: "sender \<Rightarrow> nat \<Rightarrow> u8 list list \<Rightarrow> sysview \<Rightarrow> sysview option" where
  "send_descriptions send n [] s = Some s"
| "send_descriptions send n (d # ds) s = do {
     s \<leftarrow> SEGGER_SYSVIEW_RecordModuleDescription send n (Some d) s;
     send_descriptions send n ds s
   }"

definition run_module_desc :: "sender \<Rightarrow> nat \<Rightarrow> sysview \<Rightarrow> sysview option" where
  "run_module_desc send n s =
     (case pfSendModuleDesc (modules s ! n) of None \<Rightarrow> Some s | Some ds \<Rightarrow> send_descriptions send n ds s)"

definition SEGGER_SYSVIEW_SendModule :: "sender \<Rightarrow> u8 \<Rightarrow> sysview \<Rightarrow> sysview option" where
  "SEGGER_SYSVIEW_SendModule send ModuleId s =
     (let n = unat ModuleId in
      if n < length (modules s) then do {
        s \<leftarrow> send (ENCODE_U32 (ucast ModuleId) @ ENCODE_U32 (EventOffset (modules s ! n)) @
          EncodeStr (sModule (modules s ! n)) SEGGER_SYSVIEW_MAX_STRING_LEN) SYSVIEW_EVTID_MODULEDESC s;
        run_module_desc send n s
      } else Some s)"

primrec SendModuleDescription_from :: "sender \<Rightarrow> nat \<Rightarrow> nat \<Rightarrow> sysview \<Rightarrow> sysview option" where
  "SendModuleDescription_from send 0 n s = Some s"
| "SendModuleDescription_from send (Suc k) n s = do {
     s \<leftarrow> run_module_desc send n s;
     SendModuleDescription_from send k (Suc n) s
   }"

definition SEGGER_SYSVIEW_SendModuleDescription :: "sender \<Rightarrow> sysview \<Rightarrow> sysview option" where
  "SEGGER_SYSVIEW_SendModuleDescription send s = SendModuleDescription_from send (length (modules s)) 0 s"

definition SEGGER_SYSVIEW_RegisterModule :: "sender \<Rightarrow> sv_module \<Rightarrow> sysview \<Rightarrow> sysview option" where
  "SEGGER_SYSVIEW_RegisterModule send m s =
     (let s = (case modules s of
         [] \<Rightarrow> s\<lparr>modules := [m\<lparr>EventOffset := MODULE_EVENT_OFFSET\<rparr>], NumModules := 1\<rparr>
       | f # fs \<Rightarrow> s\<lparr>modules := m\<lparr>EventOffset := EventOffset f + NumEvents f\<rparr> # f # fs, NumModules := NumModules s + 1\<rparr>)
      in SEGGER_SYSVIEW_SendModule send 0 s)"

subsection \<open>Starting, stopping and the host's commands\<close>

definition abSync :: "u8 list" where "abSync = replicate 10 0"

definition SEGGER_SYSVIEW_Start :: "sender \<Rightarrow> sysview \<Rightarrow> sysview option" where
  "SEGGER_SYSVIEW_Start send s = do {
     let s = s\<lparr>EnableState := 1\<rparr>;
     (p, _) \<leftarrow> SEGGER_RTT_WriteSkipNoLock (unat (UpChannel s)) abSync 10 (rtt s);
     let s = s\<lparr>rtt := p\<rparr>;
     s \<leftarrow> SEGGER_SYSVIEW_RecordVoid send SYSVIEW_EVTID_TRACE_START s;
     s \<leftarrow> send (init_payload s) SYSVIEW_EVTID_INIT s;
     s \<leftarrow> send_desc send s;
     s \<leftarrow> SEGGER_SYSVIEW_RecordSystime send s;
     s \<leftarrow> SEGGER_SYSVIEW_SendTaskList send s;
     SEGGER_SYSVIEW_SendNumModules send s
   }"

definition SEGGER_SYSVIEW_Stop :: "sender \<Rightarrow> sysview \<Rightarrow> sysview option" where
  "SEGGER_SYSVIEW_Stop send s =
     (if EnableState s \<noteq> 0 then do {
        s \<leftarrow> send [] SYSVIEW_EVTID_TRACE_STOP s;
        Some (s\<lparr>EnableState := 0\<rparr>)
      } else Some s)"

text \<open>\<open>SEGGER_SYSVIEW_COMMAND_ID\<close> (SEGGER_SYSVIEW_Int.h).\<close>

definition COMMAND_ID_START :: u8 where "COMMAND_ID_START = 1"
definition COMMAND_ID_STOP :: u8 where "COMMAND_ID_STOP = 2"
definition COMMAND_ID_GET_SYSTIME :: u8 where "COMMAND_ID_GET_SYSTIME = 3"
definition COMMAND_ID_GET_TASKLIST :: u8 where "COMMAND_ID_GET_TASKLIST = 4"
definition COMMAND_ID_GET_SYSDESC :: u8 where "COMMAND_ID_GET_SYSDESC = 5"
definition COMMAND_ID_GET_NUMMODULES :: u8 where "COMMAND_ID_GET_NUMMODULES = 6"
definition COMMAND_ID_GET_MODULEDESC :: u8 where "COMMAND_ID_GET_MODULEDESC = 7"
definition COMMAND_ID_HEARTBEAT :: u8 where "COMMAND_ID_HEARTBEAT = 127"
definition COMMAND_ID_GET_MODULE :: u8 where "COMMAND_ID_GET_MODULE = 128"

lemmas command_defs = COMMAND_ID_START_def COMMAND_ID_STOP_def COMMAND_ID_GET_SYSTIME_def COMMAND_ID_GET_TASKLIST_def
  COMMAND_ID_GET_SYSDESC_def COMMAND_ID_GET_NUMMODULES_def COMMAND_ID_GET_MODULEDESC_def COMMAND_ID_HEARTBEAT_def
  COMMAND_ID_GET_MODULE_def

text \<open>One byte of the down channel.\<close>

definition read_command :: "sysview \<Rightarrow> (sysview \<times> u8 option) option" where
  "read_command s = do {
     (p, bs) \<leftarrow> SEGGER_RTT_ReadNoLock (unat (DownChannel s)) 1 (rtt s);
     Some (s\<lparr>rtt := p\<rparr>, case bs of [] \<Rightarrow> None | b # _ \<Rightarrow> Some b)
   }"

definition HandleIncomingPacket :: "sender \<Rightarrow> sysview \<Rightarrow> sysview option" where
  "HandleIncomingPacket send s = do {
     (s, c) \<leftarrow> read_command s;
     case c of None \<Rightarrow> Some s
     | Some Cmd \<Rightarrow>
       if Cmd = COMMAND_ID_START then SEGGER_SYSVIEW_Start send s
       else if Cmd = COMMAND_ID_STOP then SEGGER_SYSVIEW_Stop send s
       else if Cmd = COMMAND_ID_GET_SYSTIME then SEGGER_SYSVIEW_RecordSystime send s
       else if Cmd = COMMAND_ID_GET_TASKLIST then SEGGER_SYSVIEW_SendTaskList send s
       else if Cmd = COMMAND_ID_GET_SYSDESC then SEGGER_SYSVIEW_GetSysDesc send s
       else if Cmd = COMMAND_ID_GET_NUMMODULES then SEGGER_SYSVIEW_SendNumModules send s
       else if Cmd = COMMAND_ID_GET_MODULEDESC then SEGGER_SYSVIEW_SendModuleDescription send s
       else if Cmd = COMMAND_ID_GET_MODULE then do {
         (s, c) \<leftarrow> read_command s;
         case c of None \<Rightarrow> Some s | Some m \<Rightarrow> SEGGER_SYSVIEW_SendModule send m s
       } else if Cmd = COMMAND_ID_HEARTBEAT then Some s
       else if Cmd \<ge> 128 then map_option fst (read_command s)
       else Some s
   }"

text \<open>The code at label \<open>SendDone\<close>; the same lines end \<open>SEGGER_SYSVIEW_IsStarted\<close>.\<close>

definition poll_commands :: "sender \<Rightarrow> sysview \<Rightarrow> sysview option" where
  "poll_commands send s = do {
     n \<leftarrow> SEGGER_RTT_HasData (unat (DownChannel s)) (rtt s);
     if n \<noteq> 0 \<and> RecursionCnt s = 0 then do {
       s \<leftarrow> HandleIncomingPacket send (s\<lparr>RecursionCnt := 1\<rparr>);
       Some (s\<lparr>RecursionCnt := 0\<rparr>)
     } else Some s
   }"

definition SendPacket :: sender where
  "SendPacket payload EventId s = do {
     s \<leftarrow> SendPacket_nested payload EventId s;
     poll_commands SendPacket_nested s
   }"

definition SEGGER_SYSVIEW_IsStarted :: "sysview \<Rightarrow> (sysview \<times> u8) option" where
  "SEGGER_SYSVIEW_IsStarted s = map_option (\<lambda>s. (s, EnableState s)) (poll_commands SendPacket_nested s)"

text \<open>
  A packet the caller has built in its own buffer of \<open>size\<close> bytes, with the 4 bytes in front that
  \<open>SEGGER_SYSVIEW_PREPARE_PACKET\<close> reserves.
\<close>

definition SEGGER_SYSVIEW_SendPacket :: "nat \<Rightarrow> u8 list \<Rightarrow> u32 \<Rightarrow> sysview \<Rightarrow> sysview option" where
  "SEGGER_SYSVIEW_SendPacket buf_size payload EventId s = do {
     s \<leftarrow> SendPacket_body 4 buf_size payload EventId s;
     poll_commands SendPacket_nested s
   }"

subsection \<open>Initialisation and settings\<close>

text \<open>The recorder's memory at boot; \<open>ts\<close>, \<open>hw\<close>, \<open>tc\<close> and \<open>ii\<close> are the environment.\<close>

definition sv_boot :: "(nat \<Rightarrow> u32) \<Rightarrow> (u32 \<Rightarrow> u32) \<Rightarrow> u32 \<Rightarrow> u32 \<Rightarrow> sysview" where
  "sv_boot ts hw tc ii = \<lparr>EnableState = 0, UpChannel = 0, RecursionCnt = 0, SysFreq = 0, CPUFreq = 0, LastTxTimeStamp = 0,
     RAMBaseAddress = 0, DropCount = 0, DownChannel = 0, DisabledEvents = 0, pOSAPI = None, pfSendSysDesc = None,
     modules = [], NumModules = 0, aTasks = replicate SYSVIEW_FREERTOS_MAX_NOF_TASKS no_task, NumTasks = 0, rtt = rtt_boot,
     timestamps = ts, reads = 0, high_water = hw, tick_count = tc, interrupt_id = ii\<rparr>"

definition SEGGER_SYSVIEW_RTT_BUFFER_SIZE :: nat where "SEGGER_SYSVIEW_RTT_BUFFER_SIZE = 1024"

definition SEGGER_SYSVIEW_Init :: "u32 \<Rightarrow> u32 \<Rightarrow> os_api option \<Rightarrow> sys_desc_func option \<Rightarrow> sysview \<Rightarrow> sysview" where
  "SEGGER_SYSVIEW_Init sys_freq cpu_freq api desc s =
     (case SEGGER_RTT_AllocUpBuffer ''SysView'' (replicate SEGGER_SYSVIEW_RTT_BUFFER_SIZE 0) MODE_NO_BLOCK_SKIP (rtt s) of
        (p, up) \<Rightarrow>
        (case SEGGER_RTT_ConfigDownBuffer (unat (word_of_int up :: u8)) ''SysView'' (replicate 8 0) MODE_NO_BLOCK_SKIP p of
           (p, _) \<Rightarrow>
           (case GET_TIMESTAMP s of (ts, s) \<Rightarrow>
              s\<lparr>rtt := p, UpChannel := word_of_int up, DownChannel := word_of_int up, RAMBaseAddress := 0, LastTxTimeStamp := ts,
                pOSAPI := api, SysFreq := sys_freq, CPUFreq := cpu_freq, pfSendSysDesc := desc, EnableState := 0\<rparr>)))"

definition SEGGER_SYSVIEW_SetRAMBase :: "u32 \<Rightarrow> sysview \<Rightarrow> sysview" where
  "SEGGER_SYSVIEW_SetRAMBase a s = s\<lparr>RAMBaseAddress := a\<rparr>"

text \<open>\<open>configCPU_CLOCK_HZ\<close> of FreeRTOSConfig.h on the RP2350 and on the RP2040.\<close>

definition configCPU_CLOCK_HZ :: "bool \<Rightarrow> u32" where
  "configCPU_CLOCK_HZ rp2350 = (if rp2350 then 150000000 else 133000000)"

definition SEGGER_SYSVIEW_Conf :: "bool \<Rightarrow> sysview \<Rightarrow> sysview" where
  "SEGGER_SYSVIEW_Conf rp2350 s = SEGGER_SYSVIEW_SetRAMBase 0x10000000
     (SEGGER_SYSVIEW_Init (configCPU_CLOCK_HZ rp2350) (configCPU_CLOCK_HZ rp2350) (Some SYSVIEW_X_OS_TraceAPI)
       (Some cbSendSystemDesc) s)"

definition SEGGER_SYSVIEW_EnableEvents :: "u32 \<Rightarrow> sysview \<Rightarrow> sysview" where
  "SEGGER_SYSVIEW_EnableEvents EnableMask s = s\<lparr>DisabledEvents := DisabledEvents s AND NOT EnableMask\<rparr>"

definition SEGGER_SYSVIEW_DisableEvents :: "u32 \<Rightarrow> sysview \<Rightarrow> sysview" where
  "SEGGER_SYSVIEW_DisableEvents DisableMask s = s\<lparr>DisabledEvents := DisabledEvents s OR DisableMask\<rparr>"

definition SEGGER_SYSVIEW_GetChannelID :: "sysview \<Rightarrow> int" where
  "SEGGER_SYSVIEW_GetChannelID s = uint (UpChannel s)"

text \<open>The encoders for the application's own packets.\<close>

definition SEGGER_SYSVIEW_EncodeU32 :: "u8 list \<Rightarrow> u32 \<Rightarrow> u8 list" where
  "SEGGER_SYSVIEW_EncodeU32 pPayload v = pPayload @ ENCODE_U32 v"

definition SEGGER_SYSVIEW_EncodeString :: "u8 list \<Rightarrow> u8 list option \<Rightarrow> u32 \<Rightarrow> u8 list" where
  "SEGGER_SYSVIEW_EncodeString pPayload t MaxLen = pPayload @ EncodeStr t (unat MaxLen)"

definition SEGGER_SYSVIEW_EncodeData :: "u8 list \<Rightarrow> u8 list \<Rightarrow> u32 \<Rightarrow> u8 list option" where
  "SEGGER_SYSVIEW_EncodeData pPayload pSrc n = map_option (\<lambda>d. pPayload @ d) (EncodeData pSrc n)"

definition SEGGER_SYSVIEW_EncodeId :: "sysview \<Rightarrow> u8 list \<Rightarrow> u32 \<Rightarrow> u8 list" where
  "SEGGER_SYSVIEW_EncodeId s pPayload i = pPayload @ ENCODE_U32 (SHRINK_ID s i)"

definition SEGGER_SYSVIEW_ShrinkId :: "sysview \<Rightarrow> u32 \<Rightarrow> u32" where
  "SEGGER_SYSVIEW_ShrinkId s i = SHRINK_ID s i"

subsection \<open>Messages without arguments\<close>

definition SEGGER_SYSVIEW_LOG :: u32 where "SEGGER_SYSVIEW_LOG = 0"
definition SEGGER_SYSVIEW_WARNING :: u32 where "SEGGER_SYSVIEW_WARNING = 1"
definition SEGGER_SYSVIEW_ERROR :: u32 where "SEGGER_SYSVIEW_ERROR = 2"

definition message_payload :: "u8 list option \<Rightarrow> u32 \<Rightarrow> u8 list" where
  "message_payload t options = EncodeStr t SEGGER_SYSVIEW_MAX_STRING_LEN @ ENCODE_U32 options @ ENCODE_U32 0"

definition SEGGER_SYSVIEW_Print :: "sender \<Rightarrow> u8 list option \<Rightarrow> sysview \<Rightarrow> sysview option" where
  "SEGGER_SYSVIEW_Print send t s = send (message_payload t SEGGER_SYSVIEW_LOG) SYSVIEW_EVTID_PRINT_FORMATTED s"

definition SEGGER_SYSVIEW_Warn :: "sender \<Rightarrow> u8 list option \<Rightarrow> sysview \<Rightarrow> sysview option" where
  "SEGGER_SYSVIEW_Warn send t s = send (message_payload t SEGGER_SYSVIEW_WARNING) SYSVIEW_EVTID_PRINT_FORMATTED s"

definition SEGGER_SYSVIEW_Error :: "sender \<Rightarrow> u8 list option \<Rightarrow> sysview \<Rightarrow> sysview option" where
  "SEGGER_SYSVIEW_Error send t s = send (message_payload t SEGGER_SYSVIEW_ERROR) SYSVIEW_EVTID_PRINT_FORMATTED s"

subsection \<open>The task list (SEGGER_SYSVIEW_FreeRTOS.c)\<close>

definition is_idle :: "u8 list \<Rightarrow> bool" where
  "is_idle name \<longleftrightarrow> name = bytes_of ''IDLE''"

definition too_many_tasks :: "u8 list" where
  "too_many_tasks = bytes_of ''SYSTEMVIEW: Could not record task information. Maximum number of tasks reached.''"

definition SYSVIEW_AddTask ::
  "sender \<Rightarrow> u32 \<Rightarrow> u8 list \<Rightarrow> u32 \<Rightarrow> u32 \<Rightarrow> u32 \<Rightarrow> sysview \<Rightarrow> sysview option" where
  "SYSVIEW_AddTask send h name prio stack hwm s =
     (if is_idle name then Some s
      else if NumTasks s \<ge> SYSVIEW_FREERTOS_MAX_NOF_TASKS then SEGGER_SYSVIEW_Warn send (Some too_many_tasks) s
      else
        (let t = \<lparr>xHandle = h, pcTaskName = Some name, uxCurrentPriority = prio, pxStack = stack, uStackHighWaterMark = hwm\<rparr>;
             s = s\<lparr>aTasks := (aTasks s)[NumTasks s := t], NumTasks := NumTasks s + 1\<rparr>
         in SYSVIEW_SendTaskInfo send h (Some name) prio stack hwm s))"

text \<open>The first entry with the handle, or \<open>_NumTasks\<close>.\<close>

definition find_task :: "u32 \<Rightarrow> sysview \<Rightarrow> nat" where
  "find_task h s = length (takeWhile (\<lambda>t. xHandle t \<noteq> h) (take (NumTasks s) (aTasks s)))"

definition SYSVIEW_UpdateTask ::
  "sender \<Rightarrow> u32 \<Rightarrow> u8 list \<Rightarrow> u32 \<Rightarrow> u32 \<Rightarrow> u32 \<Rightarrow> sysview \<Rightarrow> sysview option" where
  "SYSVIEW_UpdateTask send h name prio stack hwm s =
     (if is_idle name then Some s
      else
        (let n = find_task h s in
         if n < NumTasks s then
           (let t = (aTasks s ! n)\<lparr>pcTaskName := Some name, uxCurrentPriority := prio, pxStack := stack,
                  uStackHighWaterMark := hwm\<rparr>
            in SYSVIEW_SendTaskInfo send h (Some name) prio stack hwm (s\<lparr>aTasks := (aTasks s)[n := t]\<rparr>))
         else SYSVIEW_AddTask send h name prio stack hwm s))"

definition SYSVIEW_DeleteTask :: "u32 \<Rightarrow> sysview \<Rightarrow> sysview" where
  "SYSVIEW_DeleteTask h s =
     (if NumTasks s = 0 then s
      else
        (let n = find_task h s in
         if n = NumTasks s - 1 then s\<lparr>aTasks := (aTasks s)[n := no_task], NumTasks := NumTasks s - 1\<rparr>
         else if n < NumTasks s then
           s\<lparr>aTasks := (aTasks s)[n := aTasks s ! (NumTasks s - 1), NumTasks s - 1 := no_task], NumTasks := NumTasks s - 1\<rparr>
         else s))"

end
