(* ===== verification/SysViewCodec.thy ===== *)
theory SysViewCodec
  imports SysView
begin

text \<open>
  The wire format of the recorder, from the host's side: decoders for integers, strings and packets,
  and the proof that they undo the encoders of theory SysView. A packet with an identifier below 24
  carries no length, so the host has to know the fields of its payload.
\<close>

subsection \<open>Integers in 7-bit groups\<close>

fun get_varint :: "u8 list \<Rightarrow> (nat \<times> u8 list) option" where
  "get_varint [] = None"
| "get_varint (b # bs) =
     (if unat b < 128 then Some (unat b, bs)
      else (case get_varint bs of None \<Rightarrow> None | Some (n, r) \<Rightarrow> Some (unat b - 128 + 128 * n, r)))"

lemma unat_low7: "unat (ucast (v OR 0x80 :: u32) :: u8) = 128 + unat v mod 128"
proof -
  have 1: "(ucast (v OR 0x80) :: u8) = push_bit 7 1 OR take_bit 7 (ucast v)"
  proof (rule bit_word_eqI)
    fix n assume "n < LENGTH(8)"
    then have "n < 7 \<or> n = 7" by auto
    then show "bit (ucast (v OR 0x80) :: u8) n = bit (push_bit 7 1 OR take_bit 7 (ucast v :: u8)) n"
      by (auto simp: bit_simps)
  qed
  have "unat (take_bit 7 (ucast v :: u8)) = take_bit 7 (unat v)"
    by (simp add: unsigned_take_bit_eq unsigned_ucast_eq)
  then have t: "unat (take_bit 7 (ucast v :: u8)) = unat v mod 128" by (simp only: take_bit_eq_mod) simp
  have 2: "unat (push_bit 7 1 OR take_bit 7 (ucast v :: u8)) = unat (1 :: u8) * 2 ^ 7 + unat (take_bit 7 (ucast v :: u8))"
    by (rule unat_shift_or) (unfold t, simp_all)
  show ?thesis unfolding 1 2 t by simp
qed

lemma unat_shift: "unat (drop_bit k (v :: u32)) = unat v div 2 ^ k"
proof -
  have "unat (drop_bit k v) = drop_bit k (unat v)" using unat_u32 [of v] by (simp add: unsigned_drop_bit_eq take_bit_nat_eq_self)
  then show ?thesis by (simp only: drop_bit_eq_div)
qed

lemma unat_last: "v \<le> 0x7F \<Longrightarrow> unat (ucast (v :: u32) :: u8) = unat v"
  by (simp add: unsigned_ucast_eq take_bit_nat_eq_self word_le_nat_alt)

lemma get_ENCODE: "get_varint (ENCODE_U32 v @ r) = Some (unat v, r)"
proof (induction v rule: ENCODE_U32.induct)
  case (1 v)
  show ?case
  proof (cases "0x7F < v")
    case True
    then show ?thesis using 1 by (simp add: ENCODE_U32.simps [of v] unat_low7 unat_shift mult.commute)
  next
    case False
    then have "v \<le> 0x7F" by simp
    then have "unat (ucast v :: u8) = unat v" "unat v < 128" by (rule unat_last, simp add: word_le_nat_alt)
    then show ?thesis using False by (simp add: ENCODE_U32.simps [of v])
  qed
qed

lemma ENCODE_nonempty [simp]: "ENCODE_U32 v \<noteq> []" "0 < length (ENCODE_U32 v)"
  by (subst ENCODE_U32.simps, simp)+

lemma length_ENCODE_bound: "0 < k \<Longrightarrow> unat v < 128 ^ k \<Longrightarrow> length (ENCODE_U32 v) \<le> k"
proof (induction v arbitrary: k rule: ENCODE_U32.induct)
  case (1 v)
  show ?case
  proof (cases "0x7F < v")
    case True
    then have "128 \<le> unat v" by (simp add: word_less_nat_alt)
    with 1(3) obtain j where k: "k = Suc j" "0 < j"
      by (cases k; cases "k - 1") auto
    have "unat (drop_bit 7 v) < 128 ^ j" using 1(3) k by (simp add: unat_shift less_mult_imp_div_less mult.commute)
    from 1(1) [OF True k(2) this] k show ?thesis using True by (simp add: ENCODE_U32.simps [of v])
  next
    case False
    then show ?thesis using 1(2) by (simp add: ENCODE_U32.simps [of v])
  qed
qed

lemma length_ENCODE: "length (ENCODE_U32 v) \<le> 5"
  using unat_u32 [of v] by (intro length_ENCODE_bound) auto

lemma length_ENCODE_small: "v \<le> 0x7F \<Longrightarrow> length (ENCODE_U32 v) = 1"
  by (simp add: ENCODE_U32.simps [of v] leD)

text \<open>The header spells the same encoding out.\<close>

lemma get_varint_more: "get_varint (ucast (v OR 0x80 :: u32) # bs) =
  (case get_varint bs of None \<Rightarrow> None | Some (n, r) \<Rightarrow> Some (unat v mod 128 + 128 * n, r))"
  using unat_low7 [of v] by (simp split: option.splits)

lemma get_varint_last: "unat (v :: u32) < 128 \<Longrightarrow> get_varint (ucast v # bs) = Some (unat v, bs)"
  using unat_last [of v] by (simp add: word_le_nat_alt)

lemma get_len_bytes: "unat n < 2 ^ 14 \<Longrightarrow> get_varint (len_bytes n @ r) = Some (unat n, r)"
  by (auto simp: len_bytes_def get_varint_more get_varint_last unat_shift word_less_nat_alt simp del: get_varint.simps)

lemma get_id_bytes: "get_varint (id_bytes i @ r) = Some (unat i, r)"
proof -
  have b: "unat i < 2 ^ 32" using unat_u32 [of i] by simp
  have split7: "a mod 128 + 128 * (a div 128) = a" for a :: nat by simp
  have d: "unat i div 16384 = unat i div 128 div 128" "unat i div 2097152 = unat i div 128 div 128 div 128"
    "unat i div 268435456 = unat i div 128 div 128 div 128 div 128" by (simp_all add: div_mult2_eq [symmetric])
  have e: "unat i mod 128 + 128 * (unat i div 128 mod 128 + 128 * (unat i div 128 div 128)) = unat i"
    "unat i mod 128 + 128 * (unat i div 128 mod 128 + 128 * (unat i div 128 div 128 mod 128 +
      128 * (unat i div 128 div 128 div 128))) = unat i"
    "unat i mod 128 + 128 * (unat i div 128 mod 128 + 128 * (unat i div 128 div 128 mod 128 +
      128 * (unat i div 128 div 128 div 128 mod 128 + 128 * (unat i div 128 div 128 div 128 div 128)))) = unat i"
    unfolding split7 by (rule refl)+
  show ?thesis
  proof (cases "unat i < 2 ^ 14")
    case True
    then show ?thesis
      by (auto simp: id_bytes_def get_varint_more get_varint_last unat_shift word_less_nat_alt simp del: get_varint.simps)
  next
    case F1: False
    show ?thesis
    proof (cases "unat i < 2 ^ 21")
      case True
      then show ?thesis using F1 e(1)
        by (simp add: id_bytes_def get_varint_more get_varint_last unat_shift word_less_nat_alt d less_mult_imp_div_less
            del: get_varint.simps)
    next
      case F2: False
      show ?thesis
      proof (cases "unat i < 2 ^ 28")
        case True
        then show ?thesis using F1 F2 e(2)
          by (simp add: id_bytes_def get_varint_more get_varint_last unat_shift word_less_nat_alt d less_mult_imp_div_less
              del: get_varint.simps)
      next
        case False
        then show ?thesis using F1 F2 e(3) b
          by (simp add: id_bytes_def get_varint_more get_varint_last unat_shift word_less_nat_alt d less_mult_imp_div_less
              del: get_varint.simps)
      qed
    qed
  qed
qed

lemma length_id_bytes: "length (id_bytes i) \<le> 5" "id_bytes i \<noteq> []"
  by (auto simp: id_bytes_def)

lemma length_len_bytes: "length (len_bytes n) \<le> 2"
  by (auto simp: len_bytes_def)

lemma length_header: "length (packet_header i n) \<le> 7"
  using length_id_bytes(1) [of i] length_len_bytes [of n] by (auto simp: packet_header_def)

subsection \<open>Strings and fields\<close>

fun get_str :: "u8 list \<Rightarrow> (u8 list \<times> u8 list) option" where
  "get_str [] = None"
| "get_str (n # bs) = (if unat n \<le> length bs then Some (take (unat n) bs, drop (unat n) bs) else None)"

lemma get_str_length: "length x < 256 \<Longrightarrow> get_str (word_of_nat (length x) # x @ r) = Some (x, r)"
  by (simp add: unat_of_nat take_bit_nat_eq_self)

lemma get_EncodeStr:
  "get_str (EncodeStr t limit @ r) =
     Some (case t of None \<Rightarrow> [] | Some s \<Rightarrow> take (min limit SEGGER_SYSVIEW_MAX_STRING_LEN) s, r)"
proof (cases t)
  case (Some s)
  have "length (take (min limit SEGGER_SYSVIEW_MAX_STRING_LEN) s) < 256"
    by (simp add: SEGGER_SYSVIEW_MAX_STRING_LEN_def min_def)
  from get_str_length [OF this] show ?thesis unfolding Some EncodeStr_def Let_def by simp
qed (simp add: EncodeStr_def)

lemma length_EncodeStr: "length (EncodeStr t limit) \<le> 1 + min limit 128"
  by (auto simp: EncodeStr_def Let_def SEGGER_SYSVIEW_MAX_STRING_LEN_def split: option.splits)

datatype field = FU32 | FStr

text \<open>The payload of each event without a length, as the host has to know it.\<close>

definition event_fields :: "nat \<Rightarrow> field list" where
  "event_fields i =
     (if i \<in> {2, 4, 6, 8, 12, 15, 16, 19} then [FU32]
      else if i \<in> {1, 7, 13, 23} then replicate (if i = 1 then 1 else 2) FU32
      else if i = 9 \<or> i = 22 then [FU32, FU32, FStr]
      else if i = 14 then [FStr]
      else if i = 21 then [FU32, FU32, FU32, FU32]
      else [])"

primrec rest_fields :: "field list \<Rightarrow> u8 list \<Rightarrow> u8 list option" where
  "rest_fields [] bs = Some bs"
| "rest_fields (f # fs) bs =
     (case (case f of FU32 \<Rightarrow> map_option snd (get_varint bs) | FStr \<Rightarrow> map_option snd (get_str bs)) of
        None \<Rightarrow> None | Some r \<Rightarrow> rest_fields fs r)"

lemma get_varint_append: "get_varint bs = Some (n, r) \<Longrightarrow> get_varint (bs @ q) = Some (n, r @ q)"
  by (induction bs arbitrary: n r rule: get_varint.induct) (auto split: if_splits option.splits)

lemma get_str_append: "get_str bs = Some (n, r) \<Longrightarrow> get_str (bs @ q) = Some (n, r @ q)"
  by (cases bs) (auto split: if_splits)

lemma rest_fields_append: "rest_fields fs bs = Some r \<Longrightarrow> rest_fields fs (bs @ q) = Some (r @ q)"
proof (induction fs arbitrary: bs)
  case (Cons f fs)
  show ?case
  proof (cases f)
    case FU32
    with Cons.prems obtain n r1 where "get_varint bs = Some (n, r1)" "rest_fields fs r1 = Some r"
      by (auto split: option.splits)
    then show ?thesis using FU32 Cons.IH get_varint_append by simp
  next
    case FStr
    with Cons.prems obtain n r1 where "get_str bs = Some (n, r1)" "rest_fields fs r1 = Some r"
      by (auto split: option.splits)
    then show ?thesis using FStr Cons.IH get_str_append by simp
  qed
qed simp

text \<open>A payload the host can cut out of the stream.\<close>

definition payload_ok :: "u32 \<Rightarrow> u8 list \<Rightarrow> bool" where
  "payload_ok i p \<longleftrightarrow> length p \<le> 215 \<and> (i < 24 \<longrightarrow> rest_fields (event_fields (unat i)) p = Some [])"

subsection \<open>Packets\<close>

definition encode_packet :: "u32 \<Rightarrow> u8 list \<Rightarrow> u32 \<Rightarrow> u8 list" where
  "encode_packet i p delta = packet_header i (word_of_nat (length p)) @ p @ ENCODE_U32 delta"

definition get_packet :: "u8 list \<Rightarrow> ((nat \<times> u8 list \<times> nat) \<times> u8 list) option" where
  "get_packet bs = do {
     (i, r) \<leftarrow> get_varint bs;
     (p, r) \<leftarrow> (if i < 24
       then (case rest_fields (event_fields i) r of None \<Rightarrow> None | Some q \<Rightarrow> Some (take (length r - length q) r, q))
       else (case get_varint r of None \<Rightarrow> None | Some (n, q) \<Rightarrow>
         if n \<le> length q then Some (take n q, drop n q) else None));
     (d, r) \<leftarrow> get_varint r;
     Some ((i, p, d), r)
   }"

lemma get_encode_packet:
  assumes "payload_ok i p"
  shows "get_packet (encode_packet i p d @ r) = Some ((unat i, p, unat d), r)"
proof (cases "i < 24")
  case True
  then have i: "unat i < 24" by (simp add: word_less_nat_alt)
  have h: "get_varint (encode_packet i p d @ r) = Some (unat i, p @ ENCODE_U32 d @ r)"
    using True i by (simp add: encode_packet_def packet_header_def get_varint_last del: get_varint.simps)
  have "rest_fields (event_fields (unat i)) (p @ ENCODE_U32 d @ r) = Some (ENCODE_U32 d @ r)"
    using rest_fields_append [of "event_fields (unat i)" p "[]" "ENCODE_U32 d @ r"] assms True by (simp add: payload_ok_def)
  then show ?thesis using h i by (simp add: get_packet_def get_ENCODE)
next
  case False
  then have i: "\<not> unat i < 24" by (simp add: word_less_nat_alt)
  have l: "length p \<le> 215" using assms by (simp add: payload_ok_def)
  then have u: "unat (word_of_nat (length p) :: u32) = length p" by (simp add: unat_of_nat take_bit_nat_eq_self)
  have h: "get_varint (encode_packet i p d @ r) = Some (unat i, len_bytes (word_of_nat (length p)) @ p @ ENCODE_U32 d @ r)"
    using False by (simp add: encode_packet_def packet_header_def get_id_bytes del: get_varint.simps)
  have "get_varint (len_bytes (word_of_nat (length p)) @ p @ ENCODE_U32 d @ r) = Some (length p, p @ ENCODE_U32 d @ r)"
    using get_len_bytes [of "word_of_nat (length p)" "p @ ENCODE_U32 d @ r"] u l by simp
  then show ?thesis using h i by (simp add: get_packet_def get_ENCODE)
qed

lemma length_encode_packet:
  assumes "payload_ok i p" shows "length (encode_packet i p d) \<le> 227" "encode_packet i p d \<noteq> []"
proof -
  show "length (encode_packet i p d) \<le> 227"
    using assms length_header [of i "word_of_nat (length p)"] length_ENCODE [of d] by (simp add: encode_packet_def payload_ok_def)
  show "encode_packet i p d \<noteq> []" by (simp add: encode_packet_def)
qed

subsection \<open>Streams\<close>

text \<open>
  What the recorder writes when it accepts the packets \<open>ps\<close> with their time stamps, the last packet
  before them having had the time stamp \<open>t\<close>; and the host's reconstruction.
\<close>

primrec encode_trace :: "u32 \<Rightarrow> (u32 \<times> u8 list \<times> u32) list \<Rightarrow> u8 list" where
  "encode_trace t [] = []"
| "encode_trace t (x # xs) = (case x of (i, p, ts) \<Rightarrow> encode_packet i p (ts - t) @ encode_trace ts xs)"

definition last_stamp :: "u32 \<Rightarrow> (u32 \<times> u8 list \<times> u32) list \<Rightarrow> u32" where
  "last_stamp t xs = (if xs = [] then t else snd (snd (last xs)))"

primrec get_packets :: "nat \<Rightarrow> u8 list \<Rightarrow> (nat \<times> u8 list \<times> nat) list option" where
  "get_packets 0 bs = (if bs = [] then Some [] else None)"
| "get_packets (Suc n) bs =
     (if bs = [] then Some []
      else (case get_packet bs of None \<Rightarrow> None | Some (x, r) \<Rightarrow> map_option (Cons x) (get_packets n r)))"

text \<open>The host adds the time differences up, modulo \<open>2 ^ 32\<close>.\<close>

primrec add_times :: "u32 \<Rightarrow> (nat \<times> u8 list \<times> nat) list \<Rightarrow> (nat \<times> u8 list \<times> u32) list" where
  "add_times t [] = []"
| "add_times t (x # xs) = (case x of (i, p, d) \<Rightarrow> (i, p, t + word_of_nat d) # add_times (t + word_of_nat d) xs)"

definition host_decode :: "u32 \<Rightarrow> u8 list \<Rightarrow> (nat \<times> u8 list \<times> u32) list option" where
  "host_decode t bs = map_option (add_times t) (get_packets (length bs) bs)"

lemma encode_trace_append: "encode_trace t (xs @ ys) = encode_trace t xs @ encode_trace (last_stamp t xs) ys"
  by (induction xs arbitrary: t) (auto simp: last_stamp_def)

lemma last_stamp_append: "last_stamp t (xs @ ys) = last_stamp (last_stamp t xs) ys"
  by (simp add: last_stamp_def)

lemma get_encode_trace:
  "\<forall>(i, p, ts)\<in>set xs. payload_ok i p \<Longrightarrow> length xs \<le> n \<Longrightarrow>
    map_option (add_times t) (get_packets n (encode_trace t xs)) = Some (map (\<lambda>(i, p, ts). (unat i, p, ts)) xs)"
proof (induction xs arbitrary: t n)
  case Nil
  then show ?case by (cases n) auto
next
  case (Cons x xs)
  obtain i p ts where x: "x = (i, p, ts)" by (cases x) auto
  from Cons.prems(2) obtain m where n: "n = Suc m" "length xs \<le> m" by (cases n) auto
  have ok: "payload_ok i p" using Cons.prems(1) x by simp
  have ne: "encode_packet i p (ts - t) \<noteq> []" using length_encode_packet(2) [OF ok] .
  have g: "get_packet (encode_packet i p (ts - t) @ encode_trace ts xs) = Some ((unat i, p, unat (ts - t)), encode_trace ts xs)"
    by (rule get_encode_packet [OF ok])
  have IH: "map_option (add_times ts) (get_packets m (encode_trace ts xs)) = Some (map (\<lambda>(i, p, ts). (unat i, p, ts)) xs)"
    using Cons.IH [OF _ n(2), of ts] Cons.prems(1) by simp
  then obtain ys where ys: "get_packets m (encode_trace ts xs) = Some ys" "add_times ts ys = map (\<lambda>(i, p, ts). (unat i, p, ts)) xs"
    by auto
  have "t + word_of_nat (unat (ts - t)) = ts" by simp
  then show ?case using x n ne g ys by simp
qed

lemma length_encode_trace: "\<forall>(i, p, ts)\<in>set xs. payload_ok i p \<Longrightarrow> length xs \<le> length (encode_trace t xs)"
proof (induction xs arbitrary: t)
  case (Cons x xs)
  obtain i p ts where x: "x = (i, p, ts)" by (cases x) auto
  have "encode_packet i p (ts - t) \<noteq> []" using length_encode_packet(2) [of i p] Cons.prems x by simp
  then have "1 \<le> length (encode_packet i p (ts - t))" by (simp add: Suc_le_eq)
  moreover have "length xs \<le> length (encode_trace ts xs)" using Cons.IH [of ts] Cons.prems by simp
  ultimately show ?case using x by simp
qed simp

text \<open>The host gets back exactly what was accepted, with the absolute time stamps.\<close>

lemma host_decode_trace:
  "\<forall>(i, p, ts)\<in>set xs. payload_ok i p \<Longrightarrow> host_decode t (encode_trace t xs) = Some (map (\<lambda>(i, p, ts). (unat i, p, ts)) xs)"
  unfolding host_decode_def by (rule get_encode_trace [OF _ length_encode_trace])

end
