(* ===== verification/SysViewTrace.thy ===== *)
theory SysViewTrace
  imports SysViewCodec "HOL-Library.Sublist"
begin

text \<open>
  What the host sees of the recorder of theory SysView: the abstract recorder, which keeps a list of
  accepted packets, the proof that the code implements it on the bytes of the RTT channel, and the
  invariant that every function of the recorder, and every command of the host, preserves.
\<close>

subsection \<open>The abstract recorder\<close>

text \<open>
  \<open>rlog\<close> are the accepted packets with their time stamps, \<open>rfill\<close> the number of bytes waiting in the
  channel, \<open>rclock\<close> the number of readings taken from the cycle counter.
\<close>

record recorder =
  rmode :: u8
  rdrops :: u32
  rlog :: "(u32 \<times> u8 list \<times> u32) list"
  rclock :: nat
  rfill :: nat

text \<open>\<open>T\<close> are the readings of the counter, \<open>t0\<close> the time stamp at initialisation, \<open>cap\<close> the channel's capacity.\<close>

definition rec_try :: "(nat \<Rightarrow> u32) \<Rightarrow> u32 \<Rightarrow> nat \<Rightarrow> u32 \<Rightarrow> u8 list \<Rightarrow> recorder \<Rightarrow> recorder \<times> bool" where
  "rec_try T t0 cap i p R =
     (let ts = T (rclock R); n = length (encode_packet i p (ts - last_stamp t0 (rlog R))); R1 = R\<lparr>rclock := Suc (rclock R)\<rparr> in
      if rfill R + n \<le> cap then (R1\<lparr>rlog := rlog R @ [(i, p, ts)], rfill := rfill R + n\<rparr>, True) else (R1, False))"

definition rec_event :: "(nat \<Rightarrow> u32) \<Rightarrow> u32 \<Rightarrow> nat \<Rightarrow> u32 \<Rightarrow> u32 \<Rightarrow> u8 list \<Rightarrow> recorder \<Rightarrow> recorder" where
  "rec_event T t0 cap disabled i p R =
     (if i < 32 \<and> disabled AND push_bit (unat i) 1 \<noteq> 0 then R
      else (case rec_try T t0 cap i p R of (R', ok) \<Rightarrow> if ok then R' else R'\<lparr>rmode := rmode R' + 1\<rparr>))"

text \<open>
  Off: nothing. On: the packet is accepted or recording becomes dropping. Dropping: first an overflow
  packet has to be accepted.
\<close>

definition rec_send :: "(nat \<Rightarrow> u32) \<Rightarrow> u32 \<Rightarrow> nat \<Rightarrow> u32 \<Rightarrow> u32 \<Rightarrow> u8 list \<Rightarrow> recorder \<Rightarrow> recorder" where
  "rec_send T t0 cap disabled i p R =
     (if rmode R = 0 then R
      else if rmode R = 1 then rec_event T t0 cap disabled i p R
      else (case rec_try T t0 cap SYSVIEW_EVTID_OVERFLOW (ENCODE_U32 (rdrops R)) R of (R', ok) \<Rightarrow>
        if ok then rec_event T t0 cap disabled i p (R'\<lparr>rmode := 1\<rparr>) else R'\<lparr>rdrops := rdrops R + 1\<rparr>))"

subsection \<open>Relating the two\<close>

definition up :: "sysview \<Rightarrow> rtt_buffer" where "up s = aUp (rtt s) ! unat (UpChannel s)"
definition down :: "sysview \<Rightarrow> rtt_buffer" where "down s = aDown (rtt s) ! unat (DownChannel s)"

definition sv_ok :: "sysview \<Rightarrow> bool" where
  "sv_ok s \<longleftrightarrow> hd (acID (rtt s)) = of_char (CHR ''S'') \<and>
     unat (UpChannel s) < length (aUp (rtt s)) \<and> ring_ok (up s) \<and>
     unat (DownChannel s) < length (aDown (rtt s)) \<and> ring_ok (down s) \<and>
     EnableState s \<in> {0, 1, 2} \<and> NumTasks s \<le> length (aTasks s)"

text \<open>\<open>got\<close> are the bytes the host has taken from the channel since initialisation.\<close>

definition traced :: "u32 \<Rightarrow> u8 list \<Rightarrow> (u32 \<times> u8 list \<times> u32) list \<Rightarrow> sysview \<Rightarrow> bool" where
  "traced t0 got xs s \<longleftrightarrow> sv_ok s \<and> (\<forall>(i, p, ts)\<in>set xs. payload_ok i p) \<and>
     got @ contents (up s) = encode_trace t0 xs \<and> LastTxTimeStamp s = last_stamp t0 xs"

definition refines :: "u32 \<Rightarrow> u8 list \<Rightarrow> recorder \<Rightarrow> sysview \<Rightarrow> bool" where
  "refines t0 got R s \<longleftrightarrow> traced t0 got (rlog R) s \<and> EnableState s = rmode R \<and> DropCount s = rdrops R \<and>
     reads s = rclock R \<and> length (contents (up s)) = rfill R"

text \<open>What sending a packet leaves alone.\<close>

definition frame :: "sysview \<Rightarrow> sysview \<Rightarrow> bool" where
  "frame s s' \<longleftrightarrow> capacity (up s') = capacity (up s) \<and> down s' = down s \<and> aDown (rtt s') = aDown (rtt s) \<and>
     UpChannel s' = UpChannel s \<and> DownChannel s' = DownChannel s \<and> RecursionCnt s' = RecursionCnt s \<and>
     SysFreq s' = SysFreq s \<and> CPUFreq s' = CPUFreq s \<and> RAMBaseAddress s' = RAMBaseAddress s \<and>
     DisabledEvents s' = DisabledEvents s \<and> pOSAPI s' = pOSAPI s \<and> pfSendSysDesc s' = pfSendSysDesc s \<and>
     modules s' = modules s \<and> NumModules s' = NumModules s \<and> aTasks s' = aTasks s \<and> NumTasks s' = NumTasks s \<and>
     timestamps s' = timestamps s \<and> high_water s' = high_water s \<and> tick_count s' = tick_count s \<and> interrupt_id s' = interrupt_id s"

lemma frame_refl [simp]: "frame s s"
  by (simp add: frame_def)

lemma frame_trans: "frame a b \<Longrightarrow> frame b c \<Longrightarrow> frame a c"
  by (simp add: frame_def)

text \<open>A write to the up channel, through the contract of a channel.\<close>

lemma up_write:
  assumes "sv_ok s" "length d < 2 ^ 32"
  shows "if length (contents (up s)) + length d \<le> capacity (up s)
    then \<exists>r. SEGGER_RTT_WriteSkipNoLock (unat (UpChannel s)) d (word_of_nat (length d)) (rtt s) =
        Some ((rtt s)\<lparr>aUp := (aUp (rtt s))[unat (UpChannel s) := r]\<rparr>, 1) \<and>
      ring_ok r \<and> contents r = contents (up s) @ d \<and> same_channel (up s) r
    else SEGGER_RTT_WriteSkipNoLock (unat (UpChannel s)) d (word_of_nat (length d)) (rtt s) = Some (rtt s, 0)"
proof -
  have u: "unat (word_of_nat (length d) :: u32) = length d" using assms(2) by (simp add: unat_of_nat take_bit_nat_eq_self)
  have ok: "unat (UpChannel s) < length (aUp (rtt s))" "ring_ok (up s)" using assms(1) by (simp_all add: sv_ok_def)
  from WriteSkip_spec [OF ok(2), of "word_of_nat (length d)" d] ok(1) show ?thesis
    unfolding u by (auto simp: SEGGER_RTT_WriteSkipNoLock_def on_up_def up_def split: if_splits)
qed

text \<open>Accepting a packet on the channel.\<close>

definition accept :: "rtt_buffer \<Rightarrow> u32 \<Rightarrow> sysview \<Rightarrow> sysview" where
  "accept r ts s = s\<lparr>rtt := (rtt s)\<lparr>aUp := (aUp (rtt s))[unat (UpChannel s) := r]\<rparr>, LastTxTimeStamp := ts\<rparr>"

lemma accept_traced:
  assumes "traced t0 got xs s" "payload_ok i p" "ring_ok r" "same_channel (up s) r"
    "contents r = contents (up s) @ encode_packet i p (ts - LastTxTimeStamp s)"
  shows "traced t0 got (xs @ [(i, p, ts)]) (accept r ts s) \<and> frame s (accept r ts s) \<and> up (accept r ts s) = r"
proof -
  have s: "sv_ok s" using assms(1) by (simp add: traced_def)
  then have u: "up (accept r ts s) = r" by (simp add: up_def accept_def sv_ok_def)
  have d: "down (accept r ts s) = down s" by (simp add: down_def accept_def)
  have ok: "sv_ok (accept r ts s)" using s assms(3) u d by (simp add: sv_ok_def) (simp add: accept_def)
  have "traced t0 got (xs @ [(i, p, ts)]) (accept r ts s)"
    using assms(1,2,5) ok u
    by (auto simp: traced_def encode_trace_append last_stamp_def split: if_splits) (simp_all add: accept_def)
  moreover have "frame s (accept r ts s)"
    using u d same_channel_capacity [OF assms(4)] by (simp add: frame_def) (simp add: accept_def)
  ultimately show ?thesis using u by simp
qed

lemma traced_stamp: "traced t0 got xs s \<Longrightarrow> last_stamp t0 xs = LastTxTimeStamp s"
  by (simp add: traced_def)

lemma traced_ok: "traced t0 got xs s \<Longrightarrow> sv_ok s"
  by (simp add: traced_def)

lemma sv_ok_mode: "sv_ok s \<Longrightarrow> EnableState s \<in> {0, 1, 2}"
  by (simp only: sv_ok_def)

lemma sv_ok_updates [simp]:
  "sv_ok (s\<lparr>reads := n\<rparr>) = sv_ok s" "sv_ok (s\<lparr>DropCount := d\<rparr>) = sv_ok s"
  by (simp_all add: sv_ok_def up_def down_def)

lemma traced_updates [simp]:
  "traced t0 got xs (s\<lparr>reads := n\<rparr>) = traced t0 got xs s" "traced t0 got xs (s\<lparr>DropCount := d\<rparr>) = traced t0 got xs s"
  by (simp_all add: traced_def) (simp_all add: up_def)

lemma traced_EnableState:
  "traced t0 got xs s \<Longrightarrow> e \<in> {0, 1, 2} \<Longrightarrow> traced t0 got xs (s\<lparr>EnableState := e\<rparr>)"
  by (simp add: traced_def sv_ok_def) (simp add: up_def down_def)

lemma up_updates [simp]:
  "up (s\<lparr>reads := n\<rparr>) = up s" "up (s\<lparr>DropCount := d\<rparr>) = up s" "up (s\<lparr>EnableState := e\<rparr>) = up s"
  by (simp_all add: up_def)

lemma frame_updates [simp]:
  "frame s (s'\<lparr>reads := n\<rparr>) = frame s s'" "frame s (s'\<lparr>DropCount := d\<rparr>) = frame s s'" "frame s (s'\<lparr>EnableState := e\<rparr>) = frame s s'"
  by (simp_all add: frame_def) (simp_all add: up_def down_def)

text \<open>One attempt to write a packet.\<close>

lemma try_packet:
  assumes R: "refines t0 got R s" and p: "payload_ok i p"
  defines "ts \<equiv> timestamps s (reads s)"
  defines "pkt \<equiv> encode_packet i p (ts - LastTxTimeStamp s)"
  shows "case rec_try (timestamps s) t0 (capacity (up s)) i p R of (R', ok) \<Rightarrow>
    if ok then \<exists>r. SEGGER_RTT_WriteSkipNoLock (unat (UpChannel s)) pkt (word_of_nat (length pkt)) (rtt s) =
        Some (rtt (accept r ts s), 1) \<and>
      refines t0 got R' (accept r ts (s\<lparr>reads := Suc (reads s)\<rparr>)) \<and> frame s (accept r ts (s\<lparr>reads := Suc (reads s)\<rparr>))
    else SEGGER_RTT_WriteSkipNoLock (unat (UpChannel s)) pkt (word_of_nat (length pkt)) (rtt s) = Some (rtt s, 0) \<and>
      refines t0 got R' (s\<lparr>reads := Suc (reads s)\<rparr>)"
proof -
  have t: "traced t0 got (rlog R) s" using R by (simp add: refines_def)
  have l: "length pkt < 2 ^ 32" using length_encode_packet(1) [OF p, of "ts - LastTxTimeStamp s"] by (simp add: pkt_def)
  have rf: "rclock R = reads s" "rfill R = length (contents (up s))" "last_stamp t0 (rlog R) = LastTxTimeStamp s"
    using R traced_stamp [OF t] by (simp_all add: refines_def)
  note w = up_write [OF traced_ok [OF t] l]
  have tr: "rec_try (timestamps s) t0 (capacity (up s)) i p R =
      (if length (contents (up s)) + length pkt \<le> capacity (up s)
       then (R\<lparr>rclock := Suc (rclock R), rlog := rlog R @ [(i, p, ts)], rfill := rfill R + length pkt\<rparr>, True)
       else (R\<lparr>rclock := Suc (rclock R)\<rparr>, False))"
    by (simp add: rec_try_def Let_def rf pkt_def ts_def)
  show ?thesis
  proof (cases "length (contents (up s)) + length pkt \<le> capacity (up s)")
    case True
    with w obtain r where r: "SEGGER_RTT_WriteSkipNoLock (unat (UpChannel s)) pkt (word_of_nat (length pkt)) (rtt s) =
        Some ((rtt s)\<lparr>aUp := (aUp (rtt s))[unat (UpChannel s) := r]\<rparr>, 1)"
      "ring_ok r" "contents r = contents (up s) @ pkt" "same_channel (up s) r" by auto
    define s1 where "s1 = s\<lparr>reads := Suc (reads s)\<rparr>"
    have s1: "traced t0 got (rlog R) s1" "same_channel (up s1) r" "contents r = contents (up s1) @ encode_packet i p (ts - LastTxTimeStamp s1)"
      using t r(3,4) by (simp_all add: s1_def pkt_def)
    note a = accept_traced [OF s1(1) p r(2) s1(2,3)]
    have "refines t0 got (R\<lparr>rclock := Suc (rclock R), rlog := rlog R @ [(i, p, ts)], rfill := rfill R + length pkt\<rparr>) (accept r ts s1)"
      using a R r(3) by (simp add: refines_def) (simp add: accept_def s1_def)
    moreover have "frame s (accept r ts s1)" using a frame_trans [of s s1] by (simp add: s1_def)
    moreover have "rtt (accept r ts s) = (rtt s)\<lparr>aUp := (aUp (rtt s))[unat (UpChannel s) := r]\<rparr>" by (simp add: accept_def)
    ultimately show ?thesis unfolding tr using True r(1) s1_def by (simp, intro exI [of _ r], simp)
  next
    case False
    have "refines t0 got (R\<lparr>rclock := Suc (rclock R)\<rparr>) (s\<lparr>reads := Suc (reads s)\<rparr>)" using R by (simp add: refines_def)
    then show ?thesis unfolding tr using False w by simp
  qed
qed

text \<open>The packet after the state has been checked.\<close>

lemma Send_refines:
  assumes R: "refines t0 got R s" "payload_ok i p" and e: "EnableState s = 1"
    and b: "7 \<le> front" "front + length p + 5 \<le> cap"
  shows "\<exists>s'. Send front cap p i s = Some s' \<and> frame s s' \<and>
    refines t0 got (rec_event (timestamps s) t0 (capacity (up s)) (DisabledEvents s) i p R) s'"
proof (cases "i < 32 \<and> DisabledEvents s AND push_bit (unat i) 1 \<noteq> 0")
  case True
  then show ?thesis using R by (simp add: Send_def rec_event_def)
next
  case en: False
  define ts where "ts = timestamps s (reads s)"
  define pkt where "pkt = encode_packet i p (ts - LastTxTimeStamp s)"
  have fits: "length (packet_header i (word_of_nat (length p))) \<le> front" "front + length p + length (ENCODE_U32 (ts - LastTxTimeStamp s)) \<le> cap"
    using b length_header [of i "word_of_nat (length p)"] length_ENCODE [of "ts - LastTxTimeStamp s"] by simp_all
  have S: "Send front cap p i s =
    (case SEGGER_RTT_WriteSkipNoLock (unat (UpChannel s)) pkt (word_of_nat (length pkt)) (rtt s) of None \<Rightarrow> None
     | Some (q, st) \<Rightarrow> Some (if st \<noteq> 0 then s\<lparr>reads := Suc (reads s), rtt := q, LastTxTimeStamp := ts\<rparr>
         else s\<lparr>reads := Suc (reads s), rtt := q, EnableState := 2\<rparr>))"
    using en fits e by (auto simp: Send_def GET_TIMESTAMP_def pkt_def encode_packet_def ts_def Let_def split: option.splits)
  note t = try_packet [OF R, folded ts_def, folded pkt_def]
  obtain R' ok where tr: "rec_try (timestamps s) t0 (capacity (up s)) i p R = (R', ok)" by fastforce
  show ?thesis
  proof (cases ok)
    case True
    with t tr obtain r where r: "SEGGER_RTT_WriteSkipNoLock (unat (UpChannel s)) pkt (word_of_nat (length pkt)) (rtt s) = Some (rtt (accept r ts s), 1)"
      "refines t0 got R' (accept r ts (s\<lparr>reads := Suc (reads s)\<rparr>))" "frame s (accept r ts (s\<lparr>reads := Suc (reads s)\<rparr>))" by auto
    have "s\<lparr>reads := Suc (reads s), rtt := rtt (accept r ts s), LastTxTimeStamp := ts\<rparr> = accept r ts (s\<lparr>reads := Suc (reads s)\<rparr>)"
      by (simp add: accept_def)
    then show ?thesis unfolding S using r True en tr by (auto simp: rec_event_def)
  next
    case False
    with t tr have r: "SEGGER_RTT_WriteSkipNoLock (unat (UpChannel s)) pkt (word_of_nat (length pkt)) (rtt s) = Some (rtt s, 0)"
      "refines t0 got R' (s\<lparr>reads := Suc (reads s)\<rparr>)" by auto
    have "rmode R' = 1" using r(2) e by (simp add: refines_def)
    then have "refines t0 got (R'\<lparr>rmode := rmode R' + 1\<rparr>) (s\<lparr>reads := Suc (reads s), EnableState := 2\<rparr>)"
      using r(2) by (simp add: refines_def traced_EnableState)
    moreover have "s\<lparr>reads := Suc (reads s), rtt := rtt s, EnableState := 2\<rparr> = s\<lparr>reads := Suc (reads s), EnableState := 2\<rparr>" by simp
    ultimately show ?thesis unfolding S using r(1) False en tr by (auto simp: rec_event_def)
  qed
qed

lemma overflow_payload: "payload_ok SYSVIEW_EVTID_OVERFLOW (ENCODE_U32 d)"
  using length_ENCODE [of d] get_ENCODE [of d "[]"] by (simp add: payload_ok_def evtid_defs event_fields_def)

lemma overflow_packet: "encode_packet SYSVIEW_EVTID_OVERFLOW p d = ucast SYSVIEW_EVTID_OVERFLOW # p @ ENCODE_U32 d"
  by (simp add: encode_packet_def packet_header_def evtid_defs)

text \<open>\<open>_SendPacket\<close> without the commands at its end implements the abstract recorder.\<close>

lemma SendPacket_body_refines:
  assumes R: "refines t0 got R s" "payload_ok i p" and b: "7 \<le> front" "front + length p + 5 \<le> cap"
  shows "\<exists>s'. SendPacket_body front cap p i s = Some s' \<and> frame s s' \<and>
    refines t0 got (rec_send (timestamps s) t0 (capacity (up s)) (DisabledEvents s) i p R) s'"
proof -
  have m: "rmode R = EnableState s" "rdrops R = DropCount s" using R(1) by (simp_all add: refines_def)
  have "traced t0 got (rlog R) s" using R(1) by (simp add: refines_def)
  from sv_ok_mode [OF traced_ok [OF this]]
  consider "EnableState s = 0" | "EnableState s = 1" | "EnableState s = 2" by auto
  then show ?thesis
  proof cases
    case 1
    then show ?thesis using R b m by (simp add: SendPacket_body_def rec_send_def)
  next
    case 2
    then show ?thesis using Send_refines [OF R 2 b] b m by (simp add: SendPacket_body_def rec_send_def)
  next
    case 3
    define ts where "ts = timestamps s (reads s)"
    define pkt where "pkt = encode_packet SYSVIEW_EVTID_OVERFLOW (ENCODE_U32 (DropCount s)) (ts - LastTxTimeStamp s)"
    have T: "TrySendOverflowPacket s =
      (case SEGGER_RTT_WriteSkipNoLock (unat (UpChannel s)) pkt (word_of_nat (length pkt)) (rtt s) of None \<Rightarrow> None
       | Some (q, st) \<Rightarrow> Some (if st \<noteq> 0 then s\<lparr>reads := Suc (reads s), rtt := q, LastTxTimeStamp := ts, EnableState := 1\<rparr>
           else s\<lparr>reads := Suc (reads s), rtt := q, DropCount := DropCount s + 1\<rparr>))"
      using 3 by (auto simp: TrySendOverflowPacket_def GET_TIMESTAMP_def pkt_def overflow_packet ts_def Let_def split: option.splits)
    note t = try_packet [OF R(1) overflow_payload, of "DropCount s", folded ts_def, folded pkt_def]
    obtain R' ok where tr: "rec_try (timestamps s) t0 (capacity (up s)) SYSVIEW_EVTID_OVERFLOW (ENCODE_U32 (DropCount s)) R = (R', ok)"
      by fastforce
    show ?thesis
    proof (cases ok)
      case True
      with t tr obtain r where r: "SEGGER_RTT_WriteSkipNoLock (unat (UpChannel s)) pkt (word_of_nat (length pkt)) (rtt s) = Some (rtt (accept r ts s), 1)"
        "refines t0 got R' (accept r ts (s\<lparr>reads := Suc (reads s)\<rparr>))" "frame s (accept r ts (s\<lparr>reads := Suc (reads s)\<rparr>))" by auto
      define s1 where "s1 = (accept r ts (s\<lparr>reads := Suc (reads s)\<rparr>))\<lparr>EnableState := 1\<rparr>"
      have T1: "TrySendOverflowPacket s = Some s1" unfolding T using r(1) by (simp add: accept_def s1_def)
      have R1: "refines t0 got (R'\<lparr>rmode := 1\<rparr>) s1" using r(2) by (simp add: refines_def traced_EnableState s1_def)
      have f1: "frame s s1" using r(3) by (simp add: s1_def)
      then have sm: "timestamps s1 = timestamps s" "capacity (up s1) = capacity (up s)" "DisabledEvents s1 = DisabledEvents s"
        by (simp_all add: frame_def)
      have "EnableState s1 = 1" by (simp add: s1_def)
      from Send_refines [OF R1 R(2) this b] frame_trans [OF f1] show ?thesis
        using 3 b m T1 tr True sm \<open>EnableState s1 = 1\<close> by (auto simp: SendPacket_body_def rec_send_def)
    next
      case False
      with t tr have r: "SEGGER_RTT_WriteSkipNoLock (unat (UpChannel s)) pkt (word_of_nat (length pkt)) (rtt s) = Some (rtt s, 0)"
        "refines t0 got R' (s\<lparr>reads := Suc (reads s)\<rparr>)" by auto
      have "TrySendOverflowPacket s = Some (s\<lparr>reads := Suc (reads s), DropCount := DropCount s + 1\<rparr>)"
        unfolding T using r(1) by simp
      moreover have "refines t0 got (R'\<lparr>rdrops := rdrops R + 1\<rparr>) (s\<lparr>reads := Suc (reads s), DropCount := DropCount s + 1\<rparr>)"
        using r(2) m by (simp add: refines_def)
      ultimately show ?thesis using 3 b m tr False by (simp add: SendPacket_body_def rec_send_def)
    qed
  qed
qed

lemma SendPacket_nested_refines:
  assumes "refines t0 got R s" "payload_ok i p"
  shows "\<exists>s'. SendPacket_nested p i s = Some s' \<and> frame s s' \<and>
    refines t0 got (rec_send (timestamps s) t0 (capacity (up s)) (DisabledEvents s) i p R) s'"
  unfolding SendPacket_nested_def
  by (rule SendPacket_body_refines [OF assms]) (use assms(2) in \<open>simp_all add: sv_sizes payload_ok_def\<close>)

subsection \<open>Runs\<close>

text \<open>The program records events while the host takes bytes out of the channel.\<close>

datatype trace_op = Ev u32 "u8 list" | HostReads nat

definition host_reads :: "nat \<Rightarrow> sysview \<Rightarrow> sysview" where
  "host_reads k s = s\<lparr>rtt := (rtt s)\<lparr>aUp := (aUp (rtt s))[unat (UpChannel s) := probe k (up s)]\<rparr>\<rparr>"

definition trace_step :: "trace_op \<Rightarrow> u8 list \<times> sysview \<Rightarrow> (u8 list \<times> sysview) option" where
  "trace_step x gs =
     (case gs of (got, s) \<Rightarrow>
       (case x of
          Ev i p \<Rightarrow> map_option (\<lambda>s'. (got, s')) (SendPacket_nested p i s)
        | HostReads k \<Rightarrow> Some (got @ take k (contents (up s)), host_reads k s)))"

primrec trace_run :: "trace_op list \<Rightarrow> u8 list \<times> sysview \<Rightarrow> (u8 list \<times> sysview) option" where
  "trace_run [] gs = Some gs"
| "trace_run (x # xs) gs = (case trace_step x gs of None \<Rightarrow> None | Some gs' \<Rightarrow> trace_run xs gs')"

definition op_ok :: "trace_op \<Rightarrow> bool" where
  "op_ok x = (case x of Ev i p \<Rightarrow> payload_ok i p \<and> i \<noteq> SYSVIEW_EVTID_OVERFLOW | HostReads k \<Rightarrow> True)"

text \<open>The same run of the abstract recorder.\<close>

definition rec_op :: "(nat \<Rightarrow> u32) \<Rightarrow> u32 \<Rightarrow> nat \<Rightarrow> u32 \<Rightarrow> trace_op \<Rightarrow> recorder \<Rightarrow> recorder" where
  "rec_op T t0 cap disabled x R =
     (case x of Ev i p \<Rightarrow> rec_send T t0 cap disabled i p R | HostReads k \<Rightarrow> R\<lparr>rfill := rfill R - k\<rparr>)"

lemma host_reads_refines:
  assumes R: "refines t0 got R s"
  shows "refines t0 (got @ take k (contents (up s))) (R\<lparr>rfill := rfill R - k\<rparr>) (host_reads k s) \<and> frame s (host_reads k s)"
proof -
  have t: "traced t0 got (rlog R) s" using R by (simp add: refines_def)
  then have ok: "sv_ok s" by (rule traced_ok)
  then have r: "ring_ok (up s)" by (simp add: sv_ok_def)
  note p = probe_spec [OF r, of k]
  have u: "up (host_reads k s) = probe k (up s)" using ok by (simp add: up_def host_reads_def sv_ok_def)
  have d: "down (host_reads k s) = down s" by (simp add: down_def host_reads_def)
  have ok': "sv_ok (host_reads k s)" using ok u d p by (simp add: sv_ok_def) (simp add: host_reads_def)
  have c: "take k (contents (up s)) @ contents (up (host_reads k s)) = contents (up s)" using u p by simp
  have "traced t0 (got @ take k (contents (up s))) (rlog R) (host_reads k s)"
    using t ok' c by (simp add: traced_def) (simp add: host_reads_def)
  moreover have "length (contents (up (host_reads k s))) = rfill R - k" using u p R by (simp add: refines_def)
  moreover have "frame s (host_reads k s)"
    using u d p same_channel_capacity by (simp add: frame_def) (simp add: host_reads_def)
  ultimately show ?thesis using R by (simp add: refines_def) (simp add: host_reads_def)
qed

lemma trace_step_refines:
  assumes "refines t0 got R s" "op_ok x"
  shows "\<exists>got' s'. trace_step x (got, s) = Some (got', s') \<and> frame s s' \<and>
    refines t0 got' (rec_op (timestamps s) t0 (capacity (up s)) (DisabledEvents s) x R) s'"
proof (cases x)
  case (Ev i p)
  then have "payload_ok i p" using assms(2) by (simp add: op_ok_def)
  from SendPacket_nested_refines [OF assms(1) this] show ?thesis using Ev by (auto simp: trace_step_def rec_op_def)
next
  case (HostReads k)
  then show ?thesis using host_reads_refines [OF assms(1), of k] by (simp add: trace_step_def rec_op_def)
qed

lemma trace_run_refines:
  "refines t0 got R s \<Longrightarrow> \<forall>x\<in>set xs. op_ok x \<Longrightarrow>
    \<exists>got' s'. trace_run xs (got, s) = Some (got', s') \<and> frame s s' \<and>
      refines t0 got' (fold (rec_op (timestamps s) t0 (capacity (up s)) (DisabledEvents s)) xs R) s'"
proof (induction xs arbitrary: got s R)
  case (Cons x xs)
  have x: "op_ok x" using Cons.prems(2) by simp
  from trace_step_refines [OF Cons.prems(1) x] obtain g1 s1 where 1: "trace_step x (got, s) = Some (g1, s1)" "frame s s1"
    "refines t0 g1 (rec_op (timestamps s) t0 (capacity (up s)) (DisabledEvents s) x R) s1" by blast
  have same: "timestamps s1 = timestamps s" "capacity (up s1) = capacity (up s)" "DisabledEvents s1 = DisabledEvents s"
    using 1(2) by (simp_all add: frame_def)
  have "\<forall>x\<in>set xs. op_ok x" using Cons.prems(2) by simp
  from Cons.IH [OF 1(3) this] obtain got' s' where "trace_run xs (g1, s1) = Some (got', s')" "frame s1 s'"
    "refines t0 got' (fold (rec_op (timestamps s) t0 (capacity (up s)) (DisabledEvents s)) xs
       (rec_op (timestamps s) t0 (capacity (up s)) (DisabledEvents s) x R)) s'"
    unfolding same by blast
  then have "trace_run (x # xs) (got, s) = Some (got', s')" "frame s s'"
    "refines t0 got' (fold (rec_op (timestamps s) t0 (capacity (up s)) (DisabledEvents s)) (x # xs) R) s'"
    using 1(1) frame_trans [OF 1(2)] by simp_all
  then show ?case by blast
qed simp

text \<open>What the host decodes is the log of the abstract recorder.\<close>

definition host_view :: "u32 \<times> u8 list \<times> u32 \<Rightarrow> nat \<times> u8 list \<times> u32" where
  "host_view x = (case x of (i, p, ts) \<Rightarrow> (unat i, p, ts))"

lemma traced_decodes: "traced t0 got xs s \<Longrightarrow> host_decode t0 (got @ contents (up s)) = Some (map host_view xs)"
  using host_decode_trace [of xs t0] by (simp add: traced_def host_view_def [abs_def])

subsection \<open>What is lost\<close>

primrec offered :: "trace_op list \<Rightarrow> (u32 \<times> u8 list) list" where
  "offered [] = []"
| "offered (x # xs) = (case x of Ev i p \<Rightarrow> (i, p) # offered xs | HostReads k \<Rightarrow> offered xs)"

definition kept :: "(u32 \<times> u8 list \<times> u32) list \<Rightarrow> (u32 \<times> u8 list) list" where
  "kept xs = map (\<lambda>(i, p, ts). (i, p)) (filter (\<lambda>(i, p, ts). i \<noteq> SYSVIEW_EVTID_OVERFLOW) xs)"

definition overflows :: "(u32 \<times> u8 list \<times> u32) list \<Rightarrow> nat" where
  "overflows xs = length (filter (\<lambda>(i, p, ts). i = SYSVIEW_EVTID_OVERFLOW) xs)"

lemma kept_append [simp]: "kept (xs @ ys) = kept xs @ kept ys" "kept [] = []"
  by (simp_all add: kept_def)

lemma overflows_append [simp]: "overflows (xs @ ys) = overflows xs + overflows ys" "overflows [] = 0"
  by (simp_all add: overflows_def)

lemma kept_single [simp]:
  "kept [(i, p, ts)] = (if i = SYSVIEW_EVTID_OVERFLOW then [] else [(i, p)])"
  "overflows [(i, p, ts)] = (if i = SYSVIEW_EVTID_OVERFLOW then 1 else 0)"
  by (simp_all add: kept_def overflows_def)

text \<open>
  One event in recording or dropping mode: the log grows by at most an overflow packet and the event,
  and what is not logged is either counted or begins a dropping phase.
\<close>

lemma rec_event_accounts:
  assumes "rmode R = 1" "i \<noteq> SYSVIEW_EVTID_OVERFLOW" "R' = rec_event T t0 cap 0 i p R"
  shows "rdrops R' = rdrops R \<and> (\<exists>ys. rlog R' = rlog R @ ys \<and> overflows ys = 0 \<and>
    (kept ys = [(i, p)] \<and> rmode R' = 1 \<or> kept ys = [] \<and> rmode R' = 2))"
  using assms by (auto simp: rec_event_def rec_try_def Let_def)

definition accounted :: "recorder \<Rightarrow> (u32 \<times> u8 list) list \<Rightarrow> recorder \<Rightarrow> bool" where
  "accounted R es R' \<longleftrightarrow> rmode R' \<in> {1, 2} \<and> (\<exists>ys c. rlog R' = rlog R @ ys \<and> subseq (kept ys) es \<and>
     rdrops R' = rdrops R + word_of_nat c \<and>
     length es + of_bool (rmode R = 2) = length (kept ys) + overflows ys + c + of_bool (rmode R' = 2))"

lemma accountedI:
  assumes "rmode R' \<in> {1, 2}" "rlog R' = rlog R @ ys" "subseq (kept ys) es" "rdrops R' = rdrops R + word_of_nat c"
    "length es + of_bool (rmode R = 2) = length (kept ys) + overflows ys + c + of_bool (rmode R' = 2)"
  shows "accounted R es R'"
  unfolding accounted_def using assms by blast

lemma rec_send_accounts:
  assumes m: "rmode R \<in> {1, 2}" and i: "i \<noteq> SYSVIEW_EVTID_OVERFLOW" and R': "R' = rec_send T t0 cap 0 i p R"
  shows "accounted R [(i, p)] R'"
proof (cases "rmode R = 1")
  case True
  then have "R' = rec_event T t0 cap 0 i p R" using R' by (simp add: rec_send_def)
  from rec_event_accounts [OF True i this] obtain ys where ys: "rdrops R' = rdrops R" "rlog R' = rlog R @ ys" "overflows ys = 0"
    "kept ys = [(i, p)] \<and> rmode R' = 1 \<or> kept ys = [] \<and> rmode R' = 2" by blast
  show ?thesis by (rule accountedI [of _ _ ys _ 0]) (use ys True in auto)
next
  case False
  then have 2: "rmode R = 2" using m by simp
  define D where "D = ENCODE_U32 (rdrops R)"
  obtain R1 ok where t: "rec_try T t0 cap SYSVIEW_EVTID_OVERFLOW D R = (R1, ok)" by fastforce
  define o1 where "o1 = [(SYSVIEW_EVTID_OVERFLOW, D, T (rclock R))]"
  have o1: "kept o1 = []" "overflows o1 = 1" by (simp_all add: o1_def)
  have R1: "rmode R1 = 2" "rdrops R1 = rdrops R" "rlog R1 = (if ok then rlog R @ o1 else rlog R)"
    using t 2 by (auto simp: rec_try_def Let_def o1_def split: if_splits)
  show ?thesis
  proof (cases ok)
    case True
    define Q where "Q = R1\<lparr>rmode := 1\<rparr>"
    have Q: "rmode Q = 1" "rdrops Q = rdrops R" "rlog Q = rlog R @ o1" using R1 True by (simp_all add: Q_def)
    have "R' = rec_event T t0 cap 0 i p Q" using R' 2 t True by (simp add: rec_send_def D_def Q_def)
    from rec_event_accounts [OF Q(1) i this] obtain ys where ys: "rdrops R' = rdrops Q" "rlog R' = rlog Q @ ys" "overflows ys = 0"
      "kept ys = [(i, p)] \<and> rmode R' = 1 \<or> kept ys = [] \<and> rmode R' = 2" by blast
    show ?thesis by (rule accountedI [of _ _ "o1 @ ys" _ 0]) (use ys Q 2 o1 in auto)
  next
    case False
    then have "R' = R1\<lparr>rdrops := rdrops R + 1\<rparr>" using R' 2 t by (simp add: rec_send_def D_def)
    then have "rmode R' = 2" "rlog R' = rlog R" "rdrops R' = rdrops R + 1" using R1 False by simp_all
    then show ?thesis by (intro accountedI [of _ _ "[]" _ 1]) (use 2 in simp_all)
  qed
qed

lemma accounted_trans:
  assumes "accounted R es R'" "accounted R' fs R''"
  shows "accounted R (es @ fs) R''"
proof -
  from assms(1) obtain ys c where y: "rlog R' = rlog R @ ys" "subseq (kept ys) es" "rdrops R' = rdrops R + word_of_nat c"
    "length es + of_bool (rmode R = 2) = length (kept ys) + overflows ys + c + of_bool (rmode R' = 2)"
    unfolding accounted_def by blast
  from assms(2) obtain zs d where z: "rmode R'' \<in> {1, 2}" "rlog R'' = rlog R' @ zs" "subseq (kept zs) fs"
    "rdrops R'' = rdrops R' + word_of_nat d"
    "length fs + of_bool (rmode R' = 2) = length (kept zs) + overflows zs + d + of_bool (rmode R'' = 2)"
    unfolding accounted_def by blast
  show ?thesis
    by (rule accountedI [of _ _ "ys @ zs" _ "c + d"])
      (use y z list_emb_append_mono [OF y(2) z(3)] in \<open>simp_all add: add.assoc\<close>)
qed

lemma rec_run_accounts:
  "rmode R \<in> {1, 2} \<Longrightarrow> \<forall>x\<in>set xs. op_ok x \<Longrightarrow> accounted R (offered xs) (fold (rec_op T t0 cap 0) xs R)"
proof (induction xs arbitrary: R)
  case Nil
  then show ?case by (intro accountedI [of _ _ "[]" _ 0]) simp_all
next
  case (Cons x xs)
  show ?case
  proof (cases x)
    case (Ev i p)
    then have i: "i \<noteq> SYSVIEW_EVTID_OVERFLOW" using Cons.prems(2) by (simp add: op_ok_def)
    have 1: "accounted R [(i, p)] (rec_op T t0 cap 0 x R)"
      using rec_send_accounts [OF Cons.prems(1) i refl] Ev by (simp add: rec_op_def)
    then have "rmode (rec_op T t0 cap 0 x R) \<in> {1, 2}" unfolding accounted_def by blast
    from accounted_trans [OF 1 Cons.IH [OF this]] Cons.prems(2) show ?thesis using Ev by simp
  next
    case (HostReads k)
    then have 1: "rec_op T t0 cap 0 x R = R\<lparr>rfill := rfill R - k\<rparr>" by (simp add: rec_op_def)
    have "accounted (R\<lparr>rfill := rfill R - k\<rparr>) (offered xs) (fold (rec_op T t0 cap 0) xs (R\<lparr>rfill := rfill R - k\<rparr>))"
      using Cons.IH [of "R\<lparr>rfill := rfill R - k\<rparr>"] Cons.prems by simp
    then show ?thesis using HostReads 1 by (simp add: accounted_def)
  qed
qed

subsection \<open>After the configuration\<close>

lemma boot_INIT:
  "hd (acID (DoInit p)) = of_char (CHR ''S'')" "INIT rtt_boot = DoInit rtt_boot" "first_free 0 (aUp (DoInit p)) = 1"
  "MaxNumUpBuffers (DoInit p) = 3" "length (aUp (DoInit p)) = 3" "length (aDown (DoInit p)) = 3"
  by (simp_all add: INIT_def rtt_boot_def DoInit_def bytes_of_def unused_channel_def numeral_3_eq_3
      SEGGER_RTT_MAX_NUM_UP_BUFFERS_def SEGGER_RTT_MAX_NUM_DOWN_BUFFERS_def)

lemma boot_alloc:
  "SEGGER_RTT_AllocUpBuffer n b f rtt_boot = ((DoInit rtt_boot)\<lparr>aUp := (aUp (DoInit rtt_boot))[1 := new_channel n b f]\<rparr>, 1)"
  by (simp add: SEGGER_RTT_AllocUpBuffer_def boot_INIT Let_def)

lemma boot_config_down:
  "hd (acID p) = of_char (CHR ''S'') \<Longrightarrow> SEGGER_RTT_ConfigDownBuffer (Suc 0) n b f p = (p\<lparr>aDown := (aDown p)[Suc 0 := new_channel n b f]\<rparr>, 0)"
  by (simp add: SEGGER_RTT_ConfigDownBuffer_def INIT_def SEGGER_RTT_MAX_NUM_DOWN_BUFFERS_def)

lemma conf_rtt:
  "rtt (SEGGER_SYSVIEW_Conf rp (sv_boot ts hw tc ii)) =
    (DoInit rtt_boot)\<lparr>aUp := (aUp (DoInit rtt_boot))[1 := new_channel ''SysView'' (replicate 1024 0) MODE_NO_BLOCK_SKIP],
       aDown := (aDown (DoInit rtt_boot))[1 := new_channel ''SysView'' (replicate 8 0) MODE_NO_BLOCK_SKIP]\<rparr>"
  "UpChannel (SEGGER_SYSVIEW_Conf rp (sv_boot ts hw tc ii)) = 1" "DownChannel (SEGGER_SYSVIEW_Conf rp (sv_boot ts hw tc ii)) = 1"
  by (simp_all add: SEGGER_SYSVIEW_Conf_def SEGGER_SYSVIEW_Init_def SEGGER_SYSVIEW_SetRAMBase_def sv_boot_def GET_TIMESTAMP_def
      boot_alloc boot_config_down boot_INIT SEGGER_SYSVIEW_RTT_BUFFER_SIZE_def)

lemma conf_fields:
  fixes ts hw tc ii rp
  defines "s \<equiv> SEGGER_SYSVIEW_Conf rp (sv_boot ts hw tc ii)"
  shows "EnableState s = 0" "LastTxTimeStamp s = ts 0" "DropCount s = 0" "DisabledEvents s = 0" "reads s = 1" "timestamps s = ts"
    "NumTasks s = 0" "length (aTasks s) = 8" "modules s = []" "RecursionCnt s = 0"
  by (simp_all add: s_def SEGGER_SYSVIEW_Conf_def SEGGER_SYSVIEW_Init_def SEGGER_SYSVIEW_SetRAMBase_def sv_boot_def GET_TIMESTAMP_def
      SYSVIEW_FREERTOS_MAX_NOF_TASKS_def Let_def split: prod.splits)

lemma conf_channels:
  fixes ts hw tc ii rp
  defines "s \<equiv> SEGGER_SYSVIEW_Conf rp (sv_boot ts hw tc ii)"
  shows "up s = new_channel ''SysView'' (replicate 1024 0) MODE_NO_BLOCK_SKIP"
    "down s = new_channel ''SysView'' (replicate 8 0) MODE_NO_BLOCK_SKIP"
    "length (aUp (rtt s)) = 3" "length (aDown (rtt s)) = 3" "hd (acID (rtt s)) = of_char (CHR ''S'')"
  by (simp_all add: s_def up_def down_def conf_rtt DoInit_def SEGGER_RTT_MAX_NUM_UP_BUFFERS_def
      SEGGER_RTT_MAX_NUM_DOWN_BUFFERS_def bytes_of_def)

lemma new_channel_ok:
  "0 < length b \<Longrightarrow> length b < 2 ^ 32 \<Longrightarrow> ring_ok (new_channel n b f) \<and> contents (new_channel n b f) = [] \<and>
    capacity (new_channel n b f) = length b - 1"
  by (simp add: new_channel_def ring_ok_def contents_def capacity_def unat_of_nat take_bit_nat_eq_self word_less_nat_alt)

lemma conf_refines:
  fixes ts hw tc ii rp
  defines "s \<equiv> SEGGER_SYSVIEW_Conf rp (sv_boot ts hw tc ii)"
  shows "refines (ts 0) [] \<lparr>rmode = 0, rdrops = 0, rlog = [], rclock = 1, rfill = 0\<rparr> s" "capacity (up s) = 1023"
proof -
  have u: "ring_ok (up s)" "contents (up s) = []" "capacity (up s) = 1023"
    unfolding s_def conf_channels using new_channel_ok [of "replicate 1024 0" "''SysView''" MODE_NO_BLOCK_SKIP] by simp_all
  have d: "ring_ok (down s)"
    unfolding s_def conf_channels using new_channel_ok [of "replicate 8 0" "''SysView''" MODE_NO_BLOCK_SKIP] by simp
  have "sv_ok s" using u(1) d unfolding sv_ok_def s_def conf_rtt(2,3) conf_channels(3,4,5) conf_fields by simp
  then have "traced (ts 0) [] [] s" using u(2) by (simp add: traced_def last_stamp_def s_def conf_fields)
  then show "refines (ts 0) [] \<lparr>rmode = 0, rdrops = 0, rlog = [], rclock = 1, rfill = 0\<rparr> s" "capacity (up s) = 1023"
    using u by (simp_all add: refines_def s_def conf_fields)
qed

lemma refines_enable:
  "refines t0 got R s \<Longrightarrow> e \<in> {0, 1, 2} \<Longrightarrow> refines t0 got (R\<lparr>rmode := e\<rparr>) (s\<lparr>EnableState := e\<rparr>)"
  unfolding refines_def using traced_EnableState by simp

subsection \<open>Properties\<close>

text \<open>C2. The recorder implements an abstract one that keeps a list of accepted packets: for every sequence of
  packets sent and of bytes taken by the host, nothing faults, and what the host decodes from the bytes it
  has taken and those still in the channel is exactly the list of accepted packets, with identifiers,
  payloads and absolute time stamps.\<close>
theorem SYSVIEW_recorder_refines:
  assumes "refines t0 got R s" "\<forall>x\<in>set xs. op_ok x"
  shows "\<exists>got' s' R'. trace_run xs (got, s) = Some (got', s') \<and>
    R' = fold (rec_op (timestamps s) t0 (capacity (up s)) (DisabledEvents s)) xs R \<and> refines t0 got' R' s' \<and>
    host_decode t0 (got' @ contents (up s')) = Some (map host_view (rlog R'))"
proof -
  obtain got' s' where r: "trace_run xs (got, s) = Some (got', s')"
    "refines t0 got' (fold (rec_op (timestamps s) t0 (capacity (up s)) (DisabledEvents s)) xs R) s'"
    using trace_run_refines [OF assms] by blast
  have "traced t0 got' (rlog (fold (rec_op (timestamps s) t0 (capacity (up s)) (DisabledEvents s)) xs R)) s'"
    using r(2) by (simp add: refines_def)
  from traced_decodes [OF this] r show ?thesis by blast
qed

theorem SYSVIEW_recorder_refines_witness:
  "let s = (SEGGER_SYSVIEW_Conf True (sv_boot (\<lambda>k. 100 * word_of_nat k) (\<lambda>_. 0) 0 0))\<lparr>EnableState := 1\<rparr>;
       xs = [Ev SYSVIEW_EVTID_ISR_ENTER (ENCODE_U32 300), HostReads 2, Ev SYSVIEW_EVTID_ISR_EXIT []] in
   \<exists>got' s'. trace_run xs ([], s) = Some (got', s') \<and>
     host_decode 0 (got' @ contents (up s')) = Some [(2, ENCODE_U32 300, 100), (3, [], 200)]"
proof -
  define s where "s = (SEGGER_SYSVIEW_Conf True (sv_boot (\<lambda>k. 100 * word_of_nat k) (\<lambda>_. 0) 0 0))\<lparr>EnableState := 1\<rparr>"
  define xs where "xs = [Ev SYSVIEW_EVTID_ISR_ENTER (ENCODE_U32 300), HostReads 2, Ev SYSVIEW_EVTID_ISR_EXIT []]"
  define R where "R = \<lparr>rmode = 1 :: u8, rdrops = 0, rlog = [], rclock = 1, rfill = 0\<rparr>"
  have R: "refines 0 [] R s"
    using refines_enable [OF conf_refines(1), of 1 "\<lambda>k. 100 * word_of_nat k"] by (simp add: R_def s_def)
  have c: "capacity (up s) = 1023" "timestamps s = (\<lambda>k. 100 * word_of_nat k)" "DisabledEvents s = 0"
    using conf_refines(2) by (simp_all add: s_def conf_fields)
  have ok: "\<forall>x\<in>set xs. op_ok x"
    using length_ENCODE [of 300] get_ENCODE [of 300 "[]"] by (simp add: xs_def op_ok_def payload_ok_def evtid_defs event_fields_def)
  have e: "rlog (fold (rec_op (\<lambda>k. 100 * word_of_nat k) 0 1023 0) xs R) =
      [(SYSVIEW_EVTID_ISR_ENTER, ENCODE_U32 300, 100), (SYSVIEW_EVTID_ISR_EXIT, [], 200)]"
    unfolding xs_def R_def by code_simp
  have "\<exists>got' s'. trace_run xs ([], s) = Some (got', s') \<and>
     host_decode 0 (got' @ contents (up s')) = Some [(2, ENCODE_U32 300, 100), (3, [], 200)]"
    using SYSVIEW_recorder_refines [OF R ok] unfolding c by (auto simp: e host_view_def evtid_defs)
  then show ?thesis by (simp only: Let_def flip: s_def xs_def)
qed

text \<open>C15. Every event offered to a started recorder is accounted for: the packets the host decodes are the
  events that were kept, in order, and overflow packets; and the number of events lost is what
  \<open>DropCount\<close> has gained plus one for each overflow packet and for a phase of dropping that is still on,
  because the event that begins a phase is not counted. The count in an overflow packet is therefore too
  low by at least one.\<close>
theorem SYSVIEW_drops_accounted:
  assumes t: "traced t0 got xs s" and e: "EnableState s = 1" "DisabledEvents s = 0"
    and ok: "\<forall>x\<in>set ops. op_ok x" "length ops < 2 ^ 32"
  shows "\<exists>got' s' ys. trace_run ops (got, s) = Some (got', s') \<and>
    host_decode t0 (got' @ contents (up s')) = Some (map host_view (xs @ ys)) \<and> subseq (kept ys) (offered ops) \<and>
    length (offered ops) = length (kept ys) + unat (DropCount s' - DropCount s) + overflows ys + of_bool (EnableState s' = 2)"
proof -
  define R where "R = \<lparr>rmode = 1, rdrops = DropCount s, rlog = xs, rclock = reads s, rfill = length (contents (up s))\<rparr>"
  have R: "refines t0 got R s" using t e by (simp add: refines_def R_def)
  obtain got' s' where r: "trace_run ops (got, s) = Some (got', s')"
    "refines t0 got' (fold (rec_op (timestamps s) t0 (capacity (up s)) 0) ops R) s'"
    using trace_run_refines [OF R ok(1)] e by auto
  define R' where "R' = fold (rec_op (timestamps s) t0 (capacity (up s)) 0) ops R"
  have a: "accounted R (offered ops) R'" unfolding R'_def by (rule rec_run_accounts [OF _ ok(1)]) (simp add: R_def)
  then obtain ys c where y: "rlog R' = xs @ ys" "subseq (kept ys) (offered ops)" "rdrops R' = DropCount s + word_of_nat c"
    "length (offered ops) = length (kept ys) + overflows ys + c + of_bool (rmode R' = 2)"
    by (auto simp: accounted_def R_def)
  have s': "traced t0 got' (xs @ ys) s'" "EnableState s' = rmode R'" "DropCount s' - DropCount s = word_of_nat c"
    using r(2) y(1,3) unfolding R'_def [symmetric] by (simp_all add: refines_def)
  have "length (offered ops) \<le> length ops" by (induction ops) (auto split: trace_op.splits)
  then have "c < 2 ^ 32" using y(4) ok(2) by simp
  then have "unat (DropCount s' - DropCount s) = c" unfolding s'(3) by (simp add: unat_of_nat take_bit_nat_eq_self)
  then show ?thesis using r(1) traced_decodes [OF s'(1)] y(2,4) s'(2)
    by (intro exI [of _ got'] exI [of _ s'] exI [of _ ys]) simp
qed

theorem SYSVIEW_drops_accounted_witness:
  "let s = (SEGGER_SYSVIEW_Conf False (sv_boot (\<lambda>k. word_of_nat k) (\<lambda>_. 0) 0 0))\<lparr>EnableState := 1\<rparr>;
       ops = replicate 400 (Ev SYSVIEW_EVTID_ISR_EXIT []) @ [HostReads 7, Ev SYSVIEW_EVTID_ISR_EXIT []] in
   \<exists>got' s' ys. trace_run ops ([], s) = Some (got', s') \<and>
     host_decode 0 (got' @ contents (up s')) = Some (map host_view ys) \<and>
     401 = length (kept ys) + unat (DropCount s') + overflows ys + of_bool (EnableState s' = 2)"
proof -
  define s where "s = (SEGGER_SYSVIEW_Conf False (sv_boot (\<lambda>k. word_of_nat k) (\<lambda>_. 0) 0 0))\<lparr>EnableState := 1\<rparr>"
  define ops where "ops = replicate 400 (Ev SYSVIEW_EVTID_ISR_EXIT []) @ [HostReads 7, Ev SYSVIEW_EVTID_ISR_EXIT []]"
  have "traced 0 [] [] (SEGGER_SYSVIEW_Conf False (sv_boot (\<lambda>k. word_of_nat k) (\<lambda>_. 0) 0 0))"
    using conf_refines(1) [of "\<lambda>k. word_of_nat k"] by (simp add: refines_def)
  then have t: "traced 0 [] [] s" unfolding s_def by (rule traced_EnableState) simp
  have f: "EnableState s = 1" "DisabledEvents s = 0" "DropCount s = 0" by (simp_all add: s_def conf_fields)
  have ok: "\<forall>x\<in>set ops. op_ok x" by (simp add: ops_def op_ok_def payload_ok_def evtid_defs event_fields_def)
  have "offered (replicate n (Ev i p) @ xs) = replicate n (i, p) @ offered xs" for n i p xs by (induction n) simp_all
  then have l: "length (offered ops) = 401" "length ops < 2 ^ 32" by (simp_all add: ops_def)
  have "\<exists>got' s' ys. trace_run ops ([], s) = Some (got', s') \<and>
     host_decode 0 (got' @ contents (up s')) = Some (map host_view ys) \<and>
     401 = length (kept ys) + unat (DropCount s') + overflows ys + of_bool (EnableState s' = 2)"
    using SYSVIEW_drops_accounted [OF t f(1,2) ok l(2)] unfolding l(1) f(3) by (metis append_Nil diff_zero)
  then show ?thesis by (simp only: Let_def flip: s_def ops_def)
qed

end
