(* ===== verification/SysViewLive.thy ===== *)
theory SysViewLive
  imports SysViewTrace
begin

text \<open>
  The functions of the recorder as clients of the function that sends a packet. The locale
  \<open>packet_sender\<close> states what they need of it; its lemmas show that none of them faults and that the
  trace stays decodable. It is interpreted on \<open>SendPacket_nested\<close>, and then, because the commands of
  the host are handled by these functions, on \<open>SendPacket\<close>.
\<close>

subsection \<open>The invariant\<close>

definition live :: "u32 \<Rightarrow> u8 list \<Rightarrow> sysview \<Rightarrow> bool" where
  "live t0 got s \<longleftrightarrow> (\<exists>xs. traced t0 got xs s) \<and> length (aTasks s) = SYSVIEW_FREERTOS_MAX_NOF_TASKS"

text \<open>An entry of the task list without its high water mark, which a host command may refresh.\<close>

definition task_ident :: "task_status \<Rightarrow> u32 \<times> u8 list option \<times> u32 \<times> u32" where
  "task_ident t = (xHandle t, pcTaskName t, uxCurrentPriority t, pxStack t)"

definition stable :: "sysview \<Rightarrow> sysview \<Rightarrow> bool" where
  "stable s s' \<longleftrightarrow> modules s' = modules s \<and> NumTasks s' = NumTasks s \<and> map task_ident (aTasks s') = map task_ident (aTasks s)"

text \<open>The operation \<open>m\<close>, run in \<open>s\<close>, does not fault and keeps the invariant.\<close>

definition keeps :: "u32 \<Rightarrow> u8 list \<Rightarrow> sysview \<Rightarrow> sysview option \<Rightarrow> bool" where
  "keeps t0 got s m \<longleftrightarrow> (\<exists>s'. m = Some s' \<and> live t0 got s' \<and> stable s s')"

lemma stable_refl [simp]: "stable s s"
  by (simp add: stable_def)

lemma stable_trans: "stable a b \<Longrightarrow> stable b c \<Longrightarrow> stable a c"
  by (simp add: stable_def)

lemma frame_stable: "frame s s' \<Longrightarrow> stable s s'"
  by (simp add: frame_def stable_def)

lemma keeps_Some: "live t0 got s' \<Longrightarrow> stable s s' \<Longrightarrow> keeps t0 got s (Some s')"
  by (simp add: keeps_def)

lemma keeps_here [simp]: "keeps t0 got s (Some s) = live t0 got s"
  by (simp add: keeps_def)

lemma keeps_bind:
  "keeps t0 got s m \<Longrightarrow> (\<And>s'. live t0 got s' \<Longrightarrow> stable s s' \<Longrightarrow> keeps t0 got s' (f s')) \<Longrightarrow> keeps t0 got s (Option.bind m f)"
  unfolding keeps_def using stable_trans by fastforce

lemma keeps_from: "keeps t0 got s1 m \<Longrightarrow> stable s s1 \<Longrightarrow> keeps t0 got s m"
  unfolding keeps_def using stable_trans by blast

lemma live_traced: "live t0 got s \<Longrightarrow> \<exists>xs. traced t0 got xs s"
  by (simp add: live_def)

lemma live_ok: "live t0 got s \<Longrightarrow> sv_ok s"
  using live_traced traced_ok by blast

lemma liveI: "traced t0 got xs s \<Longrightarrow> length (aTasks s) = SYSVIEW_FREERTOS_MAX_NOF_TASKS \<Longrightarrow> live t0 got s"
  unfolding live_def by blast

subsection \<open>Updates that the trace does not see\<close>

lemma traced_unseen:
  "traced t0 got xs (s\<lparr>RecursionCnt := r\<rparr>) = traced t0 got xs s" "traced t0 got xs (s\<lparr>DisabledEvents := d\<rparr>) = traced t0 got xs s"
  "traced t0 got xs (s\<lparr>modules := ms\<rparr>) = traced t0 got xs s" "traced t0 got xs (s\<lparr>NumModules := n\<rparr>) = traced t0 got xs s"
  by (simp_all add: traced_def sv_ok_def) (simp_all add: up_def down_def)

lemma live_unseen [simp]:
  "live t0 got (s\<lparr>RecursionCnt := r\<rparr>) = live t0 got s" "live t0 got (s\<lparr>DisabledEvents := d\<rparr>) = live t0 got s"
  "live t0 got (s\<lparr>modules := ms\<rparr>) = live t0 got s" "live t0 got (s\<lparr>NumModules := n\<rparr>) = live t0 got s"
  "live t0 got (s\<lparr>reads := k\<rparr>) = live t0 got s"
  by (simp_all add: live_def traced_unseen)

lemma stable_unseen [simp]:
  "stable s (s'\<lparr>RecursionCnt := r\<rparr>) = stable s s'" "stable s (s'\<lparr>reads := k\<rparr>) = stable s s'"
  "stable s (s'\<lparr>EnableState := e\<rparr>) = stable s s'" "stable s (s'\<lparr>rtt := p\<rparr>) = stable s s'"
  by (simp_all add: stable_def)

lemma live_EnableState: "live t0 got s \<Longrightarrow> e \<in> {0, 1, 2} \<Longrightarrow> live t0 got (s\<lparr>EnableState := e\<rparr>)"
  by (auto simp: live_def intro: traced_EnableState)

lemma traced_aTasks:
  "traced t0 got xs s \<Longrightarrow> length ts = length (aTasks s) \<Longrightarrow> n \<le> length ts \<Longrightarrow> traced t0 got xs (s\<lparr>aTasks := ts, NumTasks := n\<rparr>)"
  by (simp add: traced_def sv_ok_def) (simp add: up_def down_def)

lemma live_aTasks:
  "live t0 got s \<Longrightarrow> length ts = length (aTasks s) \<Longrightarrow> n \<le> length ts \<Longrightarrow> live t0 got (s\<lparr>aTasks := ts, NumTasks := n\<rparr>)"
  unfolding live_def using traced_aTasks by fastforce

lemma live_aTasks_only: "live t0 got s \<Longrightarrow> length ts = length (aTasks s) \<Longrightarrow> live t0 got (s\<lparr>aTasks := ts\<rparr>)"
  using live_aTasks [of t0 got s ts "NumTasks s"] live_ok [of t0 got s] by (simp add: sv_ok_def)

text \<open>The five zero packets of the synchronisation are decoded as empty packets without delay.\<close>

lemma sync_trace: "encode_trace t (replicate n (0, [], t)) = replicate (2 * n) 0"
  by (induction n) (simp_all add: encode_packet_def packet_header_def ENCODE_U32.simps)

lemma live_sync:
  assumes "live t0 got s"
  shows "\<exists>p st. SEGGER_RTT_WriteSkipNoLock (unat (UpChannel s)) abSync 10 (rtt s) = Some (p, st) \<and> live t0 got (s\<lparr>rtt := p\<rparr>)"
proof -
  from assms obtain xs where t: "traced t0 got xs s" by (auto simp: live_def)
  have ok: "sv_ok s" using assms by (rule live_ok)
  have w: "(word_of_nat (length abSync) :: u32) = 10" "length abSync < 2 ^ 32" by (simp_all add: abSync_def)
  note u = up_write [OF ok w(2), unfolded w(1)]
  show ?thesis
  proof (cases "length (contents (up s)) + length abSync \<le> capacity (up s)")
    case True
    with u obtain r where r: "SEGGER_RTT_WriteSkipNoLock (unat (UpChannel s)) abSync 10 (rtt s) =
        Some ((rtt s)\<lparr>aUp := (aUp (rtt s))[unat (UpChannel s) := r]\<rparr>, 1)"
      "ring_ok r" "contents r = contents (up s) @ abSync" by auto
    define s' where "s' = s\<lparr>rtt := (rtt s)\<lparr>aUp := (aUp (rtt s))[unat (UpChannel s) := r]\<rparr>\<rparr>"
    have up': "up s' = r" "down s' = down s" using ok by (simp_all add: s'_def up_def down_def sv_ok_def)
    have ok': "sv_ok s'" using ok up' r(2) by (simp add: sv_ok_def) (simp add: s'_def)
    define t where "t = LastTxTimeStamp s"
    have ls: "last_stamp t0 xs = t" using t traced_stamp by (simp add: t_def)
    have "encode_trace t0 (xs @ replicate 5 (0, [], t)) = encode_trace t0 xs @ abSync"
      unfolding encode_trace_append ls sync_trace by (simp add: abSync_def)
    moreover have "last_stamp t0 (xs @ replicate 5 (0, [], t)) = t" by (simp add: last_stamp_def)
    moreover have "payload_ok 0 []" by (simp add: payload_ok_def event_fields_def)
    moreover have "LastTxTimeStamp s' = t" by (simp add: s'_def t_def)
    moreover have "\<forall>(i, p, ts)\<in>set xs. payload_ok i p" "got @ contents (up s) = encode_trace t0 xs"
      using t unfolding traced_def by blast+
    ultimately have "traced t0 got (xs @ replicate 5 (0, [], t)) s'"
      using ok' up'(1) r(3) unfolding traced_def by (simp add: ball_Un)
    then have "live t0 got s'" by (rule liveI) (use assms in \<open>simp add: live_def s'_def\<close>)
    then show ?thesis using r(1) by (simp add: s'_def)
  next
    case False
    with u show ?thesis using assms by simp
  qed
qed

subsection \<open>The host's command byte\<close>

definition with_down :: "rtt_buffer \<Rightarrow> sysview \<Rightarrow> sysview" where
  "with_down r s = s\<lparr>rtt := (rtt s)\<lparr>aDown := (aDown (rtt s))[unat (DownChannel s) := r]\<rparr>\<rparr>"

lemma live_with_down: "live t0 got s \<Longrightarrow> ring_ok r \<Longrightarrow> live t0 got (with_down r s) \<and> stable s (with_down r s)"
proof -
  assume l: "live t0 got s" and r: "ring_ok r"
  then have ok: "sv_ok s" by (simp add: live_ok)
  have u: "up (with_down r s) = up s" "down (with_down r s) = r"
    using ok by (simp_all add: up_def down_def with_down_def sv_ok_def)
  have "sv_ok (with_down r s)" using ok u r by (simp add: sv_ok_def) (simp add: with_down_def)
  moreover have f: "LastTxTimeStamp (with_down r s) = LastTxTimeStamp s" "aTasks (with_down r s) = aTasks s"
    "stable s (with_down r s)" by (simp_all add: with_down_def)
  moreover obtain xs where "traced t0 got xs s" using live_traced [OF l] by blast
  ultimately have "traced t0 got xs (with_down r s)" using u by (simp add: traced_def)
  then have "live t0 got (with_down r s)" by (rule liveI) (use l f in \<open>simp add: live_def\<close>)
  then show ?thesis using f by simp
qed

lemma read_command_live:
  assumes "live t0 got s"
  shows "\<exists>s' c. read_command s = Some (s', c) \<and> live t0 got s' \<and> stable s s'"
proof -
  have ok: "sv_ok s" using assms by (rule live_ok)
  then have r: "ring_ok (down s)" "INIT (rtt s) = rtt s" "unat (DownChannel s) < length (aDown (rtt s))"
    by (simp_all add: sv_ok_def INIT_def)
  from ReadRing_spec [OF r(1), of 1] obtain d bs where d: "ReadRing (down s) 1 = Some (d, bs)" "ring_ok d" by blast
  have "read_command s = Some (with_down d s, case bs of [] \<Rightarrow> None | b # _ \<Rightarrow> Some b)"
    using d(1) r(2,3) by (simp add: read_command_def SEGGER_RTT_ReadNoLock_def on_down_def down_def with_down_def)
  then show ?thesis using live_with_down [OF assms d(2)] by blast
qed

subsection \<open>Payloads the host can cut\<close>

lemma rest_fields_U32 [simp]: "rest_fields (FU32 # fs) (ENCODE_U32 v @ r) = rest_fields fs r"
  by (simp add: get_ENCODE)

lemma rest_fields_U32_last [simp]: "rest_fields (FU32 # fs) (ENCODE_U32 v) = rest_fields fs []"
  using rest_fields_U32 [of fs v "[]"] by simp

lemma rest_fields_Str [simp]: "rest_fields (FStr # fs) (EncodeStr t n @ r) = rest_fields fs r"
  using get_EncodeStr [of t n r] by simp

lemma rest_fields_Str_last [simp]: "rest_fields (FStr # fs) (EncodeStr t n) = rest_fields fs []"
  using rest_fields_Str [of fs t n "[]"] by simp

declare rest_fields.simps(2) [simp del]

lemma EncodeStr_bound: "length (EncodeStr t n) \<le> 129"
  using length_EncodeStr [of t n] by simp

text \<open>Lengths are bounded field by field.\<close>

lemma length_field: "length r \<le> n \<Longrightarrow> length (ENCODE_U32 v @ r) \<le> n + 5" "length r \<le> n \<Longrightarrow> length (EncodeStr t m @ r) \<le> n + 129"
  using length_ENCODE [of v] EncodeStr_bound [of t m] by simp_all

lemma payload_U32s:
  "length vs \<le> 43 \<Longrightarrow> length (concat (map ENCODE_U32 vs)) \<le> 5 * length vs"
proof (induction vs)
  case (Cons v vs)
  then show ?case using length_ENCODE [of v] by simp
qed simp

lemma payload_small:
  "24 \<le> i \<Longrightarrow> length p \<le> 215 \<Longrightarrow> payload_ok i p"
  by (simp add: payload_ok_def leD)

lemma replicate_2: "replicate 2 x = [x, x]"
  by (simp add: numeral_2_eq_2)

lemma event_payloads:
  "payload_ok SYSVIEW_EVTID_ISR_ENTER (ENCODE_U32 a)" "payload_ok SYSVIEW_EVTID_ISR_EXIT []"
  "payload_ok SYSVIEW_EVTID_ISR_TO_SCHEDULER []" "payload_ok SYSVIEW_EVTID_TIMER_ENTER (ENCODE_U32 a)"
  "payload_ok SYSVIEW_EVTID_TIMER_EXIT []" "payload_ok SYSVIEW_EVTID_IDLE []"
  "payload_ok SYSVIEW_EVTID_TASK_CREATE (ENCODE_U32 a)" "payload_ok SYSVIEW_EVTID_TASK_START_EXEC (ENCODE_U32 a)"
  "payload_ok SYSVIEW_EVTID_TASK_STOP_EXEC []" "payload_ok SYSVIEW_EVTID_TASK_START_READY (ENCODE_U32 a)"
  "payload_ok SYSVIEW_EVTID_TASK_STOP_READY (ENCODE_U32 a @ ENCODE_U32 b)" "payload_ok SYSVIEW_EVTID_MARK_START (ENCODE_U32 a)"
  "payload_ok SYSVIEW_EVTID_MARK_STOP (ENCODE_U32 a)" "payload_ok SYSVIEW_EVTID_DATA_SAMPLE (ENCODE_U32 a @ ENCODE_U32 b)"
  "payload_ok SYSVIEW_EVTID_TRACE_START []" "payload_ok SYSVIEW_EVTID_TRACE_STOP []"
  "payload_ok SYSVIEW_EVTID_SYSTIME_CYCLES (ENCODE_U32 a)" "payload_ok SYSVIEW_EVTID_SYSTIME_US (ENCODE_U32 a @ ENCODE_U32 b)"
  "payload_ok SYSVIEW_EVTID_STACK_INFO (ENCODE_U32 a @ ENCODE_U32 b @ ENCODE_U32 c @ ENCODE_U32 d)"
  "payload_ok SYSVIEW_EVTID_TASK_INFO (ENCODE_U32 a @ ENCODE_U32 b @ EncodeStr t m)"
  "payload_ok SYSVIEW_EVTID_MODULEDESC (ENCODE_U32 a @ ENCODE_U32 b @ EncodeStr t m)"
  "payload_ok SYSVIEW_EVTID_SYSDESC (EncodeStr t m)"
  using length_ENCODE [of a] length_ENCODE [of b] length_ENCODE [of c] length_ENCODE [of d] EncodeStr_bound [of t m]
  by (simp_all add: payload_ok_def evtid_defs event_fields_def replicate_2)

lemma event_payloads_long:
  "payload_ok SYSVIEW_EVTID_TASK_TERMINATE (ENCODE_U32 a)" "payload_ok SYSVIEW_EVTID_END_CALL (ENCODE_U32 a)"
  "payload_ok SYSVIEW_EVTID_END_CALL (ENCODE_U32 a @ ENCODE_U32 b)" "payload_ok SYSVIEW_EVTID_NUMMODULES (ENCODE_U32 a)"
  "payload_ok SYSVIEW_EVTID_INIT (ENCODE_U32 a @ ENCODE_U32 b @ ENCODE_U32 c @ ENCODE_U32 d)"
  "payload_ok SYSVIEW_EVTID_NAME_RESOURCE (ENCODE_U32 a @ EncodeStr t m)" "payload_ok SYSVIEW_EVTID_EX (ENCODE_U32 a @ ENCODE_U32 b)"
  "payload_ok SYSVIEW_EVTID_EX (ENCODE_U32 a @ ENCODE_U32 b @ EncodeStr t m)"
  "payload_ok SYSVIEW_EVTID_EX (ENCODE_U32 a @ ENCODE_U32 b @ ENCODE_U32 c)"
  "payload_ok SYSVIEW_EVTID_EX (ENCODE_U32 a @ ENCODE_U32 b @ ENCODE_U32 c @ ENCODE_U32 d)"
  "payload_ok SYSVIEW_EVTID_EX (ENCODE_U32 a @ ENCODE_U32 b @ ENCODE_U32 c @ ENCODE_U32 d @ ENCODE_U32 e)"
  "payload_ok SYSVIEW_EVTID_PRINT_FORMATTED (EncodeStr t m @ ENCODE_U32 a @ ENCODE_U32 b)"
  using length_ENCODE [of a] length_ENCODE [of b] length_ENCODE [of c] length_ENCODE [of d] length_ENCODE [of e]
    EncodeStr_bound [of t m]
  by (simp_all add: payload_ok_def evtid_defs)

lemmas payloads [simp] = event_payloads event_payloads_long

subsection \<open>The clients of a sender\<close>

locale packet_sender =
  fixes send :: sender
  assumes send_live: "live t0 got s \<Longrightarrow> payload_ok i p \<Longrightarrow> keeps t0 got s (send p i s)"
begin

lemma RecordVoid_live: "live t0 got s \<Longrightarrow> payload_ok i [] \<Longrightarrow> keeps t0 got s (SEGGER_SYSVIEW_RecordVoid send i s)"
  unfolding SEGGER_SYSVIEW_RecordVoid_def by (rule send_live)

lemma events_live:
  assumes "live t0 got s"
  shows "keeps t0 got s (SEGGER_SYSVIEW_RecordEnterISR send s)" "keeps t0 got s (SEGGER_SYSVIEW_RecordExitISR send s)"
    "keeps t0 got s (SEGGER_SYSVIEW_RecordExitISRToScheduler send s)" "keeps t0 got s (SEGGER_SYSVIEW_RecordEnterTimer send a s)"
    "keeps t0 got s (SEGGER_SYSVIEW_RecordExitTimer send s)" "keeps t0 got s (SEGGER_SYSVIEW_RecordEndCall send a s)"
    "keeps t0 got s (SEGGER_SYSVIEW_RecordEndCallU32 send a b s)" "keeps t0 got s (SEGGER_SYSVIEW_OnIdle send s)"
    "keeps t0 got s (SEGGER_SYSVIEW_OnTaskCreate send a s)" "keeps t0 got s (SEGGER_SYSVIEW_OnTaskTerminate send a s)"
    "keeps t0 got s (SEGGER_SYSVIEW_OnTaskStartExec send a s)" "keeps t0 got s (SEGGER_SYSVIEW_OnTaskStopExec send s)"
    "keeps t0 got s (SEGGER_SYSVIEW_OnTaskStartReady send a s)" "keeps t0 got s (SEGGER_SYSVIEW_OnTaskStopReady send a b s)"
    "keeps t0 got s (SEGGER_SYSVIEW_MarkStart send a s)" "keeps t0 got s (SEGGER_SYSVIEW_MarkStop send a s)"
    "keeps t0 got s (SEGGER_SYSVIEW_Mark send a s)" "keeps t0 got s (SEGGER_SYSVIEW_NameMarker send a t s)"
    "keeps t0 got s (SEGGER_SYSVIEW_NameResource send a t s)" "keeps t0 got s (SEGGER_SYSVIEW_HeapDefine send a b c d s)"
    "keeps t0 got s (SEGGER_SYSVIEW_HeapAlloc send a b c s)" "keeps t0 got s (SEGGER_SYSVIEW_HeapAllocEx send a b c d s)"
    "keeps t0 got s (SEGGER_SYSVIEW_HeapFree send a b s)" "keeps t0 got s (SEGGER_SYSVIEW_SampleData send a b s)"
    "keeps t0 got s (SEGGER_SYSVIEW_Print send t s)" "keeps t0 got s (SEGGER_SYSVIEW_Warn send t s)"
    "keeps t0 got s (SEGGER_SYSVIEW_Error send t s)" "keeps t0 got s (SEGGER_SYSVIEW_SendSysDesc send t s)"
    "keeps t0 got s (SEGGER_SYSVIEW_SendNumModules send s)" "keeps t0 got s (send (init_payload s) SYSVIEW_EVTID_INIT s)"
  unfolding SEGGER_SYSVIEW_RecordEnterISR_def SEGGER_SYSVIEW_RecordExitISR_def SEGGER_SYSVIEW_RecordExitISRToScheduler_def
    SEGGER_SYSVIEW_RecordEnterTimer_def SEGGER_SYSVIEW_RecordExitTimer_def SEGGER_SYSVIEW_RecordEndCall_def
    SEGGER_SYSVIEW_RecordEndCallU32_def SEGGER_SYSVIEW_OnIdle_def SEGGER_SYSVIEW_OnTaskCreate_def SEGGER_SYSVIEW_OnTaskTerminate_def
    SEGGER_SYSVIEW_OnTaskStartExec_def SEGGER_SYSVIEW_OnTaskStopExec_def SEGGER_SYSVIEW_OnTaskStartReady_def
    SEGGER_SYSVIEW_OnTaskStopReady_def SEGGER_SYSVIEW_MarkStart_def SEGGER_SYSVIEW_MarkStop_def SEGGER_SYSVIEW_Mark_def
    SEGGER_SYSVIEW_NameMarker_def SEGGER_SYSVIEW_NameResource_def SEGGER_SYSVIEW_HeapDefine_def SEGGER_SYSVIEW_HeapAlloc_def
    SEGGER_SYSVIEW_HeapAllocEx_def SEGGER_SYSVIEW_HeapFree_def SEGGER_SYSVIEW_SampleData_def SEGGER_SYSVIEW_Print_def
    SEGGER_SYSVIEW_Warn_def SEGGER_SYSVIEW_Error_def SEGGER_SYSVIEW_SendSysDesc_def SEGGER_SYSVIEW_SendNumModules_def
    EncodeFloat_def message_payload_def init_payload_def
  by (rule send_live [OF assms]; simp)+

text \<open>Descriptions, lists of tasks and of modules.\<close>

lemma SendTaskInfo_live: "live t0 got s \<Longrightarrow> keeps t0 got s (SYSVIEW_SendTaskInfo send a n b c d s)"
  unfolding SYSVIEW_SendTaskInfo_def SEGGER_SYSVIEW_SendTaskInfo_def
  by (rule keeps_bind; rule send_live; simp)

lemma cbSendTaskList_from_live:
  "live t0 got s \<Longrightarrow> n + k \<le> NumTasks s \<Longrightarrow> keeps t0 got s (cbSendTaskList_from send k n s)"
proof (induction k arbitrary: n s)
  case (Suc k)
  have l: "n < length (aTasks s)" using Suc.prems live_ok [OF Suc.prems(1)] by (simp add: sv_ok_def)
  define u where "u = (aTasks s ! n)\<lparr>uStackHighWaterMark := high_water s (xHandle (aTasks s ! n))\<rparr>"
  define s1 where "s1 = s\<lparr>aTasks := (aTasks s)[n := u]\<rparr>"
  have "map task_ident ((aTasks s)[n := u]) = map task_ident (aTasks s)"
    using l by (simp add: map_update u_def task_ident_def list_update_same_conv)
  then have s1: "live t0 got s1" "stable s s1" using live_aTasks_only [OF Suc.prems(1)] by (simp_all add: s1_def stable_def)
  have "keeps t0 got s1 (SYSVIEW_SendTaskInfo send (xHandle u) (pcTaskName u) (uxCurrentPriority u) (pxStack u) (uStackHighWaterMark u) s1
      \<bind> cbSendTaskList_from send k (Suc n))"
  proof (rule keeps_bind [OF SendTaskInfo_live [OF s1(1)]])
    fix s2 assume s2: "live t0 got s2" "stable s1 s2"
    then have "Suc n + k \<le> NumTasks s2" using s1(2) Suc.prems(2) by (simp add: stable_def)
    from Suc.IH [OF s2(1) this] show "keeps t0 got s2 (cbSendTaskList_from send k (Suc n) s2)" .
  qed
  from keeps_from [OF this s1(2)] show ?case using l by (simp add: Let_def u_def s1_def)
qed simp

lemma SendTaskList_live: "live t0 got s \<Longrightarrow> keeps t0 got s (SEGGER_SYSVIEW_SendTaskList send s)"
  unfolding SEGGER_SYSVIEW_SendTaskList_def cbSendTaskList_def
  by (auto split: option.splits os_api.splits intro: cbSendTaskList_from_live)

lemma send_desc_live: "live t0 got s \<Longrightarrow> keeps t0 got s (send_desc send s)"
  unfolding send_desc_def cbSendSystemDesc_run_def
  by (auto split: option.splits sys_desc_func.splits intro!: keeps_bind events_live(28))

lemma GetSysDesc_live: "live t0 got s \<Longrightarrow> keeps t0 got s (SEGGER_SYSVIEW_GetSysDesc send s)"
  unfolding SEGGER_SYSVIEW_GetSysDesc_def by (rule keeps_bind, erule events_live(30), erule send_desc_live)

lemma RecordSystime_live:
  assumes "live t0 got s"
  shows "keeps t0 got s (SEGGER_SYSVIEW_RecordSystime send s)"
proof (cases "pOSAPI s")
  case None
  define s1 where "s1 = s\<lparr>reads := Suc (reads s)\<rparr>"
  have "live t0 got s1" "stable s s1" using assms by (simp_all add: s1_def)
  then have "keeps t0 got s (send (ENCODE_U32 (timestamps s (reads s))) SYSVIEW_EVTID_SYSTIME_CYCLES s1)"
    by (rule keeps_from [OF send_live [OF _ event_payloads(17)]])
  then show ?thesis using None
    by (simp add: SEGGER_SYSVIEW_RecordSystime_def SEGGER_SYSVIEW_RecordU32_def GET_TIMESTAMP_def s1_def)
next
  case (Some api)
  then show ?thesis using send_live [OF assms event_payloads(18)]
    by (cases api) (simp only: SEGGER_SYSVIEW_RecordSystime_def SEGGER_SYSVIEW_RecordU32x2_def option.simps os_api.simps)
qed

lemma send_descriptions_live:
  "live t0 got s \<Longrightarrow> n < length (modules s) \<Longrightarrow> keeps t0 got s (send_descriptions send n ds s)"
proof (induction ds arbitrary: s)
  case (Cons d ds)
  have "keeps t0 got s (SEGGER_SYSVIEW_RecordModuleDescription send n (Some d) s)"
    using Cons.prems by (simp add: SEGGER_SYSVIEW_RecordModuleDescription_def send_live)
  then show ?case by (simp, rule keeps_bind) (use Cons in \<open>simp_all add: stable_def\<close>)
qed simp

lemma run_module_desc_live: "live t0 got s \<Longrightarrow> n < length (modules s) \<Longrightarrow> keeps t0 got s (run_module_desc send n s)"
  by (auto simp: run_module_desc_def send_descriptions_live split: option.splits)

lemma SendModule_live: "live t0 got s \<Longrightarrow> keeps t0 got s (SEGGER_SYSVIEW_SendModule send m s)"
  unfolding SEGGER_SYSVIEW_SendModule_def Let_def
  by (auto intro!: keeps_bind send_live run_module_desc_live simp: stable_def)

lemma SendModuleDescription_live: "live t0 got s \<Longrightarrow> keeps t0 got s (SEGGER_SYSVIEW_SendModuleDescription send s)"
proof -
  have "live t0 got s \<Longrightarrow> n + k \<le> length (modules s) \<Longrightarrow> keeps t0 got s (SendModuleDescription_from send k n s)" for k n
  proof (induction k arbitrary: n s)
    case (Suc k)
    then have "keeps t0 got s (run_module_desc send n s)" by (simp add: run_module_desc_live)
    then show ?case by (simp, rule keeps_bind) (use Suc in \<open>simp_all add: stable_def\<close>)
  qed simp
  then show "live t0 got s \<Longrightarrow> keeps t0 got s (SEGGER_SYSVIEW_SendModuleDescription send s)"
    by (simp add: SEGGER_SYSVIEW_SendModuleDescription_def)
qed

text \<open>Starting, stopping, and the commands.\<close>

lemma Start_live:
  assumes "live t0 got s"
  shows "keeps t0 got s (SEGGER_SYSVIEW_Start send s)"
proof -
  define s1 where "s1 = s\<lparr>EnableState := 1\<rparr>"
  have "live t0 got s1" using live_EnableState [OF assms, of 1] by (simp add: s1_def)
  from live_sync [OF this] obtain p st where p: "SEGGER_RTT_WriteSkipNoLock (unat (UpChannel s1)) abSync 10 (rtt s1) = Some (p, st)"
    "live t0 got (s1\<lparr>rtt := p\<rparr>)" by blast
  have "keeps t0 got (s1\<lparr>rtt := p\<rparr>) (do {
      s \<leftarrow> SEGGER_SYSVIEW_RecordVoid send SYSVIEW_EVTID_TRACE_START (s1\<lparr>rtt := p\<rparr>);
      s \<leftarrow> send (init_payload s) SYSVIEW_EVTID_INIT s;
      s \<leftarrow> send_desc send s;
      s \<leftarrow> SEGGER_SYSVIEW_RecordSystime send s;
      s \<leftarrow> SEGGER_SYSVIEW_SendTaskList send s;
      SEGGER_SYSVIEW_SendNumModules send s
    })"
    by (intro keeps_bind RecordVoid_live p(2) events_live send_desc_live RecordSystime_live SendTaskList_live) simp_all
  then have "keeps t0 got s (do {
      s \<leftarrow> SEGGER_SYSVIEW_RecordVoid send SYSVIEW_EVTID_TRACE_START (s1\<lparr>rtt := p\<rparr>);
      s \<leftarrow> send (init_payload s) SYSVIEW_EVTID_INIT s;
      s \<leftarrow> send_desc send s;
      s \<leftarrow> SEGGER_SYSVIEW_RecordSystime send s;
      s \<leftarrow> SEGGER_SYSVIEW_SendTaskList send s;
      SEGGER_SYSVIEW_SendNumModules send s
    })" by (rule keeps_from) (simp add: s1_def)
  then show ?thesis using p(1) by (simp add: SEGGER_SYSVIEW_Start_def s1_def Let_def)
qed

lemma Stop_live: "live t0 got s \<Longrightarrow> keeps t0 got s (SEGGER_SYSVIEW_Stop send s)"
  unfolding SEGGER_SYSVIEW_Stop_def
  by (auto intro!: keeps_bind send_live keeps_Some live_EnableState)

lemma HandleIncomingPacket_live:
  assumes "live t0 got s"
  shows "keeps t0 got s (HandleIncomingPacket send s)"
proof -
  obtain s1 c where c: "read_command s = Some (s1, c)" "live t0 got s1" "stable s s1" using read_command_live [OF assms] by blast
  obtain s2 d where d: "read_command s1 = Some (s2, d)" "live t0 got s2" "stable s1 s2" using read_command_live [OF c(2)] by blast
  note keeps_d = keeps_from [OF _ d(3)]
  have "keeps t0 got s1 (case c of None \<Rightarrow> Some s1
     | Some Cmd \<Rightarrow>
       if Cmd = COMMAND_ID_START then SEGGER_SYSVIEW_Start send s1
       else if Cmd = COMMAND_ID_STOP then SEGGER_SYSVIEW_Stop send s1
       else if Cmd = COMMAND_ID_GET_SYSTIME then SEGGER_SYSVIEW_RecordSystime send s1
       else if Cmd = COMMAND_ID_GET_TASKLIST then SEGGER_SYSVIEW_SendTaskList send s1
       else if Cmd = COMMAND_ID_GET_SYSDESC then SEGGER_SYSVIEW_GetSysDesc send s1
       else if Cmd = COMMAND_ID_GET_NUMMODULES then SEGGER_SYSVIEW_SendNumModules send s1
       else if Cmd = COMMAND_ID_GET_MODULEDESC then SEGGER_SYSVIEW_SendModuleDescription send s1
       else if Cmd = COMMAND_ID_GET_MODULE then (case d of None \<Rightarrow> Some s2 | Some m \<Rightarrow> SEGGER_SYSVIEW_SendModule send m s2)
       else if Cmd = COMMAND_ID_HEARTBEAT then Some s1
       else if Cmd \<ge> 128 then Some s2 else Some s1)"
    using c(2) d(2,3)
    by (cases c; cases d)
      (simp_all add: Start_live Stop_live RecordSystime_live SendTaskList_live GetSysDesc_live events_live SendModuleDescription_live
        keeps_d SendModule_live keeps_Some)
  from keeps_from [OF this c(3)] show ?thesis
    using c(1) d(1) by (simp add: HandleIncomingPacket_def cong: if_cong option.case_cong)
qed

lemma poll_commands_live:
  assumes "live t0 got s"
  shows "keeps t0 got s (poll_commands send s)"
proof -
  have "unat (DownChannel s) < length (aDown (rtt s))" using live_ok [OF assms] by (simp add: sv_ok_def)
  then obtain n where n: "SEGGER_RTT_HasData (unat (DownChannel s)) (rtt s) = Some n" by (simp add: SEGGER_RTT_HasData_def)
  have "keeps t0 got s (HandleIncomingPacket send (s\<lparr>RecursionCnt := 1\<rparr>))"
    by (rule keeps_from [OF HandleIncomingPacket_live]) (use assms in simp_all)
  then have "keeps t0 got s (HandleIncomingPacket send (s\<lparr>RecursionCnt := 1\<rparr>) \<bind> (\<lambda>s. Some (s\<lparr>RecursionCnt := 0\<rparr>)))"
    by (rule keeps_bind) (simp add: keeps_Some)
  then show ?thesis using n assms by (simp add: poll_commands_def)
qed

text \<open>The task list.\<close>

lemma AddTask_live:
  assumes "live t0 got s"
  shows "\<exists>s'. SYSVIEW_AddTask send h n pr st hw s = Some s' \<and> live t0 got s'"
proof -
  define s1 where "s1 = s\<lparr>aTasks := (aTasks s)[NumTasks s := \<lparr>xHandle = h, pcTaskName = Some n, uxCurrentPriority = pr, pxStack = st,
     uStackHighWaterMark = hw\<rparr>], NumTasks := NumTasks s + 1\<rparr>"
  have "NumTasks s < SYSVIEW_FREERTOS_MAX_NOF_TASKS \<Longrightarrow> live t0 got s1"
    unfolding s1_def by (rule live_aTasks) (use assms in \<open>simp_all add: live_def\<close>)
  then have "NumTasks s < SYSVIEW_FREERTOS_MAX_NOF_TASKS \<Longrightarrow> keeps t0 got s1 (SYSVIEW_SendTaskInfo send h (Some n) pr st hw s1)"
    by (rule SendTaskInfo_live)
  moreover have "keeps t0 got s (SEGGER_SYSVIEW_Warn send (Some too_many_tasks) s)" by (rule events_live [OF assms])
  ultimately show ?thesis using assms by (auto simp: SYSVIEW_AddTask_def Let_def s1_def keeps_def)
qed

lemma UpdateTask_live:
  assumes "live t0 got s"
  shows "\<exists>s'. SYSVIEW_UpdateTask send h n pr st hw s = Some s' \<and> live t0 got s'"
proof -
  define s1 where "s1 = s\<lparr>aTasks := (aTasks s)[find_task h s := (aTasks s ! find_task h s)\<lparr>pcTaskName := Some n, uxCurrentPriority := pr,
     pxStack := st, uStackHighWaterMark := hw\<rparr>]\<rparr>"
  have "live t0 got s1" unfolding s1_def by (rule live_aTasks_only [OF assms]) simp
  then have "keeps t0 got s1 (SYSVIEW_SendTaskInfo send h (Some n) pr st hw s1)" by (rule SendTaskInfo_live)
  then show ?thesis using assms AddTask_live [OF assms]
    by (auto simp: SYSVIEW_UpdateTask_def Let_def s1_def keeps_def)
qed

lemma RegisterModule_live:
  assumes "live t0 got s"
  shows "\<exists>s'. SEGGER_SYSVIEW_RegisterModule send m s = Some s' \<and> live t0 got s'"
proof -
  define s1 where "s1 = (case modules s of
         [] \<Rightarrow> s\<lparr>modules := [m\<lparr>EventOffset := MODULE_EVENT_OFFSET\<rparr>], NumModules := 1\<rparr>
       | f # fs \<Rightarrow> s\<lparr>modules := m\<lparr>EventOffset := EventOffset f + NumEvents f\<rparr> # f # fs, NumModules := NumModules s + 1\<rparr>)"
  have "live t0 got s1" using assms by (auto simp: s1_def split: list.splits)
  from SendModule_live [OF this, of 0] show ?thesis
    unfolding SEGGER_SYSVIEW_RegisterModule_def s1_def [symmetric] Let_def keeps_def by blast
qed

end

subsection \<open>The two senders\<close>

lemma nested_live: "live t0 got s \<Longrightarrow> payload_ok i p \<Longrightarrow> keeps t0 got s (SendPacket_nested p i s)"
proof -
  assume l: "live t0 got s" and p: "payload_ok i p"
  then obtain xs where t: "traced t0 got xs s" by (auto simp: live_def)
  define R where "R = \<lparr>rmode = EnableState s, rdrops = DropCount s, rlog = xs, rclock = reads s, rfill = length (contents (up s))\<rparr>"
  have "refines t0 got R s" using t by (simp add: refines_def R_def)
  from SendPacket_nested_refines [OF this p] obtain s' R' where s': "SendPacket_nested p i s = Some s'" "frame s s'" "refines t0 got R' s'"
    by blast
  have "traced t0 got (rlog R') s'" using s'(3) by (simp add: refines_def)
  then have "live t0 got s'" by (rule liveI) (use s'(2) l in \<open>simp add: frame_def live_def\<close>)
  then show ?thesis using s'(1) frame_stable [OF s'(2)] by (simp add: keeps_Some)
qed

interpretation nested: packet_sender SendPacket_nested
  by unfold_locales (rule nested_live)

interpretation top: packet_sender SendPacket
  by unfold_locales (auto simp: SendPacket_def intro: keeps_bind nested_live nested.poll_commands_live)

subsection \<open>The operations of the program and of the host\<close>

text \<open>
  \<open>Rec\<close> is any event of the program, \<open>HostTakes\<close> and \<open>HostCommands\<close> are the host's accesses to the two
  channels. The other operations are the functions of the interface that change the recorder.
\<close>

datatype sv_op =
    Rec u32 "u8 list" | HostTakes nat | HostCommands "u8 list" | IsStarted | StartRecording | StopRecording
  | EnableMask u32 | DisableMask u32 | AddTask u32 "u8 list" u32 u32 u32 | UpdateTask u32 "u8 list" u32 u32 u32
  | DeleteTask u32 | Register sv_module | GetSysDesc | GetTaskList | GetModules

definition host_commands :: "u8 list \<Rightarrow> sysview \<Rightarrow> sysview" where
  "host_commands bs s =
     (case WriteSkip (down s) bs (word_of_nat (length bs)) of None \<Rightarrow> s | Some (r, _) \<Rightarrow> with_down r s)"

definition sv_do :: "sv_op \<Rightarrow> sysview \<Rightarrow> sysview option" where
  "sv_do x s = (case x of
     Rec i p \<Rightarrow> SendPacket p i s
   | HostTakes k \<Rightarrow> Some (host_reads k s)
   | HostCommands bs \<Rightarrow> Some (host_commands bs s)
   | IsStarted \<Rightarrow> map_option fst (SEGGER_SYSVIEW_IsStarted s)
   | StartRecording \<Rightarrow> SEGGER_SYSVIEW_Start SendPacket s
   | StopRecording \<Rightarrow> SEGGER_SYSVIEW_Stop SendPacket s
   | EnableMask m \<Rightarrow> Some (SEGGER_SYSVIEW_EnableEvents m s)
   | DisableMask m \<Rightarrow> Some (SEGGER_SYSVIEW_DisableEvents m s)
   | AddTask h n pr st hw \<Rightarrow> SYSVIEW_AddTask SendPacket h n pr st hw s
   | UpdateTask h n pr st hw \<Rightarrow> SYSVIEW_UpdateTask SendPacket h n pr st hw s
   | DeleteTask h \<Rightarrow> Some (SYSVIEW_DeleteTask h s)
   | Register m \<Rightarrow> SEGGER_SYSVIEW_RegisterModule SendPacket m s
   | GetSysDesc \<Rightarrow> SEGGER_SYSVIEW_GetSysDesc SendPacket s
   | GetTaskList \<Rightarrow> SEGGER_SYSVIEW_SendTaskList SendPacket s
   | GetModules \<Rightarrow> SEGGER_SYSVIEW_SendModuleDescription SendPacket s)"

text \<open>What the host has got so far is kept beside the state.\<close>

definition host_gets :: "sv_op \<Rightarrow> sysview \<Rightarrow> u8 list" where
  "host_gets x s = (case x of HostTakes k \<Rightarrow> take k (contents (up s)) | _ \<Rightarrow> [])"

primrec sv_run :: "sv_op list \<Rightarrow> u8 list \<times> sysview \<Rightarrow> (u8 list \<times> sysview) option" where
  "sv_run [] gs = Some gs"
| "sv_run (x # xs) gs = (case gs of (got, s) \<Rightarrow>
     (case sv_do x s of None \<Rightarrow> None | Some s' \<Rightarrow> sv_run xs (got @ host_gets x s, s')))"

definition sv_op_ok :: "sv_op \<Rightarrow> bool" where
  "sv_op_ok x = (case x of Rec i p \<Rightarrow> payload_ok i p | HostCommands bs \<Rightarrow> length bs < 2 ^ 32 | _ \<Rightarrow> True)"

lemma host_reads_live: "live t0 got s \<Longrightarrow> live t0 (got @ take k (contents (up s))) (host_reads k s)"
proof -
  assume l: "live t0 got s"
  then obtain xs where t: "traced t0 got xs s" by (auto simp: live_def)
  define R where "R = \<lparr>rmode = EnableState s, rdrops = DropCount s, rlog = xs, rclock = reads s, rfill = length (contents (up s))\<rparr>"
  have "refines t0 got R s" using t by (simp add: refines_def R_def)
  from host_reads_refines [OF this, of k] obtain ys where
    "traced t0 (got @ take k (contents (up s))) ys (host_reads k s)" by (auto simp: refines_def)
  then show ?thesis by (rule liveI) (use l in \<open>simp add: live_def host_reads_def\<close>)
qed

lemma host_commands_live:
  assumes "live t0 got s" "length bs < 2 ^ 32"
  shows "live t0 got (host_commands bs s)"
proof -
  have r: "ring_ok (down s)" using live_ok [OF assms(1)] by (simp add: sv_ok_def)
  have n: "unat (word_of_nat (length bs) :: u32) = length bs" using assms(2) by (simp add: unat_of_nat take_bit_nat_eq_self)
  obtain q st where "WriteSkip (down s) bs (word_of_nat (length bs)) = Some (q, st)" "ring_ok q"
    using WriteSkip_spec [OF r, of "word_of_nat (length bs)" bs] r unfolding n by (auto split: if_splits)
  then show ?thesis using live_with_down [OF assms(1)] by (simp add: host_commands_def)
qed

lemma DeleteTask_live:
  assumes "live t0 got s"
  shows "live t0 got (SYSVIEW_DeleteTask h s)"
proof -
  have "NumTasks s \<le> length (aTasks s)" using live_ok [OF assms] by (simp add: sv_ok_def)
  then have n: "NumTasks s - 1 \<le> length (aTasks s)" by simp
  show ?thesis
    unfolding SYSVIEW_DeleteTask_def Let_def using assms n by (auto intro: live_aTasks)
qed

lemma sv_do_live:
  assumes l: "live t0 got s" and x: "sv_op_ok x"
  shows "\<exists>s'. sv_do x s = Some s' \<and> live t0 (got @ host_gets x s) s'"
proof (cases x)
  case (Rec i p)
  then have "payload_ok i p" using x by (simp add: sv_op_ok_def)
  from top.send_live [OF l this] Rec show ?thesis by (auto simp: sv_do_def host_gets_def keeps_def)
next
  case IsStarted
  then show ?thesis using nested.poll_commands_live [OF l] by (auto simp: sv_do_def host_gets_def keeps_def SEGGER_SYSVIEW_IsStarted_def)
next
  case (HostTakes k)
  then show ?thesis using host_reads_live [OF l] by (simp add: sv_do_def host_gets_def)
next
  case (HostCommands bs)
  then show ?thesis using host_commands_live [OF l] x by (simp add: sv_do_def host_gets_def sv_op_ok_def)
next
  case StartRecording
  then show ?thesis using top.Start_live [OF l] by (auto simp: sv_do_def host_gets_def keeps_def)
next
  case StopRecording
  then show ?thesis using top.Stop_live [OF l] by (auto simp: sv_do_def host_gets_def keeps_def)
next
  case GetSysDesc
  then show ?thesis using top.GetSysDesc_live [OF l] by (auto simp: sv_do_def host_gets_def keeps_def)
next
  case GetTaskList
  then show ?thesis using top.SendTaskList_live [OF l] by (auto simp: sv_do_def host_gets_def keeps_def)
next
  case GetModules
  then show ?thesis using top.SendModuleDescription_live [OF l] by (auto simp: sv_do_def host_gets_def keeps_def)
qed (use l top.AddTask_live [OF l] top.UpdateTask_live [OF l] top.RegisterModule_live [OF l] DeleteTask_live [OF l] in
  \<open>simp_all add: sv_do_def host_gets_def SEGGER_SYSVIEW_EnableEvents_def SEGGER_SYSVIEW_DisableEvents_def\<close>)

lemma sv_run_live:
  "live t0 got s \<Longrightarrow> \<forall>x\<in>set xs. sv_op_ok x \<Longrightarrow> \<exists>got' s'. sv_run xs (got, s) = Some (got', s') \<and> live t0 got' s'"
proof (induction xs arbitrary: got s)
  case (Cons x xs)
  from sv_do_live [OF Cons.prems(1), of x] Cons.prems(2) obtain s1 where "sv_do x s = Some s1" "live t0 (got @ host_gets x s) s1"
    by auto
  with Cons.IH [of "got @ host_gets x s" s1] Cons.prems(2) show ?case by simp
qed simp

lemma conf_live: "live (ts 0) [] (SEGGER_SYSVIEW_Conf rp (sv_boot ts hw tc ii))"
proof -
  have "traced (ts 0) [] [] (SEGGER_SYSVIEW_Conf rp (sv_boot ts hw tc ii))"
    using conf_refines(1) [of ts rp hw tc ii] by (simp add: refines_def)
  then show ?thesis by (rule liveI) (simp add: conf_fields SYSVIEW_FREERTOS_MAX_NOF_TASKS_def)
qed

subsection \<open>Properties\<close>

text \<open>From the configured recorder on, no sequence of events, of interface calls and task list updates of the
  program, and of reads and commands of the host makes the recorder fault, whatever bytes the host sends and
  whatever the cycle counter shows; the host can always decode all it has got together with what waits in
  the channel; and the recorder is off, on or dropping.\<close>
theorem SYSVIEW_trace_always_decodes:
  assumes "\<forall>x\<in>set xs. sv_op_ok x"
  shows "\<exists>got s ys. sv_run xs ([], SEGGER_SYSVIEW_Conf rp (sv_boot ts hw tc ii)) = Some (got, s) \<and>
    host_decode (ts 0) (got @ contents (up s)) = Some ys \<and> EnableState s \<in> {0, 1, 2} \<and> NumTasks s \<le> 8"
proof -
  obtain got s where r: "sv_run xs ([], SEGGER_SYSVIEW_Conf rp (sv_boot ts hw tc ii)) = Some (got, s)" "live (ts 0) got s"
    using sv_run_live [OF conf_live assms] by blast
  obtain zs where z: "traced (ts 0) got zs s" using live_traced [OF r(2)] by blast
  have "EnableState s \<in> {0, 1, 2}" by (rule sv_ok_mode [OF live_ok [OF r(2)]])
  moreover have "NumTasks s \<le> 8"
    using live_ok [OF r(2)] r(2) by (simp add: sv_ok_def live_def SYSVIEW_FREERTOS_MAX_NOF_TASKS_def)
  ultimately show ?thesis using r(1) traced_decodes [OF z] by blast
qed

theorem SYSVIEW_trace_always_decodes_witness:
  "\<exists>got s ys. sv_run [HostCommands [COMMAND_ID_START], IsStarted, AddTask 1 (bytes_of ''BME'') 2 3 4, Rec SYSVIEW_EVTID_IDLE [], HostTakes 100]
      ([], SEGGER_SYSVIEW_Conf True (sv_boot (\<lambda>k. word_of_nat k) (\<lambda>_. 0) 0 0)) = Some (got, s) \<and>
    host_decode 0 (got @ contents (up s)) = Some ys"
  using SYSVIEW_trace_always_decodes [of "[HostCommands [COMMAND_ID_START], IsStarted, AddTask 1 (bytes_of ''BME'') 2 3 4,
      Rec SYSVIEW_EVTID_IDLE [], HostTakes 100]" True "\<lambda>k. word_of_nat k" "\<lambda>_. 0" 0 0]
  by (auto simp: sv_op_ok_def payload_ok_def evtid_defs event_fields_def)

end
