(* ===== verification/SysViewReentry.thy ===== *)
theory SysViewReentry
  imports SysViewLive
begin

text \<open>
  \<open>_SendPacket\<close> and the handler of the host's commands call each other. Theory SysView cuts this
  recursion: the handler sends with \<open>SendPacket_nested\<close>, which polls no commands. Here the recursion is written as the code
  has it, with the stack that is left as its fuel, and shown to need two frames whatever the host has sent;
  with them it computes what \<open>SendPacket\<close> does.
\<close>

subsection \<open>The recursion of the code\<close>

text \<open>\<open>None\<close> when the frames are used up.\<close>

primrec SendPacket_depth :: "nat \<Rightarrow> sender" where
  "SendPacket_depth 0 payload EventId s = None"
| "SendPacket_depth (Suc frames) payload EventId s = do {
     s \<leftarrow> SendPacket_nested payload EventId s;
     n \<leftarrow> SEGGER_RTT_HasData (unat (DownChannel s)) (rtt s);
     if n \<noteq> 0 \<and> RecursionCnt s = 0 then do {
       s \<leftarrow> HandleIncomingPacket (SendPacket_depth frames) (s\<lparr>RecursionCnt := 1\<rparr>);
       Some (s\<lparr>RecursionCnt := 0\<rparr>)
     } else Some s
   }"

subsection \<open>Inside the handler\<close>

text \<open>While a command is handled \<open>RecursionCnt\<close> is not zero.\<close>

definition inner :: "sysview \<Rightarrow> bool" where
  "inner s \<longleftrightarrow> RecursionCnt s \<noteq> 0 \<and> unat (DownChannel s) < length (aDown (rtt s))"

text \<open>Two runs with the same result, which is again inside the handler.\<close>

definition same_run :: "sysview option \<Rightarrow> sysview option \<Rightarrow> bool" where
  "same_run x y \<longleftrightarrow> x = y \<and> (\<forall>s. y = Some s \<longrightarrow> inner s)"

lemma same_run_Some [simp]: "same_run (Some s) (Some s) = inner s" "same_run None None"
  by (simp_all add: same_run_def)

lemma same_run_bind:
  "same_run x y \<Longrightarrow> (\<And>s. inner s \<Longrightarrow> same_run (f s) (g s)) \<Longrightarrow> same_run (Option.bind x f) (Option.bind y g)"
  unfolding same_run_def by (cases y) auto

lemma inner_updates [simp]:
  "inner (s\<lparr>reads := n\<rparr>) = inner s" "inner (s\<lparr>EnableState := e\<rparr>) = inner s" "inner (s\<lparr>aTasks := ts\<rparr>) = inner s"
  by (simp_all add: inner_def)

lemma on_up_same: "on_up i f p = Some (q, x) \<Longrightarrow> aDown q = aDown p"
  by (auto simp: on_up_def split: if_splits)

lemma Send_keeps: "Send front cap p i s = Some s' \<Longrightarrow> RecursionCnt s' = RecursionCnt s \<and> DownChannel s' = DownChannel s \<and>
  aDown (rtt s') = aDown (rtt s)"
  by (auto simp: Send_def GET_TIMESTAMP_def SEGGER_RTT_WriteSkipNoLock_def Let_def bind_eq_Some_conv dest!: on_up_same
      split: if_splits)

lemma TrySendOverflowPacket_keeps: "TrySendOverflowPacket s = Some s' \<Longrightarrow> RecursionCnt s' = RecursionCnt s \<and>
  DownChannel s' = DownChannel s \<and> aDown (rtt s') = aDown (rtt s)"
  by (auto simp: TrySendOverflowPacket_def GET_TIMESTAMP_def SEGGER_RTT_WriteSkipNoLock_def Let_def bind_eq_Some_conv
      dest!: on_up_same split: if_splits)

lemma branches:
  "(if a then None else if b then x else if c then Some s else if d then Option.bind t (\<lambda>s. if e s then Some s else y s) else x) = Some s' \<Longrightarrow>
    x = Some s' \<or> s' = s \<or> (\<exists>s1. t = Some s1 \<and> (s' = s1 \<or> y s1 = Some s'))"
  by (auto simp: bind_eq_Some_conv split: if_splits)

lemma SendPacket_body_keeps:
  assumes "SendPacket_body front cap p i s = Some s'"
  shows "RecursionCnt s' = RecursionCnt s \<and> DownChannel s' = DownChannel s \<and> aDown (rtt s') = aDown (rtt s)"
proof -
  from assms consider "Send front cap p i s = Some s'" | "s' = s" | s1 where "TrySendOverflowPacket s = Some s1" "s' = s1" |
    s1 where "TrySendOverflowPacket s = Some s1" "Send front cap p i s1 = Some s'"
    using branches [OF assms [unfolded SendPacket_body_def]] by blast
  then show ?thesis
  proof cases
    case 1
    then show ?thesis by (rule Send_keeps)
  next
    case 3
    then show ?thesis using TrySendOverflowPacket_keeps by simp
  next
    case 4
    then show ?thesis using TrySendOverflowPacket_keeps [OF 4(1)] Send_keeps [OF 4(2)] by simp
  qed simp
qed

lemma nested_inner: "inner s \<Longrightarrow> SendPacket_nested p i s = Some s' \<Longrightarrow> inner s'"
  unfolding SendPacket_nested_def inner_def by (drule SendPacket_body_keeps) simp

lemma on_down_length: "on_down i f p = Some (q, x) \<Longrightarrow> i < length (aDown q)"
  by (auto simp: on_down_def split: if_splits)

lemma read_command_inner:
  assumes "inner s" "read_command s = Some (s', c)"
  shows "inner s'"
proof -
  from assms(2) obtain q bs where q: "on_down (unat (DownChannel s)) (\<lambda>r. ReadRing r 1) (INIT (rtt s)) = Some (q, bs)" "s' = s\<lparr>rtt := q\<rparr>"
    unfolding read_command_def SEGGER_RTT_ReadNoLock_def bind_eq_Some_conv by force
  then show ?thesis using assms(1) on_down_length [OF q(1)] by (simp add: inner_def)
qed

text \<open>A sender that agrees with the cut one inside the handler.\<close>

locale reentrant =
  fixes send :: sender
  assumes agrees: "inner s \<Longrightarrow> send p i s = SendPacket_nested p i s"
begin

lemma send_same: "inner s \<Longrightarrow> same_run (send p i s) (SendPacket_nested p i s)"
  using agrees nested_inner unfolding same_run_def by blast

lemma send_desc_same: "inner s \<Longrightarrow> same_run (send_desc send s) (send_desc SendPacket_nested s)"
  by (auto simp: send_desc_def cbSendSystemDesc_run_def SEGGER_SYSVIEW_SendSysDesc_def
      split: option.splits sys_desc_func.splits intro!: same_run_bind send_same)

lemma GetSysDesc_same: "inner s \<Longrightarrow> same_run (SEGGER_SYSVIEW_GetSysDesc send s) (SEGGER_SYSVIEW_GetSysDesc SendPacket_nested s)"
  unfolding SEGGER_SYSVIEW_GetSysDesc_def by (rule same_run_bind, erule send_same, erule send_desc_same)

lemma SendTaskInfo_same:
  "inner s \<Longrightarrow> same_run (SYSVIEW_SendTaskInfo send a n b c d s) (SYSVIEW_SendTaskInfo SendPacket_nested a n b c d s)"
  unfolding SYSVIEW_SendTaskInfo_def SEGGER_SYSVIEW_SendTaskInfo_def by (rule same_run_bind; erule send_same)

lemma cbSendTaskList_from_same:
  "inner s \<Longrightarrow> same_run (cbSendTaskList_from send k n s) (cbSendTaskList_from SendPacket_nested k n s)"
proof (induction k arbitrary: n s)
  case (Suc k)
  then show ?case by (auto simp: Let_def intro!: same_run_bind SendTaskInfo_same)
qed simp

lemma SendTaskList_same: "inner s \<Longrightarrow> same_run (SEGGER_SYSVIEW_SendTaskList send s) (SEGGER_SYSVIEW_SendTaskList SendPacket_nested s)"
  by (auto simp: SEGGER_SYSVIEW_SendTaskList_def cbSendTaskList_def split: option.splits os_api.splits intro!: cbSendTaskList_from_same)

lemma RecordSystime_same:
  "inner s \<Longrightarrow> same_run (SEGGER_SYSVIEW_RecordSystime send s) (SEGGER_SYSVIEW_RecordSystime SendPacket_nested s)"
  unfolding SEGGER_SYSVIEW_RecordSystime_def SEGGER_SYSVIEW_RecordU32x2_def SEGGER_SYSVIEW_RecordU32_def GET_TIMESTAMP_def
  by (auto split: option.splits os_api.splits intro!: send_same)

lemma send_descriptions_same: "inner s \<Longrightarrow> same_run (send_descriptions send n ds s) (send_descriptions SendPacket_nested n ds s)"
proof (induction ds arbitrary: s)
  case (Cons d ds)
  then show ?case by (auto simp: SEGGER_SYSVIEW_RecordModuleDescription_def intro!: same_run_bind send_same)
qed simp

lemma run_module_desc_same: "inner s \<Longrightarrow> same_run (run_module_desc send n s) (run_module_desc SendPacket_nested n s)"
  by (auto simp: run_module_desc_def split: option.splits intro: send_descriptions_same)

lemma SendModule_same: "inner s \<Longrightarrow> same_run (SEGGER_SYSVIEW_SendModule send m s) (SEGGER_SYSVIEW_SendModule SendPacket_nested m s)"
  by (auto simp: SEGGER_SYSVIEW_SendModule_def Let_def intro!: same_run_bind send_same run_module_desc_same)

lemma SendModuleDescription_same:
  "inner s \<Longrightarrow> same_run (SEGGER_SYSVIEW_SendModuleDescription send s) (SEGGER_SYSVIEW_SendModuleDescription SendPacket_nested s)"
proof -
  have "inner s \<Longrightarrow> same_run (SendModuleDescription_from send k n s) (SendModuleDescription_from SendPacket_nested k n s)" for k n
    by (induction k arbitrary: n s) (auto intro!: same_run_bind run_module_desc_same)
  then show "inner s \<Longrightarrow> ?thesis" by (simp add: SEGGER_SYSVIEW_SendModuleDescription_def)
qed

lemma SendNumModules_same:
  "inner s \<Longrightarrow> same_run (SEGGER_SYSVIEW_SendNumModules send s) (SEGGER_SYSVIEW_SendNumModules SendPacket_nested s)"
  unfolding SEGGER_SYSVIEW_SendNumModules_def by (rule send_same)

lemma Start_same:
  assumes "inner s"
  shows "same_run (SEGGER_SYSVIEW_Start send s) (SEGGER_SYSVIEW_Start SendPacket_nested s)"
proof (cases "SEGGER_RTT_WriteSkipNoLock (unat (UpChannel s)) abSync 10 (rtt s)")
  case None
  then show ?thesis by (simp add: SEGGER_SYSVIEW_Start_def)
next
  case (Some x)
  then obtain p st where p: "SEGGER_RTT_WriteSkipNoLock (unat (UpChannel s)) abSync 10 (rtt s) = Some (p, st)" by (cases x) auto
  then have "aDown p = aDown (rtt s)" unfolding SEGGER_RTT_WriteSkipNoLock_def by (rule on_up_same)
  then have "inner (s\<lparr>EnableState := 1, rtt := p\<rparr>)" using assms by (simp add: inner_def)
  then show ?thesis using p
    by (auto simp: SEGGER_SYSVIEW_Start_def SEGGER_SYSVIEW_RecordVoid_def
        intro!: same_run_bind send_same send_desc_same RecordSystime_same SendTaskList_same SendNumModules_same)
qed

lemma Stop_same: "inner s \<Longrightarrow> same_run (SEGGER_SYSVIEW_Stop send s) (SEGGER_SYSVIEW_Stop SendPacket_nested s)"
  by (auto simp: SEGGER_SYSVIEW_Stop_def intro!: same_run_bind send_same)

lemma HandleIncomingPacket_same:
  assumes "inner s"
  shows "HandleIncomingPacket send s = HandleIncomingPacket SendPacket_nested s"
proof (cases "read_command s")
  case (Some x)
  obtain s1 c where c: "read_command s = Some (s1, c)" using Some by (cases x) auto
  then have 1: "inner s1" by (rule read_command_inner [OF assms])
  have 2: "inner s2" if "read_command s1 = Some (s2, d)" for s2 d by (rule read_command_inner [OF 1 that])
  have e: "same_run x y \<Longrightarrow> x = y" for x y by (simp add: same_run_def)
  show ?thesis using c
    by (auto simp: HandleIncomingPacket_def e [OF Start_same [OF 1]] e [OF Stop_same [OF 1]] e [OF RecordSystime_same [OF 1]]
        e [OF SendTaskList_same [OF 1]] e [OF GetSysDesc_same [OF 1]] e [OF SendNumModules_same [OF 1]]
        e [OF SendModuleDescription_same [OF 1]] e [OF SendModule_same] split: option.splits
        intro!: bind_option_cong dest: 2)
qed (simp add: HandleIncomingPacket_def)

end

lemma SendPacket_depth_inner: "inner s \<Longrightarrow> SendPacket_depth (Suc n) p i s = SendPacket_nested p i s"
proof -
  assume s: "inner s"
  show ?thesis
  proof (cases "SendPacket_nested p i s")
    case (Some s')
    then have "inner s'" by (rule nested_inner [OF s])
    then show ?thesis using Some by (simp add: inner_def SEGGER_RTT_HasData_def)
  qed simp
qed

interpretation two_frames: reentrant "SendPacket_depth (Suc n)" for n
  by unfold_locales (rule SendPacket_depth_inner)

lemma SendPacket_depth_two:
  assumes "live t0 got s" "payload_ok i p"
  shows "SendPacket_depth (Suc (Suc n)) p i s = SendPacket p i s"
proof -
  obtain s' where s': "SendPacket_nested p i s = Some s'" "live t0 got s'"
    using nested_live [OF assms] by (auto simp: keeps_def)
  have "unat (DownChannel s') < length (aDown (rtt s'))" using live_ok [OF s'(2)] by (simp add: sv_ok_def)
  then have "inner (s'\<lparr>RecursionCnt := 1\<rparr>)" by (simp add: inner_def)
  from two_frames.HandleIncomingPacket_same [OF this, of n] show ?thesis
    using s'(1) unfolding SendPacket_depth.simps(2) [of "Suc n"] by (simp add: SendPacket_def poll_commands_def cong: if_cong)
qed

lemma SendPacket_RecursionCnt:
  assumes "SendPacket p i s = Some s'"
  shows "RecursionCnt s' = RecursionCnt s"
proof -
  from assms obtain s1 where 1: "SendPacket_nested p i s = Some s1" "poll_commands SendPacket_nested s1 = Some s'"
    by (auto simp: SendPacket_def bind_eq_Some_conv)
  have "RecursionCnt s1 = RecursionCnt s" using SendPacket_body_keeps 1(1) unfolding SendPacket_nested_def by blast
  moreover have "RecursionCnt s' = RecursionCnt s1"
    using 1(2) by (auto simp: poll_commands_def bind_eq_Some_conv split: if_splits)
  ultimately show ?thesis by simp
qed

text \<open>C25. The mutual recursion of \<open>_SendPacket\<close> and \<open>_HandleIncomingPacket\<close> ends: from every state the recorder can be in, whatever
  commands of the host are pending, sending a packet returns, never has more than two calls of \<open>_SendPacket\<close> on the
  stack, and leaves a decodable trace; the counter that guards the recursion is back where it was.\<close>
theorem SendPacket_two_frames:
  assumes "live t0 got s" "payload_ok i p" "2 \<le> frames"
  shows "\<exists>s'. SendPacket_depth frames p i s = Some s' \<and> live t0 got s' \<and> RecursionCnt s' = RecursionCnt s"
proof -
  obtain n where "frames = 2 + n" using assms(3) by (auto dest: le_Suc_ex)
  then have n: "frames = Suc (Suc n)" by simp
  from top.send_live [OF assms(1,2)] obtain s' where s': "SendPacket p i s = Some s'" "live t0 got s'"
    unfolding keeps_def by blast
  show ?thesis unfolding n SendPacket_depth_two [OF assms(1,2)]
    by (intro exI [of _ s'] conjI s' SendPacket_RecursionCnt [OF s'(1)])
qed

text \<open>With two commands waiting one frame is not enough: the handler of the first sends packets of its own.\<close>

definition two_commands :: sysview where
  "two_commands = host_commands [COMMAND_ID_START, COMMAND_ID_GET_SYSDESC] (SEGGER_SYSVIEW_Conf True (sv_boot (\<lambda>k. word_of_nat k) (\<lambda>_. 0) 0 0))"

lemma two_commands_eval:
  "SendPacket_depth 1 [] SYSVIEW_EVTID_IDLE two_commands = None" "contents (down two_commands) = [COMMAND_ID_START, COMMAND_ID_GET_SYSDESC]"
  by code_simp+

theorem SendPacket_two_frames_witness:
  "\<exists>s'. contents (down two_commands) \<noteq> [] \<and> SendPacket_depth 1 [] SYSVIEW_EVTID_IDLE two_commands = None
    \<and> SendPacket_depth 2 [] SYSVIEW_EVTID_IDLE two_commands = Some s' \<and> RecursionCnt s' = RecursionCnt two_commands"
proof -
  have l: "live 0 [] two_commands"
    using host_commands_live [OF conf_live [of "\<lambda>k. word_of_nat k" True "\<lambda>_. 0" 0 0], of "[COMMAND_ID_START, COMMAND_ID_GET_SYSDESC]"]
    by (simp add: two_commands_def)
  show ?thesis using SendPacket_two_frames [OF l, of SYSVIEW_EVTID_IDLE "[]" 2] two_commands_eval by auto
qed

end
