(* ===== verification/SysViewPrint.thy ===== *)
theory SysViewPrint
  imports SysViewLive RttPrintf
begin

text \<open>
  Formatted messages of the recorder (\<open>_VPrintHost\<close>, \<open>_VPrintTarget\<close> and the functions on top of them,
  src/lib/SEGGER/SEGGER_SYSVIEW.c). The host variant sends the format and the arguments, the target
  variant the finished text in pieces of 128 characters. A format is its characters before the
  terminator; \<open>args\<close> are the words the caller passes after it, and reading one it did not pass is a fault.
\<close>

subsection \<open>Formatting on the host (_VPrintHost)\<close>

text \<open>The loop that collects an argument for every percent sign, at most 16; \<open>n\<close> is \<open>NumArguments\<close>.\<close>

primrec host_args :: "nat \<Rightarrow> u8 list \<Rightarrow> u32 list \<Rightarrow> u32 list option" where
  "host_args n [] args = Some []"
| "host_args n (c # s) args =
     (if c = chr (CHR ''%'') then
        (case args of [] \<Rightarrow> None
         | a # as \<Rightarrow> if Suc n = SEGGER_SYSVIEW_MAX_ARGUMENTS then Some [a] else map_option (Cons a) (host_args (Suc n) s as))
      else host_args n s args)"

definition VPrintHost :: "sender \<Rightarrow> u8 list \<Rightarrow> u32 \<Rightarrow> u32 list \<Rightarrow> sysview \<Rightarrow> sysview option" where
  "VPrintHost send s Options args st = do {
     aParas \<leftarrow> host_args 0 s args;
     send (EncodeStr (Some s) SEGGER_SYSVIEW_MAX_STRING_LEN @ ENCODE_U32 Options @ ENCODE_U32 (word_of_nat (length aParas)) @
       concat (map ENCODE_U32 aParas)) SYSVIEW_EVTID_PRINT_FORMATTED st
   }"

definition SEGGER_SYSVIEW_PrintfHostEx :: "sender \<Rightarrow> u8 list \<Rightarrow> u32 \<Rightarrow> u32 list \<Rightarrow> sysview \<Rightarrow> sysview option" where
  "SEGGER_SYSVIEW_PrintfHostEx send s Options args st = VPrintHost send s Options args st"
definition SEGGER_SYSVIEW_VPrintfHostEx :: "sender \<Rightarrow> u8 list \<Rightarrow> u32 \<Rightarrow> u32 list \<Rightarrow> sysview \<Rightarrow> sysview option" where
  "SEGGER_SYSVIEW_VPrintfHostEx send s Options args st = VPrintHost send s Options args st"
definition SEGGER_SYSVIEW_PrintfHost :: "sender \<Rightarrow> u8 list \<Rightarrow> u32 list \<Rightarrow> sysview \<Rightarrow> sysview option" where
  "SEGGER_SYSVIEW_PrintfHost send s args st = VPrintHost send s SEGGER_SYSVIEW_LOG args st"
definition SEGGER_SYSVIEW_VPrintfHost :: "sender \<Rightarrow> u8 list \<Rightarrow> u32 list \<Rightarrow> sysview \<Rightarrow> sysview option" where
  "SEGGER_SYSVIEW_VPrintfHost send s args st = VPrintHost send s SEGGER_SYSVIEW_LOG args st"
definition SEGGER_SYSVIEW_WarnfHost :: "sender \<Rightarrow> u8 list \<Rightarrow> u32 list \<Rightarrow> sysview \<Rightarrow> sysview option" where
  "SEGGER_SYSVIEW_WarnfHost send s args st = VPrintHost send s SEGGER_SYSVIEW_WARNING args st"
definition SEGGER_SYSVIEW_VWarnfHost :: "sender \<Rightarrow> u8 list \<Rightarrow> u32 list \<Rightarrow> sysview \<Rightarrow> sysview option" where
  "SEGGER_SYSVIEW_VWarnfHost send s args st = VPrintHost send s SEGGER_SYSVIEW_WARNING args st"
definition SEGGER_SYSVIEW_ErrorfHost :: "sender \<Rightarrow> u8 list \<Rightarrow> u32 list \<Rightarrow> sysview \<Rightarrow> sysview option" where
  "SEGGER_SYSVIEW_ErrorfHost send s args st = VPrintHost send s SEGGER_SYSVIEW_ERROR args st"
definition SEGGER_SYSVIEW_VErrorfHost :: "sender \<Rightarrow> u8 list \<Rightarrow> u32 list \<Rightarrow> sysview \<Rightarrow> sysview option" where
  "SEGGER_SYSVIEW_VErrorfHost send s args st = VPrintHost send s SEGGER_SYSVIEW_ERROR args st"

subsection \<open>Formatting on the target (_VPrintTarget)\<close>

text \<open>\<open>SEGGER_SYSVIEW_PRINTF_DESC\<close>: \<open>sv_text\<close> are the \<open>Cnt\<close> characters behind the length byte.\<close>

record sv_desc =
  sv_text :: "u8 list"
  sv_options :: u32
  sv_state :: sysview

definition text_payload :: "u8 list \<Rightarrow> u32 \<Rightarrow> u8 list" where
  "text_payload t options = word_of_nat (length t) # t @ ENCODE_U32 options @ ENCODE_U32 0"

definition SysView_StoreChar :: "sender \<Rightarrow> sv_desc \<Rightarrow> u8 \<Rightarrow> sv_desc option" where
  "SysView_StoreChar send p c =
     (let p = (if length (sv_text p) + 1 \<le> SEGGER_SYSVIEW_MAX_STRING_LEN then p\<lparr>sv_text := sv_text p @ [c]\<rparr> else p) in
      if length (sv_text p) = SEGGER_SYSVIEW_MAX_STRING_LEN then do {
        st \<leftarrow> send (text_payload (sv_text p) (sv_options p)) SYSVIEW_EVTID_PRINT_FORMATTED (sv_state p);
        Some (p\<lparr>sv_text := [], sv_state := st\<rparr>)
      } else Some p)"

text \<open>
  The loop over \<open>l\<close> and \<open>h\<close>. It reads the character it has already got once more: the result is the
  character after the modifiers, and the rest of the format after that character, not at it;
  \<open>None\<close> when the pointer is past the terminator.
\<close>

primrec sv_skip_long :: "u8 list \<Rightarrow> u8 \<Rightarrow> u8 \<times> u8 list option" where
  "sv_skip_long [] c = (if is_long c then (0, None) else (c, Some []))"
| "sv_skip_long (x # s) c = (if is_long c then sv_skip_long s x else (c, Some (x # s)))"

definition sv_null_string :: "u8 list" where "sv_null_string = bytes_of ''(null)''"

text \<open>
  \<open>_PrintUnsigned\<close> and \<open>_PrintInt\<close> of SEGGER_SYSVIEW.c are, line by line, the functions of the same names
  in SEGGER_RTT_printf.c without the tests of \<open>ReturnValue\<close>, which \<open>ok = always\<close> removes.
\<close>

definition SysView_PrintUnsigned ::
  "('b \<Rightarrow> u8 \<Rightarrow> 'b option) \<Rightarrow> ('b \<Rightarrow> bool) \<Rightarrow> u32 \<Rightarrow> nat \<Rightarrow> u32 \<Rightarrow> u32 \<Rightarrow> u32 \<Rightarrow> 'b \<Rightarrow> 'b option" where
  "SysView_PrintUnsigned put ok v Base NumDigits FieldWidth FormatFlags d =
     PrintUnsigned put ok v Base NumDigits FieldWidth FormatFlags d"

definition SysView_PrintInt ::
  "('b \<Rightarrow> u8 \<Rightarrow> 'b option) \<Rightarrow> ('b \<Rightarrow> bool) \<Rightarrow> u32 \<Rightarrow> nat \<Rightarrow> u32 \<Rightarrow> u32 \<Rightarrow> u32 \<Rightarrow> 'b \<Rightarrow> 'b option" where
  "SysView_PrintInt put ok v Base NumDigits FieldWidth FormatFlags d = PrintInt put ok v Base NumDigits FieldWidth FormatFlags d"

definition sv_convert ::
  "('b \<Rightarrow> u8 \<Rightarrow> 'b option) \<Rightarrow> ('b \<Rightarrow> bool) \<Rightarrow> (u32 \<Rightarrow> u8 list option) \<Rightarrow> u8 \<Rightarrow> u32 \<Rightarrow> u32 \<Rightarrow> u32 \<Rightarrow> u32 list \<Rightarrow> 'b \<Rightarrow> ('b \<times> u32 list) option" where
  "sv_convert put ok mem c FormatFlags FieldWidth NumDigits args d =
     (if c = chr (CHR ''c'') then do { (v, args) \<leftarrow> va_arg args; d \<leftarrow> put d (ucast v); Some (d, args) }
      else if c = chr (CHR ''d'') then do {
        (v, args) \<leftarrow> va_arg args; d \<leftarrow> SysView_PrintInt put ok v 10 NumDigits FieldWidth FormatFlags d; Some (d, args) }
      else if c = chr (CHR ''u'') then do {
        (v, args) \<leftarrow> va_arg args; d \<leftarrow> SysView_PrintUnsigned put ok v 10 NumDigits FieldWidth FormatFlags d; Some (d, args) }
      else if c = chr (CHR ''x'') \<or> c = chr (CHR ''X'') then do {
        (v, args) \<leftarrow> va_arg args; d \<leftarrow> SysView_PrintUnsigned put ok v 16 NumDigits FieldWidth FormatFlags d; Some (d, args) }
      else if c = chr (CHR ''s'') then do {
        (v, args) \<leftarrow> va_arg args;
        s \<leftarrow> (if v = 0 then Some sv_null_string else mem v);
        d \<leftarrow> put_all put ok s d;
        Some (d, args) }
      else if c = chr (CHR ''p'') then do {
        (v, args) \<leftarrow> va_arg args; d \<leftarrow> SysView_PrintUnsigned put ok v 16 8 8 0 d; Some (d, args) }
      else if c = chr (CHR ''%'') then do { d \<leftarrow> put d (chr (CHR ''%'')); Some (d, args) }
      else Some (d, args))"

lemmas sv_convert_unfold = sv_convert_def SysView_PrintUnsigned_def SysView_PrintInt_def

text \<open>
  The loop over the format; \<open>while (*sFormat)\<close> after a conversion reads the character behind the one the
  pointer is moved over, which must not be the terminator. \<open>length s + 1\<close> rounds are enough.
\<close>

primrec VPrintTarget_loop ::
  "nat \<Rightarrow> ('b \<Rightarrow> u8 \<Rightarrow> 'b option) \<Rightarrow> ('b \<Rightarrow> bool) \<Rightarrow> (u32 \<Rightarrow> u8 list option) \<Rightarrow> u8 list \<Rightarrow> u32 list \<Rightarrow> 'b \<Rightarrow> 'b option" where
  "VPrintTarget_loop 0 put ok mem s args d = None"
| "VPrintTarget_loop (Suc n) put ok mem s args d = (case s of
     [] \<Rightarrow> Some d
   | c # s \<Rightarrow>
      if c = chr (CHR ''%'') then
        (case parse_flags s 0 of (FormatFlags, s) \<Rightarrow> (case parse_number s 0 of (FieldWidth, s) \<Rightarrow>
          (case (if s \<noteq> [] \<and> hd s = chr (CHR ''.'') then parse_number (tl s) 0 else (0, s)) of (NumDigits, s) \<Rightarrow>
            (case sv_skip_long s (if s = [] then 0 else hd s) of (c, rest) \<Rightarrow> do {
              (d, args) \<leftarrow> sv_convert put ok mem c FormatFlags FieldWidth NumDigits args d;
              case rest of None \<Rightarrow> None | Some [] \<Rightarrow> None
              | Some (_ # s) \<Rightarrow> VPrintTarget_loop n put ok mem s args d
            }))))
      else do { d \<leftarrow> put d c; VPrintTarget_loop n put ok mem s args d })"

definition VPrintTarget ::
  "sender \<Rightarrow> (u32 \<Rightarrow> u8 list option) \<Rightarrow> u8 list \<Rightarrow> u32 \<Rightarrow> u32 list \<Rightarrow> sysview \<Rightarrow> sysview option" where
  "VPrintTarget send mem s Options args st = do {
     d \<leftarrow> VPrintTarget_loop (Suc (length s)) (SysView_StoreChar send) always mem s args
       \<lparr>sv_text = [], sv_options = Options, sv_state = st\<rparr>;
     if sv_text d \<noteq> [] then send (text_payload (sv_text d) (sv_options d)) SYSVIEW_EVTID_PRINT_FORMATTED (sv_state d)
     else Some (sv_state d)
   }"

definition SEGGER_SYSVIEW_PrintfTargetEx ::
  "sender \<Rightarrow> (u32 \<Rightarrow> u8 list option) \<Rightarrow> u8 list \<Rightarrow> u32 \<Rightarrow> u32 list \<Rightarrow> sysview \<Rightarrow> sysview option" where
  "SEGGER_SYSVIEW_PrintfTargetEx send mem s Options args st = VPrintTarget send mem s Options args st"
definition SEGGER_SYSVIEW_VPrintfTargetEx ::
  "sender \<Rightarrow> (u32 \<Rightarrow> u8 list option) \<Rightarrow> u8 list \<Rightarrow> u32 \<Rightarrow> u32 list \<Rightarrow> sysview \<Rightarrow> sysview option" where
  "SEGGER_SYSVIEW_VPrintfTargetEx send mem s Options args st = VPrintTarget send mem s Options args st"
definition SEGGER_SYSVIEW_PrintfTarget ::
  "sender \<Rightarrow> (u32 \<Rightarrow> u8 list option) \<Rightarrow> u8 list \<Rightarrow> u32 list \<Rightarrow> sysview \<Rightarrow> sysview option" where
  "SEGGER_SYSVIEW_PrintfTarget send mem s args st = VPrintTarget send mem s SEGGER_SYSVIEW_LOG args st"
definition SEGGER_SYSVIEW_VPrintfTarget ::
  "sender \<Rightarrow> (u32 \<Rightarrow> u8 list option) \<Rightarrow> u8 list \<Rightarrow> u32 list \<Rightarrow> sysview \<Rightarrow> sysview option" where
  "SEGGER_SYSVIEW_VPrintfTarget send mem s args st = VPrintTarget send mem s SEGGER_SYSVIEW_LOG args st"
definition SEGGER_SYSVIEW_WarnfTarget ::
  "sender \<Rightarrow> (u32 \<Rightarrow> u8 list option) \<Rightarrow> u8 list \<Rightarrow> u32 list \<Rightarrow> sysview \<Rightarrow> sysview option" where
  "SEGGER_SYSVIEW_WarnfTarget send mem s args st = VPrintTarget send mem s SEGGER_SYSVIEW_WARNING args st"
definition SEGGER_SYSVIEW_VWarnfTarget ::
  "sender \<Rightarrow> (u32 \<Rightarrow> u8 list option) \<Rightarrow> u8 list \<Rightarrow> u32 list \<Rightarrow> sysview \<Rightarrow> sysview option" where
  "SEGGER_SYSVIEW_VWarnfTarget send mem s args st = VPrintTarget send mem s SEGGER_SYSVIEW_WARNING args st"
definition SEGGER_SYSVIEW_ErrorfTarget ::
  "sender \<Rightarrow> (u32 \<Rightarrow> u8 list option) \<Rightarrow> u8 list \<Rightarrow> u32 list \<Rightarrow> sysview \<Rightarrow> sysview option" where
  "SEGGER_SYSVIEW_ErrorfTarget send mem s args st = VPrintTarget send mem s SEGGER_SYSVIEW_ERROR args st"
definition SEGGER_SYSVIEW_VErrorfTarget ::
  "sender \<Rightarrow> (u32 \<Rightarrow> u8 list option) \<Rightarrow> u8 list \<Rightarrow> u32 list \<Rightarrow> sysview \<Rightarrow> sysview option" where
  "SEGGER_SYSVIEW_VErrorfTarget send mem s args st = VPrintTarget send mem s SEGGER_SYSVIEW_ERROR args st"

subsection \<open>The text and its pieces\<close>

definition target_text :: "(u32 \<Rightarrow> u8 list option) \<Rightarrow> u8 list \<Rightarrow> u32 list \<Rightarrow> u8 list option" where
  "target_text mem s args = VPrintTarget_loop (Suc (length s)) append_char always mem s args []"

context char_sink
begin

lemma follows_sv_convert:
  "follows2 R N (sv_convert append_char always mem c fl fw nd args) (sv_convert put ok mem c fl fw nd args)"
  unfolding sv_convert_unfold split_def
  by (intro follows2_if follows2_value follows_ret follows_put follows_PrintInt follows_PrintUnsigned follows_put_all follows_id)

lemma follows_VPrintTarget_loop:
  "follows R N (VPrintTarget_loop n append_char always mem s args) (VPrintTarget_loop n put ok mem s args)"
proof (induction n arbitrary: s args)
  case (Suc n)
  show ?case
  proof (cases s)
    case Nil
    then show ?thesis by (simp add: follows_def)
  next
    case (Cons c r)
    obtain fl s1 where 1: "parse_flags r 0 = (fl, s1)" by fastforce
    obtain fw s2 where 2: "parse_number s1 0 = (fw, s2)" by fastforce
    obtain nd s3 where 3: "(if s2 \<noteq> [] \<and> hd s2 = chr (CHR ''.'') then parse_number (tl s2) 0 else (0, s2)) = (nd, s3)" by fastforce
    obtain c' rest where 4: "sv_skip_long s3 (if s3 = [] then 0 else hd s3) = (c', rest)" by fastforce
    have rest: "follows R N (\<lambda>d. case rest of None \<Rightarrow> None | Some [] \<Rightarrow> None | Some (_ # s) \<Rightarrow> VPrintTarget_loop n append_char always mem s args' d)
      (\<lambda>d. case rest of None \<Rightarrow> None | Some [] \<Rightarrow> None | Some (_ # s) \<Rightarrow> VPrintTarget_loop n put ok mem s args' d)" for args'
      using Suc by (cases rest; cases "the rest") simp_all
    show ?thesis
      unfolding VPrintTarget_loop.simps Cons list.case 1 2 3 4 split
      by (intro follows_if follows2_bind follows_sv_convert rest follows_bind follows_put Suc)
  qed
qed (simp add: follows_def)

end

subsection \<open>Messages formatted on the host\<close>

definition percents :: "u8 list \<Rightarrow> nat" where
  "percents s = length (filter (\<lambda>c. c = chr (CHR ''%'')) s)"

lemma host_args_take:
  "n < 16 \<Longrightarrow> host_args n s args =
    (if min (16 - n) (percents s) \<le> length args then Some (take (min (16 - n) (percents s)) args) else None)"
proof (induction s arbitrary: n args)
  case (Cons c s)
  show ?case
  proof (cases "c = chr (CHR ''%'')")
    case True
    then have p: "percents (c # s) = Suc (percents s)" by (simp add: percents_def)
    show ?thesis
    proof (cases args)
      case Nil
      then show ?thesis using True p Cons.prems by simp
    next
      case (Cons a as)
      show ?thesis
      proof (cases "Suc n = 16")
        case True
        then have "16 - n = 1" by simp
        then show ?thesis using \<open>c = _\<close> p True Cons by (simp add: sv_sizes)
      next
        case False
        then have n: "Suc n < 16" "16 - n = Suc (16 - Suc n)" using Cons.prems by simp_all
        show ?thesis using \<open>c = _\<close> p Cons False Cons.IH [OF n(1), of as] unfolding n(2) by (simp add: sv_sizes)
      qed
    qed
  next
    case False
    then have "percents (c # s) = percents s" by (simp add: percents_def)
    then show ?thesis using False Cons by simp
  qed
qed (simp add: percents_def)

lemma length_concat_ENCODE: "length (concat (map ENCODE_U32 xs)) \<le> 5 * length xs"
proof (induction xs)
  case (Cons x xs)
  then show ?case using length_ENCODE [of x] by simp
qed simp

text \<open>The largest message fills the packet buffer to its last byte.\<close>

lemma host_payload_ok:
  assumes "length ps \<le> 16"
  shows "payload_ok SYSVIEW_EVTID_PRINT_FORMATTED (EncodeStr (Some s) SEGGER_SYSVIEW_MAX_STRING_LEN @ ENCODE_U32 Options @
    ENCODE_U32 (word_of_nat (length ps)) @ concat (map ENCODE_U32 ps))"
proof -
  have "word_of_nat (length ps) \<le> (0x7F :: u32)"
    using assms by (simp add: word_le_nat_alt unat_of_nat take_bit_nat_eq_self)
  then have "length (ENCODE_U32 (word_of_nat (length ps))) = 1" by (rule length_ENCODE_small)
  then show ?thesis
    using assms EncodeStr_bound [of "Some s" SEGGER_SYSVIEW_MAX_STRING_LEN] length_ENCODE [of Options] length_concat_ENCODE [of ps]
    by (simp add: payload_ok_def evtid_defs)
qed

lemma text_payload_ok: "length t \<le> 128 \<Longrightarrow> payload_ok SYSVIEW_EVTID_PRINT_FORMATTED (text_payload t Options)"
  using length_ENCODE [of Options] length_ENCODE [of 0] by (simp add: payload_ok_def evtid_defs text_payload_def)

subsection \<open>Messages formatted on the target\<close>

function pieces :: "u8 list \<Rightarrow> u8 list list" where
  "pieces t = (if t = [] then [] else take 128 t # pieces (drop 128 t))"
  by auto
termination by (relation "measure length") simp_all

declare pieces.simps [simp del]

lemma pieces_append: "\<forall>p\<in>set ps. length p = 128 \<Longrightarrow> pieces (concat ps @ r) = ps @ pieces r"
proof (induction ps)
  case (Cons p ps)
  then have "p \<noteq> []" by auto
  then show ?case using Cons by (simp add: pieces.simps [of "p @ concat ps @ r"])
qed simp

lemma pieces_small: "length r \<le> 128 \<Longrightarrow> pieces r = (if r = [] then [] else [r])"
  by (simp add: pieces.simps [of r] pieces.simps [of "[]"])

primrec send_messages :: "sender \<Rightarrow> u32 \<Rightarrow> u8 list list \<Rightarrow> sysview \<Rightarrow> sysview option" where
  "send_messages send Options [] st = Some st"
| "send_messages send Options (t # ts) st = do {
     st \<leftarrow> send (text_payload t Options) SYSVIEW_EVTID_PRINT_FORMATTED st;
     send_messages send Options ts st
   }"

lemma send_messages_append:
  "send_messages send Options (ts @ us) st = Option.bind (send_messages send Options ts st) (send_messages send Options us)"
proof (induction ts arbitrary: st)
  case (Cons t ts)
  then show ?case by (cases "send (text_payload t Options) SYSVIEW_EVTID_PRINT_FORMATTED st") simp_all
qed simp

text \<open>The messages sent and the characters collected are the text so far.\<close>

definition sv_printed :: "sender \<Rightarrow> u32 \<Rightarrow> u8 list \<Rightarrow> u32 \<Rightarrow> sysview \<Rightarrow> sv_desc \<Rightarrow> u8 list \<Rightarrow> bool" where
  "sv_printed send t0 got Options st d xs \<longleftrightarrow> sv_options d = Options \<and> live t0 got (sv_state d) \<and> length (sv_text d) < 128 \<and>
     (\<exists>ps. (\<forall>p\<in>set ps. length p = 128) \<and> concat ps @ sv_text d = xs \<and> send_messages send Options ps st = Some (sv_state d))"

context packet_sender
begin

lemma VPrintHost_live:
  assumes "live t0 got st"
  shows "if min 16 (percents s) \<le> length args then keeps t0 got st (VPrintHost send s Options args st)
    else VPrintHost send s Options args st = None"
proof -
  define ps where "ps = take (min 16 (percents s)) args"
  have "length ps \<le> 16" by (simp add: ps_def)
  from send_live [OF assms host_payload_ok [OF this, of s Options]] show ?thesis
    using host_args_take [of 0 s args] by (simp add: VPrintHost_def flip: ps_def)
qed

lemma sv_printed_put:
  assumes "sv_printed send t0 got Options st d xs"
  shows "\<exists>d'. SysView_StoreChar send d c = Some d' \<and> sv_printed send t0 got Options st d' (xs @ [c])"
proof -
  from assms obtain ps where P: "sv_options d = Options" "live t0 got (sv_state d)" "length (sv_text d) < 128"
    "\<forall>p\<in>set ps. length p = 128" "concat ps @ sv_text d = xs" "send_messages send Options ps st = Some (sv_state d)"
    unfolding sv_printed_def by blast
  define t where "t = sv_text d @ [c]"
  show ?thesis
  proof (cases "length t = 128")
    case False
    then have "SysView_StoreChar send d c = Some (d\<lparr>sv_text := t\<rparr>)" using P(3) by (simp add: SysView_StoreChar_def sv_sizes t_def)
    moreover have "sv_printed send t0 got Options st (d\<lparr>sv_text := t\<rparr>) (xs @ [c])"
      using False P unfolding sv_printed_def by (auto simp: t_def)
    ultimately show ?thesis by blast
  next
    case True
    have ok: "payload_ok SYSVIEW_EVTID_PRINT_FORMATTED (text_payload t Options)" using True by (simp add: text_payload_ok)
    obtain st' where st': "send (text_payload t Options) SYSVIEW_EVTID_PRINT_FORMATTED (sv_state d) = Some st'" "live t0 got st'"
      using send_live [OF P(2) ok] by (auto simp: keeps_def)
    have "SysView_StoreChar send d c = Some (d\<lparr>sv_text := [], sv_state := st'\<rparr>)"
      using True P(1) st'(1) by (simp add: SysView_StoreChar_def sv_sizes t_def)
    moreover have "send_messages send Options (ps @ [t]) st = Some st'" using P(6) st'(1) by (simp add: send_messages_append)
    then have "sv_printed send t0 got Options st (d\<lparr>sv_text := [], sv_state := st'\<rparr>) (xs @ [c])"
      unfolding sv_printed_def using P(1,4,5) st'(2) True by (auto simp: t_def intro!: exI [of _ "ps @ [t]"])
    ultimately show ?thesis by blast
  qed
qed

end

sublocale packet_sender \<subseteq> target: char_sink "SysView_StoreChar send" always "sv_printed send t0 got Options st" N
  for t0 got Options st N
  by unfold_locales (simp_all add: always_def sv_printed_put)

context packet_sender
begin

lemma VPrintTarget_sends:
  assumes l: "live t0 got st" and t: "target_text mem s args = Some t"
  shows "VPrintTarget send mem s Options args st = send_messages send Options (pieces t) st \<and>
    (\<exists>st'. send_messages send Options (pieces t) st = Some st' \<and> live t0 got st')"
proof -
  have "sv_printed send t0 got Options st \<lparr>sv_text = [], sv_options = Options, sv_state = st\<rparr> []"
    using l by (auto simp: sv_printed_def intro!: exI [of _ "[]"])
  from followsD [OF target.follows_VPrintTarget_loop t [unfolded target_text_def] this order_refl] obtain d where
    d: "VPrintTarget_loop (Suc (length s)) (SysView_StoreChar send) always mem s args
      \<lparr>sv_text = [], sv_options = Options, sv_state = st\<rparr> = Some d" "sv_printed send t0 got Options st d t" by blast
  from d(2) obtain ps where P: "sv_options d = Options" "live t0 got (sv_state d)" "length (sv_text d) < 128"
    "\<forall>p\<in>set ps. length p = 128" "concat ps @ sv_text d = t" "send_messages send Options ps st = Some (sv_state d)"
    unfolding sv_printed_def by blast
  have pc: "pieces t = ps @ (if sv_text d = [] then [] else [sv_text d])"
    using pieces_append [OF P(4), of "sv_text d"] P(3,5) pieces_small [of "sv_text d"] by simp
  have ok: "payload_ok SYSVIEW_EVTID_PRINT_FORMATTED (text_payload (sv_text d) Options)" using P(3) by (simp add: text_payload_ok)
  obtain st' where st': "send (text_payload (sv_text d) Options) SYSVIEW_EVTID_PRINT_FORMATTED (sv_state d) = Some st'" "live t0 got st'"
    using send_live [OF P(2) ok] by (auto simp: keeps_def)
  show ?thesis using d(1) P(1,2,6) st' pc by (cases "sv_text d = []") (simp_all add: VPrintTarget_def send_messages_append)
qed

end

subsection \<open>Properties\<close>

text \<open>\<open>_VPrintHost\<close> is safe exactly when the caller passes an argument for every percent sign of the format, counted
  up to 16 and counting both signs of \<open>%%\<close>: it then never runs over the packet buffer, whatever the format and
  the arguments are, and the trace stays decodable; with fewer arguments it reads some that do not exist.\<close>
theorem SYSVIEW_PrintfHost_safe:
  assumes "live t0 got st"
  shows "(\<exists>st'. VPrintHost SendPacket s Options args st = Some st' \<and> live t0 got st') \<longleftrightarrow> min 16 (percents s) \<le> length args"
  using top.VPrintHost_live [OF assms, of s args Options] by (auto simp: keeps_def split: if_splits)

theorem SYSVIEW_PrintfHost_safe_witness:
  "(\<exists>st'. VPrintHost SendPacket (bytes_of ''%d of %u'') 0 [1, 2] (SEGGER_SYSVIEW_Conf True (sv_boot (\<lambda>k. word_of_nat k) (\<lambda>_. 0) 0 0)) = Some st' \<and>
     live 0 [] st') \<and>
   \<not> (\<exists>st'. VPrintHost SendPacket (bytes_of ''100%'') 0 [] (SEGGER_SYSVIEW_Conf True (sv_boot (\<lambda>k. word_of_nat k) (\<lambda>_. 0) 0 0)) = Some st' \<and>
     live 0 [] st')"
proof -
  have l: "live 0 [] (SEGGER_SYSVIEW_Conf True (sv_boot (\<lambda>k. word_of_nat k) (\<lambda>_. 0) 0 0))"
    using conf_live [of "\<lambda>k. word_of_nat k"] by simp
  have p: "percents (bytes_of ''%d of %u'') = 2" "percents (bytes_of ''100%'') = 1" by code_simp+
  show ?thesis unfolding SYSVIEW_PrintfHost_safe [OF l] p by simp
qed

text \<open>C33. \<open>_VPrintTarget\<close> sends the formatted text as messages of 128 characters and a last shorter one, nothing
  missing and nothing twice, and none for an empty text.\<close>
theorem SYSVIEW_PrintfTarget_pieces:
  assumes "live t0 got st" "target_text mem s args = Some t"
  shows "\<exists>st'. VPrintTarget SendPacket mem s Options args st = Some st' \<and> live t0 got st' \<and>
    send_messages SendPacket Options (pieces t) st = Some st' \<and> concat (pieces t) = t"
proof -
  have "concat (pieces t) = t"
    by (induction t rule: pieces.induct) (subst pieces.simps, simp add: append_take_drop_id)
  then show ?thesis using top.VPrintTarget_sends [OF assms, of Options] by auto
qed

theorem SYSVIEW_PrintfTarget_pieces_witness:
  "\<exists>st'. VPrintTarget SendPacket (\<lambda>_. None) (bytes_of ''n=%u'') 0 [42] (SEGGER_SYSVIEW_Conf True (sv_boot (\<lambda>k. word_of_nat k) (\<lambda>_. 0) 0 0)) =
      Some st' \<and> concat (pieces (bytes_of ''n=42'')) = bytes_of ''n=42''"
proof -
  have l: "live 0 [] (SEGGER_SYSVIEW_Conf True (sv_boot (\<lambda>k. word_of_nat k) (\<lambda>_. 0) 0 0))"
    using conf_live [of "\<lambda>k. word_of_nat k"] by simp
  have t: "target_text (\<lambda>_. None) (bytes_of ''n=%u'') [42] = Some (bytes_of ''n=42'')" by code_simp
  show ?thesis using SYSVIEW_PrintfTarget_pieces [OF l t, of 0] by blast
qed

text \<open>The length modifiers \<open>l\<close> and \<open>h\<close>, which the RTT version skips correctly, make the recorder's version
  lose the character after the conversion, and read past the end of the format when there is none.\<close>
theorem SYSVIEW_long_modifier_skips:
  "\<exists>t. format_text mem (bytes_of ''%lu C'') [v] = Some (t @ bytes_of '' C'') \<and>
    target_text mem (bytes_of ''%lu C'') [v] = Some (t @ bytes_of ''C'') \<and>
    format_text mem (bytes_of ''%lu'') [v] = Some t \<and> target_text mem (bytes_of ''%lu'') [v] = None"
proof -
  define t where "t = unsigned_text v 10 0 0 0"
  have U: "PrintUnsigned append_char always v 10 0 0 0 xs = Some (xs @ t)" for xs
    using PrintUnsigned_text [of 10 0 v 0 0 xs] by (simp add: t_def)
  have "format_text mem (bytes_of ''%lu C'') [v] = Some (t @ bytes_of '' C'')"
    "target_text mem (bytes_of ''%lu C'') [v] = Some (t @ bytes_of ''C'')"
    "format_text mem (bytes_of ''%lu'') [v] = Some t" "target_text mem (bytes_of ''%lu'') [v] = None"
    by (simp_all add: format_text_def target_text_def bytes_of_def chr_def parse_precision_def skip_long_def is_long_def is_digit_def
        convert_def sv_convert_unfold va_arg_def always_def append_char_def U)
  then show ?thesis by blast
qed

end
