(* ===== verification/SysViewApp.thy ===== *)
theory SysViewApp
  imports SysViewLive
begin

text \<open>
  Packets whose size the application decides: the registration of a data series
  (\<open>SEGGER_SYSVIEW_RegisterData\<close>), which holds two strings in a packet buffer that has room for one.
\<close>

subsection \<open>Sizes\<close>

definition text_length :: "u8 list option \<Rightarrow> nat" where
  "text_length t = (case t of None \<Rightarrow> 0 | Some s \<Rightarrow> min 128 (length s))"

lemma EncodeStr_length: "length (EncodeStr t SEGGER_SYSVIEW_MAX_STRING_LEN) = 1 + text_length t"
  by (cases t) (simp_all add: EncodeStr_def text_length_def sv_sizes Let_def)

lemma ENCODE_at_least: "1 \<le> length (ENCODE_U32 v)"
  by (simp add: ENCODE_U32.simps [of v])

lemma register_payload_length:
  "length (register_payload i) \<le> (if dr_sUnit i = None then 165 else 33 + text_length (dr_sName i) + text_length (dr_sUnit i))"
  "dr_sUnit i \<noteq> None \<Longrightarrow> 9 + text_length (dr_sName i) + text_length (dr_sUnit i) \<le> length (register_payload i)"
proof -
  have k: "length (ENCODE_U32 SYSVIEW_EVTID_EX_REGISTER_DATA) = 1"
    by (rule length_ENCODE_small) (simp add: SYSVIEW_EVTID_EX_REGISTER_DATA_def)
  note b = length_ENCODE [of "dr_ID i"] length_ENCODE [of "dr_DataType i"] length_ENCODE [of "dr_Offset i"]
    length_ENCODE [of "dr_RangeMin i"] length_ENCODE [of "dr_RangeMax i"] length_ENCODE [of "dr_ScalingFactor i"]
  note c = ENCODE_at_least [of "dr_ID i"] ENCODE_at_least [of "dr_DataType i"] ENCODE_at_least [of "dr_Offset i"]
    ENCODE_at_least [of "dr_RangeMin i"] ENCODE_at_least [of "dr_RangeMax i"] ENCODE_at_least [of "dr_ScalingFactor i"]
  have t: "text_length (dr_sName i) \<le> 128" by (simp add: text_length_def split: option.split)
  show "length (register_payload i) \<le> (if dr_sUnit i = None then 165 else 33 + text_length (dr_sName i) + text_length (dr_sUnit i))"
    using b k t by (simp add: register_payload_def Let_def EncodeStr_length EncodeFloat_def)
  show "dr_sUnit i \<noteq> None \<Longrightarrow> 9 + text_length (dr_sName i) + text_length (dr_sUnit i) \<le> length (register_payload i)"
    using c k by (simp add: register_payload_def Let_def EncodeStr_length EncodeFloat_def)
qed

subsection \<open>Properties\<close>

text \<open>C7. A data series whose name and unit have together at most 182 characters, or that has no unit, is registered
  without a fault and leaves the trace decodable. With 212 characters or more, within the limit of 128 each, the
  packet is written past the end of its buffer of 227 bytes, even while nothing is recorded. (In between it depends
  on the lengths of the encoded numbers.)\<close>
theorem SYSVIEW_RegisterData_limits:
  assumes "live t0 got s"
  shows "(dr_sUnit i = None \<or> text_length (dr_sName i) + text_length (dr_sUnit i) \<le> 182 \<longrightarrow>
      (\<exists>s'. SEGGER_SYSVIEW_RegisterData SendPacket i s = Some s' \<and> live t0 got s')) \<and>
    (dr_sUnit i \<noteq> None \<and> 212 \<le> text_length (dr_sName i) + text_length (dr_sUnit i) \<longrightarrow>
      SEGGER_SYSVIEW_RegisterData SendPacket i s = None)"
proof (intro conjI impI)
  assume "dr_sUnit i = None \<or> text_length (dr_sName i) + text_length (dr_sUnit i) \<le> 182"
  then have "length (register_payload i) \<le> 215" using register_payload_length(1) [of i] by (auto split: if_splits)
  then have "payload_ok SYSVIEW_EVTID_EX (register_payload i)" by (simp add: payload_small SYSVIEW_EVTID_EX_def)
  from top.send_live [OF assms this] show "\<exists>s'. SEGGER_SYSVIEW_RegisterData SendPacket i s = Some s' \<and> live t0 got s'"
    by (auto simp: SEGGER_SYSVIEW_RegisterData_def keeps_def)
next
  assume "dr_sUnit i \<noteq> None \<and> 212 \<le> text_length (dr_sName i) + text_length (dr_sUnit i)"
  then have "221 \<le> length (register_payload i)" using register_payload_length(2) [of i] by simp
  then show "SEGGER_SYSVIEW_RegisterData SendPacket i s = None"
    by (simp add: SEGGER_SYSVIEW_RegisterData_def SendPacket_def SendPacket_nested_def SendPacket_body_def sv_sizes)
qed

theorem SYSVIEW_RegisterData_limits_witness:
  "let series = (\<lambda>n. \<lparr>dr_ID = 1, dr_DataType = 0, dr_Offset = 0, dr_RangeMin = 0, dr_RangeMax = 100, dr_ScalingFactor = 0,
         dr_sName = Some (replicate n 65), dr_sUnit = Some (replicate n 66)\<rparr>);
       s = SEGGER_SYSVIEW_Conf True (sv_boot (\<lambda>k. 0) (\<lambda>_. 0) 0 0) in
   (\<exists>s'. SEGGER_SYSVIEW_RegisterData SendPacket (series 90) s = Some s' \<and> live 0 [] s') \<and>
   SEGGER_SYSVIEW_RegisterData SendPacket (series 110) s = None"
proof -
  note l = SYSVIEW_RegisterData_limits [OF conf_live [of "\<lambda>k. 0" True "\<lambda>_. 0" 0 0]]
  show ?thesis unfolding Let_def
    by (intro conjI; (rule l [THEN conjunct1, THEN mp] | rule l [THEN conjunct2, THEN mp])) (simp_all add: text_length_def)
qed

end
