(* ===== verification/SysViewTasks.thy ===== *)
theory SysViewTasks
  imports SysViewLive
begin

text \<open>
  The task list of the FreeRTOS glue (\<open>SYSVIEW_AddTask\<close>, \<open>SYSVIEW_UpdateTask\<close> and \<open>SYSVIEW_DeleteTask\<close> of
  src/lib/SEGGER/FreeRTOSV11/SEGGER_SYSVIEW_FreeRTOS.c): an array whose used part is unordered. Its
  specification is a finite map from handles.
\<close>

subsection \<open>The map behind the array\<close>

text \<open>The used part of the array.\<close>

definition tasks :: "sysview \<Rightarrow> task_status list" where
  "tasks s = take (NumTasks s) (aTasks s)"

definition task_map :: "sysview \<Rightarrow> u32 \<rightharpoonup> u8 list option \<times> u32 \<times> u32" where
  "task_map s = map_of (map task_ident (tasks s))"

definition tasks_ok :: "sysview \<Rightarrow> bool" where
  "tasks_ok s \<longleftrightarrow> distinct (map xHandle (tasks s))"

text \<open>What the three operations do to the map.\<close>

definition map_add_task :: "u32 \<Rightarrow> u8 list \<Rightarrow> u32 \<Rightarrow> u32 \<Rightarrow> (u32 \<rightharpoonup> u8 list option \<times> u32 \<times> u32) \<Rightarrow> (u32 \<rightharpoonup> u8 list option \<times> u32 \<times> u32)" where
  "map_add_task h name prio stack M = (if is_idle name \<or> 8 \<le> card (dom M) then M else M(h \<mapsto> (Some name, prio, stack)))"

definition map_update_task :: "u32 \<Rightarrow> u8 list \<Rightarrow> u32 \<Rightarrow> u32 \<Rightarrow> (u32 \<rightharpoonup> u8 list option \<times> u32 \<times> u32) \<Rightarrow> (u32 \<rightharpoonup> u8 list option \<times> u32 \<times> u32)" where
  "map_update_task h name prio stack M =
     (if is_idle name then M else if h \<in> dom M then M(h \<mapsto> (Some name, prio, stack)) else map_add_task h name prio stack M)"

lemma fst_ident: "map fst (map task_ident ts) = map xHandle ts"
  by (simp add: task_ident_def)

lemma dom_task_map: "dom (task_map s) = xHandle ` set (tasks s)"
  unfolding task_map_def dom_map_of_conv_image_fst by (simp add: image_image task_ident_def)

lemma length_tasks: "NumTasks s \<le> length (aTasks s) \<Longrightarrow> length (tasks s) = NumTasks s"
  by (simp add: tasks_def)

lemma card_task_map: "tasks_ok s \<Longrightarrow> NumTasks s \<le> length (aTasks s) \<Longrightarrow> card (dom (task_map s)) = NumTasks s"
proof -
  assume d: "tasks_ok s" and n: "NumTasks s \<le> length (aTasks s)"
  have "card (set (map xHandle (tasks s))) = length (map xHandle (tasks s))"
    using d unfolding tasks_ok_def by (rule distinct_card)
  then show "card (dom (task_map s)) = NumTasks s" using length_tasks [OF n] by (simp add: dom_task_map)
qed

lemma stable_tasks: "stable s s' \<Longrightarrow> task_map s' = task_map s \<and> tasks_ok s' = tasks_ok s"
proof -
  assume st: "stable s s'"
  then have m: "map task_ident (tasks s') = map task_ident (tasks s)"
    unfolding stable_def tasks_def by (metis take_map)
  have "map xHandle (tasks s') = map xHandle (tasks s)" using m by (metis fst_ident)
  then show "task_map s' = task_map s \<and> tasks_ok s' = tasks_ok s" by (simp only: task_map_def tasks_ok_def m)
qed

text \<open>The search for a handle.\<close>

lemma find_task_spec:
  assumes "NumTasks s \<le> length (aTasks s)"
  shows "find_task h s < NumTasks s \<longleftrightarrow> h \<in> dom (task_map s)"
    "find_task h s < NumTasks s \<Longrightarrow> xHandle (tasks s ! find_task h s) = h"
proof -
  have f: "find_task h s = length (takeWhile (\<lambda>t. xHandle t \<noteq> h) (tasks s))" by (simp add: find_task_def tasks_def)
  have l: "length (tasks s) = NumTasks s" by (rule length_tasks [OF assms])
  show "find_task h s < NumTasks s \<longleftrightarrow> h \<in> dom (task_map s)"
  proof
    assume "find_task h s < NumTasks s"
    then have "xHandle (tasks s ! find_task h s) = h" "find_task h s < length (tasks s)"
      using nth_length_takeWhile [of "\<lambda>t. xHandle t \<noteq> h" "tasks s"] l unfolding f by auto
    then show "h \<in> dom (task_map s)" unfolding dom_task_map by (metis image_eqI nth_mem)
  next
    assume "h \<in> dom (task_map s)"
    then have "takeWhile (\<lambda>t. xHandle t \<noteq> h) (tasks s) \<noteq> tasks s"
      unfolding dom_task_map by (auto simp: takeWhile_eq_all_conv)
    then show "find_task h s < NumTasks s"
      unfolding f l [symmetric] by (metis length_takeWhile_le nat_less_le takeWhile_eq_take take_all_iff)
  qed
  show "find_task h s < NumTasks s \<Longrightarrow> xHandle (tasks s ! find_task h s) = h"
    using nth_length_takeWhile [of "\<lambda>t. xHandle t \<noteq> h" "tasks s"] l unfolding f by auto
qed

subsection \<open>The operations on the array\<close>

lemma task_map_iff: "tasks_ok s \<Longrightarrow> task_map s h = Some v \<longleftrightarrow> (h, v) \<in> task_ident ` set (tasks s)"
proof -
  assume "tasks_ok s"
  then have d: "distinct (map fst (map task_ident (tasks s)))" by (simp only: tasks_ok_def fst_ident)
  have "task_map s h = Some v \<longleftrightarrow> (h, v) \<in> set (map task_ident (tasks s))"
    unfolding task_map_def by (rule map_of_eq_Some_iff [OF d])
  then show ?thesis by simp
qed

lemma task_map_eqI:
  assumes "tasks_ok s" "\<And>h v. M h = Some v \<longleftrightarrow> (h, v) \<in> task_ident ` set (tasks s)"
  shows "task_map s = M"
proof (rule ext)
  fix h
  have "task_map s h = Some v \<longleftrightarrow> M h = Some v" for v using task_map_iff [OF assms(1)] assms(2) by blast
  then show "task_map s h = M h" by (cases "task_map s h"; cases "M h") (metis option.distinct(1))+
qed

lemma add_entry:
  assumes n: "NumTasks s < length (aTasks s)" and d: "tasks_ok s" "xHandle t \<notin> dom (task_map s)"
  defines "s' \<equiv> s\<lparr>aTasks := (aTasks s)[NumTasks s := t], NumTasks := NumTasks s + 1\<rparr>"
  shows "tasks_ok s' \<and> task_map s' = (task_map s)(xHandle t \<mapsto> snd (task_ident t))"
proof -
  have ts: "tasks s' = tasks s @ [t]" using n by (simp add: tasks_def s'_def take_Suc_conv_app_nth)
  have new: "xHandle t \<notin> xHandle ` set (tasks s)" using d(2) by (simp add: dom_task_map)
  then have ok: "tasks_ok s'" using d(1) by (simp add: tasks_ok_def ts)
  have "task_map s' = (task_map s)(xHandle t \<mapsto> snd (task_ident t))"
    by (rule task_map_eqI [OF ok]) (use new in \<open>auto simp: ts task_map_iff [OF d(1)] task_ident_def image_iff\<close>)
  with ok show ?thesis by simp
qed

lemma replace_entry:
  assumes n: "NumTasks s \<le> length (aTasks s)" "k < NumTasks s" and d: "tasks_ok s" and h: "xHandle t = xHandle (tasks s ! k)"
  defines "s' \<equiv> s\<lparr>aTasks := (aTasks s)[k := t]\<rparr>"
  shows "tasks_ok s' \<and> task_map s' = (task_map s)(xHandle t \<mapsto> snd (task_ident t))"
proof -
  have k: "k < length (tasks s)" using n length_tasks by simp
  have ts: "tasks s' = (tasks s)[k := t]" using n by (simp add: tasks_def s'_def take_update_swap)
  then have "map xHandle (tasks s') = map xHandle (tasks s)"
    using k h by (simp add: map_update) (metis list_update_id map_update nth_map)
  then have ok: "tasks_ok s'" using d by (simp add: tasks_ok_def)
  define as bs where "as = take k (tasks s)" and "bs = drop (Suc k) (tasks s)"
  have split: "tasks s = as @ tasks s ! k # bs" "tasks s' = as @ t # bs"
    using k by (simp_all add: as_def bs_def id_take_nth_drop ts upd_conv_take_nth_drop)
  have u: "xHandle t \<notin> xHandle ` set (as @ bs)"
    using d h unfolding tasks_ok_def by (subst (asm) split(1)) auto
  have "task_map s' = (task_map s)(xHandle t \<mapsto> snd (task_ident t))"
  proof (rule task_map_eqI [OF ok])
    fix x v
    have "set (tasks s) = insert (tasks s ! k) (set (as @ bs))" "set (tasks s') = insert t (set (as @ bs))"
      by (subst split(1), simp) (simp add: split(2))
    then show "((task_map s)(xHandle t \<mapsto> snd (task_ident t))) x = Some v \<longleftrightarrow> (x, v) \<in> task_ident ` set (tasks s')"
      using u h by (auto simp: task_map_iff [OF d] task_ident_def image_iff)
  qed
  with ok show ?thesis by simp
qed

lemma remove_entry:
  assumes d: "tasks_ok s" "tasks_ok s'" and e: "set (tasks s') = set (tasks s) - {t}" "t \<in> set (tasks s)"
  shows "task_map s' = (task_map s)(xHandle t := None)"
proof (rule task_map_eqI [OF d(2)])
  fix h v
  have "inj_on xHandle (set (tasks s))" using d(1) by (simp add: tasks_ok_def distinct_map)
  then have "u \<in> set (tasks s) \<Longrightarrow> xHandle u = xHandle t \<Longrightarrow> u = t" for u using e(2) by (auto dest: inj_onD)
  then show "((task_map s)(xHandle t := None)) h = Some v \<longleftrightarrow> (h, v) \<in> task_ident ` set (tasks s')"
    unfolding e(1) by (auto simp: task_map_iff [OF d(1)] task_ident_def image_iff)
qed

lemma DeleteTask_map:
  assumes n: "NumTasks s \<le> length (aTasks s)" and d: "tasks_ok s"
  shows "tasks_ok (SYSVIEW_DeleteTask h s) \<and> task_map (SYSVIEW_DeleteTask h s) = (task_map s)(h := None)"
proof (cases "h \<in> dom (task_map s)")
  case False
  then have "\<not> find_task h s < NumTasks s" using find_task_spec(1) [OF n] by simp
  then have "SYSVIEW_DeleteTask h s = s" by (auto simp: SYSVIEW_DeleteTask_def Let_def)
  then show ?thesis using False d by (auto simp: fun_upd_idem_iff)
next
  case True
  define k where "k = find_task h s"
  define s' where "s' = SYSVIEW_DeleteTask h s"
  have k: "k < NumTasks s" "xHandle (tasks s ! k) = h" using True find_task_spec [OF n] by (simp_all add: k_def)
  have l: "length (tasks s) = NumTasks s" by (rule length_tasks [OF n])
  obtain bt la where bt: "tasks s = bt @ [la]" using k(1) l by (cases "tasks s" rule: rev_cases) auto
  then have lb: "length bt = NumTasks s - 1" using l by simp
  have ts': "tasks s' = (if k = NumTasks s - 1 then bt else bt[k := la])"
  proof -
    have 1: "take (NumTasks s - 1) (aTasks s) = bt" using bt by (metis lb butlast_snoc butlast_take n tasks_def)
    have 2: "aTasks s ! (NumTasks s - 1) = la"
      using bt lb k(1) by (metis One_nat_def Suc_pred diff_less gr_zeroI less_nat_zero_code nth_append_length nth_take tasks_def zero_less_one)
    show ?thesis using k(1) 1 2 unfolding s'_def SYSVIEW_DeleteTask_def Let_def k_def [symmetric]
      by (auto simp: tasks_def take_update_swap list_update_beyond)
  qed
  have dis: "distinct (map xHandle (bt @ [la]))" using d bt by (simp add: tasks_ok_def)
  have "tasks_ok s' \<and> set (tasks s') = set (tasks s) - {tasks s ! k} \<and> tasks s ! k \<in> set (tasks s)"
  proof (cases "k = NumTasks s - 1")
    case True
    then have "tasks s ! k = la" unfolding bt True lb [symmetric] by simp
    then show ?thesis using dis ts' True bt by (auto simp: tasks_ok_def)
  next
    case False
    then have kb: "k < length bt" using k(1) lb by simp
    define as cs where "as = take k bt" and "cs = drop (Suc k) bt"
    define t where "t = bt ! k"
    have t: "tasks s ! k = t" using kb bt by (simp add: t_def nth_append)
    have sp: "bt = as @ t # cs" "bt[k := la] = as @ la # cs"
      using kb by (simp_all add: as_def cs_def t_def id_take_nth_drop upd_conv_take_nth_drop)
    have e: "tasks s = as @ t # cs @ [la]" "tasks s' = as @ la # cs" using bt ts' False sp by simp_all
    have "distinct (map xHandle (as @ t # cs @ [la]))" using dis unfolding sp(1) by simp
    then show ?thesis unfolding t unfolding tasks_ok_def e by auto
  qed
  then show ?thesis using remove_entry [OF d, of s' "tasks s ! k"] k(2) by (simp add: s'_def)
qed

subsection \<open>The operations of the glue\<close>

definition task_spec :: "sv_op \<Rightarrow> (u32 \<rightharpoonup> u8 list option \<times> u32 \<times> u32) \<Rightarrow> (u32 \<rightharpoonup> u8 list option \<times> u32 \<times> u32)" where
  "task_spec x M = (case x of
     AddTask h n pr st hw \<Rightarrow> map_add_task h n pr st M
   | UpdateTask h n pr st hw \<Rightarrow> map_update_task h n pr st M
   | DeleteTask h \<Rightarrow> M(h := None)
   | _ \<Rightarrow> M)"

text \<open>A task is created with a handle that is not in use.\<close>

definition fresh_task :: "sv_op \<Rightarrow> (u32 \<rightharpoonup> u8 list option \<times> u32 \<times> u32) \<Rightarrow> bool" where
  "fresh_task x M = (case x of AddTask h n pr st hw \<Rightarrow> h \<notin> dom M | _ \<Rightarrow> True)"

primrec fresh_run :: "sv_op list \<Rightarrow> (u32 \<rightharpoonup> u8 list option \<times> u32 \<times> u32) \<Rightarrow> bool" where
  "fresh_run [] M = True"
| "fresh_run (x # xs) M = (fresh_task x M \<and> fresh_run xs (task_spec x M))"

lemma live_counts: "live t0 got s \<Longrightarrow> NumTasks s \<le> length (aTasks s) \<and> length (aTasks s) = 8"
proof -
  assume l: "live t0 got s"
  have "NumTasks s \<le> length (aTasks s)" using live_ok [OF l] by (simp add: sv_ok_def)
  then show ?thesis using l by (simp add: live_def SYSVIEW_FREERTOS_MAX_NOF_TASKS_def)
qed

definition maps_to :: "sysview option \<Rightarrow> (u32 \<rightharpoonup> u8 list option \<times> u32 \<times> u32) \<Rightarrow> bool" where
  "maps_to m M \<longleftrightarrow> (\<exists>s'. m = Some s' \<and> tasks_ok s' \<and> task_map s' = M)"

lemma keeps_maps_to: "keeps t0 got s m \<Longrightarrow> tasks_ok s \<Longrightarrow> maps_to m (task_map s)"
  unfolding keeps_def maps_to_def using stable_tasks by blast

lemma AddTask_map:
  assumes l: "live t0 got s" and d: "tasks_ok s" "h \<notin> dom (task_map s)"
  shows "maps_to (SYSVIEW_AddTask SendPacket h n pr st hw s) (map_add_task h n pr st (task_map s))"
proof -
  have c: "card (dom (task_map s)) = NumTasks s" by (rule card_task_map [OF d(1)]) (use live_counts [OF l] in simp)
  consider "is_idle n" | "\<not> is_idle n" "8 \<le> NumTasks s" | "\<not> is_idle n" "NumTasks s < 8" by linarith
  then show ?thesis
  proof cases
    case 1
    then show ?thesis using d by (simp add: SYSVIEW_AddTask_def map_add_task_def maps_to_def)
  next
    case 2
    then show ?thesis using keeps_maps_to [OF top.events_live(26) [OF l] d(1)] c
      by (simp add: SYSVIEW_AddTask_def map_add_task_def SYSVIEW_FREERTOS_MAX_NOF_TASKS_def)
  next
    case 3
    define t where "t = \<lparr>xHandle = h, pcTaskName = Some n, uxCurrentPriority = pr, pxStack = st, uStackHighWaterMark = hw\<rparr>"
    define s1 where "s1 = s\<lparr>aTasks := (aTasks s)[NumTasks s := t], NumTasks := NumTasks s + 1\<rparr>"
    have a: "tasks_ok s1 \<and> task_map s1 = (task_map s)(h \<mapsto> (Some n, pr, st))"
      using add_entry [of s t] 3 d live_counts [OF l] by (simp add: s1_def t_def task_ident_def)
    have "live t0 got s1" unfolding s1_def by (rule live_aTasks [OF l]) (use 3 live_counts [OF l] in simp_all)
    then have "keeps t0 got s1 (SYSVIEW_SendTaskInfo SendPacket h (Some n) pr st hw s1)" by (rule top.SendTaskInfo_live)
    from keeps_maps_to [OF this] a show ?thesis
      using 3 c by (simp add: SYSVIEW_AddTask_def map_add_task_def SYSVIEW_FREERTOS_MAX_NOF_TASKS_def Let_def s1_def t_def)
  qed
qed

lemma UpdateTask_map:
  assumes l: "live t0 got s" and d: "tasks_ok s"
  shows "maps_to (SYSVIEW_UpdateTask SendPacket h n pr st hw s) (map_update_task h n pr st (task_map s))"
proof -
  have c: "NumTasks s \<le> length (aTasks s)" using live_counts [OF l] by simp
  define k where "k = find_task h s"
  consider "is_idle n" | "\<not> is_idle n" "h \<notin> dom (task_map s)" | "\<not> is_idle n" "h \<in> dom (task_map s)" by blast
  then show ?thesis
  proof cases
    case 1
    then show ?thesis using d by (simp add: SYSVIEW_UpdateTask_def map_update_task_def maps_to_def)
  next
    case 2
    then have "\<not> find_task h s < NumTasks s" using find_task_spec(1) [OF c] by simp
    then show ?thesis using 2 AddTask_map [OF l d 2(2), of n pr st hw] by (simp add: SYSVIEW_UpdateTask_def map_update_task_def)
  next
    case 3
    then have k: "k < NumTasks s" "xHandle (tasks s ! k) = h" using find_task_spec [OF c] by (simp_all add: k_def)
    define t where "t = (aTasks s ! k)\<lparr>pcTaskName := Some n, uxCurrentPriority := pr, pxStack := st, uStackHighWaterMark := hw\<rparr>"
    define s1 where "s1 = s\<lparr>aTasks := (aTasks s)[k := t]\<rparr>"
    have "tasks s ! k = aTasks s ! k" using k(1) by (simp add: tasks_def)
    then have h: "xHandle t = h" "xHandle t = xHandle (tasks s ! k)" using k(2) by (simp_all add: t_def)
    have a: "tasks_ok s1 \<and> task_map s1 = (task_map s)(h \<mapsto> (Some n, pr, st))"
      using replace_entry [OF c k(1) d h(2)] h(1) by (simp add: s1_def task_ident_def t_def)
    have "live t0 got s1" unfolding s1_def by (rule live_aTasks_only [OF l]) simp
    then have "keeps t0 got s1 (SYSVIEW_SendTaskInfo SendPacket h (Some n) pr st hw s1)" by (rule top.SendTaskInfo_live)
    from keeps_maps_to [OF this] a show ?thesis
      using 3 k(1) by (simp add: SYSVIEW_UpdateTask_def map_update_task_def Let_def s1_def t_def k_def)
  qed
qed

text \<open>All the other operations leave the list alone, commands of the host included.\<close>

lemma unseen_tasks:
  "aTasks s' = aTasks s \<Longrightarrow> NumTasks s' = NumTasks s \<Longrightarrow> task_map s' = task_map s \<and> tasks_ok s' = tasks_ok s"
  by (simp add: task_map_def tasks_ok_def tasks_def)

lemma Register_map:
  assumes l: "live t0 got s" and d: "tasks_ok s"
  shows "maps_to (SEGGER_SYSVIEW_RegisterModule SendPacket m s) (task_map s)"
proof -
  define s1 where "s1 = (case modules s of
         [] \<Rightarrow> s\<lparr>modules := [m\<lparr>EventOffset := MODULE_EVENT_OFFSET\<rparr>], NumModules := 1\<rparr>
       | f # fs \<Rightarrow> s\<lparr>modules := m\<lparr>EventOffset := EventOffset f + NumEvents f\<rparr> # f # fs, NumModules := NumModules s + 1\<rparr>)"
  have "live t0 got s1" using l by (auto simp: s1_def split: list.splits)
  then have "keeps t0 got s1 (SEGGER_SYSVIEW_SendModule SendPacket 0 s1)" by (rule top.SendModule_live)
  moreover have "aTasks s1 = aTasks s" "NumTasks s1 = NumTasks s" by (simp_all add: s1_def split: list.splits)
  then have "task_map s1 = task_map s \<and> tasks_ok s1 = tasks_ok s" by (rule unseen_tasks)
  ultimately show ?thesis using keeps_maps_to [of t0 got s1] d
    unfolding SEGGER_SYSVIEW_RegisterModule_def s1_def [symmetric] Let_def by auto
qed

lemma sv_do_map:
  assumes l: "live t0 got s" and d: "tasks_ok s" and x: "sv_op_ok x" "fresh_task x (task_map s)"
  shows "maps_to (sv_do x s) (task_spec x (task_map s))"
proof (cases x)
  case (Rec i p)
  then have "payload_ok i p" using x by (simp add: sv_op_ok_def)
  from keeps_maps_to [OF top.send_live [OF l this] d] Rec show ?thesis by (simp add: sv_do_def task_spec_def)
next
  case IsStarted
  from keeps_maps_to [OF nested.poll_commands_live [OF l] d] IsStarted show ?thesis
    by (auto simp: sv_do_def task_spec_def SEGGER_SYSVIEW_IsStarted_def maps_to_def)
next
  case (HostTakes k)
  have "aTasks (host_reads k s) = aTasks s" "NumTasks (host_reads k s) = NumTasks s" by (simp_all add: host_reads_def)
  from unseen_tasks [OF this] HostTakes d show ?thesis by (simp add: sv_do_def task_spec_def maps_to_def)
next
  case (HostCommands bs)
  have "aTasks (host_commands bs s) = aTasks s" "NumTasks (host_commands bs s) = NumTasks s"
    by (auto simp: host_commands_def with_down_def split: option.splits)
  from unseen_tasks [OF this] HostCommands d show ?thesis by (simp add: sv_do_def task_spec_def maps_to_def)
next
  case (EnableMask m)
  then show ?thesis using d unseen_tasks [of "SEGGER_SYSVIEW_EnableEvents m s" s]
    by (simp add: sv_do_def task_spec_def maps_to_def SEGGER_SYSVIEW_EnableEvents_def)
next
  case (DisableMask m)
  then show ?thesis using d unseen_tasks [of "SEGGER_SYSVIEW_DisableEvents m s" s]
    by (simp add: sv_do_def task_spec_def maps_to_def SEGGER_SYSVIEW_DisableEvents_def)
next
  case (AddTask h n pr st hw)
  then show ?thesis using AddTask_map [OF l d] x(2) by (simp add: sv_do_def task_spec_def fresh_task_def)
next
  case (DeleteTask h)
  then show ?thesis using DeleteTask_map [OF _ d] live_counts [OF l] by (simp add: sv_do_def task_spec_def maps_to_def)
qed (use keeps_maps_to [OF top.Start_live [OF l] d] keeps_maps_to [OF top.Stop_live [OF l] d] UpdateTask_map [OF l d]
    keeps_maps_to [OF top.GetSysDesc_live [OF l] d] keeps_maps_to [OF top.SendTaskList_live [OF l] d]
    keeps_maps_to [OF top.SendModuleDescription_live [OF l] d] Register_map [OF l d] in \<open>simp_all add: sv_do_def task_spec_def\<close>)

lemma sv_run_map:
  "live t0 got s \<Longrightarrow> tasks_ok s \<Longrightarrow> \<forall>x\<in>set xs. sv_op_ok x \<Longrightarrow> fresh_run xs (task_map s) \<Longrightarrow>
    \<exists>got' s'. sv_run xs (got, s) = Some (got', s') \<and> tasks_ok s' \<and> task_map s' = fold task_spec xs (task_map s)"
proof (induction xs arbitrary: got s)
  case (Cons x xs)
  have x: "sv_op_ok x" "fresh_task x (task_map s)" "\<forall>x\<in>set xs. sv_op_ok x" using Cons.prems by simp_all
  obtain s1 where s1: "sv_do x s = Some s1" "live t0 (got @ host_gets x s) s1" "tasks_ok s1" "task_map s1 = task_spec x (task_map s)"
    using sv_do_map [OF Cons.prems(1,2) x(1,2)] sv_do_live [OF Cons.prems(1) x(1)] by (auto simp: maps_to_def)
  from Cons.IH [OF s1(2,3) x(3)] s1(1,4) Cons.prems(4) show ?case by simp
qed simp

subsection \<open>Properties\<close>

text \<open>C21. The task list is a finite map from handles of at most 8 entries: whatever events, host commands and other
  calls come in between, adding, updating and deleting tasks does to the array what it does to the map,
  except that a task added to a full list, and the idle task, are not recorded.\<close>
theorem SYSVIEW_task_list_refines:
  assumes "\<forall>x\<in>set xs. sv_op_ok x" "fresh_run xs Map.empty"
  shows "\<exists>got s. sv_run xs ([], SEGGER_SYSVIEW_Conf rp (sv_boot ts hw tc ii)) = Some (got, s) \<and>
    tasks_ok s \<and> task_map s = fold task_spec xs Map.empty \<and> card (dom (task_map s)) = NumTasks s \<and> NumTasks s \<le> 8"
proof -
  let ?s = "SEGGER_SYSVIEW_Conf rp (sv_boot ts hw tc ii)"
  have "tasks ?s = []" by (simp add: tasks_def conf_fields)
  then have e: "tasks_ok ?s" "task_map ?s = Map.empty" by (simp_all add: tasks_ok_def task_map_def)
  obtain got s where r: "sv_run xs ([], ?s) = Some (got, s)" "tasks_ok s" "task_map s = fold task_spec xs Map.empty"
    using sv_run_map [OF conf_live e(1) assms(1)] assms(2) unfolding e(2) by blast
  have "live (ts 0) got s" using sv_run_live [OF conf_live [of ts rp hw tc ii] assms(1)] r(1) by auto
  from live_counts [OF this] have n: "NumTasks s \<le> length (aTasks s)" "NumTasks s \<le> 8" by simp_all
  from card_task_map [OF r(2) n(1)] r n(2) show ?thesis by blast
qed

theorem SYSVIEW_task_list_refines_witness:
  "\<exists>got s. sv_run [AddTask 1 (bytes_of ''SGP'') 5 9 0, AddTask 2 (bytes_of ''DHT'') 5 9 0, HostCommands [COMMAND_ID_GET_TASKLIST], DeleteTask 1]
      ([], SEGGER_SYSVIEW_Conf True (sv_boot (\<lambda>k. word_of_nat k) (\<lambda>_. 0) 0 0)) = Some (got, s) \<and>
    task_map s = [2 \<mapsto> (Some (bytes_of ''DHT''), 5, 9)]"
proof -
  let ?xs = "[AddTask 1 (bytes_of ''SGP'') 5 9 0, AddTask 2 (bytes_of ''DHT'') 5 9 0, HostCommands [COMMAND_ID_GET_TASKLIST], DeleteTask 1]"
  have ok: "\<forall>x\<in>set ?xs. sv_op_ok x" by (simp add: sv_op_ok_def)
  have i: "\<not> is_idle (bytes_of ''SGP'')" "\<not> is_idle (bytes_of ''DHT'')" by (simp_all add: is_idle_def bytes_of_def)
  have f: "fresh_run ?xs Map.empty" by (simp add: fresh_task_def task_spec_def map_add_task_def i)
  have e: "fold task_spec ?xs Map.empty = [2 \<mapsto> (Some (bytes_of ''DHT''), 5, 9)]"
    by (simp add: task_spec_def map_add_task_def i fun_upd_twist fun_eq_iff)
  show ?thesis using SYSVIEW_task_list_refines [OF ok f, of True "\<lambda>k. word_of_nat k" "\<lambda>_. 0" 0 0] unfolding e by blast
qed

end
