(* ===== verification/SysViewHooks.thy ===== *)
theory SysViewHooks
  imports SysViewTasks
begin

text \<open>
  The trace hooks of the kernel (src/lib/SEGGER/FreeRTOSV11/SEGGER_SYSVIEW_FreeRTOS.h, without the legacy
  interface): the macros that record the start and the end of every kernel function as tables, and the ones
  that follow the life of the tasks.
\<close>

subsection \<open>Identifiers\<close>

text \<open>The names are written without their prefix \<open>apiID_\<close>.\<close>

definition queue_api_ids :: "(string \<times> u32) list" where
  "queue_api_ids =
    [(''XQUEUEGENERICRESET'', 150), (''XQUEUEGENERICCREATESTATIC'', 151), (''XQUEUEGENERICCREATE'', 152), (''XQUEUECREATEMUTEX'', 153),
     (''XQUEUECREATEMUTEXSTATIC'', 154), (''XQUEUEGETMUTEXHOLDER'', 155), (''XQUEUEGETMUTEXHOLDERFROMISR'', 156),
     (''XQUEUEGIVEMUTEXRECURSIVE'', 157), (''XQUEUETAKEMUTEXRECURSIVE'', 158), (''XQUEUECREATECOUNTINGSEMAPHORESTATIC'', 159),
     (''XQUEUECREATECOUNTINGSEMAPHORE'', 160), (''XQUEUEGENERICSEND'', 161), (''XQUEUEGENERICSENDFROMISR'', 162),
     (''XQUEUEGIVEFROMISR'', 163), (''XQUEUERECEIVE'', 164), (''XQUEUESEMAPHORETAKE'', 165), (''XQUEUEPEEK'', 166),
     (''XQUEUERECEIVEFROMISR'', 167), (''XQUEUEPEEKFROMISR'', 168), (''UXQUEUEMESSAGESWAITING'', 169), (''UXQUEUESPACESAVAILABLE'', 170),
     (''UXQUEUEMESSAGESWAITINGFROMISR'', 171), (''VQUEUEDELETE'', 172), (''UXQUEUEGETQUEUENUMBER'', 173),
     (''VQUEUESETQUEUENUMBER'', 174), (''UCQUEUEGETQUEUETYPE'', 175), (''XQUEUEISQUEUEEMPTYFROMISR'', 176),
     (''XQUEUEISQUEUEFULLFROMISR'', 177), (''XQUEUECRSEND'', 178), (''XQUEUECRRECEIVE'', 179), (''XQUEUECRSENDFROMISR'', 180),
     (''XQUEUECRRECEIVEFROMISR'', 181), (''VQUEUEADDTOREGISTRY'', 182), (''PCQUEUEGETNAME'', 183), (''VQUEUEUNREGISTERQUEUE'', 184),
     (''VQUEUEWAITFORMESSAGERESTRICTED'', 185), (''XQUEUECREATESET'', 186), (''XQUEUEADDTOSET'', 187), (''XQUEUEREMOVEFROMSET'', 188),
     (''XQUEUESELECTFROMSET'', 189), (''XQUEUESELECTFROMSETFROMISR'', 190)]"

definition task_api_ids :: "(string \<times> u32) list" where
  "task_api_ids =
    [(''XTASKCREATESTATIC'', 191), (''XTASKCREATERESTRICTEDSTATIC'', 192), (''XTASKCREATERESTRICTED'', 193), (''XTASKCREATE'', 194),
     (''VTASKDELETE'', 195), (''XTASKDELAYUNTIL'', 196), (''VTASKDELAY'', 197), (''ETASKGETSTATE'', 198), (''UXTASKPRIORITYGET'', 199),
     (''UXTASKPRIORITYGETFROMISR'', 200), (''VTASKPRIORITYSET'', 201), (''VTASKSUSPEND'', 202), (''VTASKRESUME'', 203),
     (''XTASKRESUMEFROMISR'', 204), (''VTASKSTARTSCHEDULER'', 205), (''VTASKENDSCHEDULER'', 206), (''VTASKSUSPENDALL'', 207),
     (''XTASKRESUMEALL'', 208), (''XTASKGETTICKCOUNT'', 209), (''XTASKGETTICKCOUNTFROMISR'', 210), (''UXTASKGETNUMBEROFTASKS'', 211),
     (''PCTASKGETNAME'', 212), (''XTASKGETHANDLE'', 213), (''UXTASKGETSYSTEMSTATE'', 214), (''XTASKGETIDLETASKHANDLE'', 215),
     (''VTASKSTEPTICK'', 216), (''XTASKCATCHUPTICKS'', 217), (''XTASKABORTDELAY'', 218), (''XTASKINCREMENTTICK'', 219),
     (''VTASKSETAPPLICATIONTASKTAG'', 220), (''XTASKGETAPPLICATIONTASKTAG'', 221), (''XTASKGETAPPLICATIONTASKTAGFROMISR'', 222),
     (''XTASKCALLAPPLICATIONTASKHOOK'', 223), (''VTASKPLACEONEVENTLIST'', 225), (''VTASKPLACEONUNORDEREDEVENTLIST'', 226),
     (''VTASKPLACEONEVENTLISTRESTRICTED'', 227), (''XTASKREMOVEFROMEVENTLIST'', 228), (''VTASKREMOVEFROMUNORDEREDEVENTLIST'', 229),
     (''VTASKSETTIMEOUTSTATE'', 230), (''VTASKINTERNALSETTIMEOUTSTATE'', 231), (''XTASKCHECKFORTIMEOUT'', 232),
     (''VTASKMISSEDYIELD'', 233), (''UXTASKGETTASKNUMBER'', 234), (''VTASKSETTASKNUMBER'', 235), (''ETASKCONFIRMSLEEPMODESTATUS'', 236),
     (''VTASKSETTHREADLOCALSTORAGEPOINTER'', 237), (''PVTASKGETTHREADLOCALSTORAGEPOINTER'', 238), (''VTASKALLOCATEMPUREGIONS'', 239),
     (''VTASKGETINFO'', 240), (''UXTASKGETSTACKHIGHWATERMARK2'', 241), (''UXTASKGETSTACKHIGHWATERMARK'', 242),
     (''PXTASKGETSTACKSTART'', 243), (''XTASKGETCURRENTTASKHANDLE'', 244), (''XTASKGETSCHEDULERSTATE'', 245),
     (''XTASKPRIORITYINHERIT'', 246), (''XTASKPRIORITYDISINHERIT'', 247), (''VTASKPRIORITYDISINHERITAFTERTIMEOUT'', 248),
     (''VTASKENTERCRITICAL'', 249), (''VTASKEXITCRITICAL'', 250), (''VTASKLIST'', 251), (''VTASKGETRUNTIMESTATS'', 252),
     (''UXTASKRESETEVENTITEMVALUE'', 253), (''PVTASKINCREMENTMUTEXHELDCOUNT'', 254), (''ULTASKGENERICNOTIFYTAKE'', 255),
     (''XTASKGENERICNOTIFYWAIT'', 256), (''XTASKGENERICNOTIFY'', 257), (''XTASKGENERICNOTIFYFROMISR'', 258),
     (''VTASKGENERICNOTIFYGIVEFROMISR'', 259), (''XTASKGENERICNOTIFYSTATECLEAR'', 260), (''ULTASKGENERICNOTIFYVALUECLEAR'', 261),
     (''ULTASKGETIDLERUNTIMECOUNTER'', 262), (''ULTASKGETIDLERUNTIMEPERCENT'', 263), (''XTIMERCREATETIMERTASK'', 264),
     (''XTIMERCREATE'', 265), (''XTIMERCREATESTATIC'', 266), (''XTIMERGENERICCOMMAND'', 267), (''XTIMERGETTIMERDAEMONTASKHANDLE'', 268),
     (''XTIMERGETPERIOD'', 269), (''VTIMERSETRELOADMODE'', 270), (''XTIMERGETRELOADMODE'', 271), (''XTIMERGETEXPIRYTIME'', 272),
     (''PCTIMERGETNAME'', 273), (''XTIMERISTIMERACTIVE'', 274), (''PVTIMERGETTIMERID'', 275), (''VTIMERSETTIMERID'', 276),
     (''XTIMERPENDFUNCTIONCALLFROMISR'', 277), (''XTIMERPENDFUNCTIONCALL'', 278), (''UXTIMERGETTIMERNUMBER'', 279),
     (''VTIMERSETTIMERNUMBER'', 280)]"

definition list_api_ids :: "(string \<times> u32) list" where
  "list_api_ids =
    [(''VLISTINITIALISE'', 281), (''VLISTINITIALISEITEM'', 282), (''VLISTINSERTEND'', 283), (''VLISTINSERT'', 284),
     (''UXLISTREMOVE'', 285)]"

definition coroutine_api_ids :: "(string \<times> u32) list" where
  "coroutine_api_ids =
    [(''XCOROUTINECREATE'', 286), (''VCOROUTINEADDTODELAYEDLIST'', 287), (''VCOROUTINESCHEDULE'', 288),
     (''XCOROUTINEREMOVEFROMEVENTLIST'', 289)]"

definition event_group_api_ids :: "(string \<times> u32) list" where
  "event_group_api_ids =
    [(''XEVENTGROUPCREATESTATIC'', 290), (''XEVENTGROUPCREATE'', 291), (''XEVENTGROUPSYNC'', 292), (''XEVENTGROUPWAITBITS'', 293),
     (''XEVENTGROUPCLEARBITS'', 294), (''XEVENTGROUPCLEARBITSFROMISR'', 295), (''XEVENTGROUPGETBITSFROMISR'', 296),
     (''XEVENTGROUPSETBITS'', 297), (''VEVENTGROUPDELETE'', 298), (''VEVENTGROUPSETBITSCALLBACK'', 299),
     (''VEVENTGROUPCLEARBITSCALLBACK'', 300), (''XEVENTGROUPSETBITSFROMISR'', 301), (''UXEVENTGROUPGETNUMBER'', 302),
     (''VEVENTGROUPSETNUMBER'', 303)]"

definition stream_buffer_api_ids :: "(string \<times> u32) list" where
  "stream_buffer_api_ids =
    [(''XSTREAMBUFFERGENERICCREATE'', 304), (''XSTREAMBUFFERGENERICCREATESTATIC'', 305), (''VSTREAMBUFFERDELETE'', 306),
     (''XSTREAMBUFFERRESET'', 307), (''XSTREAMBUFFERSETTRIGGERLEVEL'', 308), (''XSTREAMBUFFERSPACESAVAILABLE'', 309),
     (''XSTREAMBUFFERBYTESAVAILABLE'', 310), (''XSTREAMBUFFERSEND'', 311), (''XSTREAMBUFFERSENDFROMISR'', 312),
     (''XSTREAMBUFFERRECEIVE'', 313), (''XSTREAMBUFFERNEXTMESSAGELENGTHBYTES'', 314), (''XSTREAMBUFFERRECEIVEFROMISR'', 315),
     (''XSTREAMBUFFERISEMPTY'', 316), (''XSTREAMBUFFERISFULL'', 317), (''XSTREAMBUFFERSENDCOMPLETEDFROMISR'', 318),
     (''XSTREAMBUFFERRECEIVECOMPLETEDFROMISR'', 319), (''UXSTREAMBUFFERGETSTREAMBUFFERNUMBER'', 320),
     (''VSTREAMBUFFERSETSTREAMBUFFERNUMBER'', 321), (''UCSTREAMBUFFERGETSTREAMBUFFERTYPE'', 322)]"

definition isr_timer_api_ids :: "(string \<times> u32) list" where
  "isr_timer_api_ids =
    [(''XTIMERGENERICCOMMANDFROMISR'', 323), (''XTIMERGENERICCOMMANDFROMTASK'', 324)]"

definition core_api_ids :: "(string \<times> u32) list" where
  "core_api_ids =
    [(''VTASKCOREAFFINITYSET'', 325), (''VTASKCOREAFFINITYGET'', 326), (''VTASKPREEMPTIONDISABLE'', 327),
     (''VTASKPREEMPTIONENABLE'', 328), (''VTASKYIELDWITHINAPI'', 329), (''VTASKENTERCRITICALFROMISR'', 330),
     (''VTASKEXITCRITICALFROMISR'', 331), (''ULTASKGETRUNTIMECOUNTER'', 332)]"

definition api_ids :: "(string \<times> u32) list" where
  "api_ids = queue_api_ids @ task_api_ids @ list_api_ids @ coroutine_api_ids @ event_group_api_ids @ stream_buffer_api_ids @ isr_timer_api_ids @ core_api_ids"

subsection \<open>Calls and returns\<close>

text \<open>
  An argument is recorded as it is, or as the identifier of an object (\<open>SEGGER_SYSVIEW_ShrinkId\<close>). An element of
  the first table is a macro \<open>traceAPI_<name>\<close> with the value of its identifier and its arguments, one of the
  second a macro \<open>traceRETURN_<name>\<close> with the value of its identifier and its value, if it records one.
\<close>

datatype arg_kind = Plain | Shrink

type_synonym api_call = "string \<times> u32 \<times> arg_kind list"
type_synonym api_return = "string \<times> u32 \<times> arg_kind option"

definition record_arg :: "sysview \<Rightarrow> arg_kind \<Rightarrow> u32 \<Rightarrow> u32" where
  "record_arg s k a = (case k of Plain \<Rightarrow> a | Shrink \<Rightarrow> SEGGER_SYSVIEW_ShrinkId s a)"

definition queue_calls :: "api_call list" where
  "queue_calls =
    [(''xQueueGenericReset'', 150, [Shrink, Plain]), (''xQueueGenericCreateStatic'', 151, [Plain, Plain, Shrink, Shrink, Plain]),
     (''xQueueGenericCreate'', 152, [Plain, Plain, Plain]), (''xQueueCreateMutex'', 153, [Plain]),
     (''xQueueCreateMutexStatic'', 154, [Plain, Shrink]), (''xQueueGetMutexHolder'', 155, [Shrink]),
     (''xQueueGetMutexHolderFromISR'', 156, [Shrink]), (''xQueueGiveMutexRecursive'', 157, [Shrink]),
     (''xQueueTakeMutexRecursive'', 158, [Shrink, Plain]), (''xQueueCreateCountingSemaphoreStatic'', 159, [Plain, Plain, Shrink]),
     (''xQueueCreateCountingSemaphore'', 160, [Plain, Plain]), (''xQueueGenericSend'', 161, [Shrink, Shrink, Plain, Plain]),
     (''xQueueGenericSendFromISR'', 162, [Shrink, Shrink, Shrink, Plain]), (''xQueueGiveFromISR'', 163, [Shrink, Shrink]),
     (''xQueueReceive'', 164, [Shrink, Shrink, Plain]), (''xQueueSemaphoreTake'', 165, [Shrink, Plain]),
     (''xQueuePeek'', 166, [Shrink, Shrink, Plain]), (''xQueueReceiveFromISR'', 167, [Shrink, Shrink, Plain]),
     (''xQueuePeekFromISR'', 168, [Shrink, Shrink]), (''uxQueueMessagesWaiting'', 169, [Shrink]),
     (''uxQueueSpacesAvailable'', 170, [Shrink]), (''uxQueueMessagesWaitingFromISR'', 171, [Shrink]), (''vQueueDelete'', 172, [Shrink]),
     (''uxQueueGetQueueNumber'', 173, [Shrink]), (''vQueueSetQueueNumber'', 174, [Shrink, Plain]),
     (''ucQueueGetQueueType'', 175, [Shrink]), (''xQueueIsQueueEmptyFromISR'', 176, [Shrink]),
     (''xQueueIsQueueFullFromISR'', 177, [Shrink]), (''xQueueCRSend'', 178, [Shrink, Shrink, Plain]),
     (''xQueueCRReceive'', 179, [Shrink, Shrink, Plain]), (''xQueueCRSendFromISR'', 180, [Shrink, Shrink, Plain]),
     (''xQueueCRReceiveFromISR'', 181, [Shrink, Shrink, Plain]), (''vQueueAddToRegistry'', 182, [Shrink, Shrink]),
     (''pcQueueGetName'', 183, [Shrink]), (''vQueueUnregisterQueue'', 184, [Shrink]),
     (''vQueueWaitForMessageRestricted'', 185, [Shrink, Plain, Plain]), (''xQueueCreateSet'', 186, [Plain]),
     (''xQueueAddToSet'', 187, [Shrink, Shrink]), (''xQueueRemoveFromSet'', 188, [Shrink, Shrink]),
     (''xQueueSelectFromSet'', 189, [Shrink, Plain]), (''xQueueSelectFromSetFromISR'', 190, [Shrink])]"

definition task_calls :: "api_call list" where
  "task_calls =
    [(''xTaskCreateStatic'', 191, [Shrink, Shrink, Plain, Shrink, Plain, Shrink, Shrink]),
     (''xTaskCreateRestrictedStatic'', 192, [Shrink, Shrink]), (''xTaskCreateRestricted'', 193, [Shrink, Shrink]),
     (''xTaskCreate'', 194, [Shrink, Shrink, Plain, Shrink, Plain, Shrink]), (''vTaskDelete'', 195, [Shrink]),
     (''xTaskDelayUntil'', 196, [Shrink, Plain]), (''vTaskDelay'', 197, [Plain]), (''eTaskGetState'', 198, [Shrink]),
     (''uxTaskPriorityGet'', 199, [Shrink]), (''uxTaskPriorityGetFromISR'', 200, [Shrink]), (''vTaskPrioritySet'', 201, [Shrink, Plain]),
     (''vTaskSuspend'', 202, [Shrink]), (''vTaskResume'', 203, [Shrink]), (''xTaskResumeFromISR'', 204, [Shrink]),
     (''vTaskStartScheduler'', 205, []), (''vTaskEndScheduler'', 206, []), (''vTaskSuspendAll'', 207, []), (''xTaskResumeAll'', 208, []),
     (''xTaskGetTickCount'', 209, []), (''xTaskGetTickCountFromISR'', 210, []), (''uxTaskGetNumberOfTasks'', 211, []),
     (''pcTaskGetName'', 212, [Shrink]), (''xTaskGetHandle'', 213, [Shrink]), (''uxTaskGetSystemState'', 214, [Shrink, Plain, Shrink]),
     (''xTaskGetIdleTaskHandle'', 215, []), (''vTaskStepTick'', 216, [Plain]), (''xTaskCatchUpTicks'', 217, [Plain]),
     (''xTaskAbortDelay'', 218, [Shrink]), (''xTaskIncrementTick'', 219, []), (''vTaskSetApplicationTaskTag'', 220, [Shrink, Shrink]),
     (''xTaskGetApplicationTaskTag'', 221, [Shrink]), (''xTaskGetApplicationTaskTagFromISR'', 222, [Shrink]),
     (''xTaskCallApplicationTaskHook'', 223, [Shrink, Shrink]), (''vTaskPlaceOnEventList'', 225, [Shrink, Plain]),
     (''vTaskPlaceOnUnorderedEventList'', 226, [Shrink, Plain, Plain]),
     (''vTaskPlaceOnEventListRestricted'', 227, [Shrink, Plain, Plain]), (''xTaskRemoveFromEventList'', 228, [Shrink]),
     (''vTaskRemoveFromUnorderedEventList'', 229, [Shrink, Plain]), (''vTaskSetTimeOutState'', 230, [Shrink]),
     (''vTaskInternalSetTimeOutState'', 231, [Shrink]), (''xTaskCheckForTimeOut'', 232, [Shrink, Shrink]),
     (''vTaskMissedYield'', 233, []), (''uxTaskGetTaskNumber'', 234, [Shrink]), (''vTaskSetTaskNumber'', 235, [Shrink, Plain]),
     (''eTaskConfirmSleepModeStatus'', 236, []), (''vTaskSetThreadLocalStoragePointer'', 237, [Shrink, Plain, Shrink]),
     (''pvTaskGetThreadLocalStoragePointer'', 238, [Shrink, Plain]), (''vTaskAllocateMPURegions'', 239, [Shrink, Shrink]),
     (''vTaskGetInfo'', 240, [Shrink, Shrink, Plain, Plain]), (''uxTaskGetStackHighWaterMark2'', 241, [Shrink]),
     (''uxTaskGetStackHighWaterMark'', 242, [Shrink]), (''pxTaskGetStackStart'', 243, [Shrink]),
     (''xTaskGetCurrentTaskHandle'', 244, []), (''xTaskGetSchedulerState'', 245, []), (''xTaskPriorityInherit'', 246, [Shrink]),
     (''xTaskPriorityDisinherit'', 247, [Shrink]), (''vTaskPriorityDisinheritAfterTimeout'', 248, [Shrink, Plain]),
     (''vTaskEnterCritical'', 249, []), (''vTaskExitCritical'', 250, []), (''vTaskList'', 251, [Shrink]),
     (''vTaskGetRunTimeStats'', 252, [Shrink]), (''uxTaskResetEventItemValue'', 253, []), (''pvTaskIncrementMutexHeldCount'', 254, []),
     (''ulTaskGenericNotifyTake'', 255, [Plain, Plain, Plain]), (''xTaskGenericNotifyWait'', 256, [Plain, Plain, Plain, Plain, Plain]),
     (''xTaskGenericNotify'', 257, [Shrink, Plain, Plain, Plain, Plain]),
     (''xTaskGenericNotifyFromISR'', 258, [Shrink, Plain, Plain, Plain, Shrink, Shrink]),
     (''vTaskGenericNotifyGiveFromISR'', 259, [Shrink, Plain, Shrink]), (''xTaskGenericNotifyStateClear'', 260, [Shrink, Plain]),
     (''ulTaskGenericNotifyValueClear'', 261, [Shrink, Plain, Plain]), (''ulTaskGetIdleRunTimeCounter'', 262, []),
     (''ulTaskGetIdleRunTimePercent'', 263, []), (''vTaskCoreAffinitySet'', 325, [Shrink, Plain]),
     (''vTaskCoreAffinityGet'', 326, [Shrink]), (''vTaskPreemptionDisable'', 327, [Shrink]), (''vTaskPreemptionEnable'', 328, [Shrink]),
     (''vTaskYieldWithinAPI'', 329, []), (''vTaskEnterCriticalFromISR'', 330, []), (''vTaskExitCriticalFromISR'', 331, [Plain]),
     (''ulTaskGetRunTimeCounter'', 332, [Shrink])]"

definition timer_calls :: "api_call list" where
  "timer_calls =
    [(''xTimerCreateTimerTask'', 264, []), (''xTimerCreate'', 265, [Shrink, Plain, Plain, Shrink, Shrink]),
     (''xTimerCreateStatic'', 266, [Shrink, Plain, Plain, Shrink, Shrink, Shrink]),
     (''xTimerGenericCommand'', 267, [Shrink, Plain, Plain, Shrink, Plain]),
     (''xTimerGenericCommandFromTask'', 324, [Shrink, Plain, Plain, Shrink, Plain]),
     (''xTimerGenericCommandFromISR'', 323, [Shrink, Plain, Plain, Shrink, Plain]), (''xTimerGetTimerDaemonTaskHandle'', 268, []),
     (''xTimerGetPeriod'', 269, [Shrink]), (''vTimerSetReloadMode'', 270, [Shrink, Plain]), (''xTimerGetReloadMode'', 271, [Shrink]),
     (''xTimerGetExpiryTime'', 272, [Shrink]), (''pcTimerGetName'', 273, [Shrink]), (''xTimerIsTimerActive'', 274, [Shrink]),
     (''pvTimerGetTimerID'', 275, [Shrink]), (''vTimerSetTimerID'', 276, [Shrink, Shrink]),
     (''xTimerPendFunctionCallFromISR'', 277, [Shrink, Shrink, Plain, Shrink]),
     (''xTimerPendFunctionCall'', 278, [Shrink, Shrink, Plain, Plain]), (''uxTimerGetTimerNumber'', 279, [Shrink]),
     (''vTimerSetTimerNumber'', 280, [Shrink, Plain])]"

definition list_calls :: "api_call list" where
  "list_calls =
    [(''vListInitialise'', 281, [Shrink]), (''vListInitialiseItem'', 282, [Shrink]), (''vListInsertEnd'', 283, [Shrink, Shrink]),
     (''vListInsert'', 284, [Shrink, Shrink]), (''uxListRemove'', 285, [Shrink]), (''xCoRoutineCreate'', 286, [Shrink, Plain, Plain]),
     (''vCoRoutineAddToDelayedList'', 287, [Plain, Shrink]), (''vCoRoutineSchedule'', 288, []),
     (''xCoRoutineRemoveFromEventList'', 289, [Shrink])]"

definition event_group_calls :: "api_call list" where
  "event_group_calls =
    [(''xEventGroupCreateStatic'', 290, [Shrink]), (''xEventGroupCreate'', 291, []),
     (''xEventGroupSync'', 292, [Shrink, Plain, Plain, Plain]), (''xEventGroupWaitBits'', 293, [Shrink, Plain, Plain, Plain, Plain]),
     (''xEventGroupClearBits'', 294, [Shrink, Plain]), (''xEventGroupClearBitsFromISR'', 295, [Shrink, Plain]),
     (''xEventGroupGetBitsFromISR'', 296, [Shrink]), (''xEventGroupSetBits'', 297, [Shrink, Plain]),
     (''vEventGroupDelete'', 298, [Shrink]), (''vEventGroupSetBitsCallback'', 299, [Shrink, Plain]),
     (''vEventGroupClearBitsCallback'', 300, [Shrink, Plain]), (''xEventGroupSetBitsFromISR'', 301, [Shrink, Plain, Shrink]),
     (''uxEventGroupGetNumber'', 302, [Shrink]), (''vEventGroupSetNumber'', 303, [Shrink, Plain])]"

definition stream_buffer_calls :: "api_call list" where
  "stream_buffer_calls =
    [(''xStreamBufferGenericCreate'', 304, [Plain, Plain, Plain, Shrink, Shrink]),
     (''xStreamBufferGenericCreateStatic'', 305, [Plain, Plain, Plain, Shrink, Shrink, Shrink, Shrink]),
     (''vStreamBufferDelete'', 306, [Shrink]), (''xStreamBufferReset'', 307, [Shrink]),
     (''xStreamBufferSetTriggerLevel'', 308, [Shrink, Plain]), (''xStreamBufferSpacesAvailable'', 309, [Shrink]),
     (''xStreamBufferBytesAvailable'', 310, [Shrink]), (''xStreamBufferSend'', 311, [Shrink, Shrink, Plain, Plain]),
     (''xStreamBufferSendFromISR'', 312, [Shrink, Shrink, Plain, Shrink]),
     (''xStreamBufferReceive'', 313, [Shrink, Shrink, Plain, Plain]), (''xStreamBufferNextMessageLengthBytes'', 314, [Shrink]),
     (''xStreamBufferReceiveFromISR'', 315, [Shrink, Shrink, Plain, Shrink]), (''xStreamBufferIsEmpty'', 316, [Shrink]),
     (''xStreamBufferIsFull'', 317, [Shrink]), (''xStreamBufferSendCompletedFromISR'', 318, [Shrink, Shrink]),
     (''xStreamBufferReceiveCompletedFromISR'', 319, [Shrink, Shrink]), (''uxStreamBufferGetStreamBufferNumber'', 320, [Shrink]),
     (''vStreamBufferSetStreamBufferNumber'', 321, []), (''ucStreamBufferGetStreamBufferType'', 322, [Shrink])]"

definition api_calls :: "api_call list" where
  "api_calls = queue_calls @ task_calls @ timer_calls @ list_calls @ event_group_calls @ stream_buffer_calls"

definition queue_returns :: "api_return list" where
  "queue_returns =
    [(''xQueueGenericReset'', 150, Some Plain), (''xQueueGenericCreateStatic'', 151, Some Shrink),
     (''xQueueGenericCreate'', 152, Some Shrink), (''xQueueCreateMutex'', 153, Some Shrink),
     (''xQueueCreateMutexStatic'', 154, Some Shrink), (''xQueueGetMutexHolder'', 155, Some Shrink),
     (''xQueueGetMutexHolderFromISR'', 156, Some Shrink), (''xQueueGiveMutexRecursive'', 157, Some Plain),
     (''xQueueTakeMutexRecursive'', 158, Some Plain), (''xQueueCreateCountingSemaphoreStatic'', 159, Some Shrink),
     (''xQueueCreateCountingSemaphore'', 160, Some Shrink), (''xQueueGenericSend'', 161, Some Plain),
     (''xQueueGenericSendFromISR'', 162, Some Plain), (''xQueueGiveFromISR'', 163, Some Plain), (''xQueueReceive'', 164, Some Plain),
     (''xQueueSemaphoreTake'', 165, Some Plain), (''xQueuePeek'', 166, Some Plain), (''xQueueReceiveFromISR'', 167, Some Plain),
     (''xQueuePeekFromISR'', 168, Some Plain), (''uxQueueMessagesWaiting'', 169, Some Plain),
     (''uxQueueSpacesAvailable'', 170, Some Plain), (''uxQueueMessagesWaitingFromISR'', 171, Some Plain), (''vQueueDelete'', 172, None),
     (''uxQueueGetQueueNumber'', 173, Some Plain), (''vQueueSetQueueNumber'', 174, None), (''ucQueueGetQueueType'', 175, Some Plain),
     (''xQueueIsQueueEmptyFromISR'', 176, Some Plain), (''xQueueIsQueueFullFromISR'', 177, Some Plain),
     (''xQueueCRSend'', 178, Some Plain), (''xQueueCRReceive'', 179, Some Plain), (''xQueueCRSendFromISR'', 180, Some Plain),
     (''xQueueCRReceiveFromISR'', 181, Some Plain), (''vQueueAddToRegistry'', 182, None), (''pcQueueGetName'', 183, Some Shrink),
     (''vQueueUnregisterQueue'', 184, None), (''vQueueWaitForMessageRestricted'', 185, None), (''xQueueCreateSet'', 186, Some Shrink),
     (''xQueueAddToSet'', 187, Some Plain), (''xQueueRemoveFromSet'', 188, Some Plain), (''xQueueSelectFromSet'', 189, Some Shrink),
     (''xQueueSelectFromSetFromISR'', 190, Some Shrink)]"

definition task_returns :: "api_return list" where
  "task_returns =
    [(''xTaskCreateStatic'', 191, Some Shrink), (''xTaskCreateRestrictedStatic'', 192, Some Plain),
     (''xTaskCreateRestricted'', 193, Some Plain), (''xTaskCreate'', 194, Some Plain), (''vTaskDelete'', 195, None),
     (''xTaskDelayUntil'', 196, Some Plain), (''vTaskDelay'', 197, None), (''eTaskGetState'', 198, Some Plain),
     (''uxTaskPriorityGet'', 199, Some Plain), (''uxTaskPriorityGetFromISR'', 200, Some Plain), (''vTaskPrioritySet'', 201, None),
     (''vTaskSuspend'', 202, None), (''vTaskResume'', 203, None), (''xTaskResumeFromISR'', 204, Some Plain),
     (''vTaskStartScheduler'', 205, None), (''vTaskEndScheduler'', 206, None), (''vTaskSuspendAll'', 207, None),
     (''xTaskResumeAll'', 208, Some Plain), (''xTaskGetTickCount'', 209, Some Plain), (''xTaskGetTickCountFromISR'', 210, Some Plain),
     (''uxTaskGetNumberOfTasks'', 211, Some Plain), (''pcTaskGetName'', 212, Some Shrink), (''xTaskGetHandle'', 213, Some Shrink),
     (''uxTaskGetSystemState'', 214, Some Plain), (''xTaskGetIdleTaskHandle'', 215, Some Shrink), (''vTaskStepTick'', 216, None),
     (''xTaskCatchUpTicks'', 217, Some Plain), (''xTaskAbortDelay'', 218, Some Plain), (''xTaskIncrementTick'', 219, Some Plain),
     (''vTaskSetApplicationTaskTag'', 220, None), (''xTaskGetApplicationTaskTag'', 221, Some Shrink),
     (''xTaskGetApplicationTaskTagFromISR'', 222, Some Shrink), (''xTaskCallApplicationTaskHook'', 223, Some Plain),
     (''vTaskPlaceOnEventList'', 225, None), (''vTaskPlaceOnUnorderedEventList'', 226, None),
     (''vTaskPlaceOnEventListRestricted'', 227, None), (''xTaskRemoveFromEventList'', 228, Some Plain),
     (''vTaskRemoveFromUnorderedEventList'', 229, None), (''vTaskSetTimeOutState'', 230, None),
     (''vTaskInternalSetTimeOutState'', 231, None), (''xTaskCheckForTimeOut'', 232, Some Plain), (''vTaskMissedYield'', 233, None),
     (''uxTaskGetTaskNumber'', 234, Some Plain), (''vTaskSetTaskNumber'', 235, None), (''eTaskConfirmSleepModeStatus'', 236, Some Plain),
     (''vTaskSetThreadLocalStoragePointer'', 237, None), (''pvTaskGetThreadLocalStoragePointer'', 238, Some Shrink),
     (''vTaskAllocateMPURegions'', 239, None), (''vTaskGetInfo'', 240, None), (''uxTaskGetStackHighWaterMark2'', 241, Some Plain),
     (''uxTaskGetStackHighWaterMark'', 242, Some Plain), (''pxTaskGetStackStart'', 243, Some Shrink),
     (''xTaskGetCurrentTaskHandle'', 244, Some Shrink), (''xTaskGetSchedulerState'', 245, Some Plain),
     (''xTaskPriorityInherit'', 246, Some Plain), (''xTaskPriorityDisinherit'', 247, Some Plain),
     (''vTaskPriorityDisinheritAfterTimeout'', 248, None), (''vTaskEnterCritical'', 249, None), (''vTaskExitCritical'', 250, None),
     (''vTaskList'', 251, None), (''vTaskGetRunTimeStats'', 252, None), (''uxTaskResetEventItemValue'', 253, Some Plain),
     (''pvTaskIncrementMutexHeldCount'', 254, Some Shrink), (''ulTaskGenericNotifyTake'', 255, Some Plain),
     (''xTaskGenericNotifyWait'', 256, Some Plain), (''xTaskGenericNotify'', 257, Some Plain),
     (''xTaskGenericNotifyFromISR'', 258, Some Plain), (''vTaskGenericNotifyGiveFromISR'', 259, None),
     (''xTaskGenericNotifyStateClear'', 260, Some Plain), (''ulTaskGenericNotifyValueClear'', 261, Some Plain),
     (''ulTaskGetIdleRunTimeCounter'', 262, Some Plain), (''ulTaskGetIdleRunTimePercent'', 263, Some Plain),
     (''vTaskCoreAffinitySet'', 325, None), (''vTaskCoreAffinityGet'', 326, Some Plain), (''vTaskPreemptionDisable'', 327, None),
     (''vTaskPreemptionEnable'', 328, None), (''vTaskYieldWithinAPI'', 329, None), (''vTaskEnterCriticalFromISR'', 329, Some Plain),
     (''vTaskExitCriticalFromISR'', 331, None), (''ulTaskGetRunTimeCounter'', 262, Some Plain)]"

definition timer_returns :: "api_return list" where
  "timer_returns =
    [(''xTimerCreateTimerTask'', 264, Some Plain), (''xTimerCreate'', 265, Some Shrink), (''xTimerCreateStatic'', 266, Some Shrink),
     (''xTimerGenericCommand'', 267, Some Plain), (''xTimerGenericCommandFromTask'', 324, Some Plain),
     (''xTimerGenericCommandFromISR'', 323, Some Plain), (''xTimerGetTimerDaemonTaskHandle'', 268, Some Shrink),
     (''xTimerGetPeriod'', 269, Some Plain), (''vTimerSetReloadMode'', 270, None), (''xTimerGetReloadMode'', 271, Some Plain),
     (''xTimerGetExpiryTime'', 272, Some Plain), (''pcTimerGetName'', 273, Some Shrink), (''xTimerIsTimerActive'', 274, Some Plain),
     (''pvTimerGetTimerID'', 275, Some Shrink), (''vTimerSetTimerID'', 276, None), (''xTimerPendFunctionCallFromISR'', 277, Some Plain),
     (''xTimerPendFunctionCall'', 278, Some Plain), (''uxTimerGetTimerNumber'', 279, Some Plain), (''vTimerSetTimerNumber'', 280, None)]"

definition list_returns :: "api_return list" where
  "list_returns =
    [(''vListInitialise'', 281, None), (''vListInitialiseItem'', 282, None), (''vListInsertEnd'', 283, None),
     (''vListInsert'', 284, None), (''uxListRemove'', 285, Some Plain), (''xCoRoutineCreate'', 286, Some Plain),
     (''vCoRoutineAddToDelayedList'', 287, None), (''vCoRoutineSchedule'', 288, None),
     (''xCoRoutineRemoveFromEventList'', 289, Some Plain)]"

definition event_group_returns :: "api_return list" where
  "event_group_returns =
    [(''xEventGroupCreateStatic'', 290, Some Shrink), (''xEventGroupCreate'', 291, Some Shrink), (''xEventGroupSync'', 292, Some Plain),
     (''xEventGroupWaitBits'', 293, Some Plain), (''xEventGroupClearBits'', 294, Some Plain),
     (''xEventGroupClearBitsFromISR'', 295, Some Plain), (''xEventGroupGetBitsFromISR'', 296, Some Plain),
     (''xEventGroupSetBits'', 297, Some Plain), (''vEventGroupDelete'', 298, None), (''vEventGroupSetBitsCallback'', 299, None),
     (''vEventGroupClearBitsCallback'', 300, None), (''xEventGroupSetBitsFromISR'', 301, Some Plain),
     (''uxEventGroupGetNumber'', 302, Some Plain), (''vEventGroupSetNumber'', 303, None)]"

definition stream_buffer_returns :: "api_return list" where
  "stream_buffer_returns =
    [(''xStreamBufferGenericCreate'', 304, Some Shrink), (''xStreamBufferGenericCreateStatic'', 305, Some Shrink),
     (''vStreamBufferDelete'', 306, None), (''xStreamBufferReset'', 307, Some Plain),
     (''xStreamBufferSetTriggerLevel'', 308, Some Plain), (''xStreamBufferSpacesAvailable'', 309, Some Plain),
     (''xStreamBufferBytesAvailable'', 310, Some Plain), (''xStreamBufferSend'', 311, Some Plain),
     (''xStreamBufferSendFromISR'', 312, Some Plain), (''xStreamBufferReceive'', 313, Some Plain),
     (''xStreamBufferNextMessageLengthBytes'', 314, Some Plain), (''xStreamBufferReceiveFromISR'', 315, Some Plain),
     (''xStreamBufferIsEmpty'', 316, Some Plain), (''xStreamBufferIsFull'', 317, Some Plain),
     (''xStreamBufferSendCompletedFromISR'', 318, Some Plain), (''xStreamBufferReceiveCompletedFromISR'', 319, Some Plain),
     (''uxStreamBufferGetStreamBufferNumber'', 320, Some Plain), (''vStreamBufferSetStreamBufferNumber'', 321, None),
     (''ucStreamBufferGetStreamBufferType'', 322, Some Plain)]"

definition api_returns :: "api_return list" where
  "api_returns = queue_returns @ task_returns @ timer_returns @ list_returns @ event_group_returns @ stream_buffer_returns"

text \<open>The function that records up to 10 words.\<close>

fun record_words :: "sender \<Rightarrow> u32 \<Rightarrow> u32 list \<Rightarrow> sysview \<Rightarrow> sysview option" where
  "record_words send i [] s = SEGGER_SYSVIEW_RecordVoid send i s"
| "record_words send i [a] s = SEGGER_SYSVIEW_RecordU32 send i a s"
| "record_words send i [a, b] s = SEGGER_SYSVIEW_RecordU32x2 send i a b s"
| "record_words send i [a, b, c] s = SEGGER_SYSVIEW_RecordU32x3 send i a b c s"
| "record_words send i [a, b, c, d] s = SEGGER_SYSVIEW_RecordU32x4 send i a b c d s"
| "record_words send i [a, b, c, d, e] s = SEGGER_SYSVIEW_RecordU32x5 send i a b c d e s"
| "record_words send i [a, b, c, d, e, f] s = SEGGER_SYSVIEW_RecordU32x6 send i a b c d e f s"
| "record_words send i [a, b, c, d, e, f, g] s = SEGGER_SYSVIEW_RecordU32x7 send i a b c d e f g s"
| "record_words send i [a, b, c, d, e, f, g, h] s = SEGGER_SYSVIEW_RecordU32x8 send i a b c d e f g h s"
| "record_words send i [a, b, c, d, e, f, g, h, j] s = SEGGER_SYSVIEW_RecordU32x9 send i a b c d e f g h j s"
| "record_words send i [a, b, c, d, e, f, g, h, j, k] s = SEGGER_SYSVIEW_RecordU32x10 send i a b c d e f g h j k s"
| "record_words send i _ s = None"

text \<open>The macro \<open>m\<close> of a table; \<open>None\<close> for the wrong number of arguments.\<close>

definition traceAPI :: "sender \<Rightarrow> api_call \<Rightarrow> u32 list \<Rightarrow> sysview \<Rightarrow> sysview option" where
  "traceAPI send m args s =
     (case m of (name, i, kinds) \<Rightarrow>
       if length args = length kinds then record_words send i (map2 (record_arg s) kinds args) s else None)"

definition traceRETURN :: "sender \<Rightarrow> api_return \<Rightarrow> u32 \<Rightarrow> sysview \<Rightarrow> sysview option" where
  "traceRETURN send m v s =
     (case m of (name, i, kind) \<Rightarrow>
       (case kind of None \<Rightarrow> SEGGER_SYSVIEW_RecordEndCall send i s
        | Some k \<Rightarrow> SEGGER_SYSVIEW_RecordEndCallU32 send i (record_arg s k v) s))"

definition apiID_VTASKDELETE :: u32 where "apiID_VTASKDELETE = 195"
definition apiID_VTASKPRIORITYSET :: u32 where "apiID_VTASKPRIORITYSET = 201"

subsection \<open>Tasks and interrupts\<close>

text \<open>What the hooks read of a task control block; its handle is its address.\<close>

record tcb =
  tcb_handle :: u32
  tcb_pcTaskName :: "u8 list"
  tcb_uxPriority :: u32
  tcb_pxStack :: u32
  tcb_pxTopOfStack :: u32

definition traceTASK_DELETE :: "sender \<Rightarrow> u32 \<Rightarrow> sysview \<Rightarrow> sysview option" where
  "traceTASK_DELETE send h s = do {
     s \<leftarrow> SEGGER_SYSVIEW_RecordU32 send apiID_VTASKDELETE (SEGGER_SYSVIEW_ShrinkId s h) s;
     Some (SYSVIEW_DeleteTask h s)
   }"

definition traceTASK_CREATE :: "sender \<Rightarrow> tcb option \<Rightarrow> sysview \<Rightarrow> sysview option" where
  "traceTASK_CREATE send pxNewTCB s =
     (case pxNewTCB of None \<Rightarrow> Some s
      | Some t \<Rightarrow> do {
          s \<leftarrow> SEGGER_SYSVIEW_OnTaskCreate send (tcb_handle t) s;
          SYSVIEW_AddTask send (tcb_handle t) (tcb_pcTaskName t) (tcb_uxPriority t) (tcb_pxStack t)
            (tcb_pxTopOfStack t - tcb_pxStack t) s
        })"

text \<open>The event is recorded with the kernel's variable \<open>pxTCB\<close>, the list updated with the argument.\<close>

definition traceTASK_PRIORITY_SET :: "sender \<Rightarrow> tcb \<Rightarrow> tcb \<Rightarrow> u32 \<Rightarrow> sysview \<Rightarrow> sysview option" where
  "traceTASK_PRIORITY_SET send pxTCB pxTask uxNewPriority s = do {
     s \<leftarrow> SEGGER_SYSVIEW_RecordU32x2 send apiID_VTASKPRIORITYSET (SEGGER_SYSVIEW_ShrinkId s (tcb_handle pxTCB)) uxNewPriority s;
     SYSVIEW_UpdateTask send (tcb_handle pxTask) (tcb_pcTaskName pxTask) uxNewPriority (tcb_pxStack pxTask) 0 s
   }"

text \<open>\<open>current\<close> is the running task, \<open>idle\<close> the idle task of core 0.\<close>

definition traceTASK_SWITCHED_IN :: "sender \<Rightarrow> u32 \<Rightarrow> u32 \<Rightarrow> sysview \<Rightarrow> sysview option" where
  "traceTASK_SWITCHED_IN send current idle s =
     (if current = idle then SEGGER_SYSVIEW_OnIdle send s else SEGGER_SYSVIEW_OnTaskStartExec send current s)"

definition traceMOVED_TASK_TO_READY_STATE :: "sender \<Rightarrow> u32 \<Rightarrow> sysview \<Rightarrow> sysview option" where
  "traceMOVED_TASK_TO_READY_STATE send h s = SEGGER_SYSVIEW_OnTaskStartReady send h s"

definition traceMOVED_TASK_TO_DELAYED_LIST :: "sender \<Rightarrow> u32 \<Rightarrow> sysview \<Rightarrow> sysview option" where
  "traceMOVED_TASK_TO_DELAYED_LIST send current s = SEGGER_SYSVIEW_OnTaskStopReady send current (push_bit 2 1) s"

definition traceMOVED_TASK_TO_OVERFLOW_DELAYED_LIST :: "sender \<Rightarrow> u32 \<Rightarrow> sysview \<Rightarrow> sysview option" where
  "traceMOVED_TASK_TO_OVERFLOW_DELAYED_LIST send current s = SEGGER_SYSVIEW_OnTaskStopReady send current (push_bit 2 1) s"

definition traceMOVED_TASK_TO_SUSPENDED_LIST :: "sender \<Rightarrow> u32 \<Rightarrow> sysview \<Rightarrow> sysview option" where
  "traceMOVED_TASK_TO_SUSPENDED_LIST send h s = SEGGER_SYSVIEW_OnTaskStopReady send h (push_bit 3 3 OR 3) s"

definition traceISR_EXIT_TO_SCHEDULER :: "sender \<Rightarrow> sysview \<Rightarrow> sysview option" where
  "traceISR_EXIT_TO_SCHEDULER send s = SEGGER_SYSVIEW_RecordExitISRToScheduler send s"

definition traceISR_EXIT :: "sender \<Rightarrow> sysview \<Rightarrow> sysview option" where
  "traceISR_EXIT send s = SEGGER_SYSVIEW_RecordExitISR send s"

definition traceISR_ENTER :: "sender \<Rightarrow> sysview \<Rightarrow> sysview option" where
  "traceISR_ENTER send s = SEGGER_SYSVIEW_RecordEnterISR send s"

definition traceSTART :: "bool \<Rightarrow> sysview \<Rightarrow> sysview" where
  "traceSTART rp2350 s = SEGGER_SYSVIEW_Conf rp2350 s"

subsection \<open>Facts about the tables\<close>

lemmas id_tables = api_ids_def queue_api_ids_def task_api_ids_def list_api_ids_def coroutine_api_ids_def event_group_api_ids_def
  stream_buffer_api_ids_def isr_timer_api_ids_def core_api_ids_def
lemma api_ids_range: "list_all (\<lambda>(name, i). 150 \<le> i \<and> i \<le> 332) api_ids"
  by (simp add: id_tables)

text \<open>A row of the table of calls against the row of the table of returns beside it.\<close>

definition row_ok :: "api_call \<Rightarrow> api_return \<Rightarrow> bool" where
  "row_ok c r \<longleftrightarrow> fst c = fst r \<and> 150 \<le> fst (snd c) \<and> fst (snd c) \<le> 332 \<and> length (snd (snd c)) \<le> 10 \<and>
     (fst (snd c) = fst (snd r) \<longleftrightarrow> fst c \<noteq> ''vTaskEnterCriticalFromISR'' \<and> fst c \<noteq> ''ulTaskGetRunTimeCounter'')"

lemma queue_rows: "list_all2 row_ok queue_calls queue_returns"
  by (simp add: queue_calls_def queue_returns_def row_ok_def)

lemma task_rows: "list_all2 row_ok task_calls task_returns"
  by (simp add: task_calls_def task_returns_def row_ok_def)

lemma timer_rows: "list_all2 row_ok timer_calls timer_returns"
  by (simp add: timer_calls_def timer_returns_def row_ok_def)

lemma list_rows: "list_all2 row_ok list_calls list_returns"
  by (simp add: list_calls_def list_returns_def row_ok_def)

lemma event_group_rows: "list_all2 row_ok event_group_calls event_group_returns"
  by (simp add: event_group_calls_def event_group_returns_def row_ok_def)

lemma stream_buffer_rows: "list_all2 row_ok stream_buffer_calls stream_buffer_returns"
  by (simp add: stream_buffer_calls_def stream_buffer_returns_def row_ok_def)

lemmas rows = queue_rows task_rows timer_rows list_rows event_group_rows stream_buffer_rows

lemma api_rows: "list_all2 row_ok api_calls api_returns"
  unfolding api_calls_def api_returns_def by (intro list_all2_appendI rows)

lemma row_of_call: "c \<in> set api_calls \<Longrightarrow> \<exists>r. row_ok c r"
  using api_rows unfolding list_all2_conv_all_nth in_set_conv_nth by metis

subsection \<open>The events of the hooks\<close>

lemma record_words_send:
  "length vs \<le> 10 \<Longrightarrow> record_words send i vs s = send (concat (map ENCODE_U32 vs)) i s"
  by (induction send i vs s rule: record_words.induct)
    (simp_all add: SEGGER_SYSVIEW_RecordVoid_def SEGGER_SYSVIEW_RecordU32_def SEGGER_SYSVIEW_RecordU32x2_def
      SEGGER_SYSVIEW_RecordU32x3_def SEGGER_SYSVIEW_RecordU32x4_def SEGGER_SYSVIEW_RecordU32x5_def SEGGER_SYSVIEW_RecordU32x6_def
      SEGGER_SYSVIEW_RecordU32x7_def SEGGER_SYSVIEW_RecordU32x8_def SEGGER_SYSVIEW_RecordU32x9_def SEGGER_SYSVIEW_RecordU32x10_def)

lemma record_words_payload: "24 \<le> i \<Longrightarrow> length vs \<le> 10 \<Longrightarrow> payload_ok i (concat (map ENCODE_U32 vs))"
  by (rule payload_small) (use payload_U32s [of vs] in simp_all)

text \<open>The bytes of a call are its arguments, and nothing else: a reader that knows their number gets them back.\<close>

lemma rest_fields_words: "rest_fields (replicate (length vs) FU32) (concat (map ENCODE_U32 vs) @ r) = Some r"
  by (induction vs) simp_all

lemma call_events:
  assumes "(name, i, kinds) \<in> set api_calls" "length args = length kinds"
  shows "traceAPI send (name, i, kinds) args s = send (concat (map ENCODE_U32 (map2 (record_arg s) kinds args))) i s"
    "payload_ok i (concat (map ENCODE_U32 (map2 (record_arg s) kinds args)))"
proof -
  obtain r where "row_ok (name, i, kinds) r" using row_of_call [OF assms(1)] by blast
  then have k: "150 \<le> i" "length kinds \<le> 10" by (simp_all add: row_ok_def)
  then show "traceAPI send (name, i, kinds) args s = send (concat (map ENCODE_U32 (map2 (record_arg s) kinds args))) i s"
    using assms(2) by (simp add: traceAPI_def record_words_send)
  have "24 \<le> i" using k(1) by (rule order_trans [rotated]) simp
  then show "payload_ok i (concat (map ENCODE_U32 (map2 (record_arg s) kinds args)))"
    using k(2) assms(2) by (intro record_words_payload) simp_all
qed

subsection \<open>Programs of hooks\<close>

text \<open>What the kernel, the interrupts and the trace host do, in any order; \<open>Other\<close> is an operation of theory SysViewLive.\<close>

datatype hook =
    Call "api_call" "u32 list" | Return "api_return" "u32"
  | TaskCreate "tcb option" | TaskDelete u32 | TaskPriority tcb tcb u32 | SwitchedIn u32 u32
  | ToReady u32 | ToDelayed u32 | ToOverflowDelayed u32 | ToSuspended u32
  | IsrEnter | IsrExit | IsrExitToScheduler | Other sv_op

definition hook_do :: "hook \<Rightarrow> sysview \<Rightarrow> sysview option" where
  "hook_do x s =
     (case x of
       Call c args \<Rightarrow> traceAPI SendPacket c args s
     | Return r v \<Rightarrow> traceRETURN SendPacket r v s
     | TaskCreate t \<Rightarrow> traceTASK_CREATE SendPacket t s
     | TaskDelete h \<Rightarrow> traceTASK_DELETE SendPacket h s
     | TaskPriority t u p \<Rightarrow> traceTASK_PRIORITY_SET SendPacket t u p s
     | SwitchedIn h idle \<Rightarrow> traceTASK_SWITCHED_IN SendPacket h idle s
     | ToReady h \<Rightarrow> traceMOVED_TASK_TO_READY_STATE SendPacket h s
     | ToDelayed h \<Rightarrow> traceMOVED_TASK_TO_DELAYED_LIST SendPacket h s
     | ToOverflowDelayed h \<Rightarrow> traceMOVED_TASK_TO_OVERFLOW_DELAYED_LIST SendPacket h s
     | ToSuspended h \<Rightarrow> traceMOVED_TASK_TO_SUSPENDED_LIST SendPacket h s
     | IsrEnter \<Rightarrow> traceISR_ENTER SendPacket s
     | IsrExit \<Rightarrow> traceISR_EXIT SendPacket s
     | IsrExitToScheduler \<Rightarrow> traceISR_EXIT_TO_SCHEDULER SendPacket s
     | Other y \<Rightarrow> sv_do y s)"

definition hook_gets :: "hook \<Rightarrow> sysview \<Rightarrow> u8 list" where
  "hook_gets x s = (case x of Other y \<Rightarrow> host_gets y s | _ \<Rightarrow> [])"

definition hook_ok :: "hook \<Rightarrow> bool" where
  "hook_ok x = (case x of
       Call c args \<Rightarrow> c \<in> set api_calls \<and> length args = length (snd (snd c))
     | Return r v \<Rightarrow> r \<in> set api_returns
     | Other y \<Rightarrow> sv_op_ok y
     | _ \<Rightarrow> True)"

primrec hook_run :: "hook list \<Rightarrow> u8 list \<times> sysview \<Rightarrow> (u8 list \<times> sysview) option" where
  "hook_run [] gs = Some gs"
| "hook_run (x # xs) gs = (case gs of (got, s) \<Rightarrow>
     (case hook_do x s of None \<Rightarrow> None | Some s' \<Rightarrow> hook_run xs (got @ hook_gets x s, s')))"

lemmas hook_defs = traceTASK_DELETE_def traceTASK_CREATE_def traceTASK_PRIORITY_SET_def traceTASK_SWITCHED_IN_def
  traceMOVED_TASK_TO_READY_STATE_def traceMOVED_TASK_TO_DELAYED_LIST_def traceMOVED_TASK_TO_OVERFLOW_DELAYED_LIST_def
  traceMOVED_TASK_TO_SUSPENDED_LIST_def traceISR_ENTER_def traceISR_EXIT_def traceISR_EXIT_TO_SCHEDULER_def

lemma keepsD: "keeps t0 got s m \<Longrightarrow> \<exists>s'. m = Some s' \<and> live t0 got s'"
  unfolding keeps_def by blast

lemma bind_live:
  "keeps t0 got s m \<Longrightarrow> (\<And>s'. live t0 got s' \<Longrightarrow> \<exists>s''. f s' = Some s'' \<and> live t0 got s'') \<Longrightarrow>
   \<exists>s''. Option.bind m f = Some s'' \<and> live t0 got s''"
  unfolding keeps_def by auto

lemma call_live:
  "live t0 got s \<Longrightarrow> c \<in> set api_calls \<Longrightarrow> length args = length (snd (snd c)) \<Longrightarrow> keeps t0 got s (traceAPI SendPacket c args s)"
  using call_events top.send_live by (cases c) simp

lemma return_live: "live t0 got s \<Longrightarrow> keeps t0 got s (traceRETURN SendPacket r v s)"
  using top.events_live(6,7) by (auto simp: traceRETURN_def split: option.split prod.split)

lemma task_create_live:
  assumes "live t0 got s"
  shows "\<exists>s'. traceTASK_CREATE SendPacket t s = Some s' \<and> live t0 got s'"
proof (cases t)
  case (Some u)
  then show ?thesis unfolding traceTASK_CREATE_def by simp (rule bind_live [OF top.events_live(9) [OF assms] top.AddTask_live])
qed (use assms in \<open>simp add: traceTASK_CREATE_def\<close>)

lemma task_delete_live:
  assumes "live t0 got s"
  shows "\<exists>s'. traceTASK_DELETE SendPacket h s = Some s' \<and> live t0 got s'"
proof -
  have "payload_ok apiID_VTASKDELETE (ENCODE_U32 a)" for a
    using record_words_payload [of apiID_VTASKDELETE "[a]"] by (simp add: apiID_VTASKDELETE_def)
  then show ?thesis
    unfolding traceTASK_DELETE_def SEGGER_SYSVIEW_RecordU32_def
    by (intro bind_live [OF top.send_live [OF assms]]) (use DeleteTask_live in blast)+
qed

lemma task_priority_live:
  assumes "live t0 got s"
  shows "\<exists>s'. traceTASK_PRIORITY_SET SendPacket t u p s = Some s' \<and> live t0 got s'"
proof -
  have "payload_ok apiID_VTASKPRIORITYSET (ENCODE_U32 a @ ENCODE_U32 p)" for a
    using record_words_payload [of apiID_VTASKPRIORITYSET "[a, p]"] by (simp add: apiID_VTASKPRIORITYSET_def)
  then show ?thesis
    unfolding traceTASK_PRIORITY_SET_def SEGGER_SYSVIEW_RecordU32x2_def
    by (intro bind_live [OF top.send_live [OF assms]]) (use top.UpdateTask_live in blast)+
qed

lemma hook_do_live:
  assumes l: "live t0 got s" and x: "hook_ok x"
  shows "\<exists>s'. hook_do x s = Some s' \<and> live t0 (got @ hook_gets x s) s'"
proof (cases x)
  case (Call c args)
  then show ?thesis using keepsD [OF call_live [OF l]] x by (simp add: hook_do_def hook_gets_def hook_ok_def)
next
  case (SwitchedIn h i)
  then show ?thesis using keepsD [OF top.events_live(8) [OF l]] keepsD [OF top.events_live(11) [OF l]]
    by (simp add: hook_do_def hook_gets_def hook_defs)
next
  case (Other y)
  then show ?thesis using sv_do_live [OF l] x by (simp add: hook_do_def hook_gets_def hook_ok_def)
qed (use keepsD [OF return_live [OF l]] task_create_live [OF l] task_delete_live [OF l] task_priority_live [OF l]
    keepsD [OF top.events_live(13) [OF l]] keepsD [OF top.events_live(14) [OF l]] keepsD [OF top.events_live(1) [OF l]]
    keepsD [OF top.events_live(2) [OF l]] keepsD [OF top.events_live(3) [OF l]]
  in \<open>simp_all add: hook_do_def hook_gets_def traceMOVED_TASK_TO_READY_STATE_def traceMOVED_TASK_TO_DELAYED_LIST_def
    traceMOVED_TASK_TO_OVERFLOW_DELAYED_LIST_def traceMOVED_TASK_TO_SUSPENDED_LIST_def traceISR_ENTER_def traceISR_EXIT_def
    traceISR_EXIT_TO_SCHEDULER_def\<close>)

lemma hook_run_live:
  "live t0 got s \<Longrightarrow> \<forall>x\<in>set xs. hook_ok x \<Longrightarrow> \<exists>got' s'. hook_run xs (got, s) = Some (got', s') \<and> live t0 got' s'"
proof (induction xs arbitrary: got s)
  case (Cons x xs)
  from hook_do_live [OF Cons.prems(1), of x] Cons.prems(2) obtain s1 where "hook_do x s = Some s1" "live t0 (got @ hook_gets x s) s1"
    by auto
  with Cons.IH [of "got @ hook_gets x s" s1] Cons.prems(2) show ?case by simp
qed simp

subsection \<open>Properties\<close>

text \<open>C5. After \<open>traceSTART\<close> no trace hook of the kernel faults, and the trace stays decodable at every moment: whatever
  kernel functions of the tables are entered and left with whatever arguments, whatever tasks are created, deleted,
  reprioritised and switched, and whatever interrupts and commands of the trace host come in between. The program may
  record events of its own in between as well, as long as their payload has at most 215 bytes, what is left of the packet buffer
  beside header and time stamp, and, under an identifier the host knows, the fields the host expects
  (\<open>payload_ok\<close>). The limit is needed: registering a data series with long names goes beyond it and faults
  (\<open>SYSVIEW_RegisterData_limits\<close> in theory SysViewApp).\<close>
theorem HOOKS_trace_decodes:
  assumes "\<forall>x\<in>set xs. hook_ok x"
  shows "\<exists>got s ys. hook_run xs ([], traceSTART rp2350 (sv_boot ts hw tc ii)) = Some (got, s) \<and>
    host_decode (ts 0) (got @ contents (up s)) = Some ys"
proof -
  obtain got s where r: "hook_run xs ([], SEGGER_SYSVIEW_Conf rp2350 (sv_boot ts hw tc ii)) = Some (got, s)" "live (ts 0) got s"
    using hook_run_live [OF conf_live assms] by blast
  obtain zs where "traced (ts 0) got zs s" using live_traced [OF r(2)] by blast
  from traced_decodes [OF this] show ?thesis using r(1) by (auto simp: traceSTART_def)
qed

theorem HOOKS_trace_decodes_witness:
  "\<exists>got s ys. hook_run [Other (HostCommands [COMMAND_ID_START]), Call (''xQueueCreateMutex'', 153, [Plain]) [1],
       TaskCreate (Some \<lparr>tcb_handle = 8, tcb_pcTaskName = bytes_of ''BME'', tcb_uxPriority = 2, tcb_pxStack = 64, tcb_pxTopOfStack = 128\<rparr>),
       IsrEnter, IsrExit, Other (HostTakes 100)] ([], traceSTART True (sv_boot (\<lambda>k. word_of_nat k) (\<lambda>_. 0) 0 0)) = Some (got, s) \<and>
    host_decode 0 (got @ contents (up s)) = Some ys"
  using HOOKS_trace_decodes [of "[Other (HostCommands [COMMAND_ID_START]), Call (''xQueueCreateMutex'', 153, [Plain]) [1],
       TaskCreate (Some \<lparr>tcb_handle = 8, tcb_pcTaskName = bytes_of ''BME'', tcb_uxPriority = 2, tcb_pxStack = 64, tcb_pxTopOfStack = 128\<rparr>),
       IsrEnter, IsrExit, Other (HostTakes 100)]" True "\<lambda>k. word_of_nat k" "\<lambda>_. 0" 0 0]
  by (simp add: hook_ok_def sv_op_ok_def api_calls_def queue_calls_def)

text \<open>C34. The macros for the start and for the end of the kernel functions record the same number, which is one of
  150 to 332, except for two functions: the end of \<open>vTaskEnterCriticalFromISR\<close> is recorded as the end of
  \<open>vTaskYieldWithinAPI\<close>, and the end of \<open>ulTaskGetRunTimeCounter\<close> as the end of \<open>ulTaskGetIdleRunTimeCounter\<close>.
  Every other function hands the sender a packet with its number and its arguments, handles without the base
  address, when it is entered, and a packet with the same number and the result when it is left.\<close>
theorem HOOKS_returns_match_calls:
  assumes "n < length api_calls" "api_calls ! n = (name, i, kinds)" "api_returns ! n = (name', j, kind)"
  shows "name' = name \<and> 150 \<le> i \<and> i \<le> 332 \<and>
    (name \<notin> {''vTaskEnterCriticalFromISR'', ''ulTaskGetRunTimeCounter''} \<longrightarrow> j = i \<and>
      (length args = length kinds \<longrightarrow>
        traceAPI send (name, i, kinds) args s = send (concat (map ENCODE_U32 (map2 (record_arg s) kinds args))) i s \<and>
        traceRETURN send (name', j, kind) v s =
          send (ENCODE_U32 i @ (case kind of None \<Rightarrow> [] | Some k \<Rightarrow> ENCODE_U32 (record_arg s k v))) SYSVIEW_EVTID_END_CALL s)) \<and>
    (name = ''vTaskEnterCriticalFromISR'' \<or> name = ''ulTaskGetRunTimeCounter'' \<longrightarrow> j \<noteq> i)"
proof -
  have r: "row_ok (name, i, kinds) (name', j, kind)"
    using list_all2_nthD [OF api_rows assms(1)] assms(2,3) by simp
  have c: "(name, i, kinds) \<in> set api_calls" using assms(1,2) by (metis nth_mem)
  show ?thesis using r call_events(1) [OF c]
    by (auto simp: row_ok_def traceRETURN_def SEGGER_SYSVIEW_RecordEndCall_def SEGGER_SYSVIEW_RecordEndCallU32_def split: option.split)
qed

theorem HOOKS_returns_match_calls_witness:
  "traceRETURN SendPacket (''xQueueGenericReset'', 150, Some Plain) 1 = (\<lambda>s. SendPacket (ENCODE_U32 150 @ ENCODE_U32 1) SYSVIEW_EVTID_END_CALL s)"
  using HOOKS_returns_match_calls [of 0 "''xQueueGenericReset''" 150 "[Shrink, Plain]" "''xQueueGenericReset''" 150 "Some Plain" "[1, 2]" SendPacket _ 1]
  by (auto simp: api_calls_def queue_calls_def api_returns_def queue_returns_def record_arg_def)

end
