(* ===== verification/LogTrace.thy ===== *)
theory LogTrace
  imports Report SysViewPrint
begin

text \<open>
  The logger over the recorder: \<open>hkLogOutput\<close> (src/core/logger.c) hands every message to \<open>HPRINT\<close>
  (include/config/arm.h), which passes it to \<open>SEGGER_SYSVIEW_PrintfHost\<close> as the format, with no arguments.
\<close>

definition HPRINT :: "string \<Rightarrow> sysview \<Rightarrow> sysview option" where
  "HPRINT msg s = SEGGER_SYSVIEW_PrintfHost SendPacket (bytes_of msg) [] s"

text \<open>The call of the logger with the recorder's state: the text printed, and the state.\<close>

definition log_traced :: "int \<Rightarrow> string option option \<Rightarrow> sysview \<Rightarrow> (string option \<times> sysview) option" where
  "log_traced level message s =
     (case hkLogOutput level message of
        None \<Rightarrow> Some (None, s)
      | Some logMessage \<Rightarrow> map_option (\<lambda>s. (Some logMessage, s)) (HPRINT logMessage s))"

lemma of_char_u8_inj: "(of_char c :: u8) = of_char d \<longleftrightarrow> c = d"
proof
  assume e: "(of_char c :: u8) = of_char d"
  have u: "unat (of_char x :: u8) = of_char x" for x
  proof -
    have "(of_char x :: u8) = word_of_nat (of_char x)" by (simp only: of_nat_of_char)
    moreover have "unat (word_of_nat (of_char x) :: u8) = of_char x" by (simp add: unat_of_nat take_bit_nat_eq_self)
    ultimately show ?thesis by simp
  qed
  have "(of_char c :: nat) = of_char d" using u e by metis
  then show "c = d" by simp
qed simp

lemma of_char_percent: "(of_char c :: u8) = 37 \<longleftrightarrow> c = CHR ''%''"
  using of_char_u8_inj [of c "CHR ''%''"] by simp

lemma percents_bytes: "percents (bytes_of t) = length (filter (\<lambda>c. c = CHR ''%'') t)"
  by (induction t) (simp_all add: percents_def bytes_of_def chr_def of_char_percent)

text \<open>A message is safe to print exactly when it contains no percent sign.\<close>

lemma HPRINT_live:
  assumes "live t0 got s"
  shows "HPRINT t s = None \<longleftrightarrow> CHR ''%'' \<in> set t"
proof -
  have "filter (\<lambda>c. c = CHR ''%'') t = [] \<longleftrightarrow> CHR ''%'' \<notin> set t" by (auto simp: filter_empty_conv)
  then have "min 16 (percents (bytes_of t)) \<le> length ([] :: u32 list) \<longleftrightarrow> CHR ''%'' \<notin> set t"
    unfolding percents_bytes by (auto simp: min_def split: if_splits)
  then show ?thesis using top.VPrintHost_live [OF assms, of "bytes_of t" "[]" SEGGER_SYSVIEW_LOG]
    by (auto simp: HPRINT_def SEGGER_SYSVIEW_PrintfHost_def keeps_def split: if_splits)
qed

lemma prefix_percent: "i < 6 \<Longrightarrow> CHR ''%'' \<notin> set (logLevelStrings ! i)"
  by (auto simp: logLevelStrings_def less_Suc_eq numeral_eq_Suc)

lemma log_traced_text:
  assumes "live t0 got s" "0 \<le> level" "level < 6"
  shows "log_traced level (Some (Some t)) s = None \<longleftrightarrow> CHR ''%'' \<in> set (take 118 t)"
proof -
  have l: "nat level < 6" using assms(2,3) by simp
  have "take 127 (logLevelStrings ! nat level @ take 127 t @ [CHR 0x0A]) = logLevelStrings ! nat level @ take 118 (take 127 t @ [CHR 0x0A])"
    using logLevel_prefix [OF l] by simp
  moreover have "CHR ''%'' \<in> set (take 118 (take 127 t @ [CHR 0x0A])) \<longleftrightarrow> CHR ''%'' \<in> set (take 118 t)"
    by (auto simp: min_def take_Cons' dest: in_set_takeD split: if_splits)
  ultimately show ?thesis
    using HPRINT_live [OF assms(1)] prefix_percent [OF l] by (auto simp: log_traced_def hkLogOutput_text [OF assms(2,3)])
qed

text \<open>C10. Every log message whose text has a percent sign in its first 118 characters makes the logger read an argument
  that was never passed, because the finished message is used as a format once more; a message without one
  reaches the recorder. The lines the display task prints for the humidities have one, whatever their values.\<close>
theorem LOG_percent_reads_missing_argument:
  assumes "live t0 got s" "f32_stored (BME280_DataPacket.humidity (bme280_0 p))"
  shows "(\<forall>t. log_traced LOG_DEBUG (Some (Some t)) s = None \<longleftrightarrow> CHR ''%'' \<in> set (take 118 t)) \<and>
    (\<exists>t\<in>set (display_lines p). log_traced LOG_DEBUG (Some (Some t)) s = None)"
proof -
  have a: "log_traced LOG_DEBUG (Some (Some t)) s = None \<longleftrightarrow> CHR ''%'' \<in> set (take 118 t)" for t
    by (rule log_traced_text [OF assms(1)]) (simp_all add: LOG_DEBUG_def)
  define t where "t = ''(BME280_0) HUMIDITY      : '' @ fmt_f 2 (BME280_DataPacket.humidity (bme280_0 p)) @ '' %RH''"
  have "length t \<le> 118" using length_fmt_f [OF assms(2), of 2] by (simp add: t_def)
  then have "CHR ''%'' \<in> set (take 118 t)" by (simp add: t_def)
  moreover have "t \<in> set (display_lines p)" by (simp add: t_def display_lines_def display_bme_def)
  ultimately show ?thesis using a by blast
qed

theorem LOG_percent_reads_missing_argument_witness:
  "let s = SEGGER_SYSVIEW_Conf True (sv_boot (\<lambda>k. word_of_nat k) (\<lambda>_. 0) 0 0) in
   log_traced LOG_DEBUG (Some (Some ''100 %'')) s = None \<and> log_traced LOG_DEBUG (Some (Some ''100 percent'')) s \<noteq> None \<and>
   (\<exists>t\<in>set (display_lines sensors_zero). log_traced LOG_DEBUG (Some (Some t)) s = None)"
proof -
  have l: "live 0 [] (SEGGER_SYSVIEW_Conf True (sv_boot (\<lambda>k. word_of_nat k) (\<lambda>_. 0) 0 0))"
    using conf_live [of "\<lambda>k. word_of_nat k"] by simp
  have z: "f32_stored (BME280_DataPacket.humidity (bme280_0 sensors_zero))" by code_simp
  note r = LOG_percent_reads_missing_argument [OF l z]
  show ?thesis unfolding Let_def using conjunct1 [OF r] by (intro conjI conjunct2 [OF r]) simp_all
qed

text \<open>Before the configuration the recorder is off and no channel exists.\<close>

lemma boot_polls: "poll_commands SendPacket_nested (sv_boot ts hw tc ii) = Some (sv_boot ts hw tc ii)"
  by (simp add: poll_commands_def sv_boot_def SEGGER_RTT_HasData_def rtt_boot_def unused_channel_def SEGGER_RTT_MAX_NUM_DOWN_BUFFERS_def)

lemma boot_sends_nothing: "length p \<le> 215 \<Longrightarrow> SendPacket p i (sv_boot ts hw tc ii) = Some (sv_boot ts hw tc ii)"
proof -
  assume "length p \<le> 215"
  moreover have "EnableState (sv_boot ts hw tc ii) = 0" by (simp add: sv_boot_def)
  ultimately have "SendPacket_nested p i (sv_boot ts hw tc ii) = Some (sv_boot ts hw tc ii)"
    by (simp add: SendPacket_nested_def SendPacket_body_def sv_sizes)
  then show ?thesis by (simp add: SendPacket_def boot_polls)
qed

text \<open>Until \<open>SEGGER_SYSVIEW_Conf\<close> has run, which main does not call (only the kernel's hook \<open>traceSTART\<close> does), no log
  message reaches the host: one without a percent sign changes nothing, whatever it says, and one with a
  percent sign reads the missing argument all the same.\<close>
theorem LOG_unconfigured_trace_is_dead:
  "HPRINT msg (sv_boot ts hw tc ii) = (if CHR ''%'' \<in> set msg then None else Some (sv_boot ts hw tc ii))"
proof (cases "CHR ''%'' \<in> set msg")
  case True
  then have "filter (\<lambda>c. c = CHR ''%'') msg \<noteq> []" by (auto simp: filter_empty_conv)
  then have "0 < min 16 (percents (bytes_of msg))" unfolding percents_bytes by (simp add: min_def)
  then have "\<not> min 16 (percents (bytes_of msg)) = 0" by simp
  then have "host_args 0 (bytes_of msg) [] = None" using host_args_take [of 0 "bytes_of msg" "[]"] by simp
  then show ?thesis using True by (simp add: HPRINT_def SEGGER_SYSVIEW_PrintfHost_def VPrintHost_def)
next
  case False
  then have "filter (\<lambda>c. c = CHR ''%'') msg = []" by (auto simp: filter_empty_conv)
  then have p: "percents (bytes_of msg) = 0" unfolding percents_bytes by simp
  have "length (EncodeStr (Some (bytes_of msg)) SEGGER_SYSVIEW_MAX_STRING_LEN @ ENCODE_U32 SEGGER_SYSVIEW_LOG @ ENCODE_U32 0) \<le> 215"
    using host_payload_ok [of "[]" "bytes_of msg" SEGGER_SYSVIEW_LOG] by (simp add: payload_ok_def)
  from boot_sends_nothing [OF this] show ?thesis
    using False host_args_take [of 0 "bytes_of msg" "[]"] p
    by (simp add: HPRINT_def SEGGER_SYSVIEW_PrintfHost_def VPrintHost_def)
qed

end
