(* ===== verification/Station.thy ===== *)
theory Station
  imports Startup
begin

text \<open>
  The whole station after the scheduler has started: WiFi task, manager, configuration page and ping
  callback (\<open>boot_step\<close>), the thirteen tasks that wait for the mode bit before they do anything else, the
  MQTT client's callback and its second event group, and the data pipeline (\<open>step\<close>). A run is any
  interleaving of their steps. The theorems say what the gate in front of the tasks guarantees: a station without a link measures and publishes
  nothing, and nothing is published before the broker accepted; and what it does not: a station may measure
  with its configuration page open.
\<close>

subsection \<open>Tasks behind the mode bit\<close>

datatype gated = G_Sensor sensor | G_Collect | G_Process | G_Display | G_Send

text \<open>
  Where a task is: before its \<open>xEventGroupWaitBits\<close>, blocked in it, between it and its loop, in its loop.
  The sending task then waits for a second bit (\<open>T_Broker\<close>, \<open>T_Blocked\<close>) or suspends itself.
\<close>

datatype task_pc = T_Entry | T_Waiting | T_Starting | T_Broker | T_Blocked | T_Loop | T_Suspended

text \<open>
  A wait without time limit that does not clear the bit, on entry, and what setting bits does to the tasks
  blocked in such a wait.
\<close>

definition wait_bits :: "u32 \<Rightarrow> task_pc \<Rightarrow> task_pc \<Rightarrow> u32 \<Rightarrow> task_pc" where
  "wait_bits bits blocked go g = (if g AND bits \<noteq> 0 then go else blocked)"

definition wake :: "u32 \<Rightarrow> task_pc \<Rightarrow> task_pc \<Rightarrow> u32 \<Rightarrow> (gated \<Rightarrow> task_pc) \<Rightarrow> gated \<Rightarrow> task_pc" where
  "wake bits blocked go g pcs = (if g AND bits \<noteq> 0 then (\<lambda>t. if pcs t = blocked then go else pcs t) else pcs)"

subsection \<open>The station\<close>

text \<open>The platform: the hardware, the kernel and the libraries the station runs on, with its configuration.\<close>

record ('e, 'r, 'k) platform =
  p_env :: "'e i2c_env"
  p_speed :: u32
  p_radio :: "'r radio"
  p_cfg :: WIFI_Config
  p_behind :: "u8 list"
  p_os :: "'k rtos"
  p_libm :: libm
  p_board :: "u8 list"
  p_aton :: "string \<Rightarrow> u32 option"

record ('e, 'r, 'k) station =
  mgr :: manager_pc
  nw :: "('e, 'r) net"
  pcs :: "gated \<Rightarrow> task_pc"
  broker :: u32
  mqtt :: MQTT_Config
  pipe :: "'k pipeline"

text \<open>The object main gives the sending task, and the state when the scheduler starts.\<close>

definition hkMQTT :: MQTT_Config where
  "hkMQTT = \<lparr>client_id = [], keep_alive = 0, mqttServerAddress = 0, mqttServerPort = 0, topic = []\<rparr>"

definition station_init :: "'e world \<Rightarrow> 'r \<Rightarrow> 'k \<Rightarrow> ('e, 'r, 'k) station" where
  "station_init w r k =
     \<lparr>mgr = M_Waiting, nw = net_init w r, pcs = (\<lambda>_. T_Entry), broker = 0, mqtt = hkMQTT, pipe = pipeline_init 0 k\<rparr>"

text \<open>The steps of the pipeline with the task that makes them.\<close>

inductive task_step :: "'k rtos \<Rightarrow> libm \<Rightarrow> 'k pipeline \<Rightarrow> gated \<Rightarrow> event \<Rightarrow> 'k pipeline \<Rightarrow> bool" for os lm where
  sense: "matches x r \<Longrightarrow>
    task_step os lm s (G_Sensor x) (Sensed x r) (s\<lparr>kernel := snd (xQueueSend os (xDataQueue x) (Reading r) (kernel s))\<rparr>)"
| collect: "collect_step os now (kernel s) (collector s) = (k, c) \<Longrightarrow>
    e = (if c_pc (collector s) = C_Snapshot then Taken (c_packet (collector s)) else Silent) \<Longrightarrow>
    task_step os lm s G_Collect e (s\<lparr>kernel := k, collector := c\<rparr>)"
| process: "process_step os lm behind (kernel s) (processor s) = (k, p) \<Longrightarrow>
    task_step os lm s G_Process Silent (s\<lparr>kernel := k, processor := p\<rparr>)"
| display: "display_step os (kernel s) = (r, k) \<Longrightarrow>
    e = (case r of Some (Snapshot p) \<Rightarrow> Shown p | _ \<Rightarrow> Silent) \<Longrightarrow>
    task_step os lm s G_Display e (s\<lparr>kernel := k\<rparr>)"
| publish: "send_step os missing (kernel s) (sender s) = (t, k, d) \<Longrightarrow>
    e = (case t of Some text \<Rightarrow> Published text | None \<Rightarrow> Silent) \<Longrightarrow>
    task_step os lm s G_Send e (s\<lparr>kernel := k, sender := d\<rparr>)"

datatype station_event =
    Network boot_event
  | Arrive gated
  | Start gated
  | Callback bool
  | Broker_Wait
  | Act gated event

text \<open>
  \<open>start\<close> is a task's way from the wait to its loop; what a sensor task does there is in its own theory. The
  collector takes the time, the sending task sets up the client (\<open>send_start\<close>), whose callback can come
  from then on.
\<close>

inductive station_step ::
  "('e, 'r, 'k) platform \<Rightarrow> ('e, 'r, 'k) station \<Rightarrow> station_event \<Rightarrow> ('e, 'r, 'k) station \<Rightarrow> bool" for P where
  network: "boot_step (p_env P) (p_speed P) (p_radio P) (p_cfg P) (p_behind P) (mgr s, nw s) e (m, n) \<Longrightarrow>
    station_step P s (Network e) (s\<lparr>mgr := m, nw := n, pcs := wake BIT_MODE_NORMAL_OPERATION T_Waiting T_Starting (events n) (pcs s)\<rparr>)"
| arrive: "pcs s t = T_Entry \<Longrightarrow>
    station_step P s (Arrive t) (s\<lparr>pcs := (pcs s)(t := wait_bits BIT_MODE_NORMAL_OPERATION T_Waiting T_Starting (events (nw s)))\<rparr>)"
| start: "pcs s t = T_Starting \<Longrightarrow> t \<noteq> G_Collect \<Longrightarrow> t \<noteq> G_Send \<Longrightarrow> station_step P s (Start t) (s\<lparr>pcs := (pcs s)(t := T_Loop)\<rparr>)"
| start_collect: "pcs s G_Collect = T_Starting \<Longrightarrow>
    station_step P s (Start G_Collect) (s\<lparr>pcs := (pcs s)(G_Collect := T_Loop), pipe := (pipe s)\<lparr>collector := collect_init now\<rparr>\<rparr>)"
| start_send: "pcs s G_Send = T_Starting \<Longrightarrow> send_start (p_board P) created (p_aton P) connect (mqtt s) = Some (connecting, cf) \<Longrightarrow>
    station_step P s (Start G_Send) (s\<lparr>pcs := (pcs s)(G_Send := if connecting then T_Broker else T_Suspended), mqtt := cf\<rparr>)"
| callback: "pcs s G_Send \<in> {T_Broker, T_Blocked, T_Loop} \<Longrightarrow> mqttClientConnectCallback accepted (broker s) = b \<Longrightarrow>
    station_step P s (Callback accepted) (s\<lparr>broker := b, pcs := wake BIT_MQTT_CONNECTED T_Blocked T_Loop b (pcs s)\<rparr>)"
| broker_wait: "pcs s G_Send = T_Broker \<Longrightarrow>
    station_step P s Broker_Wait (s\<lparr>pcs := (pcs s)(G_Send := wait_bits BIT_MQTT_CONNECTED T_Blocked T_Loop (broker s))\<rparr>)"
| act: "pcs s t = T_Loop \<Longrightarrow> task_step (p_os P) (p_libm P) (pipe s) t e p \<Longrightarrow> station_step P s (Act t e) (s\<lparr>pipe := p\<rparr>)"

inductive station_run ::
  "('e, 'r, 'k) platform \<Rightarrow> ('e, 'r, 'k) station \<Rightarrow> station_event list \<Rightarrow> ('e, 'r, 'k) station \<Rightarrow> bool" for P s where
  none: "station_run P s [] s"
| more: "station_run P s tr t \<Longrightarrow> station_step P t e u \<Longrightarrow> station_run P s (tr @ [e]) u"

inductive_cases station_stepE: "station_step P s e t"
inductive_cases station_actE: "station_step P s (Act g e) t"
inductive_cases run_snocE: "station_run P s (tr @ [e]) t"
inductive_cases task_stepE: "task_step os lm s g e t"

text \<open>What the pipeline did in a run.\<close>

fun act_of :: "station_event \<Rightarrow> event list" where
  "act_of (Act t e) = [e]"
| "act_of _ = []"

definition acts :: "station_event list \<Rightarrow> event list" where "acts tr = concat (map act_of tr)"

lemma acts_simps [simp]: "acts [] = []" "acts (tr @ [e]) = acts tr @ act_of e"
  by (simp_all add: acts_def)

lemma set_acts: "e \<in> set (acts tr) \<longleftrightarrow> (\<exists>t. Act t e \<in> set tr)"
proof -
  have "e \<in> set (act_of a) \<longleftrightarrow> (\<exists>t. a = Act t e)" for a by (cases a) auto
  then show ?thesis by (auto simp: acts_def)
qed

lemma task_step_step: "task_step os lm s g e t \<Longrightarrow> step os lm s e t"
  by (cases rule: task_step.cases) (auto intro: step.intros)

text \<open>Only the collector uses its variables.\<close>

lemma collector_last:
  "s\<lparr>kernel := k, collector := c\<rparr> = s\<lparr>collector := c, kernel := k\<rparr>"
  "s\<lparr>kernel := k, processor := p, collector := c\<rparr> = s\<lparr>collector := c, kernel := k, processor := p\<rparr>"
  "s\<lparr>kernel := k, sender := d, collector := c\<rparr> = s\<lparr>collector := c, kernel := k, sender := d\<rparr>"
  by (cases s; simp)+

lemma task_step_collector:
  assumes "task_step os lm s g e t" and "g \<noteq> G_Collect"
  shows "collector t = collector s \<and> task_step os lm (s\<lparr>collector := c\<rparr>) g e (t\<lparr>collector := c\<rparr>)"
  using assms
proof (cases rule: task_step.cases)
  case (sense x r)
  then show ?thesis using task_step.sense [of x r os lm "s\<lparr>collector := c\<rparr>"] by (simp add: collector_last)
next
  case (process behind k p)
  then show ?thesis using task_step.process [of os lm behind "s\<lparr>collector := c\<rparr>" k p] by (simp add: collector_last)
next
  case (display r k)
  then show ?thesis using task_step.display [of os "s\<lparr>collector := c\<rparr>" r k e lm] by (simp add: collector_last)
next
  case (publish missing x k d)
  then show ?thesis using task_step.publish [of os missing "s\<lparr>collector := c\<rparr>" x k d e lm] by (simp add: collector_last)
qed simp_all

subsection \<open>Invariants of the gate\<close>

lemma run_inv:
  assumes "station_run P s tr t" and "I [] s"
    and "\<And>tr t e u. station_run P s tr t \<Longrightarrow> I tr t \<Longrightarrow> station_step P t e u \<Longrightarrow> I (tr @ [e]) u"
  shows "I tr t"
  using assms by (induction rule: station_run.induct) blast+

lemma wake_simps [simp]:
  "wake bits blocked go g p t = (if g AND bits \<noteq> 0 \<and> p t = blocked then go else p t)"
  by (simp add: wake_def)

definition no_sleeper :: "('e, 'r, 'k) station \<Rightarrow> bool" where
  "no_sleeper s \<longleftrightarrow> (events (nw s) AND BIT_MODE_NORMAL_OPERATION \<noteq> 0 \<longrightarrow> (\<forall>t. pcs s t \<noteq> T_Waiting))
     \<and> (broker s AND BIT_MQTT_CONNECTED \<noteq> 0 \<longrightarrow> pcs s G_Send \<noteq> T_Blocked)
     \<and> (\<forall>t. t \<noteq> G_Send \<longrightarrow> pcs s t \<notin> {T_Broker, T_Blocked, T_Suspended})"

lemma no_sleeper_step:
  assumes "station_step P s e t" and "no_sleeper s"
  shows "no_sleeper t"
  using assms
proof (cases rule: station_step.cases)
  case (network e m n)
  with assms(2) show ?thesis by (simp add: no_sleeper_def)
next
  case (arrive g)
  with assms(2) show ?thesis by (simp add: no_sleeper_def wait_bits_def)
next
  case (start g)
  with assms(2) show ?thesis by (simp add: no_sleeper_def)
next
  case (start_collect now)
  with assms(2) show ?thesis by (simp add: no_sleeper_def)
next
  case (start_send created connect connecting cf)
  with assms(2) show ?thesis by (simp add: no_sleeper_def)
next
  case (callback accepted b)
  with assms(2) show ?thesis by (simp add: no_sleeper_def)
next
  case broker_wait
  with assms(2) show ?thesis by (simp add: no_sleeper_def wait_bits_def)
next
  case (act g e p)
  with assms(2) show ?thesis by (simp add: no_sleeper_def)
qed

text \<open>The flags as bits of the group.\<close>

lemma flags [simp]:
  "g AND BIT_MODE_NORMAL_OPERATION = 0 \<longleftrightarrow> \<not> bit g 0" "g AND WIFI_CONNECTED_BIT = 0 \<longleftrightarrow> \<not> bit g 0"
  "g AND BIT_MODE_CONFIG = 0 \<longleftrightarrow> \<not> bit g 1" "g AND BIT_MQTT_CONNECTED = 0 \<longleftrightarrow> \<not> bit g 0"
  using bit_iff_and_push_bit_not_eq_0 [of g 0] bit_iff_and_push_bit_not_eq_0 [of g 1]
  by (auto simp only: bit_defs)

lemma flag_bits: "bit (push_bit 0 1 :: u32) i \<longleftrightarrow> i = 0" "bit (push_bit 1 1 :: u32) i \<longleftrightarrow> i = 1"
  by (auto simp only: bit_push_bit_iff bit_1_iff possible_bit_word len_num1 len_bit0)

lemma set_flags [simp]:
  "bit (set_bits WIFI_CONNECTED_BIT g) i \<longleftrightarrow> i = 0 \<or> bit g i" "bit (set_bits BIT_MODE_NORMAL_OPERATION g) i \<longleftrightarrow> i = 0 \<or> bit g i"
  "bit (set_bits BIT_MODE_CONFIG g) i \<longleftrightarrow> i = 1 \<or> bit g i" "bit (set_bits BIT_MQTT_CONNECTED g) i \<longleftrightarrow> i = 0 \<or> bit g i"
  "bit (clear_bits WIFI_CONNECTED_BIT g) i \<longleftrightarrow> i \<noteq> 0 \<and> bit g i" "bit (clear_bits BIT_MODE_CONFIG g) i \<longleftrightarrow> i \<noteq> 1 \<and> bit g i"
  "bit (clear_bits BIT_MQTT_CONNECTED g) i \<longleftrightarrow> i \<noteq> 0 \<and> bit g i"
  by (auto simp only: bit_defs bit_or_iff bit_and_iff bit_not_iff flag_bits possible_bit_word dest: bit_imp_le_length)

lemma no_sleeper_run: "station_run P (station_init w r k) tr s \<Longrightarrow> no_sleeper s"
proof (erule run_inv [where I = "\<lambda>tr s. no_sleeper s"])
  show "no_sleeper (station_init w r k)" by (simp add: no_sleeper_def station_init_def net_init_def)
qed (rule no_sleeper_step)

subsection \<open>A run of the station is a run of the pipeline\<close>

text \<open>Until the collector takes the time, the pipeline could have been started at any.\<close>

definition pipeline_follows :: "('e, 'r, 'k) platform \<Rightarrow> 'k \<Rightarrow> event list \<Rightarrow> ('e, 'r, 'k) station \<Rightarrow> bool" where
  "pipeline_follows P k tr s \<longleftrightarrow>
     (if pcs s G_Collect = T_Loop then \<exists>now. exec (p_os P) (p_libm P) (pipeline_init now k) tr (pipe s)
      else collector (pipe s) = collect_init 0
        \<and> (\<forall>now. exec (p_os P) (p_libm P) (pipeline_init now k) tr ((pipe s)\<lparr>collector := collect_init now\<rparr>)))"

lemma pipeline_follows_step:
  assumes "station_step P s e t" and "no_sleeper s" and "pipeline_follows P k (acts tr) s"
  shows "pipeline_follows P k (acts (tr @ [e])) t"
  using assms(1)
proof (cases rule: station_step.cases)
  case (network e m n)
  then show ?thesis using assms(3) by (simp add: pipeline_follows_def)
next
  case (arrive g)
  then show ?thesis using assms(3) by (auto simp: pipeline_follows_def wait_bits_def)
next
  case (start g)
  then show ?thesis using assms(3) by (auto simp: pipeline_follows_def)
next
  case (start_collect now)
  then show ?thesis using assms(3) by (auto simp: pipeline_follows_def)
next
  case (start_send created connect connecting cf)
  then show ?thesis using assms(3) by (simp add: pipeline_follows_def)
next
  case (callback accepted b)
  then show ?thesis using assms(2,3) by (simp add: pipeline_follows_def no_sleeper_def)
next
  case broker_wait
  then show ?thesis using assms(3) by (simp add: pipeline_follows_def)
next
  case (act g e p)
  note st = task_step_step [OF act(4)]
  show ?thesis
  proof (cases "pcs s G_Collect = T_Loop")
    case True
    then obtain now where "exec (p_os P) (p_libm P) (pipeline_init now k) (acts tr) (pipe s)"
      using assms(3) by (auto simp: pipeline_follows_def)
    from exec.more [OF this st] True act(1,2) show ?thesis by (auto simp: pipeline_follows_def)
  next
    case False
    then have g: "g \<noteq> G_Collect" using act(3) by auto
    note c = task_step_collector [OF act(4) g]
    have "exec (p_os P) (p_libm P) (pipeline_init now k) (acts tr @ [e]) (p\<lparr>collector := collect_init now\<rparr>)" for now
      using False assms(3) task_step_step [OF conjunct2 [OF c]] by (intro exec.more) (auto simp: pipeline_follows_def)
    with False c act(1,2) assms(3) show ?thesis by (simp add: pipeline_follows_def)
  qed
qed

lemma pipeline_run:
  assumes "station_run P (station_init w r k) tr s"
  shows "\<exists>now. exec (p_os P) (p_libm P) (pipeline_init now k) (acts tr) (pipe s)"
proof -
  have "pipeline_follows P k (acts tr) s" using assms
  proof (rule run_inv [where I = "\<lambda>tr s. pipeline_follows P k (acts tr) s"])
    show "pipeline_follows P k (acts []) (station_init w r k)"
      by (simp add: pipeline_follows_def station_init_def pipeline_init_def exec.start)
  qed (rule pipeline_follows_step, assumption, rule no_sleeper_run)
  moreover have "pipe s = (pipe s)\<lparr>collector := collect_init 0\<rparr>" if "collector (pipe s) = collect_init 0"
    using that by (cases "pipe s") simp
  ultimately show ?thesis unfolding pipeline_follows_def by (metis (full_types))
qed

subsection \<open>Without a link\<close>

definition dead_radio :: "'r radio \<Rightarrow> bool" where
  "dead_radio rad \<longleftrightarrow> (\<forall>n p a t d. fst (cyw43_connect rad n p a t d) \<noteq> 0) \<and> (\<forall>d. \<not> fst (cyw43_link_up rad d))"

definition unlinked :: "manager_pc \<Rightarrow> ('e, 'r) net \<Rightarrow> bool" where
  "unlinked m n \<longleftrightarrow> \<not> bit (events n) 0 \<and> Heartbeat \<notin> set (wlog n) \<and> (\<forall>g. m = M_Woken g \<longrightarrow> \<not> bit g 0)
     \<and> (m = M_Done \<longrightarrow> bit (events n) 1 \<or> wifi_pc n \<in> {W_Config, W_Rebooted})"

lemma note_events_simps [simp]:
  "events (note_events es s) = events s" "wlog (note_events es s) = wlog s @ es" "wifi_pc (note_events es s) = wifi_pc s"
  "chip (note_events es s) = chip s" "i2c (note_events es s) = i2c s"
  by (simp_all add: note_events_def)

lemma dead_radio_answers:
  assumes "dead_radio rad"
  shows "cyw43_connect rad n p a t d \<noteq> (0, r)" "cyw43_link_up rad d \<noteq> (True, r)"
  using assms unfolding dead_radio_def by (metis fst_conv)+

lemma unlinked_wifi:
  assumes "dead_radio rad" and "unlinked m n"
  shows "unlinked m (wifi_step env spd rad wc behind n)"
proof (cases "wifi_pc n")
  case W_Start
  obtain st r where i: "cyw43_init rad (country wc) (chip n) = (st, r)" by fastforce
  obtain x w where e: "EEPROM_ReadBlob env spd 0 (creds_bytes
      \<lparr>cssid = strncpy (ssid wc) (SSID_MAXLEN - 1) @ [0], cpass = strncpy (password wc) (PASS_MAXLEN - 1) @ [0]\<rparr>) (i2c n) = (x, w)" by fastforce
  show ?thesis
    using assms(2) W_Start dead_radio_answers [OF assms(1)]
    by (auto simp: wifi_step_def wifi_start_def Let_def i e unlinked_def split: prod.splits option.splits)
next
  case W_Loop
  then show ?thesis using assms(2) dead_radio_answers [OF assms(1)]
    by (auto simp: wifi_step_def wifi_round_def Let_def unlinked_def split: prod.splits)
next
  case W_Config
  then show ?thesis using assms by (auto simp: wifi_step_def config_round_def unlinked_def)
qed (use assms in \<open>simp_all add: wifi_step_def\<close>)

lemma unlinked_boot:
  assumes "boot_step env spd rad wc behind (m, n) e (m', n')" and "dead_radio rad" and "unlinked m n"
  shows "unlinked m' n'"
  using assms(1)
proof (cases rule: boot_step.cases)
  case wifi
  then show ?thesis using unlinked_wifi [OF assms(2,3)] by simp
next
  case (page params p g w)
  then show ?thesis using assms(3) by (auto simp: unlinked_def configHandler_def Let_def split: prod.splits)
qed (use assms(3) in \<open>auto simp: unlinked_def vSystemManagerTask_def\<close>)

definition held_back :: "station_event list \<Rightarrow> ('e, 'r, 'k) station \<Rightarrow> bool" where
  "held_back tr s \<longleftrightarrow> unlinked (mgr s) (nw s) \<and> (\<forall>t. pcs s t \<in> {T_Entry, T_Waiting}) \<and> acts tr = []"

lemma held_back_step:
  assumes "station_step P s e t" and "dead_radio (p_radio P)" and "held_back tr s"
  shows "held_back (tr @ [e]) t"
  using assms(1)
proof (cases rule: station_step.cases)
  case (network e m n)
  have "unlinked m n" by (rule unlinked_boot [OF network(3) assms(2)]) (use assms(3) in \<open>simp add: held_back_def\<close>)
  moreover from this have "\<not> bit (events n) 0" by (simp add: unlinked_def)
  ultimately show ?thesis using assms(3) network(1,2) by (simp add: held_back_def)
next
  case (arrive g)
  then show ?thesis using assms(3) by (auto simp: held_back_def wait_bits_def unlinked_def)
next
  case (callback accepted b)
  then show ?thesis using assms(3) by (metis held_back_def insertE singletonD empty_iff task_pc.distinct)
next
  case (act g e p)
  then show ?thesis using assms(3) by (metis held_back_def insertE singletonD task_pc.distinct)
qed (use assms(3) in \<open>metis held_back_def insertE singletonD task_pc.distinct\<close>)+

subsection \<open>The mode bit and the broker come first\<close>

definition mode_raised :: "('e, 'r, 'k) platform \<Rightarrow> ('e, 'r, 'k) station \<Rightarrow> station_event list \<Rightarrow> bool" where
  "mode_raised P s0 tr \<longleftrightarrow> (\<exists>tr1 tr2 u. tr = tr1 @ tr2 \<and> station_run P s0 tr1 u \<and> events (nw u) AND BIT_MODE_NORMAL_OPERATION \<noteq> 0)"

lemma mode_raised_more: "mode_raised P s0 tr \<Longrightarrow> mode_raised P s0 (tr @ tr')"
  unfolding mode_raised_def by (metis append.assoc)

lemma mode_raised_now: "station_run P s0 tr s \<Longrightarrow> bit (events (nw s)) 0 \<Longrightarrow> mode_raised P s0 tr"
  unfolding mode_raised_def by (intro exI [of _ tr] exI [of _ "[]"] exI [of _ s]) simp

definition gated_ok :: "('e, 'r, 'k) platform \<Rightarrow> ('e, 'r, 'k) station \<Rightarrow> station_event list \<Rightarrow> ('e, 'r, 'k) station \<Rightarrow> bool" where
  "gated_ok P s0 tr s \<longleftrightarrow> (\<forall>t. pcs s t \<in> {T_Entry, T_Waiting} \<or> mode_raised P s0 tr)"

lemma gated_ok_step:
  assumes "station_run P s0 tr s" and "gated_ok P s0 tr s" and "station_step P s e t"
  shows "gated_ok P s0 (tr @ [e]) t"
proof (cases "mode_raised P s0 tr \<or> mode_raised P s0 (tr @ [e])")
  case True
  then show ?thesis using mode_raised_more by (auto simp: gated_ok_def)
next
  case False
  have 1: "\<not> bit (events (nw s)) 0" using False mode_raised_now [OF assms(1)] by blast
  have 2: "\<not> bit (events (nw t)) 0" using False mode_raised_now [OF station_run.more [OF assms(1,3)]] by blast
  have w: "pcs s g = T_Entry \<or> pcs s g = T_Waiting" for g using False assms(2) by (auto simp: gated_ok_def)
  show ?thesis using assms(3)
  proof (cases rule: station_step.cases)
    case (network e m n)
    then show ?thesis using 2 w by (auto simp: gated_ok_def)
  next
    case (arrive g)
    then show ?thesis using 1 w by (auto simp: gated_ok_def wait_bits_def)
  next
    case (callback accepted b)
    then show ?thesis using w [of G_Send] by auto
  next
    case (act g e p)
    then show ?thesis using w [of g] by auto
  qed (use w in \<open>metis task_pc.distinct\<close>)+
qed

definition client_ready :: "('e, 'r, 'k) platform \<Rightarrow> MQTT_Config \<Rightarrow> bool" where
  "client_ready P c \<longleftrightarrow> hkUniqueID (map of_char ''pico'') (p_board P) 32 = Some (client_id c) \<and> p_aton P hkMQTT_BROKER_ADDR = Some (mqttServerAddress c)
     \<and> mqttServerPort c = hkMQTT_BROKER_PORT \<and> topic c = hkMQTT_TOPIC \<and> keep_alive c = hkMQTT_KEEPALIVE"

lemma send_start_ready:
  "send_start (p_board P) created (p_aton P) connect cf = Some (True, cf') \<Longrightarrow> client_ready P cf'"
  by (auto simp: send_start_def MQTT_Init_def client_ready_def PICO_ERROR_CONNECT_FAILED_def PICO_ERROR_INVALID_ADDRESS_def Let_def
      split: option.splits if_splits)

definition accepted_ok :: "('e, 'r, 'k) platform \<Rightarrow> station_event list \<Rightarrow> ('e, 'r, 'k) station \<Rightarrow> bool" where
  "accepted_ok P tr s \<longleftrightarrow> (bit (broker s) 0 \<or> pcs s G_Send = T_Loop \<longrightarrow> Callback True \<in> set tr)
     \<and> (pcs s G_Send \<in> {T_Broker, T_Blocked, T_Loop} \<longrightarrow> client_ready P (mqtt s))"

lemma accepted_ok_step:
  assumes "accepted_ok P tr s" and "station_step P s e t"
  shows "accepted_ok P (tr @ [e]) t"
  using assms(2)
proof (cases rule: station_step.cases)
  case (start_send created connect connecting cf)
  then show ?thesis using assms(1) send_start_ready by (auto simp: accepted_ok_def)
next
  case (callback a b)
  then show ?thesis using assms(1) by (cases a) (auto simp: accepted_ok_def mqttClientConnectCallback_def)
next
  case (network e m n)
  then show ?thesis using assms(1) by (auto simp: accepted_ok_def)
next
  case (arrive g)
  then show ?thesis using assms(1) by (auto simp: accepted_ok_def wait_bits_def)
next
  case (start g)
  then show ?thesis using assms(1) by (auto simp: accepted_ok_def)
next
  case broker_wait
  then show ?thesis using assms(1) by (auto simp: accepted_ok_def wait_bits_def)
qed (use assms(1) in \<open>auto simp: accepted_ok_def\<close>)

lemma station_facts:
  assumes "station_run P (station_init w r k) tr s"
  shows "gated_ok P (station_init w r k) tr s" "accepted_ok P tr s"
proof -
  show "gated_ok P (station_init w r k) tr s" using assms
  proof (rule run_inv)
    show "gated_ok P (station_init w r k) [] (station_init w r k)" by (simp add: gated_ok_def station_init_def)
  qed (rule gated_ok_step)
  show "accepted_ok P tr s" using assms
  proof (rule run_inv)
    show "accepted_ok P [] (station_init w r k)" by (simp add: accepted_ok_def station_init_def)
  qed (rule accepted_ok_step)
qed

text \<open>Runs can be put together and cut.\<close>

lemma run_trans: "station_run P t tr' u \<Longrightarrow> station_run P s tr t \<Longrightarrow> station_run P s (tr @ tr') u"
proof (induction rule: station_run.induct)
  case (more tr' t e u)
  then show ?case using station_run.more [of P s "tr @ tr'" t e u] by simp
qed simp

lemma run_step: "station_step P s e t \<Longrightarrow> station_run P s [e] t"
  using station_run.more [OF station_run.none] by fastforce

lemma run_split: "station_run P s (tr1 @ tr2) t \<Longrightarrow> \<exists>u. station_run P s tr1 u \<and> station_run P u tr2 t"
proof (induction tr2 arbitrary: t rule: rev_induct)
  case Nil
  then show ?case by (auto intro: station_run.none)
next
  case (snoc e tr2)
  then have "station_run P s ((tr1 @ tr2) @ [e]) t" by simp
  then obtain v where v: "station_run P s (tr1 @ tr2) v" "station_step P v e t" by (rule run_snocE)
  with snoc.IH obtain u where "station_run P s tr1 u" "station_run P u tr2 v" by blast
  with v(2) show ?case by (blast intro: station_run.more)
qed

subsection \<open>Properties\<close>

text \<open>C11. A station without a link is silent: as long as no connection attempt succeeds and the link never comes up, no task
  gets through its gate, nothing is sensed, shown or published, and once the manager is done the WiFi task's next
  round opens the access point for the configuration page, unless it is open already or the station reboots.\<close>

theorem STATION_offline_silent:
  assumes "dead_radio (p_radio P)" and "station_run P (station_init w r k) tr s"
  shows "acts tr = [] \<and> (\<forall>t. pcs s t \<in> {T_Entry, T_Waiting})
    \<and> (mgr s = M_Done \<and> wifi_pc (nw s) = W_Loop \<longrightarrow> wifi_pc (wifi_step env spd (p_radio P) wc behind (nw s)) = W_Config)"
proof -
  have "held_back tr s" using assms(2)
  proof (rule run_inv)
    show "held_back [] (station_init w r k)" by (simp add: held_back_def unlinked_def station_init_def net_init_def)
  qed (rule held_back_step [OF _ assms(1)])
  then show ?thesis by (auto simp: held_back_def unlinked_def wifi_step_def wifi_round_def)
qed

text \<open>C3. What is published, when and where: before a text goes to the broker the mode bit was raised and the broker has accepted
  the client, which names itself \<open>pico\<close> and the board's identifier and publishes to the configured topic and
  address; and the text is the JSON of a packet that a BME280 task sent before.\<close>

theorem STATION_publishes_accepted:
  assumes "freertos (p_os P) content ready" and "content k = (\<lambda>_. None)" and "ready k = []"
    and "station_run P (station_init w r k) (tr @ [Act g (Published j)]) s"
  shows "mode_raised P (station_init w r k) tr \<and> Callback True \<in> set tr \<and> client_ready P (mqtt s) \<and> published_ok (acts tr) j"
proof -
  obtain u where u: "station_run P (station_init w r k) tr u" and st: "station_step P u (Act g (Published j)) s"
    using assms(4) by (rule run_snocE)
  from st obtain p where p: "s = u\<lparr>pipe := p\<rparr>" "pcs u g = T_Loop" "task_step (p_os P) (p_libm P) (pipe u) g (Published j) p"
    by (rule station_actE)
  from p(3) have g: "g = G_Send" by (cases rule: task_step.cases) (auto split: option.splits item.splits if_splits)
  note f = station_facts [OF u]
  have "mode_raised P (station_init w r k) tr" using f(1) [unfolded gated_ok_def, rule_format, of g] p(2) by simp
  moreover have "Callback True \<in> set tr" "client_ready P (mqtt s)" using f(2) p(1,2) g by (simp_all add: accepted_ok_def)
  moreover obtain now where "exec (p_os P) (p_libm P) (pipeline_init now k) (acts (tr @ [Act g (Published j)])) (pipe s)"
    using pipeline_run [OF assms(4)] by blast
  then have "published_ok (acts (tr @ [Act g (Published j)])) j"
    using healthy_from_start [OF assms(1-3)] by (simp add: healthy_def)
  then have "published_ok (acts tr) j" by (simp add: published_ok_def)
  ultimately show ?thesis by blast
qed

subsection \<open>Runs\<close>

text \<open>A schedule of the pipeline is one of the station once the tasks it names are in their loops.\<close>

fun actor :: "choice \<Rightarrow> gated" where
  "actor (Do_sense x r) = G_Sensor x"
| "actor (Do_collect now) = G_Collect"
| "actor (Do_process behind) = G_Process"
| "actor Do_display = G_Display"
| "actor (Do_publish missing) = G_Send"

lemma do_step_task: "allowed c \<Longrightarrow> do_step lm c s = (e, t) \<Longrightarrow> task_step list_os lm s (actor c) e t"
  by (cases c) (auto simp: allowed_def split: prod.splits intro: task_step.intros)

lemma station_schedule:
  assumes "p_os P = list_os" and "list_all (\<lambda>c. allowed c \<and> pcs s (actor c) = T_Loop) cs"
    and "run_schedule (p_libm P) cs (tr, pipe s) = (tr', p)"
  shows "\<exists>as. station_run P s as (s\<lparr>pipe := p\<rparr>) \<and> tr' = tr @ acts as"
  using assms(2,3)
proof (induction cs arbitrary: s tr)
  case Nil
  then show ?case by (auto intro!: exI [of _ "[]"] station_run.none)
next
  case (Cons c cs)
  obtain e q where q: "do_step (p_libm P) c (pipe s) = (e, q)" by fastforce
  have "station_step P s (Act (actor c) e) (s\<lparr>pipe := q\<rparr>)"
    using Cons.prems(1) do_step_task [OF _ q] assms(1) by (auto intro: station_step.act)
  moreover have "run_schedule (p_libm P) cs (tr @ [e], pipe (s\<lparr>pipe := q\<rparr>)) = (tr', p)" using Cons.prems(2) q by simp
  then obtain as where "station_run P (s\<lparr>pipe := q\<rparr>) as (s\<lparr>pipe := p\<rparr>)" "tr' = tr @ [e] @ acts as"
    using Cons.IH [of "s\<lparr>pipe := q\<rparr>" "tr @ [e]"] Cons.prems(1) by auto
  ultimately show ?case by (intro exI [of _ "Act (actor c) e # as"]) (auto simp: acts_def dest: run_trans [OF _ run_step])
qed

text \<open>The way of a task through a gate whose bit is set.\<close>

lemma pass_gate:
  assumes "pcs s t = T_Entry" and "bit (events (nw s)) 0" and "t \<noteq> G_Send" and "collector (pipe s) = collect_init 0"
  shows "station_run P s [Arrive t, Start t] (s\<lparr>pcs := (pcs s)(t := T_Loop)\<rparr>)"
proof -
  let ?s = "s\<lparr>pcs := (pcs s)(t := T_Starting)\<rparr>"
  have 1: "station_step P s (Arrive t) ?s" using station_step.arrive [OF assms(1), of P] assms(2) by (simp add: wait_bits_def)
  have c: "pipe s = (pipe s)\<lparr>collector := collect_init 0\<rparr>" using assms(4) by (cases "pipe s") simp
  have 2: "station_step P ?s (Start t) (s\<lparr>pcs := (pcs s)(t := T_Loop)\<rparr>)"
  proof (cases "t = G_Collect")
    case True
    then show ?thesis using station_step.start_collect [of ?s P 0] c [symmetric] by (cases s) simp
  next
    case False
    then show ?thesis using station_step.start [of ?s t P] assms(3) by simp
  qed
  show ?thesis using station_run.more [OF run_step [OF 1] 2] by simp
qed

lemma pass_gates:
  assumes "distinct ts" and "\<forall>t \<in> set ts. pcs s t = T_Entry \<and> t \<noteq> G_Send" and "bit (events (nw s)) 0" and "collector (pipe s) = collect_init 0"
  shows "\<exists>tr. station_run P s tr (s\<lparr>pcs := (\<lambda>t. if t \<in> set ts then T_Loop else pcs s t)\<rparr>) \<and> acts tr = []"
  using assms
proof (induction ts arbitrary: s)
  case Nil
  then show ?case by (auto intro!: exI [of _ "[]"] station_run.none)
next
  case (Cons t ts)
  let ?s = "s\<lparr>pcs := (pcs s)(t := T_Loop)\<rparr>"
  have 1: "station_run P s [Arrive t, Start t] ?s" by (rule pass_gate) (use Cons.prems in simp_all)
  obtain tr where tr: "station_run P ?s tr (?s\<lparr>pcs := (\<lambda>g. if g \<in> set ts then T_Loop else pcs ?s g)\<rparr>)" "acts tr = []"
    using Cons.IH [of ?s] Cons.prems by fastforce
  have "(\<lambda>g. if g \<in> set ts then T_Loop else pcs ?s g) = (\<lambda>g. if g \<in> set (t # ts) then T_Loop else pcs s g)" by auto
  with run_trans [OF tr(1) 1] tr(2) show ?case by (intro exI [of _ "[Arrive t, Start t] @ tr"]) (simp add: acts_def)
qed

lemma pass_send:
  assumes "pcs s G_Send = T_Entry" and "bit (events (nw s)) 0" and "\<forall>t. t \<noteq> G_Send \<longrightarrow> pcs s t \<noteq> T_Blocked"
    and "send_start (p_board P) created (p_aton P) connect (mqtt s) = Some (True, cf)"
  shows "\<exists>tr b. station_run P s tr (s\<lparr>pcs := (pcs s)(G_Send := T_Loop), mqtt := cf, broker := b\<rparr>) \<and> acts tr = []"
proof -
  let ?s = "\<lambda>pc. s\<lparr>pcs := (pcs s)(G_Send := pc)\<rparr>" and ?b = "set_bits BIT_MQTT_CONNECTED (broker s)"
  let ?t = "\<lambda>pc. s\<lparr>pcs := (pcs s)(G_Send := pc), mqtt := cf, broker := ?b\<rparr>"
  have 1: "station_step P s (Arrive G_Send) (?s T_Starting)" using station_step.arrive [OF assms(1), of P] assms(2) by (simp add: wait_bits_def)
  have 2: "station_step P (?s T_Starting) (Start G_Send) ((?s T_Broker)\<lparr>mqtt := cf\<rparr>)"
    using station_step.start_send [of "?s T_Starting" P created connect True cf] assms(4) by simp
  have "wake BIT_MQTT_CONNECTED T_Blocked T_Loop ?b ((pcs s)(G_Send := T_Broker)) = (pcs s)(G_Send := T_Broker)"
    using assms(3) by (auto simp: fun_eq_iff)
  then have 3: "station_step P ((?s T_Broker)\<lparr>mqtt := cf\<rparr>) (Callback True) (?t T_Broker)"
    using station_step.callback [of "(?s T_Broker)\<lparr>mqtt := cf\<rparr>" True ?b P] by (cases s) (simp add: mqttClientConnectCallback_def)
  have 4: "station_step P (?t T_Broker) Broker_Wait (?t T_Loop)"
    using station_step.broker_wait [of "?t T_Broker" P] by (cases s) (simp add: wait_bits_def)
  have "station_run P s ((([Arrive G_Send] @ [Start G_Send]) @ [Callback True]) @ [Broker_Wait]) (?t T_Loop)"
    by (rule station_run.more [OF station_run.more [OF station_run.more [OF run_step [OF 1] 2] 3] 4])
  then show ?thesis by (intro exI [of _ "[Arrive G_Send, Start G_Send, Callback True, Broker_Wait]"] exI [of _ ?b]) (simp add: acts_def)
qed

text \<open>C19. The bit that means \<open>connected\<close> and the bit that means \<open>normal mode\<close> are one and the same, so the two modes are not exclusive:
  on every station whose radio starts and connects there is a schedule in which the manager's thirty seconds run out before the radio has
  connected, and the WiFi task ends in configuration mode with its open access point while every sensor task, the collector, the
  processing and the display task run as in normal mode.\<close>

theorem STATION_measures_in_config_mode:
  assumes "eeprom_chip (p_env P) mem ptr" and "0 \<in> set (p_behind P)"
    and "\<And>c d. fst (cyw43_init (p_radio P) c d) = 0" and "\<And>n p a t d. fst (cyw43_connect (p_radio P) n p a t d) = 0"
  shows "\<exists>tr s. station_run P (station_init w r k) tr s \<and> wifi_pc (nw s) = W_Config \<and> Access_Point \<in> set (wlog (nw s))
    \<and> events (nw s) AND BIT_MODE_CONFIG \<noteq> 0 \<and> (\<forall>t. t \<noteq> G_Send \<longrightarrow> pcs s t = T_Loop)"
proof -
  let ?wifi = "wifi_step (p_env P) (p_speed P) (p_radio P) (p_cfg P) (p_behind P)"
  define s1 where "s1 = (net_init w r)\<lparr>events := vSystemManagerTask 0 0\<rparr>"
  have s1: "events s1 = set_bits BIT_MODE_CONFIG 0" "wifi_pc s1 = W_Start"
    by (simp_all add: s1_def vSystemManagerTask_def net_init_def)
  obtain name where name: "c_string (mem (dev (i2c s1)) @ p_behind P) = Some name" using assms(2) by (simp add: c_string_def)
  obtain pw where pw: "c_string (drop 64 (mem (dev (i2c s1))) @ p_behind P) = Some pw" using assms(2) by (simp add: c_string_def)
  obtain r1 where r1: "cyw43_init (p_radio P) (country (p_cfg P)) (chip s1) = (0, r1)" using assms(3) by (metis prod.collapse)
  obtain r2 where r2: "cyw43_connect (p_radio P) name pw (authType (p_cfg P)) 30000 r1 = (0, r2)" using assms(4) by (metis prod.collapse)
  have s2: "wifi_pc (?wifi s1) = W_Loop" "events (?wifi s1) = set_bits WIFI_CONNECTED_BIT (set_bits BIT_MODE_CONFIG 0)"
    using wifi_start_chip [OF assms(1) r1 name pw r2, of "p_speed P"] s1 by (simp_all add: wifi_step_def)
  have s3: "wifi_pc (?wifi (?wifi s1)) = W_Config" "events (?wifi (?wifi s1)) = events (?wifi s1)" "Access_Point \<in> set (wlog (?wifi (?wifi s1)))"
    using s2 by (simp_all add: wifi_step_def [of _ _ _ _ _ "?wifi s1"] wifi_round_def)
  define st where "st = (\<lambda>m n. (station_init w r k)\<lparr>mgr := m, nw := n\<rparr>)"
  have step: "station_step P (st m n) (Network e) (st m' n')"
    if "boot_step (p_env P) (p_speed P) (p_radio P) (p_cfg P) (p_behind P) (m, n) e (m', n')" for m n e m' n'
    using station_step.network [of P "st m n" e m' n'] that
    by (simp add: st_def station_init_def wake_def cong: if_cong)
  have init: "station_init w r k = st M_Waiting (net_init w r)" by (simp add: st_def station_init_def)
  have e0: "events (net_init w r) = 0" by (simp add: net_init_def)
  have 1: "station_step P (st M_Waiting (net_init w r)) (Network E_Wake) (st (M_Woken 0) (net_init w r))"
    using step [OF boot_step.wake, of "net_init w r"] e0 by simp
  have 2: "station_step P (st (M_Woken 0) (net_init w r)) (Network E_Mode) (st M_Done s1)"
    using step [OF boot_step.mode, of 0 "net_init w r"] e0 by (simp add: s1_def)
  note 34 = step [OF boot_step.wifi, of M_Done s1] step [OF boot_step.wifi, of M_Done "?wifi s1"]
  have run: "station_run P (station_init w r k) ((([Network E_Wake] @ [Network E_Mode]) @ [Network E_Wifi]) @ [Network E_Wifi]) (st M_Done (?wifi (?wifi s1)))"
    unfolding init by (rule station_run.more [OF station_run.more [OF station_run.more [OF run_step [OF 1] 2] 34(1)] 34(2)])
  let ?ts = "map G_Sensor [BME280_0, BME280_1, DHT20_0, DHT20_1, DHT11_0, DHT22_0, SGP30_0, DS18B20_0, PMS5003_0] @ [G_Collect, G_Process, G_Display]"
  obtain tr where tr: "station_run P (st M_Done (?wifi (?wifi s1))) tr
      ((st M_Done (?wifi (?wifi s1)))\<lparr>pcs := (\<lambda>t. if t \<in> set ?ts then T_Loop else pcs (st M_Done (?wifi (?wifi s1))) t)\<rparr>)"
    using pass_gates [of ?ts "st M_Done (?wifi (?wifi s1))" P] s2(2) s3(2) by (auto simp: st_def station_init_def pipeline_init_def)
  have all: "t \<in> set ?ts" if "t \<noteq> G_Send" for t using that
  proof (cases t)
    case (G_Sensor x)
    then show ?thesis by (cases x) simp_all
  qed simp_all
  show ?thesis
    by (rule exI, rule exI, rule conjI, rule run_trans [OF tr run]) (use s2(2) s3 all in \<open>simp add: st_def\<close>)
qed

subsection \<open>A station that publishes\<close>

definition demo_platform :: "'r radio \<Rightarrow> (u8 list \<times> nat, 'r, list_kernel) platform" where
  "demo_platform rad = \<lparr>p_env = chip_env, p_speed = 400000, p_radio = rad, p_cfg = demo_cfg, p_behind = [0], p_os = list_os, p_libm = id_libm,
     p_board = map of_char ''E6614103'', p_aton = (\<lambda>_. Some 1)\<rparr>"

definition lost_radio :: "unit radio" where
  "lost_radio = good_radio\<lparr>cyw43_connect := (\<lambda>n p a t d. (- 2, d)), cyw43_link_up := (\<lambda>d. (False, d))\<rparr>"

lemma demo_platform_sel [simp]:
  "p_env (demo_platform rad) = chip_env" "p_radio (demo_platform rad) = rad" "p_cfg (demo_platform rad) = demo_cfg"
  "p_behind (demo_platform rad) = [0]" "p_os (demo_platform rad) = list_os" "p_libm (demo_platform rad) = id_libm"
  by (simp_all add: demo_platform_def)

abbreviation demo_station :: "(u8 list \<times> nat, unit, list_kernel) station" where
  "demo_station \<equiv> station_init demo_world () empty_lists"

lemma demo_json: "\<exists>json. BME280_Jsonify [] bme_ready = Some json"
proof -
  have "fmt_f 2 0 = ''0.00''" by code_simp
  then show ?thesis
    by (simp add: BME280_Jsonify_def bme_ready_def BME280_zero_def jsonify_into_def snprintf_def hkBM280_JSON_BUFFER_def)
qed

text \<open>The start of the WiFi task, on any radio that starts up.\<close>

lemma station_demo_start:
  assumes "\<And>c. cyw43_init rad c () = (0, ())" and "\<And>n p a t. fst (cyw43_connect rad n p a t ()) = st"
  shows "wifi_pc (wifi_step chip_env spd rad demo_cfg [0] ((net_init demo_world ())\<lparr>events := g\<rparr>)) = W_Loop"
    "events (wifi_step chip_env spd rad demo_cfg [0] ((net_init demo_world ())\<lparr>events := g\<rparr>))
      = (if st \<noteq> 0 then clear_bits WIFI_CONNECTED_BIT g else set_bits WIFI_CONNECTED_BIT g)"
proof -
  let ?n = "(net_init demo_world ())\<lparr>events := g\<rparr>"
  obtain nm where nm: "c_string (chip_mem (dev (i2c ?n)) @ [0]) = Some nm" by (simp add: c_string_def)
  obtain pw where pw: "c_string (drop 64 (chip_mem (dev (i2c ?n))) @ [0]) = Some pw" by (simp add: c_string_def)
  have i: "cyw43_init rad (country demo_cfg) (chip ?n) = (0, ())" using assms(1) by (simp add: net_init_def)
  have c: "cyw43_connect rad nm pw (authType demo_cfg) 30000 () = (st, ())" using assms(2) by (metis prod.collapse unit.exhaust)
  note w = wifi_start_chip [OF chip_env_ok i nm pw c, of spd]
  show "wifi_pc (wifi_step chip_env spd rad demo_cfg [0] ?n) = W_Loop" "events (wifi_step chip_env spd rad demo_cfg [0] ?n)
      = (if st \<noteq> 0 then clear_bits WIFI_CONNECTED_BIT g else set_bits WIFI_CONNECTED_BIT g)"
    using w by (simp_all add: wifi_step_def net_init_def)
qed

lemma net_init_events: "(net_init w r)\<lparr>events := 0\<rparr> = net_init w r"
  by (simp add: net_init_def)

text \<open>The first connection attempt raises the bit.\<close>

lemma demo_linked:
  "\<exists>n. station_run (demo_platform good_radio) demo_station [Network E_Wifi] (demo_station\<lparr>nw := n\<rparr>) \<and> bit (events n) 0"
proof -
  let ?P = "demo_platform good_radio" and ?n = "net_init demo_world ()"
  define n where "n = wifi_step chip_env (p_speed ?P) good_radio demo_cfg [0] ?n"
  have "events n = set_bits WIFI_CONNECTED_BIT 0"
    using station_demo_start(2) [of good_radio 0 "p_speed ?P" 0] by (simp add: n_def good_radio_def net_init_events)
  moreover have "station_run ?P demo_station [Network E_Wifi] (demo_station\<lparr>nw := n\<rparr>)"
    using station_step.network [of ?P demo_station E_Wifi M_Waiting n] boot_step.wifi [of chip_env _ good_radio demo_cfg "[0]" M_Waiting ?n]
    by (intro run_step) (simp add: n_def station_init_def wake_def cong: if_cong)
  ultimately show ?thesis by (intro exI [of _ n]) simp
qed

text \<open>Two tasks and the sender pass their gates, a packet is sensed, collected and published.\<close>

lemma demo_publishes:
  "\<exists>tr g j s. station_run (demo_platform good_radio) demo_station (tr @ [Act g (Published j)]) s"
proof -
  let ?P = "demo_platform good_radio"
  obtain n where 1: "station_run ?P demo_station [Network E_Wifi] (demo_station\<lparr>nw := n\<rparr>)" and bit: "bit (events n) 0"
    using demo_linked by blast
  define s where "s = demo_station\<lparr>nw := n\<rparr>"
  note 1 = 1 [folded s_def]
  obtain cf where cf: "send_start (p_board ?P) True (p_aton ?P) (\<lambda>_. 0) (mqtt s) = Some (True, cf)"
    using MQTT_client_id_fits [of "p_board ?P" "map of_char ''pico''" 32]
    by (auto simp: send_start_def MQTT_Init_def demo_platform_def PICO_ERROR_CONNECT_FAILED_def PICO_ERROR_INVALID_ADDRESS_def PICO_OK_def)
  let ?ts = "[G_Sensor BME280_0, G_Collect]"
  have s: "pcs s t = T_Entry" "pipe s = pipeline_init 0 empty_lists" "nw s = n" for t by (simp_all add: s_def station_init_def)
  obtain tr2 u where 2: "station_run ?P s tr2 u" and u: "u = s\<lparr>pcs := (\<lambda>t. if t \<in> set ?ts then T_Loop else pcs s t)\<rparr>"
    using pass_gates [of ?ts s ?P] bit s by (auto simp: pipeline_init_def)
  have c: "pcs u G_Send = T_Entry" "bit (events (nw u)) 0" "\<forall>t. t \<noteq> G_Send \<longrightarrow> pcs u t \<noteq> T_Blocked" "mqtt u = mqtt s"
    using s bit by (simp_all add: u)
  obtain tr3 b where 3: "station_run ?P u tr3 (u\<lparr>pcs := (pcs u)(G_Send := T_Loop), mqtt := cf, broker := b\<rparr>)"
    using pass_send [OF c(1-3)] cf unfolding c(4) by blast
  let ?v = "u\<lparr>pcs := (pcs u)(G_Send := T_Loop), mqtt := cf, broker := b\<rparr>"
  let ?cs = "[Do_sense BME280_0 (BME280_Reading bme_ready), Do_collect 0, Do_collect 0, Do_collect 2000, Do_collect 2000, Do_collect 2000,
      Do_publish [], Do_publish []]"
  have v: "pipe ?v = pipeline_init 0 empty_lists" by (simp add: u s)
  obtain tr4 p where r: "run_schedule id_libm ?cs ([], pipeline_init 0 empty_lists) = (tr4, p)" by fastforce
  have "\<exists>j. Published j \<in> set tr4" using r demo_json by (auto simp: run_simps bme_ready_def)
  then obtain j where j: "Published j \<in> set tr4" by blast
  obtain as where as: "station_run ?P ?v as (?v\<lparr>pipe := p\<rparr>)" "tr4 = acts as"
    using station_schedule [of ?P ?v ?cs "[]" tr4 p] r unfolding v demo_platform_sel by (auto simp: allowed_def u)
  from j obtain g where "Act g (Published j) \<in> set as" unfolding as(2) set_acts by blast
  then obtain as1 as2 where "as = as1 @ Act g (Published j) # as2" by (blast dest: split_list)
  with as(1) obtain w where "station_run ?P ?v (as1 @ [Act g (Published j)]) w"
    using run_split [of ?P ?v "as1 @ [Act g (Published j)]" as2] by auto
  from run_trans [OF run_trans [OF run_trans [OF this 3] 2] 1] show ?thesis by (metis append_assoc)
qed

theorem STATION_measures_in_config_mode_witness:
  "\<exists>tr s. station_run (demo_platform good_radio) demo_station tr s \<and> wifi_pc (nw s) = W_Config \<and> Access_Point \<in> set (wlog (nw s))
    \<and> events (nw s) AND BIT_MODE_CONFIG \<noteq> 0 \<and> (\<forall>t. t \<noteq> G_Send \<longrightarrow> pcs s t = T_Loop)"
  using STATION_measures_in_config_mode [of "demo_platform good_radio" chip_mem snd demo_world "()" empty_lists] chip_env_ok
  by (simp add: good_radio_def)

theorem STATION_publishes_accepted_witness:
  "\<exists>tr g j s. station_run (demo_platform good_radio) demo_station (tr @ [Act g (Published j)]) s \<and> Callback True \<in> set tr \<and> published_ok (acts tr) j"
proof -
  obtain tr g j s where r: "station_run (demo_platform good_radio) demo_station (tr @ [Act g (Published j)]) s" using demo_publishes by blast
  have "freertos (p_os (demo_platform good_radio)) fst snd" using list_os.freertos_axioms by simp
  from STATION_publishes_accepted [OF this empty_lists_sel r] r show ?thesis by blast
qed

theorem STATION_offline_silent_witness:
  "\<exists>s. station_run (demo_platform lost_radio) demo_station [Network E_Wake, Network E_Mode, Network E_Wifi, Arrive G_Send] s
    \<and> pcs s G_Send \<noteq> T_Starting \<and> wifi_pc (wifi_step chip_env 400000 lost_radio demo_cfg [0] (nw s)) = W_Config"
proof -
  let ?P = "demo_platform lost_radio" and ?n = "net_init demo_world ()"
  let ?n1 = "?n\<lparr>events := vSystemManagerTask 0 0\<rparr>"
  define n2 where "n2 = wifi_step chip_env (p_speed ?P) lost_radio demo_cfg [0] ?n1"
  have l: "\<And>c. cyw43_init lost_radio c () = (0, ())" "\<And>n p a t. fst (cyw43_connect lost_radio n p a t ()) = - 2"
    by (simp_all add: lost_radio_def good_radio_def)
  have d: "dead_radio (p_radio ?P)" by (simp add: dead_radio_def lost_radio_def)
  have n1: "events ?n1 = set_bits BIT_MODE_CONFIG 0" by (simp add: vSystemManagerTask_def)
  have n2: "wifi_pc n2 = W_Loop" "\<not> bit (events n2) 0"
    using station_demo_start [OF l] n1 unfolding n2_def by simp_all
  let ?s = "\<lambda>m n. demo_station\<lparr>mgr := m, nw := n\<rparr>"
  have step: "station_step ?P (?s m n) (Network e) (?s m' n')"
    if "boot_step chip_env (p_speed ?P) lost_radio demo_cfg [0] (m, n) e (m', n')" for m n e m' n'
    using station_step.network [of ?P "?s m n" e m' n'] that by (simp add: station_init_def wake_def cong: if_cong)
  have i: "?s M_Waiting ?n = demo_station" by (simp add: station_init_def)
  have e0: "events ?n = 0" by (simp add: net_init_def)
  have 1: "station_step ?P demo_station (Network E_Wake) (?s (M_Woken 0) ?n)"
    using step [OF boot_step.wake, of ?n] unfolding i e0 .
  have 2: "station_step ?P (?s (M_Woken 0) ?n) (Network E_Mode) (?s M_Done ?n1)"
    using step [OF boot_step.mode, of ?n 0] e0 by simp
  have 3: "station_step ?P (?s M_Done ?n1) (Network E_Wifi) (?s M_Done n2)"
    using step [OF boot_step.wifi, of ?n1 M_Done] by (simp add: n2_def)
  have 4: "station_step ?P (?s M_Done n2) (Arrive G_Send) ((?s M_Done n2)\<lparr>pcs := (pcs demo_station)(G_Send := T_Waiting)\<rparr>)"
    using station_step.arrive [of "?s M_Done n2" G_Send ?P] n2(2) by (simp add: station_init_def wait_bits_def)
  have r: "station_run ?P demo_station ((([Network E_Wake] @ [Network E_Mode]) @ [Network E_Wifi]) @ [Arrive G_Send])
      ((?s M_Done n2)\<lparr>pcs := (pcs demo_station)(G_Send := T_Waiting)\<rparr>)"
    by (rule station_run.more [OF station_run.more [OF station_run.more [OF run_step [OF 1] 2] 3] 4])
  from STATION_offline_silent [OF d r, of chip_env 400000 demo_cfg "[0]"] n2(1) r show ?thesis
    by (intro exI [of _ "(?s M_Done n2)\<lparr>pcs := (pcs demo_station)(G_Send := T_Waiting)\<rparr>"]) simp
qed

subsection \<open>main starts this station\<close>

text \<open>The gate of a task that main creates; the two with the highest priority have none.\<close>

definition gate_of :: "sensor option \<times> task \<Rightarrow> gated option" where
  "gate_of st = (case fst st of Some x \<Rightarrow> Some (G_Sensor x)
     | None \<Rightarrow> if tname (snd st) = ''Collect_Task'' then Some G_Collect
               else if tname (snd st) = ''Process_Task'' then Some G_Process
               else if tname (snd st) = ''Display_Task'' then Some G_Display
               else if tname (snd st) = ''Data_Send_Task'' then Some G_Send else None)"

text \<open>Every task behind the mode bit is created exactly once, besides the manager and the WiFi task.\<close>

lemma MAIN_starts_station:
  assumes "phase (main a wpa2 poland (reset_board ws l)) = Scheduling"
  shows "tasks (main a wpa2 poland (reset_board ws l)) = map snd (tasks_of_main wpa2 poland (Some 0))"
    and "distinct (List.map_filter gate_of (tasks_of_main wpa2 poland (Some 0)))"
    and "set (List.map_filter gate_of (tasks_of_main wpa2 poland (Some 0))) = UNIV"
    and "length (filter (\<lambda>t. gate_of t = None) (tasks_of_main wpa2 poland (Some 0))) = 2"
proof -
  let ?ts = "[G_Sensor BME280_0, G_Sensor BME280_1, G_Sensor DHT20_0, G_Sensor DHT20_1, G_Sensor DHT11_0, G_Sensor DHT22_0,
     G_Sensor SGP30_0, G_Sensor DS18B20_0, G_Sensor PMS5003_0, G_Collect, G_Process, G_Display, G_Send]"
  have g: "List.map_filter gate_of (tasks_of_main wpa2 poland (Some 0)) = ?ts"
    by (simp add: tasks_of_main_def gate_of_def sensor_task_of_def List.map_filter_simps)
  have "t \<in> set ?ts" for t
  proof (cases t)
    case (G_Sensor x)
    then show ?thesis by (cases x) simp_all
  qed simp_all
  then show "set (List.map_filter gate_of (tasks_of_main wpa2 poland (Some 0))) = UNIV" unfolding g by blast
  show "distinct (List.map_filter gate_of (tasks_of_main wpa2 poland (Some 0)))" unfolding g by simp
  show "length (filter (\<lambda>t. gate_of t = None) (tasks_of_main wpa2 poland (Some 0))) = 2"
    by (simp add: tasks_of_main_def gate_of_def sensor_task_of_def)
qed (rule main_state(1) [OF assms])

end
