(* ===== verification/Heartbeat.thy ===== *)
theory Heartbeat
  imports Net
begin

text \<open>
  The heartbeat as the WiFi task uses it (include/comm/network/ping.h, the calls of \<open>initHeartbeat\<close> in
  src/comm/network/wifi.c): every successful connection registers a control block and starts a timer that
  arms itself again for ever, so that control blocks and timers add up; and a reply is recognised only while
  no later echo has been sent. What lwIP grants (a control block, a packet buffer, a timer) are parameters.
\<close>

record heartbeat =
  pingSeqNum :: u16
  pcbs :: nat
  armed :: nat
  echoes :: "u8 list list"

record lwip_grants =
  raw_ok :: bool
  pbuf_ok :: bool
  timeout_ok :: bool

definition heartbeat_boot :: heartbeat where
  "heartbeat_boot = \<lparr>pingSeqNum = 0, pcbs = 0, armed = 0, echoes = []\<rparr>"

text \<open>The body of the timer, which has been taken off the list before: one echo, and the timer armed again.\<close>

definition send_echo :: "(u8 list \<Rightarrow> u8 list) \<Rightarrow> lwip_grants \<Rightarrow> heartbeat \<Rightarrow> heartbeat" where
  "send_echo chksum a h =
     (let (p, n) = pingSendTimer chksum (pbuf_ok a) (pingSeqNum h)
      in h\<lparr>pingSeqNum := n, echoes := echoes h @ (case p of None \<Rightarrow> [] | Some e \<Rightarrow> [e]),
           armed := armed h + (if timeout_ok a then 1 else 0)\<rparr>)"

text \<open>\<open>None\<close>: \<open>raw_recv\<close> and \<open>raw_bind\<close> through the NULL that \<open>raw_new\<close> returned.\<close>

definition initHeartbeat :: "(u8 list \<Rightarrow> u8 list) \<Rightarrow> lwip_grants \<Rightarrow> heartbeat \<Rightarrow> heartbeat option" where
  "initHeartbeat chksum a h = (if raw_ok a then Some (send_echo chksum a (h\<lparr>pcbs := pcbs h + 1\<rparr>)) else None)"

inductive heartbeat_run :: "(u8 list \<Rightarrow> u8 list) \<Rightarrow> nat \<Rightarrow> nat \<Rightarrow> heartbeat \<Rightarrow> bool" for chksum where
  boot: "heartbeat_run chksum 0 0 heartbeat_boot"
| connected: "heartbeat_run chksum c f h \<Longrightarrow> timeout_ok a \<Longrightarrow> initHeartbeat chksum a h = Some h' \<Longrightarrow> heartbeat_run chksum (Suc c) f h'"
| fires: "heartbeat_run chksum c f h \<Longrightarrow> 0 < armed h \<Longrightarrow> timeout_ok a \<Longrightarrow>
    heartbeat_run chksum c (Suc f) (send_echo chksum a (h\<lparr>armed := armed h - 1\<rparr>))"

lemma send_echo_simps [simp]:
  "pcbs (send_echo chksum a h) = pcbs h" "timeout_ok a \<Longrightarrow> armed (send_echo chksum a h) = armed h + 1"
  "pingSeqNum (send_echo chksum a h) = (if pbuf_ok a then pingSeqNum h + 1 else pingSeqNum h)"
  by (simp_all add: send_echo_def pingSendTimer_def pingPrepareEcho_def Let_def split: prod.splits)

text \<open>The station never stops an old heartbeat: \<open>c\<close> connections leave \<open>c\<close> control blocks and \<open>c\<close> timers, each of which
  sends an echo every five seconds.\<close>

lemma HEARTBEAT_accumulates:
  "heartbeat_run chksum c f h \<Longrightarrow> pcbs h = c \<and> armed h = c"
  by (induction rule: heartbeat_run.induct) (auto simp: heartbeat_boot_def initHeartbeat_def split: if_splits)

text \<open>Each connection that the WiFi task logs is one call.\<close>

definition connections :: "wifi_event list \<Rightarrow> nat" where "connections es = length (filter (\<lambda>e. e = Heartbeat) es)"

lemma HEARTBEAT_per_reconnect:
  assumes "\<not> bit (events s) 1" and "cyw43_link_up rad (chip s) = (False, r)"
    and "cyw43_connect rad (ssid cfg) (password cfg) (authType cfg) 10000 r = (0, r')"
  shows "connections (wlog (wifi_round rad cfg s)) = Suc (connections (wlog s))"
proof -
  have "events s AND BIT_MODE_CONFIG = 0"
    using assms(1) bit_iff_and_push_bit_not_eq_0 [of "events s" 1] by (auto simp only: BIT_MODE_CONFIG_def)
  then show ?thesis using assms(2,3) by (simp add: wifi_round_def note_events_def connections_def)
qed

text \<open>A reply carries identifier and number of its echo. It is recognised exactly when its echo is the last one sent: with two
  timers, half of the replies are taken for nothing.\<close>

lemma bytes_u16: "ucast (drop_bit 8 n) = (ucast (drop_bit 8 m) :: u8) \<Longrightarrow> ucast n = (ucast m :: u8) \<Longrightarrow> n = (m :: u16)"
proof (rule bit_word_eqI)
  fix i assume h: "ucast (drop_bit 8 n) = (ucast (drop_bit 8 m) :: u8)" "ucast n = (ucast m :: u8)" "i < LENGTH(16)"
  show "bit n i = bit m i"
  proof (cases "i < 8")
    case True
    then show ?thesis using arg_cong [OF h(2), of "\<lambda>b. bit b i"] by (simp add: bit_ucast_iff)
  next
    case False
    moreover from h(3) have "i - 8 < 8" by simp
    ultimately show ?thesis using arg_cong [OF h(1), of "\<lambda>b. bit b (i - 8)"] by (simp add: bit_ucast_iff bit_drop_bit_eq)
  qed
qed

lemma HEARTBEAT_latest_only:
  assumes "\<And>p. length (chksum p) = 2" and "8 \<le> len"
  shows "pingRecvCallback seq (fst (pingPrepareEcho chksum n len)) g = (if n = seq - 1 then set_bits WIFI_CONNECTED_BIT g else g, 1)"
proof -
  have "\<exists>a b. chksum p = [a, b]" for p using assms(1) [of p] by (auto simp: numeral_2_eq_2 length_Suc_conv)
  then obtain a b where c: "chksum p = [a p, b p]" for p by metis
  have "take 2 (drop 4 (fst (pingPrepareEcho chksum n len))) = [0xAF, 0xAF]"
    "take 2 (drop 6 (fst (pingPrepareEcho chksum n len))) = [ucast (drop_bit 8 n), ucast n]"
    by (simp_all add: pingPrepareEcho_def c Let_def)
  moreover have "[ucast (drop_bit 8 n), ucast n :: u8] = [ucast (drop_bit 8 (seq - 1)), ucast (seq - 1)] \<longleftrightarrow> n = seq - 1"
    using bytes_u16 [of n "seq - 1"] by fastforce
  ultimately show ?thesis unfolding pingRecvCallback_def by (simp only: simp_thms if_bool_eq_conj) simp
qed

end
