(* ===== verification/SensorLoops.thy ===== *)
theory SensorLoops
  imports DS18B20 PMS5003
begin

text \<open>
  The whole tasks of the two sensors that are not on the I2C bus: \<open>vDS18B20_Task\<close>
  (src/sensors/ds18b20/ds18b20.c) and \<open>vPMS5003_Task\<close> (src/sensors/pms5003/pms5003.c), behind their mode bit
  (theory Station): the start-up, and the endless loop of the rounds that the drivers' theories define. Both
  tasks ignore what the driver says about a reading and send the packet they have; the theorems say what is in it.
\<close>

subsection \<open>PMS5003\<close>

text \<open>One element per round: what the DMA had stored when the semaphore was given, \<open>None\<close> for a timeout.\<close>

primrec PMS5003_rounds :: "irq_state \<Rightarrow> UART_Config \<Rightarrow> u8 list option list \<Rightarrow> PMS5003_Task \<Rightarrow> PMS5003_Task option" where
  "PMS5003_rounds ir uart [] t = Some t"
| "PMS5003_rounds ir uart (d # ds) t = Option.bind (PMS5003_round ir uart d t) (\<lambda>(t, ir). PMS5003_rounds ir uart ds t)"

definition vPMS5003_Task :: "irq_state \<Rightarrow> UART_Config \<Rightarrow> u8 list option list \<Rightarrow> PMS5003_Task \<Rightarrow> PMS5003_Task option" where
  "vPMS5003_Task ir uart ds t = PMS5003_rounds ir uart ds (task_delay 100 t)"

text \<open>A frame with its start bytes and checksum, and the packet it makes of another.\<close>

definition pms_valid :: "u8 list \<Rightarrow> bool" where
  "pms_valid raw \<longleftrightarrow> raw ! 0 = 0x42 \<and> raw ! 1 = 0x4D \<and> pms_checksum raw = word16 (raw ! 30) (raw ! 31)"

definition pms_packet :: "u8 list \<Rightarrow> PMS5003_DataPacket \<Rightarrow> PMS5003_DataPacket" where
  "pms_packet raw d = d\<lparr>pm1 := word16 (raw ! 4) (raw ! 5), pm2_5 := word16 (raw ! 6) (raw ! 7), pm10 := word16 (raw ! 8) (raw ! 9)\<rparr>"

text \<open>The specification: after every completed transfer the last valid frame so far is sent, or what the packet held at the start.\<close>

primrec last_valid :: "PMS5003_DataPacket \<Rightarrow> u8 list option list \<Rightarrow> PMS5003_DataPacket list" where
  "last_valid d [] = []"
| "last_valid d (x # xs) = (case x of None \<Rightarrow> last_valid d xs
     | Some raw \<Rightarrow> let d = (if pms_valid raw then pms_packet raw d else d) in d # last_valid d xs)"

lemma PMS5003_ProcessData_spec:
  "length raw = 32 \<Longrightarrow> PMS5003_ProcessData (c\<lparr>PMS5003_Config.rawData := raw\<rparr>) d = (if pms_valid raw then pms_packet raw d else d)"
  by (simp add: PMS5003_ProcessData_def PMS5003_ValidatePacket_def pms_valid_def pms_packet_def Let_def)

lemma PMS5003_round_sends:
  assumes "sgUART_Config ir = Some u" and "unat (packetSize uart) = 32" "length (uart_data uart) = 32" and "\<forall>raw. x = Some raw \<longrightarrow> length raw = 32"
  shows "\<exists>t' ir' u'. PMS5003_round ir uart x t = Some (t', ir') \<and> sgUART_Config ir' = Some u'
    \<and> (case x of None \<Rightarrow> sent t' = sent t \<and> packet t' = packet t
       | Some raw \<Rightarrow> packet t' = (if pms_valid raw then pms_packet raw (packet t) else packet t) \<and> sent t' = sent t @ [packet t'])"
proof (cases x)
  case (Some raw)
  then have "fill 32 raw (uart_data uart) = raw" using assms(3,4) by (simp add: fill_def)
  then show ?thesis using Some assms
    by (simp add: PMS5003_round_def PMS5003_Read_def UART_ReadPacket_def Let_def task_simps PMS5003_ProcessData_spec)
qed (use assms in \<open>simp add: PMS5003_round_def PMS5003_Read_def UART_ReadPacket_def task_simps\<close>)

text \<open>C37. What the particle sensor's task sends: one packet per completed transfer, which holds the last frame whose start bytes and
  checksum were right, however many damaged frames and timeouts have come since.\<close>

theorem PMS5003_task_sends_last_valid:
  assumes "sgUART_Config ir = Some u" and "unat (packetSize uart) = 32" "length (uart_data uart) = 32"
    and "\<forall>raw. Some raw \<in> set ds \<longrightarrow> length raw = 32"
  shows "\<exists>t'. vPMS5003_Task ir uart ds t = Some t' \<and> sent t' = sent t @ last_valid (packet t) ds"
proof -
  have "\<exists>t'. PMS5003_rounds ir uart ds t = Some t' \<and> sent t' = sent t @ last_valid (packet t) ds" for t
    using assms(1,4)
  proof (induction ds arbitrary: ir u t)
    case (Cons x ds)
    obtain t1 ir1 u1 where r: "PMS5003_round ir uart x t = Some (t1, ir1)" "sgUART_Config ir1 = Some u1"
      "case x of None \<Rightarrow> sent t1 = sent t \<and> packet t1 = packet t
       | Some raw \<Rightarrow> packet t1 = (if pms_valid raw then pms_packet raw (packet t) else packet t) \<and> sent t1 = sent t @ [packet t1]"
      using PMS5003_round_sends [OF Cons.prems(1) assms(2,3), of x t] Cons.prems(2) by auto
    obtain t' where "PMS5003_rounds ir1 uart ds t1 = Some t'" "sent t' = sent t1 @ last_valid (packet t1) ds"
      using Cons.IH [OF r(2), of t1] Cons.prems(2) by auto
    with r(1,3) show ?case by (cases x) (simp_all add: Let_def)
  qed simp
  from this [of "task_delay 100 t"] show ?thesis by (simp add: vPMS5003_Task_def task_simps)
qed

definition pms_dust :: "u8 list" where
  "pms_dust = [0x42, 0x4D, 0, 28, 0, 5] @ replicate 24 0 @ [0, 176]"

theorem PMS5003_task_sends_last_valid_witness:
  "\<forall>t. \<exists>t'. vPMS5003_Task (irq_initial\<lparr>sgUART_Config := Some \<lparr>tx = 8, rx = 9, baudrate = 9600, uart_data = replicate 32 0, uart_status = 0, packetSize = 32, dmaSemaphore = None\<rparr>\<rparr>)
      \<lparr>tx = 8, rx = 9, baudrate = 9600, uart_data = replicate 32 0, uart_status = 0, packetSize = 32, dmaSemaphore = None\<rparr>
      [Some pms_dust, None, Some (replicate 32 0)] t = Some t' \<and> map pm1 (sent t') = map pm1 (sent t) @ [5, 5]" (is "\<forall>t. ?P t")
proof
  fix t
  let ?u = "\<lparr>tx = 8, rx = 9, baudrate = 9600, uart_data = replicate 32 0, uart_status = 0, packetSize = 32, dmaSemaphore = None\<rparr> :: UART_Config"
  let ?ds = "[Some pms_dust, None, Some (replicate 32 0)]"
  have v: "pms_valid pms_dust" "\<not> pms_valid (replicate 32 0)" "pms_dust ! 4 = 0" "pms_dust ! 5 = 5" by code_simp+
  have "map pm1 (last_valid d ?ds) = [5, 5]" for d using v by (simp add: Let_def pms_packet_def word16_def)
  moreover have "\<forall>raw. Some raw \<in> set ?ds \<longrightarrow> length raw = 32" by (simp add: pms_dust_def)
  ultimately show "?P t" using PMS5003_task_sends_last_valid [of "irq_initial\<lparr>sgUART_Config := Some ?u\<rparr>" ?u ?u ?ds t] by auto
qed

subsection \<open>DS18B20\<close>

record 'e DS18B20_Task =
  ds_conf :: DS18B20_Config
  ds_packet :: DS18B20_DataPacket
  ds_line :: "'e ow"
  ds_sent :: "DS18B20_DataPacket list"
  ds_waits :: "nat list"

definition ds_delay :: "nat \<Rightarrow> 'e DS18B20_Task \<Rightarrow> 'e DS18B20_Task" where
  "ds_delay ms t = t\<lparr>ds_waits := ds_waits t @ [ms]\<rparr>"

definition ds_init :: "'e ow_env \<Rightarrow> 'e DS18B20_Task \<Rightarrow> int \<times> 'e DS18B20_Task" where
  "ds_init env t = (let (ok, s) = DS18B20_SetResolution env (resolution (ds_conf t)) (ds_line t)
                    in (if ok then 1 else 0, t\<lparr>ds_line := s\<rparr>))"

definition ds_loop :: "'e ow_env \<Rightarrow> 'e DS18B20_Task \<Rightarrow> 'e DS18B20_Task option" where
  "ds_loop env t =
     map_option (\<lambda>(ms, p, (c, p', s)). (ds_delay ms t)\<lparr>ds_conf := c, ds_packet := p', ds_line := s, ds_sent := ds_sent t @ [p]\<rparr>)
       (DS18B20_round env (ds_conf t, ds_packet t, ds_line t))"

definition vDS18B20_Task :: "'e ow_env \<Rightarrow> nat \<Rightarrow> 'e DS18B20_Task \<Rightarrow> 'e DS18B20_Task option" where
  "vDS18B20_Task env n t =
     Option.bind (retry_init (ds_init env) (ds_delay 10000) t) (\<lambda>t. rounds n (ds_loop env) (ds_delay 100 t))"

text \<open>A temperature that a scratchpad with a right checksum stands for.\<close>

definition measured_temp :: "f32 \<Rightarrow> bool" where
  "measured_temp x \<longleftrightarrow> (\<exists>d. length d = 9 \<and> DS18B20_CRC d 9 \<and> x = Num (of_int (i16_of_bytes (d ! 1) (d ! 0)) / 16))"

lemma length_read_bytes [simp]: "length (fst (read_bytes env n s)) = n"
  by (induction n arbitrary: s) (simp_all add: Let_def case_prod_unfold)

lemma SkipRead_length:
  assumes "length (data c) = 9"
  shows "\<exists>ok c' s'. DS18B20_SkipRead env c s = Some ((ok, c'), s') \<and> length (data c') = 9 \<and> resolution c' = resolution c \<and> address c' = address c"
  using assms length_read_bytes [of env 9] by (auto simp: DS18B20_SkipRead_def Let_def case_prod_unfold)

lemma ds_round_defined:
  assumes "length (data c) = 9" and "address c = ucast ONEW_SKIP_ROM"
  shows "\<exists>c' p' s'. DS18B20_round env (c, p, s) = Some (conversion_delay (resolution c), p', (c', p', s'))
    \<and> length (data c') = 9 \<and> address c' = address c \<and> resolution c' = resolution c
    \<and> (temperature p' = temperature p \<or> measured_temp (temperature p'))"
proof -
  let ?s = "snd (DS18B20_Convert env (address c) s)"
  obtain ok c' s' where r: "DS18B20_SkipRead env c ?s = Some ((ok, c'), s')" "length (data c') = 9" "resolution c' = resolution c" "address c' = address c"
    using SkipRead_length [OF assms(1)] by metis
  obtain b p' s2 where p: "DS18B20_ProcessData env c p ?s = Some ((b, c', p'), s2)"
    using r(1) assms(2) by (cases "DS18B20_CRC (data c') (length (data c'))"; cases ok) (auto simp: DS18B20_ProcessData_def Let_def)
  have "temperature p' = temperature p \<or> measured_temp (temperature p')"
    using ProcessData_true [of env c p ?s c' p' s2] ProcessData_false [of env c p ?s c' p' s2] p r(2)
    by (cases b) (auto simp: measured_temp_def)
  with p r show ?thesis by (simp add: DS18B20_round_def Let_def)
qed

text \<open>C36. What the temperature sensor's task sends: once the sensor has answered the start-up, every round sends one packet, whose
  temperature comes from a scratchpad with a right checksum or is the one the packet held at the start, and
  waits for the conversion of the configured resolution first.\<close>

theorem DS18B20_task_sends:
  assumes "length (data (ds_conf t)) = 9" and "address (ds_conf t) = ucast ONEW_SKIP_ROM"
    and "fst (ds_init env (attempt (ds_init env) (ds_delay 10000) k t)) = 1"
  shows "\<exists>t' ps. vDS18B20_Task env n t = Some t' \<and> ds_sent t' = ds_sent t @ ps \<and> length ps = n
    \<and> (\<forall>p \<in> set ps. temperature p = temperature (ds_packet t) \<or> measured_temp (temperature p))
    \<and> (\<exists>ws. ds_waits t' = ws @ replicate n (conversion_delay (resolution (ds_conf t))))"
proof -
  let ?P = "\<lambda>s. ds_conf s = ds_conf t \<and> ds_packet s = ds_packet t \<and> ds_sent s = ds_sent t"
  obtain s where s: "retry_init (ds_init env) (ds_delay 10000) t = Some s" using retry_init_returns [of "ds_init env" "ds_delay 10000" k t] assms(3) by blast
  have "?P s" by (rule retry_init_inv [OF s, where P = ?P]) (auto simp: ds_init_def ds_delay_def split: prod.splits)
  then have P: "?P (ds_delay 100 s)" by (simp add: ds_delay_def)
  have "\<exists>t' ps. rounds n (ds_loop env) u = Some t' \<and> ds_sent t' = ds_sent u @ ps \<and> length ps = n
      \<and> (\<forall>p \<in> set ps. temperature p = temperature (ds_packet t) \<or> measured_temp (temperature p))
      \<and> ds_waits t' = ds_waits u @ replicate n (conversion_delay (resolution (ds_conf t)))"
    if "length (data (ds_conf u)) = 9" "address (ds_conf u) = ucast ONEW_SKIP_ROM" "resolution (ds_conf u) = resolution (ds_conf t)"
      "temperature (ds_packet u) = temperature (ds_packet t) \<or> measured_temp (temperature (ds_packet u))" for u
    using that
  proof (induction n arbitrary: u)
    case (Suc n)
    obtain c' p' s' where r: "DS18B20_round env (ds_conf u, ds_packet u, ds_line u) = Some (conversion_delay (resolution (ds_conf u)), p', (c', p', s'))"
      "length (data c') = 9" "address c' = address (ds_conf u)" "resolution c' = resolution (ds_conf u)"
      "temperature p' = temperature (ds_packet u) \<or> measured_temp (temperature p')"
      using ds_round_defined [OF Suc.prems(1,2), of env "ds_packet u" "ds_line u"] by blast
    define u1 where "u1 = (ds_delay (conversion_delay (resolution (ds_conf u))) u)\<lparr>ds_conf := c', ds_packet := p', ds_line := s', ds_sent := ds_sent u @ [p']\<rparr>"
    have l: "ds_loop env u = Some u1" by (simp add: ds_loop_def r(1) u1_def)
    have p: "temperature p' = temperature (ds_packet t) \<or> measured_temp (temperature p')" using r(5) Suc.prems(4) by auto
    obtain t' ps where "rounds n (ds_loop env) u1 = Some t'" "ds_sent t' = ds_sent u1 @ ps" "length ps = n"
      "\<forall>p \<in> set ps. temperature p = temperature (ds_packet t) \<or> measured_temp (temperature p)"
      "ds_waits t' = ds_waits u1 @ replicate n (conversion_delay (resolution (ds_conf t)))"
      using Suc.IH [of u1] r(2-4) p Suc.prems(2,3) by (auto simp: u1_def)
    then show ?case using l p Suc.prems(3) by (intro exI [of _ t'] exI [of _ "p' # ps"]) (simp add: u1_def ds_delay_def)
  qed simp
  from this [of "ds_delay 100 s"] P assms(1,2) show ?thesis by (auto simp: vDS18B20_Task_def s)
qed

definition ds_start :: "unit DS18B20_Task" where
  "ds_start = \<lparr>ds_conf = ds_demo, ds_packet = DS18B20.ds_packet, ds_line = ow_demo, ds_sent = [], ds_waits = []\<rparr>"

lemma grounded_reset: "\<not> busy s \<Longrightarrow> fst (OneWire_Reset grounded_env s)"
  by (simp add: OneWire_Reset_def grounded_env_def)

lemma grounded_answers: "\<not> busy s \<Longrightarrow> fst (DS18B20_SetResolution grounded_env res s)"
  by (simp add: DS18B20_SetResolution_def Let_def case_prod_unfold grounded_reset Reset_idle WriteByte_idle)

theorem DS18B20_task_sends_witness:
  "\<exists>t'. vDS18B20_Task grounded_env 2 ds_start = Some t' \<and> length (ds_sent t') = 2
    \<and> (\<forall>p \<in> set (ds_sent t'). temperature p = 0 \<or> measured_temp (temperature p)) \<and> drop (length (ds_waits t') - 2) (ds_waits t') = [755, 755]"
proof -
  have i: "fst (ds_init grounded_env (attempt (ds_init grounded_env) (ds_delay 10000) 0 ds_start)) = 1"
    using grounded_answers [of ow_demo] by (simp add: ds_init_def ds_start_def case_prod_unfold Let_def) (simp add: busy_def ow_demo_def ONEW_codes)
  have d: "length (data (ds_conf ds_start)) = 9" "DS18B20_Config.address (ds_conf ds_start) = ucast ONEW_SKIP_ROM"
    by (simp_all add: ds_start_def ds_demo_def ONEW_SKIP_ROM_def)
  have r: "resolution (ds_conf ds_start) = 12" "temperature (ds_packet ds_start) = 0" "ds_sent ds_start = []"
    by (simp_all add: ds_start_def ds_demo_def DS18B20.ds_packet_def)
  have c: "conversion_delay 12 = 755" "replicate 2 (755 :: nat) = [755, 755]"
    by (simp add: conversion_delay_def) (simp add: numeral_2_eq_2)
  show ?thesis using DS18B20_task_sends [OF d i, of 2] unfolding r c by auto
qed

end
