(* ===== verification/MainTrace.thy ===== *)
theory MainTrace
  imports Startup SysViewHooks LogTrace
begin

text \<open>
  What the recorder knows of the tasks that main creates (src/src/main.c, the hook \<open>traceTASK_CREATE\<close> of
  src/lib/SEGGER/FreeRTOSV11/SEGGER_SYSVIEW_FreeRTOS.h, \<open>SYSVIEW_AddTask\<close>), and the monitor task of main.c
  over the logger. main creates its tasks before the recorder is configured, while every packet is dropped
  but the task list is already written.
\<close>

subsection \<open>Creating tasks before the recorder is configured\<close>

definition off :: "sysview \<Rightarrow> bool" where
  "off s \<longleftrightarrow> EnableState s = 0 \<and> rtt s = rtt_boot \<and> DownChannel s = 0"

lemma off_boot: "off (sv_boot ts hw tc ii)"
  by (simp add: off_def sv_boot_def)

lemma off_sends_nothing: "off s \<Longrightarrow> payload_ok i p \<Longrightarrow> SendPacket p j s = Some s"
  by (simp add: off_def payload_ok_def SendPacket_def SendPacket_nested_def SendPacket_body_def sv_sizes poll_commands_def
      SEGGER_RTT_HasData_def rtt_boot_def unused_channel_def SEGGER_RTT_MAX_NUM_DOWN_BUFFERS_def)

primrec trace_creations :: "tcb list \<Rightarrow> sysview \<Rightarrow> sysview option" where
  "trace_creations [] s = Some s"
| "trace_creations (t # ts) s = Option.bind (traceTASK_CREATE SendPacket (Some t) s) (trace_creations ts)"

text \<open>The entry of a task: what is behind its name.\<close>

definition entry_of :: "tcb \<Rightarrow> task_status" where
  "entry_of t = \<lparr>xHandle = tcb_handle t, pcTaskName = Some (tcb_pcTaskName t), uxCurrentPriority = tcb_uxPriority t,
     pxStack = tcb_pxStack t, uStackHighWaterMark = tcb_pxTopOfStack t - tcb_pxStack t\<rparr>"

lemma create_off:
  assumes "off s" and "\<not> is_idle (tcb_pcTaskName t)" and "NumTasks s \<le> 8" "length (aTasks s) = 8"
  shows "\<exists>s'. traceTASK_CREATE SendPacket (Some t) s = Some s' \<and> off s' \<and> length (aTasks s') = 8
    \<and> NumTasks s' = min 8 (NumTasks s + 1) \<and> SysViewTasks.tasks s' = take 8 (SysViewTasks.tasks s @ [entry_of t])"
proof (cases "NumTasks s < 8")
  case True
  define s' where "s' = s\<lparr>aTasks := (aTasks s)[NumTasks s := entry_of t], NumTasks := NumTasks s + 1\<rparr>"
  have o: "off s'" using assms(1) by (simp add: off_def s'_def)
  have ts: "SysViewTasks.tasks s' = SysViewTasks.tasks s @ [entry_of t]"
    using True assms(4) by (simp add: SysViewTasks.tasks_def s'_def take_Suc_conv_app_nth)
  have "length (SysViewTasks.tasks s) < 8" using True assms(4) by (simp add: SysViewTasks.tasks_def)
  then have tk: "take 8 (SysViewTasks.tasks s @ [entry_of t]) = SysViewTasks.tasks s @ [entry_of t]" by simp
  have "SYSVIEW_AddTask SendPacket (tcb_handle t) (tcb_pcTaskName t) (tcb_uxPriority t) (tcb_pxStack t) (tcb_pxTopOfStack t - tcb_pxStack t) s
    = SYSVIEW_SendTaskInfo SendPacket (tcb_handle t) (Some (tcb_pcTaskName t)) (tcb_uxPriority t) (tcb_pxStack t)
        (tcb_pxTopOfStack t - tcb_pxStack t) s'"
    using True assms(2) by (simp add: SYSVIEW_AddTask_def SYSVIEW_FREERTOS_MAX_NOF_TASKS_def Let_def s'_def entry_of_def)
  then have "traceTASK_CREATE SendPacket (Some t) s = Some s'"
    using off_sends_nothing [OF assms(1) event_payloads(7)] off_sends_nothing [OF o event_payloads(20)] off_sends_nothing [OF o event_payloads(19)]
    by (simp add: traceTASK_CREATE_def SEGGER_SYSVIEW_OnTaskCreate_def SYSVIEW_SendTaskInfo_def SEGGER_SYSVIEW_SendTaskInfo_def)
  then show ?thesis using True o ts tk assms(4) by (intro exI [of _ s']) (simp add: s'_def)
next
  case False
  then have n: "NumTasks s = 8" using assms(3) by simp
  have "traceTASK_CREATE SendPacket (Some t) s = Some s"
    using n assms(2) off_sends_nothing [OF assms(1) event_payloads(7)] off_sends_nothing [OF assms(1) event_payloads_long(12)]
    by (simp add: traceTASK_CREATE_def SEGGER_SYSVIEW_OnTaskCreate_def SYSVIEW_AddTask_def SYSVIEW_FREERTOS_MAX_NOF_TASKS_def
        SEGGER_SYSVIEW_Warn_def message_payload_def)
  moreover have "length (SysViewTasks.tasks s) = 8" using n assms(4) by (simp add: SysViewTasks.tasks_def)
  then have "take 8 (SysViewTasks.tasks s @ [entry_of t]) = SysViewTasks.tasks s" by simp
  ultimately show ?thesis using n assms by (intro exI [of _ s]) simp
qed

lemma take_take_append: "take n (take n xs @ ys) = take n (xs @ ys)"
  by (cases "n \<le> length xs") simp_all

lemma creations_off:
  assumes "off s" and "\<forall>t \<in> set ts. \<not> is_idle (tcb_pcTaskName t)" and "NumTasks s \<le> 8" "length (aTasks s) = 8"
  shows "\<exists>s'. trace_creations ts s = Some s' \<and> off s' \<and> SysViewTasks.tasks s' = take 8 (SysViewTasks.tasks s @ map entry_of ts)"
  using assms
proof (induction ts arbitrary: s)
  case Nil
  then show ?case by (simp add: SysViewTasks.tasks_def)
next
  case (Cons t ts)
  obtain s1 where s1: "traceTASK_CREATE SendPacket (Some t) s = Some s1" "off s1" "length (aTasks s1) = 8"
    "NumTasks s1 = min 8 (NumTasks s + 1)" "SysViewTasks.tasks s1 = take 8 (SysViewTasks.tasks s @ [entry_of t])"
    using create_off [OF Cons.prems(1) _ Cons.prems(3,4), of t] Cons.prems(2) by auto
  obtain s' where "trace_creations ts s1 = Some s'" "off s'" "SysViewTasks.tasks s' = take 8 (SysViewTasks.tasks s1 @ map entry_of ts)"
    using Cons.IH [OF s1(2) _ _ s1(3)] Cons.prems(2) s1(4) by auto
  then show ?case using s1(1,5) take_take_append [of 8 "SysViewTasks.tasks s @ [entry_of t]"] by (intro exI [of _ s']) simp
qed

lemma Conf_tasks: "off s \<Longrightarrow> SysViewTasks.tasks (SEGGER_SYSVIEW_Conf rp s) = SysViewTasks.tasks s"
  by (simp add: SysViewTasks.tasks_def SEGGER_SYSVIEW_Conf_def SEGGER_SYSVIEW_Init_def SEGGER_SYSVIEW_SetRAMBase_def GET_TIMESTAMP_def split: prod.splits)

text \<open>Of the fifteen tasks that main creates the recorder can name eight: whatever handles, stacks and priorities the kernel
  gives them, the list holds the first eight of main's order when the scheduler starts, before and after the
  configuration; SGP30, DS18B20, PMS5003 and the whole data pipeline are missing from it.\<close>

theorem MAIN_recorder_names_eight:
  assumes "phase (main a wpa2 poland (reset_board ws l)) = Scheduling"
    and "map tcb_pcTaskName ts = map (bytes_of \<circ> tname) (Startup.tasks (main a wpa2 poland (reset_board ws l)))"
  shows "\<exists>s. trace_creations ts (sv_boot cl hw tc ii) = Some s
    \<and> map pcTaskName (SysViewTasks.tasks (SEGGER_SYSVIEW_Conf rp s)) = map pcTaskName (SysViewTasks.tasks s)
    \<and> map pcTaskName (SysViewTasks.tasks s) = map (\<lambda>n. Some (bytes_of n))
        [''System_Manager_Task'', ''WiFi_Manager_Task'', ''BME280_0_Task'', ''BME280_1_Task'', ''DHT20_0_Task'', ''DHT20_1_Task'',
         ''DHT11_0_Task'', ''DHT22_0_Task'']"
proof -
  note names = assms(2) [unfolded main_state(1) [OF assms(1)]]
  have "n \<in> tcb_pcTaskName ` set ts \<Longrightarrow> \<not> is_idle n" for n
    unfolding set_map [symmetric] names by (auto simp: tasks_of_main_def sensor_task_of_def is_idle_def bytes_of_def of_char_u8_inj)
  then have i: "\<forall>t \<in> set ts. \<not> is_idle (tcb_pcTaskName t)" by blast
  have b: "NumTasks (sv_boot cl hw tc ii) = 0" "length (aTasks (sv_boot cl hw tc ii)) = 8" "SysViewTasks.tasks (sv_boot cl hw tc ii) = []"
    by (simp_all add: sv_boot_def SYSVIEW_FREERTOS_MAX_NOF_TASKS_def SysViewTasks.tasks_def)
  obtain s where s: "trace_creations ts (sv_boot cl hw tc ii) = Some s" "off s" "SysViewTasks.tasks s = take 8 (map entry_of ts)"
    using creations_off [OF off_boot i, of cl hw tc ii] b by auto
  have "map pcTaskName (SysViewTasks.tasks s) = map Some (take 8 (map tcb_pcTaskName ts))"
    by (simp add: s(3) take_map entry_of_def)
  then show ?thesis using s(1) Conf_tasks [OF s(2), of rp] unfolding names
    by (intro exI [of _ s]) (simp add: tasks_of_main_def sensor_task_of_def)
qed

lemma MAIN_recorder_names_eight_witness:
  "\<exists>s. trace_creations (map (\<lambda>t. \<lparr>tcb_handle = 0, tcb_pcTaskName = bytes_of (tname t), tcb_uxPriority = 1, tcb_pxStack = 0, tcb_pxTopOfStack = 0\<rparr>)
      (Startup.tasks (main \<lparr>heap = (\<lambda>_. True), dma_channel = 0, pio_sm = 0, level = (\<lambda>_. 0)\<rparr> 4 5 (reset_board (\<lambda>_. \<lparr>dev = (), blog = []\<rparr>) ow_demo))))
      (sv_boot (\<lambda>k. word_of_nat k) (\<lambda>_. 0) 0 0) = Some s \<and> length (SysViewTasks.tasks s) = 8"
proof -
  let ?m = "main \<lparr>heap = (\<lambda>_. True), dma_channel = 0, pio_sm = 0, level = (\<lambda>_. 0)\<rparr> 4 5 (reset_board (\<lambda>_. \<lparr>dev = (), blog = []\<rparr>) ow_demo)"
  let ?t = "\<lambda>t. \<lparr>tcb_handle = 0, tcb_pcTaskName = bytes_of (tname t), tcb_uxPriority = 1, tcb_pxStack = 0, tcb_pxTopOfStack = 0\<rparr>"
  have p: "phase ?m = Scheduling" by (simp add: main_phase)
  have n: "map tcb_pcTaskName (map ?t (Startup.tasks ?m)) = map (bytes_of \<circ> tname) (Startup.tasks ?m)" by simp
  obtain s where s: "trace_creations (map ?t (Startup.tasks ?m)) (sv_boot (\<lambda>k. word_of_nat k) (\<lambda>_. 0) 0 0) = Some s"
    "map pcTaskName (SysViewTasks.tasks s) = map (\<lambda>n. Some (bytes_of n))
        [''System_Manager_Task'', ''WiFi_Manager_Task'', ''BME280_0_Task'', ''BME280_1_Task'', ''DHT20_0_Task'', ''DHT20_1_Task'',
         ''DHT11_0_Task'', ''DHT22_0_Task'']"
    using MAIN_recorder_names_eight [OF p n, of "\<lambda>k. word_of_nat k" "\<lambda>_. 0" 0 0 True] by blast
  from arg_cong [OF s(2), of length] have "length (SysViewTasks.tasks s) = 8" by simp
  with s(1) show ?thesis by blast
qed

subsection \<open>The monitor task (vMonitorTask)\<close>

text \<open>The tasks it asks for, as it names them, and the lines of a round; \<open>hwm\<close> is what \<open>uxTaskGetStackHighWaterMark\<close> answers. main does not start it.\<close>

definition monitored :: "string list" where
  "monitored = [''BME280_0_Task'', ''BME280_1_Task'', ''DHT20_0_Task'', ''DHT20_1_Task'', ''DHT11_0_Task'', ''DHT22_0_Task'', ''SGP30_0_Task'',
     ''DS18B20_0_Task'', ''PMS5003_0_Task'', ''DataCollect_Task'', ''DataProcess_Task'', ''DataDisplay_Task'']"

definition monitor_lines :: "(string \<Rightarrow> u32) \<Rightarrow> string list" where
  "monitor_lines hwm = ''--- Task Stack High Water Marks (words remaining) ---''
     # map (\<lambda>n. n @ '': '' @ dec_digits (unat (hwm n)) @ '' words free'') monitored"

lemma digit_percent: "(n :: nat) < 10 \<Longrightarrow> CHR ''%'' \<noteq> char_of (48 + n)"
proof
  assume n: "n < 10" and "CHR ''%'' = char_of (48 + n)"
  then have "of_char (char_of (48 + n) :: char) = (of_char (CHR ''%'') :: nat)" by (simp only:)
  with n show False by simp
qed

lemma dec_digits_percent: "CHR ''%'' \<notin> set (dec_digits n)"
proof (induction n rule: dec_digits.induct)
  case (1 n)
  then show ?case using digit_percent [of n] digit_percent [of "n mod 10"] by (simp add: dec_digits.simps [of n])
qed

text \<open>The monitor's lines pass the logger: each is short enough for its buffers, has no percent sign and reaches the recorder whole.\<close>

lemma MONITOR_lines_pass:
  assumes "live t0 got s" and "t \<in> set (monitor_lines hwm)"
  shows "\<exists>s'. log_traced LOG_DEBUG (Some (Some t)) s = Some (Some (logLevelStrings ! 4 @ t @ [CHR 0x0A]), s')"
proof -
  have d: "length (dec_digits (unat (hwm n))) \<le> 10" for n
    using unat_u32 [of "hwm n"] by (intro length_dec_digits) simp_all
  have n: "length n \<le> 20 \<and> CHR ''%'' \<notin> set n" if "n \<in> set monitored" for n
    using that by (auto simp: monitored_def)
  have p: "CHR ''%'' \<notin> set t \<and> length t \<le> 100"
  proof (cases "t = ''--- Task Stack High Water Marks (words remaining) ---''")
    case False
    then obtain m where m: "m \<in> set monitored" "t = m @ '': '' @ dec_digits (unat (hwm m)) @ '' words free''"
      using assms(2) by (auto simp: monitor_lines_def)
    then show ?thesis using n [OF m(1)] d [of m] dec_digits_percent by simp
  qed simp
  then have "CHR ''%'' \<notin> set (take 118 t)" by (auto dest: in_set_takeD)
  then have "log_traced LOG_DEBUG (Some (Some t)) s \<noteq> None" using log_traced_text [OF assms(1), of LOG_DEBUG t] by (simp add: LOG_DEBUG_def)
  moreover have "hkLogOutput LOG_DEBUG (Some (Some t)) = Some (logLevelStrings ! 4 @ t @ [CHR 0x0A])"
    using conjunct2 [OF p] by (simp add: hkLogOutput_text LOG_DEBUG_def logLevel_prefix)
  ultimately show ?thesis by (auto simp: log_traced_def)
qed

end
