(* ===== verification/DS18B20Dma.thy ===== *)
theory DS18B20Dma
  imports OneWireDma DS18B20
begin

text \<open>
  The DS18B20 thermometer over the 1-Wire bus with DMA (src/sensors/ds18b20/ds18b20_dma.c), the variant that
  \<open>hkOW_USE_DMA\<close> selects. The file tests the result of \<open>OneWire_Read\<close>, which has none over DMA
  (include/comm/onewire/onewire.h): where the code gets there the model has no value, \<open>None\<close>.
\<close>

definition DS18B20_CRC_dma :: "u8 list \<Rightarrow> nat \<Rightarrow> bool" where
  "DS18B20_CRC_dma d len = (foldl (\<lambda>crc b. fst (iterate 8 lsb_round (crc, b))) 0 (take len d) = 0)"

definition DS18B20_Convert_dma :: "'e ow_env \<Rightarrow> u64 \<Rightarrow> 'e ow \<Rightarrow> (bool \<times> 'e ow) option" where
  "DS18B20_Convert_dma env addr s =
     (let (present, s) = OneWire_Reset_dma env s
      in if \<not> present then Some (False, s)
      else if addr = ucast ONEW_SKIP_ROM then
        (let (ok, s) = OneWire_WriteByte_dma env (ucast ONEW_SKIP_ROM) s
         in if \<not> ok then Some (False, s)
         else let (ok, s) = OneWire_WriteByte_dma env (ucast DS18B20_CONVERT_T) s
         in if \<not> ok then Some (False, s) else None)
      else Some (False, s))"

text \<open>The function returns before it uses the bus.\<close>

definition DS18B20_MatchRead_dma :: "DS18B20_Config \<Rightarrow> bool" where
  "DS18B20_MatchRead_dma config = (if length (data config) < 9 then False else False)"

text \<open>\<open>buf\<close> is what \<open>ow->data\<close> points to: the assignment is one of pointers, nothing is read from the line.\<close>

definition DS18B20_SkipRead_dma ::
  "'e ow_env \<Rightarrow> u8 list \<Rightarrow> DS18B20_Config \<Rightarrow> 'e ow \<Rightarrow> (bool \<times> DS18B20_Config) \<times> 'e ow" where
  "DS18B20_SkipRead_dma env buf config s =
     (if length (data config) < 9 then ((False, config), s)
      else let (present, s) = OneWire_Reset_dma env s
      in if \<not> present then ((False, config), s)
      else let (ok, s) = OneWire_WriteByte_dma env (ucast ONEW_SKIP_ROM) s
      in if \<not> ok then ((False, config), s)
      else let (ok, s) = OneWire_WriteByte_dma env (ucast DS18B20_READ_SCRATCHPAD) s
      in if \<not> ok then ((False, config), s)
      else ((True, config\<lparr>data := buf\<rparr>), s))"

text \<open>The checksum runs over \<open>config->length\<close> bytes of the new buffer, \<open>None\<close> when it is shorter.\<close>

definition DS18B20_ReadAndProcess_dma ::
  "'e ow_env \<Rightarrow> u8 list \<Rightarrow> DS18B20_Config \<Rightarrow> DS18B20_DataPacket \<Rightarrow> 'e ow \<Rightarrow>
   ((bool \<times> DS18B20_Config \<times> DS18B20_DataPacket) \<times> 'e ow) option" where
  "DS18B20_ReadAndProcess_dma env buf config pkt s =
     (case DS18B20_Convert_dma env (address config) s of None \<Rightarrow> None
      | Some (ok, s) \<Rightarrow>
        if \<not> ok then Some ((False, config, pkt), s)
        else let len = length (data config);
                 ((result, config), s) =
                   (if address config = ucast ONEW_SKIP_ROM then DS18B20_SkipRead_dma env buf config s
                    else ((DS18B20_MatchRead_dma config, config), s))
             in if length (data config) < len then None
             else if \<not> DS18B20_CRC_dma (data config) len then Some ((False, config, pkt), s)
             else if \<not> result then Some ((result, config, pkt), s)
             else Some ((result, config, pkt\<lparr>temperature := DS18B20_temp (data config), paddress := 0\<rparr>), s))"

subsection \<open>Facts\<close>

lemma CRC_dma_eq: "DS18B20_CRC_dma = DS18B20_CRC"
  by (intro ext) (simp add: DS18B20_CRC_dma_def DS18B20_CRC_def DS18B20_crc_value_def)

text \<open>The start of a conversion is the one without DMA up to the loop that waits for its end.\<close>

lemma Convert_dma_eq:
  "DS18B20_Convert_dma env addr s =
     (if fst (DS18B20_Convert env addr s) then None else Some (DS18B20_Convert env addr s))"
  by (simp add: DS18B20_Convert_dma_def DS18B20_Convert_def OneWire_bytes_dma Let_def case_prod_unfold)

text \<open>No call of the variant produces a reading: what it returns is a failure, with the packet as it was.\<close>

theorem DS18B20DMA_no_reading:
  assumes "DS18B20_ReadAndProcess_dma env buf config pkt s = Some ((ok, config', pkt'), s')"
  shows "\<not> ok \<and> config' = config \<and> pkt' = pkt \<and> \<not> fst (DS18B20_Convert env (address config) s)"
  using assms by (auto simp: DS18B20_ReadAndProcess_dma_def Convert_dma_eq split: if_splits prod.splits)

text \<open>And its scratchpad read takes the bytes that were in the DMA buffer before, whatever the sensor holds: with the
  same commands the driver without DMA reads nine bytes from the line.\<close>

theorem DS18B20DMA_stale_scratchpad:
  assumes "DS18B20_SkipRead_dma env buf config s = ((True, config'), s')"
  shows "data config' = buf"
    and "255 < length (data config) \<or>
      DS18B20_SkipRead env config s = Some ((True, config\<lparr>data := fst (read_bytes env (length (data config)) s')\<rparr>),
        snd (read_bytes env (length (data config)) s'))"
  using assms
  by (auto simp: DS18B20_SkipRead_dma_def DS18B20_SkipRead_def OneWire_bytes_dma Let_def case_prod_unfold split: if_splits)

end
