(* ===== verification/Spec2Isabelle.thy ===== *)
theory Spec2Isabelle
  imports Startup Graph BME280 DHT DS18B20 SGP30 PMS5003 EEPROM DS1307 KY40 SSD1327 SH1107 Dma Core Crc Dhcp Dns Process
    Rtos Pipeline Dataflow Channel Net Font OneWireDma Report RttChannel RttPrintf SysViewReentry SysViewPrint SysViewApp
    SysViewHooks LogTrace Station Heartbeat SensorLoops MainTrace DS18B20Dma
begin

text \<open>
  Verification of hkRTOS, a FreeRTOS firmware for a Raspberry Pi Pico W that reads nine
  environmental sensors, processes their packets, logs them and publishes them over MQTT. The sources
  are the C files under src/src, the headers under src/include, and the trace recorder under src/lib/SEGGER, which
  the logger and the kernel's hooks call.

  \<^bold>\<open>The program.\<close> \<open>main\<close> initialises the buses, creates one queue per sensor, a queue set over them and three
  queues between the tasks, and starts fifteen tasks. A sensor task repeats its driver's start-up
  until it succeeds and then polls, sending a packet to its queue when a reading succeeded. The collect
  task waits on the queue set, stores each packet in its slot of a snapshot, and every two seconds hands
  the snapshot to the process task and to the send task. The process task adds averages and sends the
  snapshot on to the display task (which logs it) and to the send task (which calls the packet's
  \<open>jsonify\<close> pointer and publishes the text). The WiFi task connects with the credentials in the EEPROM;
  the manager raises the bit of normal mode, which every other task waits for, or that of the configuration mode, in which
  the WiFi task opens an access point with a page for the credentials. (A DHCP and a DNS server for that access
  point are in the sources; nothing starts them.)

  \<^bold>\<open>The theories.\<close> In the order of their imports:
  \<^item> \<open>Prelude\<close>, \<open>F32\<close>: words, bytes, \<open>i8\<close>/\<open>i16\<close>/\<open>i32\<close> with overflow as \<open>None\<close>, \<open>snprintf\<close>, loops with a bound;
    single-precision numbers as rationals with rounding to nearest even.
  \<^item> \<open>Core\<close>: core/bcd.h, map.h, hmean.c, gpio.c, logger.c and the logging macros of logger.h.
  \<^item> \<open>Bus\<close>, \<open>Task\<close>: comm/i2c.c; the I2C environment is a parameter, the mutex a log that a small automaton
    checks. The locale \<open>sensor_task\<close> is the contract between a driver and the loop of its task; every I2C
    sensor driver interprets it.
  \<^item> \<open>Crc\<close>: the three checksum loops; the locale \<open>shift_register\<close> gives error detection, interpreted for both registers.
  \<^item> \<open>Packet\<close>, \<open>BME280\<close>, \<open>DHT\<close>, \<open>SGP30\<close>, \<open>PMS5003\<close>, \<open>OneWire\<close>, \<open>DS18B20\<close>, \<open>Dma\<close>: the sensor drivers with their tasks, the 1-Wire bus,
    the DMA interrupt handlers with the UART; \<open>OneWireDma\<close>, \<open>DS18B20Dma\<close>: the variants over DMA.
  \<^item> \<open>EEPROM\<close>, \<open>DS1307\<close>, \<open>KY40\<close>: storage, clock, encoder; \<open>Calendar\<close>: what the clock uses of time.h.
  \<^item> \<open>Canvas\<close>, \<open>SSD1327\<close>, \<open>SH1107\<close>, \<open>Graph\<close>: the drawing routines over any pixel store (locale \<open>canvas\<close>), the two displays that provide
    one, and display/gfx/gfx.c on top: the scrolling graph and the screen savers; \<open>Font\<close>: the font table and the text it paints.
  \<^item> \<open>Dhcp\<close>, \<open>Dns\<close>, \<open>Net\<close>: the two servers; WiFi, manager, heartbeat and MQTT over an event group.
  \<^item> \<open>Process\<close>: the weighted averages of process.c.
  \<^item> \<open>Rtos\<close>, \<open>Pipeline\<close>, \<open>Dataflow\<close>, \<open>Channel\<close>: the kernel calls as a parameter with the laws of the locale \<open>freertos\<close>; the four
    data tasks as state machines with the inductive relation \<open>step\<close> over all interleavings; invariants of the
    reachable states; the simulation by an abstract lossy channel.
  \<^item> \<open>SensorLoops\<close>: the whole tasks of DS18B20 and PMS5003. \<open>Heartbeat\<close>: the ping timers over the life of the station.
  \<^item> \<open>Startup\<close>: main.c, the sizes of the packet structures, failing allocations, pins and addresses.
  \<^item> \<open>Station\<close>: the tasks that main starts as one transition system: the network side (\<open>boot_step\<close>), the mode bit in front of thirteen
    tasks, the broker's bit in front of the sender, and the pipeline (\<open>step\<close>); a run has a list of labelled events.
  \<^item> \<open>Report\<close>: the lines of the display task through the logger's buffers.
  \<^item> \<open>Rtt\<close>, \<open>RttApi\<close>, \<open>RttChannel\<close>: SEGGER_RTT.c. The ring buffers in their three modes and the control block; the locale
    \<open>byte_channel\<close> is the contract of a bounded byte queue, interpreted for a single buffer and for terminal channel 0.
  \<^item> \<open>Printf\<close>, \<open>RttPrintf\<close>: SEGGER_RTT_printf.c over any destination of characters (locale \<open>char_sink\<close>), interpreted for the
    64-byte buffer of \<open>SEGGER_RTT_vprintf\<close> and for the packets of \<open>_VPrintTarget\<close>.
  \<^item> \<open>SysView\<close>, \<open>SysViewCodec\<close>, \<open>SysViewTrace\<close>: SEGGER_SYSVIEW.c. The recorder's state and every operation; the decoder of
    the trace host; the abstract recorder and the simulation. \<open>SysViewLive\<close>: the invariant \<open>live\<close> and the locale
    \<open>packet_sender\<close>, what a function that sends a packet promises to the ones that call it. \<open>SysViewReentry\<close>: the recursion
    of \<open>_SendPacket\<close> through the host's commands, with the stack as fuel; two frames are enough. \<open>SysViewPrint\<close>: formatted messages. \<open>SysViewApp\<close>: registered data.
  \<^item> \<open>SysViewTasks\<close>, \<open>SysViewHooks\<close>: FreeRTOSV11/SEGGER_SYSVIEW_FreeRTOS.c and .h, the task list as a finite map and the
    macros the kernel calls, those for its functions as tables. \<open>LogTrace\<close>: the logger on the recorder.
    \<open>MainTrace\<close>: the tasks of main in the recorder's list, and the monitor task's lines.

  \<^bold>\<open>What is shown.\<close> Of the system: the pipeline refines a lossy first-in-first-out channel whose packets come out
  processed, the queue set never forgets a packet, a slot only holds what its sensor sent, the sender calls no
  null pointer once both BME280 have reported before the first snapshot and may do so otherwise; whatever the network,
  the manager and the broker do, nothing is measured without a link and nothing is published before the broker accepted, but
  a connection later than the manager's thirty seconds leaves a station that measures and keeps its open access point; and \<open>main\<close>
  starts the scheduler only with every object in place and every queue wide enough for its packet. Of the
  trace: a channel is a byte queue, the host decodes exactly the packets the recorder accepted, every event is decoded or
  counted but for the first of each overflow, no sequence of kernel hooks, host commands and packets that fit their
  buffer makes the recorder fault, and handling the host's commands never nests deeper than two packets. Of the
  components: locking discipline, detection of corrupted frames, exact decoding, bounds of the fixed-point
  arithmetic, termination and exactness of the line drawing, round trips of EEPROM blobs, clock and
  credentials, lease safety of the DHCP server, memory safety of the DNS server. The theorems on errors
  (stale data, a helper without a result, overreads, a leak of stack bytes, mode bits that overlap, a log message used as a format, a division by
  zero) state behaviour the code has and its authors did not mean.

  \<^bold>\<open>Bounds.\<close> Loops are structural or recursive with a measure. The start-up retry may run for ever and is a
  partial function whose value \<open>None\<close> is that; \<open>retry_init_returns\<close> gives its value when an attempt succeeds.
  The line loop has fuel, and the termination theorem shows that the fuel given is enough for every pair of end
  points. \<open>rounds n\<close> is the first \<open>n\<close> rounds of an endless loop.
  A blocking write has the schedule of the probe as its fuel, and as many rounds as there are bytes are shown to be
  enough when the probe takes a byte each time; the format loops have one round per character of the format.
  \<open>SendPacket_depth\<close> has the stack as its fuel, and \<open>SendPacket_two_frames\<close> gives the depth that suffices.

  \<^bold>\<open>Parameters.\<close> The Pico SDK, FreeRTOS, lwIP, the C mathematics functions, random numbers, the cycle counter, the strings at
  the addresses passed to a format, the trace host, the memory behind
  an object where the code reads past it, and what the devices answer are arguments of the definitions.

  \<^bold>\<open>Not modelled.\<close> The flash driver (empty bodies); PIO assembly; the web page (constant data);
  log messages, apart from the logger itself, the display and the monitor task. A wait for event bits ends as the FreeRTOS
  manual says (\<open>wait_bits\<close>, \<open>wake\<close>); the time it takes is not modelled, so the manager's thirty seconds may end at any step.
  Of src/lib/SEGGER: the assembler variant of RTT, the lock macros and the cache options (one thread of control is
  modelled), the post-mortem mode, which the configuration switches off, and the hooks of the legacy interface. The
  negation of the least \<open>int\<close> in \<open>_PrintInt\<close>, an overflow, is a fault of the model.
\<close>

end
